(* ===== verification/Py_Prelude.thy ===== *)
theory Py_Prelude
  imports Main "HOL-Library.AList"
begin

text \<open>
  Shared base of the development: Python's exceptions as values, dictionaries as
  association lists that keep insertion order (\<open>AList.update\<close> overwrites in place or
  appends, as a Python \<open>dict\<close> does), and the interface of an encoding that can be read
  back (locale \<open>codec\<close>), which the number formats, the table format and the wire
  format of the BPF maps all provide.
\<close>

section \<open>Results and exceptions\<close>

datatype py_error =
    ValueError
  | KeyError
  | IndexError
  | TypeError
  | AttributeError
  | OverflowError
  | CsvError
  | StructError
  | FileNotFound
  | PermissionError
  | SystemExit int

type_synonym 'a res = "py_error + 'a"

definition bindr :: "'a res \<Rightarrow> ('a \<Rightarrow> 'b res) \<Rightarrow> 'b res" where
  "bindr r f = (case r of Inl e \<Rightarrow> Inl e | Inr x \<Rightarrow> f x)"

lemma bindr_simps [simp]:
  "bindr (Inl e) f = Inl e"
  "bindr (Inr x) f = f x"
  by (simp_all add: bindr_def)

lemma bindr_Inr_conv: "bindr r f = Inr y \<longleftrightarrow> (\<exists>x. r = Inr x \<and> f x = Inr y)"
  by (auto simp: bindr_def split: sum.splits)

lemma bindr_cong [fundef_cong]:
  "r = r' \<Longrightarrow> (\<And>x. r' = Inr x \<Longrightarrow> f x = g x) \<Longrightarrow> bindr r f = bindr r' g"
  by (auto simp: bindr_def split: sum.splits)

text \<open>A Python conversion that raises \<open>ValueError\<close> when it has no result.\<close>

definition or_value_error :: "'a option \<Rightarrow> 'a res" where
  "or_value_error x = (case x of None \<Rightarrow> Inl ValueError | Some y \<Rightarrow> Inr y)"

lemma or_value_error_simps [simp]:
  "or_value_error None = Inl ValueError"
  "or_value_error (Some y) = Inr y"
  by (simp_all add: or_value_error_def)

fun mapr :: "('a \<Rightarrow> 'b res) \<Rightarrow> 'a list \<Rightarrow> 'b list res" where
  "mapr f [] = Inr []"
| "mapr f (x # xs) = bindr (f x) (\<lambda>y. bindr (mapr f xs) (\<lambda>ys. Inr (y # ys)))"

lemma mapr_Inr_length: "mapr f xs = Inr ys \<Longrightarrow> length ys = length xs"
  by (induction xs arbitrary: ys) (auto simp: bindr_Inr_conv)

lemma mapr_total: "(\<And>x. x \<in> set xs \<Longrightarrow> f x = Inr (g x)) \<Longrightarrow> mapr f xs = Inr (map g xs)"
  by (induction xs) auto

lemma map_filter_eq: "List.map_filter f xs = map (\<lambda>x. the (f x)) (filter (\<lambda>x. f x \<noteq> None) xs)"
  by (induction xs) (auto split: option.splits)

section \<open>Dictionaries\<close>

type_synonym ('k, 'v) dict = "('k \<times> 'v) list"

abbreviation dput :: "'k \<Rightarrow> 'v \<Rightarrow> ('k, 'v) dict \<Rightarrow> ('k, 'v) dict" where
  "dput \<equiv> AList.update"

definition dget :: "('k, 'v) dict \<Rightarrow> 'k \<Rightarrow> 'v \<Rightarrow> 'v" where
  "dget d k v = (case map_of d k of None \<Rightarrow> v | Some x \<Rightarrow> x)"

definition dpop :: "'k \<Rightarrow> ('k, 'v) dict \<Rightarrow> ('k, 'v) dict" where
  "dpop k d = filter (\<lambda>p. fst p \<noteq> k) d"

definition dkeys :: "('k, 'v) dict \<Rightarrow> 'k list" where
  "dkeys d = map fst d"

definition has_key :: "('k, 'v) dict \<Rightarrow> 'k \<Rightarrow> bool" where
  "has_key d k \<longleftrightarrow> map_of d k \<noteq> None"

text \<open>Two dictionaries are equal when they hold the same items, in any order.\<close>

definition dict_eq :: "('k, 'v) dict \<Rightarrow> ('k, 'v) dict \<Rightarrow> bool" where
  "dict_eq d e \<longleftrightarrow> list_all (\<lambda>k. map_of d k = map_of e k) (map fst d @ map fst e)"

lemma dict_eq_iff: "dict_eq d e \<longleftrightarrow> map_of d = map_of e"
proof
  assume a: "dict_eq d e"
  show "map_of d = map_of e"
  proof
    fix k
    show "map_of d k = map_of e k"
    proof (cases "k \<in> fst ` set d \<union> fst ` set e")
      case True
      with a show ?thesis by (auto simp: dict_eq_def list_all_iff)
    next
      case False
      then show ?thesis by (simp add: map_of_eq_None_iff [THEN iffD2])
    qed
  qed
qed (simp add: dict_eq_def list_all_iff)

lemma dict_eq_refl [simp]: "dict_eq d d"
  by (simp add: dict_eq_iff)

lemma map_of_dput [simp]: "map_of (dput k v d) = (map_of d)(k \<mapsto> v)"
  by (simp add: update_conv')

lemma dget_dput [simp]: "dget (dput k v d) k' w = (if k = k' then v else dget d k' w)"
  by (simp add: dget_def)

lemma map_of_dpop [simp]: "map_of (dpop k d) k' = (if k' = k then None else map_of d k')"
  by (induction d) (auto simp: dpop_def)

lemma dget_Some: "map_of d k = Some v \<Longrightarrow> dget d k w = v"
  by (simp add: dget_def)

lemma dget_None: "map_of d k = None \<Longrightarrow> dget d k w = w"
  by (simp add: dget_def)

lemma fst_set_dput [simp]: "fst ` set (dput k v d) = insert k (fst ` set d)"
  by (simp add: dom_update flip: dom_map_of_conv_image_fst)

lemma distinct_dput: "distinct (map fst d) \<Longrightarrow> distinct (map fst (dput k v d))"
  by (rule distinct_update)

lemma dput_absent: "k \<notin> fst ` set d \<Longrightarrow> dput k v d = d @ [(k, v)]"
  by (induction d) auto

lemma snd_set_dput_absent: "k \<notin> fst ` set d \<Longrightarrow> snd ` set (dput k v d) = insert v (snd ` set d)"
  by (simp add: dput_absent)

section \<open>Encodings that can be read back\<close>

locale codec =
  fixes enc :: "'a \<Rightarrow> 'b"
    and dec :: "'b \<Rightarrow> 'a option"
    and valid :: "'a \<Rightarrow> bool"
  assumes dec_enc: "valid x \<Longrightarrow> dec (enc x) = Some x"
begin

lemma enc_eq_iff: "valid x \<Longrightarrow> valid y \<Longrightarrow> enc x = enc y \<longleftrightarrow> x = y"
  by (metis dec_enc option.inject)

lemma enc_inj_on: "inj_on enc (Collect valid)"
  by (rule inj_onI) (simp add: enc_eq_iff)

lemma dec_enc_list: "list_all valid xs \<Longrightarrow> map dec (map enc xs) = map Some xs"
  by (induction xs) (simp_all add: dec_enc)

lemma dec_enc_mapr: "list_all valid xs \<Longrightarrow> mapr (\<lambda>y. or_value_error (dec y)) (map enc xs) = Inr xs"
  by (induction xs) (simp_all add: dec_enc)

end

end
