(* ===== verification/Py_Strings.thy ===== *)
theory Py_Strings
  imports Py_Prelude
begin

text \<open>
  The string operations of Python that the program uses, on \<open>string\<close> (a list of
  one-byte characters). The program's inputs (objdump text, tables, C stubs) are ASCII, so
  one character is one code point; character classes and case folding are the ASCII ones.
  Number conversion follows \<open>int(s, base)\<close>: surrounding blanks, a sign, the
  \<open>0x\<close> prefix for base 16, single underscores between digits, and \<open>None\<close> where
  Python raises \<open>ValueError\<close>.
\<close>

section \<open>Characters\<close>

abbreviation TAB :: char where "TAB \<equiv> CHR 0x09"
abbreviation NL :: char where "NL \<equiv> CHR 0x0A"
abbreviation CR :: char where "CR \<equiv> CHR 0x0D"
abbreviation DQ :: char where "DQ \<equiv> CHR 0x22"

definition is_space :: "char \<Rightarrow> bool" where
  "is_space c \<longleftrightarrow> (let n = (of_char c :: nat) in (9 \<le> n \<and> n \<le> 13) \<or> (28 \<le> n \<and> n \<le> 32))"

definition is_digit :: "char \<Rightarrow> bool" where
  "is_digit c \<longleftrightarrow> (let n = (of_char c :: nat) in 48 \<le> n \<and> n \<le> 57)"

definition is_hex :: "char \<Rightarrow> bool" where
  "is_hex c \<longleftrightarrow> (let n = (of_char c :: nat) in
     (48 \<le> n \<and> n \<le> 57) \<or> (65 \<le> n \<and> n \<le> 70) \<or> (97 \<le> n \<and> n \<le> 102))"

definition is_lower :: "char \<Rightarrow> bool" where
  "is_lower c \<longleftrightarrow> (let n = (of_char c :: nat) in 97 \<le> n \<and> n \<le> 122)"

text \<open>The regular-expression class \<open>\w\<close>.\<close>

definition is_word :: "char \<Rightarrow> bool" where
  "is_word c \<longleftrightarrow> (let n = (of_char c :: nat) in
     (48 \<le> n \<and> n \<le> 57) \<or> (65 \<le> n \<and> n \<le> 90) \<or> n = 95 \<or> (97 \<le> n \<and> n \<le> 122))"

lemma is_hex_is_word: "is_hex c \<Longrightarrow> is_word c"
  by (auto simp: is_hex_def is_word_def Let_def)

lemma is_digit_is_hex: "is_digit c \<Longrightarrow> is_hex c"
  by (auto simp: is_digit_def is_hex_def Let_def)

lemma is_word_not_space: "is_word c \<Longrightarrow> \<not> is_space c"
  by (auto simp: is_space_def is_word_def Let_def)

definition lower_char :: "char \<Rightarrow> char" where
  "lower_char c = (let n = (of_char c :: nat) in if 65 \<le> n \<and> n \<le> 90 then char_of (n + 32) else c)"

definition upper_char :: "char \<Rightarrow> char" where
  "upper_char c = (let n = (of_char c :: nat) in if 97 \<le> n \<and> n \<le> 122 then char_of (n - 32) else c)"

definition py_lower :: "string \<Rightarrow> string" where
  "py_lower s = map lower_char s"

definition py_upper :: "string \<Rightarrow> string" where
  "py_upper s = map upper_char s"

lemma lower_char_idem [simp]: "lower_char (lower_char c) = lower_char c"
  by (auto simp: lower_char_def Let_def)

lemma py_lower_idem [simp]: "py_lower (py_lower s) = py_lower s"
  by (simp add: py_lower_def)

lemma py_lower_append [simp]: "py_lower (s @ t) = py_lower s @ py_lower t"
  by (simp add: py_lower_def)

lemma py_lower_Nil [simp]: "py_lower [] = []"
  by (simp add: py_lower_def)

section \<open>Slicing, stripping, searching\<close>

definition lstrip_by :: "(char \<Rightarrow> bool) \<Rightarrow> string \<Rightarrow> string" where
  "lstrip_by P s = dropWhile P s"

definition rstrip_by :: "(char \<Rightarrow> bool) \<Rightarrow> string \<Rightarrow> string" where
  "rstrip_by P s = rev (dropWhile P (rev s))"

definition py_strip :: "string \<Rightarrow> string" where
  "py_strip s = rstrip_by is_space (lstrip_by is_space s)"

fun starts_with :: "string \<Rightarrow> string \<Rightarrow> bool" where
  "starts_with [] s = True"
| "starts_with (p # ps) [] = False"
| "starts_with (p # ps) (c # cs) = (p = c \<and> starts_with ps cs)"

definition ends_with :: "string \<Rightarrow> string \<Rightarrow> bool" where
  "ends_with p s = starts_with (rev p) (rev s)"

fun contains :: "string \<Rightarrow> string \<Rightarrow> bool" where
  "contains p [] = (p = [])"
| "contains p (c # cs) = (starts_with p (c # cs) \<or> contains p cs)"

text \<open>\<open>s.find(c)\<close> for one character, with \<open>None\<close> for \<open>-1\<close>.\<close>

fun find_char :: "char \<Rightarrow> string \<Rightarrow> nat option" where
  "find_char d [] = None"
| "find_char d (c # cs) = (if c = d then Some 0 else map_option Suc (find_char d cs))"

lemma starts_with_append [simp]: "starts_with p (p @ s)"
  by (induction p) auto

lemma starts_with_iff: "starts_with p s \<longleftrightarrow> (\<exists>t. s = p @ t)"
  by (induction p s rule: starts_with.induct) auto

lemma ends_with_iff: "ends_with p s \<longleftrightarrow> (\<exists>t. s = t @ p)"
proof
  assume "ends_with p s"
  then obtain t where "rev s = rev p @ t"
    by (auto simp: ends_with_def starts_with_iff)
  then have "rev (rev s) = rev (rev p @ t)" by (rule arg_cong)
  then show "\<exists>t. s = t @ p" by simp
qed (auto simp: ends_with_def)

lemma contains_iff: "contains p s \<longleftrightarrow> (\<exists>a b. s = a @ p @ b)"
proof (induction s)
  case Nil
  then show ?case by auto
next
  case (Cons c cs)
  show ?case
  proof
    assume "contains p (c # cs)"
    then consider "starts_with p (c # cs)" | "contains p cs" by auto
    then show "\<exists>a b. c # cs = a @ p @ b"
    proof cases
      case 1
      then show ?thesis by (metis append_Nil starts_with_iff)
    next
      case 2
      then show ?thesis by (metis Cons.IH append_Cons)
    qed
  next
    assume "\<exists>a b. c # cs = a @ p @ b"
    then obtain a b where ab: "c # cs = a @ p @ b" by blast
    show "contains p (c # cs)"
    proof (cases "a = []")
      case True
      with ab have "starts_with p (c # cs)" by (simp add: starts_with_iff)
      then show ?thesis by simp
    next
      case False
      with ab have "cs = tl a @ p @ b" by (cases a) auto
      then have "contains p cs" using Cons.IH by blast
      then show ?thesis by simp
    qed
  qed
qed

lemma find_char_Some: "find_char d s = Some i \<Longrightarrow> i < length s \<and> s ! i = d \<and> d \<notin> set (take i s)"
  by (induction s arbitrary: i) (auto split: if_splits)

lemma find_char_None: "find_char d s = None \<longleftrightarrow> d \<notin> set s"
  by (induction s) auto

lemma find_char_append: "d \<notin> set s \<Longrightarrow> find_char d (s @ d # t) = Some (length s)"
  by (induction s) auto

lemma strip_id: "(\<And>c. c \<in> set s \<Longrightarrow> \<not> is_space c) \<Longrightarrow> py_strip s = s"
proof -
  assume h: "\<And>c. c \<in> set s \<Longrightarrow> \<not> is_space c"
  then have "dropWhile is_space s = s" and "dropWhile is_space (rev s) = rev s"
    by (auto simp: dropWhile_eq_self_iff hd_in_set intro!: h) (metis hd_in_set set_rev rev_is_Nil_conv)
  then show ?thesis by (simp add: py_strip_def lstrip_by_def rstrip_by_def)
qed

section \<open>Splitting, joining, replacing\<close>

fun split_by :: "(char \<Rightarrow> bool) \<Rightarrow> string \<Rightarrow> string list" where
  "split_by P [] = [[]]"
| "split_by P (c # cs) =
     (if P c then [] # split_by P cs
      else (case split_by P cs of [] \<Rightarrow> [[c]] | x # xs \<Rightarrow> (c # x) # xs))"

abbreviation split_on :: "char \<Rightarrow> string \<Rightarrow> string list" where
  "split_on d \<equiv> split_by (\<lambda>c. c = d)"

text \<open>\<open>s.split()\<close>: the maximal runs of non-blank characters.\<close>

definition split_ws :: "string \<Rightarrow> string list" where
  "split_ws s = filter (\<lambda>w. w \<noteq> []) (split_by is_space s)"

fun join :: "string \<Rightarrow> string list \<Rightarrow> string" where
  "join sep [] = []"
| "join sep [x] = x"
| "join sep (x # y # ys) = x @ sep @ join sep (y # ys)"

lemma split_by_nonempty [simp]: "split_by P s \<noteq> []"
  by (induction s) (auto split: list.splits)

lemma join_Cons: "xs \<noteq> [] \<Longrightarrow> join sep (x # xs) = x @ sep @ join sep xs"
  by (cases xs) auto

lemma join_split_on: "join [d] (split_on d s) = s"
proof (induction s)
  case Nil
  then show ?case by simp
next
  case (Cons c cs)
  obtain x xs where x: "split_on d cs = x # xs"
    by (meson neq_Nil_conv split_by_nonempty)
  with Cons show ?case by (cases xs) auto
qed

lemma split_by_no: "(\<And>c. c \<in> set s \<Longrightarrow> \<not> P c) \<Longrightarrow> split_by P s = [s]"
  by (induction s) auto

lemma split_by_append:
  "(\<And>c. c \<in> set s \<Longrightarrow> \<not> P c) \<Longrightarrow> P d \<Longrightarrow> split_by P (s @ d # t) = s # split_by P t"
  by (induction s) auto

lemma split_on_join:
  "xs \<noteq> [] \<Longrightarrow> (\<And>x. x \<in> set xs \<Longrightarrow> d \<notin> set x) \<Longrightarrow> split_on d (join [d] xs) = xs"
proof (induction xs rule: induct_list012)
  case (2 x)
  then show ?case by (auto intro: split_by_no)
next
  case (3 x y zs)
  have "split_on d (x @ d # join [d] (y # zs)) = x # split_on d (join [d] (y # zs))"
    using "3.prems" by (intro split_by_append) auto
  also have "split_on d (join [d] (y # zs)) = y # zs"
    using "3.prems" by (intro "3.IH"(2)) auto
  finally show ?case by simp
qed simp

text \<open>\<open>s.replace(old, new)\<close>: leftmost, non-overlapping.\<close>

function py_replace :: "string \<Rightarrow> string \<Rightarrow> string \<Rightarrow> string" where
  "py_replace old new [] = (if old = [] then new else [])"
| "py_replace old new (c # cs) =
     (if old = [] then new @ c # py_replace old new cs
      else if starts_with old (c # cs)
        then new @ py_replace old new (drop (length old) (c # cs))
      else c # py_replace old new cs)"
  by pat_completeness auto
termination
proof (relation "measure (\<lambda>(old, new, s). length s)", goal_cases)
  case (3 old new c cs)
  then show ?case by (cases old) auto
qed auto

lemma py_replace_absent: "old \<noteq> [] \<Longrightarrow> \<not> contains old s \<Longrightarrow> py_replace old new s = s"
  by (induction s) auto

lemma py_replace_refl: "old \<noteq> [] \<Longrightarrow> py_replace old old s = s"
proof (induction s rule: length_induct)
  case (1 s)
  show ?case
  proof (cases s)
    case (Cons c cs)
    show ?thesis
    proof (cases "starts_with old (c # cs)")
      case True
      then obtain t where t: "c # cs = old @ t" by (auto simp: starts_with_iff)
      with Cons "1.prems" have "length t < length s" by simp
      with 1 have "py_replace old old t = t" by blast
      moreover have "drop (length old) (c # cs) = t" by (simp only: t) simp
      ultimately have "py_replace old old (c # cs) = old @ t"
        using True "1.prems" by (simp only: py_replace.simps if_False if_True)
      with t show ?thesis by (simp add: Cons)
    next
      case False
      with 1 Cons show ?thesis by simp
    qed
  qed simp
qed

text \<open>
  The lines of an open text file, each with its newline (\<open>readlines\<close>), and
  \<open>content.split(NL)\<close>. Newlines are already translated, as in a file opened in text mode.
\<close>

definition readlines :: "string \<Rightarrow> string list" where
  "readlines s = (let ps = split_on NL s in
     map (\<lambda>l. l @ [NL]) (butlast ps) @ (if last ps = [] then [] else [last ps]))"

lemma concat_map_snoc: "ps \<noteq> [] \<Longrightarrow> concat (map (\<lambda>l. l @ [d]) (butlast ps)) @ last ps = join [d] ps"
  by (induction ps rule: induct_list012) auto

lemma concat_readlines: "concat (readlines s) = s"
proof -
  have "concat (readlines s) = concat (map (\<lambda>l. l @ [NL]) (butlast (split_on NL s))) @ last (split_on NL s)"
    by (simp add: readlines_def Let_def)
  also have "\<dots> = s"
    by (simp add: concat_map_snoc join_split_on)
  finally show ?thesis .
qed

section \<open>Numbers as text\<close>

definition dig_val :: "char \<Rightarrow> nat option" where
  "dig_val c = (let n = (of_char c :: nat) in
     if 48 \<le> n \<and> n \<le> 57 then Some (n - 48)
     else if 97 \<le> n \<and> n \<le> 102 then Some (n - 87)
     else if 65 \<le> n \<and> n \<le> 70 then Some (n - 55)
     else None)"

definition dig :: "nat \<Rightarrow> char \<Rightarrow> nat option" where
  "dig b c = (case dig_val c of None \<Rightarrow> None | Some v \<Rightarrow> if v < b then Some v else None)"

fun py_digits :: "nat \<Rightarrow> nat \<Rightarrow> string \<Rightarrow> nat option" where
  "py_digits b acc [] = Some acc"
| "py_digits b acc (c # cs) =
     (if c = CHR ''_'' then
        (case cs of [] \<Rightarrow> None
         | d # ds \<Rightarrow> (case dig b d of None \<Rightarrow> None | Some v \<Rightarrow> py_digits b (acc * b + v) ds))
      else (case dig b c of None \<Rightarrow> None | Some v \<Rightarrow> py_digits b (acc * b + v) cs))"

definition py_nat :: "nat \<Rightarrow> string \<Rightarrow> nat option" where
  "py_nat b s = (case s of [] \<Rightarrow> None | c # cs \<Rightarrow> if c = CHR ''_'' then None else py_digits b 0 s)"

definition drop_hex_prefix :: "string \<Rightarrow> string" where
  "drop_hex_prefix s =
     (if starts_with ''0x'' s \<or> starts_with ''0X'' s
      then (let t = drop 2 s in if starts_with ''_'' t then drop 1 t else t)
      else s)"

definition py_int :: "nat \<Rightarrow> string \<Rightarrow> int option" where
  "py_int b s =
     (let t = py_strip s;
          neg = starts_with ''-'' t;
          u = (if neg \<or> starts_with ''+'' t then drop 1 t else t);
          w = (if b = 16 then drop_hex_prefix u else u)
      in map_option (\<lambda>n. if neg then - int n else int n) (py_nat b w))"

definition digc :: "nat \<Rightarrow> char" where
  "digc n = (if n < 10 then char_of (48 + n) else char_of (87 + n))"

fun digs :: "nat \<Rightarrow> nat \<Rightarrow> string" where
  "digs b n = (if b < 2 \<or> n < b then [digc n] else digs b (n div b) @ [digc (n mod b)])"

declare digs.simps [simp del]

text \<open>\<open>str(n)\<close> and \<open>f"{n:x}"\<close>.\<close>

definition py_str :: "int \<Rightarrow> string" where
  "py_str n = (if n < 0 then ''-'' @ digs 10 (nat (- n)) else digs 10 (nat n))"

definition hex_of :: "int \<Rightarrow> string" where
  "hex_of n = (if n < 0 then ''-'' @ digs 16 (nat (- n)) else digs 16 (nat n))"

text \<open>\<open>f"0x{n:x}"\<close>.\<close>

definition hex0x :: "int \<Rightarrow> string" where
  "hex0x n = ''0x'' @ hex_of n"

lemma of_char_digc: "n < 16 \<Longrightarrow> of_char (digc n) = (if n < 10 then 48 + n else 87 + n :: nat)"
  by (simp add: digc_def)

lemma dig_digc: "n < b \<Longrightarrow> b \<le> 16 \<Longrightarrow> dig b (digc n) = Some n"
  by (simp add: dig_def dig_val_def Let_def of_char_digc)

lemma digc_hex: "n < 16 \<Longrightarrow> is_hex (digc n)"
  by (simp add: is_hex_def Let_def of_char_digc)

lemma digc_digit: "n < 10 \<Longrightarrow> is_digit (digc n)"
  by (simp add: is_digit_def Let_def of_char_digc)

lemma is_hex_chars: "is_hex c \<Longrightarrow> c \<noteq> CHR ''_'' \<and> c \<noteq> CHR ''-'' \<and> c \<noteq> CHR ''+'' \<and> c \<noteq> CHR ''x''
  \<and> c \<noteq> CHR ''X'' \<and> \<not> is_space c"
  by (auto simp: is_hex_def is_space_def Let_def)

lemma digs_nonempty [simp]: "digs b n \<noteq> []"
  by (subst digs.simps) simp

lemma set_digs: "2 \<le> b \<Longrightarrow> b \<le> 16 \<Longrightarrow> c \<in> set (digs b n) \<Longrightarrow> \<exists>k < b. c = digc k"
proof (induction b n rule: digs.induct)
  case (1 b n)
  show ?case
  proof (cases "n < b")
    case True
    with 1 show ?thesis by (auto simp: digs.simps [of b n])
  next
    case False
    with 1 have "c \<in> set (digs b (n div b)) \<or> c = digc (n mod b)"
      by (auto simp: digs.simps [of b n])
    then show ?thesis
    proof
      assume "c = digc (n mod b)"
      with 1 show ?thesis by (metis mod_less_divisor not_numeral_le_zero not_gr0)
    qed (use 1 False in auto)
  qed
qed

lemma digs_hex: "2 \<le> b \<Longrightarrow> b \<le> 16 \<Longrightarrow> c \<in> set (digs b n) \<Longrightarrow> is_hex c"
  using set_digs digc_hex by fastforce

lemma digs_not_space: "c \<in> set (digs b n) \<Longrightarrow> 2 \<le> b \<Longrightarrow> b \<le> 16 \<Longrightarrow> \<not> is_space c"
  using digs_hex is_hex_chars by blast

lemma digs_digit: "c \<in> set (digs 10 n) \<Longrightarrow> is_digit c"
  using set_digs [of 10 c n] digc_digit by auto

lemma dig_not_us: "dig b c = Some v \<Longrightarrow> c \<noteq> CHR ''_''"
  by (auto simp: dig_def dig_val_def Let_def split: if_splits)

lemma py_digits_digs:
  "2 \<le> b \<Longrightarrow> b \<le> 16 \<Longrightarrow>
   py_digits b acc (digs b n @ rest) = py_digits b (acc * b ^ length (digs b n) + n) rest"
proof (induction b n arbitrary: acc rest rule: digs.induct)
  case (1 b n)
  have one: "py_digits b a (digc k # rest) = py_digits b (a * b + k) rest" if "k < b" for a k
    using that dig_digc [OF that "1.prems"(2)] dig_not_us [OF dig_digc [OF that "1.prems"(2)]]
    by simp
  show ?case
  proof (cases "n < b")
    case True
    then show ?thesis using one [of n acc] by (simp add: digs.simps [of b n])
  next
    case False
    let ?m = "n div b"
    have "py_digits b acc (digs b n @ rest) = py_digits b acc (digs b ?m @ digc (n mod b) # rest)"
      using False "1.prems" by (simp add: digs.simps [of b n])
    also have "\<dots> = py_digits b (acc * b ^ length (digs b ?m) + ?m) (digc (n mod b) # rest)"
      using False "1.prems" by (intro "1.IH") auto
    also have "\<dots> = py_digits b ((acc * b ^ length (digs b ?m) + ?m) * b + n mod b) rest"
      using "1.prems" by (intro one) simp
    also have "(acc * b ^ length (digs b ?m) + ?m) * b + n mod b = acc * b ^ length (digs b n) + n"
      using False "1.prems" by (simp add: digs.simps [of b n] algebra_simps)
    finally show ?thesis .
  qed
qed

lemma py_nat_digs: "2 \<le> b \<Longrightarrow> b \<le> 16 \<Longrightarrow> py_nat b (digs b n) = Some n"
proof -
  assume b: "2 \<le> b" "b \<le> 16"
  obtain c cs where c: "digs b n = c # cs" by (meson digs_nonempty neq_Nil_conv)
  then have "c \<noteq> CHR ''_''" using digs_hex [OF b, of c n] is_hex_chars by auto
  with c py_digits_digs [OF b, of 0 n "[]"] show ?thesis by (simp add: py_nat_def)
qed

lemma starts_with_set: "starts_with p s \<Longrightarrow> c \<in> set p \<Longrightarrow> c \<in> set s"
  by (auto simp: starts_with_iff)

lemma drop_hex_prefix_digs: "2 \<le> b \<Longrightarrow> b \<le> 16 \<Longrightarrow> drop_hex_prefix (digs b n) = digs b n"
proof -
  assume b: "2 \<le> b" "b \<le> 16"
  have x: "CHR ''x'' \<notin> set (digs b n)" "CHR ''X'' \<notin> set (digs b n)"
    using digs_hex [OF b] is_hex_chars by blast+
  have "\<not> starts_with ''0x'' (digs b n)"
    using x(1) starts_with_set [of "''0x''" "digs b n" "CHR ''x''"] by auto
  moreover have "\<not> starts_with ''0X'' (digs b n)"
    using x(2) starts_with_set [of "''0X''" "digs b n" "CHR ''X''"] by auto
  ultimately show ?thesis by (simp add: drop_hex_prefix_def)
qed

lemma hd_digs_no_sign: "2 \<le> b \<Longrightarrow> b \<le> 16 \<Longrightarrow>
    \<not> starts_with ''-'' (digs b n @ t) \<and> \<not> starts_with ''+'' (digs b n @ t)"
proof -
  assume b: "2 \<le> b" "b \<le> 16"
  obtain c cs where c: "digs b n = c # cs" by (meson digs_nonempty neq_Nil_conv)
  then show ?thesis using digs_hex [OF b, of c n] is_hex_chars by auto
qed

lemma py_int_py_str: "py_int 10 (py_str n) = Some n"
proof -
  have st: "py_strip (py_str n) = py_str n"
    by (rule strip_id) (auto simp: py_str_def is_space_def split: if_splits dest: digs_not_space)
  show ?thesis
  proof (cases "n < 0")
    case True
    then show ?thesis by (simp add: py_int_def Let_def st) (simp add: py_str_def py_nat_digs)
  next
    case False
    then show ?thesis using hd_digs_no_sign [of 10 "nat n" "[]"]
      by (simp add: py_int_def Let_def st) (simp add: py_str_def py_nat_digs)
  qed
qed

lemma py_int_hex_of: "py_int 16 (hex_of n) = Some n"
proof -
  have st: "py_strip (hex_of n) = hex_of n"
    by (rule strip_id) (auto simp: hex_of_def is_space_def split: if_splits dest: digs_not_space)
  show ?thesis
  proof (cases "n < 0")
    case True
    then show ?thesis
      by (simp add: py_int_def Let_def st) (simp add: hex_of_def py_nat_digs drop_hex_prefix_digs)
  next
    case False
    then show ?thesis using hd_digs_no_sign [of 16 "nat n" "[]"]
      by (simp add: py_int_def Let_def st) (simp add: hex_of_def py_nat_digs drop_hex_prefix_digs)
  qed
qed

lemma py_int_hex0x: "0 \<le> n \<Longrightarrow> py_int 16 (hex0x n) = Some n"
proof -
  assume n: "0 \<le> n"
  have st: "py_strip (hex0x n) = hex0x n"
    by (rule strip_id) (use n in \<open>auto simp: hex0x_def hex_of_def is_space_def dest: digs_not_space\<close>)
  obtain c cs where c: "digs 16 (nat n) = c # cs" by (meson digs_nonempty neq_Nil_conv)
  then have "c \<noteq> CHR ''_''" using digs_hex [of 16 c "nat n"] is_hex_chars by auto
  with c n py_nat_digs [of 16 "nat n"] show ?thesis
    by (simp add: py_int_def Let_def st) (simp add: hex0x_def hex_of_def drop_hex_prefix_def)
qed

text \<open>The number formats provide the \<open>codec\<close> interface.\<close>

interpretation dec_codec: codec py_str "py_int 10" "\<lambda>_. True"
  by unfold_locales (rule py_int_py_str)

interpretation hex_codec: codec hex_of "py_int 16" "\<lambda>_. True"
  by unfold_locales (rule py_int_hex_of)

interpretation hex0x_codec: codec hex0x "py_int 16" "\<lambda>n. 0 \<le> n"
  by unfold_locales (rule py_int_hex0x)

end
