(* ===== verification/Py_Regex.thy ===== *)
theory Py_Regex
  imports Py_Strings
begin

text \<open>
  Python's \<open>re\<close> module, as far as the program's patterns go: a pattern is a value of
  \<open>rx\<close>, written with the combinators below in the order of the source pattern, and
  \<open>mt\<close> is the backtracking matcher: greedy repetition, leftmost alternative first,
  capture groups. It runs on the character before the current position (\<open>None\<close> at
  the start of the text), the rest of the text and the groups captured so far, and calls
  its continuation for the rest of the pattern. \<open>Rep\<close> repeats a pattern that consumes
  text. Soundness and completeness against a declarative relation \<open>mrel\<close> are proved
  at the end.
\<close>

section \<open>Patterns and the matcher\<close>

datatype rx =
    Eps
  | Cls "char \<Rightarrow> bool"
  | Many nat "char \<Rightarrow> bool"
  | Rep nat rx
  | Seq rx rx
  | Alt rx rx
  | Opt rx
  | Grp nat rx
  | Bol
  | Eol
  | Wb
  | NotAhead "char \<Rightarrow> bool"

type_synonym caps = "(nat, string) dict"

type_synonym 'r cont = "char option \<Rightarrow> string \<Rightarrow> caps \<Rightarrow> 'r option"

fun many :: "(char \<Rightarrow> bool) \<Rightarrow> nat \<Rightarrow> char option \<Rightarrow> string \<Rightarrow> caps \<Rightarrow> 'r cont \<Rightarrow> 'r option" where
  "many P n p [] g k = (if n = 0 then k p [] g else None)"
| "many P n p (c # cs) g k =
     (if P c
      then (case many P (n - 1) (Some c) cs g k of
              Some x \<Rightarrow> Some x
            | None \<Rightarrow> if n = 0 then k p (c # cs) g else None)
      else if n = 0 then k p (c # cs) g else None)"

definition word_before :: "char option \<Rightarrow> bool" where
  "word_before p = (case p of None \<Rightarrow> False | Some c \<Rightarrow> is_word c)"

definition word_after :: "string \<Rightarrow> bool" where
  "word_after s = (case s of [] \<Rightarrow> False | c # _ \<Rightarrow> is_word c)"

text \<open>\<open>$\<close> holds at the end and before a newline that ends the text.\<close>

definition at_eol :: "string \<Rightarrow> bool" where
  "at_eol s \<longleftrightarrow> s = [] \<or> s = [NL]"

function mt :: "rx \<Rightarrow> char option \<Rightarrow> string \<Rightarrow> caps \<Rightarrow> 'r cont \<Rightarrow> 'r option" where
  "mt Eps p s g k = k p s g"
| "mt (Cls P) p s g k = (case s of [] \<Rightarrow> None | c # cs \<Rightarrow> if P c then k (Some c) cs g else None)"
| "mt (Many n P) p s g k = many P n p s g k"
| "mt (Rep n r) p [] g k = (if n = 0 then k p [] g else None)"
| "mt (Rep n r) p (c # cs) g k =
     (case mt r p (c # cs) g
             (\<lambda>p' s' g'. if length s' < Suc (length cs) then mt (Rep (n - 1) r) p' s' g' k else None) of
        Some x \<Rightarrow> Some x
      | None \<Rightarrow> if n = 0 then k p (c # cs) g else None)"
| "mt (Seq a b) p s g k = mt a p s g (\<lambda>p' s' g'. mt b p' s' g' k)"
| "mt (Alt a b) p s g k = (case mt a p s g k of Some x \<Rightarrow> Some x | None \<Rightarrow> mt b p s g k)"
| "mt (Opt a) p s g k = (case mt a p s g k of Some x \<Rightarrow> Some x | None \<Rightarrow> k p s g)"
| "mt (Grp n a) p s g k =
     mt a p s g (\<lambda>p' s' g'. k p' s' (dput n (take (length s - length s') s) g'))"
| "mt Bol p s g k = (if p = None then k p s g else None)"
| "mt Eol p s g k = (if at_eol s then k p s g else None)"
| "mt Wb p s g k = (if word_before p \<noteq> word_after s then k p s g else None)"
| "mt (NotAhead P) p s g k =
     (if (case s of [] \<Rightarrow> False | c # _ \<Rightarrow> P c) then None else k p s g)"
  by pat_completeness auto
termination
  by (relation "measures [\<lambda>(r, p, s, g, k). size r, \<lambda>(r, p, s, g, k). length s]") auto

subsection \<open>Building patterns\<close>

fun lit :: "string \<Rightarrow> rx" where
  "lit [] = Eps"
| "lit [c] = Cls (\<lambda>d. d = c)"
| "lit (c # d # cs) = Seq (Cls (\<lambda>e. e = c)) (lit (d # cs))"

fun seqs :: "rx list \<Rightarrow> rx" where
  "seqs [] = Eps"
| "seqs [r] = r"
| "seqs (r # q # rs) = Seq r (seqs (q # rs))"

definition one_of :: "string \<Rightarrow> char \<Rightarrow> bool" where
  "one_of s c \<longleftrightarrow> c \<in> set s"

definition not_of :: "string \<Rightarrow> char \<Rightarrow> bool" where
  "not_of s c \<longleftrightarrow> c \<notin> set s"

definition non_space :: "char \<Rightarrow> bool" where
  "non_space c \<longleftrightarrow> \<not> is_space c"

text \<open>\<open>.\<close> without \<open>DOTALL\<close>.\<close>

definition dot :: "char \<Rightarrow> bool" where
  "dot c \<longleftrightarrow> c \<noteq> NL"

section \<open>The functions of the module\<close>

definition re_exec :: "rx \<Rightarrow> char option \<Rightarrow> string \<Rightarrow> (caps \<times> char option \<times> string) option" where
  "re_exec r p s = mt r p s [] (\<lambda>p' s' g. Some (g, p', s'))"

text \<open>\<open>re.match\<close>: the groups and the rest of the text after the match.\<close>

definition re_match :: "rx \<Rightarrow> string \<Rightarrow> (caps \<times> string) option" where
  "re_match r s = (case re_exec r None s of None \<Rightarrow> None | Some (g, p, t) \<Rightarrow> Some (g, t))"

fun re_search_from :: "rx \<Rightarrow> char option \<Rightarrow> string \<Rightarrow> caps option" where
  "re_search_from r p [] = map_option fst (re_exec r p [])"
| "re_search_from r p (c # cs) =
     (case re_exec r p (c # cs) of
        Some (g, _) \<Rightarrow> Some g
      | None \<Rightarrow> re_search_from r (Some c) cs)"

definition re_search :: "rx \<Rightarrow> string \<Rightarrow> caps option" where
  "re_search r s = re_search_from r None s"

definition re_matches :: "rx \<Rightarrow> string \<Rightarrow> bool" where
  "re_matches r s \<longleftrightarrow> re_match r s \<noteq> None"

definition re_found :: "rx \<Rightarrow> string \<Rightarrow> bool" where
  "re_found r s \<longleftrightarrow> re_search r s \<noteq> None"

text \<open>
  \<open>re.sub\<close> with a constant replacement, and \<open>re.finditer\<close> as the list of
  (text before the match since the last one, matched text, groups) with the text that is
  left over. Both scan from the left and resume after a match; after an empty match one
  character is copied.
\<close>

function re_pieces :: "rx \<Rightarrow> char option \<Rightarrow> string \<Rightarrow> string \<Rightarrow>
    (string \<times> string \<times> caps) list \<times> string" where
  "re_pieces r p acc [] =
     (case re_exec r p [] of
        None \<Rightarrow> ([], rev acc)
      | Some (g, _) \<Rightarrow> ([(rev acc, [], g)], []))"
| "re_pieces r p acc (c # cs) =
     (case re_exec r p (c # cs) of
        None \<Rightarrow> re_pieces r (Some c) (c # acc) cs
      | Some (g, p', t) \<Rightarrow>
          if length t < Suc (length cs)
          then (let (ms, rest) = re_pieces r p' [] t
                in ((rev acc, take (Suc (length cs) - length t) (c # cs), g) # ms, rest))
          else (let (ms, rest) = re_pieces r (Some c) [c] cs
                in ((rev acc, [], g) # ms, rest)))"
  by pat_completeness auto
termination
  by (relation "measure (\<lambda>(r, p, acc, s). length s)") auto

definition re_sub :: "rx \<Rightarrow> string \<Rightarrow> string \<Rightarrow> string" where
  "re_sub r repl s =
     (let (ms, rest) = re_pieces r None [] s
      in concat (map (\<lambda>(b, m, g). b @ repl) ms) @ rest)"

definition re_finditer :: "rx \<Rightarrow> string \<Rightarrow> (string \<times> string \<times> caps) list" where
  "re_finditer r s = fst (re_pieces r None [] s)"

text \<open>The texts of all matches (\<open>m.group()\<close>), and \<open>m.group(n)\<close> of one.\<close>

definition re_findall0 :: "rx \<Rightarrow> string \<Rightarrow> string list" where
  "re_findall0 r s = map (\<lambda>(b, m, g). m) (re_finditer r s)"

definition group :: "caps \<Rightarrow> nat \<Rightarrow> string" where
  "group g n = dget g n []"

section \<open>Correctness of the matcher\<close>

text \<open>
  What a pattern may match, with no search order: \<open>mrel r p s p' s'\<close> says that \<open>r\<close>,
  started after \<open>p\<close> with \<open>s\<close> left, can stop after \<open>p'\<close> with \<open>s'\<close> left.
\<close>

inductive mrel :: "rx \<Rightarrow> char option \<Rightarrow> string \<Rightarrow> char option \<Rightarrow> string \<Rightarrow> bool" where
  eps: "mrel Eps p s p s"
| cls: "P c \<Longrightarrow> mrel (Cls P) p (c # cs) (Some c) cs"
| many_stop: "mrel (Many 0 P) p s p s"
| many_step: "P c \<Longrightarrow> mrel (Many (n - 1) P) (Some c) cs p' s' \<Longrightarrow> mrel (Many n P) p (c # cs) p' s'"
| rep_stop: "mrel (Rep 0 r) p s p s"
| rep_step: "mrel r p s p1 s1 \<Longrightarrow> length s1 < length s \<Longrightarrow> mrel (Rep (n - 1) r) p1 s1 p' s' \<Longrightarrow>
    mrel (Rep n r) p s p' s'"
| seq: "mrel a p s p1 s1 \<Longrightarrow> mrel b p1 s1 p' s' \<Longrightarrow> mrel (Seq a b) p s p' s'"
| alt_left: "mrel a p s p' s' \<Longrightarrow> mrel (Alt a b) p s p' s'"
| alt_right: "mrel b p s p' s' \<Longrightarrow> mrel (Alt a b) p s p' s'"
| opt_none: "mrel (Opt a) p s p s"
| opt_some: "mrel a p s p' s' \<Longrightarrow> mrel (Opt a) p s p' s'"
| grp: "mrel a p s p' s' \<Longrightarrow> mrel (Grp n a) p s p' s'"
| bol: "mrel Bol None s None s"
| eol: "at_eol s \<Longrightarrow> mrel Eol p s p s"
| wb: "word_before p \<noteq> word_after s \<Longrightarrow> mrel Wb p s p s"
| not_ahead: "\<not> (case s of [] \<Rightarrow> False | c # _ \<Rightarrow> P c) \<Longrightarrow> mrel (NotAhead P) p s p s"

inductive_cases mrel_elims:
  "mrel Eps p s p' s'"
  "mrel (Cls P) p s p' s'"
  "mrel (Many n P) p s p' s'"
  "mrel (Rep n r) p s p' s'"
  "mrel (Seq a b) p s p' s'"
  "mrel (Alt a b) p s p' s'"
  "mrel (Opt a) p s p' s'"
  "mrel (Grp n a) p s p' s'"
  "mrel Bol p s p' s'"
  "mrel Eol p s p' s'"
  "mrel Wb p s p' s'"
  "mrel (NotAhead P) p s p' s'"

lemma many_sound: "many P n p s g k = Some x \<Longrightarrow> \<exists>p' s'. mrel (Many n P) p s p' s' \<and> k p' s' g = Some x"
proof (induction P n p s g k rule: many.induct)
  case (1 P n p g k)
  then show ?case by (auto split: if_splits intro: mrel.intros)
next
  case (2 P n p c cs g k)
  show ?case
  proof (cases "P c \<and> many P (n - 1) (Some c) cs g k \<noteq> None")
    case True
    with 2 show ?thesis by (fastforce intro: mrel.intros)
  next
    case False
    with 2 show ?thesis by (fastforce split: if_splits intro: mrel.intros)
  qed
qed

lemma mt_sound: "mt r p s g k = Some x \<Longrightarrow> \<exists>p' s' g'. mrel r p s p' s' \<and> k p' s' g' = Some x"
proof (induction r p s g k rule: mt.induct)
  case (2 P p s g k)
  then show ?case by (auto split: list.splits if_splits intro: mrel.intros)
next
  case (3 n P p s g k)
  then show ?case using many_sound by fastforce
next
  case (5 n r p c cs g k)
  let ?k = "\<lambda>p' s' g'. if length s' < Suc (length cs) then mt (Rep (n - 1) r) p' s' g' k else None"
  show ?case
  proof (cases "mt r p (c # cs) g ?k")
    case None
    with 5 show ?thesis by (auto split: if_splits intro: mrel.intros)
  next
    case (Some y)
    with 5 have "mt r p (c # cs) g ?k = Some x" by simp
    with "5.IH"(2) obtain p1 s1 g1 where 1: "mrel r p (c # cs) p1 s1" "?k p1 s1 g1 = Some x"
      by blast
    with "5.IH"(1) obtain p' s' g' where "mrel (Rep (n - 1) r) p1 s1 p' s'" "k p' s' g' = Some x"
      by (fastforce split: if_splits)
    with 1 show ?thesis by (fastforce split: if_splits intro: mrel.intros)
  qed
next
  case (6 a b p s g k)
  from 6 obtain p1 s1 g1 where "mrel a p s p1 s1" "mt b p1 s1 g1 k = Some x" by auto
  then show ?case using "6.IH"(1) by (blast intro: mrel.seq)
next
  case (7 a b p s g k)
  show ?case
  proof (cases "mt a p s g k")
    case None
    with 7 show ?thesis by (auto intro: mrel.alt_right)
  next
    case (Some y)
    with 7 show ?thesis by (auto intro: mrel.alt_left)
  qed
next
  case (8 a p s g k)
  show ?case
  proof (cases "mt a p s g k")
    case None
    with 8 show ?thesis by (auto intro: mrel.opt_none)
  next
    case (Some y)
    with 8 show ?thesis by (auto intro: mrel.opt_some)
  qed
next
  case (9 n a p s g k)
  then obtain p' s' g' where "mrel a p s p' s'"
    "k p' s' (dput n (take (length s - length s') s) g') = Some x" by auto
  then show ?case by (blast intro: mrel.grp)
qed (auto split: if_splits intro: mrel.intros)

lemma many_complete:
  "mrel r p s p' s' \<Longrightarrow> r = Many n P \<Longrightarrow> k p' s' g \<noteq> None \<Longrightarrow> many P n p s g k \<noteq> None"
proof (induction arbitrary: n rule: mrel.induct)
  case (many_stop Q p s)
  then show ?case by (cases s) (auto split: option.splits)
next
  case (many_step Q c m cs p' s' p)
  then show ?case by (fastforce split: option.splits)
qed auto

lemma mt_complete:
  "mrel r p s p' s' \<Longrightarrow> (\<And>g. k p' s' g \<noteq> None) \<Longrightarrow> mt r p s g k \<noteq> None"
proof (induction arbitrary: g k rule: mrel.induct)
  case (many_stop P p s)
  then show ?case by (metis many_complete mrel.many_stop mt.simps(3))
next
  case (many_step P c n cs p' s' p)
  then show ?case by (metis many_complete mrel.many_step mt.simps(3))
next
  case (rep_stop r p s)
  then show ?case by (cases s) (auto split: option.splits)
next
  case (rep_step r p s p1 s1 n p' s')
  then obtain c cs where s: "s = c # cs" by (cases s) auto
  let ?k = "\<lambda>p' s' g'. if length s' < Suc (length cs) then mt (Rep (n - 1) r) p' s' g' k else None"
  have "?k p1 s1 g' \<noteq> None" for g'
  proof -
    have "mt (Rep (n - 1) r) p1 s1 g' k \<noteq> None"
      by (rule rep_step.IH(2)) (rule rep_step.prems)
    with rep_step.hyps(2) s show ?thesis by simp
  qed
  then have "mt r p s g ?k \<noteq> None" by (rule rep_step.IH(1))
  then obtain y where "mt r p (c # cs) g ?k = Some y" unfolding s by blast
  then show ?case unfolding s by simp
next
  case (alt_left a p s p' s' b)
  have "mt a p s g k \<noteq> None" by (rule alt_left.IH) (rule alt_left.prems)
  then obtain y where "mt a p s g k = Some y" by blast
  then show ?case by simp
next
  case (alt_right b p s p' s' a)
  have "mt b p s g k \<noteq> None" by (rule alt_right.IH) (rule alt_right.prems)
  then obtain y where "mt b p s g k = Some y" by blast
  then show ?case by (cases "mt a p s g k") simp_all
next
  case (opt_none a p s)
  from opt_none.prems obtain y where "k p s g = Some y" by blast
  then show ?case by (cases "mt a p s g k") simp_all
next
  case (opt_some a p s p' s')
  have "mt a p s g k \<noteq> None" by (rule opt_some.IH) (rule opt_some.prems)
  then obtain y where "mt a p s g k = Some y" by blast
  then show ?case by simp
qed auto

text \<open>The matcher finds a match exactly when there is one.\<close>

lemma re_exec_iff: "re_exec r p s \<noteq> None \<longleftrightarrow> (\<exists>p' s'. mrel r p s p' s')"
proof
  assume "re_exec r p s \<noteq> None"
  then show "\<exists>p' s'. mrel r p s p' s'" using mt_sound by (fastforce simp: re_exec_def)
next
  assume "\<exists>p' s'. mrel r p s p' s'"
  then show "re_exec r p s \<noteq> None"
    unfolding re_exec_def using mt_complete [where k = "\<lambda>p' s' g. Some (g, p', s')"] by blast
qed

lemma re_matches_iff: "re_matches r s \<longleftrightarrow> (\<exists>p' s'. mrel r None s p' s')"
  using re_exec_iff [of r None s] by (auto simp: re_matches_def re_match_def split: option.splits)

text \<open>A match leaves a suffix of the text.\<close>

lemma mrel_suffix: "mrel r p s p' s' \<Longrightarrow> \<exists>u. s = u @ s'"
proof (induction rule: mrel.induct)
  case (rep_step r p s p1 s1 n p' s')
  then show ?case by (metis append.assoc)
next
  case (seq a p s p1 s1 b p' s')
  then show ?case by (metis append.assoc)
qed auto

lemma re_exec_mrel: "re_exec r p s = Some (g, p', s') \<Longrightarrow> mrel r p s p' s'"
  using mt_sound [of r p s "[]" "\<lambda>p' s' g. Some (g, p', s')"] by (auto simp: re_exec_def)

text \<open>Cutting a text into matches loses nothing.\<close>

lemma re_pieces_concat:
  "re_pieces r p acc s = (ms, rest) \<Longrightarrow>
     concat (map (\<lambda>(b, m, g). b @ m) ms) @ rest = rev acc @ s"
proof (induction r p acc s arbitrary: ms rest rule: re_pieces.induct)
  case (1 r p acc)
  then show ?case by (auto split: option.splits prod.splits)
next
  case (2 r p acc c cs)
  show ?case
  proof (cases "re_exec r p (c # cs)")
    case None
    with 2 show ?thesis by simp
  next
    case (Some e)
    obtain g p' t where e: "e = (g, p', t)" by (cases e)
    show ?thesis
    proof (cases "length t < Suc (length cs)")
      case True
      obtain ms' rest' where r: "re_pieces r p' [] t = (ms', rest')" by fastforce
      have "concat (map (\<lambda>(b, m, g). b @ m) ms') @ rest' = rev [] @ t"
        using "2.IH"(2) Some e True r by blast
      moreover obtain u where "c # cs = u @ t"
        using mrel_suffix [OF re_exec_mrel [OF Some [unfolded e]]] by blast
      then have "take (Suc (length cs) - length t) (c # cs) @ t = c # cs"
        by (metis append_eq_conv_conj append_take_drop_id diff_add_inverse2 length_Cons length_append)
      ultimately show ?thesis using 2(4) Some e True r by auto
    next
      case False
      obtain ms' rest' where r: "re_pieces r (Some c) [c] cs = (ms', rest')" by fastforce
      have "concat (map (\<lambda>(b, m, g). b @ m) ms') @ rest' = rev [c] @ cs"
        using "2.IH"(3) Some e False r by blast
      then show ?thesis using 2(4) Some e False r by auto
    qed
  qed
qed

text \<open>
  Greedy repetition takes the whole run of characters when the rest of the pattern
  succeeds after it: the rule that lets proofs run patterns over symbolic text.
\<close>

lemma many_greedy:
  "(\<And>c. c \<in> set u \<Longrightarrow> P c) \<Longrightarrow> v = [] \<or> \<not> P (hd v) \<Longrightarrow> n \<le> length u \<Longrightarrow>
   k (if u = [] then p else Some (last u)) v g = Some x \<Longrightarrow> many P n p (u @ v) g k = Some x"
proof (induction u arbitrary: n p)
  case Nil
  then show ?case by (cases v) auto
next
  case (Cons c u)
  have "many P (n - 1) (Some c) (u @ v) g k = Some x"
    using Cons.prems by (intro Cons.IH) (auto split: if_splits)
  with Cons.prems(1) show ?case by simp
qed

lemma many_fail: "(\<And>p' s'. k p' s' g = None) \<Longrightarrow> many P n p s g k = None"
  using many_sound [of P n p s g k] by (cases "many P n p s g k") auto

lemma many_short: "(\<And>c. c \<in> set u \<Longrightarrow> P c) \<Longrightarrow> v = [] \<or> \<not> P (hd v) \<Longrightarrow> length u < n \<Longrightarrow>
    many P n p (u @ v) g k = None"
proof (induction u arbitrary: n p)
  case Nil
  then show ?case by (cases v) auto
qed auto

section \<open>Running patterns over symbolic text\<close>

text \<open>
  \<open>runs r p s g p' s' g'\<close>: the first way \<open>r\<close> matches leads to \<open>p' s' g'\<close>, as long
  as the rest of the pattern accepts it; \<open>fails r p s\<close>: there is no way. The rules below
  build both along a pattern, so a proof about a text with unknown parts follows the pattern
  from left to right.
\<close>

type_synonym match_result = "caps \<times> char option \<times> string"

definition runs :: "rx \<Rightarrow> char option \<Rightarrow> string \<Rightarrow> caps \<Rightarrow> char option \<Rightarrow> string \<Rightarrow> caps \<Rightarrow> bool" where
  "runs r p s g p' s' g' \<longleftrightarrow>
     (\<forall>(k :: match_result cont) x. k p' s' g' = Some x \<longrightarrow> mt r p s g k = Some x)"

definition fails :: "rx \<Rightarrow> char option \<Rightarrow> string \<Rightarrow> bool" where
  "fails r p s \<longleftrightarrow> (\<forall>p' s'. \<not> mrel r p s p' s')"

definition prev_after :: "char option \<Rightarrow> string \<Rightarrow> char option" where
  "prev_after p u = (if u = [] then p else Some (last u))"

lemma prev_after_simps [simp]:
  "prev_after p [] = p"
  "prev_after p (c # cs) = prev_after (Some c) cs"
  by (simp_all add: prev_after_def)

lemma fails_mt: "fails r p s \<Longrightarrow> mt r p s g k = None"
  using mt_sound [of r p s g k] by (cases "mt r p s g k") (auto simp: fails_def)

lemma fails_exec: "fails r p s \<longleftrightarrow> re_exec r p s = None"
  using re_exec_iff [of r p s] by (auto simp: fails_def)

lemma runs_Eps: "runs Eps p s g p s g"
  by (simp add: runs_def)

lemma runs_Cls: "P c \<Longrightarrow> runs (Cls P) p (c # cs) g (Some c) cs g"
  by (simp add: runs_def)

lemma runs_lit: "runs (lit u) p (u @ s) g (prev_after p u) s g"
  by (induction u arbitrary: p rule: lit.induct) (auto simp: runs_def)

lemma runs_Many:
  assumes "list_all P u" and "v = [] \<or> \<not> P (hd v)" and "n \<le> length u"
  shows "runs (Many n P) p (u @ v) g (prev_after p u) v g"
  unfolding runs_def mt.simps prev_after_def
  using assms many_greedy [of u P v n] by (auto simp: list_all_iff)

lemma runs_Seq: "runs a p s g p1 s1 g1 \<Longrightarrow> runs b p1 s1 g1 p' s' g' \<Longrightarrow> runs (Seq a b) p s g p' s' g'"
  by (simp add: runs_def)

lemma runs_Grp: "runs a p (u @ s') g p' s' g' \<Longrightarrow> runs (Grp n a) p (u @ s') g p' s' (dput n u g')"
  by (simp add: runs_def)

lemma runs_Alt_left: "runs a p s g p' s' g' \<Longrightarrow> runs (Alt a b) p s g p' s' g'"
  by (simp add: runs_def)

lemma runs_Alt_right: "fails a p s \<Longrightarrow> runs b p s g p' s' g' \<Longrightarrow> runs (Alt a b) p s g p' s' g'"
  by (simp add: runs_def fails_mt)

lemma runs_Opt_some: "runs a p s g p' s' g' \<Longrightarrow> runs (Opt a) p s g p' s' g'"
  by (simp add: runs_def)

lemma runs_Opt_none: "fails a p s \<Longrightarrow> runs (Opt a) p s g p s g"
  by (simp add: runs_def fails_mt)

lemma runs_Bol: "runs Bol None s g None s g"
  by (simp add: runs_def)

lemma runs_Eol: "at_eol s \<Longrightarrow> runs Eol p s g p s g"
  by (simp add: runs_def)

lemma runs_Wb: "word_before p \<noteq> word_after s \<Longrightarrow> runs Wb p s g p s g"
  by (simp add: runs_def)

lemma runs_NotAhead: "s = [] \<or> \<not> P (hd s) \<Longrightarrow> runs (NotAhead P) p s g p s g"
  by (cases s) (auto simp: runs_def)

lemmas runs_intros = runs_Eps runs_Cls runs_lit runs_Many runs_Seq runs_Grp runs_Bol runs_Eol

lemma runs_exec: "runs r p s [] p' s' g' \<Longrightarrow> re_exec r p s = Some (g', p', s')"
  by (simp add: re_exec_def runs_def)

lemma runs_match: "runs r None s [] p' s' g' \<Longrightarrow> re_match r s = Some (g', s')"
  by (simp add: re_match_def runs_exec)

lemma fails_Cls: "s = [] \<or> \<not> P (hd s) \<Longrightarrow> fails (Cls P) p s"
  by (cases s) (auto simp: fails_def elim: mrel_elims)

lemma fails_Seq1: "fails a p s \<Longrightarrow> fails (Seq a b) p s"
  by (auto simp: fails_def elim: mrel_elims)

lemma fails_Grp: "fails a p s \<Longrightarrow> fails (Grp n a) p s"
  by (auto simp: fails_def elim: mrel_elims)

lemma fails_Alt: "fails a p s \<Longrightarrow> fails b p s \<Longrightarrow> fails (Alt a b) p s"
  by (auto simp: fails_def elim: mrel_elims)

lemma fails_Bol: "fails Bol (Some c) s"
  by (auto simp: fails_def elim: mrel_elims)

lemma fails_Many: "s = [] \<or> \<not> P (hd s) \<Longrightarrow> 0 < n \<Longrightarrow> fails (Many n P) p s"
  by (cases s) (auto simp: fails_def elim: mrel_elims)

lemma fails_match: "fails r None s \<Longrightarrow> re_match r s = None"
  by (simp add: re_match_def fails_exec)

text \<open>No match anywhere: the text is copied.\<close>

lemma re_pieces_none:
  "(\<And>p u v. s = u @ v \<Longrightarrow> p = prev_after q u \<Longrightarrow> fails r p v) \<Longrightarrow> re_pieces r q acc s = ([], rev acc @ s)"
proof (induction s arbitrary: q acc)
  case Nil
  then have "fails r q []" by simp
  then show ?case by (simp add: fails_exec)
next
  case (Cons c cs)
  have "fails r q (c # cs)" using Cons.prems [of "[]" "c # cs"] by simp
  moreover have "re_pieces r (Some c) (c # acc) cs = ([], rev (c # acc) @ cs)"
    using Cons.prems [of "c # u" v for u v] by (intro Cons.IH) auto
  ultimately show ?case by (simp add: fails_exec)
qed

lemma re_sub_none: "(\<And>p u v. s = u @ v \<Longrightarrow> p = prev_after None u \<Longrightarrow> fails r p v) \<Longrightarrow> re_sub r repl s = s"
  by (simp add: re_sub_def re_pieces_none)

lemma re_finditer_none:
  "(\<And>p u v. s = u @ v \<Longrightarrow> p = prev_after None u \<Longrightarrow> fails r p v) \<Longrightarrow> re_finditer r s = []"
  by (simp add: re_finditer_def re_pieces_none)

lemma fails_Seq2: "(\<And>q u v. s = u @ v \<Longrightarrow> fails b q v) \<Longrightarrow> fails (Seq a b) p s"
  unfolding fails_def by (auto elim!: mrel_elims dest: mrel_suffix)

lemma fails_lit: "u \<noteq> [] \<Longrightarrow> s = [] \<or> hd u \<noteq> hd s \<Longrightarrow> fails (lit u) p s"
  by (cases u rule: lit.cases) (auto intro: fails_Cls fails_Seq1)

text \<open>A pattern that starts with \<open>^\<close> matches at most once, at the start.\<close>

lemma fails_anchored: "fails (Seq Bol r) (Some c) s"
  by (rule fails_Seq1, rule fails_Bol)

lemma prev_after_Some: "\<exists>d. prev_after (Some c) u = Some d"
  by (auto simp: prev_after_def)

lemma re_pieces_anchored: "re_pieces (Seq Bol r) (Some c) acc s = ([], rev acc @ s)"
proof (rule re_pieces_none)
  fix p u v assume "p = prev_after (Some c) u"
  with prev_after_Some [of c u] show "fails (Seq Bol r) p v" using fails_anchored by metis
qed

lemma re_sub_anchored_none: "fails (Seq Bol r) None s \<Longrightarrow> re_sub (Seq Bol r) repl s = s"
  by (cases s) (auto simp: re_sub_def fails_exec re_pieces_anchored)

lemma re_sub_anchored:
  assumes "runs (Seq Bol r) None (u @ v) [] (prev_after None u) v g" and "u \<noteq> []"
  shows "re_sub (Seq Bol r) repl (u @ v) = repl @ v"
proof -
  obtain c cs where u: "u = c # cs" using assms(2) by (cases u) auto
  have "re_exec (Seq Bol r) None (c # cs @ v) = Some (g, prev_after None u, v)"
    using runs_exec [OF assms(1)] u by simp
  then show ?thesis
    using prev_after_Some [of c cs] by (auto simp: re_sub_def u re_pieces_anchored)
qed

text \<open>The language of a pattern, as equations.\<close>

inductive_simps mrel_simps:
  "mrel Eps p s p' s'"
  "mrel (Cls P) p s p' s'"
  "mrel (Seq a b) p s p' s'"
  "mrel (Alt a b) p s p' s'"
  "mrel (Opt a) p s p' s'"
  "mrel (Grp n a) p s p' s'"
  "mrel Bol p s p' s'"
  "mrel Eol p s p' s'"

lemma prev_after_append [simp]: "prev_after (prev_after p u) v = prev_after p (u @ v)"
  by (simp add: prev_after_def)

lemma mrel_Many_sound: "mrel (Many n P) p s p' s' \<Longrightarrow>
    \<exists>u. s = u @ s' \<and> list_all P u \<and> n \<le> length u \<and> p' = prev_after p u"
proof (induction "Many n P" p s p' s' arbitrary: n rule: mrel.induct)
  case (many_step c n cs p' s' p)
  then obtain u where u: "cs = u @ s'" "list_all P u" "n - 1 \<le> length u" "p' = prev_after (Some c) u"
    by blast
  show ?case by (rule exI [of _ "c # u"]) (use many_step.hyps(1) u in auto)
qed (auto intro: exI [of _ "[]"])

lemma mrel_Many: "mrel (Many n P) p s p' s' \<longleftrightarrow>
    (\<exists>u. s = u @ s' \<and> list_all P u \<and> n \<le> length u \<and> p' = prev_after p u)"
proof
  assume "\<exists>u. s = u @ s' \<and> list_all P u \<and> n \<le> length u \<and> p' = prev_after p u"
  then obtain u where u: "s = u @ s'" "list_all P u" "n \<le> length u" "p' = prev_after p u" by blast
  have "mrel (Many n P) p (u @ s') (prev_after p u) s'" if "list_all P u" "n \<le> length u" for u n p
    using that
  proof (induction u arbitrary: n p)
    case Nil
    then show ?case by (auto intro: mrel.intros)
  next
    case (Cons c u)
    then have "mrel (Many (n - 1) P) (Some c) (u @ s') (prev_after (Some c) u) s'"
      by (intro Cons.IH) auto
    with Cons.prems show ?case by (auto intro: mrel.intros)
  qed
  with u show "mrel (Many n P) p s p' s'" by blast
qed (rule mrel_Many_sound)

lemma mrel_lit: "mrel (lit u) p s p' s' \<longleftrightarrow> s = u @ s' \<and> p' = prev_after p u"
  by (induction u arbitrary: p s rule: lit.induct) (auto simp: mrel_simps)


lemmas mrel_iffs = mrel_simps mrel_Many mrel_lit

text \<open>Without \<open>^\<close> and \<open>\b\<close> the character before the text does not matter.\<close>

fun prev_free :: "rx \<Rightarrow> bool" where
  "prev_free Bol = False"
| "prev_free Wb = False"
| "prev_free (Seq a b) = (prev_free a \<and> prev_free b)"
| "prev_free (Alt a b) = (prev_free a \<and> prev_free b)"
| "prev_free (Opt a) = prev_free a"
| "prev_free (Rep n a) = prev_free a"
| "prev_free (Grp n a) = prev_free a"
| "prev_free _ = True"

lemma mrel_prev_free: "mrel r p s p' s' \<Longrightarrow> prev_free r \<Longrightarrow> \<exists>q'. mrel r q s q' s'"
proof (induction r p s p' s' arbitrary: q rule: mrel.induct)
  case (seq a p s p1 s1 b p' s')
  then obtain q1 where "mrel a q s q1 s1" by fastforce
  moreover from seq obtain q' where "mrel b q1 s1 q' s'" by fastforce
  ultimately show ?case by (blast intro: mrel.seq)
next
  case (rep_step r p s p1 s1 n p' s')
  then obtain q1 where "mrel r q s q1 s1" by fastforce
  moreover from rep_step obtain q' where "mrel (Rep (n - 1) r) q1 s1 q' s'" by fastforce
  ultimately show ?case using rep_step.hyps(2) by (blast intro: mrel.rep_step)
qed (fastforce intro: mrel.intros)+

lemma mrel_Bol_Seq [simp]: "mrel (Seq Bol r) None s p' s' \<longleftrightarrow> mrel r None s p' s'"
  by (simp add: mrel_simps)

end
