(* ===== verification/Asm_Text.thy ===== *)
theory Asm_Text
  imports Py_Regex
begin

text \<open>
  The helpers of \<open>src/codegen.py\<close> that read one line of objdump text: the \<open>[*]\<close>
  marker, AT&T operands, register families, byte counts, offsets, immediates, the test
  whether an instruction reads a register and the test whether a kprobe site can be
  patched with a five-byte jump. A line is
  \<open>"  [*] 227:  c1 e8 03 <TAB> shr  $0x3,%eax"\<close>.
\<close>

section \<open>Patterns used throughout\<close>

text \<open>\<open>re.sub(r'^\s*\[\*\]\s*', '', line)\<close>\<close>

definition rx_marker :: rx where
  "rx_marker = seqs [Bol, Many 0 is_space, lit ''[*]'', Many 0 is_space]"

definition strip_marker :: "string \<Rightarrow> string" where
  "strip_marker s = re_sub rx_marker [] s"

text \<open>\<open>re.sub(r'[bwlq]$', '', mnemonic)\<close>: drop the AT&T size suffix.\<close>

definition rx_size_suffix :: rx where
  "rx_size_suffix = seqs [Cls (one_of ''bwlq''), Eol]"

definition strip_size_suffix :: "string \<Rightarrow> string" where
  "strip_size_suffix m = re_sub rx_size_suffix [] m"

text \<open>\<open>re.match(r'^\s*([0-9a-fA-F]+):', line)\<close>: the address, as a number.\<close>

definition rx_addr :: rx where
  "rx_addr = seqs [Bol, Many 0 is_space, Grp 1 (Many 1 is_hex), lit '':'']"

definition line_addr :: "string \<Rightarrow> int option" where
  "line_addr s = (case re_match rx_addr s of None \<Rightarrow> None | Some (g, _) \<Rightarrow> py_int 16 (group g 1))"

section \<open>Operands and registers\<close>

text \<open>\<open>_split_asm_operands\<close>\<close>

fun split_ops :: "int \<Rightarrow> string \<Rightarrow> string \<Rightarrow> string list" where
  "split_ops depth cur [] = (if cur \<noteq> [] then [rev cur] else [])"
| "split_ops depth cur (ch # cs) =
     (if ch = CHR ''('' then split_ops (depth + 1) (ch # cur) cs
      else if ch = CHR '')'' then split_ops (depth - 1) (ch # cur) cs
      else if ch = CHR '','' \<and> depth = 0 then rev cur # split_ops depth [] cs
      else split_ops depth (ch # cur) cs)"

definition split_asm_operands :: "string \<Rightarrow> string list" where
  "split_asm_operands s = split_ops 0 [] s"

definition families :: "(string, string list) dict" where
  "families =
    [(''ax'', [''rax'', ''eax'', ''ax'', ''al'', ''ah'']),
     (''bx'', [''rbx'', ''ebx'', ''bx'', ''bl'', ''bh'']),
     (''cx'', [''rcx'', ''ecx'', ''cx'', ''cl'', ''ch'']),
     (''dx'', [''rdx'', ''edx'', ''dx'', ''dl'', ''dh'']),
     (''si'', [''rsi'', ''esi'', ''si'', ''sil'']),
     (''di'', [''rdi'', ''edi'', ''di'', ''dil'']),
     (''bp'', [''rbp'', ''ebp'', ''bp'', ''bpl'']),
     (''sp'', [''rsp'', ''esp'', ''sp'', ''spl'']),
     (''r8'', [''r8'', ''r8d'', ''r8w'', ''r8b'']),
     (''r9'', [''r9'', ''r9d'', ''r9w'', ''r9b'']),
     (''r10'', [''r10'', ''r10d'', ''r10w'', ''r10b'']),
     (''r11'', [''r11'', ''r11d'', ''r11w'', ''r11b'']),
     (''r12'', [''r12'', ''r12d'', ''r12w'', ''r12b'']),
     (''r13'', [''r13'', ''r13d'', ''r13w'', ''r13b'']),
     (''r14'', [''r14'', ''r14d'', ''r14w'', ''r14b'']),
     (''r15'', [''r15'', ''r15d'', ''r15w'', ''r15b''])]"

fun first_family :: "string \<Rightarrow> (string, string list) dict \<Rightarrow> string" where
  "first_family reg [] = reg"
| "first_family reg ((family, members) # rest) =
     (if reg \<in> set members then family else first_family reg rest)"

definition get_register_family :: "string \<Rightarrow> string" where
  "get_register_family reg_name =
     first_family (lstrip_by (\<lambda>c. c = CHR ''%'') (py_lower reg_name)) families"

text \<open>
  \<open>instruction_reads_register\<close>. The pattern is
  \<open>%(r1|r2|...)(?!\w)\<close> over the family's names, the longest first.
\<close>

fun alts :: "rx list \<Rightarrow> rx" where
  "alts [] = Eps"
| "alts [r] = r"
| "alts (r # q # rs) = Alt r (alts (q # rs))"

definition rx_family :: "string list \<Rightarrow> rx" where
  "rx_family regs = seqs [lit ''%'',
     Grp 1 (alts (map lit (sort_key (\<lambda>r. - int (length r)) regs))), NotAhead is_word]"

definition write_only_dest :: "string list" where
  "write_only_dest = [''mov'', ''lea'', ''movzb'', ''movsb'', ''movs'', ''movabs'',
     ''movsx'', ''movzx'', ''movsxd'']"

definition arg_families :: "string list" where
  "arg_families = [''di'', ''si'', ''dx'', ''cx'', ''r8'', ''r9'']"

definition instruction_reads_register :: "string \<Rightarrow> string \<Rightarrow> bool" where
  "instruction_reads_register inst_line reg_family =
     (let family_regs = dget families reg_family [reg_family];
          parts = split_on TAB inst_line
      in if length parts < 2 then False
      else let asm = py_strip (last parts) in
      if asm = [] then False
      else let family_re = rx_family family_regs;
               tokens = split_ws asm
      in if tokens = [] then False
      else let mnemonic = py_lower (hd tokens);
               operand_str = py_strip (drop (length (hd tokens)) asm)
      in if mnemonic = ''call'' \<or> mnemonic = ''callq'' then
           reg_family \<in> set arg_families \<or> re_found family_re operand_str
         else let base_mnemonic = strip_size_suffix mnemonic in
           if \<not> re_found family_re operand_str then False
           else if base_mnemonic \<in> set write_only_dest then
             (let operands = split_asm_operands operand_str in
              if length operands \<ge> 2 then
                (let dst = py_strip (last operands);
                     src_parts = join '','' (butlast operands)
                 in if re_found family_re src_parts then True
                    else if CHR ''('' \<in> set dst \<and> re_found family_re dst then True
                    else False)
              else True)
           else True)"

section \<open>Bytes, offsets, immediates\<close>

text \<open>\<open>get_insn_byte_count\<close>; \<open>hex_part\<close> and \<open>asm_part\<close> of a line are shared with \<open>check_jump_optimizable\<close>.\<close>

definition hex_asm_parts :: "string \<Rightarrow> (string \<times> string) option" where
  "hex_asm_parts inst_line =
     (let clean = strip_marker (py_strip inst_line) in
      case find_char CHR '':'' clean of
        None \<Rightarrow> None
      | Some colon_idx \<Rightarrow>
          (let after_colon = drop (colon_idx + 1) clean in
           case find_char TAB after_colon of
             None \<Rightarrow> Some (after_colon, [])
           | Some tab_idx \<Rightarrow> Some (take tab_idx after_colon, drop (tab_idx + 1) after_colon)))"

definition get_insn_byte_count :: "string \<Rightarrow> nat" where
  "get_insn_byte_count inst_line =
     (case hex_asm_parts inst_line of None \<Rightarrow> 0 | Some (hex_part, _) \<Rightarrow> length (split_ws hex_part))"

text \<open>The address of a line, after dropping a leading \<open>[*]\<close> by slicing (\<open>inst[3:].strip()\<close>).\<close>

definition slice_marker :: "string \<Rightarrow> string" where
  "slice_marker inst = (let s = py_strip inst in
     if starts_with ''[*]'' s then py_strip (drop 3 s) else s)"

definition rx_addr0 :: rx where
  "rx_addr0 = seqs [Grp 1 (Many 1 is_hex), lit '':'']"

definition addr0 :: "string \<Rightarrow> int option" where
  "addr0 s = (case re_match rx_addr0 s of None \<Rightarrow> None | Some (g, _) \<Rightarrow> py_int 16 (group g 1))"

definition extract_bb_offsets :: "string list \<Rightarrow> (int \<times> int) option" where
  "extract_bb_offsets all_instructions =
     (let offsets = List.map_filter (\<lambda>inst. addr0 (slice_marker inst)) all_instructions in
      if offsets = [] then None else Some (Min (set offsets), Max (set offsets)))"

text \<open>\<open>max(entries, key=...)\<close> returns the first entry with the largest key.\<close>

fun first_max :: "('a \<Rightarrow> int) \<Rightarrow> 'a \<Rightarrow> 'a list \<Rightarrow> 'a" where
  "first_max key best [] = best"
| "first_max key best (x # xs) = first_max key (if key x > key best then x else best) xs"

definition extract_changed_offsets :: "string list \<Rightarrow> (int \<times> int) option" where
  "extract_changed_offsets changed_instructions =
     (let entries = List.map_filter
            (\<lambda>raw. let inst = slice_marker raw in
               case addr0 inst of None \<Rightarrow> None
               | Some addr \<Rightarrow> Some (addr, get_insn_byte_count inst)) changed_instructions
      in case entries of
           [] \<Rightarrow> None
         | e # es \<Rightarrow>
             (let soff = Min (set (map fst entries));
                  lst = first_max fst e es
              in Some (soff, fst lst + int (snd lst))))"

text \<open>\<open>convert_instruction_address_to_offset\<close>\<close>

definition rx_addr_split :: rx where
  "rx_addr_split = seqs [Bol, Grp 1 (Many 0 is_space), Grp 2 (Many 1 is_hex),
     Grp 3 (seqs [lit '':'', Many 0 dot])]"

definition convert_instruction_address_to_offset :: "string \<Rightarrow> int \<Rightarrow> string res" where
  "convert_instruction_address_to_offset instruction func_base =
     (case re_match rx_addr_split instruction of
        Some (g, _) \<Rightarrow>
          bindr (or_value_error (py_int 16 (group g 2))) (\<lambda>addr.
            Inr (group g 1 @ hex_of (addr - func_base) @ group g 3))
      | None \<Rightarrow> Inr instruction)"

text \<open>\<open>extract_immediate_values\<close>; its \<open>re.IGNORECASE\<close> only matters for the \<open>x\<close>.\<close>

definition rx_imm :: rx where
  "rx_imm = seqs [lit ''$'',
     Grp 1 (Alt (seqs [lit ''0'', Cls (one_of ''xX''), Many 1 is_hex]) (Many 1 is_digit))]"

definition rx_tab_mnemonic :: rx where
  "rx_tab_mnemonic = seqs [Cls (one_of [TAB]), Grp 1 (Many 1 is_word), Many 1 is_space]"

definition rx_lone_register :: rx where
  "rx_lone_register = seqs [Cls (one_of [TAB]), Many 1 is_word, Many 1 is_space,
     Grp 1 (seqs [lit ''%'', Many 1 is_word]), Many 0 is_space, Eol]"

definition shift_rotate_ops :: "string list" where
  "shift_rotate_ops = [''shr'', ''shl'', ''sar'', ''sal'', ''rol'', ''ror'', ''rcl'', ''rcr'']"

definition imm_literal :: "string \<Rightarrow> int option" where
  "imm_literal m = (if starts_with ''0x'' m \<or> starts_with ''0X'' m then py_int 16 m else py_int 10 m)"

definition extract_immediate_values :: "string \<Rightarrow> int list" where
  "extract_immediate_values inst_line =
     (let clean_line = strip_marker inst_line;
          matches = map (\<lambda>(b, m, g). group g 1) (re_finditer rx_imm clean_line);
          immediates = List.map_filter imm_literal matches
      in if immediates \<noteq> [] then immediates
         else case re_search rx_tab_mnemonic clean_line of
           None \<Rightarrow> []
         | Some g \<Rightarrow>
             (if py_lower (group g 1) \<in> set shift_rotate_ops
                 \<and> re_found rx_lone_register clean_line
              then [1] else []))"

section \<open>Kprobe jump optimisation\<close>

text \<open>
  \<open>check_jump_optimizable\<close>: first the lines covered by a five-byte patch at \<open>idx\<close>,
  then the first relative encoding among them.
\<close>

fun jump_cover :: "nat \<Rightarrow> string list \<Rightarrow> string list \<times> nat" where
  "jump_cover total_bytes [] = ([], total_bytes)"
| "jump_cover total_bytes (inst # insts) =
     (let n = get_insn_byte_count inst in
      if n = 0 then jump_cover total_bytes insts
      else if total_bytes + n \<ge> 5 then ([inst], total_bytes + n)
      else (let (covered, t) = jump_cover (total_bytes + n) insts in (inst # covered, t)))"

definition relative_encoding :: "string \<Rightarrow> string option" where
  "relative_encoding line =
     (case hex_asm_parts line of
        None \<Rightarrow> None
      | Some (hex_part, asm_part) \<Rightarrow>
          (let tokens = split_ws hex_part in
           if tokens = [] then None
           else let b0 = py_lower (hd tokens);
                    b1 = (if length tokens > 1 then py_lower (tokens ! 1) else []);
                    b0_int = (case py_int 16 b0 of Some v \<Rightarrow> v | None \<Rightarrow> -1)
           in if b0 = ''e8'' then Some ''CALL rel32 (e8)''
              else if b0 = ''e9'' \<or> b0 = ''eb'' then Some (''JMP ('' @ b0 @ '')'')
              else if 0x70 \<le> b0_int \<and> b0_int \<le> 0x7f then Some (''Jcc rel8 ('' @ b0 @ '')'')
              else if b0 = ''0f'' \<and> b1 \<noteq> []
                \<and> (case py_int 16 b1 of Some b1_int \<Rightarrow> 0x80 \<le> b1_int \<and> b1_int \<le> 0x8f | None \<Rightarrow> False)
                then Some (''Jcc rel32 (0f '' @ b1 @ '')'')
              else if contains ''(%rip)'' asm_part then Some ''RIP-relative (%rip)''
              else None))"

fun first_relative :: "string list \<Rightarrow> string option" where
  "first_relative [] = None"
| "first_relative (line # rest) =
     (case relative_encoding line of Some r \<Rightarrow> Some r | None \<Rightarrow> first_relative rest)"

definition ge_sign :: string where
  "ge_sign = [CHR 0xE2, CHR 0x89, CHR 0xA5]"

definition check_jump_optimizable :: "string list \<Rightarrow> nat \<Rightarrow> bool \<times> string" where
  "check_jump_optimizable all_insts idx =
     (let (covered, total_bytes) = jump_cover 0 (drop idx all_insts) in
      if total_bytes < 5
      then (False, ''only '' @ py_str (int total_bytes) @ ''B (need '' @ ge_sign @ ''5)'')
      else (case first_relative covered of
              Some reason \<Rightarrow> (False, reason)
            | None \<Rightarrow> (True, py_str (int total_bytes) @ ''B, no relative addr'')))"

section \<open>Lemmas\<close>

subsection \<open>Size suffixes\<close>

definition suffix_stripped :: "string \<Rightarrow> string" where
  "suffix_stripped m = (if m \<noteq> [] \<and> last m \<in> set ''bwlq'' then butlast m else m)"

lemma re_exec_size_suffix:
  "NL \<notin> set (c # cs) \<Longrightarrow> re_exec rx_size_suffix p (c # cs) =
     (if c \<in> set ''bwlq'' \<and> cs = [] then Some ([], Some c, []) else None)"
  by (auto simp: re_exec_def rx_size_suffix_def one_of_def at_eol_def)

lemma re_exec_size_suffix_Nil: "re_exec rx_size_suffix p [] = None"
  by (simp add: re_exec_def rx_size_suffix_def)

lemma re_pieces_size_suffix:
  "NL \<notin> set m \<Longrightarrow> re_pieces rx_size_suffix p acc m =
     (if m \<noteq> [] \<and> last m \<in> set ''bwlq'' then ([(rev acc @ butlast m, [last m], [])], [])
      else ([], rev acc @ m))"
proof (induction m arbitrary: p acc)
  case Nil
  then show ?case by (simp add: re_exec_size_suffix_Nil)
next
  case (Cons c cs)
  show ?case
  proof (cases "cs = []")
    case True
    with Cons show ?thesis
      by (simp add: re_exec_size_suffix re_exec_size_suffix_Nil)
  next
    case False
    with Cons show ?thesis by (simp add: re_exec_size_suffix)
  qed
qed

text \<open>
  Without a newline, the pattern drops the last character when it is one of
  \<open>b w l q\<close>, whether or not that character is a size suffix.
\<close>

lemma strip_size_suffix_eq: "NL \<notin> set m \<Longrightarrow> strip_size_suffix m = suffix_stripped m"
  by (simp add: strip_size_suffix_def re_sub_def re_pieces_size_suffix suffix_stripped_def)

subsection \<open>Operands\<close>

fun balanced_from :: "int \<Rightarrow> string \<Rightarrow> bool" where
  "balanced_from d [] = (d = 0)"
| "balanced_from d (c # cs) =
     (if c = CHR ''('' then balanced_from (d + 1) cs
      else if c = CHR '')'' then balanced_from (d - 1) cs
      else if c = CHR '','' \<and> d = 0 then False
      else balanced_from d cs)"

lemma split_ops_comma:
  "balanced_from d op \<Longrightarrow>
   split_ops d cur (op @ CHR '','' # rest) = (rev cur @ op) # split_ops 0 [] rest"
  by (induction op arbitrary: d cur) auto

lemma split_ops_last:
  "balanced_from d op \<Longrightarrow> rev cur @ op \<noteq> [] \<Longrightarrow> split_ops d cur op = [rev cur @ op]"
  by (induction op arbitrary: d cur) auto

lemma split_ops_join:
  "ops \<noteq> [] \<Longrightarrow> list_all (balanced_from 0) ops \<Longrightarrow> last ops \<noteq> [] \<Longrightarrow>
   split_ops 0 [] (join '','' ops) = ops"
  by (induction ops rule: induct_list012) (auto simp: split_ops_comma split_ops_last)

subsection \<open>The bytes covered by a jump\<close>

definition bytes_of :: "string list \<Rightarrow> nat" where
  "bytes_of ls = sum_list (map get_insn_byte_count ls)"

lemma bytes_of_simps [simp]:
  "bytes_of [] = 0"
  "bytes_of (l # ls) = get_insn_byte_count l + bytes_of ls"
  by (simp_all add: bytes_of_def)

lemma no_bytes_no_relative: "get_insn_byte_count l = 0 \<Longrightarrow> relative_encoding l = None"
  by (auto simp: get_insn_byte_count_def relative_encoding_def Let_def split: option.splits)

lemma first_relative_None: "first_relative ls = None \<longleftrightarrow> (\<forall>l \<in> set ls. relative_encoding l = None)"
  by (induction ls) (auto split: option.splits)

lemma first_relative_Some: "first_relative ls = Some r \<Longrightarrow> \<exists>l \<in> set ls. relative_encoding l = Some r"
  by (induction ls) (auto split: option.splits)

text \<open>The covered lines are the non-empty ones of the shortest window that holds five bytes.\<close>

definition window :: "nat \<Rightarrow> string list \<Rightarrow> nat \<Rightarrow> bool" where
  "window t ls n \<longleftrightarrow> n \<le> length ls \<and> 5 \<le> t + bytes_of (take n ls) \<and>
     (\<forall>m < n. t + bytes_of (take m ls) < 5)"

lemma jump_cover_total: "snd (jump_cover t ls) = (let n = length (fst (jump_cover t ls)) in
    t + bytes_of (fst (jump_cover t ls)))"
  by (induction t ls rule: jump_cover.induct) (auto simp: Let_def split: prod.splits)

lemma jump_cover_window:
  "t < 5 \<Longrightarrow> 5 \<le> snd (jump_cover t ls) \<Longrightarrow>
   \<exists>n. window t ls n \<and> fst (jump_cover t ls) = filter (\<lambda>l. get_insn_byte_count l \<noteq> 0) (take n ls)"
proof (induction t ls rule: jump_cover.induct)
  case (2 t l ls)
  let ?n = "get_insn_byte_count l"
  consider "?n = 0" | "?n \<noteq> 0" "5 \<le> t + ?n" | "?n \<noteq> 0" "t + ?n < 5" by linarith
  then show ?case
  proof cases
    case 1
    with 2 obtain n where "window t ls n"
      "fst (jump_cover t ls) = filter (\<lambda>l. get_insn_byte_count l \<noteq> 0) (take n ls)"
      by (auto simp: Let_def)
    with 1 "2.prems"(1) show ?thesis
      by (intro exI [of _ "Suc n"]) (auto simp: window_def Let_def less_Suc_eq_0_disj)
  next
    case 2: 2
    with "2.prems" show ?thesis
      by (intro exI [of _ "Suc 0"]) (auto simp: window_def Let_def)
  next
    case 3
    with 2 obtain n where "window (t + ?n) ls n"
      "fst (jump_cover (t + ?n) ls) = filter (\<lambda>l. get_insn_byte_count l \<noteq> 0) (take n ls)"
      by (fastforce simp: Let_def split: prod.splits)
    with 3 "2.prems"(1) show ?thesis
      by (intro exI [of _ "Suc n"])
        (auto simp: window_def Let_def less_Suc_eq_0_disj add.assoc split: prod.splits)
  qed
qed simp

lemma jump_cover_short:
  "t < 5 \<Longrightarrow> snd (jump_cover t ls) < 5 \<Longrightarrow> snd (jump_cover t ls) = t + bytes_of ls"
  by (induction t ls rule: jump_cover.induct) (auto simp: Let_def split: prod.splits if_splits)

lemma bytes_of_take: "bytes_of (take n ls) \<le> bytes_of ls"
proof -
  have "bytes_of (take n ls) + bytes_of (drop n ls) = bytes_of ls"
    by (simp add: bytes_of_def flip: sum_list_append map_append)
  then show ?thesis by linarith
qed

text \<open>
  C28: a kprobe site is accepted exactly when the shortest window from it that holds five
  bytes exists and has no relative encoding.
\<close>

lemma check_jump_optimizable_iff:
  "fst (check_jump_optimizable insts idx) \<longleftrightarrow>
     (\<exists>n. window 0 (drop idx insts) n \<and>
          list_all (\<lambda>l. relative_encoding l = None) (take n (drop idx insts)))"
proof -
  let ?ls = "drop idx insts"
  let ?c = "jump_cover 0 ?ls"
  have step: "fst (check_jump_optimizable insts idx) \<longleftrightarrow> 5 \<le> snd ?c \<and> first_relative (fst ?c) = None"
    by (auto simp: check_jump_optimizable_def Let_def split: prod.splits option.splits)
  show ?thesis
  proof (cases "5 \<le> snd ?c")
    case True
    then obtain n where n: "window 0 ?ls n"
      "fst ?c = filter (\<lambda>l. get_insn_byte_count l \<noteq> 0) (take n ?ls)"
      using jump_cover_window [of 0 ?ls] by auto
    have uniq: "m = n" if "window 0 ?ls m" for m
      using n(1) that unfolding window_def by (metis linorder_neqE_nat not_le)
    have "first_relative (fst ?c) = None \<longleftrightarrow> list_all (\<lambda>l. relative_encoding l = None) (take n ?ls)"
      using no_bytes_no_relative by (auto simp: n(2) first_relative_None list_all_iff)
    with step True n(1) uniq show ?thesis by blast
  next
    case False
    then have "bytes_of ?ls < 5" using jump_cover_short [of 0 ?ls] by simp
    then have "\<not> window 0 ?ls n" for n
      using bytes_of_take [of n ?ls] by (simp add: window_def)
    with step False show ?thesis by blast
  qed
qed

subsection \<open>Register families\<close>

lemma families_distinct: "distinct (concat (map snd families))"
  by (simp add: families_def)

lemma families_lower:
  "list_all (\<lambda>(f, ms). list_all (\<lambda>r. py_lower r = r \<and> hd r \<noteq> CHR ''%'') ms) families"
  by (simp add: families_def py_lower_def lower_char_def)

lemma first_family_member:
  "distinct (concat (map snd fs)) \<Longrightarrow> (f, ms) \<in> set fs \<Longrightarrow> r \<in> set ms \<Longrightarrow> first_family r fs = f"
  by (induction r fs rule: first_family.induct) force+

text \<open>Every name of a family is mapped to that family, with or without the \<open>%\<close> sign.\<close>

lemma family_of_member:
  "list_all (\<lambda>(f, ms). list_all (\<lambda>r. get_register_family r = f
     \<and> get_register_family (''%'' @ r) = f) ms) families"
proof -
  have "get_register_family r = f \<and> get_register_family (''%'' @ r) = f"
    if m: "(f, ms) \<in> set families" "r \<in> set ms" for f ms r
  proof -
    have r: "py_lower r = r" "hd r \<noteq> CHR ''%''"
      using families_lower m by (auto simp: list_all_iff)
    then have "dropWhile (\<lambda>c. c = CHR ''%'') r = r" by (cases r) auto
    moreover have "py_lower ''%'' = ''%''" by (simp add: py_lower_def lower_char_def)
    moreover have "first_family r families = f"
      using families_distinct m by (rule first_family_member)
    ultimately show ?thesis
      using r py_lower_append [of "''%''" r] by (simp add: get_register_family_def lstrip_by_def)
  qed
  then show ?thesis by (auto simp: list_all_iff)
qed

subsection \<open>Offsets\<close>

lemma first_max_ge:
  "key b \<le> key (first_max key b xs) \<and> (\<forall>x \<in> set xs. key x \<le> key (first_max key b xs))"
proof (induction xs arbitrary: b)
  case (Cons x xs)
  have "key (if key x > key b then x else b) \<ge> key b"
    "key (if key x > key b then x else b) \<ge> key x" by auto
  with Cons [of "if key x > key b then x else b"] show ?case by fastforce
qed simp

lemma first_max_mem: "first_max key b xs \<in> insert b (set xs)"
proof (induction xs arbitrary: b)
  case (Cons x xs)
  from Cons [of "if key x > key b then x else b"] show ?case by (auto split: if_splits)
qed simp


lemma re_match_addr_split:
  "list_all is_space ws \<Longrightarrow> NL \<notin> set rest \<Longrightarrow>
   re_match rx_addr_split (ws @ digs 16 a @ '':'' @ rest) =
     Some ([(1, ws), (2, digs 16 a), (3, '':'' @ rest)], [])"
proof -
  assume ws: "list_all is_space ws" and rest: "NL \<notin> set rest"
  have hex: "list_all is_hex (digs 16 a)" using digs_hex [of 16] by (auto simp: list_all_iff)
  have hd: "\<not> is_space (hd (digs 16 a @ t))" for t
    using digs_not_space [of "hd (digs 16 a)" 16 a] by simp
  have m1: "runs (Grp 1 (Many 0 is_space)) None (ws @ digs 16 a @ '':'' @ rest) []
      (prev_after None ws) (digs 16 a @ '':'' @ rest) (dput 1 ws [])"
    by (rule runs_Grp, rule runs_Many) (use ws hd in auto)
  have m2: "runs (Grp 2 (Many 1 is_hex)) q (digs 16 a @ '':'' @ rest) g
      (prev_after q (digs 16 a)) ('':'' @ rest) (dput 2 (digs 16 a) g)" for q g
    by (rule runs_Grp, rule runs_Many) (use hex in \<open>auto simp: is_hex_def Suc_le_eq\<close>)
  have md: "runs (Many 0 dot) q (rest @ []) g (prev_after q rest) [] g" for q g
    by (rule runs_Many) (use rest in \<open>auto simp: list_all_iff dot_def\<close>)
  have "runs (seqs [lit '':'', Many 0 dot]) q (('':'' @ rest) @ []) g (prev_after q ('':'' @ rest)) [] g" for q g
    using runs_Seq [OF runs_lit [of "'':''"] md] by simp
  then have m3: "runs (Grp 3 (seqs [lit '':'', Many 0 dot])) q ('':'' @ rest) g
      (prev_after q ('':'' @ rest)) [] (dput 3 ('':'' @ rest) g)" for q g
    using runs_Grp [of _ q "'':'' @ rest" "[]"] by simp
  have "runs rx_addr_split None (ws @ digs 16 a @ '':'' @ rest) []
      (prev_after (prev_after (prev_after None ws) (digs 16 a)) ('':'' @ rest)) []
      (dput 3 ('':'' @ rest) (dput 2 (digs 16 a) (dput 1 ws [])))"
    unfolding rx_addr_split_def seqs.simps
    by (rule runs_Seq [OF runs_Bol runs_Seq [OF m1 runs_Seq [OF m2 m3 [unfolded seqs.simps]]]])
  then show ?thesis using runs_match by fastforce
qed

end
