(* ===== verification/Sym_Exec.thy ===== *)
theory Sym_Exec
  imports Asm_Text
begin

text \<open>
  The class \<open>SymbolicExecutor\<close> of \<open>src/codegen.py\<close> and
  \<open>run_symbolic_exec_on_instructions\<close>. The executor's fields are the record
  \<open>sx\<close>; every method that assigns to a field returns the new record. A branch of
  \<open>execute_instruction\<close> returns \<open>None\<close> where the code falls through to the
  last line of the function.
\<close>

section \<open>State\<close>

record sx =
  reg_map :: "(string, string) dict"
  reg_counter :: nat
  sx_state :: "(string, string) dict"
  state_alt :: "(string, string) dict"
  memory :: "(string, string) dict"
  used_regs :: "string set"

definition new_executor :: sx where
  "new_executor = \<lparr>reg_map = [], reg_counter = 0, sx_state = [], state_alt = [],
     memory = [], used_regs = {}\<rparr>"

definition reset :: "sx \<Rightarrow> sx" where
  "reset st = st\<lparr>reg_map := [], sx_state := [], state_alt := [], memory := [],
     reg_counter := 0, used_regs := {}\<rparr>"

definition reg32_to_64 :: "(string, string) dict" where
  "reg32_to_64 =
    [(''eax'', ''rax''), (''ebx'', ''rbx''), (''ecx'', ''rcx''), (''edx'', ''rdx''),
     (''esi'', ''rsi''), (''edi'', ''rdi''), (''ebp'', ''rbp''), (''esp'', ''rsp''),
     (''r8d'', ''r8''), (''r9d'', ''r9''), (''r10d'', ''r10''), (''r11d'', ''r11''),
     (''r12d'', ''r12''), (''r13d'', ''r13''), (''r14d'', ''r14''), (''r15d'', ''r15'')]"

definition reg16_to_64 :: "(string, string) dict" where
  "reg16_to_64 =
    [(''ax'', ''rax''), (''bx'', ''rbx''), (''cx'', ''rcx''), (''dx'', ''rdx''),
     (''si'', ''rsi''), (''di'', ''rdi''), (''bp'', ''rbp''), (''sp'', ''rsp'')]"

definition reg8_to_64 :: "(string, string) dict" where
  "reg8_to_64 =
    [(''al'', ''rax''), (''bl'', ''rbx''), (''cl'', ''rcx''), (''dl'', ''rdx''),
     (''sil'', ''rsi''), (''dil'', ''rdi''), (''bpl'', ''rbp''), (''spl'', ''rsp''),
     (''r8b'', ''r8''), (''r9b'', ''r9''), (''r10b'', ''r10''), (''r11b'', ''r11''),
     (''r12b'', ''r12''), (''r13b'', ''r13''), (''r14b'', ''r14''), (''r15b'', ''r15'')]"

definition get_base_register :: "string \<Rightarrow> string" where
  "get_base_register reg_name =
     (let r = py_lower reg_name in
      case map_of reg32_to_64 r of Some b \<Rightarrow> b
      | None \<Rightarrow> (case map_of reg16_to_64 r of Some b \<Rightarrow> b
      | None \<Rightarrow> (case map_of reg8_to_64 r of Some b \<Rightarrow> b | None \<Rightarrow> r)))"

definition anon :: "nat \<Rightarrow> string" where
  "anon n = ''r'' @ py_str (int n)"

definition get_anonymous_reg :: "sx \<Rightarrow> string \<Rightarrow> sx \<times> string" where
  "get_anonymous_reg st real_reg =
     (let base_reg = get_base_register (py_strip (py_lower real_reg)) in
      case map_of (reg_map st) base_reg of
        Some a \<Rightarrow> (st, a)
      | None \<Rightarrow>
          (let anon_reg = anon (reg_counter st)
           in (st\<lparr>reg_counter := reg_counter st + 1,
                  reg_map := dput base_reg anon_reg (reg_map st),
                  used_regs := insert anon_reg (used_regs st)\<rparr>, anon_reg)))"

section \<open>Parsing\<close>

definition rx_insn :: rx where
  "rx_insn = seqs [Bol, Many 0 is_space, Grp 1 (Many 1 is_hex), lit '':'', Many 1 is_space,
     Many 1 (one_of ''0123456789abcdef ''), Many 1 (\<lambda>c. c = TAB), Grp 2 (Many 1 non_space),
     Many 0 is_space, Grp 3 (Many 0 dot), Eol]"

text \<open>\<open>re.sub(r'\s*#.*$', '', s)\<close>\<close>

definition rx_comment :: rx where
  "rx_comment = seqs [Many 0 is_space, lit ''#'', Many 0 dot, Eol]"

definition parse_instruction :: "string \<Rightarrow> (string \<times> string \<times> string list) option" where
  "parse_instruction raw =
     (case re_match rx_insn (strip_marker raw) of
        None \<Rightarrow> None
      | Some (g, _) \<Rightarrow>
          (let operands_str = py_strip (re_sub rx_comment [] (py_strip (group g 3)))
           in Some (group g 1, group g 2,
                if operands_str \<noteq> [] then split_asm_operands operands_str else [])))"

datatype kind = Imm | Reg | Mem | Label

type_synonym operand = "kind \<times> string option \<times> string option"

text \<open>\<open>^%[a-z]{2,3}:\<close>\<close>

definition rx_segment :: rx where
  "rx_segment = seqs [Bol, lit ''%'', Cls is_lower, Cls is_lower, Opt (Cls is_lower), lit '':'']"

text \<open>\<open>(-?0x[0-9a-fA-F]+|-?\d+)?\(([^)]+)\)\<close>\<close>

definition rx_mem :: rx where
  "rx_mem = seqs [
     Opt (Grp 1 (Alt (seqs [Opt (lit ''-''), lit ''0x'', Many 1 is_hex])
                     (seqs [Opt (lit ''-''), Many 1 is_digit]))),
     lit ''('', Grp 2 (Many 1 (not_of '')'')), lit '')'']"

definition parse_imm :: "string \<Rightarrow> string" where
  "parse_imm imm_str =
     (case (if starts_with ''0x'' imm_str \<or> starts_with ''0X'' imm_str
            then py_int 16 imm_str else py_int 10 imm_str) of
        Some v \<Rightarrow> hex0x v
      | None \<Rightarrow> imm_str)"

text \<open>\<open>reg.lstrip('%')\<close> and its anonymous register, for a non-empty name.\<close>

definition mem_reg :: "sx \<Rightarrow> string \<Rightarrow> sx \<times> string \<times> string option" where
  "mem_reg st r =
     (if r = [] then (st, r, None)
      else (let r' = lstrip_by (\<lambda>c. c = CHR ''%'') r;
                (st, a) = get_anonymous_reg st r'
            in (st, r', Some a)))"

definition parse_mem :: "sx \<Rightarrow> caps \<Rightarrow> sx \<times> operand" where
  "parse_mem st g =
     (let offset = (if group g 1 = [] then ''0'' else group g 1);
          reg_parts = map py_strip (split_on (CHR '','') (group g 2));
          base_reg = hd reg_parts;
          index_reg = (if length reg_parts > 1 then reg_parts ! 1 else []);
          scale = (if length reg_parts > 2 then reg_parts ! 2 else ''1'');
          (st, base_reg, base_anon) = mem_reg st base_reg;
          (st, index_reg, index_anon) = mem_reg st index_reg;
          mem_expr_parts =
            (if offset \<noteq> ''0'' then [offset] else []) @
            (case base_anon of Some a \<Rightarrow> [a] | None \<Rightarrow> []) @
            (case index_anon of
               Some a \<Rightarrow> (if scale \<noteq> ''1'' then [a @ ''*'' @ scale] else [a])
             | None \<Rightarrow> []);
          mem_expr = (if mem_expr_parts \<noteq> [] then join ''+'' mem_expr_parts else ''0'')
      in (st, Mem, Some (''['' @ mem_expr @ '']''), Some base_reg))"

definition parse_operand :: "sx \<Rightarrow> string \<Rightarrow> sx \<times> operand" where
  "parse_operand st raw =
     (let operand = re_sub rx_segment [] (py_strip raw) in
      if starts_with ''$'' operand then (st, Imm, Some (parse_imm (drop 1 operand)), None)
      else case re_match rx_mem operand of
        Some (g, _) \<Rightarrow> parse_mem st g
      | None \<Rightarrow>
          if starts_with ''%'' operand then
            (let reg_name = drop 1 operand;
                 (st, anon_reg) = get_anonymous_reg st reg_name
             in (st, Reg, None, Some reg_name))
          else (st, Label, Some operand, None))"

text \<open>\<open>type == 'reg' and reg\<close>: the register of an operand, when it is one with a name.\<close>

fun as_reg :: "operand \<Rightarrow> string option" where
  "as_reg (Reg, v, Some r) = (if r \<noteq> [] then Some r else None)"
| "as_reg _ = None"

definition op_val :: "operand \<Rightarrow> string" where
  "op_val opd = (case fst (snd opd) of Some v \<Rightarrow> v | None \<Rightarrow> ''None'')"

section \<open>One definition per mnemonic\<close>

text \<open>\<open>self.state.get(a, a)\<close>, \<open>self.state_alt.get(a, self.state.get(a, a))\<close> and the two assignments.\<close>

definition state_get :: "sx \<Rightarrow> string \<Rightarrow> string" where
  "state_get st a = dget (sx_state st) a a"

definition alt_get :: "sx \<Rightarrow> string \<Rightarrow> string" where
  "alt_get st a = dget (state_alt st) a (state_get st a)"

definition set_state :: "string \<Rightarrow> string \<Rightarrow> sx \<Rightarrow> sx" where
  "set_state a e st = st\<lparr>sx_state := dput a e (sx_state st)\<rparr>"

definition set_alt :: "string \<Rightarrow> string \<Rightarrow> sx \<Rightarrow> sx" where
  "set_alt a e st = st\<lparr>state_alt := dput a e (state_alt st)\<rparr>"

definition bin :: "string \<Rightarrow> string \<Rightarrow> string \<Rightarrow> string" where
  "bin opr e f = ''('' @ e @ '' '' @ opr @ '' '' @ f @ '')''"

definition assigned :: "string \<Rightarrow> string \<Rightarrow> string option" where
  "assigned a e = Some (a @ '' = '' @ e)"

definition exec_mov :: "sx \<Rightarrow> string list \<Rightarrow> sx \<times> string option" where
  "exec_mov st operands = (case operands of
     [o0, o1] \<Rightarrow>
       (let (st, src) = parse_operand st o0;
            (st, dst) = parse_operand st o1
        in case as_reg dst of
          Some dst_reg \<Rightarrow>
            (let (st, dst_anon) = get_anonymous_reg st dst_reg in
             if fst src = Imm then
               (set_alt dst_anon (op_val src) (set_state dst_anon (op_val src) st),
                assigned dst_anon (op_val src))
             else if as_reg src \<noteq> None then
               (let (st, src_anon) = get_anonymous_reg st (the (as_reg src));
                    src_expr = state_get st src_anon;
                    src_expr_alt = alt_get st src_anon
                in (set_alt dst_anon src_expr_alt (set_state dst_anon src_expr st),
                    assigned dst_anon src_expr))
             else if fst src = Mem then
               (let mem_expr = ''mem'' @ op_val src
                in (set_alt dst_anon mem_expr (set_state dst_anon mem_expr st),
                    assigned dst_anon mem_expr))
             else (st, None))
        | None \<Rightarrow>
            if fst dst = Mem \<and> as_reg src \<noteq> None then
              (let (st, src_anon) = get_anonymous_reg st (the (as_reg src));
                   src_expr = state_get st src_anon;
                   mem_expr = op_val dst
               in (st\<lparr>memory := dput mem_expr src_expr (memory st)\<rparr>, assigned mem_expr src_expr))
            else if fst dst = Mem \<and> fst src = Imm then
              (let mem_key = ''mem:'' @ op_val dst
               in (set_alt mem_key (op_val src) (set_state mem_key (op_val src) st),
                   assigned (op_val dst) (op_val src)))
            else (st, None))
   | _ \<Rightarrow> (st, None))"

text \<open>\<open>ADD\<close> and \<open>SUB\<close> differ in the operator they print.\<close>

definition exec_arith :: "string \<Rightarrow> sx \<Rightarrow> string list \<Rightarrow> sx \<times> string option" where
  "exec_arith opr st operands = (case operands of
     [o0, o1] \<Rightarrow>
       (let (st, src) = parse_operand st o0;
            (st, dst) = parse_operand st o1
        in case as_reg dst of
          Some dst_reg \<Rightarrow>
            (let (st, dst_anon) = get_anonymous_reg st dst_reg in
             if fst src = Imm then
               (let new_expr = bin opr (state_get st dst_anon) (op_val src);
                    new_expr_alt = bin opr (alt_get st dst_anon) (op_val src)
                in (set_alt dst_anon new_expr_alt (set_state dst_anon new_expr st),
                    assigned dst_anon new_expr))
             else if as_reg src \<noteq> None then
               (let (st, src_anon) = get_anonymous_reg st (the (as_reg src));
                    new_expr = bin opr (state_get st dst_anon) (state_get st src_anon);
                    new_expr_alt = bin opr (alt_get st dst_anon) (alt_get st src_anon)
                in (set_alt dst_anon new_expr_alt (set_state dst_anon new_expr st),
                    assigned dst_anon new_expr))
             else (st, None))
        | None \<Rightarrow> (st, None))
   | _ \<Rightarrow> (st, None))"

text \<open>\<open>AND\<close>, \<open>OR\<close> and \<open>XOR\<close> assign to \<open>state\<close> only.\<close>

definition exec_bit :: "string \<Rightarrow> sx \<Rightarrow> string list \<Rightarrow> sx \<times> string option" where
  "exec_bit opr st operands = (case operands of
     [o0, o1] \<Rightarrow>
       (let (st, src) = parse_operand st o0;
            (st, dst) = parse_operand st o1
        in case as_reg dst of
          Some dst_reg \<Rightarrow>
            (let (st, dst_anon) = get_anonymous_reg st dst_reg in
             if fst src = Imm then
               (let new_expr = bin opr (state_get st dst_anon) (op_val src)
                in (set_state dst_anon new_expr st, assigned dst_anon new_expr))
             else if as_reg src \<noteq> None then
               (let (st, src_anon) = get_anonymous_reg st (the (as_reg src));
                    new_expr = bin opr (state_get st dst_anon) (state_get st src_anon)
                in (set_state dst_anon new_expr st, assigned dst_anon new_expr))
             else (st, None))
        | None \<Rightarrow> (st, None))
   | _ \<Rightarrow> (st, None))"

text \<open>\<open>SHL\<close> and \<open>SHR\<close>: \<open>opr\<close> is the shift, \<open>opr_alt\<close> the operator of the alternative version.\<close>

definition shift_amount :: "string \<Rightarrow> int option" where
  "shift_amount src_val =
     (if starts_with ''0x'' src_val \<or> starts_with ''0X'' src_val
      then py_int 16 src_val else py_int 10 src_val)"

definition exec_shift :: "string \<Rightarrow> string \<Rightarrow> sx \<Rightarrow> string list \<Rightarrow> sx \<times> string option" where
  "exec_shift opr opr_alt st operands = (case operands of
     [o0, o1] \<Rightarrow>
       (let (st, src) = parse_operand st o0;
            (st, dst) = parse_operand st o1
        in case as_reg dst of
          Some dst_reg \<Rightarrow>
            (let (st, dst_anon) = get_anonymous_reg st dst_reg;
                 dst_expr = state_get st dst_anon;
                 dst_expr_alt = alt_get st dst_anon
             in if fst src = Imm then
               (let new_expr = bin opr dst_expr (op_val src);
                    st = set_state dst_anon new_expr st
                in case shift_amount (op_val src) of
                     Some shift_amt \<Rightarrow>
                       (let new_expr_alt = bin opr_alt dst_expr_alt (py_str (2 ^ nat shift_amt))
                        in (set_alt dst_anon new_expr_alt st,
                            Some (dst_anon @ '' = '' @ new_expr @ '' (alt: '' @ new_expr_alt @ '')'')))
                   | None \<Rightarrow> (st, assigned dst_anon new_expr))
             else if as_reg src \<noteq> None then
               (let (st, src_anon) = get_anonymous_reg st (the (as_reg src));
                    new_expr = bin opr dst_expr (state_get st src_anon);
                    st = set_state dst_anon new_expr st
                in (st\<lparr>state_alt := dpop dst_anon (state_alt st)\<rparr>, assigned dst_anon new_expr))
             else (st, None))
        | None \<Rightarrow> (st, None))
   | _ \<Rightarrow> (st, None))"

definition exec_movabs :: "sx \<Rightarrow> string list \<Rightarrow> sx \<times> string option" where
  "exec_movabs st operands = (case operands of
     [o0, o1] \<Rightarrow>
       (let (st, src) = parse_operand st o0;
            (st, dst) = parse_operand st o1
        in case as_reg dst of
          Some dst_reg \<Rightarrow>
            (let (st, dst_anon) = get_anonymous_reg st dst_reg in
             if fst src = Imm then
               (set_alt dst_anon (op_val src) (set_state dst_anon (op_val src) st),
                assigned dst_anon (op_val src))
             else if as_reg src \<noteq> None then
               (let (st, src_anon) = get_anonymous_reg st (the (as_reg src));
                    src_expr = state_get st src_anon;
                    src_expr_alt = alt_get st src_anon
                in (set_alt dst_anon src_expr_alt (set_state dst_anon src_expr st),
                    assigned dst_anon src_expr))
             else (st, None))
        | None \<Rightarrow> (st, None))
   | _ \<Rightarrow> (st, None))"

definition exec_lea :: "sx \<Rightarrow> string list \<Rightarrow> sx \<times> string option" where
  "exec_lea st operands = (case operands of
     [o0, o1] \<Rightarrow>
       (let (st, src) = parse_operand st o0;
            (st, dst) = parse_operand st o1
        in case as_reg dst of
          Some dst_reg \<Rightarrow>
            if fst src = Mem then
              (let (st, dst_anon) = get_anonymous_reg st dst_reg;
                   src_val = op_val src;
                   addr_expr = (if starts_with ''['' src_val \<and> ends_with '']'' src_val
                     then butlast (drop 1 src_val)
                     else if src_val \<noteq> [] then src_val else ''0'')
               in (set_alt dst_anon addr_expr (set_state dst_anon addr_expr st),
                   Some (dst_anon @ '' = &('' @ addr_expr @ '')'')))
            else (st, None)
        | None \<Rightarrow> (st, None))
   | _ \<Rightarrow> (st, None))"

definition exec_imul3 :: "sx \<Rightarrow> string \<Rightarrow> string \<Rightarrow> string \<Rightarrow> sx \<times> string option" where
  "exec_imul3 st o0 o1 o2 =
     (let (st, imm) = parse_operand st o0;
          (st, src) = parse_operand st o1;
          (st, dst) = parse_operand st o2
      in if as_reg dst \<noteq> None \<and> fst imm = Imm \<and> as_reg src \<noteq> None then
           (let (st, dst_anon) = get_anonymous_reg st (the (as_reg dst));
                (st, src_anon) = get_anonymous_reg st (the (as_reg src));
                new_expr = bin ''*'' (state_get st src_anon) (op_val imm);
                new_expr_alt = bin ''*'' (alt_get st src_anon) (op_val imm)
            in (set_alt dst_anon new_expr_alt (set_state dst_anon new_expr st),
                assigned dst_anon new_expr))
         else (st, None))"

definition exec_imul :: "sx \<Rightarrow> string list \<Rightarrow> sx \<times> string option" where
  "exec_imul st operands = (case operands of
     [o0, o1] \<Rightarrow> exec_arith ''*'' st [o0, o1]
   | [o0, o1, o2] \<Rightarrow> exec_imul3 st o0 o1 o2
   | _ \<Rightarrow> (st, None))"

definition cmov_text :: "string \<Rightarrow> string \<Rightarrow> string" where
  "cmov_text e f = ''cmov('' @ e @ '', '' @ f @ '')''"

definition exec_cmov :: "sx \<Rightarrow> string list \<Rightarrow> sx \<times> string option" where
  "exec_cmov st operands = (case operands of
     [o0, o1] \<Rightarrow>
       (let (st, src) = parse_operand st o0;
            (st, dst) = parse_operand st o1
        in case as_reg dst of
          Some dst_reg \<Rightarrow>
            (let (st, dst_anon) = get_anonymous_reg st dst_reg;
                 dst_expr = state_get st dst_anon;
                 dst_expr_alt = alt_get st dst_anon
             in if as_reg src \<noteq> None then
               (let (st, src_anon) = get_anonymous_reg st (the (as_reg src));
                    new_expr = cmov_text (state_get st src_anon) dst_expr;
                    new_expr_alt = cmov_text (alt_get st src_anon) dst_expr_alt
                in (set_alt dst_anon new_expr_alt (set_state dst_anon new_expr st),
                    assigned dst_anon new_expr))
             else if fst src = Imm \<or> fst src = Mem then
               (let src_expr = (if fst src = Imm then op_val src else ''mem'' @ op_val src);
                    new_expr = cmov_text src_expr dst_expr;
                    new_expr_alt = cmov_text src_expr dst_expr_alt
                in (set_alt dst_anon new_expr_alt (set_state dst_anon new_expr st),
                    assigned dst_anon new_expr))
             else (st, None))
        | None \<Rightarrow> (st, None))
   | _ \<Rightarrow> (st, None))"

definition exec_movzbl :: "sx \<Rightarrow> string list \<Rightarrow> sx \<times> string option" where
  "exec_movzbl st operands = (case operands of
     [o0, o1] \<Rightarrow>
       (let (st, src) = parse_operand st o0;
            (st, dst) = parse_operand st o1
        in case as_reg dst of
          Some dst_reg \<Rightarrow>
            (let (st, dst_anon) = get_anonymous_reg st dst_reg in
             if as_reg src \<noteq> None then
               (let (st, src_anon) = get_anonymous_reg st (the (as_reg src));
                    new_expr = ''zext('' @ state_get st src_anon @ '')''
                in (set_state dst_anon new_expr st, assigned dst_anon new_expr))
             else if fst src = Mem then
               (let new_expr = ''zext('' @ ''mem'' @ op_val src @ '')''
                in (set_state dst_anon new_expr st, assigned dst_anon new_expr))
             else (st, None))
        | None \<Rightarrow> (st, None))
   | _ \<Rightarrow> (st, None))"

definition exec_sbb :: "sx \<Rightarrow> string list \<Rightarrow> sx \<times> string option" where
  "exec_sbb st operands = (case operands of
     [o0, o1] \<Rightarrow>
       (let (st, src) = parse_operand st o0;
            (st, dst) = parse_operand st o1
        in case as_reg dst of
          Some dst_reg \<Rightarrow>
            (let (st, dst_anon) = get_anonymous_reg st dst_reg in
             if as_reg src \<noteq> None then
               (let (st, src_anon) = get_anonymous_reg st (the (as_reg src));
                    new_expr = ''('' @ state_get st dst_anon @ '' - '' @ state_get st src_anon
                      @ '' - CF)''
                in (set_state dst_anon new_expr st, assigned dst_anon new_expr))
             else (st, None))
        | None \<Rightarrow> (st, None))
   | _ \<Rightarrow> (st, None))"

text \<open>The text of a compared operand; only the source may be an immediate.\<close>

definition cmp_expr :: "bool \<Rightarrow> sx \<Rightarrow> operand \<Rightarrow> sx \<times> string option" where
  "cmp_expr imm_ok st opd =
     (if imm_ok \<and> fst opd = Imm then (st, Some (op_val opd))
      else if as_reg opd \<noteq> None then
        (let (st, a) = get_anonymous_reg st (the (as_reg opd)) in (st, Some (state_get st a)))
      else if fst opd = Mem then (st, Some (''mem'' @ op_val opd))
      else (st, None))"

definition exec_cmp :: "bool \<Rightarrow> sx \<Rightarrow> string list \<Rightarrow> sx \<times> string option" where
  "exec_cmp is_cmp st operands = (case operands of
     [o0, o1] \<Rightarrow>
       (let (st, src) = parse_operand st o0;
            (st, dst) = parse_operand st o1;
            (st, src_expr) = cmp_expr True st src;
            (st, dst_expr) = cmp_expr False st dst
        in case (src_expr, dst_expr) of
          (Some se, Some de) \<Rightarrow>
            if se \<noteq> [] \<and> de \<noteq> [] then
              (let text = ''cmp('' @ de @ '', '' @ se @ '')''
               in (if is_cmp then set_state ''FLAGS'' text st else st, assigned ''FLAGS'' text))
            else (st, None)
        | _ \<Rightarrow> (st, None))
   | _ \<Rightarrow> (st, None))"

section \<open>Dispatch\<close>

definition jump_mnemonics :: "string list" where
  "jump_mnemonics = [''jmp'', ''call'', ''callq'', ''ret'', ''retq'', ''jae'', ''jb'', ''je'',
     ''jne'', ''ja'', ''jbe'', ''jl'', ''jle'', ''jg'', ''jge'', ''jns'', ''js'', ''jo'', ''jno'',
     ''jp'', ''jnp'', ''jrcxz'', ''jnae'', ''jnb'', ''jnbe'', ''jnge'', ''jnl'', ''jnle'', ''jng'',
     ''jc'', ''jnc'', ''jz'', ''jnz'']"

definition exec_branch :: "sx \<Rightarrow> string \<Rightarrow> string list \<Rightarrow> sx \<times> string option" where
  "exec_branch st mnemonic operands =
     (let mnemonic_lower = py_lower mnemonic;
          base_mnemonic = strip_size_suffix mnemonic_lower
      in if base_mnemonic = ''mov'' then exec_mov st operands
      else if base_mnemonic = ''add'' then exec_arith ''+'' st operands
      else if base_mnemonic = ''sub'' then exec_arith ''-'' st operands
      else if base_mnemonic = ''and'' then exec_bit ''&'' st operands
      else if base_mnemonic = ''or'' then exec_bit ''|'' st operands
      else if base_mnemonic = ''xor'' then exec_bit ''^'' st operands
      else if base_mnemonic = ''shl'' then exec_shift ''<<'' ''*'' st operands
      else if base_mnemonic = ''shr'' then exec_shift ''>>'' ''/'' st operands
      else if mnemonic_lower = ''movabs'' then exec_movabs st operands
      else if mnemonic_lower = ''lea'' then exec_lea st operands
      else if base_mnemonic = ''imul'' then exec_imul st operands
      else if starts_with ''cmov'' mnemonic_lower then exec_cmov st operands
      else if mnemonic_lower = ''movzbl'' then exec_movzbl st operands
      else if base_mnemonic = ''sbb'' then exec_sbb st operands
      else if base_mnemonic = ''cmp'' \<or> base_mnemonic = ''test''
        then exec_cmp (base_mnemonic = ''cmp'') st operands
      else if mnemonic_lower \<in> set jump_mnemonics \<or> starts_with ''j'' mnemonic_lower
        then (st, Some (py_upper mnemonic @ '' '' @ hd operands @ '' (control flow)''))
      else (st, None))"

definition execute_instruction :: "sx \<Rightarrow> string \<Rightarrow> string list \<Rightarrow> sx \<times> string" where
  "execute_instruction st mnemonic operands =
     (if operands = [] then (st, mnemonic @ '' (no operands)'')
      else case exec_branch st mnemonic operands of
        (st', Some description) \<Rightarrow> (st', description)
      | (st', None) \<Rightarrow> (st', mnemonic @ '' '' @ join '', '' operands @ '' (not fully supported)''))"

section \<open>Effects\<close>

definition effect_mnemonics :: "string list" where
  "effect_mnemonics = [''mov'', ''movabs'', ''add'', ''sub'', ''and'', ''or'', ''xor'', ''shl'',
     ''shr'', ''sar'', ''sal'', ''movzbl'', ''movzwl'', ''movslq'', ''movsbl'', ''movsbq'',
     ''movswl'', ''movswq'', ''sbb'', ''lea'', ''imul'']"

text \<open>The register (as anonymous name) or the memory text an operand names.\<close>

definition operand_effect :: "sx \<Rightarrow> string \<Rightarrow> sx \<times> string set \<times> string set" where
  "operand_effect st opd =
     (let (st, opn) = parse_operand st opd in
      case as_reg opn of
        Some r \<Rightarrow>
          (let (st, anon_reg) = get_anonymous_reg st (get_base_register r)
           in (st, {anon_reg}, {}))
      | None \<Rightarrow> if fst opn = Mem then (st, {}, {op_val opn}) else (st, {}, {}))"

definition get_written_effects :: "sx \<Rightarrow> string \<Rightarrow> string list \<Rightarrow> sx \<times> string set \<times> string set" where
  "get_written_effects st mnemonic operands =
     (if operands = [] then (st, {}, {})
      else let base_mn = strip_size_suffix (py_lower mnemonic) in
        if (base_mn \<in> set effect_mnemonics \<or> starts_with ''cmov'' base_mn) \<and> length operands \<ge> 2
        then operand_effect st (last operands)
        else (st, {}, {}))"

fun operand_effects :: "sx \<Rightarrow> string list \<Rightarrow> sx \<times> string set \<times> string set" where
  "operand_effects st [] = (st, {}, {})"
| "operand_effects st (opd # opds) =
     (let (st, regs, mems) = operand_effect st opd;
          (st, regs', mems') = operand_effects st opds
      in (st, regs \<union> regs', mems \<union> mems'))"

definition get_read_effects :: "sx \<Rightarrow> string \<Rightarrow> string list \<Rightarrow> sx \<times> string set \<times> string set" where
  "get_read_effects st mnemonic operands =
     (if operands = [] then (st, {}, {})
      else let base_mn = strip_size_suffix (py_lower mnemonic) in
        if base_mn \<in> set (effect_mnemonics @ [''cmp'', ''test'']) \<or> starts_with ''cmov'' base_mn
        then (let (st, regs, mems) = operand_effects st (butlast operands)
              in if base_mn \<in> {''cmp'', ''test''} \<and> length operands \<ge> 2
                 then (let (st, regs', mems') = operand_effect st (last operands)
                       in (st, regs \<union> regs', mems \<union> mems'))
                 else (st, regs, mems))
        else (st, {}, {}))"

section \<open>Running a basic block\<close>

type_synonym snapshot = "string \<times> string \<times> (string, string) dict \<times> (string, string) dict"

definition exec_line :: "sx \<Rightarrow> string \<Rightarrow> sx \<times> string" where
  "exec_line st inst_line =
     (case parse_instruction (strip_marker (py_strip inst_line)) of
        None \<Rightarrow> (st, [])
      | Some (address, mnemonic, operands) \<Rightarrow>
          (fst (execute_instruction st mnemonic operands), address))"

fun exec_lines :: "sx \<Rightarrow> string list \<Rightarrow> snapshot list \<times> sx" where
  "exec_lines st [] = ([], st)"
| "exec_lines st (inst_line # rest) =
     (let (st, address) = exec_line st inst_line;
          (states, final) = exec_lines st rest
      in ((inst_line, address, sx_state st, state_alt st) # states, final))"

definition invert :: "(string, string) dict \<Rightarrow> (string, string) dict" where
  "invert d = foldl (\<lambda>acc (k, v). dput v k acc) [] d"

definition run_symbolic_exec_on_instructions ::
    "string list \<Rightarrow> snapshot list \<times> (string, string) dict" where
  "run_symbolic_exec_on_instructions instructions =
     (let (states, executor) = exec_lines new_executor instructions
      in (states, invert (reg_map executor)))"

section \<open>What every operation preserves\<close>

text \<open>
  The executor only changes its state by allocating a register, by assigning to
  \<open>state\<close> or \<open>state_alt\<close> under a key it has already handed out (or under
  \<open>FLAGS\<close> or a \<open>mem:\<close> key), by storing to \<open>memory\<close> and by dropping a key of
  \<open>state_alt\<close>. A predicate that these five changes preserve is preserved by the whole run.
\<close>

definition known :: "sx \<Rightarrow> string \<Rightarrow> bool" where
  "known st a \<longleftrightarrow> a \<in> snd ` set (reg_map st) \<or> a = ''FLAGS'' \<or> starts_with ''mem:'' a"

lemma known_cong [simp]:
  "known (set_state a e st) = known st"
  "known (set_alt a e st) = known st"
  "known (st\<lparr>memory := m\<rparr>) = known st"
  "known (st\<lparr>state_alt := m\<rparr>) = known st"
  by (simp_all add: known_def fun_eq_iff set_state_def set_alt_def)

lemma known_flags [simp]: "known st ''FLAGS''" "known st (''mem:'' @ k)"
  "known st (CHR ''m'' # CHR ''e'' # CHR ''m'' # CHR '':'' # k)"
  by (simp_all add: known_def)

lemma get_anonymous_reg_known: "get_anonymous_reg st r = (st', a) \<Longrightarrow> known st' a"
proof -
  assume a: "get_anonymous_reg st r = (st', a)"
  then have "map_of (reg_map st') (get_base_register (py_strip (py_lower r))) = Some a"
    by (auto simp: get_anonymous_reg_def Let_def split: option.splits)
  then show ?thesis by (force simp: known_def dest: map_of_SomeD)
qed

lemma get_anonymous_reg_keeps: "get_anonymous_reg st r = (st', a) \<Longrightarrow> known st b \<Longrightarrow> known st' b"
proof -
  assume a: "get_anonymous_reg st r = (st', a)" "known st b"
  have "snd ` set (reg_map st) \<subseteq> snd ` set (reg_map st')"
    using a(1) by (auto simp: get_anonymous_reg_def Let_def dput_absent map_of_eq_None_iff
        split: option.splits)
  with a(2) show ?thesis by (auto simp: known_def)
qed

lemmas anon_known = get_anonymous_reg_known get_anonymous_reg_keeps

text \<open>The interface: \<open>I\<close> is a predicate on executors that the primitive changes preserve.\<close>

locale sx_preserved =
  fixes I :: "sx \<Rightarrow> bool"
  assumes I_anon: "I st \<Longrightarrow> I (fst (get_anonymous_reg st r))"
    and I_state: "I st \<Longrightarrow> known st a \<Longrightarrow> I (set_state a e st)"
    and I_alt: "I st \<Longrightarrow> known st a \<Longrightarrow> I (set_alt a e st)"
    and I_memory: "I st \<Longrightarrow> I (st\<lparr>memory := m\<rparr>)"
    and I_pop: "I st \<Longrightarrow> I (st\<lparr>state_alt := dpop a (state_alt st)\<rparr>)"
begin

lemma anon_I: "get_anonymous_reg st r = (st', a) \<Longrightarrow> I st \<Longrightarrow> I st'"
  using I_anon [of st r] by simp

lemma mem_reg_I: "mem_reg st r = (st', x) \<Longrightarrow> I st \<Longrightarrow> I st'"
  by (auto simp: mem_reg_def Let_def dest: anon_I split: prod.splits if_splits)

lemma parse_operand_I: "parse_operand st opd = (st', x) \<Longrightarrow> I st \<Longrightarrow> I st'"
  by (auto simp: parse_operand_def parse_mem_def Let_def dest!: mem_reg_I anon_I
      split: prod.splits if_splits option.splits)

lemmas steps_I = anon_I parse_operand_I

lemma exec_mov_I: "exec_mov st ops = (st', d) \<Longrightarrow> I st \<Longrightarrow> I st'"
  by (auto simp: exec_mov_def Let_def intro!: I_state I_alt I_memory dest: steps_I anon_known
      split: prod.splits if_splits option.splits list.splits)

lemma exec_arith_I: "exec_arith opr st ops = (st', d) \<Longrightarrow> I st \<Longrightarrow> I st'"
  by (auto simp: exec_arith_def Let_def intro!: I_state I_alt dest: steps_I anon_known
      split: prod.splits if_splits option.splits list.splits)

lemma exec_bit_I: "exec_bit opr st ops = (st', d) \<Longrightarrow> I st \<Longrightarrow> I st'"
  by (auto simp: exec_bit_def Let_def intro!: I_state I_alt dest: steps_I anon_known
      split: prod.splits if_splits option.splits list.splits)

lemma exec_shift_I: "exec_shift opr oa st ops = (st', d) \<Longrightarrow> I st \<Longrightarrow> I st'"
  by (auto simp: exec_shift_def Let_def intro!: I_state I_alt I_pop dest: steps_I anon_known
      split: prod.splits if_splits option.splits list.splits)

lemma exec_movabs_I: "exec_movabs st ops = (st', d) \<Longrightarrow> I st \<Longrightarrow> I st'"
  by (auto simp: exec_movabs_def Let_def intro!: I_state I_alt dest: steps_I anon_known
      split: prod.splits if_splits option.splits list.splits)

lemma exec_lea_I: "exec_lea st ops = (st', d) \<Longrightarrow> I st \<Longrightarrow> I st'"
  by (auto simp: exec_lea_def Let_def intro!: I_state I_alt dest: steps_I anon_known
      split: prod.splits if_splits option.splits list.splits)

lemma exec_imul3_I: "exec_imul3 st o0 o1 o2 = (st', d) \<Longrightarrow> I st \<Longrightarrow> I st'"
  by (auto simp: exec_imul3_def Let_def intro!: I_state I_alt dest!: parse_operand_I dest: anon_I anon_known
      split: prod.splits if_splits option.splits)

lemma exec_imul_I: "exec_imul st ops = (st', d) \<Longrightarrow> I st \<Longrightarrow> I st'"
  by (auto simp: exec_imul_def dest: exec_arith_I exec_imul3_I split: list.splits)

lemma exec_cmov_I: "exec_cmov st ops = (st', d) \<Longrightarrow> I st \<Longrightarrow> I st'"
  by (auto simp: exec_cmov_def Let_def intro!: I_state I_alt dest: steps_I anon_known
      split: prod.splits if_splits option.splits list.splits)

lemma exec_movzbl_I: "exec_movzbl st ops = (st', d) \<Longrightarrow> I st \<Longrightarrow> I st'"
  by (auto simp: exec_movzbl_def Let_def intro!: I_state dest: steps_I anon_known
      split: prod.splits if_splits option.splits list.splits)

lemma exec_sbb_I: "exec_sbb st ops = (st', d) \<Longrightarrow> I st \<Longrightarrow> I st'"
  by (auto simp: exec_sbb_def Let_def intro!: I_state dest: steps_I anon_known
      split: prod.splits if_splits option.splits list.splits)

lemma cmp_expr_I: "cmp_expr b st opd = (st', d) \<Longrightarrow> I st \<Longrightarrow> I st'"
  by (auto simp: cmp_expr_def Let_def dest: anon_I split: prod.splits if_splits)

lemma exec_cmp_I: "exec_cmp b st ops = (st', d) \<Longrightarrow> I st \<Longrightarrow> I st'"
  by (auto simp: exec_cmp_def Let_def intro!: I_state dest: steps_I cmp_expr_I
      split: prod.splits if_splits option.splits list.splits)

lemmas exec_I = exec_mov_I exec_arith_I exec_bit_I exec_shift_I exec_movabs_I exec_lea_I
  exec_imul_I exec_cmov_I exec_movzbl_I exec_sbb_I exec_cmp_I

lemma exec_branch_I: "exec_branch st m ops = (st', d) \<Longrightarrow> I st \<Longrightarrow> I st'"
  unfolding exec_branch_def Let_def by (auto dest: exec_I split: if_splits)

lemma execute_instruction_I: "I st \<Longrightarrow> I (fst (execute_instruction st m ops))"
  by (auto simp: execute_instruction_def dest: exec_branch_I split: prod.splits option.splits)

lemma exec_line_I: "I st \<Longrightarrow> I (fst (exec_line st l))"
  by (auto simp: exec_line_def execute_instruction_I split: option.splits)

lemma exec_lines_I: "I st \<Longrightarrow> I (snd (exec_lines st ls))"
proof (induction ls arbitrary: st)
  case (Cons l ls)
  from Cons.IH [OF exec_line_I [OF Cons.prems, of l]] show ?case by (simp add: split_beta Let_def)
qed simp

lemma operand_effect_I: "I st \<Longrightarrow> I (fst (operand_effect st opd))"
  by (auto simp: operand_effect_def Let_def dest: steps_I split: prod.splits option.splits)

lemma operand_effects_I: "I st \<Longrightarrow> I (fst (operand_effects st opds))"
proof (induction opds arbitrary: st)
  case (Cons opd opds)
  from Cons.IH [OF operand_effect_I [OF Cons.prems, of opd]] show ?case
    by (simp add: split_beta Let_def)
qed simp

lemma written_effects_I: "I st \<Longrightarrow> I (fst (get_written_effects st m ops))"
  by (simp add: get_written_effects_def Let_def operand_effect_I)

lemma read_effects_I: "I st \<Longrightarrow> I (fst (get_read_effects st m ops))"
  by (simp add: get_read_effects_def Let_def split_beta operand_effect_I operand_effects_I)

end

section \<open>Register allocation\<close>

text \<open>Anonymous names are handed out in order, one per base register.\<close>

definition alloc_ok :: "sx \<Rightarrow> bool" where
  "alloc_ok st \<longleftrightarrow> distinct (dkeys (reg_map st)) \<and>
     map snd (reg_map st) = map anon [0..<reg_counter st] \<and>
     used_regs st = anon ` {0..<reg_counter st}"

lemma alloc_ok_cong [simp]:
  "alloc_ok (set_state a e st) = alloc_ok st"
  "alloc_ok (set_alt a e st) = alloc_ok st"
  "alloc_ok (st\<lparr>memory := m\<rparr>) = alloc_ok st"
  "alloc_ok (st\<lparr>state_alt := m\<rparr>) = alloc_ok st"
  by (simp_all add: alloc_ok_def set_state_def set_alt_def)

lemma anon_inject [simp]: "anon m = anon n \<longleftrightarrow> m = n"
  using dec_codec.enc_eq_iff [of "int m" "int n"] by (auto simp: anon_def)

lemma alloc_ok_anon: "alloc_ok st \<Longrightarrow> alloc_ok (fst (get_anonymous_reg st r))"
  by (auto simp: alloc_ok_def get_anonymous_reg_def Let_def dkeys_def dput_absent
      map_of_eq_None_iff atLeast0_lessThan_Suc split: option.splits)

interpretation alloc: sx_preserved alloc_ok
  by unfold_locales (simp_all add: alloc_ok_anon)

definition keys_ok :: "sx \<Rightarrow> bool" where
  "keys_ok st \<longleftrightarrow> fst ` set (sx_state st) \<subseteq> Collect (known st) \<and>
     fst ` set (state_alt st) \<subseteq> Collect (known st)"

lemma keys_ok_anon: "keys_ok st \<Longrightarrow> keys_ok (fst (get_anonymous_reg st r))"
proof -
  assume k: "keys_ok st"
  obtain st' a where g: "get_anonymous_reg st r = (st', a)" by fastforce
  then have "sx_state st' = sx_state st" "state_alt st' = state_alt st"
    by (auto simp: get_anonymous_reg_def Let_def split: option.splits)
  with k g get_anonymous_reg_keeps [OF g] show ?thesis by (auto simp: keys_ok_def)
qed

interpretation keys: sx_preserved keys_ok
proof
  show "keys_ok (set_state a e st)" if "keys_ok st" "known st a" for st a e
    using that by (simp add: keys_ok_def) (simp add: set_state_def set_alt_def)
  show "keys_ok (set_alt a e st)" if "keys_ok st" "known st a" for st a e
    using that by (simp add: keys_ok_def) (simp add: set_state_def set_alt_def)
  show "keys_ok (st\<lparr>memory := m\<rparr>)" if "keys_ok st" for st m
    using that by (simp add: keys_ok_def)
  show "keys_ok (st\<lparr>state_alt := dpop a (state_alt st)\<rparr>)" if "keys_ok st" for st a
    using that by (auto simp: keys_ok_def dpop_def)
qed (rule keys_ok_anon)

definition extends :: "sx \<Rightarrow> sx \<Rightarrow> bool" where
  "extends st0 st \<longleftrightarrow> map_of (reg_map st0) \<subseteq>\<^sub>m map_of (reg_map st)"

lemma extends_refl [simp]: "extends st st"
  by (simp add: extends_def)

lemma extends_trans: "extends a b \<Longrightarrow> extends b c \<Longrightarrow> extends a c"
  unfolding extends_def by (rule map_le_trans)

lemma extends_anon: "extends st0 st \<Longrightarrow> extends st0 (fst (get_anonymous_reg st r))"
  by (auto simp: extends_def get_anonymous_reg_def Let_def map_le_def dom_def split: option.splits)

interpretation ext: sx_preserved "extends st0" for st0
  by unfold_locales (simp_all add: extends_anon, simp_all add: extends_def set_state_def set_alt_def)

lemma invert_map: "distinct (map snd d) \<Longrightarrow> invert d = map (\<lambda>(k, v). (v, k)) d"
proof -
  have "foldl (\<lambda>acc (k, v). dput v k acc) acc d = acc @ map (\<lambda>(k, v). (v, k)) d"
    if "distinct (map fst acc @ map snd d)" for acc :: "('b, 'a) dict" and d
    using that
  proof (induction d arbitrary: acc)
    case (Cons p d)
    then show ?case by (auto simp: dput_absent split: prod.splits)
  qed simp
  from this [of "[]" d] show "distinct (map snd d) \<Longrightarrow> ?thesis" by (simp add: invert_def)
qed

lemma alloc_ok_distinct: "alloc_ok st \<Longrightarrow> distinct (map snd (reg_map st))"
  by (simp add: alloc_ok_def distinct_map inj_on_def)

lemma alloc_ok_new [simp]: "alloc_ok new_executor"
  by (simp add: alloc_ok_def new_executor_def dkeys_def)

lemma keys_ok_new [simp]: "keys_ok new_executor"
  by (simp add: keys_ok_def new_executor_def)

lemma map_swap [simp]:
  "map (fst \<circ> (\<lambda>(k, v). (v, k))) d = map snd d"
  "map (snd \<circ> (\<lambda>(k, v). (v, k))) d = map fst d"
  by (simp_all add: case_prod_beta comp_def)

lemma map_of_swap:
  "distinct (map fst d) \<Longrightarrow> distinct (map snd d) \<Longrightarrow>
   map_of (map (\<lambda>(k, v). (v, k)) d) a = Some b \<longleftrightarrow> map_of d b = Some a"
proof -
  assume d: "distinct (map fst d)" "distinct (map snd d)"
  then show ?thesis by (subst (1 2) map_of_eq_Some_iff) auto
qed

text \<open>\<open>anon_to_real\<close> is the inverse of the register map, and its keys are r0, r1, ... in order.\<close>

theorem anon_to_real_inverse:
  "(let ar = snd (run_symbolic_exec_on_instructions ls);
        st = snd (exec_lines new_executor ls)
    in (map_of ar a = Some b \<longleftrightarrow> map_of (reg_map st) b = Some a) \<and>
       dkeys ar = map anon [0..<reg_counter st] \<and> distinct (map snd ar))"
proof -
  define st where "st = snd (exec_lines new_executor ls)"
  have ok: "alloc_ok st" unfolding st_def by (rule alloc.exec_lines_I) simp
  then have d: "distinct (map fst (reg_map st))" by (simp add: alloc_ok_def dkeys_def)
  have inv: "snd (run_symbolic_exec_on_instructions ls) = map (\<lambda>(k, v). (v, k)) (reg_map st)"
    using invert_map [OF alloc_ok_distinct [OF ok]]
    by (simp add: run_symbolic_exec_on_instructions_def st_def split_beta)
  with ok d map_of_swap [OF d alloc_ok_distinct [OF ok]] show ?thesis
    by (simp add: Let_def alloc_ok_def dkeys_def inv flip: st_def)
qed

section \<open>Snapshots\<close>

lemma exec_lines_append:
  "exec_lines st (xs @ ys) =
     (let (s1, st1) = exec_lines st xs; (s2, st2) = exec_lines st1 ys in (s1 @ s2, st2))"
  by (induction xs arbitrary: st) (simp_all add: Let_def split_beta)

lemma exec_lines_lines: "map fst (fst (exec_lines st ls)) = ls"
  by (induction ls arbitrary: st) (simp_all add: Let_def split_beta)

lemma exec_lines_nth:
  "i < length ls \<Longrightarrow> (let st' = snd (exec_lines st (take (Suc i) ls)) in
     snd (snd (fst (exec_lines st ls) ! i)) = (sx_state st', state_alt st'))"
proof (induction ls arbitrary: st i)
  case (Cons l ls)
  then show ?case by (cases i) (simp_all add: Let_def split_beta)
qed simp

text \<open>The snapshots of a block's prefix do not depend on the instructions after it.\<close>

theorem snapshots_prefix:
  "take (length xs) (fst (run_symbolic_exec_on_instructions (xs @ ys))) =
   fst (run_symbolic_exec_on_instructions xs)"
proof -
  have "length (fst (exec_lines new_executor xs)) = length xs"
    using arg_cong [OF exec_lines_lines [of new_executor xs], of length] by simp
  then show ?thesis
    by (simp add: run_symbolic_exec_on_instructions_def exec_lines_append split_beta Let_def)
qed

definition known_key :: "(string, string) dict \<Rightarrow> string \<Rightarrow> bool" where
  "known_key ar k \<longleftrightarrow> k \<in> set (dkeys ar) \<or> k = ''FLAGS'' \<or> starts_with ''mem:'' k"

lemma known_extends: "known st a \<Longrightarrow> alloc_ok st \<Longrightarrow> extends st st' \<Longrightarrow> known st' a"
proof -
  assume a: "known st a" "alloc_ok st" "extends st st'"
  have "a \<in> snd ` set (reg_map st')" if "a \<in> snd ` set (reg_map st)"
  proof -
    from that obtain b where "(b, a) \<in> set (reg_map st)" by force
    with a(2) have "map_of (reg_map st) b = Some a" by (simp add: alloc_ok_def dkeys_def)
    with a(3) have "map_of (reg_map st') b = Some a" by (force simp: extends_def map_le_def)
    then show ?thesis by (force dest: map_of_SomeD)
  qed
  with a(1) show ?thesis by (auto simp: known_def)
qed

lemma exec_lines_keys:
  "alloc_ok st \<Longrightarrow> keys_ok st \<Longrightarrow>
   list_all (\<lambda>(l, a, s, t). list_all (known (snd (exec_lines st ls))) (dkeys s @ dkeys t))
     (fst (exec_lines st ls))"
proof (induction ls arbitrary: st)
  case (Cons l ls)
  define st1 where "st1 = fst (exec_line st l)"
  have ok: "alloc_ok st1" "keys_ok st1"
    unfolding st1_def by (rule alloc.exec_line_I keys.exec_line_I; fact)+
  have "extends st1 (snd (exec_lines st1 ls))" by (rule ext.exec_lines_I) simp
  then have "known st1 a \<Longrightarrow> known (snd (exec_lines st1 ls)) a" for a
    using known_extends ok(1) by blast
  with ok(2) have "list_all (known (snd (exec_lines st1 ls))) (dkeys (sx_state st1) @ dkeys (state_alt st1))"
    by (auto simp: keys_ok_def list_all_iff dkeys_def)
  with Cons.IH [OF ok] show ?case by (simp add: st1_def Let_def split_beta)
qed simp

text \<open>A snapshot only binds allocated registers, the flags and stored memory cells.\<close>

theorem snapshots_known:
  "(let (states, ar) = run_symbolic_exec_on_instructions ls in
    list_all (\<lambda>(l, a, s, t). list_all (known_key ar) (dkeys s @ dkeys t)) states)"
proof -
  define st where "st = snd (exec_lines new_executor ls)"
  have "alloc_ok st" unfolding st_def by (rule alloc.exec_lines_I) simp
  then have "invert (reg_map st) = map (\<lambda>(k, v). (v, k)) (reg_map st)"
    using invert_map alloc_ok_distinct by blast
  then have "known_key (invert (reg_map st)) = known st"
    by (auto simp: fun_eq_iff known_key_def known_def dkeys_def)
  with exec_lines_keys [of new_executor ls] show ?thesis
    by (simp add: run_symbolic_exec_on_instructions_def split_beta Let_def st_def)
qed

end
