(* ===== verification/Sym_Sound.thy ===== *)
theory Sym_Sound
  imports Sym_Exec "HOL-Library.Word"
begin

text \<open>
  What the symbolic executor promises. A straight-line program over 64-bit registers is
  written as objdump prints it, run by the executor, and run by a small machine on
  \<open>64 word\<close> registers; the expression the executor holds for a register then denotes
  the value the machine holds there. The first half reads one objdump line back
  (address, mnemonic, operands); the second gives expressions their meaning and proves
  the simulation, for \<open>state\<close> and for the multiplied-out \<open>state_alt\<close>.
\<close>

section \<open>Lines of a listing\<close>

definition asm_line :: "bool \<Rightarrow> nat \<Rightarrow> string \<Rightarrow> string \<Rightarrow> string list \<Rightarrow> string" where
  "asm_line marked addr bytes mn ops =
     (if marked then ''  [*] '' else ''  '') @ digs 16 addr @ '':  '' @ bytes @ TAB # mn @
     (if ops = [] then [] else ''  '' @ join '','' ops)"

definition byte_text :: "string \<Rightarrow> bool" where
  "byte_text b \<longleftrightarrow> b \<noteq> [] \<and> list_all (one_of ''0123456789abcdef '') b \<and> hd b \<noteq> CHR '' ''"

text \<open>A token has no blank, no \<open>#\<close> and no newline.\<close>

definition token :: "string \<Rightarrow> bool" where
  "token t \<longleftrightarrow> t \<noteq> [] \<and> list_all (\<lambda>c. \<not> is_space c \<and> c \<noteq> CHR ''#'') t"

definition operand_text :: "string \<Rightarrow> bool" where
  "operand_text t \<longleftrightarrow> token t \<and> balanced_from 0 t"

definition line_ok :: "string \<Rightarrow> string \<Rightarrow> string list \<Rightarrow> bool" where
  "line_ok bytes mn ops \<longleftrightarrow> byte_text bytes \<and> token mn \<and> list_all operand_text ops"

lemma strip_front:
  assumes "list_all is_space ws" and "s \<noteq> []" and "\<not> is_space (hd s)" and "\<not> is_space (last s)"
  shows "py_strip (ws @ s) = s"
proof -
  have "dropWhile is_space s = s" using assms(2,3) by (cases s) auto
  then have "dropWhile is_space (ws @ s) = s"
    using assms(1) by (simp add: dropWhile_append2 list_all_iff)
  moreover have "dropWhile is_space (rev s) = rev s"
    using assms(2,4) by (cases s rule: rev_cases) auto
  ultimately show ?thesis by (simp add: py_strip_def lstrip_by_def rstrip_by_def)
qed

lemma token_join: "list_all token ts \<Longrightarrow> ts \<noteq> [] \<Longrightarrow> token (join '','' ts)"
  by (induction ts rule: induct_list012) (auto simp: token_def is_space_def)

lemma tokens_of_operands: "list_all operand_text ops \<Longrightarrow> list_all token ops"
  by (auto simp: list_all_iff operand_text_def)

lemma no_comment: "CHR ''#'' \<notin> set s \<Longrightarrow> re_sub rx_comment [] s = s"
proof (rule re_sub_none)
  fix p u v assume "CHR ''#'' \<notin> set s" "s = u @ v"
  then have "CHR ''#'' \<notin> set v" by simp
  then have "fails (seqs [lit ''#'', Many 0 dot, Eol]) q w" if "v = t @ w" for q t w
    using that by (cases w) (auto intro!: fails_Seq1 fails_Cls)
  then show "fails rx_comment p v" unfolding rx_comment_def seqs.simps by (rule fails_Seq2)
qed

lemma digs_hd: "digs 16 n = c # cs \<Longrightarrow> is_hex c"
  using digs_hex [of 16 c n] by simp

lemma is_hex_not: "is_hex c \<Longrightarrow> c \<noteq> CHR ''['' \<and> c \<noteq> CHR '':'' \<and> \<not> is_space c"
  using is_hex_is_word is_word_not_space by (auto simp: is_hex_def)

text \<open>The parsed part of a line: what follows the marker.\<close>

definition body :: "nat \<Rightarrow> string \<Rightarrow> string \<Rightarrow> string list \<Rightarrow> string" where
  "body addr bytes mn ops = digs 16 addr @ '':  '' @ bytes @ TAB # mn @
     (if ops = [] then [] else ''  '' @ join '','' ops)"

lemma body_hd: "\<exists>c cs. body addr bytes mn ops = c # cs \<and> is_hex c"
proof -
  obtain c cs where "digs 16 addr = c # cs" by (meson digs_nonempty neq_Nil_conv)
  with digs_hd show ?thesis by (auto simp: body_def)
qed

lemma body_last: "line_ok bytes mn ops \<Longrightarrow> \<not> is_space (last (body addr bytes mn ops))"
proof -
  assume ok: "line_ok bytes mn ops"
  show ?thesis
  proof (cases "ops = []")
    case True
    with ok show ?thesis by (auto simp: body_def line_ok_def token_def list_all_iff)
  next
    case False
    with ok have "token (join '','' ops)" by (simp add: token_join tokens_of_operands line_ok_def)
    with False show ?thesis by (auto simp: body_def token_def list_all_iff)
  qed
qed

lemma strip_marker_body: "strip_marker (body addr bytes mn ops) = body addr bytes mn ops"
proof -
  obtain c cs where c: "body addr bytes mn ops = c # cs" "is_hex c" using body_hd by blast
  have "fails (seqs [Many 0 is_space, lit ''[*]'', Many 0 is_space]) None (c # cs)"
    using is_hex_not [OF c(2)] by (simp add: fails_exec re_exec_def)
  then have "fails rx_marker None (c # cs)"
    by (simp add: rx_marker_def fails_exec re_exec_def)
  then show ?thesis by (simp add: strip_marker_def c(1) rx_marker_def re_sub_anchored_none)
qed

lemma parse_body:
  assumes "line_ok bytes mn ops"
  shows "parse_instruction (body addr bytes mn ops) = Some (digs 16 addr, mn, ops)"
proof -
  define rest where "rest = (if ops = [] then [] else join '','' ops)"
  define gap where "gap = (if ops = [] then [] else ''  '')"
  have bytes: "bytes \<noteq> []" "list_all (one_of ''0123456789abcdef '') bytes" "hd bytes \<noteq> CHR '' ''"
    and mn: "mn \<noteq> []" "list_all non_space mn"
    using assms by (auto simp: line_ok_def byte_text_def token_def non_space_def list_all_iff)
  have tok: "ops \<noteq> [] \<Longrightarrow> token rest"
    using assms by (simp add: rest_def token_join tokens_of_operands line_ok_def)
  have rest_chars: "c \<in> set rest \<Longrightarrow> \<not> is_space c \<and> c \<noteq> CHR ''#''" for c
    using tok by (cases "ops = []") (auto simp: token_def list_all_iff rest_def)
  have nl: "NL \<notin> set rest" using rest_chars [of NL] by (auto simp: is_space_def)
  have hd_bytes: "\<not> is_space (hd bytes)"
    using bytes by (cases bytes) (auto simp: one_of_def is_space_def)
  have B: "body addr bytes mn ops = digs 16 addr @ '':'' @ ''  '' @ bytes @ [TAB] @ mn @ gap @ rest"
    by (simp add: body_def gap_def rest_def)
  have hex: "list_all is_hex (digs 16 addr)" using digs_hex [of 16] by (auto simp: list_all_iff)
  have hd_digs: "\<not> is_space (hd (digs 16 addr @ t))" for t
    using digs_not_space [of "hd (digs 16 addr)" 16 addr] by simp
  let ?t1 = "digs 16 addr @ '':'' @ ''  '' @ bytes @ [TAB] @ mn @ gap @ rest"
  have m0: "runs (Many 0 is_space) None ([] @ ?t1) [] (prev_after None []) ?t1 []"
    by (rule runs_Many) (use hd_digs in auto)
  have m1: "runs (Grp 1 (Many 1 is_hex)) q ?t1 g (prev_after q (digs 16 addr))
      ('':'' @ ''  '' @ bytes @ [TAB] @ mn @ gap @ rest) (dput 1 (digs 16 addr) g)" for q g
    by (rule runs_Grp, rule runs_Many) (use hex in \<open>auto simp: is_hex_def Suc_le_eq\<close>)
  have m2: "runs (Many 1 is_space) q (''  '' @ bytes @ [TAB] @ mn @ gap @ rest) g
      (prev_after q ''  '') (bytes @ [TAB] @ mn @ gap @ rest) g" for q g
    by (rule runs_Many) (use hd_bytes bytes(1) in \<open>auto simp: is_space_def\<close>)
  have m3: "runs (Many 1 (one_of ''0123456789abcdef '')) q (bytes @ [TAB] @ mn @ gap @ rest) g
      (prev_after q bytes) ([TAB] @ mn @ gap @ rest) g" for q g
    by (rule runs_Many) (use bytes in \<open>auto simp: one_of_def Suc_le_eq\<close>)
  have m4: "runs (Many 1 (\<lambda>c. c = TAB)) q ([TAB] @ mn @ gap @ rest) g
      (prev_after q [TAB]) (mn @ gap @ rest) g" for q g
    by (rule runs_Many) (use mn in \<open>cases mn; auto simp: non_space_def is_space_def\<close>)+
  have m5: "runs (Grp 2 (Many 1 non_space)) q (mn @ gap @ rest) g
      (prev_after q mn) (gap @ rest) (dput 2 mn g)" for q g
    by (rule runs_Grp, rule runs_Many)
      (use mn in \<open>auto simp: gap_def rest_def non_space_def is_space_def Suc_le_eq\<close>)
  have m6: "runs (Many 0 is_space) q (gap @ rest) g (prev_after q gap) rest g" for q g
    by (rule runs_Many) (use rest_chars in \<open>cases rest; auto simp: gap_def is_space_def\<close>)+
  have m7: "runs (Grp 3 (Many 0 dot)) q (rest @ []) g (prev_after q rest) [] (dput 3 rest g)" for q g
    by (rule runs_Grp, rule runs_Many)
      (use nl in \<open>auto simp: list_all_iff dot_def\<close>)
  have m8: "runs Eol q [] g q [] g" for q g by (rule runs_Eol) (simp add: at_eol_def)
  have "runs rx_insn None ?t1 [] (prev_after (prev_after (prev_after (prev_after (prev_after (prev_after
      (prev_after (prev_after None (digs 16 addr)) '':'') ''  '') bytes) [TAB]) mn) gap) rest) []
      (dput 3 rest (dput 2 mn (dput 1 (digs 16 addr) [])))"
    unfolding rx_insn_def seqs.simps
    by (rule runs_Seq [OF runs_Bol runs_Seq [OF m0 [unfolded append_Nil prev_after_simps(1)] runs_Seq [OF m1 runs_Seq [OF runs_lit
        runs_Seq [OF m2 runs_Seq [OF m3 runs_Seq [OF m4 runs_Seq [OF m5 runs_Seq [OF m6
        runs_Seq [OF m7 [unfolded append_Nil2] m8]]]]]]]]]])
  then have "re_match rx_insn ?t1 = Some (dput 3 rest (dput 2 mn (dput 1 (digs 16 addr) [])), [])"
    by (rule runs_match)
  then have "re_match rx_insn (strip_marker (body addr bytes mn ops)) =
      Some ([(1, digs 16 addr), (2, mn), (3, rest)], [])"
    unfolding strip_marker_body unfolding B by simp
  moreover have "py_strip rest = rest" using rest_chars by (intro strip_id) blast
  moreover have "re_sub rx_comment [] rest = rest" using rest_chars by (intro no_comment) blast
  moreover have "ops \<noteq> [] \<Longrightarrow> split_asm_operands rest = ops"
  proof -
    assume ne: "ops \<noteq> []"
    then have "token (last ops)" and "list_all (balanced_from 0) ops"
      using assms by (auto simp: line_ok_def operand_text_def list_all_iff)
    with ne show ?thesis by (simp add: split_asm_operands_def rest_def split_ops_join token_def)
  qed
  moreover have "rest = [] \<longleftrightarrow> ops = []" using tok by (auto simp: token_def rest_def)
  ultimately show ?thesis
    by (auto simp: parse_instruction_def Let_def group_def dget_def)
qed

text \<open>Stripping a line, its marker included.\<close>

lemma strip_asm_line:
  assumes "line_ok bytes mn ops"
  shows "strip_marker (py_strip (asm_line marked addr bytes mn ops)) = body addr bytes mn ops"
proof -
  let ?b = "body addr bytes mn ops"
  obtain c cs where c: "?b = c # cs" "is_hex c" using body_hd by blast
  have last: "\<not> is_space (last ?b)" by (rule body_last [OF assms])
  have sp: "list_all is_space ''  ''" by (simp add: is_space_def)
  show ?thesis
  proof (cases marked)
    case False
    then have "asm_line marked addr bytes mn ops = ''  '' @ ?b" by (simp add: asm_line_def body_def)
    moreover have "py_strip (''  '' @ ?b) = ?b"
      by (rule strip_front [OF sp]) (use c is_hex_not last in auto)
    ultimately show ?thesis by (simp add: strip_marker_body)
  next
    case True
    then have "asm_line marked addr bytes mn ops = ''  '' @ ''[*] '' @ ?b"
      by (simp add: asm_line_def body_def)
    moreover have "py_strip (''  '' @ ''[*] '' @ ?b) = ''[*] '' @ ?b"
      by (rule strip_front [OF sp]) (use c last in \<open>auto simp: is_space_def\<close>)
    moreover have "strip_marker (''[*] '' @ ?b) = [] @ ?b"
    proof -
      have "runs (Many 0 is_space) None ([] @ ''[*]'' @ '' '' @ ?b) [] (prev_after None [])
          (''[*]'' @ '' '' @ ?b) []"
        by (rule runs_Many) (auto simp: is_space_def)
      moreover have "runs (Many 0 is_space) q ('' '' @ ?b) [] (prev_after q '' '') ?b []" for q
        by (rule runs_Many) (use c is_hex_not in \<open>auto simp: is_space_def\<close>)
      ultimately have "runs rx_marker None (''[*]'' @ '' '' @ ?b) []
          (prev_after (prev_after (prev_after None []) ''[*]'') '' '') ?b []"
        unfolding rx_marker_def seqs.simps append_Nil
        by (intro runs_Seq [OF runs_Bol] runs_Seq [OF _ runs_Seq [OF runs_lit]])
      then show ?thesis
        unfolding strip_marker_def rx_marker_def seqs.simps
        by (intro re_sub_anchored) auto
    qed
    ultimately show ?thesis by simp
  qed
qed



section \<open>The machine\<close>

definition regs64 :: "string list" where
  "regs64 = [''rax'', ''rbx'', ''rcx'', ''rdx'', ''rsi'', ''rdi'', ''rbp'', ''rsp'',
     ''r8'', ''r9'', ''r10'', ''r11'', ''r12'', ''r13'', ''r14'', ''r15'']"

datatype src = I int | R string

datatype aop = Add | Sub | And | Or | Xor | Mul | Shl | Shr

datatype insn = Mov src string | Op aop src string | Mul3 int string string

type_synonym regs = "string \<Rightarrow> 64 word"

fun src_value :: "regs \<Rightarrow> src \<Rightarrow> 64 word" where
  "src_value \<rho> (I n) = of_int n"
| "src_value \<rho> (R r) = \<rho> r"

text \<open>The processor takes a shift count modulo 64.\<close>

fun aop_sem :: "aop \<Rightarrow> 64 word \<Rightarrow> 64 word \<Rightarrow> 64 word" where
  "aop_sem Add a b = a + b"
| "aop_sem Sub a b = a - b"
| "aop_sem And a b = and a b"
| "aop_sem Or a b = or a b"
| "aop_sem Xor a b = xor a b"
| "aop_sem Mul a b = a * b"
| "aop_sem Shl a b = push_bit (unat b mod 64) a"
| "aop_sem Shr a b = drop_bit (unat b mod 64) a"

fun step :: "insn \<Rightarrow> regs \<Rightarrow> regs" where
  "step (Mov s d) \<rho> = \<rho>(d := src_value \<rho> s)"
| "step (Op p s d) \<rho> = \<rho>(d := aop_sem p (\<rho> d) (src_value \<rho> s))"
| "step (Mul3 n s d) \<rho> = \<rho>(d := \<rho> s * of_int n)"

definition machine :: "insn list \<Rightarrow> regs \<Rightarrow> regs" where
  "machine p \<rho> = fold step p \<rho>"

subsection \<open>Its assembly text\<close>

fun aop_name :: "aop \<Rightarrow> string" where
  "aop_name Add = ''add''"
| "aop_name Sub = ''sub''"
| "aop_name And = ''and''"
| "aop_name Or = ''or''"
| "aop_name Xor = ''xor''"
| "aop_name Mul = ''imul''"
| "aop_name Shl = ''shl''"
| "aop_name Shr = ''shr''"

fun insn_name :: "insn \<Rightarrow> string" where
  "insn_name (Mov s d) = ''mov''"
| "insn_name (Op p s d) = aop_name p"
| "insn_name (Mul3 n s d) = ''imul''"

definition imm_text :: "int \<Rightarrow> string" where
  "imm_text n = ''$'' @ hex0x n"

definition reg_text :: "string \<Rightarrow> string" where
  "reg_text r = ''%'' @ r"

fun src_text :: "src \<Rightarrow> string" where
  "src_text (I n) = imm_text n"
| "src_text (R r) = reg_text r"

fun insn_operands :: "insn \<Rightarrow> string list" where
  "insn_operands (Mov s d) = [src_text s, reg_text d]"
| "insn_operands (Op p s d) = [src_text s, reg_text d]"
| "insn_operands (Mul3 n s d) = [imm_text n, reg_text s, reg_text d]"

fun src_ok :: "src \<Rightarrow> bool" where
  "src_ok (I n) \<longleftrightarrow> 0 \<le> n \<and> n < 2 ^ 64"
| "src_ok (R r) \<longleftrightarrow> r \<in> set regs64"

text \<open>Shifts take a literal count below 64.\<close>

fun insn_ok :: "insn \<Rightarrow> bool" where
  "insn_ok (Mov s d) \<longleftrightarrow> src_ok s \<and> d \<in> set regs64"
| "insn_ok (Op p s d) \<longleftrightarrow> src_ok s \<and> d \<in> set regs64 \<and>
     (p = Shl \<or> p = Shr \<longrightarrow> (case s of I n \<Rightarrow> n < 64 | R r \<Rightarrow> False))"
| "insn_ok (Mul3 n s d) \<longleftrightarrow> 0 \<le> n \<and> n < 2 ^ 64 \<and> s \<in> set regs64 \<and> d \<in> set regs64"

text \<open>
  An instruction of a listing: marker, address, bytes, whether the mnemonic is written
  with its suffix \<open>q\<close>, and the instruction. A name that ends in a suffix letter
  (\<open>sub\<close>, \<open>shl\<close>, \<open>imul\<close>) has to be written with the suffix: see
  \<open>unsuffixed_ignored\<close> below.
\<close>

type_synonym listed = "bool \<times> nat \<times> string \<times> bool \<times> insn"

definition mnemonic_of :: "bool \<Rightarrow> insn \<Rightarrow> string" where
  "mnemonic_of q i = insn_name i @ (if q then ''q'' else [])"

fun line_of :: "listed \<Rightarrow> string" where
  "line_of (marked, addr, bytes, q, i) =
     asm_line marked addr bytes (mnemonic_of q i) (insn_operands i)"

fun listed_ok :: "listed \<Rightarrow> bool" where
  "listed_ok (marked, addr, bytes, q, i) \<longleftrightarrow>
     byte_text bytes \<and> insn_ok i \<and> (q \<or> last (insn_name i) \<notin> set ''bwlq'')"

fun insn_of :: "listed \<Rightarrow> insn" where
  "insn_of (marked, addr, bytes, q, i) = i"

section \<open>What an expression denotes\<close>

definition op_sem :: "string \<Rightarrow> (64 word \<Rightarrow> 64 word \<Rightarrow> 64 word) option" where
  "op_sem opr = map_of
     [(''+'', (+)), (''-'', (-)), (''*'', (*)), (''/'', (div)),
      (''&'', and), (''|'', or), (''^'', xor),
      (''<<'', \<lambda>a b. push_bit (unat b) a), (''>>'', \<lambda>a b. drop_bit (unat b) a)] opr"

inductive denotes :: "(string \<Rightarrow> 64 word) \<Rightarrow> string \<Rightarrow> 64 word \<Rightarrow> bool" for \<rho> where
  reg: "denotes \<rho> (anon k) (\<rho> (anon k))"
| hex: "0 \<le> n \<Longrightarrow> denotes \<rho> (hex0x n) (of_int n)"
| dec: "0 \<le> n \<Longrightarrow> denotes \<rho> (py_str n) (of_int n)"
| bin: "denotes \<rho> e a \<Longrightarrow> denotes \<rho> f b \<Longrightarrow> op_sem opr = Some h \<Longrightarrow> denotes \<rho> (bin opr e f) (h a b)"

lemma denotes_bin:
  "denotes \<rho> e a \<Longrightarrow> denotes \<rho> f b \<Longrightarrow> denotes \<rho> (bin ''+'' e f) (a + b)"
  "denotes \<rho> e a \<Longrightarrow> denotes \<rho> f b \<Longrightarrow> denotes \<rho> (bin ''-'' e f) (a - b)"
  "denotes \<rho> e a \<Longrightarrow> denotes \<rho> f b \<Longrightarrow> denotes \<rho> (bin ''*'' e f) (a * b)"
  "denotes \<rho> e a \<Longrightarrow> denotes \<rho> f b \<Longrightarrow> denotes \<rho> (bin ''&'' e f) (and a b)"
  "denotes \<rho> e a \<Longrightarrow> denotes \<rho> f b \<Longrightarrow> denotes \<rho> (bin ''|'' e f) (or a b)"
  "denotes \<rho> e a \<Longrightarrow> denotes \<rho> f b \<Longrightarrow> denotes \<rho> (bin ''^'' e f) (xor a b)"
  by (rule denotes.bin; simp add: op_sem_def)+

lemma unat_of_int_64: "0 \<le> n \<Longrightarrow> n < 2 ^ 64 \<Longrightarrow> unat (of_int n :: 64 word) = nat n"
proof -
  assume n: "0 \<le> n" "n < 2 ^ 64"
  then have "nat n < 2 ^ 64" by simp
  moreover have "(of_int n :: 64 word) = of_nat (nat n)" using n by simp
  ultimately show ?thesis by (simp only: unsigned_of_nat) (simp add: take_bit_nat_eq_self)
qed

lemma denotes_shift:
  assumes "denotes \<rho> e a" and "0 \<le> n" and "n < 64"
  shows "denotes \<rho> (bin ''<<'' e (hex0x n)) (push_bit (nat n) a)"
    and "denotes \<rho> (bin ''>>'' e (hex0x n)) (drop_bit (nat n) a)"
    and "denotes \<rho> (bin ''*'' e (py_str (2 ^ nat n))) (push_bit (nat n) a)"
    and "denotes \<rho> (bin ''/'' e (py_str (2 ^ nat n))) (drop_bit (nat n) a)"
proof -
  have n: "unat (of_int n :: 64 word) = nat n" using assms by (intro unat_of_int_64) auto
  have h: "denotes \<rho> (hex0x n) (of_int n)" using assms by (intro denotes.hex)
  show "denotes \<rho> (bin ''<<'' e (hex0x n)) (push_bit (nat n) a)"
    using denotes.bin [OF assms(1) h, of "''<<''"] by (simp add: op_sem_def n)
  show "denotes \<rho> (bin ''>>'' e (hex0x n)) (drop_bit (nat n) a)"
    using denotes.bin [OF assms(1) h, of "''>>''"] by (simp add: op_sem_def n)
  have d: "denotes \<rho> (py_str (2 ^ nat n)) (of_int (2 ^ nat n))" by (rule denotes.dec) simp
  show "denotes \<rho> (bin ''*'' e (py_str (2 ^ nat n))) (push_bit (nat n) a)"
    using denotes.bin [OF assms(1) d, of "''*''"] by (simp add: op_sem_def push_bit_eq_mult)
  have "a div 2 ^ nat n = drop_bit (nat n) a" by (rule drop_bit_eq_div [symmetric])
  then show "denotes \<rho> (bin ''/'' e (py_str (2 ^ nat n))) (drop_bit (nat n) a)"
    using denotes.bin [OF assms(1) d, of "''/''"] by (simp add: op_sem_def)
qed

subsection \<open>An expression denotes one value\<close>

definition atom_text :: "string \<Rightarrow> bool" where
  "atom_text s \<longleftrightarrow> s \<noteq> [] \<and> CHR '' '' \<notin> set s \<and> CHR '')'' \<notin> set s \<and> CHR ''('' \<notin> set s"

lemma atom_digs: "2 \<le> b \<Longrightarrow> b \<le> 16 \<Longrightarrow> atom_text (digs b n)"
  using digs_hex [of b "CHR '' ''" n] digs_hex [of b "CHR '')''" n] digs_hex [of b "CHR ''(''" n]
  by (auto simp: atom_text_def is_hex_def)

lemma atom_texts: "atom_text (anon k)" "0 \<le> n \<Longrightarrow> atom_text (hex0x n)" "0 \<le> n \<Longrightarrow> atom_text (py_str n)"
  using atom_digs [of 10] atom_digs [of 16]
  by (auto simp: anon_def py_str_def hex0x_def hex_of_def atom_text_def)

lemma append_delim:
  "d \<notin> set e \<Longrightarrow> d' \<notin> set e \<Longrightarrow> d \<notin> set f \<Longrightarrow> d' \<notin> set f \<Longrightarrow> c \<in> {d, d'} \<Longrightarrow> c' \<in> {d, d'} \<Longrightarrow>
   e @ c # x = f @ c' # y \<longleftrightarrow> e = f \<and> c = c' \<and> x = y"
proof (induction e arbitrary: f)
  case Nil
  then show ?case by (cases f) auto
next
  case (Cons a e)
  then show ?case by (cases f) auto
qed

lemma op_sem_names: "op_sem opr = Some h \<Longrightarrow> CHR '' '' \<notin> set opr \<and> CHR '')'' \<notin> set opr"
  by (auto simp: op_sem_def split: if_splits)

inductive_cases denotes_cases: "denotes \<rho> e a"

lemma bin_not_atom [simp]: "\<not> atom_text (bin opr e f)"
  by (simp add: atom_text_def bin_def)

lemma denotes_shape:
  "denotes \<rho> f b \<Longrightarrow> atom_text f \<or>
     (\<exists>opr f1 f2 b1 b2 h. f = bin opr f1 f2 \<and> denotes \<rho> f1 b1 \<and> denotes \<rho> f2 b2 \<and> op_sem opr = Some h)"
  by (erule denotes_cases) (auto simp: atom_texts)

lemma atom_prefix:
  assumes "atom_text e" and "denotes \<rho> f b" and "c \<in> {CHR '' '', CHR '')''}"
    and "c' \<in> {CHR '' '', CHR '')''}" and "e @ c # x = f @ c' # y"
  shows "e = f \<and> c = c' \<and> x = y"
proof (cases "atom_text f")
  case True
  with assms append_delim [of "CHR '' ''" e "CHR '')''" f c c' x y] show ?thesis
    by (simp add: atom_text_def)
next
  case False
  then obtain opr f1 f2 where "f = bin opr f1 f2" using denotes_shape [OF assms(2)] by blast
  moreover obtain d e' where "e = d # e'" "d \<noteq> CHR ''(''"
    using assms(1) by (cases e) (auto simp: atom_text_def)
  ultimately show ?thesis using assms(5) by (simp add: bin_def)
qed

lemma denotes_prefix:
  "denotes \<rho> e a \<Longrightarrow> denotes \<rho> f b \<Longrightarrow> c \<in> {CHR '' '', CHR '')''} \<Longrightarrow> c' \<in> {CHR '' '', CHR '')''} \<Longrightarrow>
   e @ c # x = f @ c' # y \<Longrightarrow> e = f \<and> c = c' \<and> x = y"
proof (induction e a arbitrary: f b c c' x y rule: denotes.induct)
  case (bin e a e' a' opr h)
  show ?case
  proof (cases "atom_text f")
    case True
    then have "f \<noteq> [] \<and> hd f \<noteq> CHR ''(''" by (cases f) (auto simp: atom_text_def)
    with bin.prems(4) show ?thesis by (cases f) (auto simp: bin_def)
  next
    case False
    then obtain opr' f1 f2 b1 b2 h' where f: "f = bin opr' f1 f2" "denotes \<rho> f1 b1" "denotes \<rho> f2 b2"
      "op_sem opr' = Some h'" using denotes_shape [OF bin.prems(1)] by blast
    with bin.prems(4) have "e @ CHR '' '' # opr @ CHR '' '' # e' @ CHR '')'' # c # x =
        f1 @ CHR '' '' # opr' @ CHR '' '' # f2 @ CHR '')'' # c' # y" by (simp add: bin_def)
    then have 1: "e = f1" "opr @ CHR '' '' # e' @ CHR '')'' # c # x =
        opr' @ CHR '' '' # f2 @ CHR '')'' # c' # y" using bin.IH(1) [OF f(2)] by blast+
    then have 2: "opr = opr'" "e' @ CHR '')'' # c # x = f2 @ CHR '')'' # c' # y"
      using append_delim [of "CHR '' ''" opr "CHR '')''" opr'] op_sem_names [OF bin.hyps(3)]
        op_sem_names [OF f(4)] by auto
    then have "e' = f2" "c # x = c' # y" using bin.IH(2) [OF f(3)] by blast+
    with 1 2 f show ?thesis by simp
  qed
next
  case (reg k)
  then show ?case using atom_prefix [OF atom_texts(1)] by metis
next
  case (hex n)
  then show ?case using atom_prefix [OF atom_texts(2)] by metis
next
  case (dec n)
  then show ?case using atom_prefix [OF atom_texts(3)] by metis
qed

text \<open>The three kinds of atoms are told apart by their first two characters.\<close>

lemma hex0x_inj: "0 \<le> m \<Longrightarrow> 0 \<le> n \<Longrightarrow> hex0x m = hex0x n \<longleftrightarrow> m = n"
  using hex0x_codec.enc_eq_iff by blast

lemma digits_hd: "is_digit (hd (digs 10 n))"
  using digs_digit [of "hd (digs 10 n)" n] by simp

lemma atoms_apart:
  "anon k \<noteq> hex0x n" "0 \<le> n \<Longrightarrow> anon k \<noteq> py_str n" "0 \<le> m \<Longrightarrow> 0 \<le> n \<Longrightarrow> hex0x m \<noteq> py_str n"
proof -
  show "anon k \<noteq> hex0x n" by (simp add: anon_def hex0x_def)
  show "anon k \<noteq> py_str n" if "0 \<le> n"
  proof
    assume "anon k = py_str n"
    then have "hd (digs 10 (nat n)) = CHR ''r''" using that by (auto simp: anon_def py_str_def dest: arg_cong [where f = hd])
    with digits_hd [of "nat n"] show False by (simp add: is_digit_def)
  qed
  show "hex0x m \<noteq> py_str n" if "0 \<le> n"
  proof
    assume "hex0x m = py_str n"
    then have "CHR ''x'' \<in> set (digs 10 (nat n))" using that by (metis (no_types) append_Cons hex0x_def
          list.set_intros linorder_not_less py_str_def)
    then show False using digs_digit by (fastforce simp: is_digit_def)
  qed
qed

lemma denotes_value:
  "denotes \<rho> e v \<Longrightarrow> (\<exists>k. e = anon k \<and> v = \<rho> e) \<or> (\<exists>n. 0 \<le> n \<and> e = hex0x n \<and> v = of_int n) \<or>
     (\<exists>n. 0 \<le> n \<and> e = py_str n \<and> v = of_int n) \<or> \<not> atom_text e"
  by (erule denotes_cases) auto

lemma denotes_bin_shape:
  "denotes \<rho> e v \<Longrightarrow> atom_text e \<or> (\<exists>opr f1 f2 a b h. e = bin opr f1 f2 \<and> v = h a b \<and>
     denotes \<rho> f1 a \<and> denotes \<rho> f2 b \<and> op_sem opr = Some h)"
  by (erule denotes_cases) (simp_all add: atom_texts, blast)

lemma denotes_atom:
  "denotes \<rho> (anon k) v \<longleftrightarrow> v = \<rho> (anon k)"
  "0 \<le> n \<Longrightarrow> denotes \<rho> (hex0x n) v \<longleftrightarrow> v = of_int n"
  "0 \<le> n \<Longrightarrow> denotes \<rho> (py_str n) v \<longleftrightarrow> v = of_int n"
proof -
  show "denotes \<rho> (anon k) v \<longleftrightarrow> v = \<rho> (anon k)"
    using denotes_value [of \<rho> "anon k" v] atom_texts(1) atoms_apart(1,2) denotes.reg by blast
  show "denotes \<rho> (hex0x n) v \<longleftrightarrow> v = of_int n" if "0 \<le> n"
    using denotes_value [of \<rho> "hex0x n" v] atom_texts(2) [OF that] atoms_apart(1)
      atoms_apart(3) [OF that] hex0x_inj [OF that] denotes.hex [OF that] by metis
  show "denotes \<rho> (py_str n) v \<longleftrightarrow> v = of_int n" if "0 \<le> n"
    using denotes_value [of \<rho> "py_str n" v] atom_texts(3) [OF that] atoms_apart(2) [OF that]
      atoms_apart(3) [OF _ that] dec_codec.enc_eq_iff denotes.dec [OF that] by metis
qed

lemma denotes_unique: "denotes \<rho> e a \<Longrightarrow> denotes \<rho> e b \<Longrightarrow> a = b"
proof (induction e a arbitrary: b rule: denotes.induct)
  case (bin e a f c opr h)
  obtain opr' e' f' a' c' h' where q: "bin opr e f = bin opr' e' f'" "b = h' a' c'"
    "denotes \<rho> e' a'" "denotes \<rho> f' c'" "op_sem opr' = Some h'"
    using denotes_bin_shape [OF bin.prems] bin_not_atom by blast
  have "e @ CHR '' '' # opr @ CHR '' '' # f @ CHR '')'' # [] = e' @ CHR '' '' # opr' @ CHR '' '' # f' @ CHR '')'' # []"
    using q(1) by (simp add: bin_def)
  then have 1: "e = e'" "opr @ CHR '' '' # f @ CHR '')'' # [] = opr' @ CHR '' '' # f' @ CHR '')'' # []"
    using denotes_prefix [OF bin.hyps(1) q(3)] by blast+
  then have "opr = opr' \<and> f @ CHR '')'' # [] = f' @ CHR '')'' # []"
    using append_delim [of "CHR '' ''" opr "CHR '')''" opr'] op_sem_names [OF bin.hyps(3)]
      op_sem_names [OF q(5)] by auto
  with 1 q bin show ?case by auto
qed (simp_all add: denotes_atom)

section \<open>Operands of the fragment\<close>

lemma regs64_text:
  "list_all (\<lambda>r. py_strip (reg_text r) = reg_text r \<and> re_sub rx_segment [] (reg_text r) = reg_text r \<and>
     re_match rx_mem (reg_text r) = None \<and> get_base_register (py_strip (py_lower r)) = r \<and>
     r \<noteq> [] \<and> operand_text (reg_text r)) regs64"
  by code_simp

lemma reg_facts:
  assumes "r \<in> set regs64"
  shows "py_strip (reg_text r) = reg_text r" "re_sub rx_segment [] (reg_text r) = reg_text r"
    "re_match rx_mem (reg_text r) = None" "get_base_register (py_strip (py_lower r)) = r"
    "r \<noteq> []" "operand_text (reg_text r)"
  using regs64_text assms by (auto simp: list_all_iff)

lemma parse_reg:
  "r \<in> set regs64 \<Longrightarrow> parse_operand st (reg_text r) =
     (fst (get_anonymous_reg st r), Reg, None, Some r)"
  using reg_facts [of r] by (simp add: parse_operand_def split_beta Let_def) (simp add: reg_text_def)

lemma hex0x_chars: "0 \<le> n \<Longrightarrow> c \<in> set (hex0x n) \<Longrightarrow> is_hex c \<or> c = CHR ''x''"
  using digs_hex [of 16 c "nat n"] by (auto simp: hex0x_def hex_of_def is_hex_def)

lemma imm_text_plain: "0 \<le> n \<Longrightarrow> c \<in> set (imm_text n) \<Longrightarrow> \<not> is_space c \<and> c \<noteq> CHR ''#''
    \<and> c \<noteq> CHR ''('' \<and> c \<noteq> CHR '')'' \<and> c \<noteq> CHR '',''"
  using hex0x_chars [of n c] is_hex_not [of c]
  by (auto simp: imm_text_def is_hex_def is_space_def Let_def)

lemma balanced_plain:
  "(\<And>c. c \<in> set s \<Longrightarrow> c \<noteq> CHR ''('' \<and> c \<noteq> CHR '')'' \<and> c \<noteq> CHR '','') \<Longrightarrow> balanced_from 0 s"
  by (induction s) auto

lemma imm_operand_text: "0 \<le> n \<Longrightarrow> operand_text (imm_text n)"
  using imm_text_plain [of n] balanced_plain [of "imm_text n"]
  by (auto simp: operand_text_def token_def list_all_iff imm_text_def)

lemma parse_imm_operand:
  "0 \<le> n \<Longrightarrow> parse_operand st (imm_text n) = (st, Imm, Some (hex0x n), None)"
proof -
  assume n: "0 \<le> n"
  then have "py_strip (imm_text n) = imm_text n"
    using imm_text_plain by (intro strip_id) blast
  moreover have "re_sub rx_segment [] (imm_text n) = imm_text n"
    unfolding rx_segment_def seqs.simps
    by (rule re_sub_anchored_none) (simp add: fails_exec re_exec_def imm_text_def)
  moreover have "parse_imm (hex0x n) = hex0x n"
    using py_int_hex0x [OF n] by (simp add: parse_imm_def) (simp add: hex0x_def)
  ultimately show ?thesis by (simp add: parse_operand_def Let_def) (simp add: imm_text_def)
qed

text \<open>The executor after it has met a source operand, and the source's text.\<close>

definition touch :: "string \<Rightarrow> sx \<Rightarrow> sx" where
  "touch r st = fst (get_anonymous_reg st r)"

fun touch_src :: "src \<Rightarrow> sx \<Rightarrow> sx" where
  "touch_src (I n) st = st"
| "touch_src (R r) st = touch r st"

fun src_operand :: "src \<Rightarrow> operand" where
  "src_operand (I n) = (Imm, Some (hex0x n), None)"
| "src_operand (R r) = (Reg, None, Some r)"

lemma parse_src: "src_ok s \<Longrightarrow> parse_operand st (src_text s) = (touch_src s st, src_operand s)"
  by (cases s) (simp_all add: parse_imm_operand parse_reg touch_def)

definition anon_of :: "sx \<Rightarrow> string \<Rightarrow> string" where
  "anon_of st r = the (map_of (reg_map st) r)"

definition allocated :: "sx \<Rightarrow> string \<Rightarrow> bool" where
  "allocated st r \<longleftrightarrow> map_of (reg_map st) r \<noteq> None"

fun src_allocated :: "sx \<Rightarrow> src \<Rightarrow> bool" where
  "src_allocated st (I n) = True"
| "src_allocated st (R r) = (r \<in> set regs64 \<and> allocated st r)"

lemma get_allocated:
  "r \<in> set regs64 \<Longrightarrow> allocated st r \<Longrightarrow> get_anonymous_reg st r = (st, anon_of st r)"
  using reg_facts [of r] by (auto simp: get_anonymous_reg_def allocated_def anon_of_def)

lemma touch_allocated: "r \<in> set regs64 \<Longrightarrow> allocated st r \<Longrightarrow> touch r st = st"
  by (simp add: touch_def get_allocated)

lemma touch_allocates: "r \<in> set regs64 \<Longrightarrow> allocated (touch r st) r"
  using reg_facts [of r]
  by (auto simp: touch_def get_anonymous_reg_def allocated_def Let_def split: option.splits)

lemma touch_keeps: "allocated st b \<Longrightarrow> allocated (touch r st) b"
  by (auto simp: touch_def get_anonymous_reg_def allocated_def Let_def split: option.splits)

lemma src_allocated_touch:
  "src_ok s \<Longrightarrow> src_allocated (touch_src s st) s"
  "src_allocated st s \<Longrightarrow> src_allocated (touch r st) s"
  by (cases s; simp add: touch_allocates touch_keeps)+

text \<open>The text of a source, in \<open>state\<close> or (\<open>main = False\<close>) in \<open>state_alt\<close>.\<close>

definition view :: "bool \<Rightarrow> sx \<Rightarrow> string \<Rightarrow> string" where
  "view main st a = (if main then state_get st a else alt_get st a)"

fun src_expr :: "bool \<Rightarrow> sx \<Rightarrow> src \<Rightarrow> string" where
  "src_expr main st (I n) = hex0x n"
| "src_expr main st (R r) = view main st (anon_of st r)"

definition set_both :: "string \<Rightarrow> string \<Rightarrow> string \<Rightarrow> sx \<Rightarrow> sx" where
  "set_both a e e' st = set_alt a e' (set_state a e st)"

lemma view_set_both: "view main (set_both a e e' st) b = (if b = a then if main then e else e' else view main st b)"
  by (simp add: view_def set_both_def state_get_def alt_get_def set_state_def set_alt_def)

lemma view_set_state: "view True (set_state a e st) b = (if b = a then e else view True st b)"
  by (simp add: view_def state_get_def set_state_def)

text \<open>What the branches do on the operands of the fragment.\<close>

lemmas on_operands = parse_imm_operand parse_reg get_allocated touch_allocated src_allocated_touch touch_allocates touch_keeps

lemma exec_mov_eq:
  assumes "src_ok s" and "d \<in> set regs64"
  defines "st2 \<equiv> \<lambda>st. touch d (touch_src s st)"
  shows "fst (exec_mov st [src_text s, reg_text d]) =
    set_both (anon_of (st2 st) d) (src_expr True (st2 st) s) (src_expr False (st2 st) s) (st2 st)"
  using assms reg_facts(5) [of d]
  by (cases s) (simp_all add: exec_mov_def Let_def split_beta on_operands touch_def [symmetric]
      op_val_def set_both_def view_def reg_facts)

lemma exec_arith_eq:
  assumes "src_ok s" and "d \<in> set regs64"
  defines "st2 \<equiv> \<lambda>st. touch d (touch_src s st)"
  shows "fst (exec_arith opr st [src_text s, reg_text d]) =
    (let st' = st2 st; a = anon_of st' d in
     set_both a (bin opr (view True st' a) (src_expr True st' s))
                (bin opr (view False st' a) (src_expr False st' s)) st')"
  using assms reg_facts(5) [of d]
  by (cases s) (simp_all add: exec_arith_def Let_def split_beta on_operands touch_def [symmetric]
      op_val_def set_both_def view_def reg_facts)

lemma exec_bit_eq:
  assumes "src_ok s" and "d \<in> set regs64"
  defines "st2 \<equiv> \<lambda>st. touch d (touch_src s st)"
  shows "fst (exec_bit opr st [src_text s, reg_text d]) =
    (let st' = st2 st; a = anon_of st' d in
     set_state a (bin opr (view True st' a) (src_expr True st' s)) st')"
  using assms reg_facts(5) [of d]
  by (cases s) (simp_all add: exec_bit_def Let_def split_beta on_operands touch_def [symmetric]
      op_val_def view_def reg_facts)

lemma shift_amount_hex: "0 \<le> n \<Longrightarrow> shift_amount (hex0x n) = Some n"
  using py_int_hex0x [of n] by (simp add: shift_amount_def) (simp add: hex0x_def)

lemma exec_shift_eq:
  assumes "0 \<le> n" and "d \<in> set regs64"
  shows "fst (exec_shift opr opr_alt st [imm_text n, reg_text d]) =
    (let st' = touch d st; a = anon_of st' d in
     set_both a (bin opr (view True st' a) (hex0x n))
                (bin opr_alt (view False st' a) (py_str (2 ^ nat n))) st')"
  using assms reg_facts(5) [of d]
  by (simp add: exec_shift_def Let_def split_beta on_operands touch_def [symmetric]
      op_val_def set_both_def view_def reg_facts shift_amount_hex)

lemma exec_imul3_eq:
  assumes "0 \<le> n" and "s \<in> set regs64" and "d \<in> set regs64"
  shows "fst (exec_imul3 st (imm_text n) (reg_text s) (reg_text d)) =
    (let st' = touch d (touch s st); e = \<lambda>main. bin ''*'' (view main st' (anon_of st' s)) (hex0x n)
     in set_both (anon_of st' d) (e True) (e False) st')"
  using assms reg_facts(5) [of d] reg_facts(5) [of s]
  by (simp add: exec_imul3_def Let_def split_beta on_operands touch_def [symmetric]
      op_val_def set_both_def view_def reg_facts)

section \<open>Simulation\<close>

definition consistent :: "(string \<Rightarrow> 64 word) \<Rightarrow> regs \<Rightarrow> sx \<Rightarrow> bool" where
  "consistent \<rho> regs0 st \<longleftrightarrow> (\<forall>b a. map_of (reg_map st) b = Some a \<longrightarrow> \<rho> a = regs0 b)"

definition sim :: "bool \<Rightarrow> (string \<Rightarrow> 64 word) \<Rightarrow> regs \<Rightarrow> sx \<Rightarrow> regs \<Rightarrow> bool" where
  "sim main \<rho> regs0 st regs \<longleftrightarrow> alloc_ok st \<and> keys_ok st \<and>
     (\<forall>b a. map_of (reg_map st) b = Some a \<longrightarrow> denotes \<rho> (view main st a) (regs b)) \<and>
     (\<forall>b. map_of (reg_map st) b = None \<longrightarrow> regs b = regs0 b)"

lemma consistent_extends: "extends st st' \<Longrightarrow> consistent \<rho> regs0 st' \<Longrightarrow> consistent \<rho> regs0 st"
  unfolding consistent_def extends_def map_le_def by (metis domI)

lemma anon_fresh: "alloc_ok st \<Longrightarrow> keys_ok st \<Longrightarrow>
    anon (reg_counter st) \<notin> fst ` set (sx_state st) \<union> fst ` set (state_alt st)"
proof -
  assume ok: "alloc_ok st" "keys_ok st"
  have "\<not> known st (anon (reg_counter st))"
  proof
    assume "known st (anon (reg_counter st))"
    moreover have "anon k \<noteq> ''FLAGS'' \<and> \<not> starts_with ''mem:'' (anon k)" for k
      by (simp add: anon_def)
    ultimately have "anon (reg_counter st) \<in> set (map snd (reg_map st))" by (simp add: known_def)
    then have "anon (reg_counter st) \<in> set (map anon [0..<reg_counter st])"
      using ok(1) by (simp only: alloc_ok_def)
    then show False by auto
  qed
  with ok(2) show ?thesis by (auto simp: keys_ok_def)
qed

lemma sim_touch:
  assumes "sim main \<rho> regs0 st regs" and "r \<in> set regs64" and "consistent \<rho> regs0 (touch r st)"
  shows "sim main \<rho> regs0 (touch r st) regs"
proof (cases "allocated st r")
  case True
  with assms show ?thesis by (simp add: touch_allocated)
next
  case False
  let ?a = "anon (reg_counter st)"
  have ok: "alloc_ok st" "keys_ok st" using assms(1) by (auto simp: sim_def)
  have t: "touch r st = st\<lparr>reg_counter := reg_counter st + 1, reg_map := dput r ?a (reg_map st),
      used_regs := insert ?a (used_regs st)\<rparr>"
    using False reg_facts(4) [OF assms(2)]
    by (auto simp: touch_def get_anonymous_reg_def allocated_def Let_def split: option.splits)
  have v: "view main (touch r st) b = view main st b" for b
    by (simp add: view_def state_get_def alt_get_def t)
  have fresh: "map_of (sx_state st) ?a = None" "map_of (state_alt st) ?a = None"
    using anon_fresh [OF ok] by (auto simp: map_of_eq_None_iff)
  have "view main st ?a = ?a" using fresh by (simp add: view_def state_get_def alt_get_def dget_def)
  moreover have "\<rho> ?a = regs0 r" using assms(3) by (auto simp: consistent_def t)
  moreover have "regs r = regs0 r"
    using assms(1) False by (simp add: sim_def allocated_def)
  ultimately have "denotes \<rho> (view main st ?a) (regs r)" using denotes.reg [of \<rho>] by metis
  moreover have "alloc_ok (touch r st)" "keys_ok (touch r st)"
    unfolding touch_def using ok by (auto intro: alloc_ok_anon keys_ok_anon)
  ultimately show ?thesis using assms(1) unfolding sim_def v by (auto simp: t)
qed

lemma sim_read: "sim main \<rho> regs0 st regs \<Longrightarrow> allocated st r \<Longrightarrow> denotes \<rho> (view main st (anon_of st r)) (regs r)"
  by (auto simp: sim_def allocated_def anon_of_def)

lemma sim_src: "sim main \<rho> regs0 st regs \<Longrightarrow> src_ok s \<Longrightarrow> src_allocated st s \<Longrightarrow>
    denotes \<rho> (src_expr main st s) (src_value regs s)"
  by (cases s) (auto intro: sim_read denotes.hex)

lemma sim_write:
  assumes "sim main \<rho> regs0 st regs" and "allocated st d"
    and "denotes \<rho> (if main then e else e') v"
  shows "sim main \<rho> regs0 (set_both (anon_of st d) e e' st) (regs(d := v))"
proof -
  obtain a where a: "map_of (reg_map st) d = Some a" using assms(2) by (auto simp: allocated_def)
  have ok: "alloc_ok st" "keys_ok st" using assms(1) by (auto simp: sim_def)
  have inj: "b = d" if "map_of (reg_map st) b = Some a" for b
    using that a alloc_ok_distinct [OF ok(1)] map_of_swap [of "reg_map st" a] ok(1)
    by (metis alloc_ok_def dkeys_def option.inject)
  have k: "known st a" using a by (force simp: known_def dest: map_of_SomeD)
  have "alloc_ok (set_both a e e' st)" using ok by (simp add: set_both_def)
  moreover have "keys_ok (set_both a e e' st)"
    unfolding set_both_def using ok k by (intro keys.I_alt keys.I_state) auto
  moreover have "reg_map (set_both a e e' st) = reg_map st"
    by (simp add: set_both_def set_state_def set_alt_def)
  moreover have "denotes \<rho> (view main (set_both a e e' st) a') ((regs(d := v)) b)"
    if b: "map_of (reg_map st) b = Some a'" for b a'
  proof (cases "b = d")
    case True
    with a b assms(3) show ?thesis by (simp add: view_set_both)
  next
    case False
    with b inj have "a' \<noteq> a" by blast
    with False b assms(1) show ?thesis by (simp add: view_set_both sim_def)
  qed
  moreover have "(regs(d := v)) b = regs0 b" if "map_of (reg_map st) b = None" for b
    using that a assms(1) by (auto simp: sim_def)
  moreover have "anon_of st d = a" using a by (simp add: anon_of_def)
  ultimately show ?thesis by (simp add: sim_def)
qed

lemma sim_write_state:
  assumes "sim True \<rho> regs0 st regs" and "allocated st d" and "denotes \<rho> e v"
  shows "sim True \<rho> regs0 (set_state (anon_of st d) e st) (regs(d := v))"
proof -
  let ?st = "set_both (anon_of st d) e (alt_get st (anon_of st d)) st"
  have s: "sim True \<rho> regs0 ?st (regs(d := v))" using assms by (intro sim_write) simp_all
  have "alloc_ok (set_state (anon_of st d) e st)" using assms(1) by (simp add: sim_def)
  moreover have "keys_ok (set_state (anon_of st d) e st)"
    using s assms(1) by (auto simp: sim_def keys_ok_def set_both_def set_state_def set_alt_def known_def)
  moreover have "view True (set_state (anon_of st d) e st) b = view True ?st b" for b
    by (simp add: view_set_both view_set_state)
  moreover have "reg_map (set_state (anon_of st d) e st) = reg_map ?st"
    by (simp add: set_both_def set_state_def set_alt_def)
  ultimately show ?thesis using s by (simp add: sim_def)
qed

text \<open>The mnemonic of a listing selects the branch of its instruction.\<close>

definition exec_insn :: "sx \<Rightarrow> bool \<Rightarrow> insn \<Rightarrow> sx" where
  "exec_insn st q i = fst (execute_instruction st (mnemonic_of q i) (insn_operands i))"

fun branch_of :: "insn \<Rightarrow> sx \<Rightarrow> sx" where
  "branch_of (Mov s d) st = fst (exec_mov st [src_text s, reg_text d])"
| "branch_of (Op Add s d) st = fst (exec_arith ''+'' st [src_text s, reg_text d])"
| "branch_of (Op Sub s d) st = fst (exec_arith ''-'' st [src_text s, reg_text d])"
| "branch_of (Op And s d) st = fst (exec_bit ''&'' st [src_text s, reg_text d])"
| "branch_of (Op Or s d) st = fst (exec_bit ''|'' st [src_text s, reg_text d])"
| "branch_of (Op Xor s d) st = fst (exec_bit ''^'' st [src_text s, reg_text d])"
| "branch_of (Op Mul s d) st = fst (exec_arith ''*'' st [src_text s, reg_text d])"
| "branch_of (Op Shl s d) st = fst (exec_shift ''<<'' ''*'' st [src_text s, reg_text d])"
| "branch_of (Op Shr s d) st = fst (exec_shift ''>>'' ''/'' st [src_text s, reg_text d])"
| "branch_of (Mul3 n s d) st = fst (exec_imul3 st (imm_text n) (reg_text s) (reg_text d))"

lemma base_names:
  "list_all (\<lambda>m. strip_size_suffix (py_lower (m @ ''q'')) = m \<and>
     (last m \<in> set ''bwlq'' \<or> strip_size_suffix (py_lower m) = m))
   [''mov'', ''add'', ''sub'', ''and'', ''or'', ''xor'', ''imul'', ''shl'', ''shr'']"
  by code_simp

lemma aop_names: "aop_name p \<in> {''add'', ''sub'', ''and'', ''or'', ''xor'', ''imul'', ''shl'', ''shr''}"
  by (cases p) simp_all

lemma base_of_name:
  "q \<or> last (insn_name i) \<notin> set ''bwlq'' \<Longrightarrow> strip_size_suffix (py_lower (mnemonic_of q i)) = insn_name i"
proof -
  have "insn_name i \<in> set [''mov'', ''add'', ''sub'', ''and'', ''or'', ''xor'', ''imul'', ''shl'', ''shr'']"
    using aop_names by (cases i) auto
  with base_names show "q \<or> last (insn_name i) \<notin> set ''bwlq'' \<Longrightarrow> ?thesis"
    unfolding mnemonic_of_def list_all_iff by (cases q) force+
qed

lemma run_branch:
  "exec_branch st m ops = (st', d) \<Longrightarrow> ops \<noteq> [] \<Longrightarrow> fst (execute_instruction st m ops) = st'"
  by (simp add: execute_instruction_def split: option.splits)

lemma exec_insn_eq:
  assumes "q \<or> last (insn_name i) \<notin> set ''bwlq''"
  shows "exec_insn st q i = branch_of i st"
proof -
  have b: "strip_size_suffix (py_lower (mnemonic_of q i)) = insn_name i" by (rule base_of_name [OF assms])
  have l: "py_lower (mnemonic_of q i) \<noteq> ''movabs'' \<and> py_lower (mnemonic_of q i) \<noteq> ''lea''"
    if "insn_name i = ''imul''"
    using that by (cases q) (simp_all add: mnemonic_of_def py_lower_def lower_char_def)
  have "fst (exec_branch st (mnemonic_of q i) (insn_operands i)) = branch_of i st"
  proof (cases i rule: insn_name.cases)
    case (2 p s d)
    with b l show ?thesis by (cases p) (simp_all add: exec_branch_def Let_def exec_imul_def)
  qed (use b l in \<open>simp_all add: exec_branch_def Let_def exec_imul_def\<close>)
  moreover have "insn_operands i \<noteq> []" by (cases i) simp_all
  ultimately show ?thesis
    using run_branch [of st "mnemonic_of q i" "insn_operands i"] by (simp add: exec_insn_def prod_eq_iff)
qed

text \<open>Bit operations leave \<open>state_alt\<close> alone, so its simulation excludes them.\<close>

fun bit_op :: "insn \<Rightarrow> bool" where
  "bit_op (Op p s d) \<longleftrightarrow> p = And \<or> p = Or \<or> p = Xor"
| "bit_op _ \<longleftrightarrow> False"

definition has_bit_op :: "listed list \<Rightarrow> bool" where
  "has_bit_op p \<longleftrightarrow> list_ex (\<lambda>l. bit_op (insn_of l)) p"

lemma has_bit_op_snoc [simp]: "has_bit_op (p @ [l]) \<longleftrightarrow> has_bit_op p \<or> bit_op (insn_of l)"
  by (auto simp: has_bit_op_def)

lemma sim_touch_src:
  assumes "sim main \<rho> regs0 st regs" and "src_ok s" and "d \<in> set regs64"
    and "consistent \<rho> regs0 (touch d (touch_src s st))"
  shows "sim main \<rho> regs0 (touch d (touch_src s st)) regs"
proof -
  have e: "extends (touch_src s st) (touch d (touch_src s st))"
    unfolding touch_def by (rule extends_anon) simp
  have c: "consistent \<rho> regs0 (touch_src s st)" using consistent_extends [OF e assms(4)] .
  have "sim main \<rho> regs0 (touch_src s st) regs"
    using assms(1,2) c by (cases s) (simp_all add: sim_touch)
  then show ?thesis using sim_touch assms(3,4) by blast
qed

lemma reg_map_updates [simp]:
  "reg_map (set_both a e e' st) = reg_map st"
  "reg_map (set_state a e st) = reg_map st"
  by (simp_all add: set_both_def set_state_def set_alt_def)

lemma consistent_cong: "reg_map st = reg_map st' \<Longrightarrow> consistent \<rho> regs0 st = consistent \<rho> regs0 st'"
  by (simp add: consistent_def)

lemma word_shift_count: "0 \<le> n \<Longrightarrow> n < 64 \<Longrightarrow> unat (of_int n :: 64 word) mod 64 = nat n"
proof -
  assume n: "0 \<le> n" "n < 64"
  then have "unat (of_int n :: 64 word) = nat n" by (intro unat_of_int_64) auto
  moreover have "nat n < 64" using n by linarith
  ultimately show ?thesis by simp
qed

lemma sim_mov:
  assumes "sim main \<rho> regs0 st regs" and "src_ok s" and "d \<in> set regs64"
    and "consistent \<rho> regs0 (branch_of (Mov s d) st)"
  shows "sim main \<rho> regs0 (branch_of (Mov s d) st) (step (Mov s d) regs)"
proof -
  let ?st = "touch d (touch_src s st)"
  have eq: "branch_of (Mov s d) st =
      set_both (anon_of ?st d) (src_expr True ?st s) (src_expr False ?st s) ?st"
    using exec_mov_eq [OF assms(2,3)] by simp
  then have "consistent \<rho> regs0 ?st" using assms(4) by (simp cong: consistent_cong add: consistent_def)
  then have sim: "sim main \<rho> regs0 ?st regs" using sim_touch_src assms(1-3) by blast
  have "denotes \<rho> (src_expr main ?st s) (src_value regs s)"
    by (rule sim_src [OF sim assms(2)]) (use assms in \<open>simp add: src_allocated_touch\<close>)
  then have "denotes \<rho> (if main then src_expr True ?st s else src_expr False ?st s) (src_value regs s)"
    by (cases main) simp_all
  then show ?thesis
    unfolding eq using sim_write [OF sim] touch_allocates [OF assms(3)] by simp
qed

lemma sim_arith:
  assumes "sim main \<rho> regs0 st regs" and "src_ok s" and "d \<in> set regs64"
    and "consistent \<rho> regs0 (fst (exec_arith opr st [src_text s, reg_text d]))"
    and "\<And>e f a b. denotes \<rho> e a \<Longrightarrow> denotes \<rho> f b \<Longrightarrow> denotes \<rho> (bin opr e f) (h a b)"
  shows "sim main \<rho> regs0 (fst (exec_arith opr st [src_text s, reg_text d]))
    (regs(d := h (regs d) (src_value regs s)))"
proof -
  let ?st = "touch d (touch_src s st)"
  have al: "allocated ?st d" by (rule touch_allocates [OF assms(3)])
  have "consistent \<rho> regs0 ?st"
    using assms(4) exec_arith_eq [OF assms(2,3)] by (simp add: Let_def consistent_def)
  then have sim: "sim main \<rho> regs0 ?st regs" using sim_touch_src assms(1-3) by blast
  have "denotes \<rho> (src_expr main ?st s) (src_value regs s)"
    by (rule sim_src [OF sim assms(2)]) (use assms in \<open>simp add: src_allocated_touch\<close>)
  then have "denotes \<rho> (bin opr (view main ?st (anon_of ?st d)) (src_expr main ?st s))
      (h (regs d) (src_value regs s))"
    using assms(5) sim_read [OF sim al] by blast
  then show ?thesis
    using sim_write [OF sim al] exec_arith_eq [OF assms(2,3)] by (cases main) (simp_all add: Let_def)
qed

lemma sim_bit:
  assumes "sim True \<rho> regs0 st regs" and "src_ok s" and "d \<in> set regs64"
    and "consistent \<rho> regs0 (fst (exec_bit opr st [src_text s, reg_text d]))"
    and "\<And>e f a b. denotes \<rho> e a \<Longrightarrow> denotes \<rho> f b \<Longrightarrow> denotes \<rho> (bin opr e f) (h a b)"
  shows "sim True \<rho> regs0 (fst (exec_bit opr st [src_text s, reg_text d]))
    (regs(d := h (regs d) (src_value regs s)))"
proof -
  let ?st = "touch d (touch_src s st)"
  have al: "allocated ?st d" by (rule touch_allocates [OF assms(3)])
  have "consistent \<rho> regs0 ?st"
    using assms(4) exec_bit_eq [OF assms(2,3)] by (simp add: Let_def consistent_def)
  then have sim: "sim True \<rho> regs0 ?st regs" using sim_touch_src assms(1-3) by blast
  have "denotes \<rho> (src_expr True ?st s) (src_value regs s)"
    by (rule sim_src [OF sim assms(2)]) (use assms in \<open>simp add: src_allocated_touch\<close>)
  then have "denotes \<rho> (bin opr (view True ?st (anon_of ?st d)) (src_expr True ?st s))
      (h (regs d) (src_value regs s))"
    using assms(5) sim_read [OF sim al] by blast
  then show ?thesis
    using sim_write_state [OF sim al] exec_bit_eq [OF assms(2,3)] by (simp add: Let_def)
qed

lemma sim_shift:
  assumes "sim main \<rho> regs0 st regs" and "0 \<le> n" and "d \<in> set regs64"
    and "consistent \<rho> regs0 (fst (exec_shift opr opr_alt st [imm_text n, reg_text d]))"
    and "\<And>e a. denotes \<rho> e a \<Longrightarrow> denotes \<rho> (bin opr e (hex0x n)) (h a)"
    and "\<And>e a. denotes \<rho> e a \<Longrightarrow> denotes \<rho> (bin opr_alt e (py_str (2 ^ nat n))) (h a)"
  shows "sim main \<rho> regs0 (fst (exec_shift opr opr_alt st [imm_text n, reg_text d]))
    (regs(d := h (regs d)))"
proof -
  let ?st = "touch d st"
  have al: "allocated ?st d" by (rule touch_allocates [OF assms(3)])
  have "consistent \<rho> regs0 ?st"
    using assms(4) exec_shift_eq [OF assms(2,3)] by (simp add: Let_def consistent_def)
  then have sim: "sim main \<rho> regs0 ?st regs" using sim_touch assms(1,3) by blast
  then show ?thesis
    using sim_write [OF sim al] sim_read [OF sim al] exec_shift_eq [OF assms(2,3)] assms(5,6)
    by (cases main) (simp_all add: Let_def)
qed

lemma sim_imul3:
  assumes "sim main \<rho> regs0 st regs" and "0 \<le> n" and "s \<in> set regs64" and "d \<in> set regs64"
    and "consistent \<rho> regs0 (branch_of (Mul3 n s d) st)"
  shows "sim main \<rho> regs0 (branch_of (Mul3 n s d) st) (step (Mul3 n s d) regs)"
proof -
  let ?st = "touch d (touch s st)"
  have al: "allocated ?st d" "allocated ?st s" by (simp_all add: assms touch_allocates touch_keeps)
  have "consistent \<rho> regs0 ?st"
    using assms(5) exec_imul3_eq [OF assms(2-4)] by (simp add: Let_def consistent_def)
  then have sim: "sim main \<rho> regs0 ?st regs" using sim_touch_src [of _ _ _ _ _ "R s"] assms(1,3,4) by simp
  have "denotes \<rho> (bin ''*'' (view main ?st (anon_of ?st s)) (hex0x n)) (regs s * of_int n)"
    by (rule denotes_bin(3) [OF sim_read [OF sim al(2)] denotes.hex [OF assms(2)]])
  then show ?thesis
    using sim_write [OF sim al(1)] exec_imul3_eq [OF assms(2-4)] by (cases main) (simp_all add: Let_def)
qed

lemma sim_step:
  assumes "sim main \<rho> regs0 st regs" and "insn_ok i" and "main \<or> \<not> bit_op i"
    and "consistent \<rho> regs0 (branch_of i st)"
  shows "sim main \<rho> regs0 (branch_of i st) (step i regs)"
proof (cases i)
  case (Mov s d)
  then show ?thesis using sim_mov assms by (metis insn_ok.simps(1))
next
  case (Mul3 n s d)
  then show ?thesis using sim_imul3 assms by (metis insn_ok.simps(3))
next
  case (Op p s d)
  then have s: "src_ok s" "d \<in> set regs64" using assms(2) by simp_all
  have shift: "\<exists>n. s = I n \<and> 0 \<le> n \<and> n < 64" if "p = Shl \<or> p = Shr"
    using assms(2) Op that by (cases s) auto
  show ?thesis
  proof (cases p)
    case Add
    then show ?thesis using sim_arith [where opr = "''+''"] denotes_bin assms s Op by simp
  next
    case Sub
    then show ?thesis using sim_arith [where opr = "''-''"] denotes_bin assms s Op by simp
  next
    case Mul
    then show ?thesis using sim_arith [where opr = "''*''"] denotes_bin assms s Op by simp
  next
    case And
    then show ?thesis using sim_bit [where opr = "''&''"] denotes_bin assms s Op by simp
  next
    case Or
    then show ?thesis using sim_bit [where opr = "''|''"] denotes_bin assms s Op by simp
  next
    case Xor
    then show ?thesis using sim_bit [where opr = "''^''"] denotes_bin assms s Op by simp
  next
    case Shl
    with shift obtain n where n: "s = I n" "0 \<le> n" "n < 64" by blast
    show ?thesis
      using sim_shift [where opr = "''<<''" and opr_alt = "''*''" and n = n and h = "push_bit (nat n)"]
        denotes_shift [OF _ n(2,3)] assms s Op Shl n word_shift_count by simp
  next
    case Shr
    with shift obtain n where n: "s = I n" "0 \<le> n" "n < 64" by blast
    show ?thesis
      using sim_shift [where opr = "''>>''" and opr_alt = "''/''" and n = n and h = "drop_bit (nat n)"]
        denotes_shift [OF _ n(2,3)] assms s Op Shr n word_shift_count by simp
  qed
qed

subsection \<open>Whole listings\<close>

lemma mnemonic_token: "insn_ok i \<Longrightarrow> token (mnemonic_of q i)"
proof -
  have "token (aop_name p @ q')" if "q' \<in> {[], ''q''}" for p q'
    using that by (cases p) (auto simp: token_def is_space_def)
  from this [of "if q then ''q'' else []"] show ?thesis
    by (cases i; cases q) (simp_all add: mnemonic_of_def, simp_all add: token_def is_space_def)
qed

lemma operands_ok: "insn_ok i \<Longrightarrow> list_all operand_text (insn_operands i)"
proof -
  have s: "src_ok s \<Longrightarrow> operand_text (src_text s)" for s
    by (cases s) (simp_all add: imm_operand_text reg_facts)
  show "insn_ok i \<Longrightarrow> ?thesis"
    by (cases i) (simp_all add: s imm_operand_text reg_facts)
qed

lemma exec_line_of: "listed_ok l \<Longrightarrow> fst (exec_line st (line_of l)) = branch_of (insn_of l) st"
proof -
  assume ok: "listed_ok l"
  obtain marked addr bytes q i where l: "l = (marked, addr, bytes, q, i)" by (cases l)
  with ok have "line_ok bytes (mnemonic_of q i) (insn_operands i)"
    by (simp add: line_ok_def mnemonic_token operands_ok)
  then have "parse_instruction (strip_marker (py_strip (line_of l))) =
      Some (digs 16 addr, mnemonic_of q i, insn_operands i)"
    using strip_asm_line parse_body by (simp add: l)
  then have "fst (exec_line st (line_of l)) = exec_insn st q i"
    by (simp add: exec_line_def exec_insn_def)
  with ok show ?thesis using exec_insn_eq l by simp
qed

definition after :: "listed list \<Rightarrow> sx" where
  "after p = snd (exec_lines new_executor (map line_of p))"

lemma after_snoc: "listed_ok l \<Longrightarrow> after (p @ [l]) = branch_of (insn_of l) (after p)"
  by (simp add: after_def exec_lines_append split_beta Let_def exec_line_of)

lemma sim_after:
  "list_all listed_ok p \<Longrightarrow> main \<or> \<not> has_bit_op p \<Longrightarrow> consistent \<rho> regs0 (after p) \<Longrightarrow>
   sim main \<rho> regs0 (after p) (machine (map insn_of p) regs0)"
proof (induction p rule: rev_induct)
  case Nil
  show ?case
    by (simp add: after_def sim_def machine_def) (simp add: new_executor_def)
next
  case (snoc l p)
  have ok: "listed_ok l" "insn_ok (insn_of l)" using snoc.prems(1) by (cases l; simp)+
  have e: "extends (after p) (after (p @ [l]))"
    unfolding after_snoc [OF ok(1)] exec_line_of [OF ok(1), symmetric]
    by (rule ext.exec_line_I) simp
  have "main \<or> \<not> has_bit_op p" using snoc.prems(2) by auto
  then have "sim main \<rho> regs0 (after p) (machine (map insn_of p) regs0)"
    using snoc.prems snoc.IH consistent_extends [OF e] by simp
  then show ?case
    unfolding after_snoc [OF ok(1)] using snoc.prems ok sim_step
    by (auto simp: machine_def after_snoc)
qed

text \<open>The value of an anonymous register at the entry of the block, through \<open>anon_to_real\<close>.\<close>

definition entry_value :: "(string, string) dict \<Rightarrow> regs \<Rightarrow> string \<Rightarrow> 64 word" where
  "entry_value anon_to_real regs0 a = regs0 (dget anon_to_real a [])"

lemma snapshots_denote:
  assumes p: "list_all listed_ok p" and bits: "main \<or> \<not> has_bit_op p" and i: "i < length p"
    and run: "run_symbolic_exec_on_instructions (map line_of p) = (states, anon_to_real)"
    and a: "map_of anon_to_real a = Some b"
    and state: "states ! i = (l, addr, s, t)"
  shows "denotes (entry_value anon_to_real regs0) (if main then dget s a a else dget t a (dget s a a))
    (machine (map insn_of (take (Suc i) p)) regs0 b)"
proof -
  let ?q = "take (Suc i) p" and ?\<rho> = "entry_value anon_to_real regs0"
  have inv: "map_of anon_to_real x = Some y \<longleftrightarrow> map_of (reg_map (after p)) y = Some x" for x y
  proof -
    have ok: "alloc_ok (after p)" unfolding after_def by (rule alloc.exec_lines_I) simp
    then have d: "distinct (map fst (reg_map (after p)))" by (simp add: alloc_ok_def dkeys_def)
    have "anon_to_real = invert (reg_map (after p))"
      using run by (simp add: run_symbolic_exec_on_instructions_def split_beta after_def)
    then show ?thesis
      using invert_map [OF alloc_ok_distinct [OF ok]] map_of_swap [OF d alloc_ok_distinct [OF ok]] by simp
  qed
  have "map line_of p = map line_of ?q @ map line_of (drop (Suc i) p)" by (simp flip: map_append)
  then have "after p = snd (exec_lines (after ?q) (map line_of (drop (Suc i) p)))"
    unfolding after_def by (simp only: exec_lines_append) (simp add: split_beta Let_def)
  then have e: "extends (after ?q) (after p)" using ext.exec_lines_I by (metis extends_refl)
  have "consistent ?\<rho> regs0 (after p)"
    by (simp add: consistent_def entry_value_def dget_def flip: inv)
  then have "consistent ?\<rho> regs0 (after ?q)" by (rule consistent_extends [OF e])
  moreover have "list_all listed_ok ?q" using p by (meson list_all_iff in_set_takeD)
  moreover have "main \<or> \<not> has_bit_op ?q"
    using bits by (auto simp: has_bit_op_def list_ex_iff dest: in_set_takeD)
  ultimately have sim: "sim main ?\<rho> regs0 (after ?q) (machine (map insn_of ?q) regs0)"
    by (intro sim_after)
  have "states = fst (exec_lines new_executor (map line_of p))"
    using run by (simp add: run_symbolic_exec_on_instructions_def split_beta)
  then have st: "s = sx_state (after ?q)" "t = state_alt (after ?q)"
    using exec_lines_nth [of i "map line_of p" new_executor] i state
    by (simp_all add: after_def take_map Let_def)
  have "denotes ?\<rho> (view main (after ?q) a) (machine (map insn_of ?q) regs0 b)"
  proof (cases "map_of (reg_map (after ?q)) b")
    case (Some a')
    with e have "map_of (reg_map (after p)) b = Some a'" by (force simp: extends_def map_le_def)
    with a inv have "a' = a" by simp
    with Some sim show ?thesis by (simp add: sim_def)
  next
    case None
    have "a \<notin> snd ` set (reg_map (after ?q))"
    proof
      assume "a \<in> snd ` set (reg_map (after ?q))"
      then obtain b' where "(b', a) \<in> set (reg_map (after ?q))" by force
      with sim have "map_of (reg_map (after ?q)) b' = Some a" by (simp add: sim_def alloc_ok_def dkeys_def)
      moreover with e have "map_of (reg_map (after p)) b' = Some a" by (force simp: extends_def map_le_def)
      then have "b' = b" using a inv by (metis option.inject)
      ultimately show False using None by simp
    qed
    moreover obtain k where k: "a = anon k"
    proof -
      have "a \<in> set (map snd (reg_map (after p)))" using a inv by (force dest: map_of_SomeD)
      moreover have "alloc_ok (after p)" unfolding after_def by (rule alloc.exec_lines_I) simp
      ultimately have "a \<in> set (map anon [0..<reg_counter (after p)])" by (simp only: alloc_ok_def)
      then show ?thesis using that by auto
    qed
    ultimately have "\<not> known (after ?q) a" by (simp add: known_def anon_def)
    then have "view main (after ?q) a = a"
      using sim by (auto simp: sim_def keys_ok_def view_def state_get_def alt_get_def dget_def image_iff
          dest!: map_of_SomeD split: option.splits)
    moreover have "?\<rho> a = regs0 b" using a by (simp add: entry_value_def dget_def)
    moreover have "machine (map insn_of ?q) regs0 b = regs0 b" using sim None by (simp add: sim_def)
    ultimately show ?thesis using denotes.reg [of ?\<rho> k] k by simp
  qed
  then show ?thesis by (cases main) (simp_all add: view_def state_get_def alt_get_def st)
qed

section \<open>The properties\<close>

text \<open>
  C1: soundness of the symbolic state. After the \<open>i\<close>-th instruction of a listing of the
  fragment, the expression kept for an anonymous register denotes, over the register values
  at the entry of the block, exactly the value the machine has in the real register.
\<close>

theorem symbolic_state_sound:
  assumes "list_all listed_ok p" and "i < length p"
    and "run_symbolic_exec_on_instructions (map line_of p) = (states, anon_to_real)"
    and "map_of anon_to_real a = Some b"
    and "states ! i = (l, addr, s, t)"
  shows "denotes (entry_value anon_to_real regs0) (dget s a a) v \<longleftrightarrow>
    v = machine (map insn_of (take (Suc i) p)) regs0 b"
  using snapshots_denote [where main = True, OF assms(1) _ assms(2-5)] denotes_unique by auto

text \<open>
  C2: soundness of the alternative state, in which a shift by a constant is a multiplication
  or a division by a power of two, for blocks without bit operations.
\<close>

theorem alternative_state_sound:
  assumes "list_all listed_ok p" and "\<not> has_bit_op p" and "i < length p"
    and "run_symbolic_exec_on_instructions (map line_of p) = (states, anon_to_real)"
    and "map_of anon_to_real a = Some b"
    and "states ! i = (l, addr, s, t)"
  shows "denotes (entry_value anon_to_real regs0) (dget t a (dget s a a)) v \<longleftrightarrow>
    v = machine (map insn_of (take (Suc i) p)) regs0 b"
  using snapshots_denote [where main = False, OF assms(1) _ assms(3-6)] assms(2) denotes_unique by auto

definition sample :: "listed list" where
  "sample = [(True, 16, ''48 01 d8'', False, Op Add (R ''rbx'') ''rax''),
     (False, 19, ''48 c1 e0 03'', True, Op Shl (I 3) ''rax''),
     (False, 23, ''48 89 c1'', False, Mov (R ''rax'') ''rcx'')]"

lemma sample_run:
  "run_symbolic_exec_on_instructions (map line_of sample) =
    (fst (run_symbolic_exec_on_instructions (map line_of sample)),
     [(''r0'', ''rbx''), (''r1'', ''rax''), (''r2'', ''rcx'')])"
  "fst (run_symbolic_exec_on_instructions (map line_of sample)) ! 2 =
    (line_of (sample ! 2), ''17'',
     [(''r1'', ''((r1 + r0) << 0x3)''), (''r2'', ''((r1 + r0) << 0x3)'')],
     [(''r1'', ''((r1 + r0) * 8)''), (''r2'', ''((r1 + r0) * 8)'')])"
  by code_simp+

lemma sample_ok: "list_all listed_ok sample" "\<not> has_bit_op sample"
  by code_simp+

theorem symbolic_state_sound_witness:
  "\<forall>regs0 v. denotes (entry_value [(''r0'', ''rbx''), (''r1'', ''rax''), (''r2'', ''rcx'')] regs0)
     ''((r1 + r0) << 0x3)'' v \<longleftrightarrow> v = machine (map insn_of (take 3 sample)) regs0 ''rcx''"
proof -
  from sample_ok show ?thesis
    using symbolic_state_sound [OF _ _ sample_run(1) _ sample_run(2), of "''r2''" "''rcx''"] by (simp add: sample_def dget_def)
qed

theorem alternative_state_sound_witness:
  "\<forall>regs0 v. denotes (entry_value [(''r0'', ''rbx''), (''r1'', ''rax''), (''r2'', ''rcx'')] regs0)
     ''((r1 + r0) * 8)'' v \<longleftrightarrow> v = machine (map insn_of (take 3 sample)) regs0 ''rcx''"
proof -
  from sample_ok show ?thesis
    using alternative_state_sound [OF _ _ _ sample_run(1) _ sample_run(2), of "''r2''" "''rcx''"] by (simp add: sample_def dget_def)
qed

section \<open>Where the executor departs from the processor\<close>

lemma suffix_letter_names:
  "strip_size_suffix (py_lower ''sub'') = ''su''" "strip_size_suffix (py_lower ''sbb'') = ''sb''"
  "strip_size_suffix (py_lower ''shl'') = ''sh''" "strip_size_suffix (py_lower ''imul'') = ''imu''"
  by code_simp+

text \<open>
  The executor removes a last letter \<open>b\<close>, \<open>w\<close>, \<open>l\<close> or \<open>q\<close>
  from every mnemonic, so \<open>sub\<close>, \<open>sbb\<close>, \<open>shl\<close> and \<open>imul\<close> as objdump
  prints them for register operands select no branch: they change nothing in the state and
  count as neither reading nor writing anything.
\<close>

theorem unsuffixed_ignored:
  "list_all (\<lambda>m. fst (execute_instruction st m ops) = st \<and>
      get_written_effects st m ops = (st, {}, {}) \<and> get_read_effects st m ops = (st, {}, {}))
    [''sub'', ''sbb'', ''shl'', ''imul'']"
proof -
  have "py_lower ''imul'' \<noteq> ''movabs''" "py_lower ''sub'' = ''sub''" "py_lower ''sbb'' = ''sbb''"
    "py_lower ''shl'' = ''shl''" "py_lower ''imul'' = ''imul''"
    by (simp_all add: py_lower_def lower_char_def)
  with suffix_letter_names show ?thesis
    by (simp add: execute_instruction_def exec_branch_def get_written_effects_def get_read_effects_def
        effect_mnemonics_def jump_mnemonics_def)
qed

definition unmapped_names :: "string list" where
  "unmapped_names = [''ah'', ''bh'', ''ch'', ''dh'', ''r8w'', ''r9w'', ''r10w'', ''r11w'', ''r12w'',
     ''r13w'', ''r14w'', ''r15w'']"

text \<open>
  \<open>get_base_register\<close> sends every name of a register family to the family's 64-bit
  register, except the high bytes and the 16-bit names of r8 to r15, which it leaves alone.
\<close>

theorem base_register_of_family:
  "list_all (\<lambda>(f, members). list_all (\<lambda>r.
      get_base_register r = (if r \<in> set unmapped_names then r else hd members)) members) families"
  by (simp add: families_def get_base_register_def unmapped_names_def reg32_to_64_def
      reg16_to_64_def reg8_to_64_def py_lower_def lower_char_def)

lemma exec_bit_keeps_alt: "state_alt (fst (exec_bit opr st ops)) = state_alt st"
proof -
  have anon: "state_alt (fst (get_anonymous_reg st r)) = state_alt st" for st r
    by (simp add: get_anonymous_reg_def Let_def split: option.splits)
  have mem: "state_alt (fst (mem_reg st r)) = state_alt st" for st r
    by (simp add: mem_reg_def Let_def split_beta anon)
  have opd: "state_alt (fst (parse_operand st r)) = state_alt st" for st r
    by (simp add: parse_operand_def parse_mem_def Let_def split_beta anon mem split: option.splits)
  show ?thesis
    by (simp add: exec_bit_def Let_def split_beta anon opd set_state_def split: list.splits option.splits)
qed

text \<open>
  \<open>state_alt\<close> is not updated by \<open>and\<close>, \<open>or\<close> and \<open>xor\<close>, and a
  stale entry is read afterwards: here the alternative expression of rax is still 0x8 after
  \<open>mov $0x8,%rax; and $0x1,%rax\<close>, and it spreads to rbx.
\<close>

definition stale_block :: "string list" where
  "stale_block =
    [asm_line False 0 ''48 c7 c0 08 00 00 00'' ''mov'' [''$0x8'', ''%rax''],
     asm_line False 7 ''48 83 e0 01'' ''and'' [''$0x1'', ''%rax''],
     asm_line False 11 ''48 89 c3'' ''mov'' [''%rax'', ''%rbx'']]"

theorem alternative_state_stale:
  "map (\<lambda>(l, addr, s, t). (s, t)) (fst (run_symbolic_exec_on_instructions stale_block)) =
   [([(''r0'', ''0x8'')], [(''r0'', ''0x8'')]),
    ([(''r0'', ''(0x8 & 0x1)'')], [(''r0'', ''0x8'')]),
    ([(''r0'', ''(0x8 & 0x1)''), (''r1'', ''(0x8 & 0x1)'')], [(''r0'', ''0x8''), (''r1'', ''0x8'')])]"
  by code_simp

text \<open>
  A memory operand is written with the names of its registers, not with their current
  expressions: after \<open>add $0x8,%rax\<close> the address \<open>0x4(%rax)\<close> of \<open>lea\<close>
  and of a load is still \<open>0x4+r0\<close>; and a load does not see an earlier store.
\<close>

definition address_block :: "string list" where
  "address_block =
    [asm_line False 0 ''48 83 c0 08'' ''add'' [''$0x8'', ''%rax''],
     asm_line False 4 ''48 8d 58 04'' ''lea'' [''0x4(%rax)'', ''%rbx''],
     asm_line False 8 ''48 89 18'' ''mov'' [''%rbx'', ''(%rax)''],
     asm_line False 11 ''48 8b 08'' ''mov'' [''(%rax)'', ''%rcx'']]"

theorem memory_operands_by_name:
  "(\<lambda>(l, addr, s, t). s) (last (fst (run_symbolic_exec_on_instructions address_block))) =
   [(''r0'', ''(r0 + 0x8)''), (''r1'', ''0x4+r0''), (''r2'', ''mem[r0]'')]"
  by code_simp

end
