(* ===== verification/Py_Csv.thy ===== *)
theory Py_Csv
  imports Py_Strings
begin

text \<open>
  Python's \<open>csv\<close> module with the settings the tables are written and read with:
  tab delimiter, the quote character \<open>"\<close> doubled inside quotes, minimal quoting, files opened
  with \<open>newline=''\<close>. A row is quoted where a field holds a tab, a quote or a character of
  the line terminator. The reader is the module's state machine; a physical line ends at
  LF, CR or CR LF, and its end is an event of its own. Reading back what was written is
  the identity (locale \<open>codec\<close>).
\<close>

section \<open>Writing\<close>

definition csv_special :: "string \<Rightarrow> char \<Rightarrow> bool" where
  "csv_special lineterm c \<longleftrightarrow> c = TAB \<or> c = DQ \<or> c \<in> set lineterm"

definition double_quotes :: "string \<Rightarrow> string" where
  "double_quotes f = concat (map (\<lambda>c. if c = DQ then [DQ, DQ] else [c]) f)"

definition csv_field :: "string \<Rightarrow> string \<Rightarrow> string" where
  "csv_field lineterm f =
     (if list_ex (csv_special lineterm) f then [DQ] @ double_quotes f @ [DQ] else f)"

text \<open>\<open>writer.writerow\<close>: a row of one empty field is written as two quotes.\<close>

definition csv_row :: "string \<Rightarrow> string list \<Rightarrow> string" where
  "csv_row lineterm row =
     (if row = [[]] then [DQ, DQ] else join [TAB] (map (csv_field lineterm) row)) @ lineterm"

definition csv_text :: "string \<Rightarrow> string list list \<Rightarrow> string" where
  "csv_text lineterm rows = concat (map (csv_row lineterm) rows)"

section \<open>Reading\<close>

datatype csv_mode = StartRecord | StartField | InField | InQuoted | QuoteInQuoted | EatCrnl

record csv_state =
  csv_mode :: csv_mode
  csv_cur :: string
  csv_fields :: "string list"

definition csv_start :: csv_state where
  "csv_start = \<lparr>csv_mode = StartRecord, csv_cur = [], csv_fields = []\<rparr>"

definition csv_add :: "char \<Rightarrow> csv_mode \<Rightarrow> csv_state \<Rightarrow> csv_state" where
  "csv_add c m st = st\<lparr>csv_mode := m, csv_cur := csv_cur st @ [c]\<rparr>"

definition csv_save :: "csv_mode \<Rightarrow> csv_state \<Rightarrow> csv_state" where
  "csv_save m st = st\<lparr>csv_mode := m, csv_cur := [], csv_fields := csv_fields st @ [csv_cur st]\<rparr>"

definition is_newline :: "char \<Rightarrow> bool" where
  "is_newline c \<longleftrightarrow> c = NL \<or> c = CR"

text \<open>\<open>parse_process_char\<close> on a character.\<close>

definition in_start_field :: "char \<Rightarrow> csv_state \<Rightarrow> csv_state" where
  "in_start_field c st =
     (if is_newline c then csv_save EatCrnl st
      else if c = DQ then st\<lparr>csv_mode := InQuoted\<rparr>
      else if c = TAB then csv_save StartField st
      else csv_add c InField st)"

definition csv_char :: "char \<Rightarrow> csv_state \<Rightarrow> csv_state res" where
  "csv_char c st = (case csv_mode st of
     StartRecord \<Rightarrow> Inr (if is_newline c then st\<lparr>csv_mode := EatCrnl\<rparr> else in_start_field c st)
   | StartField \<Rightarrow> Inr (in_start_field c st)
   | InField \<Rightarrow> Inr (if is_newline c then csv_save EatCrnl st
       else if c = TAB then csv_save StartField st else csv_add c InField st)
   | InQuoted \<Rightarrow> Inr (if c = DQ then st\<lparr>csv_mode := QuoteInQuoted\<rparr> else csv_add c InQuoted st)
   | QuoteInQuoted \<Rightarrow> Inr (if c = DQ then csv_add c InQuoted st
       else if c = TAB then csv_save StartField st
       else if is_newline c then csv_save EatCrnl st
       else csv_add c InField st)
   | EatCrnl \<Rightarrow> if is_newline c then Inr st else Inl CsvError)"

text \<open>The end of a line.\<close>

definition csv_eol :: "csv_state \<Rightarrow> csv_state" where
  "csv_eol st = (case csv_mode st of
     StartRecord \<Rightarrow> st
   | InQuoted \<Rightarrow> st
   | EatCrnl \<Rightarrow> st\<lparr>csv_mode := StartRecord\<rparr>
   | _ \<Rightarrow> csv_save StartRecord st)"

definition ends_line :: "char \<Rightarrow> string \<Rightarrow> bool" where
  "ends_line c rest \<longleftrightarrow> c = NL \<or> (c = CR \<and> (rest = [] \<or> hd rest \<noteq> NL))"

text \<open>
  The rows of a file. \<open>fresh\<close> says that no character of the current line has been
  read; at the end of the file an open line is ended, and an open quoted field is saved.
\<close>

definition csv_finish :: "bool \<Rightarrow> csv_state \<Rightarrow> string list list" where
  "csv_finish fresh st =
     (let st' = (if fresh then st else csv_eol st) in
      if csv_mode st' = InQuoted then [csv_fields st' @ [csv_cur st']]
      else if fresh then [] else [csv_fields st'])"

fun csv_go :: "bool \<Rightarrow> csv_state \<Rightarrow> string \<Rightarrow> string list list res" where
  "csv_go fresh st [] = Inr (csv_finish fresh st)"
| "csv_go fresh st (c # cs) =
     bindr (csv_char c st) (\<lambda>st1.
       if ends_line c cs
       then let st2 = csv_eol st1 in
         if csv_mode st2 = StartRecord
         then bindr (csv_go True csv_start cs) (\<lambda>rows. Inr (csv_fields st2 # rows))
         else csv_go True st2 cs
       else csv_go False st1 cs)"

definition csv_rows :: "string \<Rightarrow> string list list res" where
  "csv_rows text = csv_go True csv_start text"

section \<open>Reading back what was written\<close>

lemma csv_go_quoted:
  assumes "csv_mode st = InQuoted"
  shows "\<exists>fresh' st'. csv_go fresh st (double_quotes f @ DQ # rest) = csv_go fresh' st' (DQ # rest) \<and>
    csv_mode st' = InQuoted \<and> csv_fields st' = csv_fields st \<and> csv_cur st' = csv_cur st @ f"
  using assms
proof (induction f arbitrary: fresh st)
  case Nil
  then show ?case by (auto simp: double_quotes_def)
next
  case (Cons c f)
  let ?st = "csv_add c InQuoted st"
  have m: "csv_mode ?st = InQuoted" "csv_fields ?st = csv_fields st" "csv_cur ?st = csv_cur st @ [c]"
    by (simp_all add: csv_add_def)
  have "\<exists>fresh1. csv_go fresh st (double_quotes (c # f) @ DQ # rest) =
      csv_go fresh1 ?st (double_quotes f @ DQ # rest)"
  proof (cases "c = DQ")
    case True
    then show ?thesis using Cons.prems
      by (auto simp: double_quotes_def csv_char_def ends_line_def csv_add_def)
  next
    case False
    then show ?thesis using Cons.prems
      by (auto simp: double_quotes_def csv_char_def csv_eol_def csv_add_def Let_def)
  qed
  then show ?case using Cons.IH [OF m(1)] m by (metis append.assoc append_Cons append_Nil)
qed

text \<open>The state in which the field of a record has been read.\<close>

definition field_read :: "csv_state \<Rightarrow> string list \<Rightarrow> string \<Rightarrow> bool" where
  "field_read st fs f \<longleftrightarrow> csv_fields st = fs \<and> csv_cur st = f \<and>
     (csv_mode st = InField \<or> csv_mode st = QuoteInQuoted \<or> (csv_mode st = StartField \<and> f = []))"

definition at_field :: "csv_state \<Rightarrow> string list \<Rightarrow> bool" where
  "at_field st fs \<longleftrightarrow> csv_fields st = fs \<and> csv_cur st = [] \<and>
     (csv_mode st = StartField \<or> (csv_mode st = StartRecord \<and> fs = []))"

definition plain_char :: "char \<Rightarrow> bool" where
  "plain_char c \<longleftrightarrow> c \<noteq> TAB \<and> c \<noteq> DQ \<and> c \<noteq> NL \<and> c \<noteq> CR"

lemma csv_go_plain:
  "list_all plain_char f \<Longrightarrow> csv_mode st = InField \<Longrightarrow>
   csv_go False st (f @ rest) = csv_go False (st\<lparr>csv_mode := InField, csv_cur := csv_cur st @ f\<rparr>) rest"
proof (induction f arbitrary: st)
  case (Nil st)
  then show ?case by (cases st) simp
next
  case (Cons c f)
  then have "csv_char c st = Inr (csv_add c InField st)" "\<not> ends_line c (f @ rest)"
    by (auto simp: plain_char_def csv_char_def is_newline_def ends_line_def)
  with Cons show ?case by (simp add: csv_add_def)
qed

text \<open>The line terminators in use.\<close>

definition terminators :: "string list" where
  "terminators = [[NL], [CR, NL]]"

text \<open>A field that is read back: unquoted carriage returns would end the line.\<close>

definition field_ok :: "string \<Rightarrow> string \<Rightarrow> bool" where
  "field_ok lineterm f \<longleftrightarrow> list_all (\<lambda>c. c \<in> set lineterm \<or> \<not> is_newline c) f"

lemma read_field:
  assumes "lineterm \<in> set terminators" and "field_ok lineterm f" and "at_field st fs"
    and "csv_field lineterm f \<noteq> []"
  obtains fresh' st' where "csv_go fresh st (csv_field lineterm f @ rest) = csv_go fresh' st' rest"
    "field_read st' fs f" "csv_mode st' \<noteq> StartField" "\<not> fresh'"
proof (cases "list_ex (csv_special lineterm) f")
  case True
  let ?st = "st\<lparr>csv_mode := InQuoted\<rparr>"
  have s: "csv_mode ?st = InQuoted" "csv_fields ?st = fs" "csv_cur ?st = []"
    using assms(3) by (auto simp: at_field_def)
  have "csv_go fresh st (csv_field lineterm f @ rest) = csv_go False ?st (double_quotes f @ DQ # rest)"
    using assms(3) True
    by (auto simp: csv_field_def at_field_def csv_char_def in_start_field_def is_newline_def ends_line_def)
  moreover obtain fresh1 st1 where 1: "csv_go False ?st (double_quotes f @ DQ # rest) = csv_go fresh1 st1 (DQ # rest)"
    "csv_mode st1 = InQuoted" "csv_fields st1 = fs" "csv_cur st1 = f"
    using csv_go_quoted [OF s(1), of False f rest] s by auto
  moreover have "csv_go fresh1 st1 (DQ # rest) = csv_go False (st1\<lparr>csv_mode := QuoteInQuoted\<rparr>) rest"
    using 1(2) by (simp add: csv_char_def ends_line_def)
  ultimately show ?thesis
    by (intro that [of False "st1\<lparr>csv_mode := QuoteInQuoted\<rparr>"]) (auto simp: field_read_def)
next
  case False
  with assms(4) obtain c g where f: "f = c # g" by (cases f) (auto simp: csv_field_def)
  have p: "list_all plain_char f"
    using False assms(1,2)
    by (fastforce simp: list_all_iff list_ex_iff csv_special_def plain_char_def field_ok_def
        is_newline_def terminators_def)
  let ?st = "st\<lparr>csv_mode := InField, csv_cur := [c]\<rparr>"
  have "csv_go fresh st (csv_field lineterm f @ rest) = csv_go False ?st (g @ rest)"
    using assms(3) False p f
    by (auto simp: csv_field_def at_field_def csv_char_def in_start_field_def is_newline_def
        ends_line_def plain_char_def csv_add_def)
  also have "\<dots> = csv_go False (?st\<lparr>csv_cur := csv_cur ?st @ g\<rparr>) rest"
    using p f csv_go_plain [of g ?st rest] by simp
  finally show ?thesis
    using assms(3) f
    by (intro that [of False "?st\<lparr>csv_cur := csv_cur ?st @ g\<rparr>"]) (auto simp: field_read_def at_field_def)
qed

lemma read_delim: "field_read st fs f \<or> (at_field st fs \<and> f = []) \<Longrightarrow>
    \<exists>st'. csv_go fresh st (TAB # rest) = csv_go False st' rest \<and> at_field st' (fs @ [f]) \<and>
      csv_mode st' = StartField"
  by (auto simp: field_read_def at_field_def csv_char_def in_start_field_def is_newline_def
      ends_line_def csv_save_def)

lemma read_end:
  assumes "lineterm \<in> set terminators" and "field_read st fs f"
  shows "csv_go fresh st (lineterm @ rest) = bindr (csv_rows rest) (\<lambda>rows. Inr ((fs @ [f]) # rows))"
  using assms by (auto simp: field_read_def terminators_def csv_char_def in_start_field_def
      is_newline_def ends_line_def csv_save_def csv_eol_def csv_rows_def)

lemma read_fields:
  assumes "lineterm \<in> set terminators" and "list_all (field_ok lineterm) row" and "at_field st fs"
    and "row \<noteq> []" and "csv_mode st = StartField \<or> row \<noteq> [[]]"
  shows "csv_go fresh st (join [TAB] (map (csv_field lineterm) row) @ lineterm @ rest) =
    bindr (csv_rows rest) (\<lambda>rows. Inr ((fs @ row) # rows))"
  using assms(2-)
proof (induction row arbitrary: fresh st fs)
  case (Cons f row)
  show ?case
  proof (cases "row = []")
    case True
    show ?thesis
    proof (cases "csv_field lineterm f = []")
      case True
      then have "f = []" by (auto simp: csv_field_def split: if_splits)
      moreover from this Cons.prems(2,4) \<open>row = []\<close> have "field_read st fs []"
        by (auto simp: at_field_def field_read_def)
      ultimately show ?thesis using read_end [OF assms(1)] \<open>row = []\<close> by (simp add: csv_field_def)
    next
      case False
      obtain fresh' st' where "csv_go fresh st (csv_field lineterm f @ lineterm @ rest) =
          csv_go fresh' st' (lineterm @ rest)" "field_read st' fs f"
        using read_field [OF assms(1) _ Cons.prems(2) False] Cons.prems(1) by (metis list.pred_inject(2))
      then show ?thesis using read_end [OF assms(1)] \<open>row = []\<close> by simp
    qed
  next
    case False
    let ?more = "join [TAB] (map (csv_field lineterm) row) @ lineterm @ rest"
    have j: "join [TAB] (map (csv_field lineterm) (f # row)) @ lineterm @ rest =
        csv_field lineterm f @ TAB # ?more"
      using False by (simp add: join_Cons)
    have "\<exists>fresh' st'. csv_go fresh st (csv_field lineterm f @ TAB # ?more) = csv_go fresh' st' (TAB # ?more) \<and>
        (field_read st' fs f \<or> (at_field st' fs \<and> f = []))"
    proof (cases "csv_field lineterm f = []")
      case True
      then have "f = []" by (auto simp: csv_field_def split: if_splits)
      with True Cons.prems(2) show ?thesis by auto
    next
      case False
      show ?thesis using read_field [OF assms(1) _ Cons.prems(2) False] Cons.prems(1)
        by (metis list.pred_inject(2))
    qed
    then obtain fresh1 st1 st2 where 1: "csv_go fresh st (csv_field lineterm f @ TAB # ?more) =
        csv_go fresh1 st1 (TAB # ?more)"
      and 2: "csv_go fresh1 st1 (TAB # ?more) = csv_go False st2 ?more" "at_field st2 (fs @ [f])"
        "csv_mode st2 = StartField"
      using read_delim by metis
    have "csv_go False st2 ?more = bindr (csv_rows rest) (\<lambda>rows. Inr (((fs @ [f]) @ row) # rows))"
      using Cons.prems(1) 2 False by (intro Cons.IH) simp_all
    with j 1 2 show ?thesis by simp
  qed
qed simp

definition row_ok :: "string \<Rightarrow> string list \<Rightarrow> bool" where
  "row_ok lineterm row \<longleftrightarrow> list_all (field_ok lineterm) row"

lemma read_row:
  assumes "lineterm \<in> set terminators" and "row_ok lineterm row"
  shows "csv_rows (csv_row lineterm row @ rest) = bindr (csv_rows rest) (\<lambda>rows. Inr (row # rows))"
proof -
  consider "row = []" | "row = [[]]" | "row \<noteq> []" "row \<noteq> [[]]" by blast
  then show ?thesis
  proof cases
    case 1
    with assms(1) show ?thesis
      by (auto simp: csv_rows_def csv_row_def terminators_def csv_start_def csv_char_def
          is_newline_def ends_line_def csv_eol_def)
  next
    case 2
    with assms(1) show ?thesis
      by (auto simp: csv_rows_def csv_row_def terminators_def csv_start_def csv_char_def in_start_field_def
          is_newline_def ends_line_def csv_eol_def csv_save_def)
  next
    case 3
    have "csv_go True csv_start (join [TAB] (map (csv_field lineterm) row) @ lineterm @ rest) =
      bindr (csv_rows rest) (\<lambda>rows. Inr (([] @ row) # rows))"
      using assms 3 by (intro read_fields) (auto simp: row_ok_def at_field_def csv_start_def)
    with 3 show ?thesis by (simp add: csv_rows_def csv_row_def)
  qed
qed

lemma csv_rows_Nil [simp]: "csv_rows [] = Inr []"
  by (simp add: csv_rows_def csv_finish_def csv_start_def)

lemma csv_rows_append:
  "lineterm \<in> set terminators \<Longrightarrow> list_all (row_ok lineterm) rows \<Longrightarrow>
   csv_rows (csv_text lineterm rows @ rest) = bindr (csv_rows rest) (\<lambda>rs. Inr (rows @ rs))"
proof (induction rows)
  case Nil
  then show ?case by (cases "csv_rows rest") (simp_all add: csv_text_def)
next
  case (Cons row rows)
  then show ?case
    using read_row [of lineterm row "csv_text lineterm rows @ rest"]
    by (cases "csv_rows rest") (simp_all add: csv_text_def)
qed

text \<open>
  The rows of a table file are read back as they were written, with either line
  terminator, tabs, quotes and line feeds in the fields included.
\<close>

lemma csv_text_back:
  "lineterm \<in> set terminators \<Longrightarrow> list_all (row_ok lineterm) rows \<Longrightarrow>
   csv_rows (csv_text lineterm rows) = Inr rows"
  using csv_rows_append [of lineterm rows "[]"] by simp

definition rows_of :: "string \<Rightarrow> string list list option" where
  "rows_of text = (case csv_rows text of Inr rows \<Rightarrow> Some rows | Inl e \<Rightarrow> None)"

interpretation csv_codec: codec "csv_text [NL]" rows_of "list_all (row_ok [NL])"
  by unfold_locales (simp add: rows_of_def csv_text_back terminators_def)

text \<open>The reader never raises: CR and LF always end the line they are on.\<close>

lemma csv_char_mode: "csv_mode st \<noteq> EatCrnl \<Longrightarrow> \<exists>st'. csv_char c st = Inr st' \<and>
    (csv_mode st' = EatCrnl \<longrightarrow> is_newline c)"
  by (cases "csv_mode st") (auto simp: csv_char_def in_start_field_def csv_save_def csv_add_def)

lemma csv_eol_mode: "csv_mode (csv_eol st) \<noteq> EatCrnl"
  by (cases "csv_mode st") (auto simp: csv_eol_def csv_save_def)

lemma csv_go_total:
  "csv_mode st \<noteq> EatCrnl \<or> (cs \<noteq> [] \<and> hd cs = NL) \<Longrightarrow> \<exists>rows. csv_go fresh st cs = Inr rows"
proof (induction fresh st cs rule: csv_go.induct)
  case (2 fresh st c cs)
  obtain st1 where st1: "csv_char c st = Inr st1" "csv_mode st1 = EatCrnl \<longrightarrow> is_newline c"
  proof (cases "csv_mode st = EatCrnl")
    case True
    with "2.prems" have "is_newline c" "csv_char c st = Inr st"
      by (auto simp: csv_char_def is_newline_def)
    then show ?thesis using that by blast
  next
    case False
    with csv_char_mode [of st c] that show ?thesis by blast
  qed
  show ?case
  proof (cases "ends_line c cs")
    case True
    have "\<exists>rows. csv_go True csv_start cs = Inr rows" if "csv_mode (csv_eol st1) = StartRecord"
      using "2.IH"(1) [OF st1(1) True _ that] by (simp add: csv_start_def)
    moreover have "\<exists>rows. csv_go True (csv_eol st1) cs = Inr rows" if "csv_mode (csv_eol st1) \<noteq> StartRecord"
      using "2.IH"(2) [OF st1(1) True _ that] csv_eol_mode by simp
    ultimately show ?thesis using st1(1) True by (auto simp: Let_def)
  next
    case False
    then have "csv_mode st1 \<noteq> EatCrnl \<or> (cs \<noteq> [] \<and> hd cs = NL)"
      using st1(2) by (auto simp: ends_line_def is_newline_def)
    then show ?thesis using "2.IH"(3) [OF st1(1) False] st1(1) False by simp
  qed
qed simp

lemma csv_rows_total: "\<exists>rows. csv_rows text = Inr rows"
  unfolding csv_rows_def by (rule csv_go_total) (simp add: csv_start_def)

end
