(* ===== verification/Scope_Tables.thy ===== *)
theory Scope_Tables
  imports Py_Csv "HOL-Library.Char_ord" "HOL-Library.List_Lexorder" "HOL-Library.Product_Lexorder"
begin

text \<open>
  The five global tables (scope, CS, SS, raw CS, raw SS), as \<open>src/src/codegen.py\<close> keeps
  them: tab-separated files under \<open>/dev/shm/xkernel\<close>. A file is its text, \<open>None\<close>
  when it does not exist; an operation takes the files it reads and returns what it writes.
  CS and SS indices are interned: the locale \<open>interning\<close> states that contract, and both
  index tables provide it.
\<close>

section \<open>Files\<close>

type_synonym table_file = "string option"

record tables =
  scope_file :: table_file
  cs_file :: table_file
  cs_raw_file :: table_file
  ss_file :: table_file
  ss_raw_file :: table_file

definition scope_header :: "string list" where
  "scope_header = [''ConstID'', ''Val'', ''Expression'', ''CS_Index'', ''SS_Index'', ''BPF_File'',
     ''Status'', ''Candidates'']"

definition cs_header :: "string list" where
  "cs_header = [''Index'', ''CS_Content'']"

definition ss_header :: "string list" where
  "ss_header = [''Index'', ''SS_Ranges'']"

definition raw_header :: "string list" where
  "raw_header = [''ConstID'', ''FunctionName'', ''StartOffset'', ''EndOffset'']"

definition table_text :: "string list \<Rightarrow> string list list \<Rightarrow> string" where
  "table_text header rows = csv_text [NL] (header # rows)"

definition init_table :: "string list \<Rightarrow> table_file \<Rightarrow> string" where
  "init_table header f = (case f of None \<Rightarrow> table_text header [] | Some text \<Rightarrow> text)"

definition init_all_tables :: "tables \<Rightarrow> tables" where
  "init_all_tables t = t\<lparr>scope_file := Some (init_table scope_header (scope_file t)),
     cs_file := Some (init_table cs_header (cs_file t)),
     cs_raw_file := Some (init_table raw_header (cs_raw_file t)),
     ss_file := Some (init_table ss_header (ss_file t)),
     ss_raw_file := Some (init_table raw_header (ss_raw_file t))\<rparr>"

definition clear_all_tables :: "tables \<Rightarrow> tables" where
  "clear_all_tables t = t\<lparr>scope_file := Some (table_text scope_header []),
     cs_file := Some (table_text cs_header []), cs_raw_file := Some (table_text raw_header []),
     ss_file := Some (table_text ss_header []), ss_raw_file := Some (table_text raw_header [])\<rparr>"

text \<open>
  \<open>next(reader, None)\<close> and the rows after it. The reader does not raise on any text
  (\<open>csv_rows_total\<close>).
\<close>

definition table_rows :: "string \<Rightarrow> string list list" where
  "table_rows text = (case csv_rows text of Inr rows \<Rightarrow> rows | Inl e \<Rightarrow> [])"

definition after_header :: "string \<Rightarrow> string list list" where
  "after_header text = (case table_rows text of [] \<Rightarrow> [] | h # rows \<Rightarrow> rows)"

text \<open>The rows where the code tests \<open>if header:\<close> first.\<close>

definition body_rows :: "string \<Rightarrow> string list list" where
  "body_rows text = (case table_rows text of [] \<Rightarrow> [] | h # rows \<Rightarrow> if h = [] then [] else rows)"

section \<open>Index tables\<close>

fun find_content :: "string \<Rightarrow> string list list \<Rightarrow> (int \<times> string) list \<Rightarrow> int \<Rightarrow>
    (int + ((int \<times> string) list \<times> int)) res" where
  "find_content s [] entries max_index = Inr (Inr (entries, max_index))"
| "find_content s (row # rows) entries max_index =
     (if length row \<ge> 2 then
        bindr (or_value_error (py_int 10 (row ! 0))) (\<lambda>index.
          if row ! 1 = s then Inr (Inl index)
          else find_content s rows (entries @ [(index, row ! 1)]) (max max_index index))
      else find_content s rows entries max_index)"

definition index_row :: "int \<times> string \<Rightarrow> string list" where
  "index_row e = [py_str (fst e), snd e]"

definition get_or_add_index :: "string list \<Rightarrow> table_file \<Rightarrow> string \<Rightarrow> (int \<times> table_file) res" where
  "get_or_add_index header f content =
     (let text = init_table header f in
      bindr (find_content content (body_rows text) [] 0) (\<lambda>r. case r of
        Inl index \<Rightarrow> Inr (index, Some text)
      | Inr (entries, max_index) \<Rightarrow>
          (let new_index = max_index + 1 in
           Inr (new_index,
             Some (table_text header (map index_row (sort (entries @ [(new_index, content)]))))))))"

definition get_or_add_cs_index :: "table_file \<Rightarrow> string \<Rightarrow> (int \<times> table_file) res" where
  "get_or_add_cs_index f cs_content = get_or_add_index cs_header f cs_content"

definition get_or_add_ss_index :: "table_file \<Rightarrow> string \<Rightarrow> (int \<times> table_file) res" where
  "get_or_add_ss_index f ss_ranges = get_or_add_index ss_header f ss_ranges"

section \<open>Raw entries\<close>

definition add_raw_entry :: "string list \<Rightarrow> table_file \<Rightarrow> string" where
  "add_raw_entry entry f =
     (let text = init_table raw_header f in
      if list_ex (\<lambda>row. length row \<ge> 4 \<and> take 4 row = entry) (body_rows text) then text
      else text @ csv_row [NL] entry)"

definition add_cs_raw_entry :: "string \<Rightarrow> string \<Rightarrow> int \<Rightarrow> int \<Rightarrow> tables \<Rightarrow> tables" where
  "add_cs_raw_entry const_id function_name soff eoff t =
     t\<lparr>cs_raw_file := Some (add_raw_entry [const_id, function_name, hex0x soff, hex0x eoff] (cs_raw_file t))\<rparr>"

definition add_ss_raw_entry :: "string \<Rightarrow> string \<Rightarrow> string \<Rightarrow> string \<Rightarrow> tables \<Rightarrow> tables" where
  "add_ss_raw_entry const_id function_name soff eoff t =
     t\<lparr>ss_raw_file := Some (add_raw_entry [const_id, function_name, soff, eoff] (ss_raw_file t))\<rparr>"

section \<open>The scope table\<close>

definition updated_row :: "string list \<Rightarrow> string list \<Rightarrow> string list res" where
  "updated_row new row =
     (if length row < 5 then Inl IndexError
      else Inr (hd row # tl new @ drop 8 row))"

fun update_first :: "string \<Rightarrow> string list \<Rightarrow> string list list \<Rightarrow> string list list option res" where
  "update_first const_id new [] = Inr None"
| "update_first const_id new (row # rows) =
     (if length row \<ge> 1 \<and> row ! 0 = const_id
      then bindr (updated_row new row) (\<lambda>r. Inr (Some (r # rows)))
      else bindr (update_first const_id new rows) (\<lambda>r. Inr (map_option ((#) row) r)))"

definition add_scope_table_entry_multi_cs :: "string \<Rightarrow> int \<Rightarrow> string \<Rightarrow> string list \<Rightarrow> string \<Rightarrow>
    string \<Rightarrow> string \<Rightarrow> tables \<Rightarrow> tables res" where
  "add_scope_table_entry_multi_cs const_id val expression cs_indices bpf_file status candidates t0 =
     (let t = init_all_tables t0;
          text = init_table scope_header (scope_file t);
          new = [const_id, py_str val, expression, join '','' cs_indices, [], bpf_file, status, candidates]
      in bindr (update_first const_id new (body_rows text)) (\<lambda>r. Inr (case r of
           Some rows \<Rightarrow> t\<lparr>scope_file := Some (table_text scope_header rows)\<rparr>
         | None \<Rightarrow> t\<lparr>scope_file := Some (text @ csv_row [NL] new)\<rparr>)))"

definition add_scope_table_entry :: "string \<Rightarrow> int \<Rightarrow> string \<Rightarrow> string \<Rightarrow> string \<Rightarrow> string \<Rightarrow>
    tables \<Rightarrow> tables res" where
  "add_scope_table_entry const_id val expression cs_content bpf_file status t =
     bindr (get_or_add_cs_index (cs_file t) cs_content) (\<lambda>(cs_index, f).
       add_scope_table_entry_multi_cs const_id val expression [py_str cs_index] bpf_file status []
         (t\<lparr>cs_file := f\<rparr>))"

definition is_digits :: "string \<Rightarrow> bool" where
  "is_digits s \<longleftrightarrow> s \<noteq> [] \<and> list_all is_digit s"

definition row_ids :: "string list list \<Rightarrow> int list" where
  "row_ids rows = List.map_filter
     (\<lambda>row. if row \<noteq> [] \<and> is_digits (hd row) then py_int 10 (hd row) else None) rows"

definition next_const_id :: "table_file \<Rightarrow> int" where
  "next_const_id f = foldl max 0 (row_ids (after_header (init_table scope_header f))) + 1"

definition without_id :: "string \<Rightarrow> table_file \<Rightarrow> table_file" where
  "without_id const_id f = (case f of
     None \<Rightarrow> None
   | Some text \<Rightarrow> (case table_rows text of
       [] \<Rightarrow> f
     | h # rows \<Rightarrow> if h = [] then f
         else Some (table_text h (filter (\<lambda>row. row = [] \<or> hd row \<noteq> const_id) rows))))"

definition remove_constid_entries :: "string \<Rightarrow> tables \<Rightarrow> tables" where
  "remove_constid_entries const_id t = t\<lparr>scope_file := without_id const_id (scope_file t),
     cs_raw_file := without_id const_id (cs_raw_file t),
     ss_raw_file := without_id const_id (ss_raw_file t)\<rparr>"

section \<open>The SS index of a scope entry\<close>

type_synonym span = "string \<times> string \<times> string"

definition ranges_text :: "span list \<Rightarrow> string" where
  "ranges_text ranges = join '';'' (map (\<lambda>(func, soff, eoff). func @ '','' @ soff @ '','' @ eoff) ranges)"

fun ss_indices :: "(string, span list) dict \<Rightarrow> table_file \<Rightarrow> ((string, string) dict \<times> table_file) res" where
  "ss_indices [] f = Inr ([], f)"
| "ss_indices ((const_id, ranges) # rest) f =
     bindr (get_or_add_ss_index f (ranges_text ranges)) (\<lambda>(i, f1).
     bindr (ss_indices rest f1) (\<lambda>(d, f'). Inr ((const_id, py_str i) # d, f')))"

definition set_ss_index :: "(string, string) dict \<Rightarrow> string list \<Rightarrow> string list" where
  "set_ss_index indices row = (if length row \<ge> 5
     then (case map_of indices (hd row) of Some i \<Rightarrow> row[4 := i] | None \<Rightarrow> row) else row)"

definition has_ss_index :: "(string, string) dict \<Rightarrow> string list \<Rightarrow> bool" where
  "has_ss_index indices row \<longleftrightarrow> length row \<ge> 5 \<and> has_key indices (hd row)"

definition update_scope_table_ss_index :: "(string, span list) dict \<Rightarrow> tables \<Rightarrow> tables res" where
  "update_scope_table_ss_index ranges_by_id t =
     (if ranges_by_id = [] then Inr t
      else bindr (ss_indices ranges_by_id (ss_file t)) (\<lambda>(indices, f).
        let t' = t\<lparr>ss_file := f\<rparr> in
        Inr (case scope_file t of
          None \<Rightarrow> t'
        | Some text \<Rightarrow>
            (let entries = body_rows text in
             if list_ex (has_ss_index indices) entries
             then t'\<lparr>scope_file := Some (table_text scope_header (map (set_ss_index indices) entries))\<rparr>
             else t'))))"

section \<open>Index tables are interning tables\<close>

text \<open>The contract of an interning table over values \<open>'c\<close>, with the pairs it knows.\<close>

locale interning =
  fixes get :: "'f \<Rightarrow> 'c \<Rightarrow> (int \<times> 'f) res"
    and known :: "'f \<Rightarrow> (int \<times> 'c) list"
    and wf :: "'f \<Rightarrow> bool"
    and ok :: "'c \<Rightarrow> bool"
  assumes get_known: "wf f \<Longrightarrow> ok c \<Longrightarrow> \<exists>i f'. get f c = Inr (i, f') \<and> wf f' \<and>
      (i, c) \<in> set (known f') \<and> set (known f) \<subseteq> set (known f')"
    and same_index: "wf f \<Longrightarrow> (i, c) \<in> set (known f) \<Longrightarrow> (i, d) \<in> set (known f) \<Longrightarrow> c = d"
    and same_content: "wf f \<Longrightarrow> (i, c) \<in> set (known f) \<Longrightarrow> (j, c) \<in> set (known f) \<Longrightarrow> i = j"
begin

lemma get_wf: "wf f \<Longrightarrow> ok c \<Longrightarrow> get f c = Inr (i, f') \<Longrightarrow>
    wf f' \<and> (i, c) \<in> set (known f') \<and> set (known f) \<subseteq> set (known f')"
  using get_known [of f c] by auto

lemma get_again:
  assumes "wf f" "ok c" "get f c = Inr (i, f1)"
  shows "\<exists>f2. get f1 c = Inr (i, f2)"
proof -
  have 1: "wf f1" "(i, c) \<in> set (known f1)" using get_wf assms by blast+
  then obtain j f2 where g: "get f1 c = Inr (j, f2)" using get_known assms(2) by blast
  then have "wf f2" "(j, c) \<in> set (known f2)" "(i, c) \<in> set (known f2)"
    using get_wf [OF 1(1) assms(2) g] 1(2) by blast+
  with same_content have "i = j" by blast
  with g show ?thesis by blast
qed

lemma get_injective:
  assumes "wf f" "ok c" "ok d" "get f c = Inr (i, f1)" "get f1 d = Inr (j, f2)"
  shows "i = j \<longleftrightarrow> c = d"
proof -
  have 1: "wf f1" "(i, c) \<in> set (known f1)" using get_wf assms(1,2,4) by blast+
  then have 2: "wf f2" "(j, d) \<in> set (known f2)" "(i, c) \<in> set (known f2)"
    using get_wf [OF 1(1) assms(3,5)] by blast+
  show ?thesis using same_index [OF 2(1)] same_content [OF 2(1)] 2(2,3) by blast
qed

end

definition index_file :: "string list \<Rightarrow> (int \<times> string) list \<Rightarrow> string" where
  "index_file header es = table_text header (map index_row es)"

text \<open>Positive indices in increasing order, contents without repetition.\<close>

definition index_ok :: "(int \<times> string) list \<Rightarrow> bool" where
  "index_ok es \<longleftrightarrow> sorted_wrt (<) (0 # map fst es) \<and> distinct (map snd es) \<and>
     list_all (field_ok [NL]) (map snd es)"

definition next_index :: "(int \<times> string) list \<Rightarrow> int" where
  "next_index es = (if es = [] then 1 else fst (last es) + 1)"

definition header_ok :: "string list \<Rightarrow> bool" where
  "header_ok h \<longleftrightarrow> h \<noteq> [] \<and> row_ok [NL] h"

lemma headers_ok [simp]: "header_ok scope_header" "header_ok cs_header" "header_ok ss_header"
  "header_ok raw_header"
  by (simp_all add: header_ok_def row_ok_def field_ok_def is_newline_def scope_header_def cs_header_def
      ss_header_def raw_header_def)

lemma table_rows_text:
  "header_ok h \<Longrightarrow> list_all (row_ok [NL]) rows \<Longrightarrow> table_rows (table_text h rows) = h # rows"
  using csv_text_back [of "[NL]" "h # rows"]
  by (simp add: table_rows_def table_text_def header_ok_def terminators_def)

lemma body_rows_text [simp]:
  "header_ok h \<Longrightarrow> list_all (row_ok [NL]) rows \<Longrightarrow> body_rows (table_text h rows) = rows"
  using table_rows_text [of h rows] by (simp add: body_rows_def header_ok_def)

lemma after_header_text [simp]:
  "header_ok h \<Longrightarrow> list_all (row_ok [NL]) rows \<Longrightarrow> after_header (table_text h rows) = rows"
  using table_rows_text [of h rows] by (simp add: after_header_def)

lemma table_text_append: "table_text h (rows @ [row]) = table_text h rows @ csv_row [NL] row"
  by (simp add: table_text_def csv_text_def)

lemma no_newline_field: "list_all is_hex (digs 10 n)"
  using digs_hex [of 10] by (simp add: list_all_iff)

lemma hex_not_newline: "is_hex c \<Longrightarrow> \<not> is_newline c"
  by (auto simp: is_hex_def is_newline_def Let_def)

lemma py_str_ok [simp]: "field_ok lineterm (py_str n)"
  using digs_hex [of 10] hex_not_newline
  by (fastforce simp: field_ok_def py_str_def list_all_iff is_newline_def)

lemma index_rows_ok: "index_ok es \<Longrightarrow> list_all (row_ok [NL]) (map index_row es)"
  by (auto simp: index_ok_def list_all_iff row_ok_def index_row_def)

lemma index_fold:
  "sorted_wrt (<) (m # map fst es) \<Longrightarrow> find_content c (map index_row es) acc m =
   Inr (case map_of (map prod.swap es) c of
      Some i \<Rightarrow> Inl i
    | None \<Rightarrow> Inr (acc @ es, if es = [] then m else fst (last es)))"
proof (induction es arbitrary: acc m)
  case (Cons e es)
  then have "max m (fst e) = fst e" "sorted_wrt (<) (fst e # map fst es)" by auto
  with Cons.IH [of "fst e" "acc @ [e]"] show ?case
    by (cases e) (auto simp: index_row_def py_int_py_str split: option.splits)
qed simp

lemma sorted_pairs: "sorted_wrt (<) (map fst es) \<Longrightarrow> sorted (es :: (int \<times> string) list)"
  by (induction es) (auto simp: less_eq_prod_def)

lemma index_ok_add:
  assumes "index_ok es" "field_ok [NL] c" "c \<notin> snd ` set es"
  shows "index_ok (es @ [(next_index es, c)])"
proof -
  have "(\<forall>e \<in> set es. fst e < next_index es) \<and> 0 < next_index es"
    using assms(1) by (cases es rule: rev_cases) (force simp: next_index_def index_ok_def sorted_wrt_append)+
  then show ?thesis using assms by (auto simp: index_ok_def sorted_wrt_append)
qed

lemma next_index_last: "(if es = [] then 0 else fst (last es)) + 1 = next_index es"
  by (simp add: next_index_def)

lemma get_or_add_index_eq:
  assumes "header_ok header" "index_ok es" "field_ok [NL] c" "f = Some (index_file header es) \<or> f = None \<and> es = []"
  shows "get_or_add_index header f c = Inr (case map_of (map prod.swap es) c of
      Some i \<Rightarrow> (i, Some (index_file header es))
    | None \<Rightarrow> (next_index es, Some (index_file header (es @ [(next_index es, c)]))))"
proof -
  have t: "init_table header f = index_file header es"
    using assms(4) by (auto simp: init_table_def index_file_def)
  have b: "body_rows (index_file header es) = map index_row es"
    using assms(1) index_rows_ok [OF assms(2)] by (simp add: index_file_def)
  have f: "find_content c (map index_row es) [] 0 = Inr (case map_of (map prod.swap es) c of
      Some i \<Rightarrow> Inl i | None \<Rightarrow> Inr (es, if es = [] then 0 else fst (last es)))"
    using index_fold [of 0 es c "[]"] assms(2) by (simp add: index_ok_def split: option.splits)
  show ?thesis
  proof (cases "map_of (map prod.swap es) c")
    case (Some i)
    then show ?thesis by (simp add: get_or_add_index_def t b f)
  next
    case None
    then have "c \<notin> snd ` set es" by (auto simp: map_of_eq_None_iff image_iff)
    then have "sorted (es @ [(next_index es, c)])"
      using index_ok_add [OF assms(2,3)] by (intro sorted_pairs) (simp add: index_ok_def)
    then have "sort (es @ [(next_index es, c)]) = es @ [(next_index es, c)]" by (rule sorted_sort_id)
    moreover from None have "get_or_add_index header f c = Inr (next_index es,
        Some (table_text header (map index_row (sort (es @ [(next_index es, c)])))))"
      by (simp add: get_or_add_index_def t b f Let_def next_index_last)
    ultimately show ?thesis using None by (simp only: index_file_def option.case)
  qed
qed

text \<open>
  C19: on a well-formed table, looking a content up returns its index and leaves the table
  alone when it is there; otherwise it appends it under the next index, and the table
  stays well formed. The SS table behaves in the same way.
\<close>

theorem get_or_add_index_refines:
  assumes "index_ok es" and "field_ok [NL] c"
  shows "(case map_of (map prod.swap es) c of
      Some i \<Rightarrow> get_or_add_cs_index (Some (index_file cs_header es)) c = Inr (i, Some (index_file cs_header es))
        \<and> get_or_add_ss_index (Some (index_file ss_header es)) c = Inr (i, Some (index_file ss_header es))
    | None \<Rightarrow> (let es' = es @ [(next_index es, c)] in index_ok es' \<and>
        get_or_add_cs_index (Some (index_file cs_header es)) c = Inr (next_index es, Some (index_file cs_header es'))
        \<and> get_or_add_ss_index (Some (index_file ss_header es)) c = Inr (next_index es, Some (index_file ss_header es'))))"
proof -
  note cs = get_or_add_index_eq [OF _ assms, of cs_header "Some (index_file cs_header es)"]
  note ss = get_or_add_index_eq [OF _ assms, of ss_header "Some (index_file ss_header es)"]
  show ?thesis
  proof (cases "map_of (map prod.swap es) c")
    case None
    then have "c \<notin> snd ` set es" by (auto simp: map_of_eq_None_iff image_iff)
    with None cs ss index_ok_add [OF assms] show ?thesis
      by (simp add: get_or_add_cs_index_def get_or_add_ss_index_def Let_def)
  next
    case (Some i)
    with cs ss show ?thesis by (simp add: get_or_add_cs_index_def get_or_add_ss_index_def)
  qed
qed

theorem get_or_add_index_refines_witness:
  "get_or_add_cs_index (Some (index_file cs_header [(1, ''a''), (4, ''b'')])) ''c'' =
     Inr (5, Some (index_file cs_header [(1, ''a''), (4, ''b''), (5, ''c'')]))"
  using get_or_add_index_refines [of "[(1, ''a''), (4, ''b'')]" "''c''"]
  by (simp add: index_ok_def field_ok_def is_newline_def next_index_def Let_def)

definition index_wf :: "string list \<Rightarrow> table_file \<Rightarrow> bool" where
  "index_wf header f \<longleftrightarrow> f = None \<or> (\<exists>es. index_ok es \<and> f = Some (index_file header es))"

definition index_entries :: "table_file \<Rightarrow> (int \<times> string) list" where
  "index_entries f = (case f of None \<Rightarrow> [] | Some text \<Rightarrow>
     map (\<lambda>row. (the (py_int 10 (row ! 0)), row ! 1)) (body_rows text))"

lemma index_entries_file:
  "header_ok header \<Longrightarrow> index_ok es \<Longrightarrow> index_entries (Some (index_file header es)) = es"
  using index_rows_ok [of es]
  by (simp add: index_entries_def index_file_def comp_def index_row_def py_int_py_str)

lemma index_wf_cases:
  assumes "index_wf header f"
  obtains es where "index_ok es" "f = Some (index_file header es) \<or> f = None \<and> es = []"
  using assms unfolding index_wf_def by (metis index_ok_def distinct.simps(1) list.map_disc_iff
      list.pred_inject(1) sorted_wrt1)

lemma index_interning:
  assumes "header_ok header"
  shows "interning (get_or_add_index header) index_entries (index_wf header) (field_ok [NL])"
proof
  fix f c assume f: "index_wf header f" and c: "field_ok [NL] c"
  from f obtain es where es: "index_ok es" "f = Some (index_file header es) \<or> f = None \<and> es = []"
    by (rule index_wf_cases)
  have k: "index_entries f = es"
    using es index_entries_file [OF assms es(1)] by (auto simp: index_entries_def)
  note g = get_or_add_index_eq [OF assms es(1) c es(2)]
  show "\<exists>i f'. get_or_add_index header f c = Inr (i, f') \<and> index_wf header f' \<and>
      (i, c) \<in> set (index_entries f') \<and> set (index_entries f) \<subseteq> set (index_entries f')"
  proof (cases "map_of (map prod.swap es) c")
    case None
    then have "index_ok (es @ [(next_index es, c)])"
      using index_ok_add [OF es(1) c] by (auto simp: map_of_eq_None_iff image_iff)
    with g None k show ?thesis by (auto simp: index_wf_def index_entries_file [OF assms])
  next
    case (Some i)
    then have "(i, c) \<in> set es" by (auto dest!: map_of_SomeD)
    with g Some k es(1) show ?thesis by (auto simp: index_wf_def index_entries_file [OF assms])
  qed
next
  fix f i c d assume f: "index_wf header f" and "(i, c) \<in> set (index_entries f)" "(i, d) \<in> set (index_entries f)"
  moreover from f obtain es where es: "index_ok es" "f = Some (index_file header es) \<or> f = None \<and> es = []"
    by (rule index_wf_cases)
  moreover have "distinct (map fst es)"
    using es(1) by (simp add: index_ok_def strict_sorted_iff)
  moreover have "index_entries f = es"
    using es index_entries_file [OF assms es(1)] by (auto simp: index_entries_def)
  ultimately show "c = d" by (auto dest: eq_key_imp_eq_value)
next
  fix f i j c assume f: "index_wf header f" and "(i, c) \<in> set (index_entries f)" "(j, c) \<in> set (index_entries f)"
  moreover from f obtain es where es: "index_ok es" "f = Some (index_file header es) \<or> f = None \<and> es = []"
    by (rule index_wf_cases)
  moreover have "inj_on snd (set es)" using es(1) by (simp add: index_ok_def distinct_map)
  moreover have "index_entries f = es"
    using es index_entries_file [OF assms es(1)] by (auto simp: index_entries_def)
  ultimately show "i = j" using inj_onD [of snd "set es" "(i, c)" "(j, c)"] by simp
qed

interpretation cs_table: interning get_or_add_cs_index index_entries "index_wf cs_header" "field_ok [NL]"
  using index_interning [of cs_header] by (simp add: get_or_add_cs_index_def [abs_def])

interpretation ss_table: interning get_or_add_ss_index index_entries "index_wf ss_header" "field_ok [NL]"
  using index_interning [of ss_header] by (simp add: get_or_add_ss_index_def [abs_def])

text \<open>
  Two code sections get the same CS index exactly when they are the same text, and two
  span lists the same SS index, from any well-formed table, missing or not.
\<close>

theorem indices_identify:
  assumes "field_ok [NL] c" "field_ok [NL] d"
    and "index_wf cs_header f" "get_or_add_cs_index f c = Inr (i, f1)" "get_or_add_cs_index f1 d = Inr (j, f2)"
    and "index_wf ss_header g" "get_or_add_ss_index g c = Inr (k, g1)" "get_or_add_ss_index g1 d = Inr (l, g2)"
  shows "(i = j \<longleftrightarrow> c = d) \<and> (k = l \<longleftrightarrow> c = d)"
  using cs_table.get_injective [OF assms(3,1,2,4,5)] ss_table.get_injective [OF assms(6,1,2,7,8)] by blast

theorem indices_identify_witness:
  "\<exists>f1 f2 g1 g2. get_or_add_cs_index None ''a'' = Inr (1, f1) \<and> get_or_add_cs_index f1 ''b'' = Inr (2, f2) \<and>
     get_or_add_ss_index None ''a'' = Inr (1, g1) \<and> get_or_add_ss_index g1 ''b'' = Inr (2, g2) \<and>
     ((1 :: int) = 2 \<longleftrightarrow> ''a'' = ''b'')"
proof -
  have ok: "field_ok [NL] ''a''" "field_ok [NL] ''b''" by (simp_all add: field_ok_def is_newline_def)
  have wf: "index_wf cs_header None" "index_wf ss_header None" by (simp_all add: index_wf_def)
  have "get_or_add_cs_index None ''a'' = Inr (1, Some (index_file cs_header [(1, ''a'')]))"
    "get_or_add_cs_index (Some (index_file cs_header [(1, ''a'')])) ''b'' =
       Inr (2, Some (index_file cs_header [(1, ''a''), (2, ''b'')]))"
    "get_or_add_ss_index None ''a'' = Inr (1, Some (index_file ss_header [(1, ''a'')]))"
    "get_or_add_ss_index (Some (index_file ss_header [(1, ''a'')])) ''b'' =
       Inr (2, Some (index_file ss_header [(1, ''a''), (2, ''b'')]))"
    by code_simp+
  with indices_identify [OF ok wf(1) this(1,2) wf(2) this(3,4)] show ?thesis by blast
qed

section \<open>Raw entries are kept as a set\<close>

lemma hex_field_ok: "list_all is_hex s \<Longrightarrow> field_ok l s"
  using hex_not_newline by (auto simp: field_ok_def list_all_iff)

lemma hex0x_ok [simp]: "field_ok l (hex0x n)"
  using hex_field_ok [of "digs 16 (nat n)" l] hex_field_ok [of "digs 16 (nat (- n))" l] digs_hex [of 16]
  by (auto simp: hex0x_def hex_of_def field_ok_def list_all_iff is_newline_def)

lemma add_raw_entry_rows:
  assumes "list_all (\<lambda>row. row_ok [NL] row \<and> length row = 4) rows"
  shows "add_raw_entry entry (Some (table_text raw_header rows)) =
    table_text raw_header (if entry \<in> set rows then rows else rows @ [entry])"
proof -
  have ok: "list_all (row_ok [NL]) rows" using assms by (simp add: list_all_iff)
  have "list_ex (\<lambda>row. 4 \<le> length row \<and> take 4 row = entry) rows \<longleftrightarrow> entry \<in> set rows"
    using assms by (auto simp: list_all_iff list_ex_iff)
  with ok show ?thesis by (simp add: add_raw_entry_def init_table_def table_text_append)
qed

text \<open>
  Recording a code section or a safe span adds it once: the raw table holds the old
  entries in their order and then the new one, unless it is already there.
\<close>

theorem raw_entries_once:
  assumes "list_all (\<lambda>row. row_ok [NL] row \<and> length row = 4) rows"
    and "cs_raw_file t = Some (table_text raw_header rows)" and "row_ok [NL] [const_id, function_name]"
  shows "\<exists>rows'. cs_raw_file (add_cs_raw_entry const_id function_name soff eoff t) =
      Some (table_text raw_header rows') \<and>
    body_rows (table_text raw_header rows') = rows' \<and>
    (distinct rows \<longrightarrow> distinct rows') \<and> take (length rows) rows' = rows \<and>
    set rows' = insert [const_id, function_name, hex0x soff, hex0x eoff] (set rows) \<and>
    cs_raw_file (add_cs_raw_entry const_id function_name soff eoff
      (add_cs_raw_entry const_id function_name soff eoff t)) = Some (table_text raw_header rows')"
proof -
  let ?e = "[const_id, function_name, hex0x soff, hex0x eoff]"
  let ?rows' = "if ?e \<in> set rows then rows else rows @ [?e]"
  have ok: "list_all (\<lambda>row. row_ok [NL] row \<and> length row = 4) ?rows'"
    using assms(1,3) by (auto simp: row_ok_def list_all_iff)
  then have "body_rows (table_text raw_header ?rows') = ?rows'"
    by (intro body_rows_text) (auto simp: list_all_iff)
  moreover have e: "?e \<in> set ?rows'" by simp
  have "add_raw_entry ?e (Some (table_text raw_header ?rows')) = table_text raw_header ?rows'"
    using add_raw_entry_rows [OF ok, of ?e] e by simp
  ultimately show ?thesis
    using add_raw_entry_rows [OF assms(1), of ?e] assms(2)
    by (intro exI [of _ ?rows']) (auto simp: add_cs_raw_entry_def)
qed

theorem raw_entries_once_witness:
  "\<exists>rows'. cs_raw_file (add_cs_raw_entry ''1'' ''f'' 16 32
      (clear_all_tables \<lparr>scope_file = None, cs_file = None, cs_raw_file = None, ss_file = None,
         ss_raw_file = None\<rparr>)) = Some (table_text raw_header rows') \<and>
     set rows' = {[''1'', ''f'', hex0x 16, hex0x 32]}"
  using raw_entries_once [of "[]" "clear_all_tables \<lparr>scope_file = None, cs_file = None,
      cs_raw_file = None, ss_file = None, ss_raw_file = None\<rparr>" "''1''" "''f''" 16 32]
  by (auto simp: clear_all_tables_def row_ok_def field_ok_def is_newline_def)

section \<open>Removing and allocating ConstIDs\<close>

definition id_rows :: "string list \<Rightarrow> table_file \<Rightarrow> string list list \<Rightarrow> bool" where
  "id_rows header f rows \<longleftrightarrow> f = Some (table_text header rows) \<and>
     list_all (\<lambda>row. row_ok [NL] row \<and> row \<noteq> []) rows"

lemma id_rows_body: "id_rows header f rows \<Longrightarrow> header_ok header \<Longrightarrow> body_rows (the f) = rows"
  by (auto simp: id_rows_def list_all_iff intro!: body_rows_text)

lemma without_id_rows:
  assumes "id_rows header f rows" "header_ok header"
  shows "id_rows header (without_id const_id f) (filter (\<lambda>row. hd row \<noteq> const_id) rows)"
proof -
  have ok: "list_all (row_ok [NL]) rows" and ne: "\<And>row. row \<in> set rows \<Longrightarrow> row \<noteq> []"
    and f: "f = Some (table_text header rows)"
    using assms(1) by (auto simp: id_rows_def list_all_iff)
  have "filter (\<lambda>row. row = [] \<or> hd row \<noteq> const_id) rows = filter (\<lambda>row. hd row \<noteq> const_id) rows"
    by (rule filter_cong) (auto dest: ne)
  then have "without_id const_id f = Some (table_text header (filter (\<lambda>row. hd row \<noteq> const_id) rows))"
    using table_rows_text [OF assms(2) ok] assms(2) by (simp add: without_id_def f header_ok_def)
  with assms(1) show ?thesis by (auto simp: id_rows_def list_all_iff)
qed

text \<open>
  Removing a ConstID deletes exactly its rows from the scope table and the two raw
  tables, keeps the order of the others, and leaves the index tables alone.
\<close>

theorem remove_constid_exact:
  assumes "id_rows scope_header (scope_file t) s" "id_rows raw_header (cs_raw_file t) c"
    "id_rows raw_header (ss_raw_file t) r"
  shows "id_rows scope_header (scope_file (remove_constid_entries i t)) (filter (\<lambda>row. hd row \<noteq> i) s) \<and>
    id_rows raw_header (cs_raw_file (remove_constid_entries i t)) (filter (\<lambda>row. hd row \<noteq> i) c) \<and>
    id_rows raw_header (ss_raw_file (remove_constid_entries i t)) (filter (\<lambda>row. hd row \<noteq> i) r) \<and>
    cs_file (remove_constid_entries i t) = cs_file t \<and> ss_file (remove_constid_entries i t) = ss_file t"
  using without_id_rows assms headers_ok by (auto simp: remove_constid_entries_def)

theorem remove_constid_exact_witness:
  "id_rows scope_header (scope_file (remove_constid_entries ''1''
      \<lparr>scope_file = Some (table_text scope_header [[''1'', ''a''], [''2'', ''b'']]), cs_file = None,
       cs_raw_file = Some (table_text raw_header []), ss_file = None,
       ss_raw_file = Some (table_text raw_header [])\<rparr>)) [[''2'', ''b'']]"
  using remove_constid_exact [of "\<lparr>scope_file = Some (table_text scope_header [[''1'', ''a''], [''2'', ''b'']]),
       cs_file = None, cs_raw_file = Some (table_text raw_header []), ss_file = None,
       ss_raw_file = Some (table_text raw_header [])\<rparr>" "[[''1'', ''a''], [''2'', ''b'']]" "[]" "[]" "''1''"]
  by (simp add: id_rows_def row_ok_def field_ok_def is_newline_def)

lemma foldl_max_ge: "(m :: int) \<le> foldl max m xs \<and> (\<forall>x \<in> set xs. x \<le> foldl max m xs)"
proof (induction xs arbitrary: m)
  case (Cons x xs)
  from Cons.IH [of "max m x"] show ?case by auto
qed simp

lemma digits_id: "0 \<le> n \<Longrightarrow> is_digits (py_str n)"
  using digs_digit by (auto simp: is_digits_def py_str_def list_all_iff)

text \<open>
  The next ConstID is positive, larger than every numeric ConstID of the scope table,
  and no row has it.
\<close>

theorem next_const_id_fresh:
  assumes "id_rows scope_header f rows"
  shows "0 < next_const_id f \<and> (\<forall>row \<in> set rows. hd row \<noteq> py_str (next_const_id f)) \<and>
    (\<forall>row \<in> set rows. \<forall>n. hd row = py_str n \<and> 0 \<le> n \<longrightarrow> n < next_const_id f)"
proof -
  have f: "f = Some (table_text scope_header rows)" and ok: "list_all (row_ok [NL]) rows"
    and ne: "\<And>row. row \<in> set rows \<Longrightarrow> row \<noteq> []"
    using assms by (auto simp: id_rows_def list_all_iff)
  have n: "next_const_id f = foldl max 0 (row_ids rows) + 1"
    using ok by (simp add: next_const_id_def f init_table_def)
  have less: "k < next_const_id f" if "row \<in> set rows" "hd row = py_str k" "0 \<le> k" for row k
  proof -
    have "k \<in> set (row_ids rows)"
      using that ne [OF that(1)] digits_id [OF that(3)]
      by (force simp: row_ids_def map_filter_eq py_int_py_str)
    then show ?thesis using foldl_max_ge [of 0 "row_ids rows"] n by fastforce
  qed
  have "0 < next_const_id f" using foldl_max_ge [of 0 "row_ids rows"] n by simp
  with less show ?thesis by force
qed

theorem next_const_id_fresh_witness:
  "7 < next_const_id (Some (table_text scope_header [[''1''], [''7''], [''x'']]))"
proof -
  have "py_str 7 = ''7''" by code_simp
  then show ?thesis
    using next_const_id_fresh [of "Some (table_text scope_header [[''1''], [''7''], [''x'']])"
        "[[''1''], [''7''], [''x'']]", THEN conjunct2, THEN conjunct2, rule_format, of "[''7'']" 7]
    by (simp add: id_rows_def row_ok_def field_ok_def is_newline_def)
qed

section \<open>The scope table is a dictionary\<close>

text \<open>The rows as a dictionary from ConstID to the other columns.\<close>

definition scope_dict :: "string list list \<Rightarrow> (string, string list) dict" where
  "scope_dict rows = map (\<lambda>row. (hd row, tl row)) rows"

definition scope_rows_ok :: "string list list \<Rightarrow> bool" where
  "scope_rows_ok rows \<longleftrightarrow> list_all (\<lambda>row. row_ok [NL] row \<and> 5 \<le> length row \<and> length row \<le> 8) rows"

lemma update_first_dict:
  assumes "scope_rows_ok rows" "length new = 8" "hd new = const_id"
  shows "\<exists>r. update_first const_id new rows = Inr r \<and>
    scope_dict (case r of Some rows' \<Rightarrow> rows' | None \<Rightarrow> rows @ [new]) =
      dput const_id (tl new) (scope_dict rows) \<and>
    (r = None \<longrightarrow> const_id \<notin> hd ` set rows) \<and>
    (row_ok [NL] new \<longrightarrow> (\<forall>rows'. r = Some rows' \<longrightarrow> list_all (row_ok [NL]) rows'))"
  using assms(1)
proof (induction rows)
  case Nil
  then show ?case using assms by (simp add: scope_dict_def)
next
  case (Cons row rows)
  then have row: "row \<noteq> []" "5 \<le> length row" "length row \<le> 8" "row_ok [NL] row" "scope_rows_ok rows"
    by (auto simp: scope_rows_ok_def)
  from row(1) have h: "row ! 0 = hd row" by (simp add: hd_conv_nth)
  obtain r where r: "update_first const_id new rows = Inr r"
    "scope_dict (case r of Some rows' \<Rightarrow> rows' | None \<Rightarrow> rows @ [new]) = dput const_id (tl new) (scope_dict rows)"
    "r = None \<longrightarrow> const_id \<notin> hd ` set rows"
    "row_ok [NL] new \<longrightarrow> (\<forall>rows'. r = Some rows' \<longrightarrow> list_all (row_ok [NL]) rows')"
    using Cons.IH [OF row(5)] by blast
  have ok: "list_all (row_ok [NL]) rows" using row(5) by (auto simp: scope_rows_ok_def list_all_iff)
  show ?case
  proof (cases "hd row = const_id")
    case True
    obtain n ns where "new = n # ns" using assms(2) by (cases new) auto
    with True row ok h show ?thesis
      by (auto simp: scope_dict_def updated_row_def row_ok_def list_all_iff)
  next
    case False
    with r row h show ?thesis by (cases r) (auto simp: scope_dict_def)
  qed
qed

lemma scope_dict_table:
  assumes "scope_rows_ok rows" "f = Some (table_text scope_header rows)"
  shows "body_rows (init_table scope_header f) = rows"
  using assms by (auto simp: init_table_def scope_rows_ok_def list_all_iff intro!: body_rows_text)

lemma scope_entry_update:
  assumes "scope_rows_ok rows" and "scope_file t = Some (table_text scope_header rows)"
    and "row_ok [NL] ([const_id, expression, bpf_file, status, candidates] @ [join '','' cs_indices])"
  shows "\<exists>rows'. add_scope_table_entry_multi_cs const_id val expression cs_indices bpf_file status
        candidates t = Inr ((init_all_tables t)\<lparr>scope_file := Some (table_text scope_header rows')\<rparr>) \<and>
      list_all (row_ok [NL]) rows' \<and>
      scope_dict rows' = dput const_id
        [py_str val, expression, join '','' cs_indices, [], bpf_file, status, candidates] (scope_dict rows)"
proof -
  let ?new = "[const_id, py_str val, expression, join '','' cs_indices, [], bpf_file, status, candidates]"
  have new: "row_ok [NL] ?new" using assms(3) by (auto simp: row_ok_def field_ok_def [of _ "[]"])
  let ?t = "init_all_tables t"
  have s: "scope_file ?t = scope_file t" using assms(2) by (simp add: init_all_tables_def init_table_def)
  obtain r where r: "update_first const_id ?new rows = Inr r"
    "scope_dict (case r of Some rows' \<Rightarrow> rows' | None \<Rightarrow> rows @ [?new]) = dput const_id (tl ?new) (scope_dict rows)"
    "row_ok [NL] ?new \<longrightarrow> (\<forall>rows'. r = Some rows' \<longrightarrow> list_all (row_ok [NL]) rows')"
    using update_first_dict [OF assms(1), of ?new const_id] by auto
  let ?rows' = "case r of Some rows' \<Rightarrow> rows' | None \<Rightarrow> rows @ [?new]"
  have ok: "list_all (row_ok [NL]) ?rows'"
    using r(3) new assms(1) by (auto simp: scope_rows_ok_def list_all_iff split: option.splits)
  have "add_scope_table_entry_multi_cs const_id val expression cs_indices bpf_file status candidates t =
      Inr (?t\<lparr>scope_file := Some (table_text scope_header ?rows')\<rparr>)"
    using r(1) scope_dict_table [OF assms(1,2)] assms(2)
    by (cases r) (simp_all add: add_scope_table_entry_multi_cs_def Let_def s init_table_def table_text_append)
  with r(2) ok show ?thesis by (intro exI [of _ ?rows']) auto
qed

text \<open>
  Adding a scope entry is an update of the dictionary from ConstIDs to entries: the
  entry of the ConstID is overwritten in place, with an empty SS index, or appended, and
  every other entry stays as it is.
\<close>

theorem scope_entry_dict_update:
  assumes "scope_rows_ok rows" and "scope_file t = Some (table_text scope_header rows)"
    and "row_ok [NL] ([const_id, expression, bpf_file, status, candidates] @ [join '','' cs_indices])"
  shows "\<exists>t' rows'. add_scope_table_entry_multi_cs const_id val expression cs_indices bpf_file status
        candidates t = Inr t' \<and>
      scope_file t' = Some (table_text scope_header rows') \<and>
      body_rows (table_text scope_header rows') = rows' \<and>
      scope_dict rows' = dput const_id
        [py_str val, expression, join '','' cs_indices, [], bpf_file, status, candidates] (scope_dict rows)"
  using scope_entry_update [OF assms] by fastforce

theorem scope_entry_dict_update_witness:
  "\<exists>t' rows'. add_scope_table_entry_multi_cs ''1'' 5 ''IV = V'' [''1'', ''2''] ''f.o'' ''ready'' ''0x5''
      \<lparr>scope_file = Some (table_text scope_header [[''1'', ''a'', ''b'', ''c'', ''d'']]), cs_file = None,
       cs_raw_file = None, ss_file = None, ss_raw_file = None\<rparr> = Inr t' \<and>
    scope_file t' = Some (table_text scope_header rows') \<and>
    map_of (scope_dict rows') ''1'' =
      Some [py_str 5, ''IV = V'', ''1,2'', [], ''f.o'', ''ready'', ''0x5'']"
proof -
  let ?t = "\<lparr>scope_file = Some (table_text scope_header [[''1'', ''a'', ''b'', ''c'', ''d'']]), cs_file = None,
       cs_raw_file = None, ss_file = None, ss_raw_file = None\<rparr>"
  obtain t' rows' where "add_scope_table_entry_multi_cs ''1'' 5 ''IV = V'' [''1'', ''2''] ''f.o'' ''ready'' ''0x5'' ?t = Inr t'"
    "scope_file t' = Some (table_text scope_header rows')"
    "scope_dict rows' = dput ''1'' [py_str 5, ''IV = V'', join '','' [''1'', ''2''], [], ''f.o'', ''ready'', ''0x5'']
       (scope_dict [[''1'', ''a'', ''b'', ''c'', ''d'']])"
    using scope_entry_dict_update [of "[[''1'', ''a'', ''b'', ''c'', ''d'']]" ?t
      "''1''" "''IV = V''" "''f.o''" "''ready''" "''0x5''" "[''1'', ''2'']" 5]
    by (auto simp: scope_rows_ok_def row_ok_def field_ok_def is_newline_def)
  then show ?thesis by (intro exI [of _ t'] exI [of _ rows']) simp
qed

section \<open>SS indices\<close>

text \<open>
  C38: after the SS index of a ConstID is updated, every scope row of that ConstID holds an
  index under which the SS table has exactly the ConstID's ranges; the other columns and the
  other rows stay as they are.
\<close>

theorem ss_index_resolves:
  assumes "index_wf ss_header (ss_file t)" and "field_ok [NL] (ranges_text ranges)"
    and "scope_rows_ok rows" and "scope_file t = Some (table_text scope_header rows)"
  shows "\<exists>t' i. update_scope_table_ss_index [(const_id, ranges)] t = Inr t' \<and>
    index_wf ss_header (ss_file t') \<and> (i, ranges_text ranges) \<in> set (index_entries (ss_file t')) \<and>
    scope_file t' = Some (table_text scope_header
      (map (\<lambda>row. if hd row = const_id then row[4 := py_str i] else row) rows))"
proof -
  obtain i f where g: "get_or_add_ss_index (ss_file t) (ranges_text ranges) = Inr (i, f)"
    and wf: "index_wf ss_header f" "(i, ranges_text ranges) \<in> set (index_entries f)"
    using ss_table.get_known [OF assms(1,2)] by blast
  let ?ind = "[(const_id, py_str i)]"
  have b: "body_rows (table_text scope_header rows) = rows"
    using scope_dict_table [OF assms(3,4)] assms(4) by (simp add: init_table_def)
  have m: "map (set_ss_index ?ind) rows = map (\<lambda>row. if hd row = const_id then row[4 := py_str i] else row) rows"
    using assms(3) by (auto simp: set_ss_index_def scope_rows_ok_def list_all_iff)
  have same: "map (\<lambda>row. if hd row = const_id then row[4 := py_str i] else row) rows = rows"
    if "\<not> list_ex (has_ss_index ?ind) rows"
  proof (rule map_idI)
    fix row assume "row \<in> set rows"
    with that assms(3) have "hd row \<noteq> const_id"
      by (auto simp: has_ss_index_def has_key_def list_ex_iff scope_rows_ok_def list_all_iff)
    then show "(if hd row = const_id then row[4 := py_str i] else row) = row" by simp
  qed
  show ?thesis
  proof (intro exI [of _ i] exI conjI)
    show "update_scope_table_ss_index [(const_id, ranges)] t = Inr (t\<lparr>ss_file := f,
        scope_file := Some (table_text scope_header
          (map (\<lambda>row. if hd row = const_id then row[4 := py_str i] else row) rows))\<rparr>)"
      using g b same assms(4)
      by (cases "list_ex (has_ss_index ?ind) rows")
        (simp_all add: update_scope_table_ss_index_def Let_def m del: map_eq_conv)
  qed (use wf in simp_all)
qed

theorem ss_index_resolves_witness:
  "\<exists>t' i. update_scope_table_ss_index [(''1'', [(''f'', ''0x0'', ''0x10'')])]
      \<lparr>scope_file = Some (table_text scope_header [[''1'', ''5'', ''IV = V'', ''1'', []]]), cs_file = None,
       cs_raw_file = None, ss_file = None, ss_raw_file = None\<rparr> = Inr t' \<and>
    (i, ''f,0x0,0x10'') \<in> set (index_entries (ss_file t'))"
  using ss_index_resolves [of "\<lparr>scope_file = Some (table_text scope_header [[''1'', ''5'', ''IV = V'', ''1'', []]]),
       cs_file = None, cs_raw_file = None, ss_file = None, ss_raw_file = None\<rparr>"
      "[(''f'', ''0x0'', ''0x10'')]" "[[''1'', ''5'', ''IV = V'', ''1'', []]]" "''1''"]
  by (auto simp: index_wf_def ranges_text_def scope_rows_ok_def row_ok_def field_ok_def is_newline_def)

end
