(* ===== verification/Table_Manager.thy ===== *)
theory Table_Manager
  imports Scope_Tables Py_Regex
begin

text \<open>
  The table manager, \<open>src/src/table.py\<close>: it reads the scope table with its CS and SS
  indices resolved, queries and deletes entries, and prints the tables. It writes with the
  default line terminator of \<open>csv.writer\<close>, CR LF.
\<close>

section \<open>Reading\<close>

definition index_map :: "string list list \<Rightarrow> (int, string) dict" where
  "index_map rows = foldl (\<lambda>m row. if length row \<ge> 2
       then (case py_int 10 (row ! 0) of Some i \<Rightarrow> dput i (row ! 1) m | None \<Rightarrow> m) else m) [] rows"

definition read_cs_table :: "tables \<Rightarrow> (int, string) dict" where
  "read_cs_table t = (case cs_file t of None \<Rightarrow> [] | Some text \<Rightarrow> index_map (after_header text))"

definition read_ss_table :: "tables \<Rightarrow> (int, string) dict" where
  "read_ss_table t = (case ss_file t of None \<Rightarrow> [] | Some text \<Rightarrow> index_map (after_header text))"

record scope_entry =
  e_const_id :: string
  e_val :: string
  e_expression :: string
  e_cs_index :: string
  e_ss_index :: string
  e_cs :: string
  e_ss :: string
  e_bpf_file :: string
  e_status :: string
  e_candidates :: string

text \<open>The content of an index column; \<open>label\<close> is \<open>CS\<close> or \<open>SS\<close>.\<close>

definition resolve_index :: "string \<Rightarrow> (int, string) dict \<Rightarrow> string \<Rightarrow> string" where
  "resolve_index label m index =
     (if index = [] then []
      else case py_int 10 index of
        Some i \<Rightarrow> dget m i (''['' @ label @ ''#'' @ py_str i @ '' not found]'')
      | None \<Rightarrow> ''[Invalid '' @ label @ '' index: '' @ index @ '']'')"

definition entry_of_row :: "(int, string) dict \<Rightarrow> (int, string) dict \<Rightarrow> string list \<Rightarrow> scope_entry" where
  "entry_of_row cs_map ss_map row =
     (let col = (\<lambda>i. if i < length row then py_strip (row ! i) else []) in
      \<lparr>e_const_id = col 0, e_val = col 1, e_expression = col 2, e_cs_index = col 3, e_ss_index = col 4,
       e_cs = resolve_index ''CS'' cs_map (col 3), e_ss = resolve_index ''SS'' ss_map (col 4),
       e_bpf_file = col 5, e_status = col 6, e_candidates = col 7\<rparr>)"

definition read_scope_table :: "tables \<Rightarrow> scope_entry list" where
  "read_scope_table t = (case scope_file t of
     None \<Rightarrow> []
   | Some text \<Rightarrow> map (entry_of_row (read_cs_table t) (read_ss_table t))
       (filter (\<lambda>row. 7 \<le> length row) (after_header text)))"

section \<open>Writing, querying, deleting\<close>

definition row_of_entry :: "scope_entry \<Rightarrow> string list" where
  "row_of_entry e = [e_const_id e, e_val e, e_expression e, e_cs_index e, e_ss_index e, e_bpf_file e,
     e_status e, e_candidates e]"

definition crlf :: string where
  "crlf = [CR, NL]"

definition write_scope_table :: "scope_entry list \<Rightarrow> tables \<Rightarrow> tables" where
  "write_scope_table entries t =
     t\<lparr>scope_file := Some (csv_text crlf (scope_header # map row_of_entry entries))\<rparr>"

text \<open>A filter is \<open>None\<close> or empty when it is not given.\<close>

type_synonym selector = "string option \<times> string option \<times> string option"

definition given :: "string option \<Rightarrow> bool" where
  "given f \<longleftrightarrow> f \<noteq> None \<and> f \<noteq> Some []"

definition differs_from :: "string option \<Rightarrow> string \<Rightarrow> bool" where
  "differs_from f x \<longleftrightarrow> given f \<and> f \<noteq> Some x"

fun selects :: "selector \<Rightarrow> scope_entry \<Rightarrow> bool" where
  "selects (const_id, val, status) e \<longleftrightarrow> \<not> differs_from const_id (e_const_id e) \<and>
     \<not> differs_from val (e_val e) \<and> \<not> differs_from status (e_status e)"

definition query_entries :: "selector \<Rightarrow> tables \<Rightarrow> scope_entry list" where
  "query_entries sel t = filter (selects sel) (read_scope_table t)"

text \<open>\<open>should_delete\<close>: some filter matches, and none fails.\<close>

definition matches_one :: "string option \<Rightarrow> string \<Rightarrow> bool" where
  "matches_one f x \<longleftrightarrow> given f \<and> f = Some x"

fun should_delete :: "selector \<Rightarrow> scope_entry \<Rightarrow> bool" where
  "should_delete (const_id, val, status) e \<longleftrightarrow>
     (matches_one const_id (e_const_id e) \<or> matches_one val (e_val e) \<or> matches_one status (e_status e)) \<and>
     \<not> differs_from const_id (e_const_id e) \<and> \<not> differs_from val (e_val e) \<and>
     \<not> differs_from status (e_status e)"

definition cleared :: "string list \<Rightarrow> table_file \<Rightarrow> table_file" where
  "cleared header f = map_option (\<lambda>_. csv_text crlf [header]) f"

definition delete_entries :: "selector \<Rightarrow> bool \<Rightarrow> tables \<Rightarrow> nat \<times> tables" where
  "delete_entries sel delete_all t =
     (if scope_file t = None then (0, t)
      else let entries = read_scope_table t in
        if delete_all then
          (let t = (if length entries > 0 then write_scope_table [] t else t) in
           (length entries, t\<lparr>cs_file := cleared cs_header (cs_file t), ss_file := cleared ss_header (ss_file t),
              cs_raw_file := cleared raw_header (cs_raw_file t),
              ss_raw_file := cleared raw_header (ss_raw_file t)\<rparr>))
        else (let to_keep = filter (\<lambda>e. \<not> should_delete sel e) entries;
                  deleted_count = length (filter (should_delete sel) entries)
              in (deleted_count, if deleted_count > 0 then write_scope_table to_keep t else t)))"

text \<open>
  The \<open>delete\<close> command asks before deleting everything; the answer is what
  \<open>input\<close> returns.
\<close>

definition delete_command :: "selector \<Rightarrow> bool \<Rightarrow> bool \<Rightarrow> string \<Rightarrow> tables \<Rightarrow> (nat \<times> tables) res" where
  "delete_command sel delete_all yes answer t =
     (if delete_all \<and> \<not> yes \<and> py_lower answer \<noteq> ''yes'' then Inl (SystemExit 0)
      else Inr (delete_entries sel delete_all t))"

definition raw_entries :: "tables \<Rightarrow> scope_entry list" where
  "raw_entries t = (case scope_file t of
     None \<Rightarrow> []
   | Some text \<Rightarrow> map (\<lambda>row. (entry_of_row [] [] row)\<lparr>e_cs := [], e_ss := []\<rparr>)
       (filter (\<lambda>row. 7 \<le> length row) (after_header text)))"

definition query_command :: "selector \<Rightarrow> tables \<Rightarrow> scope_entry list" where
  "query_command sel t = filter (selects sel) (raw_entries t)"

section \<open>Properties\<close>

lemma py_digits_chars: "py_digits b acc s = Some n \<Longrightarrow> c \<in> set s \<Longrightarrow> c = CHR ''_'' \<or> dig b c \<noteq> None"
  by (induction b acc s arbitrary: n rule: py_digits.induct) (auto split: if_splits list.splits option.splits)

lemma dig_comma: "dig b CHR '','' = None"
  by (simp add: dig_def dig_val_def)

lemma py_int_comma:
  assumes "CHR '','' \<in> set (py_strip s)"
  shows "py_int 10 s = None"
proof -
  have n: "py_nat 10 u = None" if "CHR '','' \<in> set u" for u
  proof (cases "py_nat 10 u")
    case (Some n)
    then have "py_digits 10 0 u = Some n" by (auto simp: py_nat_def split: list.splits if_splits)
    with that py_digits_chars dig_comma show ?thesis by fastforce
  qed
  have "CHR '','' \<in> set (drop 1 (py_strip s))" if "starts_with ''-'' (py_strip s) \<or> starts_with ''+'' (py_strip s)"
    using that assms by (cases "py_strip s") auto
  with n assms show ?thesis by (simp add: py_int_def Let_def)
qed

lemma strip_no_space: "(\<And>c. c \<in> set s \<Longrightarrow> \<not> is_space c) \<Longrightarrow> py_strip s = s"
  by (rule strip_id)

lemma set_join: "c \<in> set (join sep xs) \<Longrightarrow> c \<in> set sep \<or> (\<exists>x \<in> set xs. c \<in> set x)"
  by (induction xs rule: induct_list012) auto

lemma py_str_no_space: "c \<in> set (py_str n) \<Longrightarrow> \<not> is_space c"
  by (auto simp: py_str_def is_space_def split: if_splits dest: digs_not_space)

text \<open>
  A scope entry with two or more code sections, as the code generator writes it, is
  read back without its CS content: the list of indices is reported as an invalid index.
\<close>

theorem multi_cs_unresolved:
  assumes "7 \<le> length row" and "row ! 3 = join '','' (map py_str (i # j # is))"
  shows "e_cs (entry_of_row cs_map ss_map row) =
    ''[Invalid CS index: '' @ join '','' (map py_str (i # j # is)) @ '']''"
proof -
  let ?s = "join '','' (map py_str (i # j # is))"
  have strip: "py_strip ?s = ?s"
    using py_str_no_space by (intro strip_no_space) (fastforce dest: set_join simp: is_space_def)
  have "CHR '','' \<in> set ?s" by simp
  then have "py_int 10 ?s = None" using strip by (intro py_int_comma) simp
  moreover have "?s \<noteq> []" by simp
  ultimately show ?thesis
    using assms strip by (simp add: entry_of_row_def resolve_index_def)
qed

theorem multi_cs_unresolved_witness:
  "e_cs (entry_of_row [(1, ''a''), (2, ''b'')] [] [''1'', ''5'', ''IV = V'', ''1,2'', [], [], []]) =
     ''[Invalid CS index: 1,2]''"
proof -
  have "join '','' (map py_str [1, 2]) = ''1,2''" by code_simp
  then show ?thesis
    using multi_cs_unresolved [of "[''1'', ''5'', ''IV = V'', ''1,2'', [], [], []]" 1 2 "[]"] by simp
qed

subsection \<open>Deleting\<close>

lemma dropWhile_idem: "dropWhile P (dropWhile P xs) = dropWhile P xs"
  by (simp add: dropWhile_eq_self_iff)

lemma strip_idem [simp]: "py_strip (py_strip s) = py_strip s"
proof -
  let ?u = "dropWhile is_space s"
  let ?v = "rev (dropWhile is_space (rev ?u))"
  have v: "py_strip s = ?v" by (simp add: py_strip_def lstrip_by_def rstrip_by_def)
  have "dropWhile is_space ?v = ?v"
  proof (cases "?v = []")
    case False
    obtain w where "rev ?u = w @ dropWhile is_space (rev ?u)" by (metis takeWhile_dropWhile_id)
    then have "?u = ?v @ rev w" by (metis rev_append rev_rev_ident)
    with False have "hd ?v = hd ?u" "?u \<noteq> []" by (metis hd_append2, metis append_is_Nil_conv)
    then show ?thesis using False hd_dropWhile [of is_space s] by (simp add: dropWhile_eq_self_iff)
  qed (metis dropWhile.simps(1))
  moreover have "dropWhile is_space (rev ?v) = rev ?v" by (simp add: dropWhile_idem)
  ultimately show ?thesis unfolding v by (simp add: py_strip_def lstrip_by_def rstrip_by_def)
qed

lemma strip_Nil [simp]: "py_strip [] = []"
  by (simp add: py_strip_def lstrip_by_def rstrip_by_def)

lemma field_ok_crlf [simp]: "field_ok crlf f"
  by (auto simp: field_ok_def crlf_def is_newline_def list_all_iff)

lemma crlf_terminator: "crlf \<in> set terminators"
  by (simp add: crlf_def terminators_def)

lemma after_header_crlf: "after_header (csv_text crlf (h # rows)) = rows"
proof -
  have "list_all (row_ok crlf) (h # rows)" by (auto simp: row_ok_def list_all_iff)
  then have "csv_rows (csv_text crlf (h # rows)) = Inr (h # rows)"
    by (rule csv_text_back [OF crlf_terminator])
  then show ?thesis by (simp add: after_header_def table_rows_def)
qed

lemma scope_write_other [simp]:
  "read_cs_table (write_scope_table es t) = read_cs_table t"
  "read_ss_table (write_scope_table es t) = read_ss_table t"
  by (simp_all add: read_cs_table_def read_ss_table_def write_scope_table_def)

lemma entry_row_entry:
  "entry_of_row cs ss (row_of_entry (entry_of_row cs ss row)) = entry_of_row cs ss row"
  by (simp add: entry_of_row_def row_of_entry_def Let_def)

lemma read_write_scope:
  assumes "set es \<subseteq> set (read_scope_table t)"
  shows "read_scope_table (write_scope_table es t) = es"
proof -
  have "entry_of_row (read_cs_table t) (read_ss_table t) (row_of_entry e) = e" if "e \<in> set es" for e
    using that assms entry_row_entry by (fastforce simp: read_scope_table_def split: option.splits)
  moreover have "7 \<le> length (row_of_entry e)" for e by (simp add: row_of_entry_def)
  moreover have "scope_file (write_scope_table es t) = Some (csv_text crlf (scope_header # map row_of_entry es))"
    by (simp add: write_scope_table_def)
  ultimately show ?thesis
    by (simp add: read_scope_table_def after_header_crlf map_idI comp_def)
qed

lemma should_delete_selects:
  "given const_id \<or> given val \<or> given status \<Longrightarrow>
   should_delete (const_id, val, status) e \<longleftrightarrow> selects (const_id, val, status) e"
  by (auto simp: matches_one_def differs_from_def)

text \<open>
  C39: with at least one filter, deleting removes exactly the entries a query with the same
  filters returns, reports their number, and keeps the others as they read before.
\<close>

theorem delete_entries_exact:
  assumes "scope_file t \<noteq> None" and "given const_id \<or> given val \<or> given status"
  shows "case delete_entries (const_id, val, status) False t of (n, t') \<Rightarrow>
    n = length (query_entries (const_id, val, status) t) \<and>
    read_scope_table t' = filter (\<lambda>e. \<not> selects (const_id, val, status) e) (read_scope_table t) \<and>
    query_entries (const_id, val, status) t' = []"
proof -
  let ?sel = "(const_id, val, status)"
  let ?keep = "filter (\<lambda>e. \<not> selects ?sel e) (read_scope_table t)"
  have "should_delete ?sel = selects ?sel" using should_delete_selects [OF assms(2)] by blast
  then have d: "delete_entries ?sel False t = (length (query_entries ?sel t),
      if length (query_entries ?sel t) > 0 then write_scope_table ?keep t else t)"
    using assms(1) by (simp add: delete_entries_def query_entries_def Let_def del: selects.simps should_delete.simps)
  have r: "read_scope_table (snd (delete_entries ?sel False t)) = ?keep"
  proof (cases "length (query_entries ?sel t) > 0")
    case True
    then show ?thesis using read_write_scope [of ?keep t] by (simp add: d del: selects.simps)
  next
    case False
    then have "filter (selects ?sel) (read_scope_table t) = []" by (simp add: query_entries_def)
    then have "?keep = read_scope_table t" by (metis (mono_tags, lifting) filter_True filter_empty_conv)
    with False show ?thesis by (simp add: d del: selects.simps)
  qed
  then have "query_entries ?sel (snd (delete_entries ?sel False t)) = []"
    unfolding query_entries_def r by (simp add: filter_empty_conv del: selects.simps)
  with r d show ?thesis by (simp add: case_prod_beta del: selects.simps)
qed

theorem delete_entries_exact_witness:
  "query_entries (Some ''1'', None, None) (snd (delete_entries (Some ''1'', None, None) False
     \<lparr>scope_file = Some (table_text scope_header [[''1'', ''5'', ''IV = V'', ''1'', ''1'', ''f'', ''ready'', '''']]),
      cs_file = None, cs_raw_file = None, ss_file = None, ss_raw_file = None\<rparr>)) = []"
  using delete_entries_exact [of "\<lparr>scope_file = Some (table_text scope_header
      [[''1'', ''5'', ''IV = V'', ''1'', ''1'', ''f'', ''ready'', '''']]),
      cs_file = None, cs_raw_file = None, ss_file = None, ss_raw_file = None\<rparr>" "Some ''1''" None None]
  by (auto simp: given_def split: prod.splits)

text \<open>
  Deleting everything leaves no entry in any table, provided the scope table exists;
  when it does not, nothing is changed.
\<close>

theorem delete_all_clears:
  "(case delete_entries sel True t of (n, t') \<Rightarrow>
     if scope_file t = None then n = 0 \<and> t' = t
     else n = length (read_scope_table t) \<and> read_scope_table t' = [] \<and> read_cs_table t' = [] \<and>
       read_ss_table t' = [] \<and>
       map_option after_header (cs_raw_file t') \<in> {None, Some []} \<and>
       map_option after_header (ss_raw_file t') \<in> {None, Some []})"
proof -
  have c: "cleared h f = Some x \<Longrightarrow> after_header x = []" for h f x
    using after_header_crlf [of h "[]"] by (auto simp: cleared_def)
  have e: "read_scope_table (write_scope_table [] t) = []" by (rule read_write_scope) simp
  show ?thesis
    using c e by (auto simp: delete_entries_def Let_def read_cs_table_def read_ss_table_def index_map_def
        split: option.splits)
       (auto simp: read_scope_table_def split: option.splits)
qed

end
