(* ===== verification/Table_Print.thy ===== *)
theory Table_Print
  imports Table_Manager
begin

text \<open>
  What the table manager prints (\<open>src/src/table.py\<close>). Output text is a list of Unicode
  code points, because of the box-drawing characters; a line is a list of spans, each with
  the colours it is wrapped in. The width of a line leaves the escape sequences out, as a
  terminal does.
\<close>

section \<open>Coloured text\<close>

type_synonym ustring = "nat list"

datatype colour = Bold | Dim | Red | Green

type_synonym uspan = "colour option \<times> ustring"

type_synonym uline = "uspan list"

definition u :: "string \<Rightarrow> ustring" where
  "u s = map of_char s"

fun colour_code :: "colour \<Rightarrow> string" where
  "colour_code Bold = CHR 0x1B # ''[1m''"
| "colour_code Dim = CHR 0x1B # ''[2m''"
| "colour_code Red = CHR 0x1B # ''[31m''"
| "colour_code Green = CHR 0x1B # ''[32m''"

definition reset_code :: string where
  "reset_code = CHR 0x1B # ''[0m''"

text \<open>\<open>colorize(text, colour)\<close>, and plain text.\<close>

definition in_colour :: "colour \<Rightarrow> ustring \<Rightarrow> uspan" where
  "in_colour c t = (Some c, t)"

definition plain :: "ustring \<Rightarrow> uspan" where
  "plain t = (None, t)"

definition render_span :: "uspan \<Rightarrow> ustring" where
  "render_span s = (case fst s of None \<Rightarrow> snd s
     | Some c \<Rightarrow> u (colour_code c) @ snd s @ u reset_code)"

definition render :: "uline \<Rightarrow> ustring" where
  "render l = concat (map render_span l)"

definition line_width :: "uline \<Rightarrow> nat" where
  "line_width l = sum_list (map (\<lambda>s. length (snd s)) l)"

definition TL :: nat where "TL = 0x250C"
definition TR :: nat where "TR = 0x2510"
definition BL :: nat where "BL = 0x2514"
definition BR :: nat where "BR = 0x2518"
definition HH :: nat where "HH = 0x2500"
definition VV :: nat where "VV = 0x2502"
definition LT :: nat where "LT = 0x251C"
definition RT :: nat where "RT = 0x2524"
definition TT :: nat where "TT = 0x252C"

text \<open>\<open>str.center\<close>, \<open>str.ljust\<close>, \<open>str.rjust\<close> and \<open>sep.join\<close>.\<close>

definition blanks :: "nat \<Rightarrow> ustring" where
  "blanks n = replicate n 32"

definition center :: "nat \<Rightarrow> ustring \<Rightarrow> ustring" where
  "center w s = (let pad = w - length s;
       left = pad div 2 + (if odd pad \<and> odd w then 1 else 0)
     in blanks left @ s @ blanks (pad - left))"

definition ljust :: "nat \<Rightarrow> ustring \<Rightarrow> ustring" where
  "ljust w s = s @ blanks (w - length s)"

definition rjust :: "nat \<Rightarrow> ustring \<Rightarrow> ustring" where
  "rjust w s = blanks (w - length s) @ s"

fun ujoin :: "'a list \<Rightarrow> 'a list list \<Rightarrow> 'a list" where
  "ujoin sep [] = []"
| "ujoin sep [x] = x"
| "ujoin sep (x # y # ys) = x @ sep @ ujoin sep (y # ys)"

section \<open>The scope table\<close>

definition columns :: "(string \<times> (scope_entry \<Rightarrow> string) \<times> nat) list" where
  "columns = [(''ID'', e_const_id, 4), (''Val'', e_val, 6), (''Expression'', e_expression, 20),
     (''CS'', e_cs_index, 12), (''SS'', e_ss_index, 4), (''BPF File'', e_bpf_file, 28),
     (''Status'', e_status, 10)]"

definition total_inner :: nat where
  "total_inner = sum_list (map (\<lambda>(l, k, w). w) columns) + (length columns - 1) * 3"

text \<open>One cell; the status decides on \<open>val\<close> after it has been truncated.\<close>

definition cell :: "scope_entry \<Rightarrow> string \<times> (scope_entry \<Rightarrow> string) \<times> nat \<Rightarrow> uspan" where
  "cell e c = (case c of (label, key, w) \<Rightarrow>
     let val = (if length (key e) > w then take (w - 2) (key e) @ ''..'' else key e) in
     if label = ''Status'' then
       (if py_lower val = ''active'' then in_colour Green (center w (u val))
        else if py_lower val \<in> {''error'', ''failed''} then in_colour Red (center w (u val))
        else plain (center w (u val)))
     else if label = ''ID'' then in_colour Bold (center w (u val))
     else if label \<in> {''BPF File'', ''Expression''} then plain (ljust w (u val))
     else plain (center w (u val)))"

definition column_sep :: uline where
  "column_sep = [in_colour Dim (blanks 1 @ [VV] @ blanks 1)]"

definition framed :: "uspan list \<Rightarrow> uline" where
  "framed cells = [in_colour Dim ([VV] @ blanks 1)] @ ujoin column_sep (map (\<lambda>c. [c]) cells)
     @ [in_colour Dim (blanks 1 @ [VV])]"

definition scope_table_lines :: "scope_entry list \<Rightarrow> uline list" where
  "scope_table_lines entries =
     (if entries = [] then [[in_colour Dim (u ''  No entries found.'')]]
      else [[in_colour Dim ([TL] @ replicate (total_inner + 2) HH @ [TR])],
            framed (map (\<lambda>(label, key, w). in_colour Bold (center w (u label))) columns),
            [in_colour Dim ([LT, HH] @ ujoin [HH, TT, HH] (map (\<lambda>(l, k, w). replicate w HH) columns)
               @ [HH, RT])]]
         @ map (\<lambda>e. framed (map (cell e) columns)) entries
         @ [[in_colour Dim ([BL] @ replicate (total_inner + 2) HH @ [BR])]])"

section \<open>CS and SS tables\<close>

definition rx_cs_insn :: rx where
  "rx_cs_insn = seqs [Bol, Grp 1 (Many 1 is_hex), lit '':'', Many 1 is_space,
     Grp 2 (seqs [Rep 0 (seqs [Cls is_hex, Cls is_hex, lit '' '']), Cls is_hex, Cls is_hex]),
     Many 1 is_space, Grp 3 (Many 1 non_space), Many 0 is_space, Grp 4 (Many 0 dot), Eol]"

definition entry_prefix :: uspan where
  "entry_prefix = in_colour Dim (blanks 2 @ [VV] @ blanks 2)"

definition entry_top :: "string \<Rightarrow> uline" where
  "entry_top label = [in_colour Dim (blanks 2 @ [0x256D, HH] @ blanks 1), in_colour Bold (u label),
     in_colour Dim (blanks 1 @ [HH] @ replicate 50 HH)]"

definition entry_bottom :: uline where
  "entry_bottom = [in_colour Dim (blanks 2 @ [0x2570] @ replicate 60 HH)]"

text \<open>
  \<open>{colorize(bytes_hex, DIM):24}\<close> pads the text with its escape sequences, eight
  characters.
\<close>

definition cs_insn_line :: "caps \<Rightarrow> uline" where
  "cs_insn_line g =
     (let bytes_hex = py_strip (group g 2) in
      [entry_prefix, plain (rjust 10 (u (''0x'' @ group g 1)) @ blanks 1),
       in_colour Dim (u bytes_hex), plain (blanks (24 - (length bytes_hex + 8)) @ blanks 1),
       plain (ljust 8 (u (group g 3)) @ blanks 1 @ u (group g 4))])"

definition cs_inst_lines :: "string \<Rightarrow> uline list" where
  "cs_inst_lines inst = (case re_match rx_cs_insn inst of
     Some (g, _) \<Rightarrow> [cs_insn_line g]
   | None \<Rightarrow> (case split_on CHR '','' inst of
       func_name # addr # start_off # end_off # _ \<Rightarrow>
         [[entry_prefix, in_colour Dim (u ''func:''), plain (blanks 1), in_colour Bold (u func_name)],
          [entry_prefix, in_colour Dim (u ''addr:''), plain (u ('' '' @ addr @ ''  '')),
           in_colour Dim (u ''range:''), plain (u ('' ['' @ start_off @ '' -> '' @ end_off @ '']''))]]
     | _ \<Rightarrow> [[entry_prefix, plain (u inst)]]))"

definition stripped_parts :: "string \<Rightarrow> string list" where
  "stripped_parts content = map py_strip (filter (\<lambda>p. py_strip p \<noteq> []) (split_on CHR '';'' content))"

definition cs_entry_lines :: "int \<Rightarrow> string \<Rightarrow> uline list" where
  "cs_entry_lines index content =
     (let instructions = stripped_parts content in
      [entry_top (''CS['' @ py_str index @ '']'')]
      @ (if instructions \<noteq> [] then concat (map cs_inst_lines instructions)
         else [[entry_prefix, plain (u content)]])
      @ [entry_bottom])"

definition ss_range_line :: "string \<Rightarrow> uline" where
  "ss_range_line r = (case split_on CHR '','' r of
     func_name # soff # eoff # _ \<Rightarrow>
       [entry_prefix, in_colour Dim (u ''func:''), plain (blanks 1), in_colour Bold (u func_name),
        plain (blanks 2), in_colour Dim (u ''range:''), plain (u ('' ['' @ soff @ '' -> '' @ eoff @ '']''))]
   | _ \<Rightarrow> [entry_prefix, plain (u r)])"

definition ss_entry_lines :: "int \<Rightarrow> string \<Rightarrow> uline list" where
  "ss_entry_lines index content =
     (let ranges = stripped_parts content in
      [entry_top (''SS['' @ py_str index @ '']'')]
      @ (if ranges \<noteq> [] \<and> CHR '','' \<in> set (hd ranges) then map ss_range_line ranges
         else [[entry_prefix, plain (u (if length content \<le> 70 then content
                 else take 67 content @ ''...''))]])
      @ [entry_bottom])"

text \<open>All entries in the order of their indices, or the one asked for.\<close>

definition index_table_lines :: "string \<Rightarrow> (int \<Rightarrow> string \<Rightarrow> uline list) \<Rightarrow> (int, string) dict \<Rightarrow>
    int option \<Rightarrow> uline list" where
  "index_table_lines label entry_lines m single_index =
     (if m = [] then [[in_colour Dim (u ''  No entries found.'')]]
      else concat (map (\<lambda>i. case map_of m i of
             None \<Rightarrow> [[in_colour Red (u (''  '' @ label @ '' index '' @ py_str i @ '' not found.''))]]
           | Some content \<Rightarrow> entry_lines i content)
         (case single_index of Some i \<Rightarrow> [i] | None \<Rightarrow> sort (dkeys m))))"

definition cs_table_lines :: "(int, string) dict \<Rightarrow> int option \<Rightarrow> uline list" where
  "cs_table_lines m single_index = index_table_lines ''CS'' cs_entry_lines m single_index"

definition ss_table_lines :: "(int, string) dict \<Rightarrow> int option \<Rightarrow> uline list" where
  "ss_table_lines m single_index = index_table_lines ''SS'' ss_entry_lines m single_index"

section \<open>Section headers and commands\<close>

definition section_line :: "colour \<Rightarrow> string \<Rightarrow> nat \<Rightarrow> uline" where
  "section_line c t pad = [in_colour Dim (blanks 2 @ [0x2551] @ blanks 1), in_colour c (u t),
     plain (blanks pad), in_colour Dim [0x2551]]"

definition section_header_lines :: "string \<Rightarrow> string \<Rightarrow> nat \<Rightarrow> uline list" where
  "section_header_lines title path count =
     [[], [in_colour Dim (blanks 2 @ [0x2554] @ replicate 70 0x2550 @ [0x2557])],
      section_line Bold ('' '' @ title) (69 - length title - 1),
      [in_colour Dim (blanks 2 @ [0x255F] @ replicate 70 HH @ [0x2562])],
      section_line Dim ('' Path:   '' @ path) (69 - 9 - length path),
      section_line Dim ('' Count:  '' @ py_str (int count)) (69 - 9 - length (py_str (int count))),
      [in_colour Dim (blanks 2 @ [0x255A] @ replicate 70 0x2550 @ [0x255D])], []]"

definition scope_path :: string where "scope_path = ''/dev/shm/xkernel/scope_table''"
definition cs_path :: string where "cs_path = ''/dev/shm/xkernel/cs_table''"
definition ss_path :: string where "ss_path = ''/dev/shm/xkernel/ss_table''"

definition cs_command :: "int option \<Rightarrow> tables \<Rightarrow> uline list" where
  "cs_command index t = (let m = read_cs_table t in
     if index \<noteq> None then [[]] @ cs_table_lines m index @ [[]]
     else section_header_lines ''CRITICAL SPAN TABLE'' cs_path (length m) @ cs_table_lines m None @ [[]])"

definition ss_command :: "int option \<Rightarrow> tables \<Rightarrow> uline list" where
  "ss_command index t = (let m = read_ss_table t in
     if index \<noteq> None then [[]] @ ss_table_lines m index @ [[]]
     else section_header_lines ''SAFE SPAN TABLE'' ss_path (length m) @ ss_table_lines m None @ [[]])"

definition list_command :: "tables \<Rightarrow> uline list" where
  "list_command t =
     [[], [in_colour Dim (blanks 2 @ [0x2554] @ replicate 70 0x2550 @ [0x2557])],
      [in_colour Dim (blanks 2 @ [0x2551]), in_colour Bold (blanks 25 @ u ''XKERNEL TABLE MANAGER'' @ blanks 24),
       in_colour Dim [0x2551]],
      [in_colour Dim (blanks 2 @ [0x255A] @ replicate 70 0x2550 @ [0x255D])]]
     @ section_header_lines ''SCOPE TABLE'' scope_path (length (raw_entries t))
     @ scope_table_lines (raw_entries t)
     @ section_header_lines ''CRITICAL SPAN TABLE'' cs_path (length (read_cs_table t))
     @ cs_table_lines (read_cs_table t) None
     @ section_header_lines ''SAFE SPAN TABLE'' ss_path (length (read_ss_table t))
     @ ss_table_lines (read_ss_table t) None @ [[]]"

section \<open>The table is aligned\<close>

lemma blanks_length [simp]: "length (blanks n) = n"
  by (simp add: blanks_def)

lemma u_length [simp]: "length (u s) = length s"
  by (simp add: u_def)

lemma center_length: "length s \<le> w \<Longrightarrow> length (center w s) = w"
proof -
  assume s: "length s \<le> w"
  define pad where "pad = w - length s"
  have "pad div 2 + (if odd pad \<and> odd w then 1 else 0) \<le> pad" by (cases "odd pad") (auto elim: oddE)
  with s show ?thesis by (simp add: center_def Let_def pad_def)
qed

lemma ljust_length: "length s \<le> w \<Longrightarrow> length (ljust w s) = w"
  by (simp add: ljust_def)

lemma cell_width: "2 \<le> w \<Longrightarrow> length (snd (cell e (label, key, w))) = w"
proof -
  assume w: "2 \<le> w"
  define val where "val = (if length (key e) > w then take (w - 2) (key e) @ ''..'' else key e)"
  have "length val \<le> w" using w by (auto simp: val_def)
  then show ?thesis
    by (simp add: cell_def Let_def in_colour_def plain_def center_length ljust_length flip: val_def)
qed

text \<open>
  Every line of the printed scope table has the same width, 106 columns, whatever the
  entries hold: long cells are cut, short ones are padded.
\<close>

theorem scope_table_aligned:
  "entries = [] \<or> list_all (\<lambda>l. line_width l = 106) (scope_table_lines entries)"
proof -
  have "line_width (framed (map (cell e) columns)) = 106" for e
    by (simp add: line_width_def framed_def columns_def column_sep_def in_colour_def cell_width)
  moreover have "line_width (framed (map (\<lambda>(label, key, w). in_colour Bold (center w (u label))) columns)) = 106"
    by (simp add: line_width_def framed_def columns_def column_sep_def in_colour_def center_length)
  ultimately show ?thesis
    by (simp add: scope_table_lines_def list_all_iff line_width_def in_colour_def total_inner_def columns_def)
qed

text \<open>
  The bytes of a printed instruction are padded together with their escape sequences:
  the column after up to sixteen characters of bytes starts at one place, but it is sixteen
  columns wide, not the twenty-four of the format.
\<close>

theorem cs_bytes_column:
  "length (py_strip (group g 2)) \<le> 16 \<longleftrightarrow>
     length (snd (cs_insn_line g ! 2)) + length (snd (cs_insn_line g ! 3)) = 17"
  by (auto simp: cs_insn_line_def Let_def in_colour_def plain_def)

end
