(* ===== verification/BB_Files.thy ===== *)
theory BB_Files
  imports Sym_Exec "HOL-Library.Char_ord" "HOL-Library.List_Lexorder"
begin

text \<open>
  The readers of \<open>src/codegen.py\<close>: basic-block files (\<open>*_bb_v*.txt\<close>),
  result files (\<open>res_*.txt\<close>) and the test list \<open>testcases.sh\<close>. A file is the
  text that \<open>open(...)\<close> returns, or \<open>None\<close> when it does not exist.
\<close>

section \<open>Result files\<close>

definition rx_bb_header :: rx where
  "rx_bb_header = seqs [Bol, lit ''Basic Block:'', Many 1 is_space, lit ''lines'', Many 1 is_space,
     Grp 1 (Many 1 is_digit), lit ''-'', Grp 2 (Many 1 is_digit), Eol]"

definition rx_function :: rx where
  "rx_function = seqs [Bol, lit ''Function:'', Many 1 is_space, Grp 1 (Many 1 dot), Eol]"

text \<open>\<open>(?:\[\*\]\s*)?\<close> and the two patterns of an instruction line.\<close>

definition rx_opt_marker :: rx where
  "rx_opt_marker = Opt (seqs [lit ''[*]'', Many 0 is_space])"

definition rx_asm_line :: rx where
  "rx_asm_line = seqs [Bol, Many 0 is_space, rx_opt_marker, Many 1 is_hex, lit '':'']"

definition rx_continuation :: rx where
  "rx_continuation = seqs [Bol, Many 0 is_space, rx_opt_marker, Many 1 is_hex, lit '':'',
     Many 1 is_space, Many 1 (one_of ''0123456789abcdef ''), Many 0 is_space, Eol]"

type_synonym block = "string option \<times> string option \<times> string list"

definition bb_line :: "string \<Rightarrow> block \<Rightarrow> block" where
  "bb_line raw b = (case b of (function_name, lines_info, instructions) \<Rightarrow>
     let line = py_strip raw in
     if line = [] then b
     else if re_matches rx_bb_header line then (function_name, Some line, instructions)
     else case re_match rx_function line of
       Some (g, _) \<Rightarrow> (Some (group g 1), lines_info, instructions)
     | None \<Rightarrow>
         if re_matches rx_asm_line line \<and> \<not> re_matches rx_continuation line
         then (function_name, lines_info, instructions @ [line]) else b)"

definition parse_basic_block :: "string list \<Rightarrow> block" where
  "parse_basic_block lines = fold bb_line lines (None, None, [])"

text \<open>The blocks of a file: everything from one \<open>Basic Block:\<close> line to the next.\<close>

definition is_bb_start :: "string \<Rightarrow> bool" where
  "is_bb_start line \<longleftrightarrow> starts_with ''Basic Block:'' (py_strip line)"

fun split_blocks :: "string list \<Rightarrow> string list \<Rightarrow> string list list" where
  "split_blocks current [] = (if current \<noteq> [] then [current] else [])"
| "split_blocks current (line # lines) =
     (if is_bb_start line
      then (if current \<noteq> [] then [current] else []) @ split_blocks [line] lines
      else if current \<noteq> [] then split_blocks (current @ [line]) lines
      else split_blocks [] lines)"

fun block_expressions :: "sx \<Rightarrow> string list \<Rightarrow> snapshot list" where
  "block_expressions st [] = []"
| "block_expressions st (inst_line # rest) =
     (case parse_instruction (strip_marker inst_line) of
        None \<Rightarrow> block_expressions st rest
      | Some (address, mnemonic, operands) \<Rightarrow>
          (let st' = fst (execute_instruction st mnemonic operands)
           in (inst_line, address, sort_key fst (sx_state st'), sort_key fst (state_alt st'))
              # block_expressions st' rest))"

definition process_res_file :: "string \<Rightarrow> snapshot list" where
  "process_res_file content =
     concat (map (\<lambda>block_lines. block_expressions new_executor (snd (snd (parse_basic_block block_lines))))
       (split_blocks [] (split_on NL content)))"

section \<open>The test list\<close>

definition skip_line :: "string \<Rightarrow> bool" where
  "skip_line line \<longleftrightarrow> line = [] \<or> starts_with ''#'' line"

definition rx_values :: rx where
  "rx_values = seqs [Bol, Grp 1 (Many 1 is_digit), lit '','', Grp 2 (Many 1 is_digit), lit '','',
     Grp 3 (Many 1 is_digit), Eol]"

type_synonym value3 = "int \<times> int \<times> int"

definition three_values :: "string \<Rightarrow> value3 option" where
  "three_values line = (case re_match rx_values line of
     None \<Rightarrow> None
   | Some (g, _) \<Rightarrow>
       (case (py_int 10 (group g 1), py_int 10 (group g 2), py_int 10 (group g 3)) of
          (Some v1, Some v2, Some v3) \<Rightarrow> Some (v1, v2, v3)
        | _ \<Rightarrow> None))"

definition check_script :: string where
  "check_script = ''check_assembly_diff.py''"

fun source_values_from :: "nat \<Rightarrow> value3 option \<Rightarrow> nat \<Rightarrow> string list \<Rightarrow> (string, value3) dict \<Rightarrow>
    (string, value3) dict" where
  "source_values_from test_group current cmd_count [] acc = acc"
| "source_values_from test_group current cmd_count (raw # lines) acc =
     (let line = py_strip raw in
      if skip_line line then source_values_from test_group current cmd_count lines acc
      else if re_matches rx_values line then
        (case three_values line of
           Some vs \<Rightarrow> source_values_from test_group (Some vs) 0 lines acc
         | None \<Rightarrow> source_values_from test_group current cmd_count lines acc)
      else if contains check_script line then
        (if cmd_count + 1 = 2 \<and> current \<noteq> None
         then source_values_from (test_group + 1) current 0 lines
                (dput (py_str (int (test_group + 1))) (the current) acc)
         else source_values_from test_group current (cmd_count + 1) lines acc)
      else source_values_from test_group current cmd_count lines acc)"

definition extract_source_values :: "string option \<Rightarrow> (string, value3) dict" where
  "extract_source_values cmd_file = (case cmd_file of
     None \<Rightarrow> []
   | Some content \<Rightarrow> source_values_from 0 None 0 (readlines content) [])"

definition rx_file_arg :: rx where
  "rx_file_arg = seqs [lit ''-f'', Many 1 is_space, Grp 1 (Many 1 non_space)]"

definition rx_values0 :: rx where
  "rx_values0 = seqs [Bol, Many 1 is_digit, lit '','', Many 1 is_digit, lit '','', Many 1 is_digit, Eol]"

fun file_paths_from :: "nat \<Rightarrow> nat \<Rightarrow> string list \<Rightarrow> (string, string) dict \<Rightarrow> (string, string) dict" where
  "file_paths_from test_group cmd_count [] acc = acc"
| "file_paths_from test_group cmd_count (raw # lines) acc =
     (let line = py_strip raw in
      if skip_line line \<or> re_matches rx_values0 line then file_paths_from test_group cmd_count lines acc
      else if contains check_script line \<and> contains ''-f'' line then
        (case re_search rx_file_arg line of
           None \<Rightarrow> file_paths_from test_group cmd_count lines acc
         | Some g \<Rightarrow>
             if cmd_count + 1 = 1
             then file_paths_from test_group 1 lines (dput (py_str (int test_group)) (group g 1) acc)
             else if cmd_count + 1 = 2 then file_paths_from (test_group + 1) 0 lines acc
             else file_paths_from test_group (cmd_count + 1) lines acc)
      else file_paths_from test_group cmd_count lines acc)"

definition extract_file_paths :: "string option \<Rightarrow> (string, string) dict" where
  "extract_file_paths cmd_file = (case cmd_file of
     None \<Rightarrow> []
   | Some content \<Rightarrow> file_paths_from 1 0 (readlines content) [])"

section \<open>Basic-block files\<close>

subsection \<open>The function and its base address\<close>

definition rx_symbol_ref :: "string \<Rightarrow> rx" where
  "rx_symbol_ref function_name = seqs [Grp 1 (Many 1 is_hex), Many 1 is_space, lit ''<'',
     lit function_name, lit ''+0x'', Grp 2 (Many 1 is_hex), lit ''>'']"

definition symbol_ref :: "string \<Rightarrow> string \<Rightarrow> int option" where
  "symbol_ref function_name line = (case re_search (rx_symbol_ref function_name) line of
     None \<Rightarrow> None
   | Some g \<Rightarrow> (case (py_int 16 (group g 1), py_int 16 (group g 2)) of
       (Some addr, Some offset) \<Rightarrow> Some (addr - offset)
     | _ \<Rightarrow> None))"

fun first_some :: "('a \<Rightarrow> 'b option) \<Rightarrow> 'a list \<Rightarrow> 'b option" where
  "first_some f [] = None"
| "first_some f (x # xs) = (case f x of Some y \<Rightarrow> Some y | None \<Rightarrow> first_some f xs)"

definition extract_function_base_from_bb_file :: "string option \<Rightarrow> string \<Rightarrow> int option" where
  "extract_function_base_from_bb_file file function_name = (case file of
     None \<Rightarrow> None
   | Some content \<Rightarrow> first_some (symbol_ref function_name) (readlines content))"

definition function_of_line :: "string \<Rightarrow> string option" where
  "function_of_line stripped =
     (if starts_with ''Function:'' stripped
      then (case re_match rx_function stripped of Some (g, _) \<Rightarrow> Some (group g 1) | None \<Rightarrow> None)
      else None)"

definition get_function_name_from_bb_file :: "string option \<Rightarrow> string option" where
  "get_function_name_from_bb_file file = (case file of
     None \<Rightarrow> None
   | Some content \<Rightarrow> first_some (\<lambda>line. function_of_line (py_strip line)) (readlines content))"

subsection \<open>The blocks\<close>

record bb =
  function_name :: "string option"
  first_addr :: "string option"
  changed_addr :: "string option"
  kprobe_addr :: "string option"
  changed_instruction :: "string option"
  changed_instructions :: "string list"
  all_instructions :: "string list"
  immediate_value :: "int option"
  raw_lines :: "string list"
  candidate_addrs :: "string list option"
  first_addr_offset :: "int option"
  changed_addr_offset :: "int option"
  kprobe_addr_offset :: "int option"
  candidate_offsets :: "int list option"

definition empty_bb :: bb where
  "empty_bb = \<lparr>function_name = None, first_addr = None, changed_addr = None, kprobe_addr = None,
     changed_instruction = None, changed_instructions = [], all_instructions = [],
     immediate_value = None, raw_lines = [], candidate_addrs = None, first_addr_offset = None,
     changed_addr_offset = None, kprobe_addr_offset = None, candidate_offsets = None\<rparr>"

definition rx_bb_insn :: rx where
  "rx_bb_insn = seqs [Bol, Many 0 is_space, Opt (Grp 1 (lit ''[*]'')), Many 0 is_space,
     Grp 2 (Many 1 is_hex), lit '':'']"

definition rx_bytes_only :: rx where
  "rx_bytes_only = seqs [Bol, Many 1 is_space, Many 1 (one_of ''0123456789abcdef ''),
     Many 0 is_space, Eol]"

definition rx_target_reg :: rx where
  "rx_target_reg = seqs [lit ''%'', Grp 1 (Many 1 is_word), Many 0 is_space, Eol]"

definition is_boundary :: "string \<Rightarrow> bool" where
  "is_boundary stripped \<longleftrightarrow> starts_with ''Basic Block:'' stripped \<or> starts_with ''Function:'' stripped"

text \<open>Addresses where a kprobe may go: up to and including the first reader of the target register.\<close>

fun candidates :: "string option \<Rightarrow> string list \<Rightarrow> string list" where
  "candidates family [] = []"
| "candidates family (line # lines) =
     (let next_stripped = py_strip line in
      if is_boundary next_stripped then []
      else case re_match rx_addr next_stripped of
        None \<Rightarrow> candidates family lines
      | Some (g, _) \<Rightarrow>
          group g 1 # (if (case family of None \<Rightarrow> False
              | Some fam \<Rightarrow> fam \<noteq> [] \<and> instruction_reads_register next_stripped fam)
            then [] else candidates family lines))"

definition note_changed :: "string \<Rightarrow> string \<Rightarrow> string list \<Rightarrow> bb \<Rightarrow> bb" where
  "note_changed stripped addr following b =
     (let family = (case re_search rx_target_reg stripped of
            None \<Rightarrow> None | Some g \<Rightarrow> Some (get_register_family (group g 1)));
          candidate_list = candidates family following
      in b\<lparr>changed_addr := Some addr, changed_instruction := Some stripped,
           immediate_value := (case extract_immediate_values stripped of
             [] \<Rightarrow> immediate_value b | v # _ \<Rightarrow> Some v),
           kprobe_addr := (case candidate_list of [] \<Rightarrow> kprobe_addr b | a # _ \<Rightarrow> Some a),
           candidate_addrs := (if candidate_list = [] then None else Some candidate_list)\<rparr>)"

definition bb_instruction :: "string \<Rightarrow> string list \<Rightarrow> bb \<Rightarrow> bb" where
  "bb_instruction stripped following b =
     (case re_match rx_bb_insn stripped of
        None \<Rightarrow> b
      | Some (g, rest) \<Rightarrow>
          if re_matches rx_bytes_only rest then b
          else let is_changed = has_key g 1;
                   addr = group g 2;
                   b = (if first_addr b = None then b\<lparr>first_addr := Some addr\<rparr> else b);
                   b = b\<lparr>all_instructions := all_instructions b @ [stripped]\<rparr>;
                   b = (if is_changed
                        then b\<lparr>changed_instructions := changed_instructions b @ [stripped]\<rparr> else b)
               in if is_changed \<and> changed_addr b = None
                  then note_changed stripped addr following b else b)"

definition bb_step :: "string \<Rightarrow> string list \<Rightarrow> bb \<Rightarrow> bb" where
  "bb_step line following b =
     (let stripped = py_strip line;
          b = b\<lparr>raw_lines := raw_lines b @ [line]\<rparr>
      in if starts_with ''Function:'' stripped
         then (case function_of_line stripped of
                 Some name \<Rightarrow> b\<lparr>function_name := Some name\<rparr> | None \<Rightarrow> b)
         else bb_instruction stripped following b)"

fun scan_blocks :: "bb option \<Rightarrow> string list \<Rightarrow> bb list" where
  "scan_blocks current [] = (case current of None \<Rightarrow> [] | Some b \<Rightarrow> [b])"
| "scan_blocks current (line # lines) =
     (if is_bb_start line
      then (case current of None \<Rightarrow> [] | Some b \<Rightarrow> [b]) @ scan_blocks (Some empty_bb) lines
      else case current of
        None \<Rightarrow> scan_blocks None lines
      | Some b \<Rightarrow> scan_blocks (Some (bb_step line lines b)) lines)"

definition hex_or_zero :: "string \<Rightarrow> int" where
  "hex_or_zero a = (case py_int 16 a of Some n \<Rightarrow> n | None \<Rightarrow> 0)"

definition add_offsets :: "string option \<Rightarrow> bb \<Rightarrow> bb" where
  "add_offsets file b =
     (case (function_name b, first_addr b, changed_addr b) of
        (Some name, Some first, Some changed) \<Rightarrow>
          if name = [] \<or> first = [] \<or> changed = [] then b
          else let func_base = (case extract_function_base_from_bb_file file name of
                     Some base \<Rightarrow> base | None \<Rightarrow> 0)
               in b\<lparr>first_addr_offset := Some (hex_or_zero first - func_base),
                    changed_addr_offset := Some (hex_or_zero changed - func_base),
                    kprobe_addr_offset := map_option (\<lambda>a. hex_or_zero a - func_base) (kprobe_addr b),
                    candidate_offsets :=
                      map_option (map (\<lambda>a. hex_or_zero a - func_base)) (candidate_addrs b)\<rparr>
      | _ \<Rightarrow> b)"

definition extract_all_basic_blocks_from_file :: "string option \<Rightarrow> bb list" where
  "extract_all_basic_blocks_from_file file = (case file of
     None \<Rightarrow> []
   | Some content \<Rightarrow> map (add_offsets file) (scan_blocks None (readlines content)))"

subsection \<open>The first changed instruction\<close>

definition rx_marked_addr :: rx where
  "rx_marked_addr = seqs [Bol, Many 0 is_space, lit ''[*]'', Many 0 is_space, Grp 1 (Many 1 is_hex),
     lit '':'']"

definition addr_text :: "string \<Rightarrow> string option" where
  "addr_text line = (case re_match rx_addr line of Some (g, _) \<Rightarrow> Some (group g 1) | None \<Rightarrow> None)"

fun info_from :: "string option \<Rightarrow> string option \<Rightarrow> string list \<Rightarrow>
    string option \<times> string option \<times> string option \<times> string option" where
  "info_from name first [] = (name, first, None, None)"
| "info_from name first (raw # lines) =
     (let line = py_strip raw;
          name = (case function_of_line line of Some n \<Rightarrow> Some n | None \<Rightarrow> name);
          first = (if first = None then addr_text line else first)
      in if contains ''[*]'' line then
           (case re_match rx_marked_addr line of
              Some (g, _) \<Rightarrow> (name, first, Some (group g 1), first_some (\<lambda>l. addr_text (py_strip l)) lines)
            | None \<Rightarrow> info_from name first lines)
         else info_from name first lines)"

definition extract_function_info_from_bb_file ::
    "string option \<Rightarrow> (string \<times> string \<times> string \<times> string) option" where
  "extract_function_info_from_bb_file file = (case file of
     None \<Rightarrow> None
   | Some content \<Rightarrow>
       (case info_from None None (readlines content) of
          (Some name, Some first, Some changed, Some kprobe) \<Rightarrow>
            Some (case extract_function_base_from_bb_file file name of
              None \<Rightarrow> (name, first, changed, kprobe)
            | Some func_base \<Rightarrow>
                (let conv = \<lambda>a. hex_of (hex_or_zero a - func_base)
                 in (name, conv first, conv changed, conv kprobe)))
        | _ \<Rightarrow> None))"

section \<open>The two readers agree\<close>

text \<open>What an instruction line looks like, for both readers.\<close>

definition insn_shape :: "string \<Rightarrow> string \<Rightarrow> bool" where
  "insn_shape s rest \<longleftrightarrow> (\<exists>w m w' h. s = w @ m @ w' @ h @ '':'' @ rest \<and> list_all is_space w \<and>
     (m = [] \<or> m = ''[*]'') \<and> list_all is_space w' \<and> h \<noteq> [] \<and> list_all is_hex h)"

lemma mrel_ManyI: "list_all P u \<Longrightarrow> n \<le> length u \<Longrightarrow> mrel (Many n P) p (u @ v) (prev_after p u) v"
  by (auto simp: mrel_Many)

lemma bb_insn_shape: "mrel rx_bb_insn None s p rest \<longleftrightarrow> insn_shape s rest \<and> p = Some (CHR '':'')"
proof
  assume "mrel rx_bb_insn None s p rest"
  then show "insn_shape s rest \<and> p = Some (CHR '':'')"
    unfolding rx_bb_insn_def insn_shape_def seqs.simps mrel_iffs
    by (auto simp: prev_after_def Suc_le_eq) (metis append_Nil append_Cons)+
next
  assume "insn_shape s rest \<and> p = Some (CHR '':'')"
  then obtain w m w' h where s: "s = w @ m @ w' @ h @ '':'' @ rest" "list_all is_space w"
    "m = [] \<or> m = ''[*]''" "list_all is_space w'" "h \<noteq> []" "list_all is_hex h" "p = Some (CHR '':'')"
    unfolding insn_shape_def by blast
  have mark: "mrel (Opt (Grp 1 (lit ''[*]''))) q (m @ t) (prev_after q m) t" for q t
    using s(3) by (auto simp: mrel_iffs)
  have colon: "mrel (lit '':'') q ('':'' @ rest) (Some (CHR '':'')) rest" for q
    by (simp add: mrel_iffs)
  show "mrel rx_bb_insn None s p rest"
    unfolding rx_bb_insn_def seqs.simps s(1,7)
    by (intro mrel.seq [OF mrel.bol] mrel.seq [OF mrel_ManyI] mrel.seq [OF mark]
        mrel.seq [OF mrel.grp [OF mrel_ManyI]] colon) (use s in \<open>simp_all add: Suc_le_eq\<close>)
qed

text \<open>The marker of \<open>parse_basic_block\<close> takes its trailing blanks itself.\<close>

lemma asm_line_shape: "(\<exists>p. mrel rx_asm_line None s p rest) \<longleftrightarrow> insn_shape s rest"
proof
  assume "\<exists>p. mrel rx_asm_line None s p rest"
  then show "insn_shape s rest"
    unfolding rx_asm_line_def rx_opt_marker_def insn_shape_def seqs.simps mrel_iffs
    apply (auto simp: prev_after_def Suc_le_eq)
    subgoal for u h by (rule exI [of _ u], rule exI [of _ "[]"], rule exI [of _ "[]"], rule exI [of _ h]) simp
    subgoal for u h w'
      by (rule exI [of _ u], rule exI [of _ "''[*]''"], rule exI [of _ w'], rule exI [of _ h]) simp
    done
next
  assume "insn_shape s rest"
  then obtain w m w' h where s: "s = w @ m @ w' @ h @ '':'' @ rest" "list_all is_space w"
    "m = [] \<or> m = ''[*]''" "list_all is_space w'" "h \<noteq> []" "list_all is_hex h"
    unfolding insn_shape_def by blast
  have colon: "mrel (lit '':'') q ('':'' @ rest) (Some (CHR '':'')) rest" for q
    by (simp add: mrel_iffs)
  from s(3) show "\<exists>p. mrel rx_asm_line None s p rest"
  proof
    assume m: "m = []"
    have sp: "list_all is_space (w @ w')" using s by simp
    have "mrel rx_asm_line None ((w @ w') @ h @ '':'' @ rest) (Some (CHR '':'')) rest"
      unfolding rx_asm_line_def rx_opt_marker_def seqs.simps
      by (intro mrel.seq [OF mrel.bol] mrel.seq [OF mrel_ManyI [OF sp]] mrel.seq [OF mrel.opt_none]
          mrel.seq [OF mrel_ManyI] colon) (use s in \<open>simp_all add: Suc_le_eq\<close>)
    with s(1) m show ?thesis by auto
  next
    assume m: "m = ''[*]''"
    have mark: "mrel (Opt (Seq (lit ''[*]'') (Many 0 is_space))) q (''[*]'' @ w' @ t)
        (prev_after q (''[*]'' @ w')) t" for q t
      by (rule mrel.opt_some, rule mrel.seq, unfold mrel_lit, rule conjI, rule refl, rule refl)
        (use mrel_ManyI [OF s(4), of 0 "prev_after q ''[*]''" t] in simp)
    have "mrel rx_asm_line None (w @ (''[*]'' @ w' @ h @ '':'' @ rest)) (Some (CHR '':'')) rest"
      unfolding rx_asm_line_def rx_opt_marker_def seqs.simps
      by (intro mrel.seq [OF mrel.bol] mrel.seq [OF mrel_ManyI] mrel.seq [OF mark]
          mrel.seq [OF mrel_ManyI] colon) (use s in \<open>simp_all add: Suc_le_eq\<close>)
    with s(1) m show ?thesis by auto
  qed
qed

lemma insn_shape_colon:
  "insn_shape s rest \<Longrightarrow> \<exists>u. s = u @ CHR '':'' # rest \<and> CHR '':'' \<notin> set u \<and>
     list_all (\<lambda>c. is_space c \<or> is_hex c \<or> c \<in> set ''[*]'') u"
proof -
  assume "insn_shape s rest"
  then obtain w m w' h where s: "s = w @ m @ w' @ h @ '':'' @ rest" "list_all is_space w"
    "m = [] \<or> m = ''[*]''" "list_all is_space w'" "h \<noteq> []" "list_all is_hex h"
    unfolding insn_shape_def by blast
  moreover have "CHR '':'' \<notin> set w" "CHR '':'' \<notin> set w'" "CHR '':'' \<notin> set h"
    using s by (auto simp: list_all_iff is_space_def is_hex_def)
  ultimately show ?thesis by (intro exI [of _ "w @ m @ w' @ h"]) (auto simp: list_all_iff)
qed

lemma colon_unique:
  "u @ CHR '':'' # rest = u' @ CHR '':'' # rest' \<Longrightarrow> CHR '':'' \<notin> set u \<Longrightarrow> CHR '':'' \<notin> set u' \<Longrightarrow>
   u = u' \<and> rest = rest'"
proof (induction u arbitrary: u')
  case Nil
  then show ?case by (cases u') auto
next
  case (Cons c u)
  then show ?case by (cases u') auto
qed

lemma insn_shape_unique: "insn_shape s rest \<Longrightarrow> insn_shape s rest' \<Longrightarrow> rest = rest'"
  using insn_shape_colon colon_unique by metis

definition rx_tail :: rx where
  "rx_tail = seqs [Many 1 is_space, Many 1 (one_of ''0123456789abcdef ''), Many 0 is_space, Eol]"

lemma tail_any: "(\<exists>p' s'. mrel rx_tail q s p' s') \<longleftrightarrow> (\<exists>p' s'. mrel rx_tail None s p' s')"
  using mrel_prev_free [of rx_tail] by (auto simp: rx_tail_def) blast+

lemma bytes_only_tail: "re_matches rx_bytes_only s \<longleftrightarrow> (\<exists>p' s'. mrel rx_tail None s p' s')"
proof -
  have eq: "rx_bytes_only = Seq Bol rx_tail" by (simp add: rx_bytes_only_def rx_tail_def)
  have "mrel rx_bytes_only None s = mrel rx_tail None s" unfolding eq by (intro ext mrel_Bol_Seq)
  then show ?thesis by (simp only: re_matches_iff)
qed

lemma continuation_tail:
  "mrel rx_continuation None s p' s' \<longleftrightarrow> (\<exists>q rest. mrel rx_asm_line None s q rest \<and> mrel rx_tail q rest p' s')"
  unfolding rx_continuation_def rx_asm_line_def rx_tail_def seqs.simps mrel_simps(3) by blast

lemma continuation_iff:
  "re_matches rx_continuation s \<longleftrightarrow> (\<exists>rest. insn_shape s rest \<and> re_matches rx_bytes_only rest)"
proof -
  have "re_matches rx_continuation s \<longleftrightarrow>
      (\<exists>q rest. mrel rx_asm_line None s q rest \<and> (\<exists>p' s'. mrel rx_tail q rest p' s'))"
    unfolding re_matches_iff continuation_tail by blast
  also have "\<dots> \<longleftrightarrow> (\<exists>rest. (\<exists>q. mrel rx_asm_line None s q rest) \<and> (\<exists>p' s'. mrel rx_tail None rest p' s'))"
    using tail_any by metis
  finally show ?thesis by (simp only: asm_line_shape bytes_only_tail)
qed

lemma bb_insn_match: "re_match rx_bb_insn s = Some (g, rest) \<Longrightarrow> insn_shape s rest"
  using re_exec_mrel bb_insn_shape by (fastforce simp: re_match_def split: option.splits)

lemma bb_insn_no_match: "re_match rx_bb_insn s = None \<Longrightarrow> \<not> insn_shape s rest"
  using re_exec_iff [of rx_bb_insn None s] bb_insn_shape
  by (fastforce simp: re_match_def split: option.splits)

text \<open>The two tests of an instruction line are the same.\<close>

lemma instruction_test:
  "re_matches rx_asm_line s \<and> \<not> re_matches rx_continuation s \<longleftrightarrow>
   (case re_match rx_bb_insn s of None \<Rightarrow> False | Some (g, rest) \<Rightarrow> \<not> re_matches rx_bytes_only rest)"
proof -
  have "re_matches rx_asm_line s \<longleftrightarrow> (\<exists>rest. insn_shape s rest)"
    unfolding re_matches_iff asm_line_shape [symmetric] by blast
  moreover have "(\<exists>r. insn_shape s r \<and> re_matches rx_bytes_only r) \<longleftrightarrow> re_matches rx_bytes_only rest"
    if "insn_shape s rest" for rest
    using that insn_shape_unique by blast
  ultimately show ?thesis
    using bb_insn_match [of s] bb_insn_no_match [of s]
    by (cases "re_match rx_bb_insn s") (auto simp: continuation_iff)
qed

lemma function_line_start: "re_match rx_function s = Some x \<Longrightarrow> starts_with ''Function:'' s"
proof -
  assume "re_match rx_function s = Some x"
  then obtain p' s' where "mrel rx_function None s p' s'"
    using re_exec_mrel by (fastforce simp: re_match_def split: option.splits)
  then show ?thesis unfolding rx_function_def seqs.simps by (auto simp: mrel_iffs starts_with_iff)
qed

lemma header_start: "re_matches rx_bb_header s \<Longrightarrow> starts_with ''Basic Block:'' s"
  unfolding re_matches_iff rx_bb_header_def seqs.simps by (auto simp: mrel_iffs starts_with_iff)

lemma insn_shape_not_prefix:
  "insn_shape s rest \<Longrightarrow> \<not> starts_with ''Basic Block:'' s \<and> \<not> starts_with ''Function:'' s"
proof -
  assume "insn_shape s rest"
  then obtain u where u: "s = u @ CHR '':'' # rest" "CHR '':'' \<notin> set u"
    "list_all (\<lambda>c. is_space c \<or> is_hex c \<or> c \<in> set ''[*]'') u"
    using insn_shape_colon by blast
  have "u = p" if "starts_with (p @ '':'') s" "CHR '':'' \<notin> set p" for p
    using that u colon_unique [of u rest p] by (auto simp: starts_with_iff)
  from this [of "''Basic Block''"] this [of "''Function''"] u(3) show ?thesis
    by (auto simp: is_space_def is_hex_def)
qed

text \<open>One line, in both readers.\<close>

lemma reader_step:
  assumes "\<not> is_bb_start line"
  shows "(function_name (bb_step line following b), all_instructions (bb_step line following b)) =
    (case bb_line line (function_name b, info, all_instructions b) of (f, _, is) \<Rightarrow> (f, is))"
proof -
  let ?s = "py_strip line"
  have nohdr: "\<not> re_matches rx_bb_header ?s" using header_start assms by (auto simp: is_bb_start_def)
  have empty: "re_match rx_bb_insn [] = None" "\<not> starts_with ''Function:'' []"
    by (simp_all add: rx_bb_insn_def re_match_def re_exec_def)
  show ?thesis
  proof (cases "starts_with ''Function:'' ?s")
    case True
    then have "\<not> re_matches rx_asm_line ?s"
      using insn_shape_not_prefix asm_line_shape unfolding re_matches_iff by blast
    with True nohdr empty show ?thesis
      by (auto simp: bb_step_def bb_line_def function_of_line_def Let_def split: option.splits)
  next
    case False
    then have "re_match rx_function ?s = None" using function_line_start by (cases "re_match rx_function ?s") auto
    with False nohdr empty instruction_test [of ?s] show ?thesis
      by (auto simp: bb_step_def bb_line_def bb_instruction_def note_changed_def Let_def
          split: option.splits if_splits)
  qed
qed

text \<open>What one reader's block \<open>b\<close> and the other's lines \<open>cur\<close> have in common.\<close>

definition same_block :: "bb \<Rightarrow> string list \<Rightarrow> bool" where
  "same_block b cur \<longleftrightarrow> cur \<noteq> [] \<and> raw_lines b = tl cur \<and>
     (case parse_basic_block cur of (f, _, is) \<Rightarrow> function_name b = f \<and> all_instructions b = is)"

lemma bb_step_raw: "raw_lines (bb_step line following b) = raw_lines b @ [line]"
  by (auto simp: bb_step_def bb_instruction_def note_changed_def Let_def split: option.splits)

lemma same_block_start: "is_bb_start line \<Longrightarrow> same_block empty_bb [line]"
proof -
  assume s: "is_bb_start line"
  then have "\<not> re_matches rx_asm_line (py_strip line)"
    using insn_shape_not_prefix asm_line_shape unfolding re_matches_iff is_bb_start_def by blast
  moreover have "re_match rx_function (py_strip line) = None"
  proof (rule ccontr)
    assume "re_match rx_function (py_strip line) \<noteq> None"
    then have "starts_with ''Function:'' (py_strip line)" using function_line_start by blast
    with s show False by (auto simp: is_bb_start_def starts_with_iff)
  qed
  ultimately show ?thesis
    by (simp add: same_block_def empty_bb_def parse_basic_block_def bb_line_def Let_def)
qed

lemma same_block_step:
  "same_block b cur \<Longrightarrow> \<not> is_bb_start line \<Longrightarrow> same_block (bb_step line following b) (cur @ [line])"
proof -
  assume a: "same_block b cur" "\<not> is_bb_start line"
  obtain f info "is" where p: "parse_basic_block cur = (f, info, is)" by (cases "parse_basic_block cur")
  with a(1) have b: "function_name b = f" "all_instructions b = is" by (auto simp: same_block_def)
  have "parse_basic_block (cur @ [line]) = bb_line line (f, info, is)"
    using p by (simp add: parse_basic_block_def)
  with reader_step [OF a(2), of following b info] b a(1) show ?thesis
    by (auto simp: same_block_def bb_step_raw split: prod.splits)
qed

lemma scan_agrees:
  "list_all2 same_block
     (scan_blocks (if cur = [] then None else Some b) lines) (split_blocks cur lines)"
  if "cur = [] \<or> same_block b cur"
  using that
proof (induction lines arbitrary: b cur)
  case (Cons line lines)
  show ?case
  proof (cases "is_bb_start line")
    case True
    then have s: "same_block empty_bb [line]" by (rule same_block_start)
    have "list_all2 same_block (scan_blocks (Some empty_bb) lines) (split_blocks [line] lines)"
      using Cons.IH [of "[line]" empty_bb] s by simp
    with True Cons.prems show ?thesis by auto
  next
    case False
    show ?thesis
    proof (cases "cur = []")
      case True
      then show ?thesis using False Cons.IH [of "[]"] by simp
    next
      case cur: False
      then have "same_block (bb_step line lines b) (cur @ [line])"
        using Cons.prems False same_block_step by blast
      with cur False show ?thesis using Cons.IH [of "cur @ [line]" "bb_step line lines b"] by simp
    qed
  qed
qed auto

lemma blocks_agree: "list_all2 same_block (scan_blocks None lines) (split_blocks [] lines)"
  using scan_agrees [of "[]"] by simp

text \<open>
  C27: the two readers of the code, the scanner of basic-block files and the splitter of
  result files, cut a text into the same blocks and read the same function names and the
  same instruction lines, continuation lines left out by both.
\<close>

theorem readers_agree:
  "map (\<lambda>b. (raw_lines b, function_name b, all_instructions b)) (scan_blocks None lines) =
   map (\<lambda>blk. case parse_basic_block blk of (f, info, is) \<Rightarrow> (tl blk, f, is)) (split_blocks [] lines)"
  using blocks_agree [of lines]
  by (induction rule: list_all2_induct) (auto simp: same_block_def split: prod.splits)

lemma block_expressions_lines:
  "map fst (block_expressions st ls) = filter (\<lambda>l. parse_instruction (strip_marker l) \<noteq> None) ls"
  by (induction ls arbitrary: st) (auto simp: Let_def split: option.splits)

text \<open>
  The expression sequence of a result file has one entry for every parseable instruction
  line of the file's blocks, in order.
\<close>

theorem process_res_file_lines:
  "map fst (process_res_file content) =
   filter (\<lambda>l. parse_instruction (strip_marker l) \<noteq> None)
     (concat (map all_instructions (scan_blocks None (split_on NL content))))"
proof -
  have "map all_instructions (scan_blocks None ls) = map (\<lambda>b. snd (snd (parse_basic_block b))) (split_blocks [] ls)" for ls
    using blocks_agree [of ls]
    by (induction rule: list_all2_induct) (auto simp: same_block_def split: prod.splits)
  then show ?thesis
    by (simp add: process_res_file_def map_concat filter_concat comp_def block_expressions_lines)
qed

section \<open>Kprobe candidates\<close>

text \<open>The lines of the rest of the block that carry an address, and the first reader among them.\<close>

definition block_rest :: "string list \<Rightarrow> string list" where
  "block_rest lines = takeWhile (\<lambda>s. \<not> is_boundary s) (map py_strip lines)"

fun upto_first :: "('a \<Rightarrow> bool) \<Rightarrow> 'a list \<Rightarrow> 'a list" where
  "upto_first P [] = []"
| "upto_first P (x # xs) = (if P x then [x] else x # upto_first P xs)"

text \<open>
  The kprobe candidates of a changed instruction are the addresses of the lines that
  follow it in its block, up to and including the first one that reads the register family
  it writes.
\<close>

theorem candidates_eq:
  "candidates (Some family) lines =
     map (\<lambda>s. the (addr_text s))
       (upto_first (\<lambda>s. family \<noteq> [] \<and> instruction_reads_register s family)
         (filter (\<lambda>s. addr_text s \<noteq> None) (block_rest lines)))"
  by (induction "Some family" lines rule: candidates.induct)
    (auto simp: block_rest_def addr_text_def Let_def split: option.splits)

text \<open>
  Continuation lines (only bytes, no mnemonic) are left out of a block's instructions but
  not out of its kprobe candidates. After a nine-byte instruction, which objdump prints on two
  lines, the first candidate, and so \<open>kprobe_addr\<close>, is an address inside that instruction.
\<close>

definition wrapped_file :: string where
  "wrapped_file = join [NL]
    [''Basic Block: lines 1-3'', ''Function: f'',
     ''[*] a0:  66 c7 83 a4 00 00 00'' @ TAB # ''movw   $0x8,0xa4(%rbx)'',
     ''a7:  08 00'',
     ''a9:  48 89 d8'' @ TAB # ''mov    %rbx,%rax'']"

theorem continuation_candidate:
  "map (\<lambda>b. (map (take 6) (all_instructions b), kprobe_addr b, candidate_addrs b))
     (scan_blocks None (readlines wrapped_file)) =
   [([''[*] a0'', ''a9:  4''], Some ''a7'', Some [''a7'', ''a9''])]"
  by code_simp

section \<open>The test list, read back\<close>

text \<open>A test group: the line of its three values, then its two commands.\<close>

type_synonym test_group = "(nat \<times> nat \<times> nat) \<times> string \<times> string"

definition values_line :: "nat \<times> nat \<times> nat \<Rightarrow> string" where
  "values_line v = (case v of (a, b, c) \<Rightarrow> digs 10 a @ '','' @ digs 10 b @ '','' @ digs 10 c)"

definition group_lines :: "test_group \<Rightarrow> string list" where
  "group_lines g = (case g of (v, c1, c2) \<Rightarrow> [values_line v, c1, c2])"

definition test_list :: "test_group list \<Rightarrow> string" where
  "test_list gs = concat (map (\<lambda>l. l @ [NL]) (concat (map group_lines gs)))"

definition command_ok :: "string \<Rightarrow> bool" where
  "command_ok c \<longleftrightarrow> py_strip c = c \<and> NL \<notin> set c \<and> \<not> starts_with ''#'' c \<and> contains check_script c"

lemma strip_NL: "py_strip (s @ [NL]) = py_strip s"
proof -
  have nl: "is_space NL" by (simp add: is_space_def)
  have "dropWhile is_space (rev (dropWhile is_space (s @ [NL]))) = dropWhile is_space (rev (dropWhile is_space s))"
    by (induction s) (use nl in auto)
  then show ?thesis by (simp add: py_strip_def lstrip_by_def rstrip_by_def)
qed

lemma values_match:
  "re_match rx_values (values_line (a, b, c)) =
     Some ([(1, digs 10 a), (2, digs 10 b), (3, digs 10 c)], [])"
proof -
  have d: "list_all is_digit (digs 10 n)" for n using digs_digit by (auto simp: list_all_iff)
  have comma: "\<not> is_digit (CHR '','')" by (simp add: is_digit_def)
  have m: "runs (Grp k (Many 1 is_digit)) q (digs 10 n @ t) g (prev_after q (digs 10 n)) t (dput k (digs 10 n) g)"
    if "t = [] \<or> \<not> is_digit (hd t)" for k q n t g
    by (rule runs_Grp, rule runs_Many) (use d that in \<open>auto simp: Suc_le_eq\<close>)
  have e: "runs Eol q [] g q [] g" for q g by (rule runs_Eol) (simp add: at_eol_def)
  let ?s = "digs 10 a @ '','' @ digs 10 b @ '','' @ digs 10 c @ []"
  have "runs rx_values None ?s [] (prev_after (prev_after (prev_after (prev_after (prev_after None (digs 10 a)) '','')
      (digs 10 b)) '','') (digs 10 c)) [] (dput 3 (digs 10 c) (dput 2 (digs 10 b) (dput 1 (digs 10 a) [])))"
    unfolding rx_values_def seqs.simps
    by (intro runs_Seq [OF runs_Bol] runs_Seq [OF m] runs_Seq [OF runs_lit] e)
      (use comma in simp_all)
  then show ?thesis using runs_match by (fastforce simp: values_line_def)
qed

lemma three_values_line: "three_values (values_line (a, b, c)) = Some (int a, int b, int c)"
  using py_int_py_str [of "int a"] py_int_py_str [of "int b"] py_int_py_str [of "int c"]
  by (simp add: three_values_def values_match group_def dget_def py_str_def)

lemma values_line_strip: "py_strip (values_line v) = values_line v"
proof (rule strip_id)
  fix c assume "c \<in> set (values_line v)"
  moreover have "\<not> is_space x" if "x \<in> set (digs 10 n)" for x n using digs_not_space that by auto
  ultimately show "\<not> is_space c" by (auto simp: values_line_def is_space_def split: prod.splits)
qed

lemma command_not_values: "command_ok c \<Longrightarrow> \<not> re_matches rx_values c"
proof
  assume c: "command_ok c" and "re_matches rx_values c"
  then obtain u v w s' where "c = u @ '','' @ v @ '','' @ w @ s'" "list_all is_digit u" "list_all is_digit v"
    "list_all is_digit w" "at_eol s'"
    unfolding re_matches_iff rx_values_def seqs.simps by (auto simp: mrel_iffs)
  moreover have "CHR ''c'' \<in> set c" using c by (auto simp: command_ok_def contains_iff check_script_def)
  ultimately show False by (auto simp: list_all_iff is_digit_def at_eol_def)
qed

lemma readlines_terminated:
  "list_all (\<lambda>l. NL \<notin> set l) ls \<Longrightarrow> readlines (concat (map (\<lambda>l. l @ [NL]) ls)) = map (\<lambda>l. l @ [NL]) ls"
proof -
  assume ls: "list_all (\<lambda>l. NL \<notin> set l) ls"
  have "split_on NL (concat (map (\<lambda>l. l @ [NL]) ls)) = ls @ [[]]"
    using ls
  proof (induction ls)
    case (Cons l ls)
    then have "split_on NL (l @ NL # concat (map (\<lambda>l. l @ [NL]) ls)) = l # ls @ [[]]"
      by (subst split_by_append) auto
    then show ?case by simp
  qed simp
  then show ?thesis by (simp add: readlines_def)
qed

lemma values_line_hd: "\<not> skip_line (values_line v)"
proof -
  obtain a b c where v: "v = (a, b, c)" by (cases v)
  obtain x xs where "digs 10 a = x # xs" by (meson digs_nonempty neq_Nil_conv)
  moreover from this have "is_digit x" using digs_digit [of x a] by simp
  ultimately show ?thesis by (auto simp: skip_line_def values_line_def v is_digit_def)
qed

lemma on_values:
  "source_values_from n cur k ((values_line (a, b, c) @ [NL]) # ls) acc =
   source_values_from n (Some (int a, int b, int c)) 0 ls acc"
  using values_line_hd [of "(a, b, c)"]
  by (simp add: strip_NL values_line_strip three_values_line Let_def re_matches_def values_match)

lemma on_command:
  "command_ok c \<Longrightarrow> source_values_from n (Some v) k ((c @ [NL]) # ls) acc =
   (if k = 1 then source_values_from (n + 1) (Some v) 0 ls (dput (py_str (int (n + 1))) v acc)
    else source_values_from n (Some v) (k + 1) ls acc)"
  using command_not_values [of c]
  by (auto simp: command_ok_def strip_NL skip_line_def Let_def contains_iff check_script_def)

definition numbered :: "nat \<Rightarrow> test_group list \<Rightarrow> (string, value3) dict" where
  "numbered n gs = map (\<lambda>(i, (a, b, c), _). (py_str (int i), (int a, int b, int c))) (enumerate n gs)"

lemma group_lines_triple: "group_lines (v, c1, c2) = [values_line v, c1, c2]"
  by (simp add: group_lines_def)

lemma source_values_groups:
  "list_all (\<lambda>(v, c1, c2). command_ok c1 \<and> command_ok c2) gs \<Longrightarrow>
   fst ` set acc \<subseteq> (\<lambda>i. py_str (int i)) ` {..n} \<Longrightarrow>
   source_values_from n cur 0 (map (\<lambda>l. l @ [NL]) (concat (map group_lines gs))) acc =
   acc @ numbered (Suc n) gs"
proof (induction gs arbitrary: n cur acc)
  case (Cons g gs)
  obtain a b c c1 c2 where g: "g = ((a, b, c), c1, c2)" by (cases g) auto
  let ?k = "py_str (int (Suc n))"
  have inj: "py_str (int i) = py_str (int j) \<longleftrightarrow> i = j" for i j using dec_codec.enc_eq_iff by simp
  have "?k \<notin> (\<lambda>i. py_str (int i)) ` {..n}"
  proof
    assume "?k \<in> (\<lambda>i. py_str (int i)) ` {..n}"
    then obtain i where i: "i \<le> n" "py_str (int (Suc n)) = py_str (int i)" by blast
    from i(2) have "Suc n = i" unfolding inj .
    with i(1) show False by simp
  qed
  with Cons.prems(2) have fresh: "?k \<notin> fst ` set acc" by blast
  have "fst ` set (dput ?k (int a, int b, int c) acc) \<subseteq> (\<lambda>i. py_str (int i)) ` {..Suc n}"
    using Cons.prems(2) by (auto simp: atMost_Suc simp del: of_nat_Suc)
  then have "source_values_from (Suc n) (Some (int a, int b, int c)) 0
      (map (\<lambda>l. l @ [NL]) (concat (map group_lines gs))) (dput ?k (int a, int b, int c) acc) =
      dput ?k (int a, int b, int c) acc @ numbered (Suc (Suc n)) gs"
    using Cons.prems(1) by (intro Cons.IH) simp_all
  with Cons.prems(1) fresh show ?case
    by (simp add: g group_lines_triple on_values on_command dput_absent numbered_def del: source_values_from.simps)
qed (simp add: numbered_def)

text \<open>
  A test list of value lines, each followed by its two commands, is read back as the
  numbered list of its value triples.
\<close>

theorem source_values_read_back:
  assumes "list_all (\<lambda>(v, c1, c2). command_ok c1 \<and> command_ok c2) gs"
  shows "extract_source_values (Some (test_list gs)) = numbered 1 gs"
proof -
  have "list_all (\<lambda>l. NL \<notin> set l) (concat (map group_lines gs))"
  proof -
    have "NL \<notin> set (values_line v)" for v
    proof -
      have "NL \<notin> set (digs 10 n)" for n using digs_not_space [of NL 10 n] by (auto simp: is_space_def)
      then show ?thesis by (simp add: values_line_def split: prod.splits)
    qed
    with assms show ?thesis by (auto simp: list_all_iff group_lines_def command_ok_def)
  qed
  then show ?thesis
    using source_values_groups [OF assms, of "[]" 0 None]
    by (simp add: extract_source_values_def test_list_def readlines_terminated)
qed

theorem source_values_read_back_witness:
  "extract_source_values (Some (test_list
     [((8, 9, 10), ''check_assembly_diff.py -f a.c'', ''check_assembly_diff.py -f b.c''),
      ((1, 2, 30), ''./check_assembly_diff.py -f c.c'', ''check_assembly_diff.py'')])) =
   [(''1'', (8, 9, 10)), (''2'', (1, 2, 30))]"
proof -
  let ?gs = "[((8, 9, 10), ''check_assembly_diff.py -f a.c'', ''check_assembly_diff.py -f b.c''),
      ((1, 2, 30), ''./check_assembly_diff.py -f c.c'', ''check_assembly_diff.py'')] :: test_group list"
  have "list_all (\<lambda>(v, c1, c2). command_ok c1 \<and> command_ok c2) ?gs" by code_simp
  moreover have "numbered 1 ?gs = [(''1'', (8, 9, 10)), (''2'', (1, 2, 30))]" by code_simp
  ultimately show ?thesis using source_values_read_back by metis
qed

end
