(* ===== verification/Expr_Diff.thy ===== *)
theory Expr_Diff
  imports BB_Files Sym_Sound
begin

text \<open>
  Comparing the expression sequences of two builds (\<open>compare_expressions\<close>), the ranges of
  changed instructions and the filter that follows the effects of a change until they are
  consumed (\<open>src/codegen.py\<close>).
\<close>

section \<open>Model\<close>

type_synonym exprs = "(string, string) dict"

text \<open>Index, instruction in the first and in the second sequence, and their expressions.\<close>

type_synonym difference = "nat \<times> string option \<times> string option \<times> exprs \<times> exprs"

text \<open>The comparison of one position; \<open>None\<close> when there is no difference.\<close>

definition difference_at :: "snapshot list \<Rightarrow> snapshot list \<Rightarrow> nat \<Rightarrow> difference option" where
  "difference_at seq1 seq2 i =
     (if i \<ge> length seq1 then
        (case seq2 ! i of (inst2, addr2, expr2, alt2) \<Rightarrow> Some (i, None, Some inst2, [], expr2))
      else if i \<ge> length seq2 then
        (case seq1 ! i of (inst1, addr1, expr1, alt1) \<Rightarrow> Some (i, Some inst1, None, expr1, []))
      else case (seq1 ! i, seq2 ! i) of
        ((inst1, addr1, expr1, alt1), (inst2, addr2, expr2, alt2)) \<Rightarrow>
          if dict_eq expr1 expr2 then None else Some (i, Some inst1, Some inst2, expr1, expr2))"

definition compare_expressions :: "snapshot list \<Rightarrow> snapshot list \<Rightarrow> difference list" where
  "compare_expressions seq1 seq2 =
     List.map_filter (difference_at seq1 seq2) [0..<max (length seq1) (length seq2)]"

fun ranges_from :: "nat \<Rightarrow> nat \<Rightarrow> nat list \<Rightarrow> (nat \<times> nat) list" where
  "ranges_from start_idx end_idx [] = [(start_idx, end_idx)]"
| "ranges_from start_idx end_idx (current_idx # rest) =
     (if current_idx = end_idx + 1 then ranges_from start_idx current_idx rest
      else (start_idx, end_idx) # ranges_from current_idx current_idx rest)"

definition find_changed_ranges :: "difference list \<Rightarrow> (nat \<times> nat) list" where
  "find_changed_ranges differences = (case map fst differences of
     [] \<Rightarrow> [] | i # rest \<Rightarrow> ranges_from i i rest)"

type_synonym effects = "string set \<times> string set \<times> string set \<times> string set"

definition get_instruction_effects :: "string \<Rightarrow> effects" where
  "get_instruction_effects inst_line =
     (case parse_instruction (strip_marker inst_line) of
        None \<Rightarrow> ({}, {}, {}, {})
      | Some (address, mnemonic, operands) \<Rightarrow>
          (let (st, written_regs, written_mem) = get_written_effects new_executor mnemonic operands;
               (st, read_regs, read_mem) = get_read_effects st mnemonic operands
           in (written_regs, written_mem, read_regs, read_mem)))"

text \<open>A pending effect: a register or a memory cell.\<close>

datatype effect = RegEff string | MemEff string

fun written :: "effects \<Rightarrow> effect set" where
  "written (wr, wm, rr, rm) = RegEff ` wr \<union> MemEff ` wm"

fun consumed :: "effects \<Rightarrow> effect set" where
  "consumed (wr, wm, rr, rm) = RegEff ` rr \<union> MemEff ` rm"

definition inst_of :: "bool \<Rightarrow> difference \<Rightarrow> string option" where
  "inst_of use_seq1 d = (case d of (i, inst1, inst2, e1, e2) \<Rightarrow> if use_seq1 then inst1 else inst2)"

definition truthy :: "string option \<Rightarrow> bool" where
  "truthy s \<longleftrightarrow> (case s of None \<Rightarrow> False | Some t \<Rightarrow> t \<noteq> [])"

fun filter_from :: "(nat, difference) dict \<Rightarrow> bool \<Rightarrow> nat \<Rightarrow> snapshot list \<Rightarrow> effect set \<Rightarrow>
    (nat \<times> string) list \<Rightarrow> (nat \<times> string) list" where
  "filter_from changed use_seq1 i [] pending acc = acc"
| "filter_from changed use_seq1 i (s # rest) pending acc =
     (let is_changed = has_key changed i;
          inst_to_use = (case map_of changed i of None \<Rightarrow> None | Some d \<Rightarrow> inst_of use_seq1 d);
          acc = (if truthy inst_to_use then acc @ [(i + 1, py_strip (the inst_to_use))] else acc);
          pending = (if truthy inst_to_use
            then pending \<union> written (get_instruction_effects (the inst_to_use)) else pending);
          pending = pending - consumed (get_instruction_effects (fst s))
      in if is_changed \<and> pending = {} \<and> acc \<noteq> [] then acc
         else filter_from changed use_seq1 (i + 1) rest pending acc)"

definition filter_changed_instructions_by_effects ::
    "difference list \<Rightarrow> snapshot list \<Rightarrow> bool \<Rightarrow> (nat \<times> string) list" where
  "filter_changed_instructions_by_effects differences full_sequence use_seq1 =
     (case differences of
        [] \<Rightarrow> []
      | d # _ \<Rightarrow>
          filter_from (map (\<lambda>d. (fst d, d)) differences) use_seq1 (fst d)
            (drop (fst d) full_sequence) {} [])"

section \<open>Comparison\<close>

lemma map_filter_index:
  "(\<And>i d. f i = Some d \<Longrightarrow> fst d = i) \<Longrightarrow> map fst (List.map_filter f is) = filter (\<lambda>i. f i \<noteq> None) is"
  by (induction "is") (auto simp: map_filter_simps split: option.splits)

lemma difference_index: "difference_at s1 s2 i = Some d \<Longrightarrow> fst d = i"
  by (auto simp: difference_at_def split: prod.splits if_splits)

definition differs :: "snapshot list \<Rightarrow> snapshot list \<Rightarrow> nat \<Rightarrow> bool" where
  "differs s1 s2 i \<longleftrightarrow> (if i < length s1 \<and> i < length s2
     then map_of (fst (snd (snd (s1 ! i)))) \<noteq> map_of (fst (snd (snd (s2 ! i)))) else True)"

lemma difference_at_iff: "difference_at s1 s2 i \<noteq> None \<longleftrightarrow> differs s1 s2 i"
  by (auto simp: difference_at_def differs_def dict_eq_iff split: prod.splits)

lemma difference_indices:
  "map fst (compare_expressions s1 s2) = filter (differs s1 s2) [0..<max (length s1) (length s2)]"
  unfolding compare_expressions_def
  by (rule map_filter_index [of "difference_at s1 s2", OF difference_index, unfolded difference_at_iff])

text \<open>
  Two sequences differ exactly at the positions where one has ended or where their
  expressions, read as maps, are not the same; the differences are listed in order.
\<close>

theorem compare_expressions_indices:
  "map fst (compare_expressions s1 s2) =
   filter (differs s1 s2) [0..<max (length s1) (length s2)]"
  by (rule difference_indices)

section \<open>Ranges\<close>

definition expand :: "(nat \<times> nat) list \<Rightarrow> nat list" where
  "expand rs = concat (map (\<lambda>(a, b). [a..<Suc b]) rs)"

lemma expand_simps [simp]: "expand [] = []" "expand ((a, b) # rs) = [a..<Suc b] @ expand rs"
  by (simp_all add: expand_def)

lemma ranges_from_expand: "a \<le> b \<Longrightarrow> expand (ranges_from a b is) = [a..<Suc b] @ is"
  by (induction a b "is" rule: ranges_from.induct) auto

text \<open>Between two ranges there is at least one unchanged position.\<close>

fun separated :: "(nat \<times> nat) list \<Rightarrow> bool" where
  "separated ((a, b) # (c, d) # rs) \<longleftrightarrow> b + 1 < c \<and> separated ((c, d) # rs)"
| "separated _ \<longleftrightarrow> True"

lemma ranges_from_hd: "\<exists>e rs. ranges_from a b is = (a, e) # rs"
  by (induction a b "is" rule: ranges_from.induct) auto

lemma ranges_from_separated: "sorted_wrt (<) (b # is) \<Longrightarrow> separated (ranges_from a b is)"
proof (induction a b "is" rule: ranges_from.induct)
  case (2 a b c "is")
  then show ?case using ranges_from_hd [of c c "is"] by auto
qed simp

text \<open>
  The ranges of a comparison, expanded, are the positions of its differences, and no two
  ranges touch, so each is as long as it can be.
\<close>

theorem changed_ranges_exact:
  "(let rs = find_changed_ranges (compare_expressions s1 s2) in
     expand rs = filter (differs s1 s2) [0..<max (length s1) (length s2)] \<and> separated rs)"
proof -
  have "sorted_wrt (<) (filter (differs s1 s2) [0..<max (length s1) (length s2)])"
    by (simp add: sorted_wrt_filter)
  then show ?thesis
    using ranges_from_expand ranges_from_separated
    by (auto simp: find_changed_ranges_def difference_indices [symmetric] Let_def split: list.splits)
qed

section \<open>Effects\<close>

text \<open>The changed instructions of one side from position \<open>i\<close> on.\<close>

definition listed_change :: "(nat, difference) dict \<Rightarrow> bool \<Rightarrow> nat \<Rightarrow> (nat \<times> string) option" where
  "listed_change changed use_seq1 i = (case map_of changed i of
     None \<Rightarrow> None
   | Some d \<Rightarrow> if truthy (inst_of use_seq1 d)
       then Some (i + 1, py_strip (the (inst_of use_seq1 d))) else None)"

definition all_changes :: "(nat, difference) dict \<Rightarrow> bool \<Rightarrow> nat \<Rightarrow> nat \<Rightarrow> (nat \<times> string) list" where
  "all_changes changed use_seq1 i n = List.map_filter (listed_change changed use_seq1) [i..<i + n]"

lemma all_changes_Suc:
  "all_changes ch b i (Suc n) =
   (case listed_change ch b i of None \<Rightarrow> [] | Some p \<Rightarrow> [p]) @ all_changes ch b (Suc i) n"
proof -
  have "[i..<i + Suc n] = i # [Suc i..<Suc i + n]" by (simp add: upt_conv_Cons)
  then show ?thesis by (simp add: all_changes_def map_filter_simps split: option.splits)
qed

lemma filter_from_prefix:
  "\<exists>n. filter_from ch b i ss pend acc = acc @ take n (all_changes ch b i (length ss))"
proof (induction ch b i ss pend acc rule: filter_from.induct)
  case (1 ch b i pend acc)
  show ?case by (rule exI [of _ 0]) simp
next
  case (2 ch b i s rest pend acc)
  define inst where "inst = (case map_of ch i of None \<Rightarrow> None | Some d \<Rightarrow> inst_of b d)"
  define acc' where "acc' = (if truthy inst then acc @ [(i + 1, py_strip (the inst))] else acc)"
  define pend' where "pend' = (if truthy inst then pend \<union> written (get_instruction_effects (the inst)) else pend)
      - consumed (get_instruction_effects (fst s))"
  let ?new = "case listed_change ch b i of None \<Rightarrow> [] | Some p \<Rightarrow> [p]"
  have acc: "acc' = acc @ ?new"
    by (auto simp: acc'_def inst_def listed_change_def truthy_def split: option.splits)
  have step: "filter_from ch b i (s # rest) pend acc =
      (if has_key ch i \<and> pend' = {} \<and> acc' \<noteq> [] then acc'
       else filter_from ch b (i + 1) rest pend' acc')"
    unfolding filter_from.simps Let_def inst_def acc'_def pend'_def by (rule refl)
  show ?case
  proof (cases "has_key ch i \<and> pend' = {} \<and> acc' \<noteq> []")
    case True
    then show ?thesis
      unfolding step acc by (intro exI [of _ "length ?new"]) (simp add: all_changes_Suc)
  next
    case False
    then obtain n where "filter_from ch b (i + 1) rest pend' acc' =
        acc' @ take n (all_changes ch b (i + 1) (length rest))"
      using "2.IH" [OF refl refl refl refl] unfolding inst_def acc'_def pend'_def by (auto simp: Let_def)
    moreover have "filter_from ch b i (s # rest) pend acc = filter_from ch b (i + 1) rest pend' acc'"
      unfolding step using False by (rule if_not_P)
    ultimately show ?thesis
      unfolding acc by (intro exI [of _ "length ?new + n"]) (simp add: all_changes_Suc)
  qed
qed

text \<open>
  The instructions kept by the effect filter are an initial part of the changed
  instructions of the chosen side, with their positions counted from one.
\<close>

theorem effect_filter_prefix:
  "(let out = filter_changed_instructions_by_effects (d # ds) seq b in
     out = take (length out)
       (all_changes (map (\<lambda>d. (fst d, d)) (d # ds)) b (fst d) (length seq - fst d)))"
proof -
  obtain n where "filter_changed_instructions_by_effects (d # ds) seq b =
      take n (all_changes (map (\<lambda>d. (fst d, d)) (d # ds)) b (fst d) (length (drop (fst d) seq)))"
    using filter_from_prefix [of _ b "fst d" "drop (fst d) seq" "{}" "[]"]
    by (fastforce simp: filter_changed_instructions_by_effects_def)
  then show ?thesis by (simp add: Let_def min_def)
qed

lemma base_regs64: "list_all (\<lambda>r. get_base_register r = r) regs64"
  by code_simp

lemma base_reg64: "r \<in> set regs64 \<Longrightarrow> get_base_register r = r"
  using base_regs64 by (auto simp: list_all_iff)

lemma operand_effect_reg:
  "r \<in> set regs64 \<Longrightarrow> operand_effect st (reg_text r) =
     (touch r st, {anon_of (touch r st) r}, {})"
  using reg_facts(5) [of r]
  by (simp add: operand_effect_def parse_reg base_reg64 get_allocated touch_allocates touch_def [symmetric])

lemma touch_new: "r \<in> set regs64 \<Longrightarrow> reg_map (touch r new_executor) = [(r, ''r0'')]"
proof -
  assume "r \<in> set regs64"
  moreover have "anon 0 = ''r0''" by code_simp
  ultimately show ?thesis
    using reg_facts(4) [of r] by (simp add: touch_def get_anonymous_reg_def new_executor_def Let_def)
qed

lemma touch_second:
  "r \<in> set regs64 \<Longrightarrow> s \<in> set regs64 \<Longrightarrow> s \<noteq> r \<Longrightarrow> reg_map (touch s (touch r new_executor)) = [(r, ''r0''), (s, ''r1'')]"
proof -
  assume r: "r \<in> set regs64" and s: "s \<in> set regs64" "s \<noteq> r"
  have "reg_counter (touch r new_executor) = 1"
    using r reg_facts(4) [of r] by (simp add: touch_def get_anonymous_reg_def new_executor_def Let_def)
  moreover have "anon 1 = ''r1''" by code_simp
  ultimately show ?thesis
    using reg_facts(4) [of s] touch_new [OF r] s
    by (simp add: touch_def [of s] get_anonymous_reg_def Let_def)
qed

text \<open>
  Effects are computed with a new executor per instruction, so they do not name
  registers: every move between registers writes \<open>r0\<close> and reads \<open>r1\<close>, whatever the
  registers are, and the reads of one instruction discharge the writes of another by position.
\<close>

theorem effects_are_positional:
  "list_all (\<lambda>s. list_all (\<lambda>d.
      get_instruction_effects (body addr ''48 89 c3'' ''mov'' [reg_text s, reg_text d]) =
        ({''r0''}, {}, {if s = d then ''r0'' else ''r1''}, {})) regs64) regs64"
proof -
  have "get_instruction_effects (body addr ''48 89 c3'' ''mov'' [reg_text s, reg_text d]) =
      ({''r0''}, {}, {if s = d then ''r0'' else ''r1''}, {})"
    if r: "s \<in> set regs64" "d \<in> set regs64" for s d
  proof -
    have "byte_text ''48 89 c3''" "token ''mov''" by code_simp+
    then have "line_ok ''48 89 c3'' ''mov'' [reg_text s, reg_text d]"
      using r by (simp add: line_ok_def reg_facts)
    then have p: "parse_instruction (strip_marker (body addr ''48 89 c3'' ''mov'' [reg_text s, reg_text d])) =
        Some (digs 16 addr, ''mov'', [reg_text s, reg_text d])"
      by (simp only: strip_marker_body parse_body)
    have m: "strip_size_suffix (py_lower ''mov'') = ''mov''" by code_simp
    have "anon_of (touch d new_executor) d = ''r0''"
      using touch_new [OF r(2)] by (simp add: anon_of_def)
    moreover have "anon_of (touch s (touch d new_executor)) s = (if s = d then ''r0'' else ''r1'')"
    proof (cases "s = d")
      case True
      then show ?thesis
        using r touch_new [OF r(2)] by (simp add: touch_allocated touch_allocates anon_of_def)
    next
      case False
      then show ?thesis using touch_second [OF r(2,1)] by (simp add: anon_of_def)
    qed
    ultimately show ?thesis
      by (simp add: get_instruction_effects_def p get_written_effects_def get_read_effects_def m
          effect_mnemonics_def operand_effect_reg r)
  qed
  then show ?thesis by (simp add: list_all_iff)
qed

end
