(* ===== verification/Py_Float.thy ===== *)
theory Py_Float
  imports Complex_Main Py_Strings
begin

text \<open>
  Python's \<open>float\<close> (IEEE binary64) as far as \<open>src/codegen.py\<close> computes with it:
  a finite float is the rational it stands for, rounding is to nearest, ties to even, with
  gradual underflow; the quotient of two integers is correctly rounded, and integers are
  converted before a mixed operation. Signed zeros are not told apart: the code prints no
  zero that could be negative.
\<close>

section \<open>Rounding\<close>

datatype f64 = Fin rat | Inf bool | NaN

function ilog2 :: "int \<Rightarrow> nat" where
  "ilog2 n = (if n < 2 then 0 else Suc (ilog2 (n div 2)))"
  by pat_completeness auto
termination
  by (relation "measure nat") auto

declare ilog2.simps [simp del]

definition two :: "int \<Rightarrow> rat" where
  "two k = (if 0 \<le> k then 2 ^ nat k else 1 / 2 ^ nat (- k))"

text \<open>The exponent of a positive rational: \<open>2 ^ expo x \<le> x < 2 ^ (expo x + 1)\<close>.\<close>

definition expo :: "rat \<Rightarrow> int" where
  "expo x = (let (n, d) = quotient_of x;
                 k = int (ilog2 n) - int (ilog2 d)
             in if two k \<le> x then k else k - 1)"

definition round_even :: "rat \<Rightarrow> int" where
  "round_even x = (let f = \<lfloor>x\<rfloor>; r = x - of_int f in
     if r < 1 / 2 then f else if r > 1 / 2 then f + 1 else if even f then f else f + 1)"

definition ulp_exp :: "rat \<Rightarrow> int" where
  "ulp_exp x = max (expo \<bar>x\<bar>) (- 1022) - 52"

definition round64 :: "rat \<Rightarrow> f64" where
  "round64 x =
     (if x = 0 then Fin 0
      else let u = two (ulp_exp x);
               y = of_int (round_even (\<bar>x\<bar> / u)) * u
           in if two 1024 \<le> y then Inf (0 < x) else Fin (if 0 < x then y else - y))"

section \<open>Operations\<close>

fun fneg :: "f64 \<Rightarrow> f64" where
  "fneg (Fin x) = Fin (- x)"
| "fneg (Inf s) = Inf (\<not> s)"
| "fneg NaN = NaN"

fun fadd :: "f64 \<Rightarrow> f64 \<Rightarrow> f64" where
  "fadd (Fin x) (Fin y) = round64 (x + y)"
| "fadd (Inf s) (Inf t) = (if s = t then Inf s else NaN)"
| "fadd (Inf s) (Fin y) = Inf s"
| "fadd (Fin x) (Inf t) = Inf t"
| "fadd _ _ = NaN"

definition fsub :: "f64 \<Rightarrow> f64 \<Rightarrow> f64" where
  "fsub a b = fadd a (fneg b)"

fun fmul :: "f64 \<Rightarrow> f64 \<Rightarrow> f64" where
  "fmul (Fin x) (Fin y) = round64 (x * y)"
| "fmul (Inf s) (Inf t) = Inf (s = t)"
| "fmul (Inf s) (Fin y) = (if y = 0 then NaN else Inf (s = (0 < y)))"
| "fmul (Fin x) (Inf t) = (if x = 0 then NaN else Inf (t = (0 < x)))"
| "fmul _ _ = NaN"

fun fabs :: "f64 \<Rightarrow> f64" where
  "fabs (Fin x) = Fin \<bar>x\<bar>"
| "fabs (Inf s) = Inf True"
| "fabs NaN = NaN"

fun flt :: "f64 \<Rightarrow> f64 \<Rightarrow> bool" where
  "flt (Fin x) (Fin y) \<longleftrightarrow> x < y"
| "flt (Inf s) (Fin y) \<longleftrightarrow> \<not> s"
| "flt (Fin x) (Inf t) \<longleftrightarrow> t"
| "flt (Inf s) (Inf t) \<longleftrightarrow> \<not> s \<and> t"
| "flt _ _ \<longleftrightarrow> False"

text \<open>\<open>float(n)\<close>, and the quotient \<open>m / n\<close> of two integers.\<close>

definition finite_or_overflow :: "f64 \<Rightarrow> f64 res" where
  "finite_or_overflow f = (case f of Inf s \<Rightarrow> Inl OverflowError | _ \<Rightarrow> Inr f)"

definition to_float :: "int \<Rightarrow> f64 res" where
  "to_float n = finite_or_overflow (round64 (of_int n))"

definition int_quotient :: "int \<Rightarrow> int \<Rightarrow> f64 res" where
  "int_quotient m n = finite_or_overflow (round64 (of_int m / of_int n))"

text \<open>\<open>int(f)\<close> truncates.\<close>

fun to_int :: "f64 \<Rightarrow> int res" where
  "to_int (Fin x) = Inr (if 0 \<le> x then \<lfloor>x\<rfloor> else - \<lfloor>- x\<rfloor>)"
| "to_int (Inf s) = Inl OverflowError"
| "to_int NaN = Inl ValueError"

text \<open>\<open>f"{x:.6f}"\<close>\<close>

definition pad6 :: "string \<Rightarrow> string" where
  "pad6 s = replicate (6 - length s) (CHR ''0'') @ s"

fun fmt6 :: "f64 \<Rightarrow> string" where
  "fmt6 (Fin x) =
     (let n = nat (round_even (\<bar>x\<bar> * 1000000))
      in (if x < 0 then ''-'' else []) @ digs 10 (n div 1000000) @ ''.'' @ pad6 (digs 10 (n mod 1000000)))"
| "fmt6 (Inf s) = (if s then ''inf'' else ''-inf'')"
| "fmt6 NaN = ''nan''"

section \<open>Powers of two and exponents\<close>

lemma two_powi: "two k = 2 powi k"
  by (simp add: two_def power_int_def inverse_eq_divide power_divide)

lemma two_pos [simp]: "0 < two k"
  by (simp add: two_def)

lemma two_nonzero [simp]: "two k \<noteq> 0"
  by (metis two_pos less_irrefl)

lemma abs_two [simp]: "\<bar>two k\<bar> = two k"
  by (simp add: less_imp_le)

lemma two_add: "two (a + b) = two a * two b"
  by (simp add: two_powi power_int_add)

lemma two_nonneg: "0 \<le> k \<Longrightarrow> two k = of_int (2 ^ nat k)"
  by (simp add: two_def)

lemma two_mono: "a \<le> b \<Longrightarrow> two a \<le> two b"
  by (simp add: two_powi power_int_increasing)

lemma two_less: "two a < two b \<longleftrightarrow> a < b"
  by (metis linorder_not_le two_mono two_powi power_int_strict_increasing one_less_numeral_iff semiring_norm(76))

lemma ilog2_bounds: "0 < n \<Longrightarrow> 2 ^ ilog2 n \<le> n \<and> n < 2 ^ Suc (ilog2 n)"
proof (induction n rule: ilog2.induct)
  case (1 n)
  show ?case
  proof (cases "n < 2")
    case True
    with 1 show ?thesis by (simp add: ilog2.simps)
  next
    case False
    with 1 have "2 ^ ilog2 (n div 2) \<le> n div 2 \<and> n div 2 < 2 ^ Suc (ilog2 (n div 2))" by simp
    with False show ?thesis by (simp add: ilog2.simps [of n]) linarith
  qed
qed

lemma expo_bounds: "0 < x \<Longrightarrow> two (expo x) \<le> x \<and> x < two (expo x + 1)"
proof -
  assume x: "0 < x"
  obtain n d where q: "quotient_of x = (n, d)" by fastforce
  then have d: "0 < d" using quotient_of_denom_pos by blast
  have xe: "x = of_int n / of_int d" using q quotient_of_div by blast
  with x d have n: "0 < n" by (simp add: zero_less_divide_iff)
  define l m where "l = ilog2 n" and "m = ilog2 d"
  have rats: "two (int (ilog2 z)) \<le> of_int z" "of_int z < two (int (ilog2 z) + 1)"
    if "0 < z" for z :: int
  proof -
    have "two (int i) = of_int (2 ^ i)" "two (int i + 1) = of_int (2 ^ Suc i)" for i
      by (simp_all add: two_nonneg nat_add_distrib)
    then show "two (int (ilog2 z)) \<le> of_int z" "of_int z < two (int (ilog2 z) + 1)"
      using ilog2_bounds [OF that] by (simp_all only: of_int_le_iff of_int_less_iff)
  qed
  have num: "two (int l) \<le> of_int n" "of_int n < two (int l + 1)"
    using rats [OF n] by (simp_all add: l_def)
  have den: "two (int m) \<le> of_int d" "of_int d < two (int m + 1)"
    using rats [OF d] by (simp_all add: m_def)
  have lo: "two (int l - int m - 1) < x"
  proof -
    have "two (int l - int m - 1) * of_int d < two (int l - int m - 1) * two (int m + 1)"
      using den(2) by simp
    also have "\<dots> = two (int l)" by (simp flip: two_add)
    finally show ?thesis using num(1) d by (simp add: xe pos_less_divide_eq)
  qed
  have hi: "x < two (int l - int m + 1)"
  proof -
    have "of_int n < two (int l - int m + 1) * two (int m)"
      using num(2) by (simp add: add.commute flip: two_add)
    also have "\<dots> \<le> two (int l - int m + 1) * of_int d" using den(1) by simp
    finally show ?thesis using d by (simp add: xe pos_divide_less_eq)
  qed
  show ?thesis
    using lo hi by (auto simp: expo_def q l_def m_def Let_def)
qed

lemma expo_le: "0 < x \<Longrightarrow> x \<le> two k \<Longrightarrow> expo x \<le> k"
  using expo_bounds [of x] two_less [of k "expo x"] by linarith

lemma expo_less: "0 < x \<Longrightarrow> x < two k \<Longrightarrow> expo x < k"
  using expo_bounds [of x] two_mono [of k "expo x"] by linarith

section \<open>Rounding error\<close>

lemma round_even_int [simp]: "round_even (of_int n) = n"
  by (simp add: round_even_def)

lemma round_even_error: "\<bar>of_int (round_even x) - x\<bar> \<le> 1 / 2"
proof -
  have f: "of_int \<lfloor>x\<rfloor> \<le> x" "x < of_int \<lfloor>x\<rfloor> + 1" by (simp_all add: floor_less_cancel)
  show ?thesis
    using f by (auto simp: round_even_def Let_def)
qed

lemma round_even_le: "x \<le> of_int n \<Longrightarrow> round_even x \<le> n"
proof (rule ccontr)
  assume x: "x \<le> of_int n" and "\<not> round_even x \<le> n"
  then have n: "of_int n + 1 \<le> (of_int (round_even x) :: rat)" by linarith
  with x round_even_error [of x] have e: "of_int (round_even x) - x \<ge> 1" by linarith
  with round_even_error [of x] show False by linarith
qed

lemma round_even_nonneg: "0 \<le> x \<Longrightarrow> 0 \<le> round_even x"
  by (auto simp: round_even_def Let_def)

text \<open>A number with at most 53 significant bits, within the exponent range, is a float.\<close>

lemma round64_exact:
  assumes x: "\<bar>x\<bar> = of_int m * two e" and m: "m < 2 ^ 53" and e: "- 1074 \<le> e" "e \<le> 971"
  shows "round64 x = Fin x"
proof (cases "x = 0")
  case False
  let ?u = "ulp_exp x"
  have pos: "0 < \<bar>x\<bar>" using False by simp
  have "of_int m < two 53"
    using m by (simp add: two_def)
  then have lt: "\<bar>x\<bar> < two (53 + e)" by (simp add: x two_add)
  then have "expo \<bar>x\<bar> < 53 + e" by (rule expo_less [OF pos])
  with e have u: "?u \<le> e" by (simp add: ulp_exp_def)
  have "\<bar>x\<bar> / two ?u = of_int (m * 2 ^ nat (e - ?u))"
  proof -
    have "two e = two ?u * two (e - ?u)" by (simp flip: two_add)
    with u show ?thesis by (simp add: x two_nonneg)
  qed
  then have "of_int (round_even (\<bar>x\<bar> / two ?u)) * two ?u = \<bar>x\<bar>"
    by (metis less_irrefl nonzero_eq_divide_eq round_even_int two_pos)
  moreover have "\<bar>x\<bar> < two 1024" using lt two_mono [of "53 + e" 1024] e by linarith
  ultimately show ?thesis
    using False by (cases "0 < x") (simp_all add: round64_def Let_def abs_of_neg not_less)
qed (simp add: round64_def)

lemma round64_int: "\<bar>n\<bar> \<le> 2 ^ 53 \<Longrightarrow> round64 (of_int n) = Fin (of_int n)"
proof (cases "\<bar>n\<bar> = 2 ^ 53")
  case True
  then have "\<bar>of_int n :: rat\<bar> = of_int 1 * two 53"
    by (metis mult_1 of_int_1 of_int_abs of_int_numeral of_int_power two_def zero_le_numeral nat_numeral)
  then show ?thesis by (rule round64_exact) simp_all
next
  case False
  assume "\<bar>n\<bar> \<le> 2 ^ 53"
  with False have "\<bar>n\<bar> < 2 ^ 53" by simp
  then show ?thesis by (intro round64_exact [where m = "\<bar>n\<bar>" and e = 0]) (simp_all add: two_def)
qed

text \<open>Below \<open>2 ^ k\<close> the error is at most \<open>2 ^ (k - 53)\<close>.\<close>

lemma round64_error:
  assumes "\<bar>x\<bar> \<le> two k" and "- 1022 \<le> k" and "k < 1024"
  shows "\<exists>y. round64 x = Fin y \<and> \<bar>y - x\<bar> \<le> two (k - 53) \<and> \<bar>y\<bar> \<le> two k"
proof (cases "x = 0")
  case False
  let ?u = "two (ulp_exp x)"
  let ?r = "round_even (\<bar>x\<bar> / ?u)"
  have ue: "ulp_exp x \<le> k - 52"
    using expo_le [of "\<bar>x\<bar>" k] assms False by (simp add: ulp_exp_def)
  have err: "\<bar>of_int ?r * ?u - \<bar>x\<bar>\<bar> \<le> two (k - 53)"
  proof -
    have "of_int ?r * ?u - \<bar>x\<bar> = (of_int ?r - \<bar>x\<bar> / ?u) * ?u" by (simp add: left_diff_distrib)
    then have "\<bar>of_int ?r * ?u - \<bar>x\<bar>\<bar> = \<bar>of_int ?r - \<bar>x\<bar> / ?u\<bar> * ?u"
      by (simp add: abs_mult)
    also have "\<dots> \<le> 1 / 2 * ?u" by (rule mult_right_mono [OF round_even_error]) (simp add: less_imp_le)
    also have "\<dots> \<le> 1 / 2 * two (k - 52)" using two_mono [OF ue] by simp
    also have "\<dots> = two (k - 53)" using two_add [of "k - 53" 1] by (simp add: two_def [of 1])
    finally show ?thesis .
  qed
  have le: "of_int ?r * ?u \<le> two k"
  proof -
    have k: "two k = of_int (2 ^ nat (k - ulp_exp x)) * ?u"
      using ue two_add [of "k - ulp_exp x" "ulp_exp x"] by (simp add: two_nonneg)
    have "\<bar>x\<bar> / ?u \<le> of_int (2 ^ nat (k - ulp_exp x))"
      using assms(1) unfolding k by (simp add: pos_divide_le_eq)
    then have "?r \<le> 2 ^ nat (k - ulp_exp x)" by (rule round_even_le)
    then show ?thesis unfolding k by (intro mult_right_mono) (simp_all only: of_int_le_iff, simp add: less_imp_le)
  qed
  have nn: "0 \<le> of_int ?r * ?u" using round_even_nonneg [of "\<bar>x\<bar> / ?u"] by (simp add: less_imp_le)
  have "of_int ?r * ?u < two 1024" using le two_less [of k 1024] assms(3) by linarith
  then have "round64 x = Fin (if 0 < x then of_int ?r * ?u else - (of_int ?r * ?u))"
    using False by (simp add: round64_def Let_def)
  then show ?thesis
    using err le nn False by (intro exI [of _ "if 0 < x then of_int ?r * ?u else - (of_int ?r * ?u)"]) (auto split: if_splits)
qed (use assms in \<open>auto simp: round64_def less_imp_le\<close>)

lemma to_float_int: "\<bar>n\<bar> \<le> 2 ^ 53 \<Longrightarrow> to_float n = Inr (Fin (of_int n))"
  by (simp add: to_float_def round64_int finite_or_overflow_def)

end
