(* ===== verification/Iv_Linear.thy ===== *)
theory Iv_Linear
  imports Py_Float Expr_Diff
begin

text \<open>
  From three builds to a formula: the constant that varies between three symbolic
  expressions, the linear relationship \<open>IV = a * V + b\<close> between source values and
  immediates (in floating point, as the code computes it), and the C expressions written
  from it (\<open>src/codegen.py\<close>).
\<close>

section \<open>The linear relationship\<close>

text \<open>The literal \<open>0.001\<close>.\<close>

definition tolerance :: f64 where
  "tolerance = round64 (1 / 1000)"

definition line_through :: "int \<Rightarrow> int \<Rightarrow> int \<Rightarrow> int \<Rightarrow> (f64 \<times> f64) res" where
  "line_through v1 iv1 v2 iv2 =
     bindr (int_quotient (iv2 - iv1) (v2 - v1)) (\<lambda>a.
     bindr (to_float v1) (\<lambda>fv1.
     bindr (to_float iv1) (\<lambda>fiv1.
       Inr (a, fsub fiv1 (fmul a fv1)))))"

definition valid_pairs :: "int option list \<Rightarrow> int option list \<Rightarrow> (int \<times> int) list" where
  "valid_pairs v_values iv_values = List.map_filter
     (\<lambda>(v, iv). case (v, iv) of (Some a, Some b) \<Rightarrow> Some (a, b) | _ \<Rightarrow> None) (zip v_values iv_values)"

definition find_linear_relationship ::
    "int option list \<Rightarrow> int option list \<Rightarrow> (f64 \<times> f64) option res" where
  "find_linear_relationship v_values iv_values =
     (if length v_values \<noteq> length iv_values \<or> length v_values < 2 then Inr None
      else case valid_pairs v_values iv_values of
        [(v1, iv1), (v2, iv2)] \<Rightarrow>
          if v2 = v1 then Inr None
          else bindr (line_through v1 iv1 v2 iv2) (\<lambda>ab. Inr (Some ab))
      | [(v1, iv1), (v2, iv2), (v3, iv3)] \<Rightarrow>
          if v2 = v1 then Inr None
          else bindr (line_through v1 iv1 v2 iv2) (\<lambda>(a, b).
               bindr (to_float v3) (\<lambda>fv3.
               bindr (to_float iv3) (\<lambda>fiv3.
                 let expected_iv3 = fadd (fmul a fv3) b
                 in Inr (if flt (fabs (fsub expected_iv3 fiv3)) tolerance then Some (a, b) else None))))
      | _ \<Rightarrow> Inr None)"

section \<open>The C expression\<close>

definition near_int :: "f64 \<Rightarrow> bool res" where
  "near_int f = bindr (to_int f) (\<lambda>n. bindr (to_float n) (\<lambda>g.
     Inr (flt (fabs (fsub f g)) tolerance)))"

definition int_expr :: "int \<Rightarrow> int \<Rightarrow> string" where
  "int_expr a_int b_int =
     (if b_int = 0 then
        (if a_int = 1 then ''val''
         else if a_int = -1 then ''(-val)''
         else ''(val * '' @ py_str a_int @ '')'')
      else if a_int = 1 then ''(val + '' @ py_str b_int @ '')''
      else if a_int = -1 then ''((-val) + '' @ py_str b_int @ '')''
      else ''((val * '' @ py_str a_int @ '') + '' @ py_str b_int @ '')'')"

definition build_expr :: "f64 \<Rightarrow> f64 \<Rightarrow> string res" where
  "build_expr a b =
     bindr (near_int a) (\<lambda>na.
     bindr (if na then near_int b else Inr False) (\<lambda>nb.
       if nb then bindr (to_int a) (\<lambda>a_int. bindr (to_int b) (\<lambda>b_int. Inr (int_expr a_int b_int)))
       else Inr (''((u64)((val * '' @ fmt6 a @ '') + '' @ fmt6 b @ ''))'')))"

section \<open>The varying constant\<close>

text \<open>\<open>0x[0-9a-fA-F]+|\b\d+\b\<close>\<close>

definition rx_num :: rx where
  "rx_num = Alt (seqs [lit ''0x'', Many 1 is_hex]) (seqs [Wb, Many 1 is_digit, Wb])"

definition num_value :: "string \<Rightarrow> int" where
  "num_value s = (case (if starts_with ''0x'' s then py_int 16 s else py_int 10 s) of
     Some n \<Rightarrow> n | None \<Rightarrow> 0)"

definition extract_nums :: "string \<Rightarrow> int list" where
  "extract_nums e = map (\<lambda>(before, m, g). num_value m) (re_finditer rx_num e)"

definition normalize_expr :: "string \<Rightarrow> string" where
  "normalize_expr e = re_sub rx_num ''N'' e"

definition try_parse_pure :: "string \<Rightarrow> int option" where
  "try_parse_pure e = (let s = py_strip e in
     if starts_with ''0x'' s \<or> starts_with ''0X'' s then py_int 16 s else py_int 10 s)"

definition extract_varying_constant :: "string \<Rightarrow> string \<Rightarrow> string \<Rightarrow> (int \<times> int \<times> int) option" where
  "extract_varying_constant e1 e2 e3 =
     (case (try_parse_pure e1, try_parse_pure e2, try_parse_pure e3) of
        (Some c1, Some c2, Some c3) \<Rightarrow> Some (c1, c2, c3)
      | _ \<Rightarrow>
          if normalize_expr e1 \<noteq> normalize_expr e2 \<or> normalize_expr e1 \<noteq> normalize_expr e3 then None
          else let n1 = extract_nums e1; n2 = extract_nums e2; n3 = extract_nums e3 in
            if n1 = [] \<or> length n1 \<noteq> length n2 \<or> length n1 \<noteq> length n3 then None
            else let diffs = filter (\<lambda>(a, b, c). \<not> (a = b \<and> b = c)) (zip n1 (zip n2 n3))
                 in (case diffs of [d] \<Rightarrow> Some d | _ \<Rightarrow> None))"

section \<open>Searching the three runs\<close>

type_synonym iv_found = "nat \<times> string \<times> string \<times> (int \<times> int \<times> int) \<times> (f64 \<times> f64)"

text \<open>One register at one step.\<close>

definition iv_at :: "(int \<times> int \<times> int) \<Rightarrow> string \<Rightarrow> string \<Rightarrow> string \<Rightarrow>
    ((int \<times> int \<times> int) \<times> (f64 \<times> f64)) option res" where
  "iv_at v_values e1 e2 e3 =
     (if e1 = [] \<or> e2 = [] \<or> e3 = [] \<or> (e1 = e2 \<and> e2 = e3) then Inr None
      else case extract_varying_constant e1 e2 e3 of
        None \<Rightarrow> Inr None
      | Some (iv1, iv2, iv3) \<Rightarrow>
          if iv1 = iv2 \<and> iv2 = iv3 then Inr None
          else (case v_values of (v1, v2, v3) \<Rightarrow>
            bindr (find_linear_relationship [Some v1, Some v2, Some v3] [Some iv1, Some iv2, Some iv3])
              (\<lambda>rel. Inr (map_option (\<lambda>ab. ((iv1, iv2, iv3), ab)) rel))))"

fun first_found :: "('a \<Rightarrow> 'b option res) \<Rightarrow> 'a list \<Rightarrow> 'b option res" where
  "first_found f [] = Inr None"
| "first_found f (x # xs) = bindr (f x) (\<lambda>r. case r of Some y \<Rightarrow> Inr (Some y) | None \<Rightarrow> first_found f xs)"

definition iv_step :: "(int \<times> int \<times> int) \<Rightarrow> (string, string) dict \<Rightarrow> nat \<Rightarrow>
    exprs \<Rightarrow> exprs \<Rightarrow> exprs \<Rightarrow> iv_found option res" where
  "iv_step v_values anon_to_real i state1 state2 state3 =
     (let all_regs = sort (remdups (dkeys state1 @ dkeys state2 @ dkeys state3))
      in first_found (\<lambda>reg.
           bindr (iv_at v_values (dget state1 reg []) (dget state2 reg []) (dget state3 reg []))
             (\<lambda>r. Inr (map_option (\<lambda>(ivs, ab). (i, reg, dget anon_to_real reg reg, ivs, ab)) r)))
           all_regs)"

definition state_of :: "snapshot \<Rightarrow> exprs" where
  "state_of s = fst (snd (snd s))"

definition find_iv_from_symstates :: "snapshot list \<Rightarrow> snapshot list \<Rightarrow> snapshot list \<Rightarrow>
    (int \<times> int \<times> int) \<Rightarrow> (string, string) dict \<Rightarrow> iv_found option res" where
  "find_iv_from_symstates states_v1 states_v2 states_v3 v_values anon_to_real =
     first_found (\<lambda>i. iv_step v_values anon_to_real i (state_of (states_v1 ! i))
         (state_of (states_v2 ! i)) (state_of (states_v3 ! i)))
       [0..<min (length states_v1) (min (length states_v2) (length states_v3))]"

section \<open>Compound expressions\<close>

definition placeholder :: string where
  "placeholder = ''__SAVED__''"

definition rx_anon :: rx where
  "rx_anon = seqs [Bol, lit ''r'', Many 1 is_digit, Eol]"

definition hide_saved :: "string \<Rightarrow> string \<Rightarrow> string" where
  "hide_saved saved_expr e =
     (if re_matches rx_anon saved_expr then re_sub (seqs [Wb, lit saved_expr, Wb]) placeholder e
      else py_replace saved_expr placeholder e)"

text \<open>
  The loop replaces matches from right to left, so the positions to the left stay valid;
  on the list of matches this is a recursion that handles the rest of the text first.
\<close>

fun replace_varying :: "string \<Rightarrow> int option list \<Rightarrow> (string \<times> string \<times> caps) list \<Rightarrow>
    (int \<times> int \<times> int) list \<Rightarrow> string \<Rightarrow> string option res" where
  "replace_varying cast v_values ((before, m, g) # ms) ((c1, c2, c3) # cs) rest =
     bindr (replace_varying cast v_values ms cs rest) (\<lambda>r. case r of
       None \<Rightarrow> Inr None
     | Some tail \<Rightarrow>
         if c1 = c2 \<and> c2 = c3 then Inr (Some (before @ m @ tail))
         else bindr (find_linear_relationship v_values [Some c1, Some c2, Some c3]) (\<lambda>rel.
           case rel of None \<Rightarrow> Inr None
           | Some (a, b) \<Rightarrow> bindr (build_expr a b) (\<lambda>expr_str.
               Inr (Some (before @ ''('' @ cast @ '')('' @ expr_str @ '')'' @ tail)))))"
| "replace_varying cast v_values _ _ rest = Inr (Some rest)"

definition build_compound_expr :: "(string \<times> string \<times> string) \<Rightarrow> string \<Rightarrow> (int \<times> int \<times> int) \<Rightarrow>
    nat \<Rightarrow> string option res" where
  "build_compound_expr effective_end_exprs saved_expr v_values reg_width =
     (case (effective_end_exprs, v_values) of ((e1, e2, e3), (v1, v2, v3)) \<Rightarrow>
       let e1_r = hide_saved saved_expr e1;
           e2_r = hide_saved saved_expr e2;
           e3_r = hide_saved saved_expr e3
       in if \<not> contains placeholder e1_r then Inr None
       else if normalize_expr e1_r \<noteq> normalize_expr e2_r \<or> normalize_expr e1_r \<noteq> normalize_expr e3_r
         then Inr None
       else let nums1 = extract_nums e1_r; nums2 = extract_nums e2_r; nums3 = extract_nums e3_r
       in if length nums1 \<noteq> length nums2 \<or> length nums1 \<noteq> length nums3 \<or> nums1 = [] then Inr None
       else let (ms, rest) = re_pieces rx_num None [] e1_r;
                cast = ''u'' @ py_str (int reg_width)
       in bindr (replace_varying cast [Some v1, Some v2, Some v3] ms (zip nums1 (zip nums2 nums3)) rest)
            (\<lambda>r. Inr (map_option (py_replace placeholder ''(*saved)'') r)))"

section \<open>Exact data\<close>

lemma tolerance_bounds: "\<exists>t. tolerance = Fin t \<and> \<bar>t - 1 / 1000\<bar> \<le> 1 / 2 ^ 60"
proof -
  have "\<bar>1 / 1000 :: rat\<bar> \<le> two (- 9)" by (simp add: two_def)
  then obtain t where "round64 (1 / 1000) = Fin t" "\<bar>t - 1 / 1000\<bar> \<le> two (- 9 - 53)"
    using round64_error [of "1 / 1000" "- 9"] by auto
  moreover have "two (- 9 - 53) \<le> 1 / 2 ^ 60" by (simp add: two_def)
  ultimately show ?thesis by (auto simp: tolerance_def)
qed

lemma below_tolerance: "x < 1 / 1001 \<Longrightarrow> flt (Fin x) tolerance"
proof -
  assume x: "x < 1 / 1001"
  obtain t where t: "tolerance = Fin t" "\<bar>t - 1 / 1000\<bar> \<le> 1 / 2 ^ 60" using tolerance_bounds by blast
  then have "1 / 1000 - 1 / 2 ^ 60 \<le> t" by linarith
  moreover have "(1 / 1001 :: rat) \<le> 1 / 1000 - 1 / 2 ^ 60" by simp
  ultimately have "x < t" using x by linarith
  then show ?thesis unfolding t(1) by simp
qed

lemma above_tolerance: "flt (Fin x) tolerance \<Longrightarrow> x < 11 / 10000"
proof -
  assume x: "flt (Fin x) tolerance"
  obtain t where t: "tolerance = Fin t" "\<bar>t - 1 / 1000\<bar> \<le> 1 / 2 ^ 60" using tolerance_bounds by blast
  then have "t \<le> 1 / 1000 + 1 / 2 ^ 60" by linarith
  moreover have "(1 / 1000 + 1 / 2 ^ 60 :: rat) < 11 / 10000" by simp
  ultimately have "t < 11 / 10000" by linarith
  moreover have "x < t" using x unfolding t(1) by simp
  ultimately show ?thesis by linarith
qed

lemma round64_zero [simp]: "round64 0 = Fin 0"
  by (simp add: round64_def)

lemma round64_numerals [simp]: "\<bar>n\<bar> \<le> 2 ^ 53 \<Longrightarrow> round64 (of_int n) = Fin (of_int n)"
  by (rule round64_int)

definition safe_ints :: "int list \<Rightarrow> bool" where
  "safe_ints ns \<longleftrightarrow> list_all (\<lambda>n. \<bar>n\<bar> \<le> 2 ^ 53) ns"

lemma line_through_exact:
  assumes "v1 \<noteq> v2" and "safe_ints [a, b, v1, a * v1, a * v1 + b]"
  shows "line_through v1 (a * v1 + b) v2 (a * v2 + b) = Inr (Fin (of_int a), Fin (of_int b))"
proof -
  have ok: "\<bar>a\<bar> \<le> 2 ^ 53" "\<bar>b\<bar> \<le> 2 ^ 53" "\<bar>v1\<bar> \<le> 2 ^ 53" "\<bar>a * v1\<bar> \<le> 2 ^ 53" "\<bar>a * v1 + b\<bar> \<le> 2 ^ 53"
    using assms(2) by (simp_all add: safe_ints_def)
  have "(of_int (a * v2 + b - (a * v1 + b)) / of_int (v2 - v1) :: rat) = of_int a"
    using assms(1) by (simp add: divide_eq_eq algebra_simps)
  then have "int_quotient (a * v2 + b - (a * v1 + b)) (v2 - v1) = Inr (Fin (of_int a))"
    by (simp add: int_quotient_def round64_int [OF ok(1)] finite_or_overflow_def)
  moreover have "fmul (Fin (of_int a)) (Fin (of_int v1)) = Fin (of_int (a * v1))"
    using round64_int [OF ok(4)] by simp
  moreover have "fsub (Fin (of_int (a * v1 + b))) (Fin (of_int (a * v1))) = Fin (of_int b)"
    using round64_int [OF ok(2)] by (simp add: fsub_def)
  ultimately show ?thesis
    using to_float_int [OF ok(3)] to_float_int [OF ok(5)] by (simp only: line_through_def bindr_simps)
qed

lemma valid_pairs3: "valid_pairs [Some a, Some b, Some c] [Some x, Some y, Some z] = [(a, x), (b, y), (c, z)]"
  by (simp add: valid_pairs_def map_filter_simps)

lemma find_linear_three:
  assumes "v1 \<noteq> v2"
  shows "find_linear_relationship [Some v1, Some v2, Some v3] [Some iv1, Some iv2, Some iv3] =
    bindr (line_through v1 iv1 v2 iv2) (\<lambda>(a, b). bindr (to_float v3) (\<lambda>fv3. bindr (to_float iv3) (\<lambda>fiv3.
      let expected_iv3 = fadd (fmul a fv3) b
      in Inr (if flt (fabs (fsub expected_iv3 fiv3)) tolerance then Some (a, b) else None))))"
  using assms by (simp add: find_linear_relationship_def valid_pairs3)

lemma find_linear_exact:
  assumes "v1 \<noteq> v2" and "safe_ints [a, b, v1, v3, a * v1, a * v3, a * v1 + b, a * v3 + b]"
  shows "find_linear_relationship [Some v1, Some v2, Some v3]
      [Some (a * v1 + b), Some (a * v2 + b), Some (a * v3 + b)] =
    Inr (Some (Fin (of_int a), Fin (of_int b)))"
proof -
  have ok: "\<bar>v3\<bar> \<le> 2 ^ 53" "\<bar>a * v3\<bar> \<le> 2 ^ 53" "\<bar>a * v3 + b\<bar> \<le> 2 ^ 53"
    using assms(2) by (simp_all add: safe_ints_def)
  have l: "line_through v1 (a * v1 + b) v2 (a * v2 + b) = Inr (Fin (of_int a), Fin (of_int b))"
    using assms by (intro line_through_exact) (simp_all add: safe_ints_def)
  have m: "fmul (Fin (of_int a)) (Fin (of_int v3)) = Fin (of_int (a * v3))"
    using round64_int [OF ok(2)] by simp
  have p: "fadd (Fin (of_int (a * v3))) (Fin (of_int b)) = Fin (of_int (a * v3 + b))"
    using round64_int [OF ok(3)] by simp
  have z: "fabs (fsub (Fin x) (Fin x)) = Fin 0" for x by (simp add: fsub_def)
  have "flt (Fin 0) tolerance" by (rule below_tolerance) simp
  then show ?thesis
    unfolding find_linear_three [OF assms(1)] l bindr_simps prod.case to_float_int [OF ok(1)]
      to_float_int [OF ok(3)] m p Let_def z by simp
qed

lemma near_int_exact: "\<bar>n\<bar> \<le> 2 ^ 53 \<Longrightarrow> near_int (Fin (of_int n)) = Inr True"
  using below_tolerance [of 0] by (simp add: near_int_def to_float_int fsub_def)

lemma build_expr_exact:
  "\<bar>a\<bar> \<le> 2 ^ 53 \<Longrightarrow> \<bar>b\<bar> \<le> 2 ^ 53 \<Longrightarrow> build_expr (Fin (of_int a)) (Fin (of_int b)) = Inr (int_expr a b)"
  by (simp add: build_expr_def near_int_exact)

subsection \<open>The value of the C expression\<close>

text \<open>The C expressions written, over \<open>u64 val\<close>; literals are converted to \<open>u64\<close>.\<close>

datatype cx = CVal | CLit int | CNeg cx | CAdd cx cx | CMul cx cx

fun c_text :: "cx \<Rightarrow> string" where
  "c_text CVal = ''val''"
| "c_text (CLit n) = py_str n"
| "c_text (CNeg e) = ''(-'' @ c_text e @ '')''"
| "c_text (CAdd e f) = ''('' @ c_text e @ '' + '' @ c_text f @ '')''"
| "c_text (CMul e f) = ''('' @ c_text e @ '' * '' @ c_text f @ '')''"

fun c_eval :: "64 word \<Rightarrow> cx \<Rightarrow> 64 word" where
  "c_eval v CVal = v"
| "c_eval v (CLit n) = of_int n"
| "c_eval v (CNeg e) = - c_eval v e"
| "c_eval v (CAdd e f) = c_eval v e + c_eval v f"
| "c_eval v (CMul e f) = c_eval v e * c_eval v f"

definition linear_cx :: "int \<Rightarrow> int \<Rightarrow> cx" where
  "linear_cx a b =
     (let t = (if a = 1 then CVal else if a = -1 then CNeg CVal else CMul CVal (CLit a))
      in if b = 0 then t else CAdd t (CLit b))"

lemma int_expr_text: "int_expr a b = c_text (linear_cx a b)"
  by (simp add: int_expr_def linear_cx_def Let_def)

lemma linear_cx_value: "c_eval v (linear_cx a b) = of_int a * v + of_int b"
  by (auto simp: linear_cx_def Let_def)

definition fitted_expr :: "int \<times> int \<times> int \<Rightarrow> int \<times> int \<times> int \<Rightarrow> string option res" where
  "fitted_expr v iv = (case (v, iv) of ((v1, v2, v3), (iv1, iv2, iv3)) \<Rightarrow>
     bindr (find_linear_relationship [Some v1, Some v2, Some v3] [Some iv1, Some iv2, Some iv3]) (\<lambda>r.
       case r of None \<Rightarrow> Inr None | Some (a, b) \<Rightarrow> bindr (build_expr a b) (\<lambda>e. Inr (Some e))))"

text \<open>
  C3: for immediates that are an integer line over the source values, within the integers a
  double holds exactly, the coefficients found are that line's and the C expression written
  from them computes, in \<open>u64\<close> arithmetic, \<open>a * val + b\<close>: at each source value, the immediate.
\<close>

theorem fitted_expr_exact:
  assumes "v1 \<noteq> v2" and "safe_ints [a, b, v1, v3, a * v1, a * v3, a * v1 + b, a * v3 + b]"
  shows "fitted_expr (v1, v2, v3) (a * v1 + b, a * v2 + b, a * v3 + b) = Inr (Some (c_text (linear_cx a b))) \<and>
    c_eval (of_int v) (linear_cx a b) = of_int (a * v + b)"
proof -
  have "\<bar>a\<bar> \<le> 2 ^ 53" "\<bar>b\<bar> \<le> 2 ^ 53" using assms(2) by (simp_all add: safe_ints_def)
  then show ?thesis
    using find_linear_exact [OF assms] build_expr_exact
    by (simp add: fitted_expr_def int_expr_text linear_cx_value)
qed

theorem fitted_expr_exact_witness:
  "fitted_expr (8, 9, 10) (27, 30, 33) = Inr (Some ''((val * 3) + 3)'') \<and>
   c_eval 9 (linear_cx 3 3) = 30"
proof -
  have "c_text (linear_cx 3 3) = ''((val * 3) + 3)''" by code_simp
  then show ?thesis using fitted_expr_exact [of 8 9 3 3 10 9] by (simp add: safe_ints_def)
qed

subsection \<open>What a fit means\<close>

text \<open>A float that is within \<open>e\<close> of \<open>x\<close> and at most \<open>2 ^ k\<close>.\<close>

definition approx :: "f64 \<Rightarrow> rat \<Rightarrow> int \<Rightarrow> rat \<Rightarrow> bool" where
  "approx f x k e \<longleftrightarrow> (\<exists>y. f = Fin y \<and> \<bar>y - x\<bar> \<le> e \<and> \<bar>y\<bar> \<le> two k)"

lemma approx_round:
  "\<bar>y\<bar> \<le> two k \<Longrightarrow> - 1022 \<le> k \<Longrightarrow> k < 1024 \<Longrightarrow> \<bar>y - x\<bar> + two (k - 53) \<le> e \<Longrightarrow> approx (round64 y) x k e"
  using round64_error [of y k] unfolding approx_def by fastforce

lemma abs_mult_le: "\<bar>x\<bar> \<le> a \<Longrightarrow> \<bar>y\<bar> \<le> b \<Longrightarrow> \<bar>x * y\<bar> \<le> a * b" for x y a b :: rat
  by (simp add: abs_mult mult_mono')

lemma abs_rat: "\<bar>n\<bar> \<le> 2 ^ k \<Longrightarrow> \<bar>of_int n :: rat\<bar> \<le> 2 ^ k"
  by (metis of_int_abs of_int_le_iff of_int_numeral of_int_power)

lemma abs_rat_diff: "\<bar>m\<bar> \<le> 2 ^ k \<Longrightarrow> \<bar>n\<bar> \<le> 2 ^ k \<Longrightarrow> \<bar>of_int (m - n) :: rat\<bar> \<le> 2 ^ Suc k"
  using abs_rat [of "m - n" "Suc k"] by simp

lemma approx_mult:
  assumes "approx f q 25 (1 / 2 ^ 28)" and "\<bar>v\<bar> \<le> 2 ^ 8"
  shows "approx (fmul f (Fin v)) (q * v) 33 (1 / 2 ^ 19)"
proof -
  obtain y where y: "f = Fin y" "\<bar>y - q\<bar> \<le> 1 / 2 ^ 28" "\<bar>y\<bar> \<le> 2 ^ 25"
    using assms(1) by (auto simp: approx_def two_def)
  have "\<bar>y * v\<bar> \<le> two 33" using abs_mult_le [OF y(3) assms(2)] by (simp add: two_def)
  moreover have "\<bar>y * v - q * v\<bar> \<le> 1 / 2 ^ 28 * 2 ^ 8"
    using abs_mult_le [OF y(2) assms(2)] by (simp add: left_diff_distrib)
  ultimately show ?thesis by (auto simp: y(1) two_def intro!: approx_round)
qed

lemma line_through_approx:
  assumes v: "\<bar>v1\<bar> \<le> 2 ^ 8" "\<bar>v2\<bar> \<le> 2 ^ 8" "v1 \<noteq> v2" and iv: "\<bar>iv1\<bar> \<le> 2 ^ 24" "\<bar>iv2\<bar> \<le> 2 ^ 24"
  defines "q \<equiv> of_int (iv2 - iv1) / of_int (v2 - v1)"
  shows "\<exists>a b. line_through v1 iv1 v2 iv2 = Inr (a, b) \<and> approx a q 25 (1 / 2 ^ 28) \<and>
    approx b (of_int iv1 - q * of_int v1) 34 (1 / 2 ^ 18)"
proof -
  have "\<bar>of_int (iv2 - iv1)\<bar> \<le> (2 ^ 25 :: rat)" using abs_rat_diff [OF iv(2,1)] by simp
  moreover have "1 \<le> \<bar>of_int (v2 - v1) :: rat\<bar>"
  proof -
    have "1 \<le> \<bar>v2 - v1\<bar>" using v(3) by linarith
    then have "of_int 1 \<le> (of_int \<bar>v2 - v1\<bar> :: rat)" by (simp only: of_int_le_iff)
    then show ?thesis by simp
  qed
  ultimately have "\<bar>q\<bar> \<le> 2 ^ 25 / 1" unfolding q_def abs_divide by (intro frac_le) auto
  then have a: "approx (round64 q) q 25 (1 / 2 ^ 28)" by (intro approx_round) (simp_all add: two_def)
  then obtain y where y: "round64 q = Fin y" by (auto simp: approx_def)
  then have iq: "int_quotient (iv2 - iv1) (v2 - v1) = Inr (Fin y)"
    by (simp add: int_quotient_def q_def finite_or_overflow_def)
  have "\<bar>of_int v1 :: rat\<bar> \<le> 2 ^ 8" by (rule abs_rat [OF v(1)])
  with a y have "approx (fmul (Fin y) (Fin (of_int v1))) (q * of_int v1) 33 (1 / 2 ^ 19)"
    by (intro approx_mult) simp_all
  then obtain p where p: "fmul (Fin y) (Fin (of_int v1)) = Fin p" "\<bar>p - q * of_int v1\<bar> \<le> 1 / 2 ^ 19" "\<bar>p\<bar> \<le> 2 ^ 33"
    by (auto simp: approx_def two_def)
  have i: "\<bar>of_int iv1 :: rat\<bar> \<le> 2 ^ 24" by (rule abs_rat [OF iv(1)])
  have "\<bar>of_int iv1 - p\<bar> \<le> \<bar>of_int iv1\<bar> + \<bar>p\<bar>" by (rule abs_triangle_ineq4)
  with p(3) i have "\<bar>of_int iv1 - p\<bar> \<le> 2 ^ 34" by simp
  moreover have "\<bar>(of_int iv1 - p) - (of_int iv1 - q * of_int v1)\<bar> \<le> 1 / 2 ^ 19"
    using p(2) by (simp add: abs_minus_commute)
  ultimately have "approx (round64 (of_int iv1 - p)) (of_int iv1 - q * of_int v1) 34 (1 / 2 ^ 18)"
    by (intro approx_round) (simp_all add: two_def)
  moreover have "to_float v1 = Inr (Fin (of_int v1))" "to_float iv1 = Inr (Fin (of_int iv1))"
    using v(1) iv(1) by (intro to_float_int; simp)+
  ultimately show ?thesis
    using a p(1) y iq by (simp add: line_through_def fsub_def del: fmul.simps)
qed

text \<open>
  C32: for small data (source values up to \<open>2 ^ 8\<close>, immediates up to \<open>2 ^ 24\<close>), where the
  rounding errors stay below the tolerance of 0.001, a relationship is found exactly when the
  three points are on a line; no error is raised.
\<close>

theorem find_linear_iff_collinear:
  assumes "list_all (\<lambda>v. \<bar>v\<bar> \<le> 2 ^ 8) [v1, v2, v3]" and "v1 \<noteq> v2"
    and "list_all (\<lambda>iv. \<bar>iv\<bar> \<le> 2 ^ 24) [iv1, iv2, iv3]"
  shows "\<exists>r. find_linear_relationship [Some v1, Some v2, Some v3] [Some iv1, Some iv2, Some iv3] = Inr r \<and>
    (r \<noteq> None \<longleftrightarrow> (iv2 - iv1) * (v3 - v1) = (iv3 - iv1) * (v2 - v1))"
proof -
  define q :: rat where "q = of_int (iv2 - iv1) / of_int (v2 - v1)"
  define x where "x = q * of_int (v3 - v1) - of_int (iv3 - iv1)"
  have bounds: "\<bar>v1\<bar> \<le> 2 ^ 8" "\<bar>v2\<bar> \<le> 2 ^ 8" "\<bar>v3\<bar> \<le> 2 ^ 8" "\<bar>iv1\<bar> \<le> 2 ^ 24" "\<bar>iv2\<bar> \<le> 2 ^ 24" "\<bar>iv3\<bar> \<le> 2 ^ 24"
    using assms by simp_all
  obtain a b where ab: "line_through v1 iv1 v2 iv2 = Inr (a, b)" "approx a q 25 (1 / 2 ^ 28)"
    "approx b (of_int iv1 - q * of_int v1) 34 (1 / 2 ^ 18)"
    using line_through_approx [OF bounds(1,2) assms(2) bounds(4,5)] unfolding q_def by blast
  have "\<bar>of_int v3 :: rat\<bar> \<le> 2 ^ 8" by (rule abs_rat [OF bounds(3)])
  then obtain p where p: "fmul a (Fin (of_int v3)) = Fin p" "\<bar>p - q * of_int v3\<bar> \<le> 1 / 2 ^ 19" "\<bar>p\<bar> \<le> 2 ^ 33"
    using approx_mult [OF ab(2)] by (auto simp: approx_def two_def)
  obtain c where c: "b = Fin c" "\<bar>c - (of_int iv1 - q * of_int v1)\<bar> \<le> 1 / 2 ^ 18" "\<bar>c\<bar> \<le> 2 ^ 34"
    using ab(3) by (auto simp: approx_def two_def)
  have "approx (round64 (p + c)) (x + of_int iv3) 35 (1 / 2 ^ 16)"
  proof (rule approx_round)
    show "\<bar>p + c\<bar> \<le> two 35" using p(3) c(3) by (simp add: two_def)
    have "x + of_int iv3 = q * of_int v3 + (of_int iv1 - q * of_int v1)"
      by (simp add: x_def algebra_simps)
    then have "\<bar>p + c - (x + of_int iv3)\<bar> \<le> 1 / 2 ^ 19 + 1 / 2 ^ 18" using p(2) c(2) by linarith
    then show "\<bar>p + c - (x + of_int iv3)\<bar> + two (35 - 53) \<le> 1 / 2 ^ 16" by (simp add: two_def)
  qed simp_all
  then obtain e where e: "fadd (Fin p) b = Fin e" "\<bar>e - (x + of_int iv3)\<bar> \<le> 1 / 2 ^ 16" "\<bar>e\<bar> \<le> 2 ^ 35"
    by (auto simp: approx_def two_def c(1))
  have "approx (round64 (e - of_int iv3)) x 36 (1 / 2 ^ 15)"
  proof (rule approx_round)
    have "\<bar>of_int iv3 :: rat\<bar> \<le> 2 ^ 24" by (rule abs_rat [OF bounds(6)])
    then show "\<bar>e - of_int iv3\<bar> \<le> two 36" using e(3) by (simp add: two_def)
    have "\<bar>e - of_int iv3 - x\<bar> \<le> 1 / 2 ^ 16" using e(2) by (simp add: diff_diff_add add.commute)
    then show "\<bar>e - of_int iv3 - x\<bar> + two (36 - 53) \<le> 1 / 2 ^ 15" by (simp add: two_def)
  qed simp_all
  then obtain f where f: "fsub (Fin e) (Fin (of_int iv3)) = Fin f" "\<bar>f - x\<bar> \<le> 1 / 2 ^ 15"
    by (auto simp: approx_def fsub_def)
  have "to_float v3 = Inr (Fin (of_int v3))" "to_float iv3 = Inr (Fin (of_int iv3))"
    using bounds(3,6) by (intro to_float_int; simp)+
  then have "find_linear_relationship [Some v1, Some v2, Some v3] [Some iv1, Some iv2, Some iv3] =
      Inr (if flt (Fin \<bar>f\<bar>) tolerance then Some (a, b) else None)"
    unfolding find_linear_three [OF assms(2)] ab(1) by (simp add: p(1) e(1) f(1) del: fmul.simps fadd.simps)
  moreover have "flt (Fin \<bar>f\<bar>) tolerance \<longleftrightarrow> (iv2 - iv1) * (v3 - v1) = (iv3 - iv1) * (v2 - v1)"
  proof
    assume "flt (Fin \<bar>f\<bar>) tolerance"
    then have "\<bar>f\<bar> < 11 / 10000" by (rule above_tolerance)
    moreover have "\<bar>f - x\<bar> \<le> 1 / 32768" using f(2) by simp
    ultimately have "\<bar>x\<bar> \<le> 12 / 10000" by linarith
    moreover have "\<bar>of_int (v2 - v1) :: rat\<bar> \<le> 2 ^ 9" using abs_rat_diff [OF bounds(2,1)] by simp
    ultimately have "\<bar>x * of_int (v2 - v1)\<bar> \<le> 12 / 10000 * 2 ^ 9" by (rule abs_mult_le)
    moreover have "x * of_int (v2 - v1) = of_int ((iv2 - iv1) * (v3 - v1) - (iv3 - iv1) * (v2 - v1))"
      using assms(2) by (simp add: x_def q_def field_simps)
    ultimately have "\<bar>of_int ((iv2 - iv1) * (v3 - v1) - (iv3 - iv1) * (v2 - v1)) :: rat\<bar> < 1" by simp
    then show "(iv2 - iv1) * (v3 - v1) = (iv3 - iv1) * (v2 - v1)" by linarith
  next
    assume l: "(iv2 - iv1) * (v3 - v1) = (iv3 - iv1) * (v2 - v1)"
    have "q * of_int (v3 - v1) = of_int ((iv2 - iv1) * (v3 - v1)) / of_int (v2 - v1)"
      by (simp add: q_def)
    also have "\<dots> = of_int (iv3 - iv1)" using assms(2) by (simp add: l)
    finally have "x = 0" by (simp add: x_def)
    then have "\<bar>f\<bar> < 1 / 1001" using f(2) by simp
    then show "flt (Fin \<bar>f\<bar>) tolerance" by (rule below_tolerance)
  qed
  ultimately show ?thesis by (metis option.distinct(1))
qed

theorem find_linear_iff_collinear_witness:
  "(\<exists>r. find_linear_relationship [Some 1, Some 4, Some 10] [Some 7, Some 8, Some 10] = Inr r \<and>
      (r \<noteq> None \<longleftrightarrow> (8 - 7) * (10 - 1) = (10 - 7) * (4 - (1::int)))) \<and>
   (\<exists>r. find_linear_relationship [Some 1, Some 4, Some 10] [Some 7, Some 8, Some 11] = Inr r \<and>
      (r \<noteq> None \<longleftrightarrow> (8 - 7) * (10 - 1) = (11 - 7) * (4 - (1::int))))"
  using find_linear_iff_collinear [of 1 4 10 7 8 10] find_linear_iff_collinear [of 1 4 10 7 8 11] by simp

section \<open>Where the tolerance is too wide\<close>

lemma round64_small: "\<bar>x\<bar> \<le> two k \<Longrightarrow> - 1022 \<le> k \<Longrightarrow> k < 1024 \<Longrightarrow> \<exists>y. round64 x = Fin y \<and> \<bar>y\<bar> \<le> two k"
  using round64_error [of x k] by blast

lemma round64_same_sign: "0 \<le> x \<Longrightarrow> round64 x = Fin y \<Longrightarrow> 0 \<le> y"
  using round_even_nonneg [of "x / two (ulp_exp x)"]
  by (auto simp: round64_def Let_def less_imp_le split: if_splits)

text \<open>
  The tolerance of 0.001 is absolute, so with widely spread source values it accepts points that
  are not on a line: for the values 0, 10000, 1 and the immediates 0, 1, 0 the expression
  written is \<open>(val * 0)\<close>, which is wrong at 10000.
\<close>

theorem tolerance_accepts_no_line:
  "fitted_expr (0, 10000, 1) (0, 1, 0) = Inr (Some ''(val * 0)'')"
proof -
  let ?q = "1 / 10000 :: rat"
  have q: "\<bar>?q\<bar> \<le> two (- 13)" by (simp add: two_def)
  then obtain a where a: "round64 ?q = Fin a" "\<bar>a\<bar> \<le> two (- 13)"
    using round64_small [OF q] by auto
  then have nn: "0 \<le> a" using round64_same_sign [of ?q a] by simp
  obtain e where e: "round64 a = Fin e" "\<bar>e\<bar> \<le> two (- 13)" using round64_small [OF a(2)] by auto
  obtain f where f: "round64 e = Fin f" "\<bar>f\<bar> \<le> two (- 13)" using round64_small [OF e(2)] by auto
  obtain g where g: "round64 f = Fin g" "\<bar>g\<bar> \<le> two (- 13)" using round64_small [OF f(2)] by auto
  have tol: "flt (Fin \<bar>x\<bar>) tolerance" if "\<bar>x\<bar> \<le> two (- 13)" for x
    using that by (intro below_tolerance) (simp add: two_def)
  have ints: "to_float 0 = Inr (Fin 0)" "to_float 1 = Inr (Fin 1)"
    using to_float_int [of 0] to_float_int [of 1] by simp_all
  have "line_through 0 0 10000 1 = Inr (Fin a, Fin 0)"
    using a(1) by (simp add: line_through_def int_quotient_def finite_or_overflow_def ints fsub_def)
  then have find: "find_linear_relationship [Some 0, Some 10000, Some 1] [Some 0, Some 1, Some 0] =
      Inr (Some (Fin a, Fin 0))"
    using e f g tol [OF g(2)] by (simp add: find_linear_three ints fsub_def Let_def)
  have "\<lfloor>a\<rfloor> = 0" using nn a(2) by (simp add: floor_eq_iff two_def)
  then have "to_int (Fin a) = Inr 0" using nn by simp
  moreover have "py_str 0 = ''0''" by code_simp
  moreover have "to_int (Fin 0) = Inr 0" by simp
  ultimately have "build_expr (Fin a) (Fin 0) = Inr ''(val * 0)''"
    using e tol [OF e(2)] near_int_exact [of 0]
    by (simp add: build_expr_def near_int_def ints fsub_def int_expr_def del: to_int.simps)
  with find show ?thesis by (simp add: fitted_expr_def)
qed

end
