(* ===== verification/Kprobe_Synth.thy ===== *)
theory Kprobe_Synth
  imports BB_Files Expr_Diff Iv_Linear
begin

text \<open>
  From a varying constant to kprobes: the per-block part of
  \<open>analyze_linear_relationship\<close> (\<open>src/src/codegen.py\<close>), which picks the kind of
  synthesis (register, irreversible register, memory store, compare), the register or
  memory operand, and the instruction offsets a kprobe may be placed at; and the older
  suggestion functions \<open>find_insertion_point_for_linear_relationship\<close> and
  \<open>generate_insertion_instruction\<close>. Progress messages are not modelled.
\<close>

section \<open>The relation as text\<close>

definition rel_int :: "int \<Rightarrow> int \<Rightarrow> string" where
  "rel_int a_int b_int =
     (if b_int = 0 then
        (if a_int = -1 then ''IV = -V''
         else if a_int \<noteq> 1 then ''IV = '' @ py_str a_int @ '' * V'' else ''IV = V'')
      else if a_int = 1 then ''IV = V + '' @ py_str b_int
      else if a_int = -1 then ''IV = -V + '' @ py_str b_int
      else ''IV = '' @ py_str a_int @ '' * V + '' @ py_str b_int)"

definition both_near_int :: "f64 \<Rightarrow> f64 \<Rightarrow> bool res" where
  "both_near_int a b = bindr (near_int a) (\<lambda>na. if na then near_int b else Inr False)"

definition rel_str :: "f64 \<Rightarrow> f64 \<Rightarrow> string res" where
  "rel_str a b =
     bindr (both_near_int a b) (\<lambda>ints.
       if ints then bindr (to_int a) (\<lambda>a_int. bindr (to_int b) (\<lambda>b_int. Inr (rel_int a_int b_int)))
       else Inr (''IV = '' @ fmt6 a @ '' * V + '' @ fmt6 b))"

section \<open>Offsets and mnemonics of instruction lines\<close>

definition clean_line :: "string \<Rightarrow> string" where
  "clean_line l = strip_marker (py_strip l)"

definition rel_offset :: "int option \<Rightarrow> int \<Rightarrow> int" where
  "rel_offset func_base raw_addr = (case func_base of Some b \<Rightarrow> raw_addr - b | None \<Rightarrow> raw_addr)"

definition inst_offset :: "int option \<Rightarrow> string \<Rightarrow> int option" where
  "inst_offset func_base l = map_option (rel_offset func_base) (line_addr (clean_line l))"

text \<open>The first addressed line after a step.\<close>

definition next_offset :: "int option \<Rightarrow> nat \<Rightarrow> string list \<Rightarrow> int option" where
  "next_offset func_base step_idx all_insts =
     first_some (inst_offset func_base) (drop (Suc step_idx) all_insts)"

text \<open>The text after the first tab of the line (\<open>asm_part\<close>), and its first word.\<close>

definition asm_of :: "string \<Rightarrow> string option" where
  "asm_of l = (let c = clean_line l in
     case find_char TAB c of None \<Rightarrow> None | Some tab_pos \<Rightarrow> Some (py_strip (drop (tab_pos + 1) c)))"

definition asm_mnemonic :: "string \<Rightarrow> string" where
  "asm_mnemonic asm_part = (case split_ws asm_part of [] \<Rightarrow> [] | w # ws \<Rightarrow> py_lower w)"

definition line_at :: "nat \<Rightarrow> string list \<Rightarrow> string option" where
  "line_at i ls = (if i < length ls then Some (ls ! i) else None)"

definition seed_mnemonic_at :: "nat \<Rightarrow> string list \<Rightarrow> string option" where
  "seed_mnemonic_at step_idx all_insts =
     (case line_at step_idx all_insts of None \<Rightarrow> None | Some l \<Rightarrow> map_option asm_mnemonic (asm_of l))"

section \<open>Memory stores\<close>

definition rx_disp :: rx where
  "rx_disp = Alt (seqs [Bol, Opt (lit ''-''), lit ''0x'', Many 1 is_hex, Eol])
                 (seqs [Bol, Opt (lit ''-''), Many 1 is_digit, Eol])"

definition disp_value :: "string \<Rightarrow> int res" where
  "disp_value part = or_value_error
     (if contains ''0x'' (py_lower part) then py_int 16 part else py_int 10 part)"

text \<open>The parts of \<open>mem:[disp+base]\<close>: later parts overwrite earlier ones, others are skipped.\<close>

fun mem_parts :: "int \<Rightarrow> string option \<Rightarrow> string list \<Rightarrow> (int \<times> string option) res" where
  "mem_parts mem_disp mem_base [] = Inr (mem_disp, mem_base)"
| "mem_parts mem_disp mem_base (p # ps) =
     (let part = py_strip p in
      if re_matches rx_disp part then bindr (disp_value part) (\<lambda>d. mem_parts d mem_base ps)
      else if re_matches rx_anon part then mem_parts mem_disp (Some part) ps
      else mem_parts mem_disp mem_base ps)"

definition mem_target :: "(string, string) dict \<Rightarrow> string \<Rightarrow> (int \<times> string option) res" where
  "mem_target anon_to_real anon_reg =
     bindr (mem_parts 0 None (split_on CHR ''+'' (butlast (drop 5 anon_reg)))) (\<lambda>(disp, base).
       Inr (disp, map_option (\<lambda>r. dget anon_to_real r r) base))"

definition size_suffix_map :: "(char, nat) dict" where
  "size_suffix_map = [(CHR ''b'', 1), (CHR ''w'', 2), (CHR ''l'', 4), (CHR ''q'', 8)]"

definition write_size_of :: "string option \<Rightarrow> nat" where
  "write_size_of seed_mnemonic = (case seed_mnemonic of
     None \<Rightarrow> 4
   | Some m \<Rightarrow> if m = [] then 4 else dget size_suffix_map (last m) 4)"

section \<open>Compares with an immediate\<close>

text \<open>\<open>int(s, 0)\<close> for a signed decimal or \<open>0x\<close> literal; leading zeros raise.\<close>

definition int_lit :: "string \<Rightarrow> int option" where
  "int_lit s = (let u = (if starts_with ''-'' s then drop 1 s else s) in
     if starts_with ''0x'' u then py_int 16 s
     else if starts_with ''0'' u \<and> list_ex (\<lambda>c. c \<noteq> CHR ''0'') u then None
     else py_int 10 s)"

definition rx_cmp_mem :: rx where
  "rx_cmp_mem = seqs [Bol, Opt (Grp 1 (seqs [Opt (lit ''-''),
       Alt (seqs [lit ''0x'', Many 1 is_hex]) (Many 1 is_digit)])),
     lit ''(%'', Grp 2 (Many 1 is_word), lit '')'', Eol]"

definition cmp_mem_size :: "string \<Rightarrow> nat" where
  "cmp_mem_size m = (if ends_with ''q'' m then 64 else if ends_with ''w'' m then 16
     else if ends_with ''b'' m then 8 else 32)"

definition regs64_names :: "string list" where
  "regs64_names = [''rax'', ''rbx'', ''rcx'', ''rdx'', ''rsi'', ''rdi'', ''rbp'', ''rsp'',
     ''r8'', ''r9'', ''r10'', ''r11'', ''r12'', ''r13'', ''r14'', ''r15'']"

definition cmp_reg_size :: "string \<Rightarrow> nat" where
  "cmp_reg_size r = (if r \<in> set regs64_names then 64 else 32)"

record cmp_operand =
  cmp_reg :: string
  cmp_size :: nat
  cmp_mem :: "(string \<times> int) option"

text \<open>The second operand of the compare; \<open>None\<close> when there is none that can be used.\<close>

definition cmp_operand_of :: "string \<Rightarrow> cmp_operand option res" where
  "cmp_operand_of asm_part = (case split_ws asm_part of
     [] \<Rightarrow> Inl IndexError
   | w # ws \<Rightarrow>
       (case map py_strip (split_on CHR '','' (py_strip (drop (length w) asm_part))) of
          [src, raw_operand] \<Rightarrow>
            (case re_match rx_cmp_mem raw_operand of
               Some (g, _) \<Rightarrow>
                 bindr (or_value_error (int_lit (if group g 1 = [] then ''0'' else group g 1))) (\<lambda>disp.
                   Inr (Some \<lparr>cmp_reg = group g 2, cmp_size = cmp_mem_size (py_lower w),
                     cmp_mem = Some (group g 2, disp)\<rparr>))
             | None \<Rightarrow>
                 (let r = lstrip_by (\<lambda>c. c = CHR ''%'') raw_operand in
                  if r = [] then Inr None
                  else Inr (Some \<lparr>cmp_reg = r, cmp_size = cmp_reg_size r, cmp_mem = None\<rparr>)))
        | _ \<Rightarrow> Inr None))"

definition cmp_operand_at :: "nat \<Rightarrow> string list \<Rightarrow> cmp_operand option res" where
  "cmp_operand_at step_idx all_insts = (case line_at step_idx all_insts of
     None \<Rightarrow> Inr None
   | Some l \<Rightarrow> (case asm_of l of None \<Rightarrow> Inr None | Some asm_part \<Rightarrow> cmp_operand_of asm_part))"

section \<open>Registers\<close>

definition target_register :: "nat \<Rightarrow> string list \<Rightarrow> string \<Rightarrow> string" where
  "target_register step_idx all_insts real_reg =
     (case line_at step_idx all_insts of
        None \<Rightarrow> real_reg
      | Some l \<Rightarrow> (case re_search rx_target_reg (clean_line l) of
          None \<Rightarrow> real_reg
        | Some g \<Rightarrow> if group g 1 = [] then real_reg else group g 1))"

definition irreversible_base :: "string list" where
  "irreversible_base = [''shr'', ''shl'', ''sar'', ''sal'', ''imul'', ''mul'', ''and'']"

text \<open>The mnemonic of the seed without its size suffix; empty when there is none.\<close>

definition base_seed_mnemonic :: "nat \<Rightarrow> string list \<Rightarrow> string" where
  "base_seed_mnemonic step_idx all_insts = (case seed_mnemonic_at step_idx all_insts of
     None \<Rightarrow> [] | Some m \<Rightarrow> strip_size_suffix m)"

definition seed_irreversible :: "nat \<Rightarrow> string list \<Rightarrow> bool" where
  "seed_irreversible step_idx all_insts \<longleftrightarrow>
     base_seed_mnemonic step_idx all_insts \<in> set irreversible_base"

definition seed_offset_at :: "int option \<Rightarrow> nat \<Rightarrow> string list \<Rightarrow> int option" where
  "seed_offset_at func_base step_idx all_insts = (case line_at step_idx all_insts of
     None \<Rightarrow> None | Some l \<Rightarrow> inst_offset func_base l)"

text \<open>\<open>sbb %reg,%reg\<close> right before the seed leaves 0 or all ones in the register.\<close>

definition sbb_self :: "string \<Rightarrow> bool" where
  "sbb_self asm_part = (case split_ws asm_part of
     w # v # ws \<Rightarrow> py_lower w \<in> {''sbb'', ''sbbl'', ''sbbw'', ''sbbq''} \<and>
       (case map py_strip (split_on CHR '','' (join '' '' (v # ws))) of
          [o1, o2] \<Rightarrow> o1 = o2 | _ \<Rightarrow> False)
   | _ \<Rightarrow> False)"

definition sbb_self_before :: "nat \<Rightarrow> string list \<Rightarrow> bool" where
  "sbb_self_before step_idx all_insts \<longleftrightarrow> 0 < step_idx \<and>
     (case line_at (step_idx - 1) all_insts of None \<Rightarrow> False
      | Some l \<Rightarrow> (case asm_of l of None \<Rightarrow> False | Some a \<Rightarrow> sbb_self a))"

definition expr_at :: "snapshot list \<Rightarrow> nat \<Rightarrow> string \<Rightarrow> string \<Rightarrow> string" where
  "expr_at states j reg dflt = dget (state_of (states ! j)) reg dflt"

text \<open>How far the register keeps being changed by varying instructions after the seed.\<close>

fun end_scan :: "snapshot list \<Rightarrow> snapshot list \<Rightarrow> snapshot list \<Rightarrow> string \<Rightarrow> nat \<Rightarrow> nat list \<Rightarrow> nat" where
  "end_scan s1 s2 s3 reg e [] = e"
| "end_scan s1 s2 s3 reg e (j # js) =
     (let e1 = expr_at s1 j reg []; e2 = expr_at s2 j reg []; e3 = expr_at s3 j reg [] in
      if e1 = e2 \<and> e2 = e3 then e
      else if e1 \<noteq> expr_at s1 (j - 1) reg [] then end_scan s1 s2 s3 reg j js
      else e)"

definition effective_end :: "snapshot list \<Rightarrow> snapshot list \<Rightarrow> snapshot list \<Rightarrow> string \<Rightarrow> nat \<Rightarrow> nat" where
  "effective_end s1 s2 s3 reg step_idx = end_scan s1 s2 s3 reg step_idx
     [Suc step_idx..<min (length s1) (min (length s2) (length s3))]"

definition saved_expr_at :: "snapshot list \<Rightarrow> string \<Rightarrow> nat \<Rightarrow> string" where
  "saved_expr_at s1 reg step_idx = (if 0 < step_idx then expr_at s1 (step_idx - 1) reg reg else reg)"

definition reg_width_of :: "string \<Rightarrow> nat" where
  "reg_width_of r = (if starts_with ''e'' r \<or> ends_with ''d'' r then 32 else 64)"

text \<open>Offsets from the first addressed line up to and including the first reader of the family.\<close>

fun site_scan :: "int option \<Rightarrow> string \<Rightarrow> string list \<Rightarrow> int list" where
  "site_scan func_base family [] = []"
| "site_scan func_base family (l # ls) = (case inst_offset func_base l of
     None \<Rightarrow> site_scan func_base family ls
   | Some offset \<Rightarrow>
       offset # (if instruction_reads_register l family then [] else site_scan func_base family ls))"

section \<open>One kprobe per block\<close>

text \<open>
  The dictionaries appended to \<open>generated_kprobes\<close>: the common keys are fields, the keys of
  one synthesis type are the arguments of its constructor (seed offset, compound expression and
  \<open>sbb\<close> flag; memory base, displacement and write size; compare operand).
\<close>

datatype synthesis =
    Simple
  | Irreversible "int option" string bool
  | MemoryStore "string option" int nat
  | CmpImmediate cmp_operand

record kprobe =
  kp_bb_idx :: nat
  kp_function_name :: string
  kp_relationship :: "f64 \<times> f64"
  kp_rel_str :: string
  kp_actual_reg_name :: "string option"
  kp_offset :: int
  kp_candidate_offsets :: "int list"
  kp_changed_instruction :: "string option"
  kp_changed_instructions :: "string list"
  kp_all_instructions :: "string list"
  kp_synthesis :: synthesis
  kp_seed_mnemonic :: string

type_synonym three_runs = "snapshot list \<times> snapshot list \<times> snapshot list"

type_synonym plan = "(int \<times> int list \<times> synthesis \<times> string option \<times> string) option res"

definition memory_plan :: "int option \<Rightarrow> (string, string) dict \<Rightarrow> string \<Rightarrow> nat \<Rightarrow> string list \<Rightarrow> plan" where
  "memory_plan func_base anon_to_real anon_reg step_idx all_insts =
     bindr (mem_target anon_to_real anon_reg) (\<lambda>(disp, base).
       Inr (case next_offset func_base step_idx all_insts of
         None \<Rightarrow> None
       | Some k \<Rightarrow> Some (k, [k],
           MemoryStore base disp (write_size_of (seed_mnemonic_at step_idx all_insts)), None, [])))"

definition cmp_plan :: "int option \<Rightarrow> nat \<Rightarrow> string list \<Rightarrow> plan" where
  "cmp_plan func_base step_idx all_insts =
     bindr (cmp_operand_at step_idx all_insts) (\<lambda>opd. Inr (case opd of
       None \<Rightarrow> None
     | Some c \<Rightarrow> (case next_offset func_base step_idx all_insts of
         None \<Rightarrow> None
       | Some k \<Rightarrow> Some (k, [k], CmpImmediate c, None, []))))"

definition register_sites :: "int option \<Rightarrow> bb \<Rightarrow> string \<Rightarrow> nat \<Rightarrow> string list \<Rightarrow> (int \<times> int list) option" where
  "register_sites func_base bb1 reg end_idx all_insts =
     (case site_scan func_base (get_register_family reg) (drop (Suc end_idx) all_insts) of
        k # ks \<Rightarrow> Some (k, k # ks)
      | [] \<Rightarrow> (case kprobe_addr_offset bb1 of
          None \<Rightarrow> None
        | Some k \<Rightarrow> Some (k, (case candidate_offsets bb1 of
            Some (c # cs) \<Rightarrow> c # cs | _ \<Rightarrow> [k]))))"

definition register_plan :: "int option \<Rightarrow> bb \<Rightarrow> three_runs \<Rightarrow> (int \<times> int \<times> int) \<Rightarrow> string \<Rightarrow> string \<Rightarrow>
    nat \<Rightarrow> string list \<Rightarrow> plan" where
  "register_plan func_base bb1 states v_values anon_reg real_reg step_idx all_insts =
     (let reg = target_register step_idx all_insts real_reg;
          seed = base_seed_mnemonic step_idx all_insts;
          (s1, s2, s3) = states
      in if reg = [] then Inr None
      else if seed_irreversible step_idx all_insts then
        (let e = effective_end s1 s2 s3 anon_reg step_idx in
         bindr (build_compound_expr
             (expr_at s1 e anon_reg [], expr_at s2 e anon_reg [], expr_at s3 e anon_reg [])
             (saved_expr_at s1 anon_reg step_idx) v_values (reg_width_of reg)) (\<lambda>expr.
           Inr (case expr of
             None \<Rightarrow> None
           | Some compound_expr \<Rightarrow> map_option (\<lambda>(k, ks). (k, ks,
               Irreversible (seed_offset_at func_base step_idx all_insts) compound_expr
                 (sbb_self_before step_idx all_insts),
               Some reg, seed))
               (register_sites func_base bb1 reg e all_insts))))
      else Inr (map_option (\<lambda>(k, ks). (k, ks, Simple, Some reg, seed))
             (register_sites func_base bb1 reg step_idx all_insts)))"

definition plan_of :: "int option \<Rightarrow> bb \<Rightarrow> three_runs \<Rightarrow> (string, string) dict \<Rightarrow> (int \<times> int \<times> int) \<Rightarrow>
    iv_found \<Rightarrow> plan" where
  "plan_of func_base bb1 states anon_to_real v_values iv =
     (case iv of (step_idx, anon_reg, real_reg, ivs, ab) \<Rightarrow>
        if starts_with ''mem:'' anon_reg
        then memory_plan func_base anon_to_real anon_reg step_idx (all_instructions bb1)
        else if anon_reg = ''FLAGS'' then cmp_plan func_base step_idx (all_instructions bb1)
        else register_plan func_base bb1 states v_values anon_reg real_reg step_idx (all_instructions bb1))"

definition runs_of :: "bb \<Rightarrow> bb \<Rightarrow> bb \<Rightarrow> three_runs" where
  "runs_of bb1 bb2 bb3 = (fst (run_symbolic_exec_on_instructions (all_instructions bb1)),
     fst (run_symbolic_exec_on_instructions (all_instructions bb2)),
     fst (run_symbolic_exec_on_instructions (all_instructions bb3)))"

text \<open>
  One round of the loop: whether a relationship was found, and the kprobe if one could be
  placed. \<open>re.escape(None)\<close> raises when the block names no function.
\<close>

definition synth_block :: "string option \<Rightarrow> (int \<times> int \<times> int) \<Rightarrow> nat \<Rightarrow> bb \<Rightarrow> bb \<Rightarrow> bb \<Rightarrow>
    (bool \<times> kprobe option) res" where
  "synth_block v1_file v_values bb_idx bb1 bb2 bb3 =
     (if all_instructions bb1 = [] \<or> all_instructions bb2 = [] \<or> all_instructions bb3 = []
      then Inr (False, None)
      else let (s1, s2, s3) = runs_of bb1 bb2 bb3;
               anon_to_real = snd (run_symbolic_exec_on_instructions (all_instructions bb1))
      in bindr (find_iv_from_symstates s1 s2 s3 v_values anon_to_real) (\<lambda>found. case found of
           None \<Rightarrow> Inr (False, None)
         | Some iv \<Rightarrow>
             (case iv of (step_idx, anon_reg, real_reg, ivs, (a, b)) \<Rightarrow>
              bindr (rel_str a b) (\<lambda>rel.
              (case function_name bb1 of
                 None \<Rightarrow> Inl TypeError
               | Some name \<Rightarrow>
                  bindr (plan_of (extract_function_base_from_bb_file v1_file name) bb1 (s1, s2, s3)
                      anon_to_real v_values iv) (\<lambda>p.
                    Inr (True, map_option (\<lambda>(k, ks, syn, reg, seed).
                      \<lparr>kp_bb_idx = bb_idx, kp_function_name = name, kp_relationship = (a, b),
                       kp_rel_str = rel, kp_actual_reg_name = reg, kp_offset = k,
                       kp_candidate_offsets = ks,
                       kp_changed_instruction = changed_instruction bb1,
                       kp_changed_instructions = changed_instructions bb1,
                       kp_all_instructions = all_instructions bb1,
                       kp_synthesis = syn, kp_seed_mnemonic = seed\<rparr>) p)))))))"

text \<open>The loop over the matching blocks; \<open>None\<close> when no block has a relationship.\<close>

definition synth_blocks :: "string option \<Rightarrow> string option \<Rightarrow> string option \<Rightarrow> (int \<times> int \<times> int) \<Rightarrow>
    kprobe list option res" where
  "synth_blocks v1_file v2_file v3_file v_values =
     (let bbs_v1 = extract_all_basic_blocks_from_file v1_file;
          bbs_v2 = extract_all_basic_blocks_from_file v2_file;
          bbs_v3 = extract_all_basic_blocks_from_file v3_file;
          num_blocks = min (length bbs_v1) (min (length bbs_v2) (length bbs_v3))
      in bindr (mapr (\<lambda>i. synth_block v1_file v_values i (bbs_v1 ! i) (bbs_v2 ! i) (bbs_v3 ! i))
             [0..<num_blocks]) (\<lambda>rs.
           Inr (if list_ex fst rs then Some (List.map_filter snd rs) else None)))"

section \<open>Suggesting an instruction to insert\<close>

text \<open>A set that is known to have at most one element, as a Python list's first element.\<close>

definition set_first :: "'a set \<Rightarrow> 'a option" where
  "set_first A = (if A = {} then None else Some (the_elem A))"

definition dst_register :: "string \<Rightarrow> string option" where
  "dst_register inst = (case parse_instruction inst of
     None \<Rightarrow> None
   | Some (address, mnemonic, operands) \<Rightarrow>
       if length operands \<ge> 2 \<and> starts_with ''%'' (last operands)
       then Some (drop 1 (last operands)) else None)"

definition first_consumer :: "effect \<Rightarrow> snapshot list \<Rightarrow> nat \<Rightarrow> nat option" where
  "first_consumer target full_sequence first_idx =
     find (\<lambda>i. target \<in> consumed (get_instruction_effects (fst (full_sequence ! i))))
       [Suc first_idx..<length full_sequence]"

text \<open>
  \<open>target_name\<close> and \<open>actual_reg_name\<close> are kept as the code has them: an empty string
  counts as missing.
\<close>

definition find_insertion_point :: "difference list \<Rightarrow> snapshot list \<Rightarrow>
    (nat \<times> string \<times> string \<times> string \<times> string) option" where
  "find_insertion_point differences full_sequence = (case differences of
     [] \<Rightarrow> None
   | (first_idx, inst1, _) # _ \<Rightarrow>
       if \<not> truthy inst1 then None
       else let first_inst = the inst1;
                eff = get_instruction_effects first_inst;
                actual = dst_register first_inst;
                base = (case actual of None \<Rightarrow> [] | Some r \<Rightarrow> get_base_register r);
                target = (case set_first (fst eff) of
                    Some r \<Rightarrow> Some (RegEff r, r, ''R'')
                  | None \<Rightarrow> (case set_first (fst (snd eff)) of
                      Some m \<Rightarrow> Some (MemEff m, m, ''M'') | None \<Rightarrow> None))
            in case target of
                 None \<Rightarrow> None
               | Some (e, text, target_type) \<Rightarrow>
                   let target_name = (if base = [] then text else base);
                       insertion_idx = (case first_consumer e full_sequence first_idx of
                         Some i \<Rightarrow> i | None \<Rightarrow> first_idx + 1)
                   in if text = [] then None
                      else Some (insertion_idx, target_type, target_name, first_inst,
                        (if actual = None \<or> actual = Some [] then target_name else the actual)))"

text \<open>The text written after \<open>Set\<close> or \<open>To set\<close>, and the listed instructions.\<close>

definition insertion_lines :: "string \<Rightarrow> string \<Rightarrow> int \<Rightarrow> int \<Rightarrow> string list" where
  "insertion_lines t x a_int b_int =
     (if b_int = 0 then
        (if a_int = 1 then [''mov $'' @ x @ '', %'' @ t @ ''  # Set '' @ t @ '' = '' @ x]
         else [''# To set '' @ t @ '' = '' @ py_str a_int @ '' * '' @ x @ '':'',
               ''#   mov $'' @ x @ '', %'' @ t,
               ''#   imul $'' @ py_str a_int @ '', %'' @ t])
      else if a_int = 1 then
        [''# To set '' @ t @ '' = '' @ x @ '' + '' @ py_str b_int @ '':'',
         ''#   mov $'' @ x @ '', %'' @ t,
         ''#   add $'' @ py_str b_int @ '', %'' @ t]
      else if a_int = -1 then
        [''# To set '' @ t @ '' = -'' @ x @ '' + '' @ py_str b_int @ '':'',
         ''#   mov $'' @ x @ '', %'' @ t,
         ''#   neg %'' @ t,
         ''#   add $'' @ py_str b_int @ '', %'' @ t]
      else
        [''# To set '' @ t @ '' = '' @ py_str a_int @ '' * '' @ x @ '' + '' @ py_str b_int @ '':'',
         ''#   mov $'' @ x @ '', %'' @ t,
         ''#   imul $'' @ py_str a_int @ '', %'' @ t,
         ''#   add $'' @ py_str b_int @ '', %'' @ t])"

definition generate_insertion_instruction :: "string \<Rightarrow> string \<Rightarrow> f64 \<Rightarrow> f64 \<Rightarrow> string \<Rightarrow> string res" where
  "generate_insertion_instruction target_type target_name a b new_value_name =
     bindr (both_near_int a b) (\<lambda>ints.
       if ints then bindr (to_int a) (\<lambda>a_int. bindr (to_int b) (\<lambda>b_int.
         Inr (if target_type = ''R''
              then join [NL] (insertion_lines target_name new_value_name a_int b_int)
              else ''# To modify memory '' @ target_name @ '' = '' @ py_str a_int @ '' * ''
                @ new_value_name @ '' + '' @ py_str b_int)))
       else Inr (''# To set '' @ target_name @ '' = '' @ fmt6 a @ '' * '' @ new_value_name @ '' + ''
         @ fmt6 b @ '' (non-integer, complex calculation needed)''))"

section \<open>Properties\<close>

subsection \<open>Where a kprobe goes\<close>

lemma inst_offset_upto:
  "site_scan func_base family ls =
     map (\<lambda>l. the (inst_offset func_base l))
       (upto_first (\<lambda>l. instruction_reads_register l family)
         (filter (\<lambda>l. inst_offset func_base l \<noteq> None) ls))"
  by (induction ls) (auto split: option.splits)

lemma first_some_site: "site_scan func_base family ls = k # ks \<Longrightarrow>
    first_some (inst_offset func_base) ls = Some k"
  by (induction ls) (auto split: option.splits)

lemma site_scan_Nil: "site_scan func_base family ls = [] \<longleftrightarrow> first_some (inst_offset func_base) ls = None"
  by (induction ls) (auto split: option.splits)

lemma upto_first_reads:
  "xs \<noteq> [] \<Longrightarrow> \<exists>pre x rest. xs = pre @ x # rest \<and> upto_first P xs = pre @ [x] \<and>
     (\<forall>y \<in> set pre. \<not> P y) \<and> (P x \<or> rest = [])"
proof (induction xs)
  case (Cons a xs)
  show ?case
  proof (cases "P a \<or> xs = []")
    case True
    then show ?thesis by (intro exI [of _ "[]"] exI [of _ a] exI [of _ xs]) auto
  next
    case False
    with Cons.IH obtain pre x rest where "xs = pre @ x # rest" "upto_first P xs = pre @ [x]"
      "\<forall>y \<in> set pre. \<not> P y" "P x \<or> rest = []" by blast
    with False show ?thesis by (intro exI [of _ "a # pre"] exI [of _ x] exI [of _ rest]) auto
  qed
qed simp

text \<open>
  C20: when an instruction follows the last one that sets the register, a register kprobe is
  placed at the first such instruction, and the candidates are the instructions from it up to
  the first one that reads the register's family (or the end of the block), so that no
  instruction before a candidate has read the value the kprobe replaces.
\<close>

theorem register_sites_window:
  assumes "register_sites func_base bb1 reg e insts = Some (k, ks)"
    and "next_offset func_base e insts \<noteq> None"
  shows "next_offset func_base e insts = Some k \<and>
    (\<exists>pre x rest. filter (\<lambda>l. inst_offset func_base l \<noteq> None) (drop (Suc e) insts) = pre @ x # rest \<and>
       map Some ks = map (inst_offset func_base) (pre @ [x]) \<and>
       list_all (\<lambda>l. \<not> instruction_reads_register l (get_register_family reg)) pre \<and>
       (instruction_reads_register x (get_register_family reg) \<or> rest = []))"
proof -
  let ?fam = "get_register_family reg"
  let ?ls = "filter (\<lambda>l. inst_offset func_base l \<noteq> None) (drop (Suc e) insts)"
  from assms(2) have "site_scan func_base ?fam (drop (Suc e) insts) \<noteq> []"
    by (simp add: site_scan_Nil next_offset_def)
  with assms(1) have s: "site_scan func_base ?fam (drop (Suc e) insts) = ks \<and> (\<exists>ks'. ks = k # ks')"
    by (auto simp: register_sites_def split: list.splits) metis
  then have k: "next_offset func_base e insts = Some k"
    unfolding next_offset_def using first_some_site by blast
  from s have "?ls \<noteq> []" by (auto simp: inst_offset_upto)
  from upto_first_reads [OF this] obtain pre x rest where p: "?ls = pre @ x # rest"
    "upto_first (\<lambda>l. instruction_reads_register l ?fam) ?ls = pre @ [x]"
    "\<forall>y \<in> set pre. \<not> instruction_reads_register y ?fam"
    "instruction_reads_register x ?fam \<or> rest = []" by blast
  have all: "inst_offset func_base l \<noteq> None" if "l \<in> set (pre @ [x])" for l
  proof -
    have "l \<in> set ?ls" unfolding p(1) using that by auto
    then show ?thesis by simp
  qed
  have ks: "ks = map (\<lambda>l. the (inst_offset func_base l)) (pre @ [x])"
    using s by (simp only: inst_offset_upto p(2))
  have "map Some ks = map (inst_offset func_base) (pre @ [x])"
    unfolding ks map_map map_eq_conv comp_def using all by fastforce
  with k p show ?thesis unfolding list_all_iff by blast
qed

theorem register_sites_window_witness:
  "let insts = [''[*] 10:'' @ TAB # ''mov $0x5,%eax'', ''15:'' @ TAB # ''nop'', ''16:'' @ TAB # ''ret'']
   in next_offset (Some 16) 0 insts = Some 5"
proof -
  let ?i = "[''[*] 10:'' @ TAB # ''mov $0x5,%eax'', ''15:'' @ TAB # ''nop'', ''16:'' @ TAB # ''ret'']"
  have "register_sites (Some 16) empty_bb ''eax'' 0 ?i = Some (5, [5, 6])" by code_simp
  moreover have "next_offset (Some 16) 0 ?i \<noteq> None" by code_simp
  ultimately show ?thesis
    using register_sites_window [of "Some 16" empty_bb "''eax''" 0 ?i 5 "[5, 6]"] by simp
qed

subsection \<open>The chosen offset is the first candidate\<close>

text \<open>What the reader of basic-block files keeps: the kprobe address is the first candidate.\<close>

definition sites_ok :: "bb \<Rightarrow> bool" where
  "sites_ok b \<longleftrightarrow> (changed_addr b = None \<longrightarrow> kprobe_addr b = None) \<and>
     (\<forall>a. kprobe_addr b = Some a \<longrightarrow> (\<exists>as. candidate_addrs b = Some (a # as))) \<and>
     kprobe_addr_offset b = None"

lemma sites_ok_empty: "sites_ok empty_bb"
  by (simp add: sites_ok_def empty_bb_def)

lemma sites_ok_step: "sites_ok b \<Longrightarrow> sites_ok (bb_step l ls b)"
  by (auto simp: sites_ok_def bb_step_def bb_instruction_def note_changed_def Let_def
      split: option.splits list.splits if_splits)

lemma sites_ok_scan: "(\<And>b. cur = Some b \<Longrightarrow> sites_ok b) \<Longrightarrow> list_all sites_ok (scan_blocks cur ls)"
  by (induction cur ls rule: scan_blocks.induct)
    (auto simp: sites_ok_empty sites_ok_step split: option.splits)

lemma add_offsets_first:
  assumes "sites_ok b" and "kprobe_addr_offset (add_offsets file b) = Some k"
  shows "\<exists>ks. candidate_offsets (add_offsets file b) = Some (k # ks)"
proof -
  from assms have "kprobe_addr b \<noteq> None"
    by (auto simp: sites_ok_def add_offsets_def Let_def split: option.splits if_splits)
  then obtain a as where a: "kprobe_addr b = Some a" "candidate_addrs b = Some (a # as)"
    using assms(1) by (auto simp: sites_ok_def)
  with assms show ?thesis
    unfolding add_offsets_def Let_def
    by (auto simp: sites_ok_def split: option.splits if_splits)
qed

lemma block_sites:
  assumes "b \<in> set (extract_all_basic_blocks_from_file file)" and "kprobe_addr_offset b = Some k"
  shows "\<exists>ks. candidate_offsets b = Some (k # ks)"
proof -
  from assms(1) obtain c b0 where "file = Some c" "b0 \<in> set (scan_blocks None (readlines c))"
    "b = add_offsets file b0"
    by (auto simp: extract_all_basic_blocks_from_file_def split: option.splits)
  moreover have "list_all sites_ok (scan_blocks None (readlines c))" for c by (rule sites_ok_scan) simp
  ultimately show ?thesis using assms(2) add_offsets_first by (fastforce simp: list_all_iff)
qed

lemma register_sites_first:
  assumes "register_sites func_base b reg e insts = Some (k, ks)"
    and "\<And>k. kprobe_addr_offset b = Some k \<Longrightarrow> \<exists>ks. candidate_offsets b = Some (k # ks)"
  shows "\<exists>ks'. ks = k # ks'"
proof (cases "site_scan func_base (get_register_family reg) (drop (Suc e) insts)")
  case Nil
  with assms(1) obtain k' where k': "kprobe_addr_offset b = Some k'"
    by (auto simp: register_sites_def split: option.splits)
  with assms(2) obtain ks' where "candidate_offsets b = Some (k' # ks')" by blast
  with assms(1) Nil k' show ?thesis by (auto simp: register_sites_def)
next
  case (Cons a as)
  with assms(1) show ?thesis by (auto simp: register_sites_def)
qed

lemma memory_plan_first:
  "memory_plan func_base ar a i insts = Inr (Some (k, ks, r)) \<Longrightarrow> \<exists>ks'. ks = k # ks'"
  by (auto simp: memory_plan_def bindr_Inr_conv split: option.splits)

lemma cmp_plan_first: "cmp_plan func_base i insts = Inr (Some (k, ks, r)) \<Longrightarrow> \<exists>ks'. ks = k # ks'"
  unfolding cmp_plan_def bindr_Inr_conv by (elim exE conjE) (auto split: option.splits)

lemma register_plan_first:
  assumes "register_plan func_base b states vs ar rr i insts = Inr (Some (k, ks, r))"
    and "\<And>k. kprobe_addr_offset b = Some k \<Longrightarrow> \<exists>ks. candidate_offsets b = Some (k # ks)"
  shows "\<exists>ks'. ks = k # ks'"
proof -
  from assms(1) have "\<exists>reg e. register_sites func_base b reg e insts = Some (k, ks)"
    by (auto simp: register_plan_def Let_def bindr_Inr_conv split: prod.splits if_splits option.splits)
  with register_sites_first assms(2) show ?thesis by metis
qed

lemma plan_first:
  assumes "plan_of func_base b states ar vs iv = Inr (Some (k, ks, r))"
    and "\<And>k. kprobe_addr_offset b = Some k \<Longrightarrow> \<exists>ks. candidate_offsets b = Some (k # ks)"
  shows "\<exists>ks'. ks = k # ks'"
  using assms(1) unfolding plan_of_def
  by (cases iv) (auto split: if_splits dest: memory_plan_first cmp_plan_first
      register_plan_first [OF _ assms(2)])

lemma mapr_nth: "mapr f xs = Inr ys \<Longrightarrow> i < length xs \<Longrightarrow> f (xs ! i) = Inr (ys ! i)"
proof (induction xs arbitrary: ys i)
  case (Cons x xs)
  then show ?case by (cases i) (auto simp: bindr_Inr_conv)
qed simp

lemma synth_block_kprobe:
  assumes "synth_block v1_file vs i b1 b2 b3 = Inr (f, Some kp)"
    and "\<And>k. kprobe_addr_offset b1 = Some k \<Longrightarrow> \<exists>ks. candidate_offsets b1 = Some (k # ks)"
  shows "f \<and> kp_bb_idx kp = i \<and> kp_all_instructions kp = all_instructions b1 \<and>
    function_name b1 = Some (kp_function_name kp) \<and>
    (\<exists>ks. kp_candidate_offsets kp = kp_offset kp # ks)"
  using assms(1)
  by (auto simp: synth_block_def Let_def bindr_Inr_conv split: prod.splits if_splits option.splits
      dest!: plan_first [OF _ assms(2)])

lemma map_filter_sorted:
  "(\<And>i y. i < length xs \<Longrightarrow> g (xs ! i) = Some y \<Longrightarrow> key y = n + i) \<Longrightarrow>
   sorted_wrt (<) (map key (List.map_filter g xs)) \<and>
   (\<forall>y \<in> set (List.map_filter g xs). n \<le> key y)"
proof (induction xs arbitrary: n)
  case (Cons x xs)
  have "sorted_wrt (<) (map key (List.map_filter g xs)) \<and>
    (\<forall>y \<in> set (List.map_filter g xs). Suc n \<le> key y)"
    by (rule Cons.IH) (use Cons.prems [of "Suc _"] in force)
  moreover have "key y = n" if "g x = Some y" for y using Cons.prems [of 0 y] that by simp
  ultimately show ?case by (auto simp: List.map_filter_simps split: option.splits)
qed (simp add: List.map_filter_simps)

text \<open>
  C21: every kprobe generated for a test group belongs to one block, at most one kprobe per
  block and in block order, with that block's function and instructions, and the offset it is
  placed at is the first of its candidates.
\<close>

theorem kprobes_per_block:
  assumes "synth_blocks f1 f2 f3 vs = Inr (Some kps)"
  shows "sorted_wrt (<) (map kp_bb_idx kps) \<and>
    list_all (\<lambda>kp. kp_bb_idx kp < length (extract_all_basic_blocks_from_file f1) \<and>
      (let b = extract_all_basic_blocks_from_file f1 ! kp_bb_idx kp in
         function_name b = Some (kp_function_name kp) \<and>
         kp_all_instructions kp = all_instructions b) \<and>
      kp_candidate_offsets kp \<noteq> [] \<and> kp_offset kp = hd (kp_candidate_offsets kp)) kps"
proof -
  let ?b = "\<lambda>f i. extract_all_basic_blocks_from_file f ! i"
  let ?n = "min (length (extract_all_basic_blocks_from_file f1))
    (min (length (extract_all_basic_blocks_from_file f2)) (length (extract_all_basic_blocks_from_file f3)))"
  from assms obtain rs where rs: "mapr (\<lambda>i. synth_block f1 vs i (?b f1 i) (?b f2 i) (?b f3 i)) [0..<?n] = Inr rs"
    and kps: "kps = List.map_filter snd rs"
    by (auto simp: synth_blocks_def Let_def bindr_Inr_conv split: if_splits)
  have len: "length rs = ?n" using mapr_Inr_length [OF rs] by simp
  have at: "i < ?n \<and> kp_bb_idx kp = i \<and> kp_all_instructions kp = all_instructions (?b f1 i) \<and>
      function_name (?b f1 i) = Some (kp_function_name kp) \<and>
      (\<exists>ks. kp_candidate_offsets kp = kp_offset kp # ks)"
    if "i < length rs" "snd (rs ! i) = Some kp" for i kp
  proof -
    have i: "i < ?n" using that(1) len by simp
    have "synth_block f1 vs i (?b f1 i) (?b f2 i) (?b f3 i) = Inr (fst (rs ! i), Some kp)"
      using mapr_nth [OF rs, of i] i that(2) by (cases "rs ! i") simp
    moreover have "?b f1 i \<in> set (extract_all_basic_blocks_from_file f1)" using i by simp
    ultimately show ?thesis using synth_block_kprobe block_sites i by blast
  qed
  have "sorted_wrt (<) (map kp_bb_idx kps)"
    unfolding kps using map_filter_sorted [of rs snd kp_bb_idx 0] at by fastforce
  moreover have "\<exists>i < length rs. snd (rs ! i) = Some kp" if "kp \<in> set kps" for kp
    using that unfolding kps by (auto simp: map_filter_eq in_set_conv_nth)
  ultimately show ?thesis unfolding list_all_iff Let_def using at by fastforce
qed

text \<open>A block whose first instruction loads the varying immediate.\<close>

definition demo_insts :: "string \<Rightarrow> string list" where
  "demo_insts v = [''[*] 10:'' @ TAB # ''b8'' @ TAB # ''mov    $'' @ v @ '',%eax'',
     ''15:'' @ TAB # ''c3'' @ TAB # ''ret'']"

definition demo_file :: "string \<Rightarrow> string option" where
  "demo_file v = Some (join [NL] ([''Basic Block: lines 1-2'', ''Function: f''] @ demo_insts v))"

definition demo_run :: "string \<Rightarrow> snapshot list" where
  "demo_run v = [(demo_insts v ! 0, ''10'', [(''r0'', v)], [(''r0'', v)]),
     (demo_insts v ! 1, ''15'', [(''r0'', v)], [(''r0'', v)])]"

lemma demo_evaluated:
  "map (\<lambda>b. (function_name b, all_instructions b)) (extract_all_basic_blocks_from_file (demo_file ''0x5'')) =
     [(Some ''f'', demo_insts ''0x5'')]"
  "map (\<lambda>b. (function_name b, all_instructions b)) (extract_all_basic_blocks_from_file (demo_file ''0x6'')) =
     [(Some ''f'', demo_insts ''0x6'')]"
  "map (\<lambda>b. (function_name b, all_instructions b)) (extract_all_basic_blocks_from_file (demo_file ''0x7'')) =
     [(Some ''f'', demo_insts ''0x7'')]"
  "run_symbolic_exec_on_instructions (demo_insts ''0x5'') = (demo_run ''0x5'', [(''r0'', ''rax'')])"
  "run_symbolic_exec_on_instructions (demo_insts ''0x6'') = (demo_run ''0x6'', [(''r0'', ''rax'')])"
  "run_symbolic_exec_on_instructions (demo_insts ''0x7'') = (demo_run ''0x7'', [(''r0'', ''rax'')])"
  "extract_function_base_from_bb_file (demo_file ''0x5'') ''f'' = None"
  "target_register 0 (demo_insts ''0x5'') ''rax'' = ''eax''"
  "seed_irreversible 0 (demo_insts ''0x5'') = False"
  "site_scan None (get_register_family ''eax'') (drop 1 (demo_insts ''0x5'')) = [21]"
  "extract_varying_constant ''0x5'' ''0x6'' ''0x7'' = Some (5, 6, 7)"
  by code_simp+

lemma demo_line: "find_linear_relationship [Some 5, Some 6, Some 7] [Some 5, Some 6, Some 7] = Inr (Some (Fin 1, Fin 0))"
  using find_linear_exact [of 5 6 1 0 7] by (simp add: safe_ints_def)

lemma demo_iv:
  "find_iv_from_symstates (demo_run ''0x5'') (demo_run ''0x6'') (demo_run ''0x7'') (5, 6, 7) [(''r0'', ''rax'')] =
   Inr (Some (0, ''r0'', ''rax'', (5, 6, 7), (Fin 1, Fin 0)))"
  by (simp add: find_iv_from_symstates_def demo_run_def upt_rec iv_step_def state_of_def dkeys_def
      dget_def iv_at_def demo_evaluated demo_line)

lemma demo_rel: "rel_str (Fin 1) (Fin 0) = Inr ''IV = V''"
  using near_int_exact [of 1] near_int_exact [of 0] by (simp add: rel_str_def both_near_int_def rel_int_def)

lemma demo_block:
  assumes b: "all_instructions b1 = demo_insts ''0x5''" "function_name b1 = Some ''f''"
    "all_instructions b2 = demo_insts ''0x6''" "all_instructions b3 = demo_insts ''0x7''"
  shows "\<exists>kp. synth_block (demo_file ''0x5'') (5, 6, 7) 0 b1 b2 b3 = Inr (True, Some kp) \<and>
    kp_bb_idx kp = 0 \<and> kp_offset kp = 21 \<and> kp_synthesis kp = Simple"
proof -
  have r: "runs_of b1 b2 b3 = (demo_run ''0x5'', demo_run ''0x6'', demo_run ''0x7'')"
    by (simp add: runs_of_def b demo_evaluated)
  have ne: "demo_insts v \<noteq> []" for v by (simp add: demo_insts_def)
  have s: "register_sites None b1 ''eax'' 0 (demo_insts ''0x5'') = Some (21, [21])"
    using demo_evaluated(10) by (simp add: register_sites_def)
  have p: "plan_of None b1 (demo_run ''0x5'', demo_run ''0x6'', demo_run ''0x7'') [(''r0'', ''rax'')] (5, 6, 7)
      (0, ''r0'', ''rax'', (5, 6, 7), (Fin 1, Fin 0)) =
    Inr (Some (21, [21], Simple, Some ''eax'', base_seed_mnemonic 0 (demo_insts ''0x5'')))"
    by (simp add: plan_of_def register_plan_def b demo_evaluated Let_def s)
  show ?thesis
    by (simp add: synth_block_def r b ne demo_evaluated demo_iv demo_rel p)
qed

lemma demo_kprobe:
  "\<exists>kp. synth_blocks (demo_file ''0x5'') (demo_file ''0x6'') (demo_file ''0x7'') (5, 6, 7) = Inr (Some [kp])
     \<and> kp_offset kp = 21"
proof -
  have "\<exists>b. extract_all_basic_blocks_from_file f = [b] \<and> function_name b = Some n \<and> all_instructions b = i"
    if "map (\<lambda>b. (function_name b, all_instructions b)) (extract_all_basic_blocks_from_file f) = [(Some n, i)]"
    for f n i using that by auto
  from this [OF demo_evaluated(1)] this [OF demo_evaluated(2)] this [OF demo_evaluated(3)]
  obtain b1 b2 b3 where b: "extract_all_basic_blocks_from_file (demo_file ''0x5'') = [b1]"
    "extract_all_basic_blocks_from_file (demo_file ''0x6'') = [b2]"
    "extract_all_basic_blocks_from_file (demo_file ''0x7'') = [b3]"
    "all_instructions b1 = demo_insts ''0x5''" "function_name b1 = Some ''f''"
    "all_instructions b2 = demo_insts ''0x6''" "all_instructions b3 = demo_insts ''0x7''" by blast
  from demo_block [OF b(4-7)] obtain kp where kp: "kp_offset kp = 21"
    "synth_block (demo_file ''0x5'') (5, 6, 7) 0 b1 b2 b3 = Inr (True, Some kp)" by blast
  then have "synth_blocks (demo_file ''0x5'') (demo_file ''0x6'') (demo_file ''0x7'') (5, 6, 7) = Inr (Some [kp])"
    by (simp add: synth_blocks_def b upt_rec map_filter_simps)
  with kp(1) show ?thesis by blast
qed

theorem kprobes_per_block_witness:
  "\<exists>kp. synth_blocks (demo_file ''0x5'') (demo_file ''0x6'') (demo_file ''0x7'') (5, 6, 7) = Inr (Some [kp])
     \<and> kp_offset kp = 21 \<and> kp_offset kp = hd (kp_candidate_offsets kp)"
proof -
  obtain kp where kp: "kp_offset kp = 21"
    "synth_blocks (demo_file ''0x5'') (demo_file ''0x6'') (demo_file ''0x7'') (5, 6, 7) = Inr (Some [kp])"
    using demo_kprobe by blast
  with kprobes_per_block [OF this(2)] show ?thesis by auto
qed

subsection \<open>The memory operand of a store\<close>

lemma regs64_facts:
  "list_all (\<lambda>r. r \<noteq> [] \<and> list_all is_word r \<and> get_base_register (py_strip (py_lower r)) = r) regs64_names"
  by code_simp

lemma regs64_fact:
  assumes "r \<in> set regs64_names"
  shows "r \<noteq> []" "list_all is_word r" "get_base_register (py_strip (py_lower r)) = r"
  using regs64_facts assms by (auto simp: list_all_iff)

lemma get_anonymous_reg_map:
  "get_anonymous_reg st r = (st', a) \<Longrightarrow> map_of (reg_map st') (get_base_register (py_strip (py_lower r))) = Some a"
  by (auto simp: get_anonymous_reg_def Let_def split: option.splits)

lemma is_word_not: "is_word c \<Longrightarrow> c \<notin> set ''%(),+:$ -[]''"
  by (auto simp: is_word_def)

lemma hex0x_word: "0 \<le> n \<Longrightarrow> list_all is_word (hex0x n)"
  using digs_hex [of 16 _ "nat n"] is_hex_is_word
  by (auto simp: hex0x_def hex_of_def list_all_iff) (simp_all add: is_word_def)

lemma digs_hex_all: "list_all is_hex (digs 16 n)"
  using digs_hex [of 16] by (simp add: list_all_iff)

lemma rx_mem_store:
  assumes "r \<noteq> []" "list_all is_word r" "0 \<le> n"
  shows "re_match rx_mem (hex0x n @ ''(%'' @ r @ '')'') =
    Some ([(1, hex0x n), (2, CHR ''%'' # r)], [])"
proof -
  let ?d = "digs 16 (nat n)"
  have h: "hex0x n = ''0x'' @ ?d" using assms(3) by (simp add: hex0x_def hex_of_def)
  have nc: "list_all (not_of '')'') (CHR ''%'' # r)"
    using assms(2) is_word_not by (fastforce simp: list_all_iff not_of_def)
  have neg: "fails (lit ''-'') None (''0x'' @ ?d @ ''(%'' @ r @ '')'')" by (rule fails_lit) simp_all
  have num: "runs (Alt (seqs [Opt (lit ''-''), lit ''0x'', Many 1 is_hex])
      (seqs [Opt (lit ''-''), Many 1 is_digit])) None (''0x'' @ ?d @ ''(%'' @ r @ '')'') []
      (prev_after None (''0x'' @ ?d)) (''(%'' @ r @ '')'') []"
    unfolding seqs.simps prev_after_append [symmetric]
    by (intro runs_Alt_left runs_Seq [OF runs_Opt_none [OF neg]] runs_Seq [OF runs_lit] runs_Many)
      (simp_all add: digs_hex_all is_hex_def Suc_le_eq)
  have "runs rx_mem None ((''0x'' @ ?d) @ ''('' @ (CHR ''%'' # r) @ '')'') []
      (Some CHR '')'') [] (dput 2 (CHR ''%'' # r) (dput 1 (''0x'' @ ?d) []))"
    unfolding rx_mem_def seqs.simps
    apply (rule runs_Seq [OF runs_Opt_some [OF runs_Grp]])
     apply (use num in simp)
    apply (rule runs_Seq [OF runs_lit])
    apply (rule runs_Seq [OF runs_Grp [OF runs_Many]])
       apply (use nc in \<open>simp_all add: not_of_def\<close>)
    apply (use runs_lit [of "'')''" _ "[]"] in \<open>simp add: prev_after_def\<close>)
    done
  from runs_match [OF this] show ?thesis by (simp add: h)
qed

lemma parse_mem_store:
  assumes r: "r \<in> set regs64_names" and n: "0 \<le> n" and ok: "alloc_ok st"
  obtains st' k where
    "parse_operand st (hex0x n @ ''(%'' @ r @ '')'') =
       (st', Mem, Some (''['' @ hex0x n @ ''+'' @ anon k @ '']''), Some r)"
    "alloc_ok st'" "map_of (reg_map st') r = Some (anon k)"
proof -
  let ?o = "hex0x n @ ''(%'' @ r @ '')''"
  note w = regs64_fact [OF r]
  have sp: "\<not> is_space c" if "c \<in> set ?o" for c
    using that w(2) hex0x_word [OF n] is_word_not_space by (auto simp: list_all_iff is_space_def)
  have strip: "py_strip ?o = ?o" by (rule strip_id) (rule sp)
  have h: "?o = ''0x'' @ digs 16 (nat n) @ ''(%'' @ r @ '')''"
    using n by (simp add: hex0x_def hex_of_def)
  have "fails rx_segment None ?o"
    unfolding rx_segment_def seqs.simps h fails_def mrel_Bol_Seq
    by (auto simp: mrel_iffs)
  then have seg: "re_sub rx_segment [] ?o = ?o"
    unfolding rx_segment_def seqs.simps by (rule re_sub_anchored_none)
  have parts: "map py_strip (split_on CHR '','' (CHR ''%'' # r)) = [CHR ''%'' # r]"
  proof -
    have "split_on CHR '','' (CHR ''%'' # r) = [CHR ''%'' # r]"
      using w(2) is_word_not by (intro split_by_no) (fastforce simp: list_all_iff)
    moreover have "py_strip (CHR ''%'' # r) = CHR ''%'' # r"
      using w(2) is_word_not_space by (intro strip_id) (auto simp: list_all_iff is_space_def)
    ultimately show ?thesis by simp
  qed
  have ls: "lstrip_by (\<lambda>c. c = CHR ''%'') (CHR ''%'' # r) = r"
    using w(1,2) is_word_not by (cases r) (fastforce simp: lstrip_by_def list_all_iff)+
  obtain st' a where g: "get_anonymous_reg st r = (st', a)" by fastforce
  have ok': "alloc_ok st'" using alloc.anon_I [OF g ok] .
  have m: "map_of (reg_map st') r = Some a" using get_anonymous_reg_map [OF g] by (simp add: w(3))
  then have "a \<in> set (map snd (reg_map st'))" by (force dest: map_of_SomeD)
  with ok' obtain k where k: "a = anon k" by (auto simp: alloc_ok_def)
  have nd: "\<not> starts_with ''$'' ?o" by (simp add: hex0x_def)
  have gr: "group [(1, hex0x n), (2, CHR ''%'' # r)] 1 = hex0x n"
    "group [(1, hex0x n), (2, CHR ''%'' # r)] 2 = CHR ''%'' # r"
    by (simp_all add: group_def dget_def)
  have n0: "hex0x n \<noteq> [] \<and> hex0x n \<noteq> ''0''" by (simp add: hex0x_def)
  have "parse_operand st ?o = parse_mem st [(1, hex0x n), (2, CHR ''%'' # r)]"
    using rx_mem_store [OF w(1,2) n]
    by (simp only: parse_operand_def Let_def strip seg nd if_False) simp
  also have "\<dots> = (st', Mem, Some (''['' @ hex0x n @ ''+'' @ anon k @ '']''), Some r)"
    unfolding parse_mem_def gr parts Let_def by (simp add: mem_reg_def ls g n0 k)
  finally show thesis using that ok' m k by blast
qed

lemma anon_word: "list_all is_word (anon k)"
  using digs_digit by (fastforce simp: anon_def py_str_def list_all_iff is_word_def is_digit_def Let_def)

lemma disp_literal: "0 \<le> n \<Longrightarrow> re_matches rx_disp (hex0x n) \<and> disp_value (hex0x n) = Inr n"
proof
  assume n: "0 \<le> n"
  then have h: "hex0x n = ''0x'' @ digs 16 (nat n)" by (simp add: hex0x_def hex_of_def)
  have d: "list_all is_hex (digs 16 (nat n))" by (rule digs_hex_all)
  show "re_matches rx_disp (hex0x n)"
    unfolding re_matches_iff rx_disp_def seqs.simps mrel_iffs h
    by (rule exI [of _ "prev_after (Some CHR ''x'') (digs 16 (nat n))"], rule exI [of _ "[]"])
      (auto simp: at_eol_def d Suc_le_eq)
  have "contains ''0x'' (py_lower (hex0x n))"
    unfolding contains_iff h py_lower_append by (rule exI [of _ "[]"]) (simp add: py_lower_def lower_char_def)
  then show "disp_value (hex0x n) = Inr n" by (simp add: disp_value_def py_int_hex0x n)
qed

lemma anon_matches: "re_matches rx_anon (anon k) \<and> \<not> re_matches rx_disp (anon k)"
proof
  have d: "list_all is_digit (digs 10 k)" using digs_digit by (simp add: list_all_iff)
  show "re_matches rx_anon (anon k)"
    unfolding re_matches_iff rx_anon_def seqs.simps mrel_iffs anon_def
    by (rule exI [of _ "prev_after (Some CHR ''r'') (digs 10 k)"], rule exI [of _ "[]"])
      (auto simp: at_eol_def py_str_def d Suc_le_eq)
  show "\<not> re_matches rx_disp (anon k)"
    unfolding re_matches_iff rx_disp_def seqs.simps mrel_iffs anon_def
    by (auto simp: Suc_le_eq is_digit_def Cons_eq_append_conv)
qed

lemma mem_target_text:
  assumes "0 \<le> n" and "map_of ar (anon k) = Some r"
  shows "mem_target ar (''mem:['' @ hex0x n @ ''+'' @ anon k @ '']'') = Inr (n, Some r)"
proof -
  have h: "CHR ''+'' \<notin> set (hex0x n)" "CHR ''+'' \<notin> set (anon k)"
    using hex0x_word [OF assms(1)] anon_word [of k] is_word_not by (fastforce simp: list_all_iff)+
  have st: "py_strip (hex0x n) = hex0x n" "py_strip (anon k) = anon k"
    using hex0x_word [OF assms(1)] anon_word [of k] is_word_not_space
    by (auto intro!: strip_id simp: list_all_iff)
  have "split_on CHR ''+'' (hex0x n @ ''+'' @ anon k) = [hex0x n, anon k]"
  proof -
    have "split_on CHR ''+'' (anon k) = [anon k]" by (rule split_by_no) (use h(2) in auto)
    moreover have "split_on CHR ''+'' (hex0x n @ CHR ''+'' # anon k) = hex0x n # split_on CHR ''+'' (anon k)"
      by (rule split_by_append) (use h(1) in auto)
    ultimately show ?thesis by simp
  qed
  moreover have "butlast (drop 5 (''mem:['' @ hex0x n @ ''+'' @ anon k @ '']'')) = hex0x n @ ''+'' @ anon k"
    by (simp add: butlast_append)
  ultimately show ?thesis
    using disp_literal [OF assms(1)] anon_matches [of k] assms(2)
    by (simp add: mem_target_def st dget_def)
qed

lemma invert_lookup:
  "alloc_ok st \<Longrightarrow> map_of (reg_map st) r = Some a \<Longrightarrow> map_of (invert (reg_map st)) a = Some r"
proof -
  assume ok: "alloc_ok st" and m: "map_of (reg_map st) r = Some a"
  have d: "distinct (map fst (reg_map st))" using ok by (simp add: alloc_ok_def dkeys_def)
  show ?thesis
    using m map_of_swap [OF d alloc_ok_distinct [OF ok], of a r]
    by (simp add: invert_map [OF alloc_ok_distinct [OF ok]])
qed

text \<open>
  For a store to \<open>disp(%base)\<close>, with a hexadecimal displacement and a 64-bit base
  register, the displacement and the base register found again from the key that the
  executor stores the value under are those of the operand.
\<close>

theorem memory_target_read_back:
  assumes "r \<in> set regs64_names" and "0 \<le> n" and "alloc_ok st"
  shows "case parse_operand st (hex0x n @ ''(%'' @ r @ '')'') of
    (st', kd, v, b) \<Rightarrow> kd = Mem \<and>
      mem_target (invert (reg_map st')) (''mem:'' @ the v) = Inr (n, Some r)"
proof -
  obtain st' k where p: "parse_operand st (hex0x n @ ''(%'' @ r @ '')'') =
       (st', Mem, Some (''['' @ hex0x n @ ''+'' @ anon k @ '']''), Some r)"
    and ok: "alloc_ok st'" and m: "map_of (reg_map st') r = Some (anon k)"
    by (rule parse_mem_store [OF assms])
  show ?thesis
    using mem_target_text [OF assms(2) invert_lookup [OF ok m]] unfolding p by simp
qed

theorem memory_target_read_back_witness:
  "mem_target (invert (reg_map (fst (parse_operand new_executor ''0xa4(%rbx)'')))) ''mem:[0xa4+r0]'' =
     Inr (164, Some ''rbx'')"
proof -
  have "hex0x 164 = ''0xa4''" by code_simp
  moreover have "parse_operand new_executor ''0xa4(%rbx)'' =
    (fst (parse_operand new_executor ''0xa4(%rbx)''), Mem, Some ''[0xa4+r0]'', Some ''rbx'')" by code_simp
  ultimately show ?thesis
    using memory_target_read_back [of "''rbx''" 164 new_executor]
    by (simp add: regs64_names_def split: prod.splits)
qed

text \<open>
  An index register is not part of the store target. For \<open>(%rbx,%rcx,4)\<close> only the
  base is kept, and for \<open>(%rbx,%rcx)\<close> the index register takes its place.
\<close>

theorem memory_target_drops_index:
  "(case parse_operand new_executor ''0x8(%rbx,%rcx,4)'' of (st, kd, v, b) \<Rightarrow>
      (v, mem_target (invert (reg_map st)) (''mem:'' @ the v))) =
     (Some ''[0x8+r0+r1*4]'', Inr (8, Some ''rbx'')) \<and>
   (case parse_operand new_executor ''0x8(%rbx,%rcx)'' of (st, kd, v, b) \<Rightarrow>
      (v, mem_target (invert (reg_map st)) (''mem:'' @ the v))) =
     (Some ''[0x8+r0+r1]'', Inr (8, Some ''rcx''))"
  by code_simp

end
