(* ===== verification/Bpf_Gen.thy ===== *)
theory Bpf_Gen
  imports Kprobe_Synth
begin

text \<open>
  The BPF files of a constant (\<open>src/src/codegen.py\<close>): \<open>generate_multi_kprobe_bpf_file\<close>
  writes a header with one helper per kprobe and a policy file with one macro per kprobe, and
  \<open>parse_bpf_kprobes\<close> reads the kprobes back from the policy's comments. The text of a file
  is its bytes, in UTF-8.
\<close>

section \<open>Names\<close>

definition ptregs_fields :: "(string, string) dict" where
  "ptregs_fields = [
     (''rax'', ''ax''), (''eax'', ''ax''), (''rbx'', ''bx''), (''ebx'', ''bx''),
     (''rcx'', ''cx''), (''ecx'', ''cx''), (''rdx'', ''dx''), (''edx'', ''dx''),
     (''rsi'', ''si''), (''esi'', ''si''), (''rdi'', ''di''), (''edi'', ''di''),
     (''rbp'', ''bp''), (''ebp'', ''bp''), (''rsp'', ''sp''), (''esp'', ''sp''),
     (''r8'', ''r8''), (''r8d'', ''r8''), (''r9'', ''r9''), (''r9d'', ''r9''),
     (''r10'', ''r10''), (''r10d'', ''r10''), (''r11'', ''r11''), (''r11d'', ''r11''),
     (''r12'', ''r12''), (''r12d'', ''r12''), (''r13'', ''r13''), (''r13d'', ''r13''),
     (''r14'', ''r14''), (''r14d'', ''r14''), (''r15'', ''r15''), (''r15d'', ''r15'')]"

definition get_macros :: "(string, string) dict" where
  "get_macros = [
     (''eax'', ''BPF_RAX''), (''ebx'', ''BPF_RBX''), (''ecx'', ''BPF_RCX''), (''edx'', ''BPF_RDX''),
     (''esi'', ''BPF_RSI''), (''edi'', ''BPF_RDI''), (''ebp'', ''BPF_RBP''),
     (''r8d'', ''BPF_R8''), (''r9d'', ''BPF_R9''), (''r10d'', ''BPF_R10''), (''r11d'', ''BPF_R11''),
     (''r12d'', ''BPF_R12''), (''r13d'', ''BPF_R13''), (''r14d'', ''BPF_R14''), (''r15d'', ''BPF_R15''),
     (''rax'', ''BPF_RAX''), (''rbx'', ''BPF_RBX''), (''rcx'', ''BPF_RCX''), (''rdx'', ''BPF_RDX''),
     (''rsi'', ''BPF_RSI''), (''rdi'', ''BPF_RDI''), (''rbp'', ''BPF_RBP''),
     (''r8'', ''BPF_R8''), (''r9'', ''BPF_R9''), (''r10'', ''BPF_R10''), (''r11'', ''BPF_R11''),
     (''r12'', ''BPF_R12''), (''r13'', ''BPF_R13''), (''r14'', ''BPF_R14''), (''r15'', ''BPF_R15'')]"

definition field_of :: "string \<Rightarrow> string" where
  "field_of reg = dget ptregs_fields reg reg"

text \<open>A register that is \<open>None\<close> is written as such.\<close>

definition shown :: "string option \<Rightarrow> string" where
  "shown r = (case r of None \<Rightarrow> ''None'' | Some s \<Rightarrow> s)"

definition get_macro_of :: "string option \<Rightarrow> string res" where
  "get_macro_of r = (case r of None \<Rightarrow> Inl AttributeError
     | Some reg \<Rightarrow> Inr (dget get_macros reg (''BPF_'' @ py_upper reg)))"

definition ctype_of :: "nat \<Rightarrow> string" where
  "ctype_of write_size = dget [(1, ''__u8''), (2, ''__u16''), (4, ''__u32''), (8, ''__u64'')] write_size ''__u32''"

definition num :: "nat \<Rightarrow> string" where
  "num i = py_str (int i)"

definition disp_text :: "int \<Rightarrow> string" where
  "disp_text d = (if d < 0 then ''-'' @ hex0x (- d) else hex0x d)"

text \<open>\<open>{d:+#x}\<close>\<close>

definition signed_hex :: "int \<Rightarrow> string" where
  "signed_hex d = (if d < 0 then ''-'' @ hex0x (- d) else ''+'' @ hex0x d)"

fun synthesis_type :: "synthesis \<Rightarrow> string" where
  "synthesis_type Simple = ''simple''"
| "synthesis_type (Irreversible s e b) = ''irreversible''"
| "synthesis_type (MemoryStore b d w) = ''memory_store''"
| "synthesis_type (CmpImmediate c) = ''cmp_immediate''"

definition safe_name :: "string \<Rightarrow> string" where
  "safe_name f = py_replace ''-'' ''_'' (py_replace ''.'' ''_'' f)"

definition DQ1 :: string where "DQ1 = [CHR 0x22]"
definition em_dash :: string where "em_dash = [CHR 0xE2, CHR 0x80, CHR 0x94]"
definition right_arrow :: string where "right_arrow = [CHR 0xE2, CHR 0x86, CHR 0x92]"

section \<open>The header\<close>

definition header_top :: "string \<Rightarrow> string list" where
  "header_top prefix =
     [''// SPDX-License-Identifier: GPL-2.0'', ''//'',
      ''// !!!!!!!!!!!!!!!!!!!!!!!!!!!!!!!!!!!!!!!!!!!!!!!!!!!!!!!!!!!!!!!'',
      ''// !!!  AUTO-GENERATED by codegen.py '' @ em_dash @ '' DO NOT EDIT THIS FILE  !!!'',
      ''// !!!!!!!!!!!!!!!!!!!!!!!!!!!!!!!!!!!!!!!!!!!!!!!!!!!!!!!!!!!!!!!'', ''//'',
      ''// SIE indirection stub for ConstID '' @ prefix,
      ''// Regenerate with: ./xkernel-tool build'',
      ''#ifndef __XTUNE_STUB_'' @ prefix @ ''_H__'', ''#define __XTUNE_STUB_'' @ prefix @ ''_H__'', [],
      ''#include '' @ DQ1 @ ''vmlinux.h'' @ DQ1, ''#include <bpf/bpf_helpers.h>'',
      ''#include <bpf/bpf_tracing.h>'', [],
      ''#include '' @ DQ1 @ ''xkernel.bpf.h'' @ DQ1, ''#include '' @ DQ1 @ ''cs_artifact.bpf.h'' @ DQ1, []]"

text \<open>An irreversible kprobe that has to save its register: its seed offset.\<close>

definition save_seed :: "kprobe \<Rightarrow> int option" where
  "save_seed kp = (case kp_synthesis kp of
     Irreversible (Some seed_offset) compound sbb \<Rightarrow> if sbb then None else Some seed_offset
   | _ \<Rightarrow> None)"

definition save_map_lines :: "nat \<Rightarrow> kprobe \<Rightarrow> string list" where
  "save_map_lines i kp = (case save_seed kp of None \<Rightarrow> [] | Some seed_offset \<Rightarrow>
     [''// Per-CPU input-save map for kprobe '' @ num i @ '' (irreversible synthesis)'',
      ''struct {'',
      ''    __uint(type, BPF_MAP_TYPE_PERCPU_ARRAY);'',
      ''    __uint(max_entries, 1);'',
      ''    __type(key, __u32);'',
      ''    __type(value, __u64);'',
      ''} xk_save_'' @ num i @ '' SEC('' @ DQ1 @ ''.maps'' @ DQ1 @ '');'', []])"

definition helper_name :: "string \<Rightarrow> nat \<Rightarrow> string" where
  "helper_name prefix i = ''__sie_'' @ prefix @ ''_'' @ num i"

definition helper_open :: "string \<Rightarrow> nat \<Rightarrow> string" where
  "helper_open prefix i =
     ''static __always_inline void '' @ helper_name prefix i @ ''(struct pt_regs *regs, u64 val) {''"

definition write_back :: "string \<Rightarrow> string \<Rightarrow> string" where
  "write_back field v = ''    sie_write_kernel(&regs->'' @ field @ '', sizeof(regs->'' @ field @ ''), &'' @ v @ '');''"

definition helper_simple :: "string \<Rightarrow> nat \<Rightarrow> string option \<Rightarrow> string \<Rightarrow> string list" where
  "helper_simple prefix i reg expr = (let field = field_of (shown reg) in
     [''// SIE helper '' @ num i @ '': simple -> %'' @ shown reg,
      helper_open prefix i,
      ''    u64 new_val = '' @ expr @ '';'',
      write_back field ''new_val'', ''}'', []])"

definition helper_memory :: "string \<Rightarrow> nat \<Rightarrow> string option \<Rightarrow> int \<Rightarrow> nat \<Rightarrow> string \<Rightarrow> string list" where
  "helper_memory prefix i base disp write_size expr =
     (let c_type = ctype_of write_size; field = field_of (shown base); d = disp_text disp in
     [''// SIE helper '' @ num i @ '': memory store -> mem['' @ shown base @ ''+'' @ d @ ''] (''
        @ num write_size @ ''B)'',
      helper_open prefix i,
      ''    u64 addr = (u64)(regs->'' @ field @ '') + '' @ d @ '';'',
      ''    '' @ c_type @ '' new_val = ('' @ c_type @ '')'' @ expr @ '';'',
      ''    bpf_probe_write_kernel((void *)addr, sizeof(new_val), &new_val);'', ''}'', []])"

definition helper_sbb :: "string \<Rightarrow> nat \<Rightarrow> string option \<Rightarrow> string \<Rightarrow> string \<Rightarrow> int \<Rightarrow> string list" where
  "helper_sbb prefix i reg seed_mnemonic compound v1_src =
     (let field = field_of (shown reg) in
     [''#define V_ORIG_'' @ num i @ '' '' @ py_str v1_src @ ''  // original source value'', [],
      ''// SIE helper '' @ num i @ '': irreversible ('' @ seed_mnemonic @ '') -> %'' @ shown reg,
      ''// Optimized: sbb-self before seed '' @ right_arrow @ '' infer saved from current reg'',
      helper_open prefix i,
      ''    u32 cur = (u32)(regs->'' @ field @ '');'',
      ''    // With V_orig, saved=0 gives '' @ py_replace ''(*saved)'' ''((u64)0)'' compound @ '','',
      ''    //              saved=-1 gives '' @ py_replace ''(*saved)'' ''((u64)0xFFFFFFFF)'' compound,
      ''    u64 saved_inferred = (cur > V_ORIG_'' @ num i @ '') ? (u64)0 : (u64)0xFFFFFFFF;'',
      ''    u64 result = (u64)'' @ py_replace ''(*saved)'' ''saved_inferred'' compound @ '';'',
      write_back field ''result'', ''}'', []])"

definition helper_irreversible :: "string \<Rightarrow> nat \<Rightarrow> string option \<Rightarrow> string \<Rightarrow> string \<Rightarrow> string list" where
  "helper_irreversible prefix i reg seed_mnemonic compound =
     (let field = field_of (shown reg) in
     [''// SIE helper '' @ num i @ '': irreversible ('' @ seed_mnemonic @ '') -> %'' @ shown reg,
      helper_open prefix i,
      ''    __u32 key = 0;'',
      ''    __u64 *saved = bpf_map_lookup_elem(&xk_save_'' @ num i @ '', &key);'',
      ''    if (!saved) return;'',
      ''    u64 result = (u64)'' @ compound @ '';'',
      write_back field ''result'', ''}'', []])"

definition helper_cmp :: "string \<Rightarrow> nat \<Rightarrow> cmp_operand \<Rightarrow> string \<Rightarrow> string list" where
  "helper_cmp prefix i c expr =
     (let size = num (cmp_size c);
          imm = [''    u'' @ size @ '' new_imm = (u'' @ size @ '')'' @ expr @ '';'',
                 ''    xk_cmp_set_flags'' @ size @ ''(regs, reg_val, new_imm);'', ''}'', []]
      in case cmp_mem c of
        Some (base, disp) \<Rightarrow>
          [''// SIE helper '' @ num i @ '': cmp_immediate -> FLAGS (cmp new_IV, ['' @ base
             @ signed_hex disp @ ''])'',
           helper_open prefix i,
           ''    u'' @ size @ '' reg_val = 0;'',
           ''    u64 mem_addr = regs->'' @ field_of base
             @ (if disp \<ge> 0 then '' + '' @ hex0x disp else '' - '' @ hex0x (- disp)) @ '';'',
           ''    bpf_probe_read_kernel(&reg_val, sizeof(reg_val), (void *)mem_addr);''] @ imm
      | None \<Rightarrow>
          [''// SIE helper '' @ num i @ '': cmp_immediate -> FLAGS (cmp new_IV, %'' @ cmp_reg c @ '')'',
           helper_open prefix i,
           ''    u'' @ size @ '' reg_val = (u'' @ size @ '')(regs->'' @ field_of (cmp_reg c) @ '');''] @ imm)"

text \<open>An irreversible kprobe without a seed offset gets the helper of a simple one.\<close>

definition helper_lines :: "string \<Rightarrow> int \<Rightarrow> nat \<Rightarrow> kprobe \<Rightarrow> string list res" where
  "helper_lines prefix v1_src i kp =
     bindr (build_expr (fst (kp_relationship kp)) (snd (kp_relationship kp))) (\<lambda>expr.
       Inr (case kp_synthesis kp of
         MemoryStore base disp write_size \<Rightarrow> helper_memory prefix i base disp write_size expr
       | Irreversible (Some seed) compound sbb \<Rightarrow>
           if sbb then helper_sbb prefix i (kp_actual_reg_name kp) (kp_seed_mnemonic kp) compound v1_src
           else helper_irreversible prefix i (kp_actual_reg_name kp) (kp_seed_mnemonic kp) compound
       | CmpImmediate c \<Rightarrow> helper_cmp prefix i c expr
       | _ \<Rightarrow> helper_simple prefix i (kp_actual_reg_name kp) expr))"

definition save_handler_lines :: "string \<Rightarrow> nat \<Rightarrow> kprobe \<Rightarrow> string list res" where
  "save_handler_lines prefix i kp = (case save_seed kp of
     None \<Rightarrow> Inr []
   | Some seed_offset \<Rightarrow> bindr (get_macro_of (kp_actual_reg_name kp)) (\<lambda>get_macro.
       let f = kp_function_name kp in Inr
       [''// Save handler '' @ num i @ '': '' @ f @ ''+'' @ hex0x seed_offset @ '' (fires BEFORE ''
          @ kp_seed_mnemonic kp @ '')'',
        ''SEC('' @ DQ1 @ ''kprobe/'' @ f @ ''+'' @ hex0x seed_offset @ DQ1 @ '')'',
        ''int BPF_KPROBE(__xk_save_'' @ prefix @ ''_'' @ num i @ ''_'' @ safe_name f @ '') {'',
        ''    if (!transition_done(ctx)) return 0;'',
        ''    __u32 key = 0;'',
        ''    __u64 val = '' @ get_macro @ ''(ctx);'',
        ''    bpf_map_update_elem(&xk_save_'' @ num i @ '', &key, &val, BPF_ANY);'',
        ''    return 0;'', ''}'', []]))"

definition macro_lines :: "string \<Rightarrow> nat \<Rightarrow> string list" where
  "macro_lines prefix i =
     (let policy_name = ''__xk_policy_'' @ prefix @ ''_'' @ num i;
          bs = [CHR 0x5C] in
     [''#define X_TUNE_'' @ num i @ ''(func_name, location_str) '' @ bs,
      ''    static int '' @ policy_name @ ''(struct x_ctx *x_ctx, struct pt_regs *ctx); '' @ bs,
      ''    SEC('' @ DQ1 @ ''kprobe/'' @ DQ1 @ '' #func_name location_str) '' @ bs,
      ''    int BPF_KPROBE(__xk_'' @ prefix @ ''_'' @ num i @ '') { '' @ bs,
      ''        struct x_ctx __x_ctx = { .regs = ctx, .set_fn = &'' @ helper_name prefix i @ '' }; '' @ bs,
      ''        return '' @ policy_name @ ''(&__x_ctx, ctx); '' @ bs,
      ''    } '' @ bs,
      ''    static int '' @ policy_name @ ''(struct x_ctx *x_ctx, struct pt_regs *ctx)'', []])"

definition per_kprobe :: "(nat \<Rightarrow> kprobe \<Rightarrow> string list res) \<Rightarrow> kprobe list \<Rightarrow> string list res" where
  "per_kprobe f kprobes =
     bindr (mapr (\<lambda>(i, kp). f i kp) (enumerate 0 kprobes)) (\<lambda>ls. Inr (concat ls))"

definition header_lines :: "string \<Rightarrow> int \<Rightarrow> kprobe list \<Rightarrow> string list res" where
  "header_lines prefix v1_src kprobes =
     bindr (per_kprobe (helper_lines prefix v1_src) kprobes) (\<lambda>helpers.
     bindr (per_kprobe (save_handler_lines prefix) kprobes) (\<lambda>handlers. Inr (
       header_top prefix
       @ concat (map (\<lambda>(i, kp). save_map_lines i kp) (enumerate 0 kprobes))
       @ helpers @ handlers
       @ concat (map (\<lambda>(i, kp). macro_lines prefix i) (enumerate 0 kprobes))
       @ [''#endif // __XTUNE_STUB_'' @ prefix @ ''_H__''])))"

section \<open>The policy file\<close>

definition policy_lines :: "(string \<Rightarrow> string option) \<Rightarrow> int \<Rightarrow> nat \<Rightarrow> kprobe \<Rightarrow> string list" where
  "policy_lines proto v1_src i kp =
     (let f = kp_function_name kp; offset = hex0x (kp_offset kp) in
      (case proto f of None \<Rightarrow> [] | Some p \<Rightarrow> if p = [] then [] else [''// '' @ p])
      @ [''// Kprobe '' @ num (Suc i) @ '': '' @ f @ ''+'' @ offset @ '' (''
           @ synthesis_type (kp_synthesis kp) @ '')'',
         ''// Candidates: '' @ join '','' (map hex0x (kp_candidate_offsets kp)),
         ''// Relationship: '' @ kp_rel_str kp,
         ''X_TUNE_'' @ num i @ ''('' @ f @ '', '' @ DQ1 @ ''+'' @ offset @ DQ1 @ '') {'',
         ''    if (!x_transition_done(x_ctx)) return 0;'', [],
         ''    // Write your tuning logic here'',
         ''    u64 val = '' @ py_str v1_src @ ''; // original value'',
         ''    x_set(x_ctx, val);'',
         ''    return 0;'', ''}'', []])"

definition policy_file_lines :: "(string \<Rightarrow> string option) \<Rightarrow> string \<Rightarrow> int \<Rightarrow> kprobe list \<Rightarrow> string list" where
  "policy_file_lines proto prefix v1_src kprobes =
     [''// SPDX-License-Identifier: GPL-2.0'',
      ''// Auto-generated X_TUNE policy for test group '' @ prefix, [],
      ''#include '' @ DQ1 @ ''xtune_stub_'' @ prefix @ ''.bpf.h'' @ DQ1, []]
     @ concat (map (\<lambda>(i, kp). policy_lines proto v1_src i kp) (enumerate 0 kprobes))"

text \<open>The header file, the policy file, and the name of the BPF object.\<close>

definition generate_multi_kprobe_bpf_file :: "(string \<Rightarrow> string option) \<Rightarrow> string \<Rightarrow> kprobe list \<Rightarrow>
    int \<Rightarrow> (string \<times> string \<times> string) option res" where
  "generate_multi_kprobe_bpf_file proto prefix kprobes v1_src =
     (if kprobes = [] then Inr None
      else bindr (header_lines prefix v1_src kprobes) (\<lambda>hdr.
        Inr (Some (join [NL] hdr @ [NL],
          join [NL] (policy_file_lines proto prefix v1_src kprobes),
          ''xtune_stub_'' @ prefix @ ''.bpf.o''))))"

section \<open>Reading kprobes back\<close>

record parsed_kprobe =
  pk_bb_idx :: int
  pk_func_name :: string
  pk_offset :: int
  pk_synthesis_type :: string
  pk_seed_offset :: "int option"
  pk_seed_mnemonic :: string
  pk_actual_reg_name :: string

definition rx_kprobe_head :: "string \<Rightarrow> rx" where
  "rx_kprobe_head letter = seqs [lit ''// Kprobe '', Grp 1 (Many 1 is_digit), lit (letter @ '':''),
     Many 1 is_space, Grp 2 (Many 1 (not_of ''+'')), lit ''+0x'', Grp 3 (Many 1 is_hex)]"

definition rx_fires :: "string \<Rightarrow> string \<Rightarrow> rx" where
  "rx_fires what when = seqs [Many 1 is_space, lit (''('' @ what), Many 0 dot, lit when,
     Many 1 is_space, Grp 4 (Many 1 is_word), Many 1 is_space, lit ''executes)'']"

definition rx_save :: rx where
  "rx_save = Seq (rx_kprobe_head ''a'') (rx_fires ''SAVE'' ''before'')"

definition rx_apply :: rx where
  "rx_apply = Seq (rx_kprobe_head ''b'') (rx_fires ''APPLY'' ''after'')"

definition rx_simple :: rx where
  "rx_simple = Seq (rx_kprobe_head '''')
     (seqs [Opt (seqs [Many 1 is_space, lit ''('', Grp 4 (Many 1 is_word), lit '')'']),
        Many 0 is_space, Eol])"

definition rx_bpf_set :: rx where
  "rx_bpf_set = seqs [lit ''BPF_SET_'', Grp 1 (Many 1 is_word), lit ''(ctx'']"

text \<open>The register set in the next 24 lines. The digits of a match always convert.\<close>

definition set_register :: "string list \<Rightarrow> string" where
  "set_register rest = (case first_some (re_search rx_bpf_set) (take 24 rest) of
     None \<Rightarrow> [] | Some g \<Rightarrow> py_lower (group g 1))"

definition the_int :: "nat \<Rightarrow> string \<Rightarrow> int" where
  "the_int b s = (case py_int b s of Some n \<Rightarrow> n | None \<Rightarrow> 0)"

type_synonym save_entry = "string \<times> int \<times> string"

type_synonym apply_entry = "string \<times> int \<times> string \<times> string"

type_synonym pairs = "(int, save_entry option \<times> apply_entry option) dict"

fun scan_kprobes :: "pairs \<Rightarrow> parsed_kprobe list \<Rightarrow> string list \<Rightarrow> pairs \<times> parsed_kprobe list" where
  "scan_kprobes irr simple [] = (irr, simple)"
| "scan_kprobes irr simple (raw # rest) =
     (let line = py_strip raw in
      case re_match rx_save line of
        Some (g, _) \<Rightarrow>
          (let bb_idx = the_int 10 (group g 1); (s, a) = dget irr bb_idx (None, None) in
           scan_kprobes (dput bb_idx (Some (group g 2, the_int 16 (group g 3), group g 4), a) irr) simple rest)
      | None \<Rightarrow> (case re_match rx_apply line of
        Some (g, _) \<Rightarrow>
          (let bb_idx = the_int 10 (group g 1); (s, a) = dget irr bb_idx (None, None) in
           scan_kprobes (dput bb_idx (s, Some (group g 2, the_int 16 (group g 3), group g 4,
             set_register rest)) irr) simple rest)
      | None \<Rightarrow> (case re_match rx_simple line of
        Some (g, _) \<Rightarrow>
          scan_kprobes irr (simple @ [\<lparr>pk_bb_idx = the_int 10 (group g 1), pk_func_name = group g 2,
            pk_offset = the_int 16 (group g 3),
            pk_synthesis_type = (if group g 4 = [] then ''simple'' else group g 4),
            pk_seed_offset = None, pk_seed_mnemonic = [], pk_actual_reg_name = set_register rest\<rparr>]) rest
      | None \<Rightarrow> scan_kprobes irr simple rest)))"

definition merged :: "int \<times> save_entry option \<times> apply_entry option \<Rightarrow> parsed_kprobe option" where
  "merged e = (case e of
     (bb_idx, Some (sf, seed, sm), Some (af, offset, am, reg)) \<Rightarrow>
       Some \<lparr>pk_bb_idx = bb_idx, pk_func_name = (if af \<noteq> [] then af else sf), pk_offset = offset,
         pk_synthesis_type = ''irreversible'', pk_seed_offset = Some seed, pk_seed_mnemonic = sm,
         pk_actual_reg_name = reg\<rparr>
   | _ \<Rightarrow> None)"

definition parse_bpf_kprobes :: "string option \<Rightarrow> parsed_kprobe list" where
  "parse_bpf_kprobes bpf_c_file = (case bpf_c_file of
     None \<Rightarrow> []
   | Some content \<Rightarrow> (let (irr, simple) = scan_kprobes [] [] (readlines content) in
       sort_key pk_bb_idx (List.map_filter merged (sort_key fst irr) @ simple)))"

text \<open>
  What is shown for a file: each kprobe with the block it is placed in and the base of its function.
\<close>

definition shown_kprobes :: "string option \<Rightarrow> string option \<Rightarrow> (parsed_kprobe \<times> bb \<times> int option) list" where
  "shown_kprobes bb_v1_file bpf_c_file =
     (if bb_v1_file = None \<or> bpf_c_file = None then []
      else let bbs = extract_all_basic_blocks_from_file bb_v1_file in
        List.map_filter (\<lambda>kp.
          let bb_index = pk_bb_idx kp - 1;
              bb = bbs ! nat (if bb_index < 0 then bb_index + int (length bbs) else bb_index)
          in if bbs = [] \<or> bb_index \<ge> int (length bbs) \<or> all_instructions bb = [] then None
             else Some (kp, bb, extract_function_base_from_bb_file bb_v1_file (pk_func_name kp)))
        (parse_bpf_kprobes bpf_c_file))"

section \<open>Properties\<close>

subsection \<open>The policy is read back\<close>

lemma starts_with_hd: "starts_with p s \<Longrightarrow> p \<noteq> [] \<Longrightarrow> s \<noteq> [] \<and> hd s = hd p"
  by (cases p; cases s) auto

definition kprobe_start :: string where "kprobe_start = ''// Kprobe ''"

lemma rx_head_start: "mrel (Seq (rx_kprobe_head x) r) None s p' s' \<Longrightarrow> starts_with kprobe_start s"
  by (auto simp: rx_kprobe_head_def mrel_iffs kprobe_start_def starts_with_iff)

lemma no_kprobe_line:
  assumes "\<not> starts_with kprobe_start s"
  shows "re_match rx_save s = None" "re_match rx_apply s = None" "re_match rx_simple s = None"
  using assms rx_head_start fails_match
  by (fastforce simp: rx_save_def rx_apply_def rx_simple_def fails_def)+

definition quiet :: "string \<Rightarrow> bool" where
  "quiet l \<longleftrightarrow> \<not> starts_with kprobe_start (py_strip l)"

lemma scan_quiet: "quiet l \<Longrightarrow> scan_kprobes irr simple (l # rest) = scan_kprobes irr simple rest"
  by (simp add: quiet_def no_kprobe_line Let_def)

lemma scan_quiets: "list_all quiet ls \<Longrightarrow> scan_kprobes irr simple (ls @ rest) = scan_kprobes irr simple rest"
  by (induction ls) (simp_all add: scan_quiet del: scan_kprobes.simps)

definition kprobe_line :: "nat \<Rightarrow> string \<Rightarrow> nat \<Rightarrow> string \<Rightarrow> string" where
  "kprobe_line i f offset what =
     ''// Kprobe '' @ digs 10 i @ '': '' @ f @ ''+0x'' @ digs 16 offset @ '' ('' @ what @ '')''"

text \<open>A symbol as the linker knows it.\<close>

definition symbol_ok :: "string \<Rightarrow> bool" where
  "symbol_ok f \<longleftrightarrow> f \<noteq> [] \<and> list_all (\<lambda>c. is_word c \<or> c = CHR ''.'') f"

lemma symbol_chars: "symbol_ok f \<Longrightarrow> c \<in> set f \<Longrightarrow> \<not> is_space c \<and> c \<noteq> CHR ''+'' \<and> c \<noteq> CHR ''(''"
proof -
  assume "symbol_ok f" "c \<in> set f"
  then have "is_word c \<or> c = CHR ''.''" by (auto simp: symbol_ok_def list_all_iff)
  moreover have "\<not> is_word (CHR ''+'')" "\<not> is_word (CHR ''('')" "\<not> is_space (CHR ''.'')"
    by (simp_all add: is_word_def is_space_def is_digit_def is_lower_def)
  ultimately show ?thesis using is_word_not_space by auto
qed

lemma run_then: "u @ c # v = u' @ c' # v' \<Longrightarrow> list_all P u \<Longrightarrow> list_all P u' \<Longrightarrow> \<not> P c \<Longrightarrow> \<not> P c' \<Longrightarrow>
    u = u' \<and> c = c' \<and> v = v'"
proof (induction u arbitrary: u')
  case Nil
  then show ?case by (cases u') auto
next
  case (Cons a u)
  then show ?case by (cases u') auto
qed

lemma other_letter:
  assumes "\<not> is_digit c"
  shows "\<not> mrel (Seq (rx_kprobe_head [c]) r) None (kprobe_line i f offset what) p' s'"
proof
  assume "mrel (Seq (rx_kprobe_head [c]) r) None (kprobe_line i f offset what) p' s'"
  then obtain u t where u: "list_all is_digit u"
    "digs 10 i @ CHR '':'' # ('' '' @ f @ ''+0x'' @ digs 16 offset @ '' ('' @ what @ '')'') = u @ c # '':'' @ t"
    by (auto simp: rx_kprobe_head_def mrel_iffs kprobe_line_def)
  have "'' '' @ f @ ''+0x'' @ digs 16 offset @ '' ('' @ what @ '')'' = '':'' @ t"
    using run_then [OF u(2) _ u(1)] assms digs_digit
    by (auto simp: list_all_iff is_digit_def)
  then show False by simp
qed

lemma simple_match:
  assumes "symbol_ok f" and "what \<noteq> []" "list_all is_word what"
  shows "re_match rx_simple (kprobe_line i f offset what) =
    Some ([(1, digs 10 i), (2, f), (3, digs 16 offset), (4, what)], [])"
proof -
  have d: "list_all is_digit (digs 10 i)" "list_all is_hex (digs 16 offset)"
    using digs_digit digs_hex [of 16] by (auto simp: list_all_iff)
  let ?t4 = "'' ('' @ what @ '')''"
  have sp: "is_space (CHR '' '')" "\<not> is_space (CHR ''('')" "\<not> is_word (CHR '')'')"
    by (simp_all add: is_space_def is_word_def is_digit_def is_lower_def)
  have m1: "runs (Grp 1 (Many 1 is_digit)) q (digs 10 i @ CHR '':'' # t) g (prev_after q (digs 10 i))
      (CHR '':'' # t) (dput 1 (digs 10 i) g)" for q t g
    by (rule runs_Grp, rule runs_Many) (use d in \<open>auto simp: Suc_le_eq is_digit_def\<close>)
  have m2: "runs (Many 1 is_space) q ('' '' @ f @ t) g (prev_after q '' '') (f @ t) g" for q t g
    by (rule runs_Many)
      (use sp symbol_chars [OF assms(1), of "hd f"] assms(1) in \<open>auto simp: symbol_ok_def\<close>)
  have m3: "runs (Grp 2 (Many 1 (not_of ''+''))) q (f @ CHR ''+'' # t) g (prev_after q f)
      (CHR ''+'' # t) (dput 2 f g)" for q t g
    by (rule runs_Grp, rule runs_Many)
      (use assms(1) symbol_chars [OF assms(1)] in \<open>auto simp: symbol_ok_def Suc_le_eq not_of_def list_all_iff\<close>)
  have m4: "runs (Grp 3 (Many 1 is_hex)) q (digs 16 offset @ CHR '' '' # t) g
      (prev_after q (digs 16 offset)) (CHR '' '' # t) (dput 3 (digs 16 offset) g)" for q t g
    by (rule runs_Grp, rule runs_Many) (use d in \<open>auto simp: Suc_le_eq is_hex_def is_digit_def\<close>)
  have m5: "runs (Many 1 is_space) q ('' '' @ CHR ''('' # t) g (prev_after q '' '') (CHR ''('' # t) g" for q t g
    by (rule runs_Many) (use sp in auto)
  have m6: "runs (Grp 4 (Many 1 is_word)) q (what @ CHR '')'' # t) g (prev_after q what)
      (CHR '')'' # t) (dput 4 what g)" for q t g
    by (rule runs_Grp, rule runs_Many) (use assms(2,3) sp in \<open>auto simp: Suc_le_eq\<close>)
  have m7: "runs (Many 0 is_space) q ([] @ []) g (prev_after q []) [] g" for q g
    by (rule runs_Many) auto
  have e: "runs Eol q [] g q [] g" for q g by (rule runs_Eol) (simp add: at_eol_def)
  let ?tail = "seqs [Many 1 is_space, lit ''('', Grp 4 (Many 1 is_word), lit '')'']"
  have o: "\<exists>q'. runs (Opt ?tail) q ?t4 g q' [] (dput 4 what g)" for q g
  proof -
    have "runs (lit ''('') q (CHR ''('' # what @ '')'') g (prev_after q ''('') (what @ '')'') g" for q g
      using runs_lit [of "''(''"] by simp
    moreover have "runs (lit '')'') q '')'' g (prev_after q '')'') [] g" for q g
      using runs_lit [of "'')''" q "[]"] by simp
    ultimately have "\<exists>q'. runs ?tail q ('' '' @ CHR ''('' # what @ '')'') g q' [] (dput 4 what g)"
      unfolding seqs.simps by (blast intro: runs_Seq m5 m6)
    then show ?thesis using runs_Opt_some by fastforce
  qed
  have rest: "\<exists>q'. runs (seqs [Opt ?tail, Many 0 is_space, Eol]) q ?t4 g q' [] (dput 4 what g)" for q g
    using o [of q g] m7 runs_Seq [OF _ runs_Seq [OF m7 [simplified] e]] by fastforce
  let ?t = "CHR '':'' # '' '' @ f @ CHR ''+'' # ''0x'' @ digs 16 offset @ ?t4"
  have l1: "runs (lit ''// Kprobe '') q (''// Kprobe '' @ t) g (prev_after q ''// Kprobe '') t g" for q t g
      by (rule runs_lit)
  have l2: "runs (lit ('''' @ '':'')) q (CHR '':'' # t) g (prev_after q '':'') t g" for q t g
      using runs_lit [of "'':''"] by simp
  have l3: "runs (lit ''+0x'') q (CHR ''+'' # ''0x'' @ t) g (prev_after q ''+0x'') t g" for q t g
      using runs_lit [of "''+0x''"] by simp
  have t4: "?t4 = CHR '' '' # CHR ''('' # what @ '')''" by simp
  have "\<exists>q1. runs (rx_kprobe_head '''') None (''// Kprobe '' @ digs 10 i @ ?t) [] q1 ?t4
        (dput 3 (digs 16 offset) (dput 2 f (dput 1 (digs 10 i) [])))"
      unfolding rx_kprobe_head_def seqs.simps t4
      by (rule exI, rule runs_Seq [OF l1 runs_Seq [OF m1 runs_Seq [OF l2 runs_Seq [OF m2
          runs_Seq [OF m3 runs_Seq [OF l3 m4]]]]]])
  then obtain q1 where h: "runs (rx_kprobe_head '''') None (''// Kprobe '' @ digs 10 i @ ?t) [] q1 ?t4
        (dput 3 (digs 16 offset) (dput 2 f (dput 1 (digs 10 i) [])))" by blast
  obtain q' where "runs rx_simple None (''// Kprobe '' @ digs 10 i @ ?t) [] q' []
      (dput 4 what (dput 3 (digs 16 offset) (dput 2 f (dput 1 (digs 10 i) []))))"
    using rest [of q1] runs_Seq [OF h] unfolding rx_simple_def by blast
  from runs_match [OF this] show ?thesis by (simp add: kprobe_line_def)
qed

lemma strip_starts:
  assumes "s \<noteq> []" "\<not> is_space (hd s)" "starts_with p (py_strip s)"
  shows "starts_with p s"
proof -
  have "dropWhile is_space s = s" using assms(1,2) by (cases s) auto
  moreover have "rev (dropWhile is_space (rev s)) @ rev (takeWhile is_space (rev s)) = s"
    by (metis rev_append rev_rev_ident takeWhile_dropWhile_id)
  ultimately obtain t where "s = py_strip s @ t"
    by (metis py_strip_def lstrip_by_def rstrip_by_def)
  then show ?thesis using assms(3) by (metis append.assoc starts_with_iff)
qed

lemma quiet_NL [simp]: "quiet (l @ [NL]) \<longleftrightarrow> quiet l"
  by (simp add: quiet_def strip_NL)

lemma quiet_start: "s \<noteq> [] \<Longrightarrow> \<not> is_space (hd s) \<Longrightarrow> \<not> starts_with kprobe_start s \<Longrightarrow> quiet s"
  using strip_starts quiet_def by blast

lemma strip_end:
  assumes "s \<noteq> []" "\<not> is_space (hd s)" "\<not> is_space (last s)"
  shows "py_strip s = s"
proof -
  have "dropWhile is_space s = s" using assms(1,2) by (cases s) auto
  moreover have "dropWhile is_space (rev s) = rev s"
    using assms(1,3) by (cases s rule: rev_cases) auto
  ultimately show ?thesis by (simp add: py_strip_def lstrip_by_def rstrip_by_def)
qed

lemma scan_kprobe_line:
  assumes "symbol_ok f" and "what \<noteq> []" "list_all is_word what"
  shows "scan_kprobes irr simple ((kprobe_line i f offset what @ [NL]) # rest) =
    scan_kprobes irr (simple @ [\<lparr>pk_bb_idx = int i, pk_func_name = f, pk_offset = int offset,
      pk_synthesis_type = what, pk_seed_offset = None, pk_seed_mnemonic = [],
      pk_actual_reg_name = set_register rest\<rparr>]) rest"
proof -
  let ?l = "kprobe_line i f offset what"
  have "py_strip ?l = ?l"
    by (rule strip_end) (simp_all add: kprobe_line_def is_space_def)
  then have strip: "py_strip (?l @ [NL]) = ?l" by (simp add: strip_NL)
  have "\<not> mrel (Seq (rx_kprobe_head ''a'') r) None ?l p' s'"
    and "\<not> mrel (Seq (rx_kprobe_head ''b'') r) None ?l p' s'" for r p' s'
    by (rule other_letter, simp add: is_digit_def)+
  then have "re_match rx_save ?l = None" "re_match rx_apply ?l = None"
    by (auto intro!: fails_match simp: fails_def rx_save_def rx_apply_def)
  then show ?thesis using simple_match [OF assms, of i offset] py_int_py_str [of "int i"]
      py_int_hex_of [of "int offset"] assms(2)
    by (simp add: strip group_def dget_def the_int_def py_str_def hex_of_def)
qed

subsubsection \<open>The other lines\<close>

definition bpf_set :: string where "bpf_set = ''BPF_SET_''"

lemma re_search_none: "(\<And>p u v. s = u @ v \<Longrightarrow> fails r p v) \<Longrightarrow> re_search_from r q s = None"
proof (induction s arbitrary: q)
  case Nil
  then show ?case by (simp add: fails_exec)
next
  case (Cons c s)
  have "fails r q (c # s)" by (rule Cons.prems [of "[]"]) simp
  moreover have "re_search_from r (Some c) s = None"
    by (rule Cons.IH) (rule Cons.prems [of "c # u" for u], simp)
  ultimately show ?case by (simp add: fails_exec)
qed

lemma no_set_line: "\<not> contains bpf_set l \<Longrightarrow> re_search rx_bpf_set l = None"
  unfolding re_search_def
  by (rule re_search_none)
    (auto simp: fails_def rx_bpf_set_def mrel_iffs contains_iff bpf_set_def)

lemma no_set_register: "list_all (\<lambda>l. \<not> contains bpf_set l) rest \<Longrightarrow> set_register rest = []"
proof -
  assume "list_all (\<lambda>l. \<not> contains bpf_set l) rest"
  then have "\<forall>l \<in> set (take 24 rest). re_search rx_bpf_set l = None"
    by (auto simp: list_all_iff no_set_line dest: in_set_takeD)
  moreover have "\<forall>l \<in> set ls. f l = None \<Longrightarrow> first_some f ls = None" for f :: "string \<Rightarrow> caps option" and ls
    by (induction ls) auto
  ultimately show ?thesis by (simp add: set_register_def)
qed

lemma starts_with_sep: "c \<notin> set p \<Longrightarrow> starts_with p (a @ c # b) \<longleftrightarrow> starts_with p a"
proof (induction p arbitrary: a)
  case (Cons x p)
  then show ?case by (cases a) auto
qed simp

lemma contains_sep: "c \<notin> set p \<Longrightarrow> p \<noteq> [] \<Longrightarrow>
    contains p (a @ c # b) \<longleftrightarrow> contains p a \<or> contains p b"
proof (induction a)
  case Nil
  then show ?case by (cases p) auto
next
  case (Cons x a)
  then show ?case using starts_with_sep [of c p "x # a" b] by auto
qed

lemma contains_no_B: "CHR ''B'' \<notin> set s \<Longrightarrow> \<not> contains bpf_set s"
  by (auto simp: contains_iff bpf_set_def)

lemma no_B_digs: "2 \<le> b \<Longrightarrow> b \<le> 16 \<Longrightarrow> c \<in> set (digs b n) \<Longrightarrow> c \<noteq> CHR ''B'' \<and> c \<noteq> NL"
proof -
  assume a: "2 \<le> b" "b \<le> 16" "c \<in> set (digs b n)"
  from set_digs [OF this] obtain k where "k < b" "c = digc k" by blast
  with a(2) have "k < 16" "c = digc k" by simp_all
  then have "of_char c \<noteq> (66 :: nat) \<and> of_char c \<noteq> (10 :: nat)" using of_char_digc by auto
  then show ?thesis by auto
qed

text \<open>Text that can stand on a line of the policy file.\<close>

definition line_text :: "string \<Rightarrow> bool" where
  "line_text s \<longleftrightarrow> NL \<notin> set s \<and> \<not> contains bpf_set s"

lemma line_text_no_B: "NL \<notin> set s \<Longrightarrow> CHR ''B'' \<notin> set s \<Longrightarrow> line_text s"
  by (simp add: line_text_def contains_no_B)

lemma line_text_sep: "c \<notin> set bpf_set \<Longrightarrow> c \<noteq> NL \<Longrightarrow> line_text (a @ c # b) \<longleftrightarrow> line_text a \<and> line_text b"
  by (auto simp: line_text_def contains_sep bpf_set_def)

lemma line_text_Cons: "c \<noteq> CHR ''B'' \<Longrightarrow> c \<noteq> NL \<Longrightarrow> line_text (c # b) \<longleftrightarrow> line_text b"
  by (auto simp: line_text_def bpf_set_def)

lemma line_text_simps [simp]: "line_text []" "line_text (num i)" "line_text (hex0x n)" "line_text (py_str n)"
  by (auto intro!: line_text_no_B simp: num_def py_str_def hex0x_def hex_of_def
      dest: no_B_digs [of 10, simplified] no_B_digs [of 16, simplified])

lemma bpf_set_chars: "set bpf_set = set ''BPF_SET_''"
  by (simp add: bpf_set_def)

lemma line_text_join: "list_all line_text xs \<Longrightarrow> line_text (join '','' xs)"
  by (induction xs rule: induct_list012) (simp_all add: line_text_sep bpf_set_chars)

definition kprobe_ok :: "(string \<Rightarrow> string option) \<Rightarrow> kprobe \<Rightarrow> bool" where
  "kprobe_ok proto kp \<longleftrightarrow> symbol_ok (kp_function_name kp) \<and> line_text (kp_function_name kp) \<and>
     0 \<le> kp_offset kp \<and> line_text (kp_rel_str kp) \<and>
     (case proto (kp_function_name kp) of None \<Rightarrow> True
      | Some p \<Rightarrow> line_text p \<and> \<not> starts_with ''Kprobe '' p)"

definition read_back :: "nat \<Rightarrow> kprobe \<Rightarrow> parsed_kprobe" where
  "read_back i kp = \<lparr>pk_bb_idx = int i + 1, pk_func_name = kp_function_name kp, pk_offset = kp_offset kp,
     pk_synthesis_type = synthesis_type (kp_synthesis kp), pk_seed_offset = None,
     pk_seed_mnemonic = [], pk_actual_reg_name = []\<rparr>"

text \<open>The lines before and after the comment with the kprobe.\<close>

definition lines_before :: "(string \<Rightarrow> string option) \<Rightarrow> kprobe \<Rightarrow> string list" where
  "lines_before proto kp = (case proto (kp_function_name kp) of None \<Rightarrow> []
     | Some p \<Rightarrow> if p = [] then [] else [''// '' @ p])"

definition lines_after :: "int \<Rightarrow> nat \<Rightarrow> kprobe \<Rightarrow> string list" where
  "lines_after v1_src i kp =
     [''// Candidates: '' @ join '','' (map hex0x (kp_candidate_offsets kp)),
      ''// Relationship: '' @ kp_rel_str kp,
      ''X_TUNE_'' @ num i @ ''('' @ kp_function_name kp @ '', '' @ DQ1 @ ''+'' @ hex0x (kp_offset kp)
        @ DQ1 @ '') {'',
      ''    if (!x_transition_done(x_ctx)) return 0;'', [],
      ''    // Write your tuning logic here'',
      ''    u64 val = '' @ py_str v1_src @ ''; // original value'',
      ''    x_set(x_ctx, val);'',
      ''    return 0;'', ''}'', []]"

lemma policy_lines_eq: "0 \<le> kp_offset kp \<Longrightarrow> policy_lines proto v1_src i kp = lines_before proto kp
    @ kprobe_line (Suc i) (kp_function_name kp) (nat (kp_offset kp)) (synthesis_type (kp_synthesis kp))
    # lines_after v1_src i kp"
  by (simp add: policy_lines_def Let_def lines_before_def lines_after_def kprobe_line_def num_def
      py_str_def hex0x_def hex_of_def nat_add_distrib)

lemma word_synthesis_type: "synthesis_type s \<noteq> [] \<and> list_all is_word (synthesis_type s)"
  by (cases s) (simp_all add: is_word_def is_lower_def)

lemma line_text_kprobe: "symbol_ok f \<Longrightarrow> line_text f \<Longrightarrow> line_text (kprobe_line i f offset (synthesis_type s))"
  using line_text_simps(2) [of i] line_text_simps(3) [of "int offset"]
  by (cases s) (simp_all add: kprobe_line_def line_text_sep line_text_Cons bpf_set_chars num_def py_str_def
      hex0x_def hex_of_def)

lemma before_ok: "kprobe_ok proto kp \<Longrightarrow> list_all quiet (lines_before proto kp) \<and>
    list_all line_text (lines_before proto kp)"
  by (auto simp: kprobe_ok_def lines_before_def line_text_Cons bpf_set_chars kprobe_start_def is_space_def
      intro!: quiet_start split: option.splits)

lemma after_quiet: "list_all quiet (lines_after v1_src i kp)"
proof -
  have "quiet ('' '' @ s) \<longleftrightarrow> quiet s" for s
    by (simp add: quiet_def py_strip_def lstrip_by_def is_space_def)
  note sp = this [simplified]
  have "\<not> is_space (CHR ''u'')" "\<not> is_space (CHR ''i'')" "\<not> is_space (CHR ''/'')" "\<not> is_space (CHR ''x'')"
    "\<not> is_space (CHR ''r'')" "\<not> is_space (CHR ''}'')" "\<not> is_space (CHR ''X'')"
    by (simp_all add: is_space_def)
  moreover have "quiet []" by (simp add: quiet_def kprobe_start_def py_strip_def lstrip_by_def rstrip_by_def)
  ultimately show ?thesis
    by (auto simp: lines_after_def sp kprobe_start_def intro!: quiet_start)
qed

lemma after_text: "kprobe_ok proto kp \<Longrightarrow> list_all line_text (lines_after v1_src i kp)"
proof -
  assume "kprobe_ok proto kp"
  then have "line_text (kp_function_name kp)" "line_text (kp_rel_str kp)" by (simp_all add: kprobe_ok_def)
  moreover have "line_text (join '','' (map hex0x (kp_candidate_offsets kp)))"
    by (rule line_text_join) (simp add: list_all_iff)
  ultimately show ?thesis
    by (simp add: lines_after_def line_text_sep line_text_Cons bpf_set_chars DQ1_def)
qed

lemma line_text_NL: "line_text l \<Longrightarrow> \<not> contains bpf_set (l @ [NL])"
  by (simp add: contains_sep [where b = "[]"] bpf_set_def line_text_def)

lemma set_register_end: "set_register (ls @ [[NL]]) = set_register ls"
proof -
  have "\<not> contains bpf_set [NL]" by (simp add: bpf_set_def)
  then have n: "re_search rx_bpf_set [NL] = None" by (rule no_set_line)
  have "first_some f (xs @ [x]) = first_some f xs" if "f x = None" for f :: "string \<Rightarrow> caps option" and xs x
    using that by (induction xs) (auto split: option.splits)
  with n show ?thesis by (cases "24 \<le> length ls") (simp_all add: set_register_def)
qed

lemma scan_end: "scan_kprobes irr simple (ls @ [[NL]]) = scan_kprobes irr simple ls"
proof (induction irr simple ls rule: scan_kprobes.induct)
  case (1 irr simple)
  have "quiet [NL]" by (simp add: quiet_def kprobe_start_def py_strip_def lstrip_by_def rstrip_by_def is_space_def)
  then show ?case by (simp add: scan_quiet del: scan_kprobes.simps(2))
next
  case (2 irr simple raw rest)
  then show ?case by (auto simp: Let_def set_register_end split: option.splits prod.splits)
qed

lemma scan_policy:
  assumes "kprobe_ok proto kp" and "list_all (\<lambda>l. \<not> contains bpf_set l) rest"
  shows "scan_kprobes irr simple (map (\<lambda>l. l @ [NL]) (policy_lines proto v1_src i kp) @ rest) =
    scan_kprobes irr (simple @ [read_back i kp]) rest"
proof -
  have off: "0 \<le> kp_offset kp" and f: "symbol_ok (kp_function_name kp)"
    using assms(1) by (simp_all add: kprobe_ok_def)
  let ?k = "kprobe_line (Suc i) (kp_function_name kp) (nat (kp_offset kp)) (synthesis_type (kp_synthesis kp))"
  let ?after = "map (\<lambda>l. l @ [NL]) (lines_after v1_src i kp)"
  have "set_register (?after @ rest) = []"
    using after_text [OF assms(1), of v1_src i] assms(2) line_text_NL
    by (intro no_set_register) (auto simp: list_all_iff)
  then have "scan_kprobes irr simple ((?k @ [NL]) # ?after @ rest) =
      scan_kprobes irr (simple @ [read_back i kp]) (?after @ rest)"
    using scan_kprobe_line [OF f] word_synthesis_type [of "kp_synthesis kp"] off
    by (simp add: read_back_def add.commute del: scan_kprobes.simps)
  moreover have "list_all quiet (map (\<lambda>l. l @ [NL]) (lines_before proto kp))" "list_all quiet ?after"
    using before_ok [OF assms(1)] after_quiet [of v1_src i kp] by (simp_all add: list_all_iff)
  ultimately show ?thesis
    using off by (simp add: policy_lines_eq scan_quiets del: scan_kprobes.simps)
qed

lemma policy_texts: "kprobe_ok proto kp \<Longrightarrow> list_all line_text (policy_lines proto v1_src i kp)"
  using before_ok [of proto kp] after_text [of proto kp v1_src i] line_text_kprobe
  by (simp add: policy_lines_eq kprobe_ok_def)

lemma in_set_enumerateD: "(i, x) \<in> set (enumerate n xs) \<Longrightarrow> x \<in> set xs"
  by (metis in_set_enumerate_eq enumerate_eq_zip in_set_zip snd_conv nth_mem)

lemma scan_policies:
  "list_all (kprobe_ok proto) kps \<Longrightarrow> scan_kprobes irr simple
     (map (\<lambda>l. l @ [NL]) (concat (map (\<lambda>(i, kp). policy_lines proto v1_src i kp) (enumerate n kps)))) =
   (irr, simple @ map (\<lambda>(i, kp). read_back i kp) (enumerate n kps))"
proof (induction kps arbitrary: n simple)
  case (Cons kp kps)
  let ?rest = "map (\<lambda>l. l @ [NL]) (concat (map (\<lambda>(i, kp). policy_lines proto v1_src i kp) (enumerate (Suc n) kps)))"
  have "\<not> contains bpf_set l" if l: "l \<in> set ?rest" for l
  proof -
    from l obtain i kp' m where m: "kp' \<in> set kps" "m \<in> set (policy_lines proto v1_src i kp')" "l = m @ [NL]"
      by (auto dest: in_set_enumerateD)
    with Cons.prems policy_texts have "line_text m" by (fastforce simp: list_all_iff)
    with m(3) line_text_NL show ?thesis by simp
  qed
  then have "list_all (\<lambda>l. \<not> contains bpf_set l) ?rest" by (simp add: list_all_iff)
  then have "scan_kprobes irr simple (map (\<lambda>l. l @ [NL]) (policy_lines proto v1_src n kp) @ ?rest) =
      scan_kprobes irr (simple @ [read_back n kp]) ?rest"
    using Cons.prems by (intro scan_policy) auto
  with Cons show ?case by simp
qed simp

lemma readlines_join:
  "ls \<noteq> [] \<Longrightarrow> list_all (\<lambda>l. NL \<notin> set l) ls \<Longrightarrow> last ls = [] \<Longrightarrow>
   readlines (join [NL] ls) = map (\<lambda>l. l @ [NL]) (butlast ls)"
  by (simp add: readlines_def split_on_join list_all_iff)

definition policy_top :: "string \<Rightarrow> string list" where
  "policy_top prefix = [''// SPDX-License-Identifier: GPL-2.0'',
      ''// Auto-generated X_TUNE policy for test group '' @ prefix, [],
      ''#include '' @ DQ1 @ ''xtune_stub_'' @ prefix @ ''.bpf.h'' @ DQ1, []]"

lemma top_ok: "list_all quiet (policy_top prefix) \<and> (NL \<notin> set prefix \<longrightarrow> list_all (\<lambda>l. NL \<notin> set l) (policy_top prefix))"
proof -
  have "quiet []" by (simp add: quiet_def kprobe_start_def py_strip_def lstrip_by_def rstrip_by_def)
  then show ?thesis by (auto simp: policy_top_def DQ1_def kprobe_start_def is_space_def intro!: quiet_start)
qed

lemma policy_ends: "\<exists>ls. policy_lines proto v1_src i kp = ls @ [[]]"
  by (simp add: policy_lines_def Let_def)

lemma sorted_read_back: "sorted (map pk_bb_idx (map (\<lambda>(i, kp). read_back i kp) (enumerate n kps)))"
proof (induction kps arbitrary: n)
  case (Cons kp kps)
  then show ?case by (auto simp: read_back_def in_set_enumerate_eq)
qed simp

lemma policy_readlines:
  assumes "generate_multi_kprobe_bpf_file proto prefix kps v1_src = Inr (Some (header, policy, bpf_file))"
    and "list_all (kprobe_ok proto) kps" and "NL \<notin> set prefix"
  shows "readlines policy @ [[NL]] = map (\<lambda>l. l @ [NL]) (policy_top prefix
    @ concat (map (\<lambda>(i, kp). policy_lines proto v1_src i kp) (enumerate 0 kps)))"
proof -
  let ?body = "concat (map (\<lambda>(i, kp). policy_lines proto v1_src i kp) (enumerate 0 kps))"
  let ?ls = "policy_top prefix @ ?body"
  have ne: "kps \<noteq> []" and policy: "policy = join [NL] ?ls"
    using assms(1) by (auto simp: generate_multi_kprobe_bpf_file_def policy_file_lines_def policy_top_def
        bindr_Inr_conv split: if_splits)
  from ne obtain kps' kp where k: "kps = kps' @ [kp]" by (metis rev_exhaust)
  obtain ls where ls: "policy_lines proto v1_src (length kps') kp = ls @ [[]]" using policy_ends by blast
  have body: "?body = concat (map (\<lambda>(i, kp). policy_lines proto v1_src i kp) (enumerate 0 kps')) @ ls @ [[]]"
    by (simp add: k enumerate_append_eq ls)
  have "list_all (\<lambda>l. NL \<notin> set l) ?body"
    using assms(2) policy_texts by (fastforce simp: list_all_iff line_text_def dest: in_set_enumerateD)
  then have "readlines policy = map (\<lambda>l. l @ [NL]) (butlast ?ls)"
    unfolding policy using top_ok assms(3) by (intro readlines_join) (auto simp: body)
  then show ?thesis by (simp add: body butlast_append)
qed

lemma policy_parsed:
  assumes "generate_multi_kprobe_bpf_file proto prefix kps v1_src = Inr (Some (header, policy, bpf_file))"
    and "list_all (kprobe_ok proto) kps" and "NL \<notin> set prefix"
  shows "parse_bpf_kprobes (Some policy) = map (\<lambda>(i, kp). read_back i kp) (enumerate 0 kps)"
proof -
  have "scan_kprobes [] [] (readlines policy) = ([], map (\<lambda>(i, kp). read_back i kp) (enumerate 0 kps))"
    using scan_end [of "[]" "[]" "readlines policy"] policy_readlines [OF assms]
      scan_quiets [of "map (\<lambda>l. l @ [NL]) (policy_top prefix)"] top_ok [of prefix]
      scan_policies [OF assms(2), of "[]" "[]" v1_src 0]
    by (simp add: list_all_iff del: scan_kprobes.simps)
  then show ?thesis
    using sorted_read_back [of 0 kps] by (simp add: parse_bpf_kprobes_def sort_key_id_if_sorted)
qed

text \<open>
  C12: the kprobes of a generated policy file are read back in order, with their function, offset and
  kind of synthesis, whatever else the comments hold; seed offsets, seed mnemonics and registers are
  not in the file and come back empty.
\<close>

theorem policy_read_back:
  assumes "generate_multi_kprobe_bpf_file proto prefix kps v1_src = Inr (Some (header, policy, bpf_file))"
    and "list_all (kprobe_ok proto) kps" and "NL \<notin> set prefix"
  shows "parse_bpf_kprobes (Some policy) = map (\<lambda>(i, kp). read_back i kp) (enumerate 0 kps)"
  by (rule policy_parsed [OF assms])

definition sample_kprobe :: kprobe where
  "sample_kprobe = \<lparr>kp_bb_idx = 1, kp_function_name = ''f'', kp_relationship = (Fin 1, Fin 0),
     kp_rel_str = ''IV = V'', kp_actual_reg_name = Some ''eax'', kp_offset = 19,
     kp_candidate_offsets = [19], kp_changed_instruction = None, kp_changed_instructions = [],
     kp_all_instructions = [], kp_synthesis = Simple, kp_seed_mnemonic = []\<rparr>"

lemma sample_kprobe_ok: "list_all (kprobe_ok (\<lambda>f. None)) [sample_kprobe]"
  by (simp add: sample_kprobe_def kprobe_ok_def symbol_ok_def is_word_def is_lower_def line_text_def bpf_set_def)

lemma sample_generated:
  obtains header where "generate_multi_kprobe_bpf_file (\<lambda>f. None) ''1'' [sample_kprobe] 5 = Inr (Some
    (header, join [NL] (policy_file_lines (\<lambda>f. None) ''1'' 5 [sample_kprobe]), ''xtune_stub_1.bpf.o''))"
proof -
  have "\<exists>e. build_expr (Fin 1) (Fin 0) = Inr e" using build_expr_exact [of 1 0] by simp
  then obtain e where "build_expr (Fin 1) (Fin 0) = Inr e" by blast
  then have "\<exists>hdr. header_lines ''1'' 5 [sample_kprobe] = Inr hdr"
    by (simp add: header_lines_def per_kprobe_def helper_lines_def save_handler_lines_def save_seed_def
        sample_kprobe_def)
  with that show ?thesis by (auto simp: generate_multi_kprobe_bpf_file_def)
qed

theorem policy_read_back_witness:
  "parse_bpf_kprobes (Some (join [NL] (policy_file_lines (\<lambda>f. None) ''1'' 5 [sample_kprobe]))) =
     [\<lparr>pk_bb_idx = 1, pk_func_name = ''f'', pk_offset = 19, pk_synthesis_type = ''simple'',
        pk_seed_offset = None, pk_seed_mnemonic = [], pk_actual_reg_name = []\<rparr>]"
proof -
  obtain header where "generate_multi_kprobe_bpf_file (\<lambda>f. None) ''1'' [sample_kprobe] 5 = Inr (Some
    (header, join [NL] (policy_file_lines (\<lambda>f. None) ''1'' 5 [sample_kprobe]), ''xtune_stub_1.bpf.o''))"
    by (rule sample_generated)
  from policy_read_back [OF this sample_kprobe_ok] show ?thesis
    by (simp add: read_back_def sample_kprobe_def)
qed

subsection \<open>What the header declares\<close>

lemma per_kprobe_filter:
  assumes "per_kprobe f kps = Inr ls" and "\<And>i kp l. f i kp = Inr l \<Longrightarrow> filter P l = g i kp"
  shows "filter P ls = concat (map (\<lambda>(i, kp). g i kp) (enumerate 0 kps))"
proof -
  have "mapr (\<lambda>(i, kp). f i kp) xs = Inr lss \<Longrightarrow> filter P (concat lss) = concat (map (\<lambda>(i, kp). g i kp) xs)"
    for xs lss
    using assms(2) by (induction xs arbitrary: lss) (auto simp: bindr_Inr_conv)
  with assms(1) show ?thesis by (auto simp: per_kprobe_def bindr_Inr_conv)
qed

lemma concat_enumerate_none: "(\<And>i kp. f i kp = []) \<Longrightarrow> concat (map (\<lambda>(i, kp). f i kp) (enumerate n kps)) = []"
  by (induction kps arbitrary: n) auto

lemma concat_enumerate_one: "concat (map (\<lambda>(i, kp). [f i]) (enumerate n kps)) = map f [n..<n + length kps]"
  by (induction kps arbitrary: n) (auto simp: upt_rec)

lemma filter_header:
  assumes "header_lines prefix v1_src kps = Inr hdr"
    and "filter P (header_top prefix) = []" "\<not> P (''#endif // __XTUNE_STUB_'' @ prefix @ ''_H__'')"
    and "\<And>i kp l. helper_lines prefix v1_src i kp = Inr l \<Longrightarrow> filter P l = helper i kp"
    and "\<And>i kp l. save_handler_lines prefix i kp = Inr l \<Longrightarrow> filter P l = handler i kp"
  shows "filter P hdr =
    concat (map (\<lambda>(i, kp). filter P (save_map_lines i kp)) (enumerate 0 kps))
    @ concat (map (\<lambda>(i, kp). helper i kp) (enumerate 0 kps))
    @ concat (map (\<lambda>(i, kp). handler i kp) (enumerate 0 kps))
    @ concat (map (\<lambda>(i, kp). filter P (macro_lines prefix i)) (enumerate 0 kps))"
proof -
  from assms(1) obtain helpers handlers where h: "per_kprobe (helper_lines prefix v1_src) kps = Inr helpers"
    "per_kprobe (save_handler_lines prefix) kps = Inr handlers"
    "hdr = header_top prefix
       @ concat (map (\<lambda>(i, kp). save_map_lines i kp) (enumerate 0 kps))
       @ helpers @ handlers
       @ concat (map (\<lambda>(i, kp). macro_lines prefix i) (enumerate 0 kps))
       @ [''#endif // __XTUNE_STUB_'' @ prefix @ ''_H__'']"
    by (auto simp: header_lines_def bindr_Inr_conv)
  have "filter P (concat (map (\<lambda>(i, kp). f i kp) xs)) = concat (map (\<lambda>(i, kp). filter P (f i kp)) xs)"
    for f :: "nat \<Rightarrow> kprobe \<Rightarrow> string list" and xs
    by (induction xs) auto
  then show ?thesis using per_kprobe_filter [OF h(1) assms(4)] per_kprobe_filter [OF h(2) assms(5)] assms(2,3)
    by (simp add: h(3))
qed

lemma ctype_start: "\<exists>t. ctype_of w = CHR ''_'' # t"
  by (simp add: ctype_of_def dget_def)

lemma helper_lines_cases:
  assumes "helper_lines prefix v1_src i kp = Inr l"
    and "\<And>r e. save_seed kp = None \<Longrightarrow> Q (helper_simple prefix i r e)"
    and "\<And>b d w e. save_seed kp = None \<Longrightarrow> Q (helper_memory prefix i b d w e)"
    and "\<And>r m c. save_seed kp = None \<Longrightarrow> Q (helper_sbb prefix i r m c v1_src)"
    and "\<And>c e. save_seed kp = None \<Longrightarrow> Q (helper_cmp prefix i c e)"
    and "\<And>r m c. save_seed kp \<noteq> None \<Longrightarrow> Q (helper_irreversible prefix i r m c)"
  shows "Q l"
proof (cases "kp_synthesis kp")
  case (Irreversible seed c sbb)
  then show ?thesis using assms
    by (cases seed; cases sbb) (auto simp: helper_lines_def bindr_Inr_conv save_seed_def)
qed (use assms in \<open>auto simp: helper_lines_def bindr_Inr_conv save_seed_def\<close>)

definition helper_start :: string where "helper_start = ''static __always_inline void ''"
definition macro_start :: string where "macro_start = ''#define X_TUNE_''"

lemma helper_opens:
  "helper_lines prefix v1_src i kp = Inr l \<Longrightarrow> filter (starts_with helper_start) l = [helper_open prefix i]"
  by (erule helper_lines_cases)
    (simp_all add: helper_simple_def helper_memory_def helper_sbb_def helper_irreversible_def helper_cmp_def
      helper_start_def write_back_def helper_open_def Let_def split: option.split)

lemma helper_no_macro:
  "helper_lines prefix v1_src i kp = Inr l \<Longrightarrow> filter (starts_with macro_start) l = []"
  by (erule helper_lines_cases)
    (simp_all add: helper_simple_def helper_memory_def helper_sbb_def helper_irreversible_def helper_cmp_def
      macro_start_def write_back_def helper_open_def Let_def split: option.split)

lemma handler_no_start:
  "save_handler_lines prefix i kp = Inr l \<Longrightarrow> filter (starts_with helper_start) l = []"
  "save_handler_lines prefix i kp = Inr l \<Longrightarrow> filter (starts_with macro_start) l = []"
  by (auto simp: save_handler_lines_def bindr_Inr_conv Let_def helper_start_def macro_start_def
      split: option.splits)

lemma map_macro_starts:
  "filter (starts_with helper_start) (save_map_lines i kp) = []"
  "filter (starts_with macro_start) (save_map_lines i kp) = []"
  "filter (starts_with helper_start) (macro_lines prefix i) = []"
  "filter (starts_with macro_start) (macro_lines prefix i) = [hd (macro_lines prefix i)]"
  "filter (starts_with helper_start) (header_top prefix) = []"
  "filter (starts_with macro_start) (header_top prefix) = []"
  by (simp_all add: save_map_lines_def macro_lines_def header_top_def helper_start_def macro_start_def Let_def
      split: option.split)

text \<open>
  The header of a generated file defines exactly one helper function per kprobe and one
  macro per kprobe, in the order of the kprobes.
\<close>

theorem helpers_and_macros:
  assumes "header_lines prefix v1_src kps = Inr hdr"
  shows "filter (starts_with helper_start) hdr = map (helper_open prefix) [0..<length kps] \<and>
    filter (starts_with macro_start) hdr = map (\<lambda>i. hd (macro_lines prefix i)) [0..<length kps]"
proof
  have e: "\<not> starts_with helper_start (''#endif // __XTUNE_STUB_'' @ x)"
    "\<not> starts_with macro_start (''#endif // __XTUNE_STUB_'' @ x)" for x
    by (simp_all add: helper_start_def macro_start_def)
  show "filter (starts_with helper_start) hdr = map (helper_open prefix) [0..<length kps]"
    by (subst filter_header [OF assms map_macro_starts(5) e(1) helper_opens handler_no_start(1)])
      (use concat_enumerate_one [of "helper_open prefix" 0 kps] in
        \<open>simp_all add: map_macro_starts concat_enumerate_none\<close>)
  show "filter (starts_with macro_start) hdr = map (\<lambda>i. hd (macro_lines prefix i)) [0..<length kps]"
    by (subst filter_header [OF assms map_macro_starts(6) e(2) helper_no_macro handler_no_start(2)])
      (use concat_enumerate_one [of "\<lambda>i. hd (macro_lines prefix i)" 0 kps] in
        \<open>simp_all add: map_macro_starts concat_enumerate_none\<close>)
qed

theorem helpers_and_macros_witness:
  "\<exists>hdr. header_lines ''1'' 5 [sample_kprobe] = Inr hdr \<and>
     filter (starts_with helper_start) hdr =
       [''static __always_inline void __sie_1_0(struct pt_regs *regs, u64 val) {'']"
proof -
  obtain hdr where h: "header_lines ''1'' 5 [sample_kprobe] = Inr hdr"
    by (rule sample_generated) (auto simp: generate_multi_kprobe_bpf_file_def bindr_Inr_conv)
  have "helper_open ''1'' 0 = ''static __always_inline void __sie_1_0(struct pt_regs *regs, u64 val) {''"
    by code_simp
  with helpers_and_macros [OF h] h show ?thesis by simp
qed

definition decl_start :: string where "decl_start = ''} xk_save_''"
definition lookup_start :: string where "lookup_start = ''    __u64 *saved = bpf_map_lookup_elem(&xk_save_''"
definition update_start :: string where "update_start = ''    bpf_map_update_elem(&xk_save_''"

definition decl_line :: "nat \<Rightarrow> string" where
  "decl_line i = decl_start @ num i @ '' SEC('' @ DQ1 @ ''.maps'' @ DQ1 @ '');''"
definition lookup_line :: "nat \<Rightarrow> string" where "lookup_line i = lookup_start @ num i @ '', &key);''"
definition update_line :: "nat \<Rightarrow> string" where "update_line i = update_start @ num i @ '', &key, &val, BPF_ANY);''"

text \<open>One line for each kprobe whose register has to be saved.\<close>

definition for_saved :: "(nat \<Rightarrow> string) \<Rightarrow> kprobe list \<Rightarrow> string list" where
  "for_saved f kps = map f (filter (\<lambda>i. save_seed (kps ! i) \<noteq> None) [0..<length kps])"

lemma concat_saved: "concat (map (\<lambda>(i, kp). if save_seed kp = None then [] else [f i]) (enumerate 0 kps))
    = for_saved f kps"
proof (induction kps rule: rev_induct)
  case (snoc kp kps)
  have "filter (\<lambda>i. save_seed ((kps @ [kp]) ! i) \<noteq> None) [0..<length kps] =
      filter (\<lambda>i. save_seed (kps ! i) \<noteq> None) [0..<length kps]"
    by (rule filter_cong) (simp_all add: nth_append)
  with snoc show ?case by (simp add: for_saved_def enumerate_append_eq)
qed (simp add: for_saved_def)

lemma helper_saves:
  assumes "helper_lines prefix v1_src i kp = Inr l"
  shows "filter (starts_with decl_start) l = []" "filter (starts_with update_start) l = []"
    "filter (starts_with lookup_start) l = (if save_seed kp = None then [] else [lookup_line i])"
proof -
  note defs = helper_simple_def helper_memory_def helper_sbb_def helper_irreversible_def helper_cmp_def
    decl_start_def update_start_def lookup_start_def lookup_line_def write_back_def helper_open_def Let_def
  have c: "\<not> starts_with (CHR ''b'' # x) (ctype_of w @ y)" for x y w using ctype_start [of w] by auto
  have d: "\<not> starts_with (CHR ''_'' # CHR ''_'' # CHR ''u'' # CHR ''6'' # CHR ''4'' # CHR '' '' # CHR ''*'' # x)
      (ctype_of w @ CHR '' '' # CHR ''n'' # y)" for x y w
    by (simp add: ctype_of_def dget_def)
  show "filter (starts_with decl_start) l = []"
    by (rule helper_lines_cases [OF assms]) (simp_all add: defs split: option.split)
  show "filter (starts_with update_start) l = []"
    by (rule helper_lines_cases [OF assms]) (simp_all add: defs c split: option.split)
  show "filter (starts_with lookup_start) l = (if save_seed kp = None then [] else [lookup_line i])"
    by (rule helper_lines_cases [OF assms]) (simp_all add: defs d split: option.split)
qed

lemma handler_saves:
  assumes "save_handler_lines prefix i kp = Inr l"
  shows "filter (starts_with decl_start) l = []" "filter (starts_with lookup_start) l = []"
    "filter (starts_with update_start) l = (if save_seed kp = None then [] else [update_line i])"
  using assms by (auto simp: save_handler_lines_def bindr_Inr_conv Let_def decl_start_def lookup_start_def
      update_start_def update_line_def split: option.splits)

lemma map_macro_saves:
  "filter (starts_with decl_start) (save_map_lines i kp) = (if save_seed kp = None then [] else [decl_line i])"
  "filter (starts_with lookup_start) (save_map_lines i kp) = []"
  "filter (starts_with update_start) (save_map_lines i kp) = []"
  "filter (starts_with decl_start) (macro_lines prefix i) = []"
  "filter (starts_with lookup_start) (macro_lines prefix i) = []"
  "filter (starts_with update_start) (macro_lines prefix i) = []"
  by (simp_all add: save_map_lines_def macro_lines_def decl_start_def lookup_start_def update_start_def
      decl_line_def Let_def split: option.split)

lemma top_saves:
  "filter (starts_with decl_start) (header_top prefix) = []"
  "filter (starts_with lookup_start) (header_top prefix) = []"
  "filter (starts_with update_start) (header_top prefix) = []"
  "\<not> starts_with decl_start (''#endif // __XTUNE_STUB_'' @ x)"
  "\<not> starts_with lookup_start (''#endif // __XTUNE_STUB_'' @ x)"
  "\<not> starts_with update_start (''#endif // __XTUNE_STUB_'' @ x)"
  by (simp_all add: header_top_def decl_start_def lookup_start_def update_start_def)

text \<open>
  C36: a map is declared, looked up by a helper and filled by a save handler for the same
  kprobes, those whose register has to be saved.
\<close>

theorem save_maps_consistent:
  assumes "header_lines prefix v1_src kps = Inr hdr"
  shows "filter (starts_with decl_start) hdr = for_saved decl_line kps \<and>
    filter (starts_with lookup_start) hdr = for_saved lookup_line kps \<and>
    filter (starts_with update_start) hdr = for_saved update_line kps"
proof (intro conjI)
  show "filter (starts_with decl_start) hdr = for_saved decl_line kps"
    by (subst filter_header [OF assms top_saves(1) top_saves(4) helper_saves(1) handler_saves(1)])
      (simp_all add: map_macro_saves concat_enumerate_none concat_saved)
  show "filter (starts_with lookup_start) hdr = for_saved lookup_line kps"
    by (subst filter_header [OF assms top_saves(2) top_saves(5) helper_saves(3) handler_saves(2)])
      (use concat_saved [of lookup_line kps] in \<open>simp_all add: map_macro_saves concat_enumerate_none\<close>)
  show "filter (starts_with update_start) hdr = for_saved update_line kps"
    by (subst filter_header [OF assms top_saves(3) top_saves(6) helper_saves(2) handler_saves(3)])
      (use concat_saved [of update_line kps] in \<open>simp_all add: map_macro_saves concat_enumerate_none\<close>)
qed

definition saving_kprobe :: kprobe where
  "saving_kprobe = sample_kprobe\<lparr>kp_synthesis := Irreversible (Some 16) ''(*saved) >> 3'' False\<rparr>"

theorem save_maps_consistent_witness:
  "\<exists>hdr. header_lines ''1'' 5 [sample_kprobe, saving_kprobe] = Inr hdr \<and>
     filter (starts_with lookup_start) hdr = [''    __u64 *saved = bpf_map_lookup_elem(&xk_save_1, &key);'']"
proof -
  have "\<exists>e. build_expr (Fin 1) (Fin 0) = Inr e" using build_expr_exact [of 1 0] by simp
  then obtain e where "build_expr (Fin 1) (Fin 0) = Inr e" by blast
  then have "\<exists>hdr. header_lines ''1'' 5 [sample_kprobe, saving_kprobe] = Inr hdr"
    by (simp add: header_lines_def per_kprobe_def helper_lines_def save_handler_lines_def save_seed_def
        sample_kprobe_def saving_kprobe_def get_macro_of_def)
  then obtain hdr where h: "header_lines ''1'' 5 [sample_kprobe, saving_kprobe] = Inr hdr" by blast
  have "lookup_line 1 = ''    __u64 *saved = bpf_map_lookup_elem(&xk_save_1, &key);''" by code_simp
  then have "for_saved lookup_line [sample_kprobe, saving_kprobe] =
      [''    __u64 *saved = bpf_map_lookup_elem(&xk_save_1, &key);'']"
    by (simp add: for_saved_def save_seed_def sample_kprobe_def saving_kprobe_def upt_rec)
  with save_maps_consistent [OF h] h show ?thesis by simp
qed

subsection \<open>The block that is shown\<close>

text \<open>
  The placement of a kprobe is shown in the block whose number is the kprobe's position
  in the file, which need not be the block the kprobe was made for: blocks without a kprobe
  are not counted.
\<close>

theorem placement_by_position:
  assumes "generate_multi_kprobe_bpf_file proto prefix kps v1_src = Inr (Some (header, policy, bpf_file))"
    and "list_all (kprobe_ok proto) kps" "NL \<notin> set prefix"
    and "v1_file \<noteq> None" "extract_all_basic_blocks_from_file v1_file = bbs"
    and "i < length kps" "i < length bbs" "all_instructions (bbs ! i) \<noteq> []"
  shows "(read_back i (kps ! i), bbs ! i,
      extract_function_base_from_bb_file v1_file (kp_function_name (kps ! i)))
    \<in> set (shown_kprobes v1_file (Some policy))"
proof -
  have "(i, kps ! i) \<in> set (enumerate 0 kps)" using assms(6) by (simp add: in_set_enumerate_eq)
  then have "read_back i (kps ! i) \<in> set (parse_bpf_kprobes (Some policy))"
    unfolding policy_parsed [OF assms(1-3)] by force
  moreover have "pk_bb_idx (read_back i (kps ! i)) - 1 = int i"
    "pk_func_name (read_back i (kps ! i)) = kp_function_name (kps ! i)" by (simp_all add: read_back_def)
  ultimately show ?thesis using assms(4,5,7,8)
    by (force simp: shown_kprobes_def map_filter_eq Let_def)
qed

theorem placement_by_position_witness:
  "kp_bb_idx sample_kprobe = 1 \<and> (\<exists>policy b base. all_instructions b = demo_insts ''0x5'' \<and>
     extract_all_basic_blocks_from_file (demo_file ''0x5'') = [b] \<and>
     (read_back 0 sample_kprobe, b, base) \<in> set (shown_kprobes (demo_file ''0x5'') (Some policy)))"
proof -
  obtain b where b: "extract_all_basic_blocks_from_file (demo_file ''0x5'') = [b]"
    "all_instructions b = demo_insts ''0x5''"
    using demo_evaluated(1) by (auto simp: map_eq_Cons_conv)
  obtain header policy where g: "generate_multi_kprobe_bpf_file (\<lambda>f. None) ''1'' [sample_kprobe] 5 =
      Inr (Some (header, policy, ''xtune_stub_1.bpf.o''))" by (rule sample_generated)
  have "demo_file ''0x5'' \<noteq> None" "demo_insts ''0x5'' \<noteq> []" by code_simp+
  with placement_by_position [OF g sample_kprobe_ok _ _ b(1), of 0] b show ?thesis
    by (auto simp: sample_kprobe_def)
qed

end
