(* ===== verification/Kcore_Translate.thy ===== *)
theory Kcore_Translate
  imports Kprobe_Synth
begin

text \<open>
  From offsets in the object file to offsets in the running kernel
  (\<open>src/src/codegen.py\<close>): reading kernel listings (\<open>/proc/kallsyms\<close>, \<open>objdump\<close>) and
  \<open>translate_kprobe_offsets_to_vmlinux\<close>, which finds a kprobe's place again by the bytes of
  the instruction before it. The output of \<open>grep\<close> and \<open>objdump\<close> is a parameter
  (\<open>None\<close> when the command fails).
\<close>

section \<open>Listings\<close>

record listed_insn =
  i_offset :: int
  i_bytes :: "string list"
  i_asm :: string

text \<open>\<open>str.splitlines\<close>, for ASCII text.\<close>

definition line_sep :: "char \<Rightarrow> bool" where
  "line_sep c \<longleftrightarrow> (let n = (of_char c :: nat) in (10 \<le> n \<and> n \<le> 13) \<or> (28 \<le> n \<and> n \<le> 30))"

fun split_lines :: "string \<Rightarrow> string \<Rightarrow> string list" where
  "split_lines cur [] = (if cur = [] then [] else [rev cur])"
| "split_lines cur [c] = (if line_sep c then [rev cur] else [rev (c # cur)])"
| "split_lines cur (c # d # cs) =
     (if c = CR \<and> d = NL then rev cur # split_lines [] cs
      else if line_sep c then rev cur # split_lines [] (d # cs)
      else split_lines (c # cur) (d # cs))"

definition splitlines :: "string \<Rightarrow> string list" where
  "splitlines s = split_lines [] s"

definition rx_hex_bytes :: rx where
  "rx_hex_bytes = seqs [Cls is_hex, Cls is_hex, Many 1 is_space]"

definition rx_listing :: rx where
  "rx_listing = seqs [Many 0 is_space, Grp 1 (Many 1 is_hex), lit '':'', Many 1 is_space,
     Grp 2 (Rep 1 rx_hex_bytes), Many 0 is_space, Grp 3 (Many 1 dot)]"

definition listing_insn :: "int \<Rightarrow> string \<Rightarrow> listed_insn option" where
  "listing_insn start line = (case re_match rx_listing line of
     None \<Rightarrow> None
   | Some (g, _) \<Rightarrow> (case py_int 16 (group g 1) of
       None \<Rightarrow> None
     | Some addr \<Rightarrow> Some \<lparr>i_offset = addr - start, i_bytes = split_ws (py_strip (group g 2)),
         i_asm = py_strip (group g 3)\<rparr>))"

text \<open>A text symbol of \<open>/proc/kallsyms\<close>: its address, and that of the symbol after it.\<close>

definition is_text_symbol :: "string \<Rightarrow> string list \<Rightarrow> bool" where
  "is_text_symbol func_name parts \<longleftrightarrow> length parts \<ge> 3 \<and> parts ! 2 = func_name \<and>
     parts ! 1 \<in> {''T'', ''t''}"

fun symbol_start :: "string \<Rightarrow> string list \<Rightarrow> int option res" where
  "symbol_start func_name [] = Inr None"
| "symbol_start func_name (line # lines) =
     (let parts = split_ws line in
      if is_text_symbol func_name parts
      then bindr (or_value_error (py_int 16 (parts ! 0))) (\<lambda>a. Inr (Some a))
      else symbol_start func_name lines)"

fun symbol_end :: "string \<Rightarrow> bool \<Rightarrow> string list \<Rightarrow> int option res" where
  "symbol_end func_name found [] = Inr None"
| "symbol_end func_name found (line # lines) =
     (let parts = split_ws line in
      if length parts \<ge> 3 \<and> found
      then bindr (or_value_error (py_int 16 (parts ! 0))) (\<lambda>a. Inr (Some a))
      else symbol_end func_name (found \<or> is_text_symbol func_name parts) lines)"

text \<open>
  The host: what \<open>grep -w\<close> prints for a function, with and without the line after each
  match, what \<open>objdump\<close> prints for an address range of \<open>/proc/kcore\<close> and for a
  function of a binary.
\<close>

record host =
  h_grep :: "string \<Rightarrow> string option"
  h_grep_after :: "string \<Rightarrow> string option"
  h_kcore :: "int \<Rightarrow> int \<Rightarrow> string option"
  h_binary :: "string \<Rightarrow> string \<Rightarrow> string option"

definition nonempty :: "'a list \<Rightarrow> 'a list option" where
  "nonempty xs = (if xs = [] then None else Some xs)"

definition disassemble_from_kcore :: "host \<Rightarrow> string \<Rightarrow> listed_insn list option res" where
  "disassemble_from_kcore h func_name = (case h_grep h func_name of
     None \<Rightarrow> Inr None
   | Some out \<Rightarrow> if py_strip out = [] then Inr None
     else bindr (symbol_start func_name (splitlines (py_strip out))) (\<lambda>s. case s of
       None \<Rightarrow> Inr None
     | Some start_addr \<Rightarrow> (case h_grep_after h func_name of
         None \<Rightarrow> Inr None
       | Some out2 \<Rightarrow> bindr (symbol_end func_name False (splitlines (py_strip out2))) (\<lambda>e. case e of
           None \<Rightarrow> Inr None
         | Some end_addr \<Rightarrow> (case h_kcore h start_addr end_addr of
             None \<Rightarrow> Inr None
           | Some text \<Rightarrow> Inr (nonempty (List.map_filter (listing_insn start_addr) (splitlines text))))))))"

definition get_function_end_offset :: "host \<Rightarrow> string \<Rightarrow> int option res" where
  "get_function_end_offset h func_name =
     bindr (disassemble_from_kcore h func_name) (\<lambda>instrs. Inr (map_option (\<lambda>is. i_offset (last is)) instrs))"

text \<open>The listing of one function of a binary.\<close>

definition rx_function_addr :: rx where
  "rx_function_addr = seqs [Many 0 is_space, Grp 1 (Many 1 is_hex), Many 1 is_space, lit ''<'']"

definition rx_next_function :: rx where
  "rx_next_function = seqs [Bol, Many 1 is_hex, lit '' <'']"

fun binary_listing :: "string \<Rightarrow> int option \<Rightarrow> listed_insn list \<Rightarrow> string list \<Rightarrow> listed_insn list" where
  "binary_listing func_name func_start acc [] = acc"
| "binary_listing func_name func_start acc (line # lines) =
     (if contains (''<'' @ func_name @ ''>:'') line
      then (case re_match rx_function_addr line of
              Some (g, _) \<Rightarrow> binary_listing func_name (py_int 16 (group g 1)) acc lines
            | None \<Rightarrow> binary_listing func_name func_start acc lines)
      else case func_start of
        None \<Rightarrow> binary_listing func_name func_start acc lines
      | Some start \<Rightarrow>
          if py_strip line = []
          then (if acc \<noteq> [] then acc else binary_listing func_name func_start acc lines)
          else if re_matches rx_next_function (py_strip line) then acc
          else binary_listing func_name func_start
            (case listing_insn start line of Some i \<Rightarrow> acc @ [i] | None \<Rightarrow> acc) lines)"

definition disassemble_function_from_binary :: "host \<Rightarrow> string \<Rightarrow> string \<Rightarrow> listed_insn list option" where
  "disassemble_function_from_binary h binary_path func_name = (case h_binary h binary_path func_name of
     None \<Rightarrow> None
   | Some text \<Rightarrow> nonempty (binary_listing func_name None [] (splitlines text)))"

text \<open>\<open>os.path.join\<close> and \<open>find_vmlinux_path\<close>, on a file system that says what is a file.\<close>

definition path_join :: "string \<Rightarrow> string \<Rightarrow> string" where
  "path_join a b = (if starts_with ''/'' b then b
     else if a = [] \<or> ends_with ''/'' a then a @ b else a @ ''/'' @ b)"

definition find_vmlinux_path :: "(string \<Rightarrow> bool) \<Rightarrow> string \<Rightarrow> (string \<Rightarrow> string) \<Rightarrow> string list option \<Rightarrow>
    string option \<Rightarrow> string option" where
  "find_vmlinux_path isfile uname_r expanduser home_listing kernel_dir =
     (let boot = [''/boot/vmlinux-'' @ uname_r, ''/usr/lib/debug/boot/vmlinux-'' @ uname_r];
          tree = (case kernel_dir of
            None \<Rightarrow> [] | Some d \<Rightarrow> if d = [] then [] else [path_join (expanduser d) ''vmlinux'']);
          home = expanduser ''~'';
          trees = (case home_listing of None \<Rightarrow> []
            | Some ds \<Rightarrow> map (\<lambda>d. path_join (path_join home d) ''vmlinux'')
                (filter (starts_with ''linux-'') (sort ds)))
      in find isfile (boot @ tree @ trees))"

section \<open>Translation\<close>

text \<open>The lines of a block that carry bytes: address and bytes.\<close>

definition rx_line_bytes :: rx where
  "rx_line_bytes = seqs [Grp 1 (Many 1 is_hex), lit '':'', Many 1 is_space, Grp 2 (Rep 1 rx_hex_bytes)]"

definition line_bytes :: "int option \<Rightarrow> string \<Rightarrow> (int \<times> string list) option" where
  "line_bytes func_base inst = (case re_match rx_line_bytes (clean_line inst) of
     None \<Rightarrow> None
   | Some (g, _) \<Rightarrow> (case py_int 16 (group g 1) of
       None \<Rightarrow> None
     | Some addr \<Rightarrow> Some (rel_offset func_base addr, split_ws (py_strip (group g 2)))))"

fun find_pattern :: "nat \<Rightarrow> string list \<Rightarrow> nat \<Rightarrow> listed_insn list \<Rightarrow> nat option" where
  "find_pattern idx pattern occurrence [] = None"
| "find_pattern idx pattern occurrence (i # is) =
     (if i_bytes i = pattern
      then (if occurrence = 0 then Some idx else find_pattern (Suc idx) pattern (occurrence - 1) is)
      else find_pattern (Suc idx) pattern occurrence is)"

definition find_byte_pattern_in_instrs :: "listed_insn list \<Rightarrow> string list \<Rightarrow> nat \<Rightarrow> nat option" where
  "find_byte_pattern_in_instrs instrs pattern occurrence = find_pattern 0 pattern occurrence instrs"

definition preceding_bytes :: "int option \<Rightarrow> int \<Rightarrow> string list \<Rightarrow> string list option" where
  "preceding_bytes func_base o_offset all_insts =
     first_some (\<lambda>l. case line_bytes func_base l of
       Some (off, bs) \<Rightarrow> if off + int (length bs) = o_offset then Some bs else None
     | None \<Rightarrow> None) all_insts"

definition bytes_at :: "int option \<Rightarrow> int \<Rightarrow> string list \<Rightarrow> string list option" where
  "bytes_at func_base offset all_insts =
     first_some (\<lambda>l. case line_bytes func_base l of
       Some (off, bs) \<Rightarrow> if off = offset then Some bs else None
     | None \<Rightarrow> None) all_insts"

definition base_from_block :: "string \<Rightarrow> string list \<Rightarrow> int option" where
  "base_from_block func_name all_insts = first_some (\<lambda>l. symbol_ref func_name (clean_line l)) all_insts"

definition translate_seed :: "listed_insn list \<Rightarrow> int option \<Rightarrow> kprobe \<Rightarrow> kprobe" where
  "translate_seed instrs func_base kp = (case kp_synthesis kp of
     Irreversible (Some old_seed) expr sbb \<Rightarrow>
       (case bytes_at func_base old_seed (kp_all_instructions kp) of
          None \<Rightarrow> kp
        | Some bs \<Rightarrow> if bs = [] then kp
            else (case find_byte_pattern_in_instrs instrs bs 0 of
              None \<Rightarrow> kp
            | Some i \<Rightarrow> kp\<lparr>kp_synthesis := Irreversible (Some (i_offset (instrs ! i))) expr sbb\<rparr>))
   | _ \<Rightarrow> kp)"

definition move_to :: "int \<Rightarrow> kprobe \<Rightarrow> kprobe" where
  "move_to new_offset kp = (if new_offset \<noteq> kp_offset kp
     then kp\<lparr>kp_offset := new_offset, kp_candidate_offsets := [new_offset]\<rparr> else kp)"

type_synonym counters = "(string list, nat) dict"

definition translate_kprobe :: "listed_insn list \<Rightarrow> int option \<Rightarrow> counters \<Rightarrow> kprobe \<Rightarrow> counters \<times> kprobe" where
  "translate_kprobe instrs func_base cnt kp =
     (case preceding_bytes func_base (kp_offset kp) (kp_all_instructions kp) of
        None \<Rightarrow> (cnt, kp)
      | Some bs \<Rightarrow> if bs = [] then (cnt, kp)
          else let occ = dget cnt bs 0; cnt' = dput bs (occ + 1) cnt in
            (case find_byte_pattern_in_instrs instrs bs occ of
               None \<Rightarrow> (cnt', kp)
             | Some i \<Rightarrow> if i + 1 \<ge> length instrs then (cnt', kp)
                 else (cnt', translate_seed instrs func_base
                        (move_to (i_offset (instrs ! (i + 1))) kp))))"

fun translate_group :: "listed_insn list \<Rightarrow> int option \<Rightarrow> counters \<Rightarrow> kprobe list \<Rightarrow> kprobe list" where
  "translate_group instrs func_base cnt [] = []"
| "translate_group instrs func_base cnt (kp # kps) =
     (let (cnt', kp') = translate_kprobe instrs func_base cnt kp
      in kp' # translate_group instrs func_base cnt' kps)"

text \<open>The kprobes of a function are updated where they stand in the list.\<close>

fun put_back :: "('a \<Rightarrow> bool) \<Rightarrow> 'a list \<Rightarrow> 'a list \<Rightarrow> 'a list" where
  "put_back P [] ys = []"
| "put_back P (x # xs) ys =
     (if P x then (case ys of [] \<Rightarrow> x # xs | y # ys \<Rightarrow> y # put_back P xs ys)
      else x # put_back P xs ys)"

definition kernel_listing :: "host \<Rightarrow> string option \<Rightarrow> string \<Rightarrow> listed_insn list option res" where
  "kernel_listing h vmlinux func_name =
     bindr (disassemble_from_kcore h func_name) (\<lambda>k. Inr (case k of
       Some is \<Rightarrow> Some is
     | None \<Rightarrow> (case vmlinux of None \<Rightarrow> None
         | Some path \<Rightarrow> disassemble_function_from_binary h path func_name)))"

fun translate_functions :: "(string \<Rightarrow> listed_insn list option res) \<Rightarrow> string list \<Rightarrow> kprobe list \<Rightarrow> kprobe list res" where
  "translate_functions listing [] kps = Inr kps"
| "translate_functions listing (f # fs) kps =
     bindr (listing f) (\<lambda>l. case l of
       None \<Rightarrow> translate_functions listing fs kps
     | Some instrs \<Rightarrow>
         (let group = filter (\<lambda>kp. kp_function_name kp = f) kps;
              func_base = base_from_block f (kp_all_instructions (hd group))
          in translate_functions listing fs
               (put_back (\<lambda>kp. kp_function_name kp = f) kps (translate_group instrs func_base [] group))))"

definition translate_kprobe_offsets_to_vmlinux :: "(string \<Rightarrow> listed_insn list option res) \<Rightarrow> kprobe list \<Rightarrow>
    kprobe list res" where
  "translate_kprobe_offsets_to_vmlinux listing kps =
     translate_functions listing (rev (remdups (rev (map kp_function_name kps)))) kps"

section \<open>Finding a byte pattern\<close>

lemma find_pattern_iff:
  "find_pattern idx pattern n is = Some r \<longleftrightarrow>
     (\<exists>j < length is. r = idx + j \<and> i_bytes (is ! j) = pattern \<and>
        length (filter (\<lambda>i. i_bytes i = pattern) (take j is)) = n)"
proof (induction "is" arbitrary: idx n)
  case (Cons i "is")
  show ?case
  proof (cases "i_bytes i = pattern \<and> n = 0")
    case True
    have "j = 0" if "length (filter (\<lambda>i. i_bytes i = pattern) (take j (i # is))) = 0" for j
      using that True by (cases j) auto
    with True show ?thesis by (auto intro: exI [of _ 0])
  next
    case False
    have ex: "(\<exists>j < length (i # is). P j) \<longleftrightarrow> P 0 \<or> (\<exists>j < length is. P (Suc j))" for P
      by (metis Suc_less_eq length_Cons less_Suc_eq_0_disj zero_less_Suc)
    show ?thesis using False unfolding ex
      by (cases n) (auto simp: Cons.IH)
  qed
qed simp

text \<open>
  The search returns the position of the pattern's occurrence with the given number,
  counted from 0 among the instructions of the listing, and nothing when there are not
  so many.
\<close>

theorem find_byte_pattern_iff:
  "find_byte_pattern_in_instrs instrs pattern occurrence = Some r \<longleftrightarrow>
     r < length instrs \<and> i_bytes (instrs ! r) = pattern \<and>
     length (filter (\<lambda>i. i_bytes i = pattern) (take r instrs)) = occurrence"
  unfolding find_byte_pattern_in_instrs_def by (auto simp: find_pattern_iff)

text \<open>The offset of an instruction that follows one with the given bytes.\<close>

definition follows_bytes :: "listed_insn list \<Rightarrow> string list \<Rightarrow> int \<Rightarrow> bool" where
  "follows_bytes instrs bs offset \<longleftrightarrow>
     list_ex (\<lambda>(i, j). i_bytes i = bs \<and> i_offset j = offset) (zip instrs (tl instrs))"

lemma follows_bytesI:
  "Suc r < length instrs \<Longrightarrow> i_bytes (instrs ! r) = bs \<Longrightarrow>
     follows_bytes instrs bs (i_offset (instrs ! Suc r))"
  by (fastforce simp: follows_bytes_def list_ex_iff in_set_zip nth_tl intro: exI [of _ r])

section \<open>One kprobe\<close>

text \<open>A kprobe without its places.\<close>

definition unplaced :: "kprobe \<Rightarrow> kprobe" where
  "unplaced kp = kp\<lparr>kp_offset := 0, kp_candidate_offsets := [],
     kp_synthesis := (case kp_synthesis kp of
       Irreversible s expr sbb \<Rightarrow> Irreversible None expr sbb | s \<Rightarrow> s)\<rparr>"

lemma unplaced_seed [simp]: "unplaced (translate_seed instrs func_base kp) = unplaced kp"
  by (auto simp: translate_seed_def unplaced_def split: synthesis.splits option.splits)

lemma unplaced_move [simp]: "unplaced (move_to offset kp) = unplaced kp"
  by (simp add: move_to_def unplaced_def)

lemma offset_seed [simp]: "kp_offset (translate_seed instrs func_base kp) = kp_offset kp"
  by (auto simp: translate_seed_def split: synthesis.splits option.splits)

lemma offset_move [simp]: "kp_offset (move_to offset kp) = offset"
  by (simp add: move_to_def)

definition same_or_after :: "listed_insn list \<Rightarrow> kprobe \<Rightarrow> kprobe \<Rightarrow> bool" where
  "same_or_after instrs kp kp' \<longleftrightarrow> unplaced kp' = unplaced kp \<and> (kp' = kp \<or>
     (\<exists>func_base bs. preceding_bytes func_base (kp_offset kp) (kp_all_instructions kp) = Some bs \<and>
        follows_bytes instrs bs (kp_offset kp')))"

lemma same_or_after_refl [simp]: "same_or_after instrs kp kp"
  by (simp add: same_or_after_def)

lemma translate_kprobe_after: "same_or_after instrs kp (snd (translate_kprobe instrs func_base cnt kp))"
proof (cases "preceding_bytes func_base (kp_offset kp) (kp_all_instructions kp)")
  case (Some bs)
  show ?thesis
  proof (cases "find_byte_pattern_in_instrs instrs bs (dget cnt bs 0)")
    case (Some r)
    then have "follows_bytes instrs bs (i_offset (instrs ! Suc r))" if "Suc r < length instrs"
      using that by (intro follows_bytesI) (auto simp: find_byte_pattern_in_instrs_def find_pattern_iff)
    with Some \<open>preceding_bytes _ _ _ = _\<close> show ?thesis
      by (auto simp: translate_kprobe_def Let_def same_or_after_def)
  qed (simp add: \<open>preceding_bytes _ _ _ = _\<close> translate_kprobe_def Let_def)
qed (simp add: translate_kprobe_def)

lemma translate_group_after:
  "list_all2 (same_or_after instrs) kps (translate_group instrs func_base cnt kps)"
  by (induction kps arbitrary: cnt)
    (use translate_kprobe_after in \<open>fastforce simp: split_beta Let_def\<close>)+

section \<open>All kprobes\<close>

lemma put_back_all2:
  "list_all2 Q (filter P xs) ys \<Longrightarrow>
     list_all2 (\<lambda>x y. (P x \<longrightarrow> Q x y) \<and> (\<not> P x \<longrightarrow> y = x)) xs (put_back P xs ys)"
proof (induction xs arbitrary: ys)
  case (Cons x xs)
  then show ?case by (cases "P x") (auto split: list.splits)
qed simp

definition moved :: "(string \<Rightarrow> listed_insn list option res) \<Rightarrow> kprobe \<Rightarrow> kprobe \<Rightarrow> bool" where
  "moved listing kp kp' \<longleftrightarrow> kp' = kp \<or>
     (\<exists>instrs. listing (kp_function_name kp) = Inr (Some instrs) \<and> same_or_after instrs kp kp')"

lemma same_or_after_function: "same_or_after instrs kp kp' \<Longrightarrow> kp_function_name kp' = kp_function_name kp"
  by (auto simp: same_or_after_def unplaced_def dest!: arg_cong [where f = kp_function_name])

lemma translate_functions_moved:
  "translate_functions listing fs kps = Inr kps' \<Longrightarrow> distinct fs \<Longrightarrow>
     list_all2 (\<lambda>kp kp'. if kp_function_name kp \<in> set fs then moved listing kp kp' else kp' = kp) kps kps'"
proof (induction fs arbitrary: kps)
  case (Cons f fs)
  from Cons.prems(1) obtain l where l: "listing f = Inr l" by (auto simp: bindr_Inr_conv)
  show ?case
  proof (cases l)
    case None
    with Cons.prems l have "list_all2 (\<lambda>kp kp'. if kp_function_name kp \<in> set fs then moved listing kp kp'
        else kp' = kp) kps kps'" by (intro Cons.IH) auto
    then show ?thesis by (rule list_all2_mono) (auto simp: moved_def split: if_splits)
  next
    case (Some instrs)
    let ?P = "\<lambda>kp. kp_function_name kp = f"
    let ?base = "base_from_block f (kp_all_instructions (hd (filter ?P kps)))"
    let ?mid = "put_back ?P kps (translate_group instrs ?base [] (filter ?P kps))"
    have a: "list_all2 (\<lambda>x y. (?P x \<longrightarrow> same_or_after instrs x y) \<and> (\<not> ?P x \<longrightarrow> y = x)) kps ?mid"
      by (rule put_back_all2) (rule translate_group_after)
    have b: "list_all2 (\<lambda>kp kp'. if kp_function_name kp \<in> set fs then moved listing kp kp'
        else kp' = kp) ?mid kps'"
      using Cons.prems l Some by (intro Cons.IH) (auto simp: Let_def)
    show ?thesis
    proof (rule list_all2_trans [OF _ a b])
      fix x y z
      assume x: "(?P x \<longrightarrow> same_or_after instrs x y) \<and> (\<not> ?P x \<longrightarrow> y = x)"
        and y: "if kp_function_name y \<in> set fs then moved listing y z else z = y"
      show "if kp_function_name x \<in> set (f # fs) then moved listing x z else z = x"
      proof (cases "?P x")
        case True
        with x have s: "same_or_after instrs x y" by blast
        with True Cons.prems(2) y have "z = y" by (simp add: same_or_after_function)
        with s True l Some show ?thesis by (simp add: moved_def)
      qed (use x y in auto)
    qed
  qed
qed (simp add: list_all2_refl)

text \<open>
  C34: translating keeps the number and the order of the kprobes and everything but their
  places; a kprobe is left alone, or it moves to the instruction that follows, in the listing of its
  function in the kernel, one with the same bytes as the instruction before it in its block.
\<close>

theorem translated_places:
  assumes "translate_kprobe_offsets_to_vmlinux listing kps = Inr kps'"
  shows "list_all2 (\<lambda>kp kp'. unplaced kp' = unplaced kp \<and> (kp' = kp \<or>
    (\<exists>instrs func_base bs. listing (kp_function_name kp) = Inr (Some instrs) \<and>
       preceding_bytes func_base (kp_offset kp) (kp_all_instructions kp) = Some bs \<and>
       follows_bytes instrs bs (kp_offset kp')))) kps kps'"
proof -
  have "list_all2 (\<lambda>kp kp'. if kp_function_name kp \<in> kp_function_name ` set kps
      then moved listing kp kp' else kp' = kp) kps kps'"
    using translate_functions_moved [OF assms [unfolded translate_kprobe_offsets_to_vmlinux_def]]
    by simp
  then show ?thesis
    by (rule list_all2_mono) (auto simp: moved_def same_or_after_def split: if_splits)
qed

text \<open>
  The first kprobe of a function goes after the first instruction of the kernel's listing with
  the bytes of the one before it, wherever it was: when the same instruction occurs earlier, it
  moves there even if the kernel runs exactly the code of the object file.
\<close>

theorem first_kprobe_first_occurrence:
  assumes "preceding_bytes func_base (kp_offset kp) (kp_all_instructions kp) = Some (b # bs)"
    and "i_bytes i = b # bs" and "list_all (\<lambda>j. i_bytes j \<noteq> b # bs) pre"
  shows "kp_offset (hd (translate_group (pre @ i # i' # post) func_base [] (kp # kps))) = i_offset i'"
proof -
  have "find_byte_pattern_in_instrs (pre @ i # i' # post) (b # bs) 0 = Some (length pre)"
    using assms(2,3) unfolding find_byte_pattern_in_instrs_def
    by (auto simp: find_pattern_iff nth_append filter_empty_conv list_all_iff)
  with assms(1) show ?thesis
    by (simp add: translate_kprobe_def Let_def dget_def nth_append split_beta)
qed

definition lea_block :: "string list" where
  "lea_block = [''10:'' @ [TAB] @ ''48 ff c0 '' @ [TAB] @ ''inc %rax'',
     ''13:'' @ [TAB] @ ''90 '' @ [TAB] @ ''nop'']"

definition lea_kernel :: "listed_insn list" where
  "lea_kernel = [\<lparr>i_offset = 0, i_bytes = [''48'', ''ff'', ''c0''], i_asm = ''inc %rax''\<rparr>,
     \<lparr>i_offset = 3, i_bytes = [''90''], i_asm = ''nop''\<rparr>,
     \<lparr>i_offset = 16, i_bytes = [''48'', ''ff'', ''c0''], i_asm = ''inc %rax''\<rparr>,
     \<lparr>i_offset = 19, i_bytes = [''90''], i_asm = ''nop''\<rparr>]"

definition lea_kprobe :: kprobe where
  "lea_kprobe = \<lparr>kp_bb_idx = 0, kp_function_name = ''f'', kp_relationship = undefined,
     kp_rel_str = [], kp_actual_reg_name = Some ''rax'', kp_offset = 19,
     kp_candidate_offsets = [19], kp_changed_instruction = None, kp_changed_instructions = [],
     kp_all_instructions = lea_block, kp_synthesis = Simple, kp_seed_mnemonic = []\<rparr>"

theorem first_kprobe_first_occurrence_witness:
  "kp_offset lea_kprobe = 19 \<and> kp_offset (hd (translate_group lea_kernel None [] [lea_kprobe])) = 3"
proof -
  have a: "preceding_bytes None 19 lea_block = Some (''48'' # [''ff'', ''c0''])" by code_simp
  have "kp_offset (hd (translate_group lea_kernel None [] (lea_kprobe # []))) = 3"
    using first_kprobe_first_occurrence [of None lea_kprobe "''48''" "[''ff'', ''c0'']" "hd lea_kernel" "[]"
      "lea_kernel ! 1" "drop 2 lea_kernel" "[]"] a
    by (simp add: lea_kprobe_def lea_kernel_def)
  then show ?thesis by (simp add: lea_kprobe_def)
qed

theorem translated_places_witness:
  "map unplaced (case translate_kprobe_offsets_to_vmlinux (\<lambda>f. Inr (Some lea_kernel)) [lea_kprobe] of
     Inr kps \<Rightarrow> kps) = map unplaced [lea_kprobe]"
proof -
  obtain kps' where k: "translate_kprobe_offsets_to_vmlinux (\<lambda>f. Inr (Some lea_kernel)) [lea_kprobe] = Inr kps'"
    by (simp add: translate_kprobe_offsets_to_vmlinux_def Let_def)
  from translated_places [OF k] obtain kp' where "kps' = [kp']" "unplaced kp' = unplaced lea_kprobe"
    by (auto simp: list_all2_Cons1)
  with k show ?thesis by simp
qed

text \<open>
  A kprobe that is in its place: the instruction before it is in the listing exactly once, and so
  is the seed instruction whose offset it carries.
\<close>

definition only_at :: "listed_insn list \<Rightarrow> string list \<Rightarrow> nat \<Rightarrow> bool" where
  "only_at instrs bs j \<longleftrightarrow> bs \<noteq> [] \<and> j < length instrs \<and>
     list_all (\<lambda>r. i_bytes (instrs ! r) = bs \<longleftrightarrow> r = j) [0 ..< length instrs]"

definition in_place :: "listed_insn list \<Rightarrow> int option \<Rightarrow> kprobe \<Rightarrow> bool" where
  "in_place instrs func_base kp \<longleftrightarrow>
     list_ex (\<lambda>j. i_offset (instrs ! Suc j) = kp_offset kp \<and>
        (case preceding_bytes func_base (kp_offset kp) (kp_all_instructions kp) of
           Some bs \<Rightarrow> only_at instrs bs j | None \<Rightarrow> False)) [0 ..< length instrs - 1]"

definition seed_in_place :: "listed_insn list \<Rightarrow> int option \<Rightarrow> kprobe \<Rightarrow> bool" where
  "seed_in_place instrs func_base kp \<longleftrightarrow>
     (case kp_synthesis kp of
        Irreversible (Some seed) expr sbb \<Rightarrow>
          list_ex (\<lambda>j. i_offset (instrs ! j) = seed \<and>
            (case bytes_at func_base seed (kp_all_instructions kp) of
               Some bs \<Rightarrow> only_at instrs bs j | None \<Rightarrow> False)) [0 ..< length instrs]
      | _ \<Rightarrow> True)"

lemma find_only_at: "only_at instrs bs j \<Longrightarrow> find_byte_pattern_in_instrs instrs bs n = Some r \<Longrightarrow> r = j"
  by (auto simp: find_byte_pattern_in_instrs_def find_pattern_iff only_at_def list_all_iff)

lemma translate_seed_in_place:
  assumes "seed_in_place instrs func_base kp"
  shows "translate_seed instrs func_base kp = kp"
proof (cases "\<exists>seed expr sbb. kp_synthesis kp = Irreversible (Some seed) expr sbb")
  case True
  then obtain seed expr sbb where k: "kp_synthesis kp = Irreversible (Some seed) expr sbb" by blast
  with assms obtain j where j: "i_offset (instrs ! j) = seed"
    "case bytes_at func_base seed (kp_all_instructions kp) of
       Some bs \<Rightarrow> only_at instrs bs j | None \<Rightarrow> False"
    by (auto simp: seed_in_place_def list_ex_iff)
  then obtain bs where bs: "bytes_at func_base seed (kp_all_instructions kp) = Some bs"
    "only_at instrs bs j" by (auto split: option.splits)
  have "kp\<lparr>kp_synthesis := Irreversible (Some seed) expr sbb\<rparr> = kp" by (simp flip: k)
  then show ?thesis using k bs(1) j(1) find_only_at [OF bs(2)]
    by (cases "find_byte_pattern_in_instrs instrs bs 0") (auto simp: translate_seed_def)
qed (auto simp: translate_seed_def split: synthesis.splits option.splits)

lemma kprobe_in_place:
  assumes "in_place instrs func_base kp" "seed_in_place instrs func_base kp"
  shows "snd (translate_kprobe instrs func_base cnt kp) = kp"
proof -
  from assms(1) obtain j where j: "j \<in> set [0 ..< length instrs - 1]"
    "i_offset (instrs ! Suc j) = kp_offset kp"
    "case preceding_bytes func_base (kp_offset kp) (kp_all_instructions kp) of
       Some bs \<Rightarrow> only_at instrs bs j | None \<Rightarrow> False"
    unfolding in_place_def list_ex_iff by blast
  then obtain bs where "preceding_bytes func_base (kp_offset kp) (kp_all_instructions kp) = Some bs"
    "only_at instrs bs j" by (auto split: option.splits)
  with j(2) show ?thesis using translate_seed_in_place [OF assms(2)]
    by (auto simp: translate_kprobe_def Let_def move_to_def dest!: find_only_at split: option.splits)
qed

text \<open>
  Translating leaves alone the kprobes that are in their place in the kernel's listing, when
  the bytes before each kprobe and the bytes of each seed occur there only once.
\<close>

theorem translate_in_place:
  assumes "list_all (in_place instrs func_base) kps" and "list_all (seed_in_place instrs func_base) kps"
  shows "translate_group instrs func_base cnt kps = kps"
  using assms by (induction kps arbitrary: cnt) (auto simp: split_beta Let_def kprobe_in_place)

theorem translate_in_place_witness:
  "translate_group (drop 2 lea_kernel) None [] [lea_kprobe] = [lea_kprobe]"
proof -
  have a: "preceding_bytes None 19 lea_block = Some [''48'', ''ff'', ''c0'']" by code_simp
  have "in_place (drop 2 lea_kernel) None lea_kprobe"
    using a by (simp add: in_place_def lea_kernel_def lea_kprobe_def only_at_def)
  moreover have "seed_in_place (drop 2 lea_kernel) None lea_kprobe"
    by (simp add: seed_in_place_def lea_kprobe_def)
  ultimately show ?thesis by (intro translate_in_place) simp_all
qed

text \<open>
  A line with more bytes of the previous instruction, as \<open>objdump\<close> prints it for long
  instructions, is read as an instruction whose text is its last byte.
\<close>

lemma continuation_line_is_instruction:
  "listing_insn 0 (''  17:'' @ [TAB] @ ''00 00 00 '') =
     Some \<lparr>i_offset = 23, i_bytes = [''00'', ''00''], i_asm = ''00''\<rparr>"
  by code_simp

end
