(* ===== verification/Btf_Proto.thy ===== *)
theory Btf_Proto
  imports Kcore_Translate
begin

text \<open>
  Function prototypes from BTF (\<open>src/src/codegen.py\<close>): \<open>_parse_btf_dump\<close> reads the
  output of \<open>bpftool btf dump\<close>, which is a parameter (\<open>None\<close> when the command
  fails), \<open>_resolve_type\<close> writes a type as C, with a bound on the depth, and
  \<open>get_func_prototype\<close> writes a function's prototype.
\<close>

section \<open>The dump\<close>

record btf_entry =
  b_kind :: string
  b_name :: string
  b_type_id :: "int option"
  b_ret_type_id :: "int option"
  b_params :: "(string \<times> int) list"

type_synonym btf_entries = "(int, btf_entry) dict"

definition quote :: string where "quote = [CHR 0x27]"

definition rx_entry :: rx where
  "rx_entry = seqs [Bol, lit ''['', Grp 1 (Many 1 is_digit), lit '']'', Many 1 is_space,
     Grp 2 (Many 1 is_word), Many 1 is_space, Grp 3 (Many 0 dot)]"

definition rx_quoted :: rx where
  "rx_quoted = seqs [lit quote, Grp 1 (Many 0 (not_of quote)), lit quote]"

definition rx_id :: "string \<Rightarrow> rx" where
  "rx_id field = seqs [lit (field @ ''=''), Grp 1 (Many 1 is_digit)]"

definition rx_param :: rx where
  "rx_param = seqs [lit (TAB # quote), Grp 1 (Many 0 (not_of quote)), lit quote, Many 1 is_space,
     lit ''type_id='', Grp 2 (Many 1 is_digit)]"

definition id_in :: "string \<Rightarrow> string \<Rightarrow> int option" where
  "id_in field rest = (case re_search (rx_id field) rest of None \<Rightarrow> None | Some g \<Rightarrow> py_int 10 (group g 1))"

definition entry_of :: "string \<Rightarrow> string \<Rightarrow> btf_entry" where
  "entry_of kind rest = \<lparr>b_kind = kind,
     b_name = (case re_search rx_quoted rest of None \<Rightarrow> [] | Some g \<Rightarrow> group g 1),
     b_type_id = id_in ''type_id'' rest, b_ret_type_id = id_in ''ret_type_id'' rest, b_params = []\<rparr>"

definition entry_line :: "string \<Rightarrow> (int \<times> btf_entry) option" where
  "entry_line line = (case re_match rx_entry line of
     None \<Rightarrow> None
   | Some (g, _) \<Rightarrow> map_option (\<lambda>i. (i, entry_of (group g 2) (group g 3))) (py_int 10 (group g 1)))"

definition param_line :: "string \<Rightarrow> (string \<times> int) option" where
  "param_line line = (case re_match rx_param line of
     None \<Rightarrow> None | Some (g, _) \<Rightarrow> map_option (\<lambda>i. (group g 1, i)) (py_int 10 (group g 2)))"

definition keep_entry :: "(int \<times> btf_entry) option \<Rightarrow> btf_entries \<Rightarrow> btf_entries" where
  "keep_entry cur entries = (case cur of None \<Rightarrow> entries | Some (i, e) \<Rightarrow> dput i e entries)"

fun parse_btf_lines :: "btf_entries \<Rightarrow> (int \<times> btf_entry) option \<Rightarrow> string list \<Rightarrow> btf_entries" where
  "parse_btf_lines entries cur [] = keep_entry cur entries"
| "parse_btf_lines entries cur (line # lines) = (case entry_line line of
     Some new \<Rightarrow> parse_btf_lines (keep_entry cur entries) (Some new) lines
   | None \<Rightarrow> (case (cur, param_line line) of
       (Some (i, e), Some p) \<Rightarrow> parse_btf_lines entries (Some (i, e\<lparr>b_params := b_params e @ [p]\<rparr>)) lines
     | _ \<Rightarrow> parse_btf_lines entries cur lines))"

definition parse_btf_dump :: "string option \<Rightarrow> btf_entries" where
  "parse_btf_dump out = (case out of None \<Rightarrow> [] | Some t \<Rightarrow> parse_btf_lines [] None (splitlines t))"

section \<open>Types and prototypes\<close>

text \<open>\<open>fuel\<close> is 21 less the depth: at depth 21 the answer is a question mark.\<close>

definition lookup_id :: "btf_entries \<Rightarrow> int option \<Rightarrow> btf_entry option" where
  "lookup_id entries tid = (case tid of None \<Rightarrow> None | Some i \<Rightarrow> map_of entries i)"

definition is_zero_id :: "int option \<Rightarrow> bool" where
  "is_zero_id tid \<longleftrightarrow> tid = None \<or> tid = Some 0"

definition pointer_to :: "string \<Rightarrow> string" where
  "pointer_to inner = (if ends_with ''*'' inner then inner @ ''*'' else inner @ '' *'')"

definition plain_type :: "btf_entry \<Rightarrow> string" where
  "plain_type e =
     (if b_kind e \<in> {''INT'', ''TYPEDEF''} then b_name e
      else if b_kind e = ''STRUCT'' then ''struct '' @ b_name e
      else if b_kind e = ''UNION'' then ''union '' @ b_name e
      else if b_kind e \<in> {''ENUM'', ''ENUM64''} then (if b_name e \<noteq> [] then ''enum '' @ b_name e else ''int'')
      else if b_kind e = ''FWD'' then ''struct '' @ b_name e
      else if b_name e \<noteq> [] then b_name e else b_kind e)"

definition qualifiers :: "string list" where
  "qualifiers = [''CONST'', ''VOLATILE'', ''RESTRICT'', ''TYPE_TAG'']"

text \<open>The type a type refers to, with what is written after it, and what ends the text.\<close>

definition refers_to :: "btf_entry \<Rightarrow> ((string \<Rightarrow> string) \<times> int option) option" where
  "refers_to e =
     (if b_kind e = ''PTR'' then (if is_zero_id (b_type_id e) then None else Some (pointer_to, b_type_id e))
      else if b_kind e \<in> set qualifiers then Some (\<lambda>s. s, b_type_id e)
      else None)"

definition final_type :: "btf_entry \<Rightarrow> string" where
  "final_type e = (if b_kind e = ''PTR'' then ''void *'' else plain_type e)"

fun resolve_type :: "btf_entries \<Rightarrow> nat \<Rightarrow> int option \<Rightarrow> string" where
  "resolve_type entries 0 tid = ''?''"
| "resolve_type entries (Suc fuel) tid = (case lookup_id entries tid of
     None \<Rightarrow> ''?''
   | Some e \<Rightarrow> (case refers_to e of
       None \<Rightarrow> final_type e
     | Some (write, t) \<Rightarrow> write (resolve_type entries fuel t)))"

definition type_text :: "btf_entries \<Rightarrow> int option \<Rightarrow> string" where
  "type_text entries tid = resolve_type entries 21 tid"

definition get_func_prototype :: "string option \<Rightarrow> string \<Rightarrow> string option" where
  "get_func_prototype dump func_name =
     (let entries = parse_btf_dump dump in
      case find (\<lambda>(tid, e). b_kind e = ''FUNC'' \<and> b_name e = func_name) entries of
        None \<Rightarrow> None
      | Some (tid, e) \<Rightarrow> (case lookup_id entries (b_type_id e) of
          None \<Rightarrow> None
        | Some proto \<Rightarrow> if b_kind proto \<noteq> ''FUNC_PROTO'' then None
            else let ret = (if is_zero_id (b_ret_type_id proto) then ''void''
                       else type_text entries (b_ret_type_id proto));
                     params = map (\<lambda>(pname, ptid). type_text entries (Some ptid) @ '' '' @ pname) (b_params proto)
                 in Some (ret @ '' '' @ func_name @ ''(''
                      @ (if params \<noteq> [] then join '', '' params else ''void'') @ '')'')))"

section \<open>Properties\<close>

text \<open>The bound on the depth: what a cycle of types gives, and that a short chain is resolved.\<close>

lemma ends_with_snoc: "ends_with ''*'' (s @ ''*'')"
  by (simp add: ends_with_iff)

lemma resolve_cycle:
  assumes "map_of entries i = Some e" "b_kind e = ''PTR''" "b_type_id e = Some i" "i \<noteq> 0"
  shows "resolve_type entries (Suc n) (Some i) = ''? '' @ replicate (Suc n) CHR ''*''"
proof (induction n)
  case 0
  show ?case using assms by (simp add: lookup_id_def refers_to_def is_zero_id_def pointer_to_def ends_with_iff)
next
  case (Suc n)
  have r: "replicate (Suc m) c @ [c] = replicate (Suc (Suc m)) c" for m and c :: char
    using replicate_append_same [of "Suc m" c] by simp
  have "ends_with ''*'' (''? '' @ replicate (Suc n) CHR ''*'')"
    using ends_with_snoc [of "''? '' @ replicate n CHR ''*''"] replicate_append_same [of n "CHR ''*''"]
    by simp
  with Suc assms r show ?case
    by (simp add: lookup_id_def refers_to_def is_zero_id_def pointer_to_def del: replicate.simps)
qed

text \<open>The types that are reached within \<open>n\<close> steps, ending in one that stands for itself.\<close>

fun resolves_in :: "btf_entries \<Rightarrow> nat \<Rightarrow> int option \<Rightarrow> bool" where
  "resolves_in entries 0 tid = False"
| "resolves_in entries (Suc n) tid = (case lookup_id entries tid of
     None \<Rightarrow> False
   | Some e \<Rightarrow> (case refers_to e of None \<Rightarrow> True | Some (write, t) \<Rightarrow> resolves_in entries n t))"

lemma resolve_more: "resolves_in entries n tid \<Longrightarrow> n \<le> m \<Longrightarrow>
    resolve_type entries m tid = resolve_type entries n tid"
proof (induction n arbitrary: tid m)
  case (Suc n)
  then obtain m' where m: "m = Suc m'" "n \<le> m'" by (cases m) auto
  have "resolves_in entries n t \<Longrightarrow> resolve_type entries m' t = resolve_type entries n t" for t
    using Suc.IH m(2) by blast
  with Suc.prems(1) m(1) show ?case by (auto split: option.splits)
qed simp

text \<open>
  C40: writing a type always ends: a type that is reached within 21 steps is written the same
  with any larger bound, so the bound loses nothing there, and a pointer cycle ends at the
  bound, with 21 stars.
\<close>

theorem type_text_bound:
  "(resolves_in entries 21 tid \<longrightarrow> resolve_type entries (21 + n) tid = type_text entries tid) \<and>
   (map_of entries i = Some e \<and> b_kind e = ''PTR'' \<and> b_type_id e = Some i \<and> i \<noteq> 0 \<longrightarrow>
     type_text entries (Some i) = ''? '' @ replicate 21 CHR ''*'')"
proof -
  have "type_text entries (Some i) = ''? '' @ replicate 21 CHR ''*''"
    if "map_of entries i = Some e" "b_kind e = ''PTR''" "b_type_id e = Some i" "i \<noteq> 0"
    using resolve_cycle [OF that, of 20] unfolding type_text_def by (simp del: resolve_type.simps)
  then show ?thesis using resolve_more [of entries 21 tid "21 + n"] by (auto simp: type_text_def)
qed

theorem type_text_bound_witness:
  "type_text [(1, \<lparr>b_kind = ''PTR'', b_name = [], b_type_id = Some 1, b_ret_type_id = None, b_params = []\<rparr>)]
     (Some 1) = ''? *********************''"
proof -
  let ?e = "\<lparr>b_kind = ''PTR'', b_name = [], b_type_id = Some 1, b_ret_type_id = None, b_params = []\<rparr>"
  show ?thesis using type_text_bound [of "[(1, ?e)]" None 0 1 ?e] by (simp add: eval_nat_numeral)
qed

text \<open>
  Qualifiers are dropped (the docstring's example keeps \<open>const\<close>), and a qualified
  \<open>void\<close>, whose target has the id 0, is not known.
\<close>

lemma qualifiers_dropped:
  "lookup_id entries tid = Some e \<Longrightarrow> b_kind e \<in> set qualifiers \<Longrightarrow>
   resolve_type entries (Suc fuel) tid = resolve_type entries fuel (b_type_id e)"
  by (auto simp: qualifiers_def refers_to_def)

definition const_void_dump :: string where
  "const_void_dump = join [NL]
    [''[1] CONST '' @ quote @ ''(anon)'' @ quote @ '' type_id=0'',
     ''[2] PTR '' @ quote @ ''(anon)'' @ quote @ '' type_id=1'',
     ''[3] FUNC_PROTO '' @ quote @ ''(anon)'' @ quote @ '' ret_type_id=0 vlen=1'',
     TAB # quote @ ''p'' @ quote @ '' type_id=2'',
     ''[4] FUNC '' @ quote @ ''f'' @ quote @ '' type_id=3 linkage=static'']"

lemma const_void_prototype:
  "get_func_prototype (Some const_void_dump) ''f'' = Some ''void f(? * p)''"
  by code_simp

end
