(* ===== verification/Pipeline.thy ===== *)
theory Pipeline
  imports Bpf_Gen Btf_Proto Table_Manager
begin

text \<open>
  Building one constant (\<open>src/src/codegen.py\<close>): \<open>run_codegen_single\<close> clears the
  constant's old rows, \<open>analyze_linear_relationship\<close> places the kprobes, moves them to the
  running kernel, generates the BPF files and records code sections and the scope entry, and
  \<open>_populate_ss_raw_single\<close> records the safe spans. What a run reads is a parameter: the
  basic-block files of the three versions, the kernel's listings and the BTF dump. After an
  exception the tables are not modelled.
\<close>

section \<open>Recording kprobes\<close>

text \<open>The text of a code section: the changed instructions, without marker, white space folded.\<close>

definition fold_space :: "string \<Rightarrow> string" where
  "fold_space s = re_sub (Many 1 is_space) '' '' s"

definition cs_info :: "kprobe \<Rightarrow> string res" where
  "cs_info kp =
     (if kp_changed_instructions kp \<noteq> []
      then Inr (join '' ; '' (map (\<lambda>ci. fold_space (slice_marker ci)) (kp_changed_instructions kp)))
      else case kp_changed_instruction kp of
        None \<Rightarrow> Inl AttributeError
      | Some ci \<Rightarrow> Inr (fold_space (slice_marker ci)))"

definition raw_range :: "kprobe \<Rightarrow> (int \<times> int) option" where
  "raw_range kp =
     (if kp_changed_instructions kp \<noteq> [] then extract_changed_offsets (kp_changed_instructions kp)
      else if kp_all_instructions kp \<noteq> [] then extract_bb_offsets (kp_all_instructions kp)
      else None)"

definition add_raw_range :: "string \<Rightarrow> kprobe \<Rightarrow> tables \<Rightarrow> tables" where
  "add_raw_range const_id kp t = (case raw_range kp of
     None \<Rightarrow> t
   | Some (soff, eoff) \<Rightarrow> add_cs_raw_entry const_id (kp_function_name kp) soff eoff t)"

fun add_cs_entries :: "string \<Rightarrow> kprobe list \<Rightarrow> tables \<Rightarrow> (string list \<times> tables) res" where
  "add_cs_entries const_id [] t = Inr ([], t)"
| "add_cs_entries const_id (kp # kps) t =
     bindr (cs_info kp) (\<lambda>info.
     bindr (get_or_add_cs_index (cs_file t) info) (\<lambda>(cs_index, f).
     bindr (add_cs_entries const_id kps (add_raw_range const_id kp (t\<lparr>cs_file := f\<rparr>))) (\<lambda>(is, t').
       Inr (py_str cs_index # is, t'))))"

definition candidates_text :: "kprobe list \<Rightarrow> string" where
  "candidates_text kps = join ''|'' (map (\<lambda>kp. join '','' (map hex0x (kp_candidate_offsets kp))) kps)"

definition const_id_value :: "string \<Rightarrow> int" where
  "const_id_value prefix = (case py_int 10 prefix of Some n \<Rightarrow> n | None \<Rightarrow> 0)"

definition record_kprobes :: "string \<Rightarrow> int \<Rightarrow> string \<Rightarrow> kprobe list \<Rightarrow> tables \<Rightarrow> tables res" where
  "record_kprobes prefix v1_src bpf_file kps t =
     (let const_id = py_str (const_id_value prefix) in
      bindr (add_cs_entries const_id kps t) (\<lambda>(cs_indices, t').
        add_scope_table_entry_multi_cs const_id v1_src (kp_rel_str (hd kps)) cs_indices bpf_file
          ''ready'' (candidates_text kps) t'))"

section \<open>One constant\<close>

record build_env =
  v1_file :: "string option"
  v2_file :: "string option"
  v3_file :: "string option"
  env_host :: host
  env_vmlinux :: "string option"
  env_btf :: "string option"

text \<open>The header and the policy file, when they are generated.\<close>

type_synonym bpf_files = "(string \<times> string) option"

definition analyze_linear_relationship :: "build_env \<Rightarrow> string \<Rightarrow> (string, int \<times> int \<times> int) dict \<Rightarrow>
    tables \<Rightarrow> (bpf_files \<times> tables) res" where
  "analyze_linear_relationship env prefix source_values t = (case map_of source_values prefix of
     None \<Rightarrow> Inr (None, t)
   | Some v_values \<Rightarrow>
       bindr (synth_blocks (v1_file env) (v2_file env) (v3_file env) v_values) (\<lambda>generated.
       case generated of
         None \<Rightarrow> Inr (None, t)
       | Some kprobes \<Rightarrow>
           if kprobes = [] then Inr (None, t)
           else bindr (translate_kprobe_offsets_to_vmlinux (kernel_listing (env_host env) (env_vmlinux env)) kprobes)
             (\<lambda>kps. bindr (generate_multi_kprobe_bpf_file (get_func_prototype (env_btf env)) prefix kps (fst v_values))
               (\<lambda>result. case result of
                 None \<Rightarrow> Inr (None, t)
               | Some (header, policy, bpf_file) \<Rightarrow>
                   bindr (record_kprobes prefix (fst v_values) bpf_file kps t) (\<lambda>t'.
                     Inr (Some (header, policy), t'))))))"

section \<open>Safe spans\<close>

definition cs_rows_of :: "string \<Rightarrow> tables \<Rightarrow> string list list" where
  "cs_rows_of cid t = (case cs_raw_file t of
     None \<Rightarrow> []
   | Some text \<Rightarrow> filter (\<lambda>row. length row \<ge> 4 \<and> row ! 0 = cid) (after_header text))"

fun add_ss_entries :: "string \<Rightarrow> span list \<Rightarrow> tables \<Rightarrow> tables" where
  "add_ss_entries cid [] t = t"
| "add_ss_entries cid ((f, soff, eoff) # spans) t =
     add_ss_entries cid spans (add_ss_raw_entry cid f soff eoff t)"

text \<open>\<open>hex(n)\<close> is \<open>disp_text\<close>.\<close>

definition auto_span :: "host \<Rightarrow> string list \<Rightarrow> span res" where
  "auto_span h row = bindr (get_function_end_offset h (row ! 1)) (\<lambda>e. Inr (case e of
     Some end_off \<Rightarrow> (row ! 1, disp_text 0, disp_text end_off)
   | None \<Rightarrow> (row ! 1, row ! 2, row ! 3)))"

fun auto_spans :: "host \<Rightarrow> string list \<Rightarrow> string list list \<Rightarrow> span list res" where
  "auto_spans h seen [] = Inr []"
| "auto_spans h seen (row # rows) =
     (if row ! 1 \<in> set seen then auto_spans h seen rows
      else bindr (auto_span h row) (\<lambda>s. bindr (auto_spans h (row ! 1 # seen) rows) (\<lambda>ss. Inr (s # ss))))"

definition populate_ss_raw_single :: "host \<Rightarrow> int \<Rightarrow> span list \<Rightarrow> tables \<Rightarrow> tables res" where
  "populate_ss_raw_single h const_id safe_spans t =
     (let cid = py_str const_id; cs_entries = cs_rows_of cid t in
      if safe_spans \<noteq> [] then update_scope_table_ss_index [(cid, safe_spans)] (add_ss_entries cid safe_spans t)
      else if cs_entries \<noteq> [] then bindr (auto_spans h [] cs_entries) (\<lambda>ranges.
        update_scope_table_ss_index [(cid, ranges)] (add_ss_entries cid ranges t))
      else update_scope_table_ss_index [] t)"

definition run_codegen_single :: "build_env \<Rightarrow> int \<times> int \<times> int \<Rightarrow> span list \<Rightarrow> int \<Rightarrow> tables \<Rightarrow>
    (bpf_files \<times> tables) res" where
  "run_codegen_single env values3 safe_spans const_id t0 =
     (let t = remove_constid_entries (py_str const_id) (init_all_tables t0) in
      if v1_file env = None \<or> v2_file env = None \<or> v3_file env = None then Inr (None, t)
      else bindr (analyze_linear_relationship env (py_str const_id) [(py_str const_id, values3)] t)
        (\<lambda>(files, t'). bindr (populate_ss_raw_single (env_host env) const_id safe_spans t')
          (\<lambda>t''. Inr (files, t''))))"

section \<open>Properties\<close>

subsection \<open>The scope entry of a constant\<close>

lemma add_raw_range_other [simp]:
  "cs_file (add_raw_range c kp t) = cs_file t" "scope_file (add_raw_range c kp t) = scope_file t"
  "ss_file (add_raw_range c kp t) = ss_file t"
  by (auto simp: add_raw_range_def add_cs_raw_entry_def split: option.splits)

text \<open>A code section that can be stored.\<close>

definition info_ok :: "kprobe \<Rightarrow> bool" where
  "info_ok kp \<longleftrightarrow> (case cs_info kp of Inl e \<Rightarrow> False | Inr info \<Rightarrow> field_ok [NL] info)"

definition info_of :: "kprobe \<Rightarrow> string" where
  "info_of kp = (case cs_info kp of Inl e \<Rightarrow> [] | Inr info \<Rightarrow> info)"

lemma add_cs_entries_index:
  assumes "list_all info_ok kps" "index_wf cs_header (cs_file t)"
  shows "\<exists>is t'. add_cs_entries c kps t = Inr (map py_str is, t') \<and> index_wf cs_header (cs_file t') \<and>
    scope_file t' = scope_file t \<and> ss_file t' = ss_file t \<and>
    set (index_entries (cs_file t)) \<subseteq> set (index_entries (cs_file t')) \<and>
    list_all2 (\<lambda>i kp. (i, info_of kp) \<in> set (index_entries (cs_file t'))) is kps"
  using assms
proof (induction kps arbitrary: t)
  case Nil
  then show ?case by (intro exI [of _ "[]"]) auto
next
  case (Cons kp kps)
  then obtain info where info: "cs_info kp = Inr info" "field_ok [NL] info"
    by (auto simp: info_ok_def split: sum.splits)
  obtain i f where g: "get_or_add_cs_index (cs_file t) info = Inr (i, f)" "index_wf cs_header f"
    "(i, info) \<in> set (index_entries f)" "set (index_entries (cs_file t)) \<subseteq> set (index_entries f)"
    using cs_table.get_known [OF Cons.prems(2) info(2)] by blast
  let ?t = "add_raw_range c kp (t\<lparr>cs_file := f\<rparr>)"
  from Cons.prems(1) g(2) obtain "is" t' where IH: "add_cs_entries c kps ?t = Inr (map py_str is, t')"
    "index_wf cs_header (cs_file t')" "scope_file t' = scope_file t" "ss_file t' = ss_file t"
    "set (index_entries f) \<subseteq> set (index_entries (cs_file t'))"
    "list_all2 (\<lambda>i kp. (i, info_of kp) \<in> set (index_entries (cs_file t'))) is kps"
    using Cons.IH [of ?t] by auto
  have "add_cs_entries c (kp # kps) t = Inr (map py_str (i # is), t')"
    by (simp add: info g(1) IH(1))
  then show ?case using g(3,4) IH info
    by (intro exI [of _ "i # is"] exI [of _ t']) (auto simp: info_of_def)
qed

lemma index_entries_init: "index_entries (Some (init_table cs_header f)) = index_entries f"
  by (cases f) (simp_all add: index_entries_def init_table_def)

definition clean_char :: "char \<Rightarrow> bool" where
  "clean_char c \<longleftrightarrow> is_hex c \<or> c \<in> set ''x-,|''"

lemma clean_chars_ok: "list_all clean_char s \<Longrightarrow> field_ok l s"
  using hex_not_newline by (auto simp: clean_char_def field_ok_def list_all_iff is_newline_def)

lemma list_all_join: "list_all P sep \<Longrightarrow> list_all (list_all P) xs \<Longrightarrow> list_all P (join sep xs)"
  by (induction xs rule: induct_list012) auto

lemma clean_numbers: "list_all clean_char (hex0x n)" "list_all clean_char (py_str n)"
  using digs_hex [of 10] digs_hex [of 16]
  by (auto simp: hex0x_def hex_of_def py_str_def list_all_iff clean_char_def is_hex_def is_digit_def)

lemma clean_list: "(\<And>x. list_all clean_char (f x)) \<Longrightarrow> list_all clean_char sep \<Longrightarrow>
    list_all clean_char (join sep (map f xs))"
  by (rule list_all_join) (simp_all add: list.pred_map comp_def list.pred_True)

lemma recorded_fields_ok: "field_ok l (candidates_text kps)" "field_ok l (join '','' (map py_str is))"
proof -
  have c: "list_all clean_char '',''" "list_all clean_char ''|''" by (simp_all add: clean_char_def)
  show "field_ok l (candidates_text kps)" "field_ok l (join '','' (map py_str is))"
    unfolding candidates_text_def by (intro clean_chars_ok clean_list clean_numbers c)+
qed

text \<open>
  C5: recording the kprobes of a constant makes one scope entry for it, in place of an old
  one, whose CS indices stand, kprobe by kprobe, for the texts of the code sections; entries of
  other constants stay as they are.
\<close>

theorem recorded_entry:
  assumes "list_all info_ok kps" "index_wf cs_header (cs_file t)" "scope_rows_ok rows"
    and "scope_file t = Some (table_text scope_header rows)"
    and "row_ok [NL] [kp_rel_str (hd kps), bpf_file]"
  shows "\<exists>t' rows' is. record_kprobes (py_str n) v1_src bpf_file kps t = Inr t' \<and>
    scope_file t' = Some (table_text scope_header rows') \<and>
    scope_dict rows' = dput (py_str n) [py_str v1_src, kp_rel_str (hd kps), join '','' (map py_str is),
      [], bpf_file, ''ready'', candidates_text kps] (scope_dict rows) \<and>
    list_all2 (\<lambda>i kp. (i, info_of kp) \<in> set (index_entries (cs_file t'))) is kps"
proof -
  obtain "is" t1 where a: "add_cs_entries (py_str n) kps t = Inr (map py_str is, t1)"
    "scope_file t1 = scope_file t"
    "list_all2 (\<lambda>i kp. (i, info_of kp) \<in> set (index_entries (cs_file t1))) is kps"
    using add_cs_entries_index [OF assms(1,2)] by blast
  have "row_ok [NL] ([py_str n, kp_rel_str (hd kps), bpf_file, ''ready'', candidates_text kps]
      @ [join '','' (map py_str is)])"
    using assms(5) recorded_fields_ok by (simp add: row_ok_def field_ok_def [of _ "''ready''"] is_newline_def)
  from scope_entry_update [OF assms(3) _ this, of t1 v1_src] a(2) assms(4) obtain rows' where r:
    "add_scope_table_entry_multi_cs (py_str n) v1_src (kp_rel_str (hd kps)) (map py_str is) bpf_file ''ready''
       (candidates_text kps) t1 = Inr ((init_all_tables t1)\<lparr>scope_file := Some (table_text scope_header rows')\<rparr>)"
    "scope_dict rows' = dput (py_str n) [py_str v1_src, kp_rel_str (hd kps), join '','' (map py_str is),
       [], bpf_file, ''ready'', candidates_text kps] (scope_dict rows)" by auto
  have "record_kprobes (py_str n) v1_src bpf_file kps t =
      Inr ((init_all_tables t1)\<lparr>scope_file := Some (table_text scope_header rows')\<rparr>)"
    using a(1) r(1) by (simp add: record_kprobes_def Let_def const_id_value_def py_int_py_str)
  with r(2) a(3) show ?thesis
    by (intro exI [of _ "(init_all_tables t1)\<lparr>scope_file := Some (table_text scope_header rows')\<rparr>"]
        exI [of _ rows'] exI [of _ "is"]) (auto simp: init_all_tables_def index_entries_init)
qed

definition build_kprobe :: kprobe where
  "build_kprobe = sample_kprobe\<lparr>kp_changed_instruction := Some ''[*] 5: 90''\<rparr>"

lemma build_info: "cs_info build_kprobe = Inr ''5: 90''"
proof -
  have "fold_space (slice_marker ''[*] 5: 90'') = ''5: 90''" by code_simp
  then show ?thesis by (simp add: cs_info_def build_kprobe_def sample_kprobe_def)
qed

theorem recorded_entry_witness:
  "\<exists>t' rows' i. record_kprobes (py_str 1) 5 ''f.o'' [build_kprobe]
      (clear_all_tables \<lparr>scope_file = None, cs_file = None, cs_raw_file = None, ss_file = None,
         ss_raw_file = None\<rparr>) = Inr t' \<and>
    scope_dict rows' = [(py_str 1, [py_str 5, ''IV = V'', py_str i, [], ''f.o'', ''ready'', ''0x13''])] \<and>
    (i, ''5: 90'') \<in> set (index_entries (cs_file t'))"
proof -
  let ?t = "clear_all_tables \<lparr>scope_file = None, cs_file = None, cs_raw_file = None, ss_file = None,
         ss_raw_file = None\<rparr>"
  have info: "info_of build_kprobe = ''5: 90''" "list_all info_ok [build_kprobe]"
    by (simp_all add: info_of_def info_ok_def build_info field_ok_def is_newline_def)
  have "index_wf cs_header (cs_file ?t)"
    by (auto simp: index_wf_def clear_all_tables_def index_file_def index_ok_def intro!: exI [of _ "[]"])
  moreover have "candidates_text [build_kprobe] = ''0x13''" by code_simp
  moreover have "kp_rel_str build_kprobe = ''IV = V''" by (simp add: build_kprobe_def sample_kprobe_def)
  ultimately obtain t' rows' "is" where r: "record_kprobes (py_str 1) 5 ''f.o'' [build_kprobe] ?t = Inr t'"
    "scope_dict rows' = [(py_str 1, [py_str 5, ''IV = V'', join '','' (map py_str is), [], ''f.o'',
       ''ready'', ''0x13''])]"
    "list_all2 (\<lambda>i kp. (i, info_of kp) \<in> set (index_entries (cs_file t'))) is [build_kprobe]"
    using recorded_entry [OF info(2), of ?t "[]" "''f.o''" 1 5]
    by (auto simp: scope_rows_ok_def clear_all_tables_def row_ok_def field_ok_def is_newline_def
        scope_dict_def [of "[]"])
  then obtain i where "is = [i]" "(i, ''5: 90'') \<in> set (index_entries (cs_file t'))"
    by (auto simp: list_all2_Cons2 info(1))
  with r show ?thesis by (intro exI [of _ t'] exI [of _ rows'] exI [of _ i]) simp
qed

subsection \<open>Safe spans\<close>

lemma auto_span_name: "auto_span h row = Inr s \<Longrightarrow> fst s = row ! 1"
  by (auto simp: auto_span_def bindr_Inr_conv split: option.splits)

lemma auto_spans_facts:
  "auto_spans h seen rows = Inr ss \<Longrightarrow> distinct (map fst ss) \<and>
     set (map fst ss) = (\<lambda>row. row ! 1) ` set rows - set seen \<and>
     (\<forall>s \<in> set ss. \<exists>row \<in> set rows. auto_span h row = Inr s)"
proof (induction rows arbitrary: seen ss)
  case (Cons row rows)
  show ?case
  proof (cases "row ! 1 \<in> set seen")
    case True
    with Cons show ?thesis by fastforce
  next
    case False
    with Cons.prems obtain s ss' where s: "auto_span h row = Inr s"
      "auto_spans h (row ! 1 # seen) rows = Inr ss'" "ss = s # ss'"
      by (auto simp: bindr_Inr_conv)
    from Cons.IH [OF s(2)] have IH: "distinct (map fst ss')"
      "set (map fst ss') = (\<lambda>row. row ! 1) ` set rows - set (row ! 1 # seen)"
      "\<forall>s \<in> set ss'. \<exists>row \<in> set rows. auto_span h row = Inr s" by blast+
    have "fst s = row ! 1" using auto_span_name [OF s(1)] .
    then show ?thesis using IH s(1,3) False by auto
  qed
qed simp

text \<open>
  Without manual safe spans there is one span for each function with a code section: from
  its entry to its last instruction in the running kernel, or, when the kernel's listing is
  not available, one of its code sections.
\<close>

theorem auto_spans_per_function:
  assumes "auto_spans h [] rows = Inr ss"
  shows "distinct (map fst ss) \<and> set (map fst ss) = (\<lambda>row. row ! 1) ` set rows \<and>
    (\<forall>(f, soff, eoff) \<in> set ss. case get_function_end_offset h f of
       Inl e \<Rightarrow> False
     | Inr (Some k) \<Rightarrow> soff = ''0x0'' \<and> eoff = disp_text k
     | Inr None \<Rightarrow> (\<exists>row \<in> set rows. row ! 1 = f \<and> row ! 2 = soff \<and> row ! 3 = eoff))"
proof -
  have z: "disp_text 0 = ''0x0''" by code_simp
  have "case get_function_end_offset h f of
       Inl e \<Rightarrow> False
     | Inr (Some k) \<Rightarrow> soff = ''0x0'' \<and> eoff = disp_text k
     | Inr None \<Rightarrow> (\<exists>row \<in> set rows. row ! 1 = f \<and> row ! 2 = soff \<and> row ! 3 = eoff)"
    if "row \<in> set rows" "auto_span h row = Inr (f, soff, eoff)" for row f soff eoff
    using that z by (auto simp: auto_span_def bindr_Inr_conv split: option.splits sum.splits)
  with auto_spans_facts [OF assms] show ?thesis by fastforce
qed

definition no_host :: host where
  "no_host = \<lparr>h_grep = \<lambda>f. None, h_grep_after = \<lambda>f. None, h_kcore = \<lambda>a b. None, h_binary = \<lambda>p f. None\<rparr>"

theorem auto_spans_per_function_witness:
  "\<exists>ss. auto_spans no_host [] [[''1'', ''f'', ''0x1'', ''0x2''], [''1'', ''f'', ''0x5'', ''0x9'']] = Inr ss \<and>
     map fst ss = [''f'']"
proof -
  let ?rows = "[[''1'', ''f'', ''0x1'', ''0x2''], [''1'', ''f'', ''0x5'', ''0x9'']]"
  have a: "auto_spans no_host [] ?rows = Inr [(''f'', ''0x1'', ''0x2'')]" by code_simp
  from auto_spans_per_function [OF a] have "distinct (map fst [(''f'', ''0x1'', ''0x2'')])" by blast
  with a show ?thesis by simp
qed

subsection \<open>A build that cannot run\<close>

text \<open>
  When a basic-block file is missing, the build stops after the old rows of the constant
  have been removed from the scope table and both raw tables: the constant is gone, the others
  are kept.
\<close>

theorem missing_file_removes:
  assumes "v1_file env = None \<or> v2_file env = None \<or> v3_file env = None"
    and "id_rows scope_header (scope_file t) s" "id_rows raw_header (cs_raw_file t) c"
    and "id_rows raw_header (ss_raw_file t) r"
  shows "\<exists>t'. run_codegen_single env v spans const_id t = Inr (None, t') \<and>
    id_rows scope_header (scope_file t') (filter (\<lambda>row. hd row \<noteq> py_str const_id) s) \<and>
    id_rows raw_header (cs_raw_file t') (filter (\<lambda>row. hd row \<noteq> py_str const_id) c) \<and>
    id_rows raw_header (ss_raw_file t') (filter (\<lambda>row. hd row \<noteq> py_str const_id) r)"
proof -
  let ?t = "init_all_tables t"
  have "scope_file ?t = scope_file t" "cs_raw_file ?t = cs_raw_file t" "ss_raw_file ?t = ss_raw_file t"
    using assms(2-4) by (auto simp: init_all_tables_def init_table_def id_rows_def)
  then show ?thesis using assms without_id_rows headers_ok
    by (auto simp: run_codegen_single_def Let_def remove_constid_entries_def)
qed

theorem missing_file_removes_witness:
  "\<exists>t'. run_codegen_single \<lparr>v1_file = None, v2_file = None, v3_file = None, env_host = no_host,
       env_vmlinux = None, env_btf = None\<rparr> (1, 2, 3) [] 7
      \<lparr>scope_file = Some (table_text scope_header [[''7'', ''a''], [''2'', ''b'']]), cs_file = None,
       cs_raw_file = Some (table_text raw_header []), ss_file = None,
       ss_raw_file = Some (table_text raw_header [])\<rparr> = Inr (None, t') \<and>
    id_rows scope_header (scope_file t') [[''2'', ''b'']]"
proof -
  have "py_str 7 = ''7''" by code_simp
  then show ?thesis
    using missing_file_removes [of "\<lparr>v1_file = None, v2_file = None, v3_file = None, env_host = no_host,
       env_vmlinux = None, env_btf = None\<rparr>" "\<lparr>scope_file = Some (table_text scope_header [[''7'', ''a''], [''2'', ''b'']]),
       cs_file = None, cs_raw_file = Some (table_text raw_header []), ss_file = None,
       ss_raw_file = Some (table_text raw_header [])\<rparr>" "[[''7'', ''a''], [''2'', ''b'']]" "[]" "[]" "(1, 2, 3)" "[]" 7]
    by (auto simp: id_rows_def row_ok_def field_ok_def is_newline_def)
qed

end
