(* ===== verification/Py_Json.thy ===== *)
theory Py_Json
  imports Py_Strings
begin

text \<open>
  Python's \<open>json\<close> module: \<open>json.loads\<close> as a recursive-descent parser over the text, and
  \<open>json.dumps\<close> with \<open>indent\<close>, which the runtime state is written with. Text is ASCII: an
  escape \<open>\uXXXX\<close> of a code point above 127 is outside the model and read as an error.
  Numbers that are no integers keep their text. Reading back what was written is the
  identity (locale \<open>codec\<close>).
\<close>

section \<open>Values\<close>

datatype json =
    JNull
  | JBool bool
  | JInt int
  | JReal string
  | JStr string
  | JArr "json list"
  | JObj "(string \<times> json) list"

text \<open>The truth value of what \<open>json.loads\<close> returns; a real is zero when no digit of its mantissa is another.\<close>

fun real_is_zero :: "string \<Rightarrow> bool" where
  "real_is_zero [] = True"
| "real_is_zero (c # cs) =
     (if c \<in> {CHR ''e'', CHR ''E''} then True
      else c \<in> {CHR ''-'', CHR ''.'', CHR ''0''} \<and> real_is_zero cs)"

fun json_truthy :: "json \<Rightarrow> bool" where
  "json_truthy JNull = False"
| "json_truthy (JBool b) = b"
| "json_truthy (JInt n) = (n \<noteq> 0)"
| "json_truthy (JReal r) = (\<not> real_is_zero r)"
| "json_truthy (JStr s) = (s \<noteq> [])"
| "json_truthy (JArr xs) = (xs \<noteq> [])"
| "json_truthy (JObj d) = (d \<noteq> [])"

section \<open>Reading\<close>

definition json_space :: "char \<Rightarrow> bool" where
  "json_space c \<longleftrightarrow> c \<in> {CHR '' '', TAB, NL, CR}"

definition skip_ws :: "string \<Rightarrow> string" where
  "skip_ws s = dropWhile json_space s"

definition hex4 :: "char \<Rightarrow> char \<Rightarrow> char \<Rightarrow> char \<Rightarrow> nat option" where
  "hex4 a b c d = (case (dig 16 a, dig 16 b, dig 16 c, dig 16 d) of
     (Some w, Some x, Some y, Some z) \<Rightarrow> Some (((w * 16 + x) * 16 + y) * 16 + z)
   | _ \<Rightarrow> None)"

definition simple_escape :: "char \<Rightarrow> char option" where
  "simple_escape c = map_of
     [(DQ, DQ), (CHR 0x5C, CHR 0x5C), (CHR ''/'', CHR ''/''), (CHR ''b'', CHR 0x08),
      (CHR ''f'', CHR 0x0C), (CHR ''n'', NL), (CHR ''r'', CR), (CHR ''t'', TAB)] c"

text \<open>The rest of a string literal after its opening quote: its value and the text behind it.\<close>

fun read_string :: "string \<Rightarrow> string \<Rightarrow> (string \<times> string) option" where
  "read_string acc [] = None"
| "read_string acc (c # cs) =
     (if c = DQ then Some (rev acc, cs)
      else if c = CHR 0x5C then
        (case cs of
           [] \<Rightarrow> None
         | e # ds \<Rightarrow>
             if e = CHR ''u'' then
               (case ds of
                  w # x # y # z # rest \<Rightarrow>
                    (case hex4 w x y z of
                       Some n \<Rightarrow> if n < 128 then read_string (char_of n # acc) rest else None
                     | None \<Rightarrow> None)
                | _ \<Rightarrow> None)
             else (case simple_escape e of
                 Some d \<Rightarrow> read_string (d # acc) ds
               | None \<Rightarrow> None))
      else if (of_char c :: nat) < 32 then None
      else read_string (c # acc) cs)"

text \<open>\<open>(-?(?:0|[1-9]\d*))(\.\d+)?([eE][-+]?\d+)?\<close>, and the three names that are read as numbers.\<close>

definition read_digits :: "string \<Rightarrow> string \<times> string" where
  "read_digits s = (takeWhile is_digit s, dropWhile is_digit s)"

definition read_int_part :: "string \<Rightarrow> (string \<times> string) option" where
  "read_int_part s = (case s of
     [] \<Rightarrow> None
   | c # cs \<Rightarrow> if c = CHR ''0'' then Some ([c], cs)
       else if is_digit c then Some (read_digits s) else None)"

definition read_frac :: "string \<Rightarrow> string \<times> string" where
  "read_frac s = (case s of
     [] \<Rightarrow> ([], s)
   | c # cs \<Rightarrow> (let (ds, rest) = read_digits cs
       in if c = CHR ''.'' \<and> ds \<noteq> [] then (c # ds, rest) else ([], s)))"

definition read_exp :: "string \<Rightarrow> string \<times> string" where
  "read_exp s = (case s of
     [] \<Rightarrow> ([], s)
   | c # cs \<Rightarrow>
       (let sign = (if cs \<noteq> [] \<and> hd cs \<in> {CHR ''-'', CHR ''+''} then [hd cs] else []);
            (ds, rest) = read_digits (drop (length sign) cs)
        in if c \<in> {CHR ''e'', CHR ''E''} \<and> ds \<noteq> [] then (c # sign @ ds, rest) else ([], s)))"

definition read_number :: "string \<Rightarrow> (json \<times> string) option" where
  "read_number s =
     (let neg = starts_with ''-'' s in
      case read_int_part (if neg then tl s else s) of
        None \<Rightarrow> None
      | Some (i, r1) \<Rightarrow>
          (let (f, r2) = read_frac r1;
               (e, r3) = read_exp r2;
               t = (if neg then ''-'' else []) @ i
           in if f = [] \<and> e = [] then map_option (\<lambda>n. (JInt n, r3)) (py_int 10 t)
              else Some (JReal (t @ f @ e), r3)))"

fun read_word :: "(string \<times> json) list \<Rightarrow> string \<Rightarrow> (json \<times> string) option" where
  "read_word [] s = None"
| "read_word ((w, v) # ws) s = (if starts_with w s then Some (v, drop (length w) s) else read_word ws s)"

definition json_words :: "(string \<times> json) list" where
  "json_words = [(''null'', JNull), (''true'', JBool True), (''false'', JBool False),
     (''NaN'', JReal ''NaN''), (''Infinity'', JReal ''Infinity''), (''-Infinity'', JReal ''-Infinity'')]"

definition read_atom :: "string \<Rightarrow> (json \<times> string) option" where
  "read_atom s = (case read_word json_words s of Some r \<Rightarrow> Some r | None \<Rightarrow> read_number s)"

lemma skip_ws_length [simp]: "length (skip_ws s) \<le> length s"
  by (simp add: skip_ws_def length_dropWhile_le)

lemma starts_with_tl: "starts_with [c] s \<Longrightarrow> length (tl s) < length s"
  by (cases s) auto

text \<open>
  Values, the elements of an array after a bracket or comma, the members of an object after a brace or comma.
  A member that occurs twice keeps its place and the last value. The tests on lengths always
  hold; they make the recursion well-founded.
\<close>

function read_value :: "string \<Rightarrow> (json \<times> string) option"
  and read_elements :: "json list \<Rightarrow> string \<Rightarrow> (json \<times> string) option"
  and read_members :: "(string \<times> json) list \<Rightarrow> string \<Rightarrow> (json \<times> string) option" where
  "read_value [] = None"
| "read_value (c # cs) =
     (if c = DQ then map_option (\<lambda>(v, r). (JStr v, r)) (read_string [] cs)
      else if c = CHR ''{'' then
        (let t = skip_ws cs
         in if starts_with ''}'' t then Some (JObj [], tl t) else read_members [] t)
      else if c = CHR ''['' then
        (let t = skip_ws cs
         in if starts_with '']'' t then Some (JArr [], tl t) else read_elements [] t)
      else read_atom (c # cs))"
| "read_elements acc s =
     (case read_value s of
        None \<Rightarrow> None
      | Some (v, r) \<Rightarrow>
          (let t = skip_ws r
           in if starts_with '']'' t then Some (JArr (acc @ [v]), tl t)
              else if starts_with '','' t \<and> length t \<le> length s
              then read_elements (acc @ [v]) (skip_ws (tl t))
              else None))"
| "read_members acc s =
     (if \<not> starts_with [DQ] s then None
      else case read_string [] (tl s) of
        None \<Rightarrow> None
      | Some (k, r) \<Rightarrow>
          (let t = skip_ws r
           in if \<not> (starts_with '':'' t \<and> length t < length s) then None
              else case read_value (skip_ws (tl t)) of
                None \<Rightarrow> None
              | Some (v, r') \<Rightarrow>
                  (let t' = skip_ws r'
                   in if starts_with ''}'' t' then Some (JObj (dput k v acc), tl t')
                      else if starts_with '','' t' \<and> length t' \<le> length s
                      then read_members (dput k v acc) (skip_ws (tl t'))
                      else None)))"
  by pat_completeness auto

termination
proof (relation "measure (\<lambda>x. case x of Inl s \<Rightarrow> 2 * length s | Inr (Inl (acc, s)) \<Rightarrow> 2 * length s + 1
    | Inr (Inr (acc, s)) \<Rightarrow> 2 * length s + 1)", goal_cases)
  case (2 c cs t)
  then show ?case using skip_ws_length [of cs] by (simp del: skip_ws_length)
next
  case (3 c cs t)
  then show ?case using skip_ws_length [of cs] by (simp del: skip_ws_length)
next
  case (5 acc s a x y t)
  then show ?case using starts_with_tl [of "CHR '',''" t] skip_ws_length [of "tl t"]
    by (simp del: skip_ws_length)
next
  case (6 acc s a x y t)
  then show ?case using starts_with_tl [of "CHR '':''" t] skip_ws_length [of "tl t"]
    by (simp del: skip_ws_length)
next
  case (7 acc s a x y t aa xa ya t')
  then show ?case using starts_with_tl [of "CHR '',''" t'] skip_ws_length [of "tl t'"]
    by (simp del: skip_ws_length)
qed auto

definition json_loads :: "string \<Rightarrow> json option" where
  "json_loads s = (case read_value (skip_ws s) of
     Some (v, r) \<Rightarrow> if skip_ws r = [] then Some v else None
   | None \<Rightarrow> None)"

section \<open>Writing\<close>

definition unicode_escape :: "nat \<Rightarrow> string" where
  "unicode_escape n = [CHR 0x5C, CHR ''u'', digc (n div 4096 mod 16), digc (n div 256 mod 16),
     digc (n div 16 mod 16), digc (n mod 16)]"

definition escape_char :: "char \<Rightarrow> string" where
  "escape_char c =
     (case map_of [(DQ, DQ), (CHR 0x5C, CHR 0x5C), (NL, CHR ''n''), (CR, CHR ''r''), (TAB, CHR ''t''),
         (CHR 0x0C, CHR ''f''), (CHR 0x08, CHR ''b'')] c of
        Some e \<Rightarrow> [CHR 0x5C, e]
      | None \<Rightarrow> (let n = (of_char c :: nat)
          in if 32 \<le> n \<and> n \<le> 126 then [c] else unicode_escape n))"

definition quote_string :: "string \<Rightarrow> string" where
  "quote_string s = [DQ] @ concat (map escape_char s) @ [DQ]"

definition newline_indent :: "nat \<Rightarrow> string" where
  "newline_indent n = NL # replicate n (CHR '' '')"

text \<open>\<open>json.dumps(v, indent=step)\<close> of a value at depth \<open>n\<close>, in spaces.\<close>

fun dump :: "nat \<Rightarrow> nat \<Rightarrow> json \<Rightarrow> string" where
  "dump step n JNull = ''null''"
| "dump step n (JBool b) = (if b then ''true'' else ''false'')"
| "dump step n (JInt i) = py_str i"
| "dump step n (JReal r) = r"
| "dump step n (JStr s) = quote_string s"
| "dump step n (JArr xs) =
     (if xs = [] then ''[]''
      else ''['' @ newline_indent (n + step)
         @ join ('','' @ newline_indent (n + step)) (map (dump step (n + step)) xs)
         @ newline_indent n @ '']'')"
| "dump step n (JObj d) =
     (if d = [] then ''{}''
      else ''{'' @ newline_indent (n + step)
         @ join ('','' @ newline_indent (n + step))
             (map (\<lambda>p. quote_string (fst p) @ '': '' @ dump step (n + step) (snd p)) d)
         @ newline_indent n @ ''}'')"

definition json_dumps :: "nat \<Rightarrow> json \<Rightarrow> string" where
  "json_dumps step v = dump step 0 v"

section \<open>Reading back what was written\<close>

definition ascii :: "string \<Rightarrow> bool" where
  "ascii s \<longleftrightarrow> list_all (\<lambda>c. (of_char c :: nat) < 128) s"

text \<open>Values of ASCII text without reals, with distinct member names.\<close>

fun json_plain :: "json \<Rightarrow> bool" where
  "json_plain (JReal r) = False"
| "json_plain (JStr s) = ascii s"
| "json_plain (JArr xs) = list_all json_plain xs"
| "json_plain (JObj d) = (distinct (map fst d) \<and> list_all (\<lambda>p. ascii (fst p) \<and> json_plain (snd p)) d)"
| "json_plain v = True"

lemma hex4_unicode:
  assumes "n < 65536"
  shows "hex4 (digc (n div 4096 mod 16)) (digc (n div 256 mod 16)) (digc (n div 16 mod 16)) (digc (n mod 16)) = Some n"
proof -
  have "dig 16 (digc (k mod 16)) = Some (k mod 16)" for k
    by (rule dig_digc) simp_all
  moreover have "((n div 4096 mod 16 * 16 + n div 256 mod 16) * 16 + n div 16 mod 16) * 16 + n mod 16 = n"
  proof -
    have "n div 4096 mod 16 = n div 16 div 16 div 16"
      using assms by (simp flip: div_mult2_eq)
    moreover have "n div 256 = n div 16 div 16" by (simp flip: div_mult2_eq)
    ultimately show ?thesis by (simp add: div_mult_mod_eq)
  qed
  ultimately show ?thesis by (simp only: hex4_def option.case prod.case)
qed

lemma read_unicode: "hex4 w x y z = Some n \<Longrightarrow> n < 128 \<Longrightarrow>
  read_string acc ([CHR 0x5C, CHR ''u'', w, x, y, z] @ rest) = read_string (char_of n # acc) rest"
  by simp

lemma char_of_char: "char_of (of_char c :: nat) = c"
  by simp

lemma read_escaped:
  assumes "(of_char c :: nat) < 128"
  shows "read_string acc (escape_char c @ rest) = read_string (c # acc) rest"
proof (cases "map_of [(DQ, DQ), (CHR 0x5C, CHR 0x5C), (NL, CHR ''n''), (CR, CHR ''r''), (TAB, CHR ''t''),
    (CHR 0x0C, CHR ''f''), (CHR 0x08, CHR ''b'')] c")
  case (Some e)
  then show ?thesis
    by (auto simp: escape_char_def simple_escape_def split: if_splits)
next
  case None
  then have c: "c \<noteq> DQ" "c \<noteq> CHR 0x5C" by (auto split: if_splits)
  have esc: "escape_char c = (if 32 \<le> (of_char c :: nat) \<and> (of_char c :: nat) \<le> 126 then [c]
      else unicode_escape (of_char c))"
    unfolding escape_char_def None by (simp add: Let_def)
  show ?thesis
  proof (cases "32 \<le> (of_char c :: nat) \<and> (of_char c :: nat) \<le> 126")
    case True
    then show ?thesis using c esc by simp
  next
    case False
    have h: "hex4 (digc (of_char c div 4096 mod 16)) (digc (of_char c div 256 mod 16))
        (digc (of_char c div 16 mod 16)) (digc (of_char c mod 16)) = Some (of_char c)"
      by (rule hex4_unicode) (use assms in simp)
    have "read_string acc (unicode_escape (of_char c) @ rest) = read_string (char_of (of_char c :: nat) # acc) rest"
      unfolding unicode_escape_def by (rule read_unicode [OF h assms])
    then show ?thesis unfolding esc using False by (simp only: if_False char_of_char)
  qed
qed

lemma read_quoted: "ascii s \<Longrightarrow> read_string acc (concat (map escape_char s) @ DQ # rest) = Some (rev acc @ s, rest)"
  by (induction s arbitrary: acc) (auto simp: ascii_def read_escaped)

declare read_string.simps [simp del] read_value.simps [simp del] read_elements.simps [simp del]
  read_members.simps [simp del]

text \<open>What may stand behind a value: the end, a comma or a line break.\<close>

definition follows :: "string \<Rightarrow> bool" where
  "follows rest \<longleftrightarrow> rest = [] \<or> hd rest \<in> {CHR '','', NL}"

lemma follows_simps [simp]:
  "follows []" "follows (CHR '','' # s)" "follows (newline_indent n @ s)"
  by (simp_all add: follows_def newline_indent_def)

lemma skip_newline_indent [simp]: "skip_ws (newline_indent n @ s) = skip_ws s"
proof -
  have "dropWhile json_space (replicate n (CHR '' '') @ s) = dropWhile json_space s"
    by (induction n) (simp_all add: json_space_def)
  then show ?thesis by (simp add: skip_ws_def newline_indent_def json_space_def)
qed

lemma skip_ws_stop: "\<not> json_space c \<Longrightarrow> skip_ws (c # s) = c # s"
  by (simp add: skip_ws_def)

lemma skip_ws_comma [simp]: "skip_ws (CHR '','' # s) = CHR '','' # s"
  by (simp add: skip_ws_stop json_space_def)

text \<open>Integers.\<close>

lemma digs_no_leading_zero: "hd (digs 10 n) = CHR ''0'' \<Longrightarrow> n = 0"
proof (induction n rule: less_induct)
  case (less n)
  have digc0: "digc k = CHR ''0'' \<Longrightarrow> k < 10 \<Longrightarrow> k = 0" for k
    using dig_digc [of k 10] by (auto simp: dig_def dig_val_def split: if_splits)
  show ?case
  proof (cases "n < 10")
    case True
    then have "digs 10 n = [digc n]" by (subst digs.simps) simp
    with less.prems digc0 True show ?thesis by simp
  next
    case False
    then have "digs 10 n = digs 10 (n div 10) @ [digc (n mod 10)]" by (subst digs.simps) simp
    with less.prems have "hd (digs 10 (n div 10)) = CHR ''0''" by simp
    with less.IH [of "n div 10"] False have "n div 10 = 0" by simp
    with False show ?thesis by simp
  qed
qed

lemma digs_single_zero: "digs 10 0 = ''0''"
  by code_simp

lemma takeWhile_digs: "follows rest \<Longrightarrow> read_digits (digs 10 n @ rest) = (digs 10 n, rest)"
proof -
  assume f: "follows rest"
  have "list_all is_digit (digs 10 n)" using digs_digit by (auto simp: list_all_iff)
  moreover have "rest = [] \<or> \<not> is_digit (hd rest)" using f by (auto simp: follows_def is_digit_def)
  ultimately show ?thesis
    by (cases rest) (auto simp: read_digits_def list_all_iff takeWhile_append dropWhile_append)
qed

lemma read_int_part_digs: "follows rest \<Longrightarrow> read_int_part (digs 10 n @ rest) = Some (digs 10 n, rest)"
proof -
  assume f: "follows rest"
  obtain c cs where d: "digs 10 n = c # cs" by (cases "digs 10 n") auto
  have c: "is_digit c" using digs_digit [of c n] d by simp
  show ?thesis
  proof (cases "c = CHR ''0''")
    case True
    with d digs_no_leading_zero [of n] have "n = 0" by simp
    then show ?thesis by (simp add: digs_single_zero read_int_part_def)
  next
    case False
    have "read_digits (c # cs @ rest) = (c # cs, rest)" using takeWhile_digs [OF f, of n] d by simp
    then show ?thesis using False c by (simp add: d read_int_part_def)
  qed
qed

lemma read_frac_none: "follows rest \<Longrightarrow> read_frac rest = ([], rest)"
  by (cases rest) (auto simp: read_frac_def read_digits_def follows_def)

lemma read_exp_none: "follows rest \<Longrightarrow> read_exp rest = ([], rest)"
  by (cases rest) (auto simp: read_exp_def read_digits_def follows_def Let_def)

lemma digs_hd_not: "\<not> is_digit x \<Longrightarrow> \<exists>c cs. digs 10 n = c # cs \<and> c \<noteq> x"
  using digs_digit [of _ n] by (cases "digs 10 n") auto

lemma starts_digs: "p \<noteq> [] \<Longrightarrow> \<not> is_digit (hd p) \<Longrightarrow> \<not> starts_with p (digs 10 n @ rest)"
  using digs_hd_not [of "hd p" n] by (cases p) auto

lemma read_number_py_str: "follows rest \<Longrightarrow> read_number (py_str i @ rest) = Some (JInt i, rest)"
  using py_int_py_str [of i]
  by (auto simp: read_number_def py_str_def starts_digs is_digit_def read_int_part_digs read_frac_none read_exp_none
      split: if_splits)

lemma read_word_py_str: "read_word json_words (py_str i @ rest) = None"
  by (auto simp: json_words_def py_str_def starts_digs is_digit_def)

lemma read_value_atom: "c \<noteq> DQ \<Longrightarrow> c \<noteq> CHR ''{'' \<Longrightarrow> c \<noteq> CHR ''['' \<Longrightarrow> read_value (c # cs) = read_atom (c # cs)"
  by (simp add: read_value.simps)

lemma py_str_hd: "\<not> is_digit x \<Longrightarrow> x \<noteq> CHR ''-'' \<Longrightarrow> \<exists>c cs. py_str i = c # cs \<and> c \<noteq> x"
  using digs_hd_not [of x] by (auto simp: py_str_def)

lemma read_value_py_str: "follows rest \<Longrightarrow> read_value (py_str i @ rest) = Some (JInt i, rest)"
proof -
  assume f: "follows rest"
  obtain c cs where p: "py_str i = c # cs" "c \<noteq> DQ" "c \<noteq> CHR ''{''" "c \<noteq> CHR ''[''"
    using py_str_hd [of DQ i] py_str_hd [of "CHR ''{''" i] py_str_hd [of "CHR ''[''" i]
    by (auto simp: is_digit_def)
  have "read_value (py_str i @ rest) = read_atom (py_str i @ rest)"
    using p by (simp add: read_value_atom)
  also have "\<dots> = Some (JInt i, rest)"
    by (simp add: read_atom_def read_word_py_str read_number_py_str [OF f])
  finally show ?thesis .
qed

text \<open>A written value starts with a character that is neither white space nor punctuation.\<close>

definition value_start :: "char \<Rightarrow> bool" where
  "value_start c \<longleftrightarrow> \<not> json_space c \<and> c \<notin> {CHR '']'', CHR ''}'', CHR '','', CHR '':''}"

lemma dump_start: "json_plain v \<Longrightarrow> \<exists>c cs. dump step n v = c # cs \<and> value_start c"
proof (cases v)
  case (JInt i)
  obtain c cs where p: "py_str i = c # cs" by (cases "py_str i") (auto simp: py_str_def split: if_splits)
  then have "is_digit c \<or> c = CHR ''-''" using py_str_hd [of c i] by auto
  then have "value_start c" by (auto simp: value_start_def json_space_def is_digit_def)
  with JInt p show ?thesis by simp
qed (auto simp: value_start_def json_space_def quote_string_def)

lemma value_start_skip: "value_start c \<Longrightarrow> skip_ws (c # s) = c # s"
  by (simp add: value_start_def skip_ws_stop)

lemma skip_ws_dump: "json_plain v \<Longrightarrow> skip_ws (dump step n v @ s) = dump step n v @ s"
  using dump_start [of v step n] by (auto simp: value_start_skip)

lemma join_start: "xs \<noteq> [] \<Longrightarrow> hd xs = c # cs \<Longrightarrow> \<exists>ds. join sep xs = c # ds"
  by (cases xs; cases "tl xs") (auto simp: join_Cons)

text \<open>Arrays and objects, given that their parts are read back.\<close>

definition reads_back :: "nat \<Rightarrow> nat \<Rightarrow> json \<Rightarrow> bool" where
  "reads_back step n v \<longleftrightarrow> (\<forall>rest. follows rest \<longrightarrow> read_value (dump step n v @ rest) = Some (v, rest))"

lemma read_elements_dump:
  "xs \<noteq> [] \<Longrightarrow> list_all json_plain xs \<Longrightarrow> list_all (reads_back step m) xs \<Longrightarrow>
   read_elements acc (join ('','' @ newline_indent m) (map (dump step m) xs) @ newline_indent n @ '']'' @ rest) =
     Some (JArr (acc @ xs), rest)"
proof (induction xs arbitrary: acc)
  case (Cons x xs)
  show ?case
  proof (cases "xs = []")
    case True
    with Cons.prems show ?thesis
      by (simp add: read_elements.simps reads_back_def skip_ws_stop json_space_def)
  next
    case False
    define t where "t = join ('','' @ newline_indent m) (map (dump step m) xs) @ newline_indent n @ '']'' @ rest"
    have j: "join ('','' @ newline_indent m) (map (dump step m) (x # xs)) @ newline_indent n @ '']'' @ rest
        = dump step m x @ CHR '','' # newline_indent m @ t"
      using False by (simp add: join_Cons t_def)
    have ih: "read_elements (acc @ [x]) t = Some (JArr ((acc @ [x]) @ xs), rest)"
      unfolding t_def by (rule Cons.IH) (use False Cons.prems in auto)
    have w: "skip_ws t = t"
      using False Cons.prems by (cases xs; cases "tl xs") (auto simp: t_def join_Cons skip_ws_dump)
    have "read_value (dump step m x @ CHR '','' # newline_indent m @ t) = Some (x, CHR '','' # newline_indent m @ t)"
      using Cons.prems by (simp add: reads_back_def)
    then show ?thesis unfolding j
      by (subst read_elements.simps) (simp add: w ih)
  qed
qed simp

lemma read_members_dump:
  "d \<noteq> [] \<Longrightarrow> distinct (map fst (acc @ d)) \<Longrightarrow>
   list_all (\<lambda>p. ascii (fst p) \<and> json_plain (snd p) \<and> reads_back step m (snd p)) d \<Longrightarrow>
   read_members acc (join ('','' @ newline_indent m)
       (map (\<lambda>p. quote_string (fst p) @ '': '' @ dump step m (snd p)) d) @ newline_indent n @ ''}'' @ rest) =
     Some (JObj (acc @ d), rest)"
proof (induction d arbitrary: acc)
  case (Cons p d)
  obtain k v where p: "p = (k, v)" by (cases p)
  have put: "dput k v acc = acc @ [(k, v)]"
    using Cons.prems by (intro dput_absent) (auto simp: p)
  have key: "read_string [] (tl (quote_string k) @ s) = Some (k, s)" for s
    using read_quoted [of k "[]" s] Cons.prems by (simp add: quote_string_def p)
  have q: "starts_with [DQ] (quote_string k @ s)" for s by (simp add: quote_string_def)
  have sp: "skip_ws (CHR '' '' # s) = skip_ws s" for s by (simp add: skip_ws_def json_space_def)
  have co: "skip_ws (CHR '':'' # s) = CHR '':'' # s" for s by (simp add: skip_ws_stop json_space_def)
  have lq: "2 \<le> length (quote_string k)" "quote_string k \<noteq> []" by (simp_all add: quote_string_def)
  show ?case
  proof (cases "d = []")
    case True
    have j: "join ('','' @ newline_indent m) (map (\<lambda>p. quote_string (fst p) @ '': '' @ dump step m (snd p)) (p # d))
          @ newline_indent n @ ''}'' @ rest
        = quote_string k @ '': '' @ dump step m v @ newline_indent n @ ''}'' @ rest"
      using True by (simp add: p)
    have br: "skip_ws (CHR ''}'' # s) = CHR ''}'' # s" for s by (simp add: skip_ws_stop json_space_def)
    have v: "skip_ws (dump step m v @ s) = dump step m v @ s" for s
      using Cons.prems by (simp add: p skip_ws_dump)
    have r: "read_value (dump step m v @ newline_indent n @ CHR ''}'' # rest) = Some (v, newline_indent n @ CHR ''}'' # rest)"
      using Cons.prems by (simp add: p reads_back_def)
    show ?thesis unfolding j using lq
      by (subst read_members.simps) (simp add: q key sp co br put v r True p)
  next
    case False
    define t where "t = join ('','' @ newline_indent m)
      (map (\<lambda>p. quote_string (fst p) @ '': '' @ dump step m (snd p)) d) @ newline_indent n @ ''}'' @ rest"
    have j: "join ('','' @ newline_indent m) (map (\<lambda>p. quote_string (fst p) @ '': '' @ dump step m (snd p)) (p # d))
          @ newline_indent n @ ''}'' @ rest
        = quote_string k @ '': '' @ dump step m v @ CHR '','' # newline_indent m @ t"
      using False by (simp add: join_Cons t_def p)
    have ih: "read_members (acc @ [(k, v)]) t = Some (JObj ((acc @ [(k, v)]) @ d), rest)"
      unfolding t_def by (rule Cons.IH) (use False Cons.prems in \<open>auto simp: p\<close>)
    have w: "skip_ws t = t"
      using False by (cases d; cases "tl d") (auto simp: t_def join_Cons quote_string_def skip_ws_stop json_space_def)
    have v: "skip_ws (dump step m v @ s) = dump step m v @ s" for s
      using Cons.prems by (simp add: p skip_ws_dump)
    have r: "read_value (dump step m v @ CHR '','' # newline_indent m @ t) = Some (v, CHR '','' # newline_indent m @ t)"
      using Cons.prems by (simp add: p reads_back_def)
    show ?thesis unfolding j using lq
      by (subst read_members.simps) (simp add: q key sp co put v r w ih p)
  qed
qed simp

lemma read_dump: "json_plain v \<Longrightarrow> reads_back step n v"
proof (induction v arbitrary: n rule: json.induct)
  case JNull
  then show ?case by (simp add: reads_back_def read_value_atom read_atom_def json_words_def)
next
  case (JBool b)
  then show ?case by (simp add: reads_back_def read_value_atom read_atom_def json_words_def)
next
  case (JInt i)
  then show ?case by (simp add: reads_back_def read_value_py_str)
next
  case (JStr s)
  then show ?case
    using read_quoted [of s "[]"] by (simp add: reads_back_def read_value.simps quote_string_def)
next
  case (JArr xs)
  show ?case
  proof (cases "xs = []")
    case True
    then show ?thesis by (simp add: reads_back_def read_value.simps skip_ws_stop json_space_def)
  next
    case False
    let ?j = "join ('','' @ newline_indent (n + step)) (map (dump step (n + step)) xs)"
    obtain c ds where j: "?j = c # ds" "value_start c"
      using False JArr.prems dump_start [of "hd xs" step "n + step"]
        join_start [of "map (dump step (n + step)) xs" _ _ "'','' @ newline_indent (n + step)"]
      by (cases xs) fastforce+
    have "list_all (reads_back step (n + step)) xs" using JArr by (simp add: list_all_iff)
    then have "read_elements [] (?j @ newline_indent n @ '']'' @ rest) = Some (JArr xs, rest)" for rest
      using JArr.prems read_elements_dump [OF False, of step "n + step" "[]" n] by simp
    moreover have "skip_ws (?j @ s) = ?j @ s" "\<not> starts_with '']'' (?j @ s)" for s
      using j by (auto simp: value_start_skip value_start_def)
    ultimately show ?thesis using False
      by (simp add: reads_back_def read_value.simps)
  qed
next
  case (JObj d)
  show ?case
  proof (cases "d = []")
    case True
    then show ?thesis by (simp add: reads_back_def read_value.simps skip_ws_stop json_space_def)
  next
    case False
    let ?j = "join ('','' @ newline_indent (n + step))
      (map (\<lambda>p. quote_string (fst p) @ '': '' @ dump step (n + step) (snd p)) d)"
    obtain ds where j: "?j = DQ # ds"
      using False join_start [of "map (\<lambda>p. quote_string (fst p) @ '': '' @ dump step (n + step) (snd p)) d" DQ _
          "'','' @ newline_indent (n + step)"]
      by (cases d) (auto simp: quote_string_def)
    have "list_all (\<lambda>p. ascii (fst p) \<and> json_plain (snd p) \<and> reads_back step (n + step) (snd p)) d"
      using JObj by (fastforce simp: list_all_iff)
    then have "read_members [] (?j @ newline_indent n @ ''}'' @ rest) = Some (JObj d, rest)" for rest
      using JObj.prems read_members_dump [OF False, of "[]" step "n + step" n] by simp
    moreover have "skip_ws (?j @ s) = ?j @ s" "\<not> starts_with ''}'' (?j @ s)" for s
      using j by (auto simp: skip_ws_stop json_space_def)
    ultimately show ?thesis using False
      by (simp add: reads_back_def read_value.simps)
  qed
qed simp

text \<open>\<open>json.loads(json.dumps(v, indent=step))\<close> is \<open>v\<close>.\<close>

lemma json_loads_dumps: "json_plain v \<Longrightarrow> json_loads (json_dumps step v) = Some v"
proof -
  assume v: "json_plain v"
  from v have "skip_ws (dump step 0 v) = dump step 0 v" using skip_ws_dump [of v step 0 "[]"] by simp
  moreover have "read_value (dump step 0 v) = Some (v, [])"
    using read_dump [OF v, of step 0] by (auto simp: reads_back_def dest: spec [of _ "[]"])
  ultimately show ?thesis by (simp add: json_loads_def json_dumps_def skip_ws_def)
qed

interpretation json_codec: codec "json_dumps step" json_loads json_plain for step
  by unfold_locales (rule json_loads_dumps)

end
