(* ===== verification/Host_Io.thy ===== *)
theory Host_Io
  imports Py_Json
begin

text \<open>
  Effects of the loader and the command line: commands run through \<open>subprocess.run\<close>, sleeps,
  and text files the program reads and writes itself. The world records the events in
  order and the contents of the files. The environment answers for everything else: what a
  command returns, given the events so far, and which other paths exist. An exception keeps
  the world it was raised in.
\<close>

datatype event = Ran "string list" | Slept nat

record world =
  events :: "event list"
  files :: "string \<Rightarrow> string option"

text \<open>
  The environment: return code and standard output of a command, existence of paths outside
  \<open>files\<close>, directory listings, whether a file exists that can be neither
  written nor removed by this user, the path \<open>find_bpftool\<close> finds, and whether the time limit
  of a waiting loop has passed. Sleeps are in milliseconds.
\<close>

record env =
  h_run :: "event list \<Rightarrow> string list \<Rightarrow> int \<times> string"
  h_exists :: "event list \<Rightarrow> string \<Rightarrow> bool"
  h_listdir :: "event list \<Rightarrow> string \<Rightarrow> string list"
  h_unremovable :: "event list \<Rightarrow> string \<Rightarrow> bool"
  h_bpftool :: string
  h_late :: "event list \<Rightarrow> bool"

type_synonym 'a io = "env \<Rightarrow> world \<Rightarrow> world \<times> 'a res"

definition ret :: "'a \<Rightarrow> 'a io" where
  "ret x = (\<lambda>h w. (w, Inr x))"

definition raise :: "py_error \<Rightarrow> 'a io" where
  "raise e = (\<lambda>h w. (w, Inl e))"

definition lift :: "'a res \<Rightarrow> 'a io" where
  "lift r = (\<lambda>h w. (w, r))"

definition bindio :: "'a io \<Rightarrow> ('a \<Rightarrow> 'b io) \<Rightarrow> 'b io" where
  "bindio m f = (\<lambda>h w. case m h w of (w', Inl e) \<Rightarrow> (w', Inl e) | (w', Inr x) \<Rightarrow> f x h w')"

definition seqio :: "unit io \<Rightarrow> 'a io \<Rightarrow> 'a io" where
  "seqio m n = bindio m (\<lambda>_. n)"

fun each :: "('a \<Rightarrow> unit io) \<Rightarrow> 'a list \<Rightarrow> unit io" where
  "each f [] = ret ()"
| "each f (x # xs) = seqio (f x) (each f xs)"

definition run :: "string list \<Rightarrow> (int \<times> string) io" where
  "run c = (\<lambda>h w. (w\<lparr>events := events w @ [Ran c]\<rparr>, Inr (h_run h (events w) c)))"

text \<open>A command whose result is not looked at.\<close>

definition run_ignored :: "string list \<Rightarrow> unit io" where
  "run_ignored c = bindio (run c) (\<lambda>_. ret ())"

definition sleep :: "nat \<Rightarrow> unit io" where
  "sleep ms = (\<lambda>h w. (w\<lparr>events := events w @ [Slept ms]\<rparr>, Inr ()))"

definition ask :: "(env \<Rightarrow> event list \<Rightarrow> 'a) \<Rightarrow> 'a io" where
  "ask q = (\<lambda>h w. (w, Inr (q h (events w))))"

definition file_text :: "string \<Rightarrow> string option io" where
  "file_text p = (\<lambda>h w. (w, Inr (files w p)))"

definition read_file :: "string \<Rightarrow> string io" where
  "read_file p = (\<lambda>h w. (w, case files w p of None \<Rightarrow> Inl FileNotFound | Some t \<Rightarrow> Inr t))"

definition write_file :: "string \<Rightarrow> string \<Rightarrow> unit io" where
  "write_file p t = (\<lambda>h w. (w\<lparr>files := (files w)(p := Some t)\<rparr>, Inr ()))"

definition remove_file :: "string \<Rightarrow> unit io" where
  "remove_file p = (\<lambda>h w. (w\<lparr>files := (files w)(p := None)\<rparr>, Inr ()))"

lemma bindio_simps [simp]:
  "bindio (ret x) f = f x"
  "bindio (raise e) f = raise e"
  by (simp_all add: bindio_def ret_def raise_def)

lemma seqio_simps [simp]:
  "seqio (ret u) n = n"
  "seqio (raise e) n = raise e"
  by (simp_all add: seqio_def)

lemma lift_simps [simp]:
  "lift (Inr x) = ret x"
  "lift (Inl e) = raise e"
  by (simp_all add: lift_def ret_def raise_def)

text \<open>Running the primitives.\<close>

named_theorems io_simps

lemma io_run [io_simps]:
  "ret x h w = (w, Inr x)"
  "raise e h w = (w, Inl e)"
  "lift r h w = (w, r)"
  "run c h w = (w\<lparr>events := events w @ [Ran c]\<rparr>, Inr (h_run h (events w) c))"
  "run_ignored c h w = (w\<lparr>events := events w @ [Ran c]\<rparr>, Inr ())"
  "sleep ms h w = (w\<lparr>events := events w @ [Slept ms]\<rparr>, Inr ())"
  "ask q h w = (w, Inr (q h (events w)))"
  "file_text p h w = (w, Inr (files w p))"
  "read_file p h w = (w, case files w p of None \<Rightarrow> Inl FileNotFound | Some t \<Rightarrow> Inr t)"
  "write_file p t h w = (w\<lparr>files := (files w)(p := Some t)\<rparr>, Inr ())"
  "remove_file p h w = (w\<lparr>files := (files w)(p := None)\<rparr>, Inr ())"
  by (simp_all add: ret_def raise_def lift_def run_def run_ignored_def sleep_def ask_def file_text_def
      read_file_def write_file_def remove_file_def bindio_def)

lemma io_bind [io_simps]:
  "bindio m f h w = (case m h w of (w', Inl e) \<Rightarrow> (w', Inl e) | (w', Inr x) \<Rightarrow> f x h w')"
  by (simp add: bindio_def)

lemma io_seq [io_simps]:
  "seqio m n h w = (case m h w of (w', Inl e) \<Rightarrow> (w', Inl e) | (w', Inr x) \<Rightarrow> n h w')"
  by (simp add: bindio_def seqio_def)

section \<open>What an operation leaves alone\<close>

text \<open>
  The contract of an operation, kept by the combinators: a relation between the world
  before and after that is reflexive and transitive, whatever the outcome.
\<close>

locale io_contract =
  fixes rel :: "world \<Rightarrow> world \<Rightarrow> bool"
  assumes rel_refl: "rel w w"
    and rel_trans: "rel a b \<Longrightarrow> rel b c \<Longrightarrow> rel a c"
    and rel_events: "rel w (w\<lparr>events := events w @ es\<rparr>)"
begin

definition keeps :: "'a io \<Rightarrow> bool" where
  "keeps m \<longleftrightarrow> (\<forall>h w. rel w (fst (m h w)))"

lemma keepsD: "keeps m \<Longrightarrow> rel w (fst (m h w))"
  by (simp add: keeps_def)

lemma keeps_result: "keeps m \<Longrightarrow> m h w = (w', r) \<Longrightarrow> rel w w'"
  by (metis keepsD fst_conv)

lemma keeps_bindio: "keeps m \<Longrightarrow> (\<And>x. keeps (f x)) \<Longrightarrow> keeps (bindio m f)"
  unfolding keeps_def
proof (intro allI)
  fix h w
  assume m: "\<forall>h w. rel w (fst (m h w))" and f: "\<And>x. \<forall>h w. rel w (fst (f x h w))"
  obtain w' r where r: "m h w = (w', r)" by force
  with m have "rel w w'" by (metis fst_conv)
  with f show "rel w (fst (bindio m f h w))"
    by (cases r) (use rel_trans in \<open>auto simp: r io_simps\<close>)
qed

lemma keeps_seqio: "keeps m \<Longrightarrow> keeps n \<Longrightarrow> keeps (seqio m n)"
  by (simp add: seqio_def keeps_bindio)

lemma keeps_basic:
  "keeps (ret x)" "keeps (raise e)" "keeps (lift r)" "keeps (run c)" "keeps (run_ignored c)" "keeps (sleep ms)"
  "keeps (ask q)" "keeps (file_text p)" "keeps (read_file p)"
  by (simp_all add: keeps_def io_simps rel_refl rel_events)

lemma keeps_each: "(\<And>x. keeps (f x)) \<Longrightarrow> keeps (each f xs)"
  by (induction xs) (simp_all add: keeps_basic keeps_seqio)

lemma keeps_if: "(b \<Longrightarrow> keeps m) \<Longrightarrow> (\<not> b \<Longrightarrow> keeps n) \<Longrightarrow> keeps (if b then m else n)"
  by simp

lemma keeps_option: "(x = None \<Longrightarrow> keeps m) \<Longrightarrow> (\<And>y. x = Some y \<Longrightarrow> keeps (f y)) \<Longrightarrow>
    keeps (case x of None \<Rightarrow> m | Some y \<Rightarrow> f y)"
  by (cases x) simp_all

lemma keeps_pair: "(\<And>x y. p = (x, y) \<Longrightarrow> keeps (f x y)) \<Longrightarrow> keeps (case p of (x, y) \<Rightarrow> f x y)"
  by (cases p) simp

lemmas keeps_intros = keeps_bindio keeps_seqio keeps_basic keeps_each keeps_if keeps_option keeps_pair

end

text \<open>Two contracts of the program: the event log only grows, and a file is left alone.\<close>

definition log_grows :: "world \<Rightarrow> world \<Rightarrow> bool" where
  "log_grows a b \<longleftrightarrow> (\<exists>es. events b = events a @ es)"

definition same_file :: "string \<Rightarrow> world \<Rightarrow> world \<Rightarrow> bool" where
  "same_file p a b \<longleftrightarrow> files a p = files b p"

interpretation log: io_contract log_grows
  by unfold_locales (auto simp: log_grows_def)

interpretation untouched: io_contract "same_file p" for p
  by unfold_locales (auto simp: same_file_def)

lemma untouched_write: "q \<noteq> p \<Longrightarrow> untouched.keeps p (write_file q t)"
  by (simp add: untouched.keeps_def io_simps same_file_def)

lemma untouched_remove: "q \<noteq> p \<Longrightarrow> untouched.keeps p (remove_file q)"
  by (simp add: untouched.keeps_def io_simps same_file_def)

lemma log_write: "log.keeps (write_file q t)" "log.keeps (remove_file q)"
  by (simp_all add: log.keeps_def io_simps log_grows_def)

end
