(* ===== verification/Bpf_Maps.thy ===== *)
theory Bpf_Maps
  imports Host_Io "HOL-Library.Word" "HOL-Library.Product_Lexorder" "HOL-Library.Multiset"
begin

text \<open>
  The maps of a loaded BPF program, as \<open>src/src/loader.py\<close> fills them through
  \<open>bpftool\<close>: little-endian packing (\<open>struct\<close>), map identifiers from \<open>bpftool -j\<close>, the
  variables \<open>xk_mode\<close>, \<open>xk_active\<close> and \<open>xk_epoch\<close>, and the tables of critical and safe
  spans. Map identifiers are integers, as bpftool prints them; an entry with another
  identifier is skipped.
\<close>

section \<open>The wire format\<close>

text \<open>\<open>struct.pack\<close> of an unsigned field of \<open>n\<close> bytes, and \<open>int.from_bytes(bs, 'little')\<close>.\<close>

fun le_bytes :: "nat \<Rightarrow> int \<Rightarrow> 8 word list" where
  "le_bytes 0 v = []"
| "le_bytes (Suc n) v = word_of_int v # le_bytes n (v div 256)"

definition pack_le :: "nat \<Rightarrow> int \<Rightarrow> 8 word list res" where
  "pack_le n v = (if 0 \<le> v \<and> v < 2 ^ (8 * n) then Inr (le_bytes n v) else Inl StructError)"

fun le_value :: "8 word list \<Rightarrow> int" where
  "le_value [] = 0"
| "le_value (b # bs) = uint b + 256 * le_value bs"

definition unpack_le :: "nat \<Rightarrow> 8 word list \<Rightarrow> int option" where
  "unpack_le n bs = (if length bs = n then Some (le_value bs) else None)"

text \<open>\<open>' '.join(f'{b:02x}' for b in bs)\<close>\<close>

definition hex2 :: "8 word \<Rightarrow> string" where
  "hex2 b = [digc (unat b div 16), digc (unat b mod 16)]"

definition hex_text :: "8 word list \<Rightarrow> string" where
  "hex_text bs = join '' '' (map hex2 bs)"

section \<open>bpftool\<close>

definition sudo_bpftool_cmd :: "string list \<Rightarrow> string list io" where
  "sudo_bpftool_cmd args = ask (\<lambda>h es. [''sudo'', h_bpftool h] @ args)"

definition update_map_by_id :: "int \<Rightarrow> string \<Rightarrow> string \<Rightarrow> bool io" where
  "update_map_by_id map_id key_hex_str val_hex_str =
     bindio (sudo_bpftool_cmd ([''map'', ''update'', ''id'', py_str map_id, ''key'', ''hex'']
         @ split_ws key_hex_str @ [''value'', ''hex''] @ split_ws val_hex_str)) (\<lambda>c.
     bindio (run c) (\<lambda>result. ret (fst result = 0)))"

text \<open>\<open>m['id']\<close> if \<open>'id' in m\<close>.\<close>

definition map_id_of :: "json \<Rightarrow> int option res" where
  "map_id_of m = (case m of
     JObj d \<Rightarrow> Inr (case map_of d ''id'' of Some (JInt i) \<Rightarrow> Some i | _ \<Rightarrow> None)
   | JArr xs \<Rightarrow> if JStr ''id'' \<in> set xs then Inl TypeError else Inr None
   | JStr s \<Rightarrow> if contains ''id'' s then Inl TypeError else Inr None
   | _ \<Rightarrow> Inl TypeError)"

definition as_list :: "json \<Rightarrow> json list" where
  "as_list v = (case v of JArr xs \<Rightarrow> xs | _ \<Rightarrow> if json_truthy v then [v] else [])"

definition snapshot_map_ids :: "int list io" where
  "snapshot_map_ids =
     bindio (sudo_bpftool_cmd [''-j'', ''map'', ''list'']) (\<lambda>c.
     bindio (run c) (\<lambda>(code, out).
       ret (if code \<noteq> 0 then []
         else case json_loads out of
           None \<Rightarrow> []
         | Some maps \<Rightarrow> (case mapr map_id_of (as_list maps) of
             Inl e \<Rightarrow> []
           | Inr ids \<Rightarrow> remdups (List.map_filter id ids)))))"

text \<open>\<open>m.get('id')\<close> and \<open>m.get('name', '')\<close> of the maps that are wanted.\<close>

fun add_map_names :: "int list \<Rightarrow> json list \<Rightarrow> (string, int) dict \<Rightarrow> (string, int) dict res" where
  "add_map_names map_ids [] d = Inr d"
| "add_map_names map_ids (m # ms) d = (case m of
     JObj kv \<Rightarrow>
       (case (map_of kv ''id'', map_of kv ''name'') of
          (Some (JInt i), Some (JStr name)) \<Rightarrow>
            add_map_names map_ids ms (if i \<in> set map_ids \<and> name \<noteq> [] then dput name i d else d)
        | _ \<Rightarrow> add_map_names map_ids ms d)
   | _ \<Rightarrow> Inl AttributeError)"

definition resolve_map_names :: "int list \<Rightarrow> (string, int) dict io" where
  "resolve_map_names map_ids =
     (if map_ids = [] then ret []
      else bindio (sudo_bpftool_cmd [''-j'', ''map'', ''list'']) (\<lambda>c.
        bindio (run c) (\<lambda>(code, out).
          if code \<noteq> 0 then ret []
          else case json_loads out of
            None \<Rightarrow> ret []
          | Some maps \<Rightarrow> lift (add_map_names map_ids (as_list maps) []))))"

definition BPF_PIN_BASE :: string where
  "BPF_PIN_BASE = ''/sys/fs/bpf/xkernel''"

definition pinned_id :: "json \<Rightarrow> int option res" where
  "pinned_id data = (case data of
     JObj d \<Rightarrow> map_id_of data
   | JArr (x # xs) \<Rightarrow> map_id_of x
   | _ \<Rightarrow> Inr None)"

text \<open>The loop over the pinned maps; text that is no JSON ends it.\<close>

fun pinned_maps :: "string \<Rightarrow> string list \<Rightarrow> (string, int) dict \<Rightarrow> (string, int) dict io" where
  "pinned_maps maps_dir [] map_info = ret map_info"
| "pinned_maps maps_dir (name # names) map_info =
     bindio (sudo_bpftool_cmd [''-j'', ''map'', ''show'', ''pinned'', maps_dir @ ''/'' @ name]) (\<lambda>c.
     bindio (run c) (\<lambda>(code, out).
       if code = 0 \<and> py_strip out \<noteq> []
       then (case json_loads out of
               None \<Rightarrow> ret map_info
             | Some data \<Rightarrow> bindio (lift (pinned_id data)) (\<lambda>i.
                 pinned_maps maps_dir names
                   (case i of None \<Rightarrow> map_info | Some n \<Rightarrow> dput name n map_info)))
       else pinned_maps maps_dir names map_info))"

definition get_map_info_for_constid :: "string \<Rightarrow> (string, int) dict io" where
  "get_map_info_for_constid const_id =
     (let maps_dir = BPF_PIN_BASE @ ''/'' @ const_id @ ''/maps''
      in bindio (ask (\<lambda>h es. (h_exists h es maps_dir, h_listdir h es maps_dir))) (\<lambda>(isdir, names).
        if isdir then pinned_maps maps_dir names [] else ret []))"

section \<open>Variables\<close>

text \<open>\<open>map_name.replace('.', '_').lstrip('_')\<close> behind an underscore: the name of the pin.\<close>

definition pin_name :: "string \<Rightarrow> string" where
  "pin_name map_name = ''_'' @ lstrip_by (\<lambda>c. c = CHR ''_'')
     (map (\<lambda>c. if c = CHR ''.'' then CHR ''_'' else c) map_name)"

definition zero_key :: string where
  "zero_key = ''00 00 00 00''"

definition set_bss_variable :: "(string, int) dict \<Rightarrow> string \<Rightarrow> int \<Rightarrow> bool io" where
  "set_bss_variable map_info map_name value =
     (case (case map_of map_info map_name of
              Some i \<Rightarrow> Some i | None \<Rightarrow> map_of map_info (pin_name map_name)) of
        None \<Rightarrow> ret False
      | Some map_id \<Rightarrow>
          bindio (lift (pack_le 4 value)) (\<lambda>val_bytes.
            update_map_by_id map_id zero_key (hex_text val_bytes)))"

definition activate_constid :: "string \<Rightarrow> (string, int) dict \<Rightarrow> bool io" where
  "activate_constid const_id map_info = set_bss_variable map_info ''.bss.xk_active'' 1"

definition deactivate_constid :: "string \<Rightarrow> (string, int) dict \<Rightarrow> bool io" where
  "deactivate_constid const_id map_info = set_bss_variable map_info ''.bss.xk_active'' 0"

subsection \<open>The epoch\<close>

definition byte_of :: "json \<Rightarrow> int res" where
  "byte_of x = (case x of
     JStr s \<Rightarrow> or_value_error (py_int 16 s)
   | JInt i \<Rightarrow> Inr i
   | JBool b \<Rightarrow> Inr (if b then 1 else 0)
   | _ \<Rightarrow> Inl TypeError)"

text \<open>\<open>len(raw)\<close> and \<open>raw[:4]\<close>; a mapping has no slices.\<close>

definition first_bytes :: "json \<Rightarrow> json list option res" where
  "first_bytes raw =
     (if \<not> json_truthy raw then Inr None
      else case raw of
        JArr xs \<Rightarrow> Inr (if 4 \<le> length xs then Some (take 4 xs) else None)
      | JStr s \<Rightarrow> Inr (if 4 \<le> length s then Some (map (\<lambda>c. JStr [c]) (take 4 s)) else None)
      | JObj d \<Rightarrow> if 4 \<le> length d then Inl TypeError else Inr None
      | _ \<Rightarrow> Inl TypeError)"

definition epoch_of_bytes :: "json list \<Rightarrow> int res" where
  "epoch_of_bytes xs = bindr (mapr byte_of xs) (\<lambda>bs.
     if list_all (\<lambda>b. 0 \<le> b \<and> b < 256) bs
     then Inr (le_value (map word_of_int bs)) else Inl ValueError)"

definition map_entry_value :: "json \<Rightarrow> json res" where
  "map_entry_value e = (case e of JObj d \<Rightarrow> Inr (dget d ''value'' (JArr [])) | _ \<Rightarrow> Inl AttributeError)"

definition first_entry :: "json \<Rightarrow> json res" where
  "first_entry entries = (case entries of
     JArr (x # xs) \<Rightarrow> Inr x
   | JStr (c # cs) \<Rightarrow> Inr (JStr [c])
   | JObj d \<Rightarrow> Inl KeyError
   | _ \<Rightarrow> Inl TypeError)"

definition raw_bytes :: "json \<Rightarrow> json" where
  "raw_bytes val = (case val of
     JObj d \<Rightarrow> dget d ''bytes'' (JArr [])
   | JArr xs \<Rightarrow> JArr xs
   | _ \<Rightarrow> JArr [])"

definition read_epoch :: "json \<Rightarrow> int res" where
  "read_epoch entries =
     (if \<not> json_truthy entries then Inr 0
      else bindr (first_entry entries) (\<lambda>e.
        bindr (map_entry_value e) (\<lambda>val.
        bindr (first_bytes (raw_bytes val)) (\<lambda>bs. case bs of
          None \<Rightarrow> Inr 0
        | Some xs \<Rightarrow> epoch_of_bytes xs))))"

text \<open>\<open>TypeError\<close> and \<open>ValueError\<close> are caught: the epoch is then taken as 0.\<close>

definition current_epoch :: "int \<times> string \<Rightarrow> int res" where
  "current_epoch result =
     (if fst result = 0 \<and> py_strip (snd result) \<noteq> []
      then case json_loads (snd result) of
        None \<Rightarrow> Inr 0
      | Some entries \<Rightarrow> (case read_epoch entries of
          Inl TypeError \<Rightarrow> Inr 0 | Inl ValueError \<Rightarrow> Inr 0 | r \<Rightarrow> r)
      else Inr 0)"

definition bump_epoch :: "string \<Rightarrow> (string, int) dict \<Rightarrow> bool io" where
  "bump_epoch const_id map_info =
     (case (case map_of map_info ''.bss.xk_epoch'' of
              Some i \<Rightarrow> Some i | None \<Rightarrow> map_of map_info ''_bss_xk_epoch'') of
        None \<Rightarrow> ret False
      | Some epoch_id \<Rightarrow>
          bindio (sudo_bpftool_cmd [''-j'', ''map'', ''dump'', ''id'', py_str epoch_id]) (\<lambda>c.
          bindio (run c) (\<lambda>result.
          bindio (lift (current_epoch result)) (\<lambda>current.
            set_bss_variable map_info ''.bss.xk_epoch'' (current + 1)))))"

section \<open>Span tables\<close>

text \<open>The non-empty lines of a spans file, \<open>function,address,start,end\<close>.\<close>

definition span_lines :: "string \<Rightarrow> string list" where
  "span_lines text = filter (\<lambda>l. l \<noteq> []) (map py_strip (readlines text))"

fun parse_spans :: "string list \<Rightarrow> (int \<times> int) list res" where
  "parse_spans [] = Inr []"
| "parse_spans (line # lines) =
     (let parts = split_on (CHR '','') line
      in if length parts < 4 then parse_spans lines
         else bindr (or_value_error (py_int 16 (parts ! 1))) (\<lambda>func_addr.
           bindr (or_value_error (py_int 16 (parts ! 2))) (\<lambda>soff.
           bindr (or_value_error (py_int 16 (parts ! 3))) (\<lambda>eoff.
           bindr (parse_spans lines) (\<lambda>rest. Inr ((func_addr + soff, func_addr + eoff) # rest))))))"

text \<open>\<open>spans.sort(key=lambda x: (x[0], -x[1]))\<close>\<close>

definition sort_spans :: "(int \<times> int) list \<Rightarrow> (int \<times> int) list" where
  "sort_spans spans = sort_key (\<lambda>(soff, eoff). (soff, - eoff)) spans"

definition update_span :: "int \<Rightarrow> nat \<times> int \<times> int \<Rightarrow> unit io" where
  "update_span map_id = (\<lambda>(i, soff, eoff).
     bindio (lift (pack_le 4 (int i))) (\<lambda>key_bytes.
     bindio (lift (pack_le 8 soff)) (\<lambda>s.
     bindio (lift (pack_le 8 eoff)) (\<lambda>e.
     bindio (update_map_by_id map_id (hex_text key_bytes) (hex_text (s @ e))) (\<lambda>_. ret ())))))"

definition update_length :: "int \<Rightarrow> nat \<Rightarrow> unit io" where
  "update_length map_id n =
     bindio (lift (pack_le 4 (int n))) (\<lambda>val_bytes.
     bindio (update_map_by_id map_id zero_key (hex_text val_bytes)) (\<lambda>_. ret ()))"

definition optional :: "('a \<Rightarrow> unit io) \<Rightarrow> 'a option \<Rightarrow> unit io" where
  "optional f x = (case x of None \<Rightarrow> ret () | Some y \<Rightarrow> f y)"

definition load_critical_spans_for_constid :: "string \<Rightarrow> string \<Rightarrow> (string, int) dict \<Rightarrow> unit io" where
  "load_critical_spans_for_constid cs_path const_id map_info =
     bindio (file_text cs_path) (\<lambda>f. case f of
       None \<Rightarrow> ret ()
     | Some text \<Rightarrow>
         if span_lines text = [] then ret ()
         else bindio (lift (parse_spans (span_lines text))) (\<lambda>parsed.
           let spans = sort_spans parsed
           in seqio (optional (\<lambda>i. update_length i (length spans)) (map_of map_info ''.bss.cs_len''))
               (optional (\<lambda>i. each (update_span i) (enumerate 0 spans)) (map_of map_info ''cs_map''))))"

definition load_safe_spans_for_constid :: "string \<Rightarrow> string \<Rightarrow> (string, int) dict \<Rightarrow> unit io" where
  "load_safe_spans_for_constid ss_path const_id map_info =
     bindio (file_text ss_path) (\<lambda>f. case f of
       None \<Rightarrow> ret ()
     | Some text \<Rightarrow>
         if span_lines text = [] then ret ()
         else bindio (lift (parse_spans (span_lines text))) (\<lambda>parsed.
           let spans = sort_spans parsed
           in case map_of map_info ''.bss.ss_len'' of
             None \<Rightarrow> ret ()
           | Some i \<Rightarrow> seqio (update_length i (length spans))
               (optional (\<lambda>i. each (update_span i) (enumerate 0 spans)) (map_of map_info ''ss_map''))))"

section \<open>The wire format can be read back\<close>

lemma le_bytes_length [simp]: "length (le_bytes n v) = n"
  by (induction n v rule: le_bytes.induct) simp_all

lemma le_value_le_bytes: "le_value (le_bytes n v) = v mod 2 ^ (8 * n)"
proof (induction n v rule: le_bytes.induct)
  case (2 n v)
  have "v mod (256 * 2 ^ (8 * n)) = 256 * (v div 256 mod 2 ^ (8 * n)) + v mod 256"
    by (rule zmod_zmult2_eq) simp
  moreover have "uint (word_of_int v :: 8 word) = v mod 256"
    by (simp add: uint_word_of_int)
  moreover have "(2 :: int) ^ (8 * Suc n) = 256 * 2 ^ (8 * n)" by (simp add: power_add)
  ultimately show ?case using 2 by simp
qed simp

interpretation le_codec: codec "le_bytes n" "unpack_le n" "\<lambda>v. 0 \<le> v \<and> v < 2 ^ (8 * n)" for n
  by unfold_locales (simp add: unpack_le_def le_value_le_bytes)

lemma pack_le_Inr: "pack_le n v = Inr bs \<longleftrightarrow> 0 \<le> v \<and> v < 2 ^ (8 * n) \<and> bs = le_bytes n v"
  by (auto simp: pack_le_def)

definition unhex :: "string \<Rightarrow> 8 word option" where
  "unhex s = (case s of
     [a, b] \<Rightarrow> (case (dig 16 a, dig 16 b) of (Some x, Some y) \<Rightarrow> Some (of_nat (x * 16 + y)) | _ \<Rightarrow> None)
   | _ \<Rightarrow> None)"

lemma unat_byte: "unat (b :: 8 word) < 256"
proof -
  have "unat b < 2 ^ LENGTH(8)" by (rule unsigned_less)
  then show ?thesis by simp
qed

lemma unhex_hex2 [simp]: "unhex (hex2 b) = Some b"
proof -
  have "unat b div 16 < 16" using unat_byte [of b] by simp
  then have "dig 16 (digc (unat b div 16)) = Some (unat b div 16)" by (simp add: dig_digc)
  moreover have "dig 16 (digc (unat b mod 16)) = Some (unat b mod 16)" by (simp add: dig_digc)
  moreover have "(of_nat (unat b div 16 * 16 + unat b mod 16) :: 8 word) = b"
    by (simp only: div_mult_mod_eq) simp
  ultimately show ?thesis by (simp add: unhex_def hex2_def)
qed

lemma hex2_word: "hex2 b \<noteq> []" "list_all (\<lambda>c. \<not> is_space c) (hex2 b)" "hex2 b \<noteq> ''value''"
proof -
  have "unat b div 16 < 16" using unat_byte [of b] by simp
  then have "is_hex (digc (unat b div 16))" "is_hex (digc (unat b mod 16))" by (simp_all add: digc_hex)
  then show "list_all (\<lambda>c. \<not> is_space c) (hex2 b)"
    by (simp add: hex2_def is_hex_is_word is_word_not_space)
qed (simp_all add: hex2_def)

lemma split_ws_join:
  "list_all (\<lambda>s. s \<noteq> [] \<and> list_all (\<lambda>c. \<not> is_space c) s) ws \<Longrightarrow> split_ws (join '' '' ws) = ws"
proof (induction "'' ''" ws rule: join.induct)
  case (2 x)
  then show ?case by (simp add: split_ws_def split_by_no list_all_iff)
next
  case (3 x y zs)
  have sp: "split_by is_space (x @ CHR '' '' # s) = x # split_by is_space s" for s
    using split_by_append [of x is_space "CHR '' ''" s] "3.prems" by (simp add: list_all_iff is_space_def)
  show ?case using 3 by (simp add: split_ws_def sp)
qed (simp_all add: split_ws_def)

lemma split_ws_hex_text [simp]: "split_ws (hex_text bs) = map hex2 bs"
  unfolding hex_text_def by (rule split_ws_join) (simp add: list_all_iff hex2_word [unfolded list_all_iff])

lemma zero_key_eq: "zero_key = hex_text (le_bytes 4 0)"
  by code_simp

section \<open>The maps in the kernel\<close>

text \<open>
  The specification the updates are measured against: the contents of every map, by
  identifier and key, after a list of events, when \<open>bpftool map update\<close> stores the value
  under the key, as its documentation says.
\<close>

type_synonym kernel_maps = "int \<Rightarrow> 8 word list \<Rightarrow> 8 word list option"

definition unhex_list :: "string list \<Rightarrow> 8 word list option" where
  "unhex_list ws = those (map unhex ws)"

fun map_update :: "event \<Rightarrow> (int \<times> 8 word list \<times> 8 word list) option" where
  "map_update (Ran (s # t # m # u # i # n # k # x # args)) =
     (if [m, u, i, k, x] = [''map'', ''update'', ''id'', ''key'', ''hex'']
      then (let ks = takeWhile (\<lambda>a. a \<noteq> ''value'') args
            in case (py_int 10 n, unhex_list ks, unhex_list (drop (length ks + 2) args)) of
                 (Some i, Some key, Some val) \<Rightarrow> Some (i, key, val)
               | _ \<Rightarrow> None)
      else None)"
| "map_update e = None"

definition store :: "event \<Rightarrow> kernel_maps \<Rightarrow> kernel_maps" where
  "store e m = (case map_update e of
     None \<Rightarrow> m | Some (i, key, val) \<Rightarrow> m(i := (m i)(key := Some val)))"

definition maps_after :: "event list \<Rightarrow> kernel_maps" where
  "maps_after es = fold store es (\<lambda>_ _. None)"

definition update_event :: "env \<Rightarrow> int \<Rightarrow> 8 word list \<Rightarrow> 8 word list \<Rightarrow> event" where
  "update_event h i key val = Ran ([''sudo'', h_bpftool h, ''map'', ''update'', ''id'', py_str i, ''key'', ''hex'']
     @ map hex2 key @ [''value'', ''hex''] @ map hex2 val)"

lemma those_map_Some: "those (map Some xs) = Some xs"
  by (induction xs) simp_all

lemma unhex_list_hex2 [simp]: "unhex_list (map hex2 bs) = Some bs"
  by (simp add: unhex_list_def comp_def those_map_Some)

lemma takeWhile_map_hex2: "takeWhile (\<lambda>a. a \<noteq> ''value'') (map hex2 key @ ''value'' # args) = map hex2 key"
  by (subst takeWhile_append2) (auto simp: hex2_word)

lemma map_update_event [simp]: "map_update (update_event h i key val) = Some (i, key, val)"
  by (simp add: update_event_def takeWhile_map_hex2 py_int_py_str Let_def)

lemma maps_after_update [simp]:
  "maps_after (es @ [update_event h i key val]) = (maps_after es)(i := (maps_after es i)(key := Some val))"
  by (simp add: maps_after_def store_def)


lemma update_map_by_id_run:
  "\<exists>ok. update_map_by_id i (hex_text key) (hex_text val) h w =
     (w\<lparr>events := events w @ [update_event h i key val]\<rparr>, Inr ok)"
  by (simp add: update_map_by_id_def sudo_bpftool_cmd_def io_simps update_event_def)

section \<open>Loading spans\<close>

lemma store_frame: "map_update e = Some (i, key, val) \<Longrightarrow> j \<noteq> i \<or> k \<noteq> key \<Longrightarrow>
  maps_after (es @ [e]) j k = maps_after es j k"
  by (auto simp: maps_after_def store_def)

definition span_event :: "env \<Rightarrow> int \<Rightarrow> nat \<times> int \<times> int \<Rightarrow> event" where
  "span_event h i = (\<lambda>(j, soff, eoff). update_event h i (le_bytes 4 (int j)) (le_bytes 8 soff @ le_bytes 8 eoff))"

definition u64 :: "int \<Rightarrow> bool" where
  "u64 v \<longleftrightarrow> 0 \<le> v \<and> v < 2 ^ 64"

lemma update_span_run:
  "j < 2 ^ 32 \<Longrightarrow> u64 s \<Longrightarrow> u64 e \<Longrightarrow>
   update_span i (j, s, e) h w = (w\<lparr>events := events w @ [span_event h i (j, s, e)]\<rparr>, Inr ())"
  using update_map_by_id_run [of i "le_bytes 4 (int j)" "le_bytes 8 s @ le_bytes 8 e" h w]
  by (auto simp: update_span_def pack_le_def u64_def span_event_def io_simps)

lemma update_length_run:
  "n < 2 ^ 32 \<Longrightarrow> update_length i n h w =
     (w\<lparr>events := events w @ [update_event h i (le_bytes 4 0) (le_bytes 4 (int n))]\<rparr>, Inr ())"
  using update_map_by_id_run [of i "le_bytes 4 0" "le_bytes 4 (int n)" h w]
  by (auto simp: update_length_def pack_le_def zero_key_eq io_simps)

lemma each_update_span:
  "k + length spans \<le> 2 ^ 32 \<Longrightarrow> list_all (\<lambda>(s, e). u64 s \<and> u64 e) spans \<Longrightarrow>
   each (update_span i) (enumerate k spans) h w =
     (w\<lparr>events := events w @ map (span_event h i) (enumerate k spans)\<rparr>, Inr ())"
proof (induction spans arbitrary: k w)
  case (Cons p spans)
  then show ?case by (cases p) (simp add: io_simps update_span_run)
qed (simp add: io_simps)

text \<open>The contents of the span map, by position.\<close>

lemma maps_after_spans:
  "k + length spans \<le> 2 ^ 32 \<Longrightarrow>
   (\<forall>j < length spans. maps_after (es @ map (span_event h i) (enumerate k spans)) i (le_bytes 4 (int (k + j)))
      = Some (le_bytes 8 (fst (spans ! j)) @ le_bytes 8 (snd (spans ! j)))) \<and>
   (\<forall>i' key. i' \<noteq> i \<or> (\<forall>j < length spans. key \<noteq> le_bytes 4 (int (k + j))) \<longrightarrow>
      maps_after (es @ map (span_event h i) (enumerate k spans)) i' key = maps_after es i' key)"
proof (induction spans arbitrary: k es)
  case (Cons p spans)
  let ?e = "span_event h i (k, p)"
  let ?es = "(es @ [?e]) @ map (span_event h i) (enumerate (Suc k) spans)"
  obtain s e where p: "p = (s, e)" by (cases p)
  have up: "map_update ?e = Some (i, le_bytes 4 (int k), le_bytes 8 s @ le_bytes 8 e)"
    by (simp add: span_event_def p)
  have ih: "\<forall>j < length spans. maps_after ?es i (le_bytes 4 (int (Suc k + j)))
        = Some (le_bytes 8 (fst (spans ! j)) @ le_bytes 8 (snd (spans ! j)))"
    "\<And>i' key. i' \<noteq> i \<or> (\<forall>j < length spans. key \<noteq> le_bytes 4 (int (Suc k + j))) \<Longrightarrow>
      maps_after ?es i' key = maps_after (es @ [?e]) i' key"
    using Cons.IH [of "Suc k" "es @ [?e]"] Cons.prems by auto
  have ne: "le_bytes 4 (int k) \<noteq> le_bytes 4 (int (Suc k + j))" if "j < length spans" for j
    using Cons.prems that by (subst le_codec.enc_eq_iff) auto
  have here: "maps_after (es @ [?e]) i (le_bytes 4 (int k)) = Some (le_bytes 8 s @ le_bytes 8 e)"
    by (simp add: span_event_def p)
  have eq: "es @ map (span_event h i) (enumerate k (p # spans)) = ?es" by simp
  show ?case unfolding eq
  proof (intro conjI allI impI)
    fix j assume j: "j < length (p # spans)"
    show "maps_after ?es i (le_bytes 4 (int (k + j)))
        = Some (le_bytes 8 (fst ((p # spans) ! j)) @ le_bytes 8 (snd ((p # spans) ! j)))"
    proof (cases j)
      case 0
      have "maps_after ?es i (le_bytes 4 (int k)) = maps_after (es @ [?e]) i (le_bytes 4 (int k))"
        by (rule ih(2)) (use ne in auto)
      with here 0 p show ?thesis by simp
    next
      case (Suc m)
      then show ?thesis using ih(1) j by simp
    qed
  next
    fix i' key assume a: "i' \<noteq> i \<or> (\<forall>j < length (p # spans). key \<noteq> le_bytes 4 (int (k + j)))"
    have "maps_after ?es i' key = maps_after (es @ [?e]) i' key"
    proof (rule ih(2))
      show "i' \<noteq> i \<or> (\<forall>j < length spans. key \<noteq> le_bytes 4 (int (Suc k + j)))"
        using a by (metis add_Suc_shift length_Cons Suc_less_eq add_Suc)
    qed
    also have "\<dots> = maps_after es i' key"
      by (rule store_frame [OF up]) (use a in auto)
    finally show "maps_after ?es i' key = maps_after es i' key" .
  qed
qed simp

definition span_order :: "int \<times> int \<Rightarrow> int \<times> int \<Rightarrow> bool" where
  "span_order p q \<longleftrightarrow> fst p < fst q \<or> fst p = fst q \<and> snd q \<le> snd p"

lemma sort_spans_sorted: "sorted_wrt span_order (sort_spans spans)"
proof -
  have "sorted (map (\<lambda>(s, e). (s, - e)) (sort_spans spans))"
    unfolding sort_spans_def by (rule sorted_sort_key)
  then show ?thesis
    unfolding sorted_map
    by (rule sorted_wrt_mono_rel [rotated]) (auto simp: span_order_def)
qed

lemma sort_spans_mset [simp]: "mset (sort_spans spans) = mset spans"
  by (simp add: sort_spans_def)

lemma sort_spans_length [simp]: "length (sort_spans spans) = length spans"
  by (simp add: sort_spans_def)

lemma sort_spans_list_all [simp]: "list_all P (sort_spans spans) = list_all P spans"
  by (simp add: sort_spans_def list_all_iff)


section \<open>The epoch counts up, and stops at its largest value\<close>

lemma py_int_hex2: "py_int 16 (''0x'' @ hex2 b) = Some (uint b)"
proof -
  define x y where "x = unat b div 16" and "y = unat b mod 16"
  have lt: "x < 16" "y < 16" using unat_byte [of b] by (simp_all add: x_def y_def)
  have h: "is_hex (digc x)" "is_hex (digc y)" using lt by (simp_all add: digc_hex)
  note ne = is_hex_chars [OF h(1)] is_hex_chars [OF h(2)]
  have s: "py_strip (''0x'' @ hex2 b) = ''0x'' @ hex2 b"
  proof (intro strip_id is_word_not_space)
    have "is_word (CHR ''0'')" "is_word (CHR ''x'')" by code_simp+
    then show "is_word c" if "c \<in> set (''0x'' @ hex2 b)" for c
      using that h by (auto simp: hex2_def x_def y_def is_hex_is_word)
  qed
  have d: "dig 16 (digc x) = Some x" "dig 16 (digc y) = Some y" using lt by (simp_all add: dig_digc)
  have hb: "hex2 b = [digc x, digc y]" by (simp add: hex2_def x_def y_def)
  have "py_nat 16 [digc x, digc y] = Some (x * 16 + y)"
    using ne d by (simp add: py_nat_def)
  moreover have "drop_hex_prefix (''0x'' @ hex2 b) = [digc x, digc y]"
    using ne by (auto simp: drop_hex_prefix_def hb Let_def)
  moreover have "int (x * 16 + y) = uint b"
    by (simp only: x_def y_def div_mult_mod_eq uint_nat)
  ultimately show ?thesis
    unfolding py_int_def s by (simp add: Let_def)
qed

lemma read_epoch_dump:
  "map_of d ''value'' = Some (JArr (map (\<lambda>b. JStr (''0x'' @ hex2 b)) (le_bytes 4 e))) \<Longrightarrow>
   0 \<le> e \<Longrightarrow> e < 2 ^ 32 \<Longrightarrow> read_epoch (JArr (JObj d # rest)) = Inr e"
proof -
  assume v: "map_of d ''value'' = Some (JArr (map (\<lambda>b. JStr (''0x'' @ hex2 b)) (le_bytes 4 e)))"
    and e: "0 \<le> e" "e < 2 ^ 32"
  have byte: "byte_of (JStr (''0x'' @ hex2 b)) = Inr (uint b)" for b
    using py_int_hex2 [of b] by (simp add: byte_of_def)
  have bytes: "mapr byte_of (map (\<lambda>b. JStr (''0x'' @ hex2 b)) bs) = Inr (map uint bs)" for bs
    by (induction bs) (simp_all add: byte del: append_Cons append_Nil)
  have range: "list_all (\<lambda>b. 0 \<le> b \<and> b < 256) (map uint (bs :: 8 word list))" for bs
  proof -
    have "uint (b :: 8 word) < 2 ^ LENGTH(8)" for b by (rule unsigned_less)
    then show ?thesis by (simp add: list_all_iff)
  qed
  have "epoch_of_bytes (map (\<lambda>b. JStr (''0x'' @ hex2 b)) (le_bytes 4 e)) = Inr (le_value (le_bytes 4 e))"
    using range [of "le_bytes 4 e"] by (simp only: epoch_of_bytes_def bytes bindr_simps if_True) (simp add: comp_def)
  also have "\<dots> = Inr e" using e by (simp add: le_value_le_bytes)
  finally have b: "epoch_of_bytes (map (\<lambda>b. JStr (''0x'' @ hex2 b)) (le_bytes 4 e)) = Inr e" .
  have f: "first_bytes (JArr xs) = Inr (Some xs)" if "length xs = 4" for xs
    using that by (cases xs) (simp_all add: first_bytes_def)
  have "first_bytes (JArr (map (\<lambda>b. JStr (''0x'' @ hex2 b)) (le_bytes 4 e)))
      = Inr (Some (map (\<lambda>b. JStr (''0x'' @ hex2 b)) (le_bytes 4 e)))"
    by (rule f) simp
  with b show ?thesis
    by (simp only: read_epoch_def first_entry_def map_entry_value_def dget_def v raw_bytes_def
        json_truthy.simps json.case list.case option.case bindr_simps list.distinct not_True_eq_False if_False simp_thms)
qed

definition dump_cmd :: "env \<Rightarrow> int \<Rightarrow> string list" where
  "dump_cmd h i = [''sudo'', h_bpftool h, ''-j'', ''map'', ''dump'', ''id'', py_str i]"

lemma dump_no_update: "map_update (Ran (dump_cmd h i)) = None"
  by (simp add: dump_cmd_def)

lemma maps_after_dump: "maps_after (es @ [Ran (dump_cmd h i)]) = maps_after es"
  by (simp add: maps_after_def store_def dump_no_update)

lemma maps_after_update2 [simp]: "maps_after (es @ [e, update_event h i key val]) =
    (maps_after (es @ [e]))(i := (maps_after (es @ [e]) i)(key := Some val))"
  using maps_after_update [of "es @ [e]" h i key val] by simp

lemma bump_epoch_run:
  assumes id: "map_of map_info ''.bss.xk_epoch'' = Some i"
    and epoch: "current_epoch (h_run h (events w) (dump_cmd h i)) = Inr e"
  shows "0 \<le> e + 1 \<Longrightarrow> e + 1 < 2 ^ 32 \<Longrightarrow> \<exists>ok. bump_epoch const_id map_info h w =
      (w\<lparr>events := events w @ [Ran (dump_cmd h i), update_event h i (le_bytes 4 0) (le_bytes 4 (e + 1))]\<rparr>, Inr ok)"
    and "e + 1 \<ge> 2 ^ 32 \<Longrightarrow> bump_epoch const_id map_info h w =
      (w\<lparr>events := events w @ [Ran (dump_cmd h i)]\<rparr>, Inl StructError)"
proof -
  let ?w = "w\<lparr>events := events w @ [Ran (dump_cmd h i)]\<rparr>"
  have step: "bump_epoch const_id map_info h w = set_bss_variable map_info ''.bss.xk_epoch'' (e + 1) h ?w"
    using epoch by (simp add: bump_epoch_def id sudo_bpftool_cmd_def io_simps dump_cmd_def)
  show "\<exists>ok. bump_epoch const_id map_info h w =
      (w\<lparr>events := events w @ [Ran (dump_cmd h i), update_event h i (le_bytes 4 0) (le_bytes 4 (e + 1))]\<rparr>, Inr ok)"
    if "0 \<le> e + 1" "e + 1 < 2 ^ 32"
    using that update_map_by_id_run [of i "le_bytes 4 0" "le_bytes 4 (e + 1)" h ?w]
    unfolding step by (simp add: set_bss_variable_def id pack_le_def zero_key_eq)
  show "bump_epoch const_id map_info h w = (?w, Inl StructError)" if "e + 1 \<ge> 2 ^ 32"
    using that unfolding step by (simp add: set_bss_variable_def id pack_le_def io_simps)
qed

text \<open>C33: the epoch is read from bpftool's dump and the next one is written, as long as it fits
  in 32 bits; after the largest epoch the packing raises an error and the map keeps its value.\<close>

theorem epoch_bumped:
  assumes id: "map_of map_info ''.bss.xk_epoch'' = Some i"
    and out: "h_run h (events w) (dump_cmd h i) = (0, out)" "py_strip out \<noteq> []"
    and json: "json_loads out = Some (JArr (JObj d # rest))"
      "map_of d ''value'' = Some (JArr (map (\<lambda>b. JStr (''0x'' @ hex2 b)) (le_bytes 4 e)))"
    and e: "0 \<le> e" "e < 2 ^ 32"
  shows "\<exists>w' r. bump_epoch const_id map_info h w = (w', r) \<and>
    (if e + 1 < 2 ^ 32
     then (\<exists>ok. r = Inr ok) \<and> maps_after (events w') i (le_bytes 4 0) = Some (le_bytes 4 (e + 1))
     else r = Inl StructError \<and> maps_after (events w') = maps_after (events w))"
proof -
  have c: "current_epoch (h_run h (events w) (dump_cmd h i)) = Inr e"
    using out json e by (simp add: current_epoch_def read_epoch_dump)
  show ?thesis
  proof (cases "e + 1 < 2 ^ 32")
    case True
    let ?es = "(events w @ [Ran (dump_cmd h i)]) @ [update_event h i (le_bytes 4 0) (le_bytes 4 (e + 1))]"
    obtain ok where "bump_epoch const_id map_info h w = (w\<lparr>events := ?es\<rparr>, Inr ok)"
      using bump_epoch_run(1) [OF id c, of const_id] e True by auto
    then show ?thesis using True by (intro exI [of _ "w\<lparr>events := ?es\<rparr>"] exI [of _ "Inr ok"]) simp
  next
    case False
    then show ?thesis using bump_epoch_run(2) [OF id c] by (auto simp: maps_after_dump)
  qed
qed

text \<open>When the dump cannot be read the epoch restarts at 1, whatever it was.\<close>

lemma epoch_restarts:
  assumes "map_of map_info ''.bss.xk_epoch'' = Some i" "fst (h_run h (events w) (dump_cmd h i)) \<noteq> 0"
  shows "\<exists>w' ok. bump_epoch const_id map_info h w = (w', Inr ok) \<and>
    maps_after (events w') i (le_bytes 4 0) = Some (le_bytes 4 1)"
proof -
  have "current_epoch (h_run h (events w) (dump_cmd h i)) = Inr 0"
    using assms by (simp add: current_epoch_def)
  from bump_epoch_run(1) [OF assms(1) this]
  have "\<exists>ok. bump_epoch const_id map_info h w =
      (w\<lparr>events := (events w @ [Ran (dump_cmd h i)]) @ [update_event h i (le_bytes 4 0) (le_bytes 4 1)]\<rparr>, Inr ok)"
    by simp
  then show ?thesis by (auto simp del: append_assoc)
qed

definition sample_dump :: string where
  "sample_dump = ''[{'' @ [DQ] @ ''key'' @ [DQ] @ '':['' @ [DQ] @ ''0x00'' @ [DQ] @ ''],'' @ [DQ] @ ''value'' @ [DQ]
     @ '':['' @ [DQ] @ ''0xff'' @ [DQ] @ '','' @ [DQ] @ ''0x00'' @ [DQ] @ '','' @ [DQ] @ ''0x00'' @ [DQ] @ '',''
     @ [DQ] @ ''0x00'' @ [DQ] @ '']}]''"

definition sample_env :: env where
  "sample_env = \<lparr>h_run = (\<lambda>es c. (0, sample_dump)), h_exists = (\<lambda>es p. True), h_listdir = (\<lambda>es p. []), h_unremovable = (\<lambda>es p. False),
     h_bpftool = ''bpftool'', h_late = (\<lambda>es. False)\<rparr>"

definition empty_world :: world where
  "empty_world = \<lparr>events = [], files = (\<lambda>p. None)\<rparr>"

lemma sample_dump_json: "json_loads sample_dump =
  Some (JArr [JObj [(''key'', JArr [JStr ''0x00'']), (''value'', JArr (map (\<lambda>b. JStr (''0x'' @ hex2 b)) (le_bytes 4 255)))]])"
  by code_simp

lemma epoch_bumped_witness: "\<exists>w' r. bump_epoch ''7'' [(''.bss.xk_epoch'', 9)] sample_env empty_world = (w', r) \<and>
  (\<exists>ok. r = Inr ok) \<and> maps_after (events w') 9 (le_bytes 4 0) = Some (le_bytes 4 256)"
proof -
  have "py_strip sample_dump \<noteq> []" by code_simp
  from epoch_bumped [of "[(''.bss.xk_epoch'', 9)]" 9 sample_env empty_world sample_dump _ _ 255 "''7''",
      OF _ _ this sample_dump_json]
  show ?thesis by (simp add: sample_env_def)
qed

definition sample_spans :: string where
  "sample_spans = ''f,0x40,0x8,0x10'' @ [NL] @ ''g,0x40,0x4,0x20'' @ [NL]"


end
