(* ===== verification/Bpf_Loader.thy ===== *)
theory Bpf_Loader
  imports Bpf_Maps Kcore_Translate
begin

text \<open>
  Loading and unloading BPF programs (\<open>src/src/loader.py\<close>): the runtime state, a JSON file
  under \<open>/dev/shm/xkernel\<close>, the kernel modules, compiling and attaching the programs of a
  constant, and the generated header with the guard kprobes of the safe spans.
\<close>

definition CS_PATH :: string where
  "CS_PATH = ''/dev/shm/xkernel/cs''"

definition RUNTIME_STATE_PATH :: string where
  "RUNTIME_STATE_PATH = ''/dev/shm/xkernel/runtime_state''"

section \<open>Guard kprobes of safe spans\<close>

definition quoted :: "string \<Rightarrow> string" where
  "quoted s = [DQ] @ s @ [DQ]"

definition kprobe_place :: "string \<Rightarrow> int \<Rightarrow> string" where
  "kprobe_place func_name off = func_name @ ''+'' @ hex0x off"

definition kprobe_sec :: "string \<Rightarrow> int \<Rightarrow> string" where
  "kprobe_sec func_name off =
     ''kprobe/'' @ (if off \<noteq> 0 then kprobe_place func_name off else func_name)"

definition guard_lines :: "string \<times> int \<times> int \<Rightarrow> string list" where
  "guard_lines = (\<lambda>(func_name, soff, eoff).
     [''// Guard: '' @ kprobe_place func_name soff @ '' (SS entry)'',
      ''SEC('' @ quoted (kprobe_sec func_name soff) @ '')'',
      ''int BPF_KPROBE(__xk_guard_'' @ func_name @ ''_'' @ hex_of soff @ '') {'',
      ''    ss_guard_handler(ctx);'', ''    return 0;'', ''}'', [],
      ''// Unguard: '' @ kprobe_place func_name eoff @ '' (SS exit)'',
      ''SEC('' @ quoted (kprobe_sec func_name eoff) @ '')'',
      ''int BPF_KPROBE(__xk_unguard_'' @ func_name @ ''_'' @ hex_of eoff @ '') {'',
      ''    ss_unguard_handler(ctx);'', ''    return 0;'', ''}'', []])"

fun guard_entries :: "string list \<Rightarrow> (string \<times> int \<times> int) list res" where
  "guard_entries [] = Inr []"
| "guard_entries (line # lines) =
     (let parts = split_on (CHR '','') line
      in if length parts < 4 then guard_entries lines
         else bindr (or_value_error (py_int 16 (parts ! 2))) (\<lambda>soff.
           bindr (or_value_error (py_int 16 (parts ! 3))) (\<lambda>eoff.
           bindr (guard_entries lines) (\<lambda>rest.
             Inr (if soff = eoff then rest else (parts ! 0, soff, eoff) # rest)))))"

definition empty_header :: string where
  "empty_header = join [NL] [''// Empty cs_artifact.bpf.h - no spans defined'',
     ''#ifndef __CS_ARTIFACT_BPF_H__'', ''#define __CS_ARTIFACT_BPF_H__'', ''#endif'', []]"

definition artifact_text :: "(string \<times> int \<times> int) list \<Rightarrow> string" where
  "artifact_text span_entries = join [NL]
     ([''#ifndef __CS_ARTIFACT_BPF_H__'', ''#define __CS_ARTIFACT_BPF_H__'', [],
       ''#include '' @ quoted ''xkernel.bpf.h'', []]
      @ concat (map guard_lines span_entries) @ [''#endif'', []])"

definition generate_cs_artifact_header :: "string \<Rightarrow> string \<Rightarrow> unit io" where
  "generate_cs_artifact_header spans_path output_path =
     bindio (file_text spans_path) (\<lambda>f. case f of
       None \<Rightarrow> write_file output_path empty_header
     | Some text \<Rightarrow>
         if span_lines text = [] then write_file output_path empty_header
         else bindio (lift (guard_entries (span_lines text))) (\<lambda>span_entries.
           write_file output_path (artifact_text span_entries)))"

section \<open>Compiling and attaching\<close>

definition drop_last :: "nat \<Rightarrow> string \<Rightarrow> string" where
  "drop_last n s = take (length s - n) s"

definition clang_cmd :: "string \<Rightarrow> string \<Rightarrow> string \<Rightarrow> string list" where
  "clang_cmd bpf_dir src obj =
     [''clang'', ''-g'', ''-O2'', ''-target'', ''bpf'', ''-D__TARGET_ARCH_x86'', ''-I'' @ bpf_dir,
      ''-I/usr/include/bpf'', ''-c'', src, ''-o'', obj]"

text \<open>A stale object file of another user is removed first.\<close>

definition compile_single_bpf :: "string \<Rightarrow> string \<Rightarrow> string option io" where
  "compile_single_bpf bpf_c_path bpf_dir =
     (let obj = drop_last 2 bpf_c_path @ ''.o''
      in bindio (ask (\<lambda>h es. h_unremovable h es obj)) (\<lambda>stale.
           seqio (if stale then run_ignored [''sudo'', ''rm'', ''-f'', obj] else ret ())
           (bindio (run (clang_cmd bpf_dir bpf_c_path obj)) (\<lambda>(code, out).
             ret (if code \<noteq> 0 then None else Some obj)))))"

fun compile_all :: "string \<Rightarrow> string \<Rightarrow> string list \<Rightarrow> bool \<Rightarrow> bool io" where
  "compile_all bpf_dir stubs_dir [] success = ret success"
| "compile_all bpf_dir stubs_dir (fname # fnames) success =
     (if \<not> ends_with ''.bpf.c'' fname then compile_all bpf_dir stubs_dir fnames success
      else let src = path_join stubs_dir fname
        in bindio (run (clang_cmd bpf_dir src (drop_last 2 src @ ''.o''))) (\<lambda>(code, out).
             compile_all bpf_dir stubs_dir fnames (success \<and> code = 0)))"

definition compile_bpf_programs :: "string \<Rightarrow> bool io" where
  "compile_bpf_programs bpf_dir =
     (let stubs_dir = path_join bpf_dir ''stubs''
      in bindio (ask (\<lambda>h es. (h_exists h es stubs_dir, h_listdir h es stubs_dir))) (\<lambda>(isdir, names).
           if isdir then compile_all bpf_dir stubs_dir (sort names) True else ret False))"

fun attach_all :: "(string \<Rightarrow> string list) \<Rightarrow> string list \<Rightarrow> int io" where
  "attach_all args [] = ret 0"
| "attach_all args (bpf_file # bpf_files) =
     bindio (ask (\<lambda>h es. h_exists h es bpf_file)) (\<lambda>ex.
       if \<not> ex then ret 1
       else bindio (sudo_bpftool_cmd (args bpf_file)) (\<lambda>cmd.
         bindio (run cmd) (\<lambda>(code, out).
           if code \<noteq> 0 then ret code else attach_all args bpf_files)))"

definition load_and_attach :: "string list \<Rightarrow> bool \<Rightarrow> int io" where
  "load_and_attach bpf_files pin =
     seqio (if pin then run_ignored [''sudo'', ''mkdir'', ''-p'', BPF_PIN_BASE] else ret ())
       (attach_all (\<lambda>f. [''prog'', ''loadall'', f, BPF_PIN_BASE, ''autoattach'']) bpf_files)"

definition constid_dir :: "string \<Rightarrow> string" where
  "constid_dir const_id = BPF_PIN_BASE @ ''/'' @ const_id"

definition load_and_attach_per_constid ::
    "string list \<Rightarrow> string \<Rightarrow> int \<Rightarrow> (int \<times> (string, int) dict) io" where
  "load_and_attach_per_constid bpf_files const_id mode =
     (let progs_dir = constid_dir const_id @ ''/progs'';
          maps_dir = constid_dir const_id @ ''/maps''
      in seqio (run_ignored [''sudo'', ''mkdir'', ''-p'', progs_dir])
        (seqio (run_ignored [''sudo'', ''mkdir'', ''-p'', maps_dir])
        (bindio snapshot_map_ids (\<lambda>maps_before.
         bindio (attach_all (\<lambda>f. [''prog'', ''loadall'', f, progs_dir, ''autoattach'', ''pinmaps'', maps_dir])
           bpf_files) (\<lambda>code.
         if code \<noteq> 0 then ret (code, [])
         else bindio snapshot_map_ids (\<lambda>maps_after.
         bindio (resolve_map_names (filter (\<lambda>i. i \<notin> set maps_before) maps_after)) (\<lambda>map_info.
         bindio (set_bss_variable map_info ''.bss.xk_mode'' mode) (\<lambda>_.
         seqio (if mode = 0
             then bindio (set_bss_variable map_info ''.bss.xk_active'' 1) (\<lambda>_. ret ()) else ret ())
           (ret (0, map_info))))))))))"

section \<open>The runtime state\<close>

definition fresh_state :: json where
  "fresh_state = JObj [(''kfuncs_loaded'', JBool False), (''active_const_ids'', JObj [])]"

definition get_runtime_state :: "json io" where
  "get_runtime_state = bindio (file_text RUNTIME_STATE_PATH) (\<lambda>f. ret (case f of
     None \<Rightarrow> fresh_state
   | Some text \<Rightarrow> (case json_loads text of None \<Rightarrow> fresh_state | Some v \<Rightarrow> v)))"

definition save_runtime_state :: "json \<Rightarrow> unit io" where
  "save_runtime_state state = write_file RUNTIME_STATE_PATH (json_dumps 2 state)"

text \<open>\<open>j[k]\<close>, \<open>j[k] = v\<close>, \<open>j.get(k, v)\<close>, \<open>k in j\<close> and \<open>j.pop(k, None)\<close>, on any value.\<close>

definition item :: "json \<Rightarrow> string \<Rightarrow> json res" where
  "item j k = (case j of
     JObj d \<Rightarrow> (case map_of d k of None \<Rightarrow> Inl KeyError | Some v \<Rightarrow> Inr v)
   | _ \<Rightarrow> Inl TypeError)"

definition set_item :: "json \<Rightarrow> string \<Rightarrow> json \<Rightarrow> json res" where
  "set_item j k v = (case j of JObj d \<Rightarrow> Inr (JObj (dput k v d)) | _ \<Rightarrow> Inl TypeError)"

definition get_item :: "json \<Rightarrow> string \<Rightarrow> json \<Rightarrow> json res" where
  "get_item j k v = (case j of JObj d \<Rightarrow> Inr (dget d k v) | _ \<Rightarrow> Inl AttributeError)"

definition in_json :: "string \<Rightarrow> json \<Rightarrow> bool res" where
  "in_json k j = (case j of
     JObj d \<Rightarrow> Inr (has_key d k)
   | JArr xs \<Rightarrow> Inr (JStr k \<in> set xs)
   | JStr s \<Rightarrow> Inr (contains k s)
   | _ \<Rightarrow> Inl TypeError)"

definition pop_item :: "json \<Rightarrow> string \<Rightarrow> json res" where
  "pop_item j k = (case j of
     JObj d \<Rightarrow> Inr (JObj (dpop k d)) | JArr xs \<Rightarrow> Inl TypeError | _ \<Rightarrow> Inl AttributeError)"

definition unload_constid :: "string \<Rightarrow> bool io" where
  "unload_constid const_id =
     bindio (run [''sudo'', ''rm'', ''-rf'', constid_dir const_id]) (\<lambda>(code, out).
       if code \<noteq> 0 then ret False
       else bindio get_runtime_state (\<lambda>state.
         bindio (lift (bindr (item state ''active_const_ids'') (\<lambda>active.
           bindr (pop_item active const_id) (\<lambda>rest. set_item state ''active_const_ids'' rest)))) (\<lambda>state'.
         seqio (save_runtime_state state') (ret True))))"

section \<open>Kernel modules\<close>

definition module_loaded :: "string \<Rightarrow> bool io" where
  "module_loaded name = bindio (run [''lsmod'']) (\<lambda>(code, out).
     ret (code = 0 \<and> list_ex (starts_with (name @ '' '')) (splitlines out)))"

definition is_kfuncs_loaded :: "bool io" where
  "is_kfuncs_loaded = module_loaded ''xk_kfuncs''"

definition is_consistency_loaded :: "bool io" where
  "is_consistency_loaded = module_loaded ''xk_consistency''"

text \<open>
  A module that is not there is built first; the number of processors in make's \<open>-j\<close> is a
  parameter of the command.
\<close>

definition build_module :: "string \<Rightarrow> string \<Rightarrow> string \<Rightarrow> bool io" where
  "build_module jobs ko_path dir =
     bindio (ask (\<lambda>h es. h_exists h es ko_path)) (\<lambda>ex.
       if ex then ret True
       else bindio (run [''make'', ''-j'' @ jobs]) (\<lambda>(code, out).
         bindio (ask (\<lambda>h es. h_exists h es ko_path)) (\<lambda>ex'. ret (code = 0 \<and> ex'))))"

definition ensure_kfuncs_loaded :: "string \<Rightarrow> string \<Rightarrow> bool io" where
  "ensure_kfuncs_loaded jobs project_root =
     bindio is_kfuncs_loaded (\<lambda>loaded.
       if loaded then ret True
       else let kfuncs_dir = path_join (path_join project_root ''kernel'') ''kfuncs'';
                kfuncs_path = path_join kfuncs_dir ''xk-kfuncs.ko''
         in bindio (build_module jobs kfuncs_path kfuncs_dir) (\<lambda>built.
           if \<not> built then ret False
           else bindio (run [''sudo'', ''insmod'', kfuncs_path]) (\<lambda>(code, out).
             if code \<noteq> 0 then ret False
             else bindio get_runtime_state (\<lambda>state.
               bindio (lift (set_item state ''kfuncs_loaded'' (JBool True))) (\<lambda>state'.
               seqio (save_runtime_state state') (ret True))))))"

end
