(* ===== verification/Jump_Opt.thy ===== *)
theory Jump_Opt
  imports Bpf_Loader Bpf_Gen
begin

text \<open>
  Moving kprobes to places where the kernel can patch in a jump
  (\<open>try_jump_optimization\<close> of \<open>src/src/loader.py\<close>): each candidate offset of a kprobe is
  written into the policy source, compiled, loaded and looked up in the kernel's list of
  kprobes, and the first optimised one is kept.
\<close>

section \<open>The kernel's answer\<close>

text \<open>The first line that names the function and the offset; both are searched as substrings.\<close>

definition optimized_line :: "string \<Rightarrow> int \<Rightarrow> string list \<Rightarrow> bool" where
  "optimized_line func_name offset lines =
     (case find (\<lambda>l. contains func_name l \<and> contains (''+'' @ hex0x offset) l) lines of
        None \<Rightarrow> False
      | Some l \<Rightarrow> contains ''[OPTIMIZED]'' l)"

definition check_kprobe_optimized :: "string \<Rightarrow> int \<Rightarrow> bool io" where
  "check_kprobe_optimized func_name offset =
     seqio (sleep 500)
       (bindio (run [''sudo'', ''cat'', ''/sys/kernel/debug/kprobes/list'']) (\<lambda>(code, out).
          ret (code = 0 \<and> optimized_line func_name offset (splitlines out))))"

section \<open>Rewriting an offset\<close>

definition safe_func :: "string \<Rightarrow> string" where
  "safe_func f = map (\<lambda>c. if c = CHR ''.'' \<or> c = CHR ''-'' then CHR ''_'' else c) f"

definition sec_text :: "string \<Rightarrow> int \<Rightarrow> string" where
  "sec_text f offset = ''SEC('' @ quoted (''kprobe/'' @ f @ ''+'' @ hex0x offset) @ '')''"

definition probe_text :: "string \<Rightarrow> int \<Rightarrow> string" where
  "probe_text f offset = ''BPF_KPROBE('' @ safe_func f @ ''_'' @ hex0x offset @ '')''"

definition xtune_text :: "string \<Rightarrow> int \<Rightarrow> string" where
  "xtune_text f offset = ''('' @ f @ '', '' @ quoted (''+'' @ hex0x offset) @ '')''"

definition patched :: "string \<Rightarrow> int \<Rightarrow> int \<Rightarrow> string \<Rightarrow> string" where
  "patched f old_offset new_offset content =
     py_replace (xtune_text f old_offset) (xtune_text f new_offset)
       (py_replace (probe_text f old_offset) (probe_text f new_offset)
         (py_replace (sec_text f old_offset) (sec_text f new_offset) content))"

definition patch_bpf_sec_offset :: "string \<Rightarrow> string \<Rightarrow> int \<Rightarrow> int \<Rightarrow> unit io" where
  "patch_bpf_sec_offset bpf_c_path func_name old_offset new_offset =
     bindio (read_file bpf_c_path) (\<lambda>content.
       write_file bpf_c_path (patched func_name old_offset new_offset content))"

section \<open>Finding the candidates\<close>

definition rx_candidates :: rx where
  "rx_candidates = seqs [lit ''// Candidates:'', Many 0 is_space, Grp 1 (Many 1 dot)]"

definition rx_sec :: rx where
  "rx_sec = seqs [lit (''SEC('' @ [DQ] @ ''kprobe/''), Grp 1 (Many 1 (not_of [DQ])), lit ''+0x'',
     Grp 2 (Many 1 is_hex), lit ([DQ] @ '')'')]"

definition rx_xtune :: rx where
  "rx_xtune = seqs [lit ''X_TUNE_'', Many 1 is_digit, lit ''('', Grp 1 (Many 1 is_word), lit '','',
     Many 0 is_space, lit ([DQ] @ ''+0x''), Grp 2 (Many 1 is_hex), lit ([DQ] @ '')'')]"

record candidate_kprobe =
  cd_func_name :: string
  cd_current_offset :: int
  cd_candidates :: "int list"

fun place_line :: "string list \<Rightarrow> (string \<times> int) option res" where
  "place_line [] = Inr None"
| "place_line (line # lines) =
     (case (case re_match rx_sec (py_strip line) of
              Some r \<Rightarrow> Some r | None \<Rightarrow> re_match rx_xtune (py_strip line)) of
        None \<Rightarrow> place_line lines
      | Some (g, _) \<Rightarrow> bindr (or_value_error (py_int 16 (group g 2))) (\<lambda>off. Inr (Some (group g 1, off))))"

fun candidate_kprobes :: "string list \<Rightarrow> candidate_kprobe list res" where
  "candidate_kprobes [] = Inr []"
| "candidate_kprobes (line # lines) =
     (case re_match rx_candidates (py_strip line) of
        None \<Rightarrow> candidate_kprobes lines
      | Some (g, _) \<Rightarrow>
          bindr (mapr (\<lambda>c. or_value_error (py_int 16 (py_strip c))) (split_on (CHR '','') (py_strip (group g 1)))) (\<lambda>cs.
          bindr (place_line (take 4 lines)) (\<lambda>p.
          bindr (candidate_kprobes lines) (\<lambda>rest.
            Inr (case p of None \<Rightarrow> rest
              | Some (f, off) \<Rightarrow>
                  \<lparr>cd_func_name = f, cd_current_offset = off, cd_candidates = cs\<rparr> # rest)))))"

section \<open>Trying the candidates\<close>

definition test_pin_dir :: string where
  "test_pin_dir = ''/sys/fs/bpf/xkernel_jumpopt_test''"

definition remove_test_pins :: "unit io" where
  "remove_test_pins = run_ignored [''sudo'', ''rm'', ''-rf'', test_pin_dir]"

text \<open>One candidate that is already in the source: does it compile, load and get optimised?\<close>

definition try_candidate :: "string \<Rightarrow> string \<Rightarrow> string \<Rightarrow> int \<Rightarrow> bool io" where
  "try_candidate bpf_c_path bpf_dir func_name cand =
     bindio (compile_single_bpf bpf_c_path bpf_dir) (\<lambda>obj. case obj of
       None \<Rightarrow> ret False
     | Some obj \<Rightarrow>
         seqio (run_ignored [''sudo'', ''mkdir'', ''-p'', test_pin_dir])
         (bindio (sudo_bpftool_cmd [''prog'', ''loadall'', obj, test_pin_dir, ''autoattach'']) (\<lambda>cmd.
          bindio (run cmd) (\<lambda>(code, out).
            if code \<noteq> 0 then seqio remove_test_pins (ret False)
            else bindio (check_kprobe_optimized func_name cand) (\<lambda>optimized.
              seqio remove_test_pins (seqio (sleep 300) (ret optimized)))))))"

text \<open>The offset the source is left with, and the optimised candidate if there is one.\<close>

fun try_candidates :: "string \<Rightarrow> string \<Rightarrow> string \<Rightarrow> int \<Rightarrow> int list \<Rightarrow> (int \<times> int option) io" where
  "try_candidates bpf_c_path bpf_dir func_name current [] = ret (current, None)"
| "try_candidates bpf_c_path bpf_dir func_name current (cand # cands) =
     seqio (if cand \<noteq> current then patch_bpf_sec_offset bpf_c_path func_name current cand else ret ())
     (bindio (try_candidate bpf_c_path bpf_dir func_name cand) (\<lambda>optimized.
        if optimized then ret (cand, Some cand)
        else try_candidates bpf_c_path bpf_dir func_name cand cands))"

definition optimize_kprobe :: "string \<Rightarrow> string \<Rightarrow> candidate_kprobe \<Rightarrow> bool io" where
  "optimize_kprobe bpf_c_path bpf_dir kp =
     (if length (cd_candidates kp) \<le> 1 then ret False
      else bindio (try_candidates bpf_c_path bpf_dir (cd_func_name kp) (cd_current_offset kp) (cd_candidates kp))
        (\<lambda>(current, found).
          let best = (case found of None \<Rightarrow> cd_current_offset kp | Some c \<Rightarrow> c)
          in seqio (if current \<noteq> best
               then patch_bpf_sec_offset bpf_c_path (cd_func_name kp) current best else ret ())
             (ret (found \<noteq> None))))"

fun optimize_kprobes :: "string \<Rightarrow> string \<Rightarrow> candidate_kprobe list \<Rightarrow> bool \<Rightarrow> bool io" where
  "optimize_kprobes bpf_c_path bpf_dir [] any_optimized = ret any_optimized"
| "optimize_kprobes bpf_c_path bpf_dir (kp # kps) any_optimized =
     bindio (optimize_kprobe bpf_c_path bpf_dir kp) (\<lambda>b.
       optimize_kprobes bpf_c_path bpf_dir kps (any_optimized \<or> b))"

definition backup_suffix :: string where
  "backup_suffix = ''.jumpopt_backup''"

definition try_jump_optimization :: "string \<Rightarrow> string \<Rightarrow> bool io" where
  "try_jump_optimization bpf_c_path bpf_dir =
     bindio (file_text bpf_c_path) (\<lambda>f. case f of
       None \<Rightarrow> ret False
     | Some original \<Rightarrow>
         bindio (lift (candidate_kprobes (readlines original))) (\<lambda>kprobes.
           if kprobes = [] then ret False
           else let backup_path = bpf_c_path @ backup_suffix
             in seqio (write_file backup_path original)
               (bindio (optimize_kprobes bpf_c_path bpf_dir kprobes False) (\<lambda>any_optimized.
                bindio (compile_single_bpf bpf_c_path bpf_dir) (\<lambda>obj.
                seqio (if obj = None
                    then bindio (read_file backup_path) (\<lambda>restored.
                      seqio (write_file bpf_c_path restored)
                        (bindio (compile_single_bpf bpf_c_path bpf_dir) (\<lambda>_. ret ())))
                    else ret ())
                (seqio (remove_file backup_path)
                (seqio remove_test_pins (ret any_optimized))))))))"

end
