(* ===== verification/Lifecycle.thy ===== *)
theory Lifecycle
  imports Jump_Opt Table_Manager
begin

text \<open>
  The life of a tunable in a running kernel (\<open>src/src/cli.py\<close>): \<open>load\<close> and \<open>unload\<close> with
  their three modes, the status column of the scope table, and the span files written for a
  load. The scope table and the runtime state are files of the world; modules, pins and maps
  are changed by the commands that are run.
\<close>

definition SCOPE_TABLE :: string where "SCOPE_TABLE = ''/dev/shm/xkernel/scope_table''"
definition CS_RAW :: string where "CS_RAW = ''/dev/shm/xkernel/cs_raw''"
definition CS_FILE :: string where "CS_FILE = ''/dev/shm/xkernel/cs''"
definition SS_RAW :: string where "SS_RAW = ''/dev/shm/xkernel/ss_raw''"
definition SS_FILE :: string where "SS_FILE = ''/dev/shm/xkernel/ss''"

section \<open>The status column\<close>

definition fields_of :: "string \<Rightarrow> string list" where
  "fields_of line = split_on TAB (rstrip_by (\<lambda>c. c = NL) line)"

text \<open>\<open>header.index(name)\<close>, with \<open>None\<close> for the \<open>ValueError\<close>.\<close>

fun index_of :: "'a \<Rightarrow> 'a list \<Rightarrow> nat option" where
  "index_of x [] = None"
| "index_of x (y # ys) = (if x = y then Some 0 else map_option Suc (index_of x ys))"

definition status_line :: "(string list \<Rightarrow> bool) \<Rightarrow> nat \<Rightarrow> string \<Rightarrow> string \<Rightarrow> string" where
  "status_line sel st_col new_status line =
     (let fields = fields_of line
      in join [TAB] (if sel fields then fields[st_col := new_status] else fields) @ [NL])"

definition update_status_text :: "string \<Rightarrow> string \<Rightarrow> string \<Rightarrow> string option" where
  "update_status_text const_id new_status text = (case readlines text of
     [] \<Rightarrow> None
   | header_line # lines \<Rightarrow>
       (case (index_of ''ConstID'' (fields_of header_line), index_of ''Status'' (fields_of header_line)) of
          (Some cid_col, Some st_col) \<Rightarrow>
            Some (header_line @ concat (map (status_line
              (\<lambda>fields. max cid_col st_col < length fields \<and> fields ! cid_col = const_id) st_col new_status) lines))
        | _ \<Rightarrow> None))"

definition update_status :: "string \<Rightarrow> string \<Rightarrow> unit io" where
  "update_status const_id new_status =
     bindio (file_text SCOPE_TABLE) (\<lambda>f. case f of
       None \<Rightarrow> ret ()
     | Some text \<Rightarrow> optional (write_file SCOPE_TABLE) (update_status_text const_id new_status text))"

definition update_status_by_file_text :: "string \<Rightarrow> string \<Rightarrow> string \<Rightarrow> string option" where
  "update_status_by_file_text bpf_file new_status text = (case readlines text of
     [] \<Rightarrow> None
   | header_line # lines \<Rightarrow>
       (case (index_of ''BPF_File'' (fields_of header_line), index_of ''Status'' (fields_of header_line)) of
          (Some bf_col, Some st_col) \<Rightarrow>
            Some (header_line @ concat (map (status_line
              (\<lambda>fields. max bf_col st_col < length fields \<and> fields ! bf_col = bpf_file) st_col new_status) lines))
        | _ \<Rightarrow> None))"

definition update_status_by_file :: "string \<Rightarrow> string \<Rightarrow> unit io" where
  "update_status_by_file bpf_file new_status =
     bindio (file_text SCOPE_TABLE) (\<lambda>f. case f of
       None \<Rightarrow> ret ()
     | Some text \<Rightarrow> optional (write_file SCOPE_TABLE) (update_status_by_file_text bpf_file new_status text))"

definition update_all_status_text :: "string \<Rightarrow> string \<Rightarrow> string option" where
  "update_all_status_text new_status text = (case readlines text of
     [] \<Rightarrow> None
   | header_line # lines \<Rightarrow>
       (case index_of ''Status'' (fields_of header_line) of
          None \<Rightarrow> None
        | Some st_col \<Rightarrow> Some (header_line @ concat (map (status_line
            (\<lambda>fields. st_col < length fields) st_col new_status) lines))))"

definition update_all_status :: "string \<Rightarrow> unit io" where
  "update_all_status new_status =
     bindio (file_text SCOPE_TABLE) (\<lambda>f. case f of
       None \<Rightarrow> ret ()
     | Some text \<Rightarrow> optional (write_file SCOPE_TABLE) (update_all_status_text new_status text))"

fun bpf_file_of :: "string \<Rightarrow> nat \<Rightarrow> nat \<Rightarrow> string list \<Rightarrow> string" where
  "bpf_file_of const_id cid_col bf_col [] = []"
| "bpf_file_of const_id cid_col bf_col (line # lines) =
     (let fields = fields_of line
      in if max cid_col bf_col < length fields \<and> fields ! cid_col = const_id then fields ! bf_col
         else bpf_file_of const_id cid_col bf_col lines)"

definition scope_bpf_file :: "string \<Rightarrow> string \<Rightarrow> string" where
  "scope_bpf_file const_id text = (case readlines text of
     [] \<Rightarrow> []
   | header_line # lines \<Rightarrow>
       (case (index_of ''ConstID'' (fields_of header_line), index_of ''BPF_File'' (fields_of header_line)) of
          (Some cid_col, Some bf_col) \<Rightarrow> bpf_file_of const_id cid_col bf_col lines
        | _ \<Rightarrow> []))"

definition resolve_constid_to_bpf :: "string \<Rightarrow> string \<Rightarrow> (string \<times> string) option io" where
  "resolve_constid_to_bpf const_id project_root =
     bindio (file_text SCOPE_TABLE) (\<lambda>f. ret (case f of
       None \<Rightarrow> None
     | Some text \<Rightarrow> (let bpf_file = scope_bpf_file const_id text
         in if bpf_file = [] then None
            else Some (path_join (path_join (path_join project_root ''bpf'') ''stubs'') bpf_file, bpf_file))))"

section \<open>Span files\<close>

definition resolve_func_addr :: "string \<Rightarrow> string option io" where
  "resolve_func_addr func_name =
     bindio (run [''sudo'', ''grep'', ''-E'', ''^[0-9a-f]+ [tT] '' @ func_name @ ''$'', ''/proc/kallsyms''])
       (\<lambda>(code, out). ret (if code = 0 \<and> py_strip out \<noteq> []
          then Some (''0x'' @ hd (split_ws (py_strip out))) else None))"

definition raw_parts :: "string list \<Rightarrow> string \<Rightarrow> (string \<times> string \<times> string) option" where
  "raw_parts const_ids line =
     (let parts = split_on TAB (py_strip line)
      in if 4 \<le> length parts \<and> parts ! 0 \<in> set const_ids then Some (parts ! 1, parts ! 2, parts ! 3) else None)"

fun span_entries :: "(string \<times> string \<times> string) list \<Rightarrow> string list \<Rightarrow> string list io" where
  "span_entries [] entries = ret entries"
| "span_entries ((func_name, soff, eoff) # spans) entries =
     bindio (resolve_func_addr func_name) (\<lambda>func_addr.
       span_entries spans (case func_addr of
         None \<Rightarrow> entries
       | Some a \<Rightarrow> entries @ [join '','' [func_name, a, soff, eoff]]))"

definition raw_spans :: "string list \<Rightarrow> string \<Rightarrow> (string \<times> string \<times> string) list" where
  "raw_spans const_ids text = List.map_filter (raw_parts const_ids) (tl (readlines text))"

definition write_entries :: "string \<Rightarrow> string list \<Rightarrow> bool io" where
  "write_entries path entries =
     (if entries = [] then ret False else seqio (write_file path (join [NL] entries @ [NL])) (ret True))"

definition generate_cs_file :: "string \<Rightarrow> bool io" where
  "generate_cs_file const_ids_str =
     bindio (file_text CS_RAW) (\<lambda>f. case f of
       None \<Rightarrow> ret False
     | Some text \<Rightarrow>
         seqio (write_file CS_FILE [])
         (bindio (span_entries (raw_spans (split_on (CHR '','') const_ids_str) text) []) (\<lambda>entries.
           write_entries CS_FILE entries)))"

text \<open>Safe spans of zero width are left out; without any raw safe span the critical spans are used.\<close>

definition generate_ss_file :: "string \<Rightarrow> bool io" where
  "generate_ss_file const_ids_str =
     seqio (write_file SS_FILE [])
     (bindio (file_text SS_RAW) (\<lambda>f.
        let spans = (case f of None \<Rightarrow> [] | Some text \<Rightarrow> raw_spans (split_on (CHR '','') const_ids_str) text)
        in bindio (span_entries (filter (\<lambda>(func_name, soff, eoff). soff \<noteq> eoff) spans) []) (\<lambda>entries.
          bindio (file_text CS_FILE) (\<lambda>cs.
            write_entries SS_FILE (case cs of
              Some text \<Rightarrow> if spans = [] \<and> entries = [] then span_lines text else entries
            | None \<Rightarrow> entries)))))"

section \<open>Loading a constant\<close>

definition exit_with :: "int \<Rightarrow> 'a io" where
  "exit_with n = raise (SystemExit n)"

definition rx_number :: rx where
  "rx_number = seqs [Bol, Many 1 is_digit, Eol]"

definition empty_artifact :: string where
  "empty_artifact = join [NL] [''#ifndef __CS_ARTIFACT_BPF_H__'', ''#define __CS_ARTIFACT_BPF_H__'',
     ''#include '' @ quoted ''xkernel.bpf.h'', ''#endif'', []]"

text \<open>The messages of the kernel after the module was inserted; \<open>n\<close> rounds of 100 ms at most.\<close>

definition transition_seen :: "string list \<Rightarrow> bool" where
  "transition_seen new_lines \<longleftrightarrow> (\<exists>l \<in> set new_lines. contains ''transition done'' l
     \<or> contains ''transition instant'' l \<or> contains ''transition timed out'' l)"

fun wait_transition :: "nat \<Rightarrow> nat \<Rightarrow> unit io" where
  "wait_transition 0 baseline_lines = ret ()"
| "wait_transition (Suc n) baseline_lines =
     seqio (sleep 100)
     (bindio (run [''sudo'', ''dmesg'']) (\<lambda>(code, out).
        if code \<noteq> 0 then wait_transition n baseline_lines
        else if transition_seen (drop baseline_lines (splitlines out)) then ret ()
        else wait_transition n baseline_lines))"

definition rmmod_consistency :: "int io" where
  "rmmod_consistency = bindio (run [''sudo'', ''rmmod'', ''xk-consistency'']) (\<lambda>(code, out). ret code)"

text \<open>Mode 2: the consistency module is inserted for the transition; \<open>exit_with 1\<close> after unloading when it cannot be.\<close>

definition global_transition :: "string \<Rightarrow> string \<Rightarrow> string list \<Rightarrow> string \<Rightarrow> (string, int) dict \<Rightarrow> unit io" where
  "global_transition jobs project_root args const_id map_info =
     (let consistency_dir = path_join (path_join project_root ''kernel'') ''consistency'';
          consistency_path = path_join consistency_dir ''xk-consistency.ko'';
          give_up = bindio (unload_constid const_id) (\<lambda>_. exit_with 1)
      in bindio (build_module jobs consistency_path consistency_dir) (\<lambda>built.
        if \<not> built then give_up
        else bindio is_consistency_loaded (\<lambda>loaded.
          seqio (if loaded then bindio rmmod_consistency (\<lambda>_. sleep 500) else ret ())
          (bindio (if 2 < length args then lift (or_value_error (py_int 10 (args ! 2))) else ret 5) (\<lambda>timeout_val.
           bindio (run [''sudo'', ''dmesg'']) (\<lambda>(code, out).
           bindio (run [''sudo'', ''insmod'', consistency_path, ''timeout_sec='' @ py_str timeout_val])
             (\<lambda>(code', out').
               if code' \<noteq> 0 then seqio (run_ignored [''sudo'', ''dmesg'']) give_up
               else seqio (wait_transition (nat ((timeout_val + 5) * 10))
                     (if code = 0 then length (splitlines out) else 0))
                   (bindio (activate_constid const_id map_info) (\<lambda>_. ret ())))))))))"

definition active_ids_of :: "json \<Rightarrow> json res" where
  "active_ids_of state = get_item state ''active_const_ids'' (JObj [])"

definition constid_info :: "int \<Rightarrow> string \<Rightarrow> json" where
  "constid_info mode bpf_filename =
     JObj [(''mode'', JInt mode), (''bpf_file'', JStr bpf_filename), (''status'', JStr ''active'')]"

definition record_active :: "string \<Rightarrow> int \<Rightarrow> string \<Rightarrow> json \<Rightarrow> json res" where
  "record_active const_id mode bpf_filename state =
     bindr (in_json ''active_const_ids'' state) (\<lambda>present.
     bindr (if present then Inr state else set_item state ''active_const_ids'' (JObj [])) (\<lambda>state.
     bindr (item state ''active_const_ids'') (\<lambda>active.
     bindr (set_item active const_id (constid_info mode bpf_filename)) (\<lambda>active'.
       set_item state ''active_const_ids'' active'))))"

definition artifact_path :: "string \<Rightarrow> string" where
  "artifact_path bpf_dir = path_join bpf_dir ''cs_artifact.bpf.h''"

definition write_artifact :: "string \<Rightarrow> int \<Rightarrow> unit io" where
  "write_artifact bpf_dir mode =
     (if mode = 1
      then bindio (file_text SS_FILE) (\<lambda>ss.
        generate_cs_artifact_header (if ss \<noteq> None then SS_FILE else CS_FILE) (artifact_path bpf_dir))
      else write_file (artifact_path bpf_dir) empty_artifact)"

text \<open>The steps from the span files to the attached and, in modes 0 and 1, active programs.\<close>

definition attach_constid :: "string \<Rightarrow> bool \<Rightarrow> string \<Rightarrow> int \<Rightarrow> string \<Rightarrow> string \<Rightarrow> (string, int) dict io" where
  "attach_constid jobs jump_opt project_root mode const_id bpf_o_path =
     (let bpf_dir = path_join project_root ''bpf'';
          bpf_c = py_replace ''.bpf.o'' ''.bpf.c'' bpf_o_path
      in bindio (generate_cs_file const_id) (\<lambda>_.
         bindio (generate_ss_file const_id) (\<lambda>_.
         seqio (write_artifact bpf_dir mode)
         (bindio (compile_single_bpf bpf_c bpf_dir) (\<lambda>obj.
         if obj = None then exit_with 1
         else bindio (ensure_kfuncs_loaded jobs project_root) (\<lambda>loaded.
         if \<not> loaded then exit_with 1
         else bindio (if jump_opt then try_jump_optimization bpf_c bpf_dir else ret False) (\<lambda>_.
         bindio (load_and_attach_per_constid [bpf_o_path] const_id mode) (\<lambda>(code, map_info).
         if code \<noteq> 0 then exit_with code
         else seqio (load_critical_spans_for_constid CS_FILE const_id map_info)
             (seqio (load_safe_spans_for_constid SS_FILE const_id map_info)
             (bindio (if mode = 1 then activate_constid const_id map_info else ret True) (\<lambda>_.
               ret map_info)))))))))))"

definition cmd_load :: "string \<Rightarrow> string \<Rightarrow> string list \<Rightarrow> unit io" where
  "cmd_load jobs project_root argv =
     (let jump_opt = ''--jump-opt'' \<in> set argv;
          args = filter (\<lambda>a. a \<noteq> ''--jump-opt'') argv
      in if length args < 2 then exit_with 1
         else bindio (lift (or_value_error (py_int 10 (args ! 0)))) (\<lambda>mode.
           let const_id = args ! 1
           in if mode \<notin> {0, 1, 2} then exit_with 1
              else if \<not> re_matches rx_number const_id then exit_with 1
              else bindio get_runtime_state (\<lambda>state.
                bindio (lift (bindr (active_ids_of state) (in_json const_id))) (\<lambda>already.
                if already then exit_with 1
                else bindio (resolve_constid_to_bpf const_id project_root) (\<lambda>resolved. case resolved of
                  None \<Rightarrow> exit_with 1
                | Some (bpf_o_path, bpf_filename) \<Rightarrow>
                    bindio (file_text (py_replace ''.bpf.o'' ''.bpf.c'' bpf_o_path)) (\<lambda>src.
                    if src = None then exit_with 1
                    else bindio (attach_constid jobs jump_opt project_root mode const_id bpf_o_path) (\<lambda>map_info.
                      seqio (if mode = 2 then global_transition jobs project_root args const_id map_info else ret ())
                      (seqio (update_status const_id ''active'')
                      (bindio get_runtime_state (\<lambda>state.
                       bindio (lift (record_active const_id mode bpf_filename state)) (\<lambda>state'.
                         save_runtime_state state')))))))))))"

section \<open>Unloading\<close>

text \<open>\<open>mode == n\<close> for a value from the state file; reals are not modes.\<close>

definition mode_is :: "int \<Rightarrow> json \<Rightarrow> bool" where
  "mode_is n j = (case j of JInt m \<Rightarrow> m = n | JBool b \<Rightarrow> (if b then 1 else 0) = n | _ \<Rightarrow> False)"

definition hashable :: "json \<Rightarrow> bool" where
  "hashable j = (case j of JArr xs \<Rightarrow> False | JObj d \<Rightarrow> False | _ \<Rightarrow> True)"

text \<open>The kernel's messages after \<open>rmmod\<close>, every half second for at most 30 seconds.\<close>

fun poll_reverse :: "nat \<Rightarrow> unit io" where
  "poll_reverse 0 = ret ()"
| "poll_reverse (Suc n) =
     bindio (ask h_late) (\<lambda>late.
       if late then ret ()
       else bindio (run [''dmesg'', ''--since'', ''-30 seconds'']) (\<lambda>(code, out).
         if contains ''reverse transition'' (py_lower out) \<or> contains ''module unloaded'' (py_lower out)
         then ret () else seqio (sleep 500) (poll_reverse n)))"

definition drop_result :: "'a io \<Rightarrow> unit io" where
  "drop_result m = bindio m (\<lambda>_. ret ())"

definition reverse_global :: "unit io" where
  "reverse_global =
     bindio is_consistency_loaded (\<lambda>loaded.
       if loaded then bindio rmmod_consistency (\<lambda>code. if code \<noteq> 0 then ret () else poll_reverse 60)
       else ret ())"

definition reverse_transition_single :: "string \<Rightarrow> json \<Rightarrow> unit io" where
  "reverse_transition_single cid cid_info =
     bindio (lift (get_item cid_info ''mode'' (JInt 0))) (\<lambda>mode.
     bindio (get_map_info_for_constid cid) (\<lambda>map_info.
       if map_info = [] then
         bindio (ask (\<lambda>h es. h_exists h es (constid_dir cid))) (\<lambda>ex.
           if ex then drop_result (unload_constid cid) else ret ())
       else if \<not> hashable mode then raise TypeError
       else if mode_is 0 mode then
         seqio (drop_result (deactivate_constid cid map_info)) (drop_result (unload_constid cid))
       else if mode_is 1 mode then
         seqio (drop_result (deactivate_constid cid map_info))
         (seqio (drop_result (bump_epoch cid map_info))
         (seqio (sleep 2000) (drop_result (unload_constid cid))))
       else if mode_is 2 mode then
         seqio (drop_result (deactivate_constid cid map_info))
         (seqio reverse_global (drop_result (unload_constid cid)))
       else drop_result (unload_constid cid)))"

definition cleanup_bpf_pins :: "unit io" where
  "cleanup_bpf_pins =
     bindio (run [''sudo'', ''rm'', ''-rf'', BPF_PIN_BASE]) (\<lambda>(code, out).
       seqio (if code \<noteq> 0 then ret () else run_ignored [''sudo'', ''test'', ''-d'', BPF_PIN_BASE]) (sleep 2000))"

fun rmmod_kfuncs :: "nat \<Rightarrow> bool io" where
  "rmmod_kfuncs 0 = ret False"
| "rmmod_kfuncs (Suc n) =
     bindio (run [''sudo'', ''rmmod'', ''xk-kfuncs'']) (\<lambda>(code, out).
       if code = 0 then
         bindio get_runtime_state (\<lambda>state.
           bindio (lift (set_item state ''kfuncs_loaded'' (JBool False))) (\<lambda>state'.
             seqio (save_runtime_state state') (ret True)))
       else seqio (if 0 < n then sleep 2000 else ret ()) (rmmod_kfuncs n))"

definition unload_kfuncs_module :: "bool io" where
  "unload_kfuncs_module = rmmod_kfuncs 5"

definition unload_kfuncs_if_loaded :: "unit io" where
  "unload_kfuncs_if_loaded = bindio is_kfuncs_loaded (\<lambda>loaded.
     if loaded then drop_result unload_kfuncs_module else ret ())"

definition members_of :: "json \<Rightarrow> (string \<times> json) list res" where
  "members_of j = (case j of JObj d \<Rightarrow> Inr d | _ \<Rightarrow> Inl AttributeError)"

definition unload_all :: "json \<Rightarrow> unit io" where
  "unload_all active =
     seqio (if \<not> json_truthy active
         then bindio is_consistency_loaded (\<lambda>loaded.
           if loaded then drop_result rmmod_consistency else ret ())
         else bindio (lift (members_of active)) (\<lambda>d.
           each (\<lambda>(cid, info). seqio (reverse_transition_single cid info) (update_status cid ''ready'')) d))
     (seqio cleanup_bpf_pins
     (seqio unload_kfuncs_if_loaded
     (seqio (save_runtime_state fresh_state) (update_all_status ''ready''))))"

fun unload_each :: "json \<Rightarrow> string list \<Rightarrow> json io" where
  "unload_each active [] = ret active"
| "unload_each active (cid # cids) =
     bindio (lift (in_json cid active)) (\<lambda>present.
       if \<not> present then unload_each active cids
       else bindio (lift (item active cid)) (\<lambda>info.
         seqio (reverse_transition_single cid info)
         (bindio (lift (pop_item active cid)) (\<lambda>active'.
           seqio (update_status cid ''ready'') (unload_each active' cids)))))"

definition cmd_unload :: "string list \<Rightarrow> unit io" where
  "cmd_unload args =
     bindio get_runtime_state (\<lambda>state.
     bindio (lift (active_ids_of state)) (\<lambda>active.
       if ''--all'' \<in> set args \<or> args = [] then unload_all active
       else bindio (unload_each active args) (\<lambda>active'.
         bindio (lift (set_item state ''active_const_ids'' active')) (\<lambda>state'.
           seqio (save_runtime_state state')
             (if \<not> json_truthy active' then seqio cleanup_bpf_pins unload_kfuncs_if_loaded else ret ())))))"

section \<open>Unloading before table rows are deleted\<close>

text \<open>The filters of \<open>table delete\<close>; a flag without a value is skipped.\<close>

record delete_args =
  da_const_id :: "string option"
  da_val :: "string option"
  da_status :: "string option"

fun parse_delete :: "delete_args \<Rightarrow> string list \<Rightarrow> delete_args" where
  "parse_delete d [] = d"
| "parse_delete d [a] = d"
| "parse_delete d (a # b # args) =
     (if a = ''--const-id'' then parse_delete (d\<lparr>da_const_id := Some b\<rparr>) args
      else if a = ''--val'' then parse_delete (d\<lparr>da_val := Some b\<rparr>) args
      else if a = ''--status'' then parse_delete (d\<lparr>da_status := Some b\<rparr>) args
      else parse_delete d (b # args))"

definition row_selected :: "delete_args \<Rightarrow> string list \<Rightarrow> bool" where
  "row_selected d row \<longleftrightarrow>
     \<not> differs_from (da_const_id d) (py_strip (row ! 0)) \<and> \<not> differs_from (da_val d) (py_strip (row ! 1)) \<and>
     \<not> differs_from (da_status d) (py_strip (row ! 6)) \<and>
     (given (da_const_id d) \<or> given (da_val d) \<or> given (da_status d))"

definition collect_constids_to_delete :: "string list \<Rightarrow> string option \<Rightarrow> string list option" where
  "collect_constids_to_delete args scope_text =
     (if args = [] \<or> hd args \<noteq> ''delete'' then None
      else let d = parse_delete \<lparr>da_const_id = None, da_val = None, da_status = None\<rparr> (tl args);
               delete_all = ''--all'' \<in> set args
        in Some (case scope_text of
             None \<Rightarrow> []
           | Some text \<Rightarrow> remdups (map (\<lambda>row. py_strip (row ! 0))
               (filter (\<lambda>row. 7 \<le> length row \<and> (delete_all \<or> row_selected d row)) (body_rows text)))))"

fun unload_present :: "json \<Rightarrow> string list \<Rightarrow> unit io" where
  "unload_present active [] = ret ()"
| "unload_present active (cid # cids) =
     bindio (lift (in_json cid active)) (\<lambda>present.
       seqio (if present then seqio (drop_result (unload_constid cid)) (update_status cid ''ready'') else ret ())
         (unload_present active cids))"

definition unload_active_constids :: "string list \<Rightarrow> unit io" where
  "unload_active_constids const_ids =
     bindio get_runtime_state (\<lambda>state.
     bindio (lift (active_ids_of state)) (\<lambda>active. unload_present active (sort const_ids)))"

text \<open>\<open>table\<close>: the table manager runs as a program of its own, after the unloading.\<close>

definition cmd_table :: "string \<Rightarrow> string \<Rightarrow> string list \<Rightarrow> unit io" where
  "cmd_table python project_root args =
     bindio (file_text SCOPE_TABLE) (\<lambda>scope_text.
     seqio (case collect_constids_to_delete args scope_text of
         None \<Rightarrow> ret () | Some affected \<Rightarrow> if affected = [] then ret () else unload_active_constids affected)
     (bindio (run (python # path_join (path_join project_root ''src'') ''table.py'' # args)) (\<lambda>(code, out).
       exit_with code)))"

end
