(* ===== verification/Lifecycle_Inv.thy ===== *)
theory Lifecycle_Inv
  imports Lifecycle
begin

text \<open>
  What loading and unloading promise: which files an operation may write, what it does to the
  list of active constants in the runtime state, and the invariant that ties that list to the
  status column of the scope table.
\<close>

section \<open>Which files an operation writes\<close>

definition frame :: "string set \<Rightarrow> world \<Rightarrow> world \<Rightarrow> bool" where
  "frame P a b \<longleftrightarrow> (\<forall>p. p \<notin> P \<longrightarrow> files a p = files b p)"

interpretation frame: io_contract "frame P" for P
  by unfold_locales (auto simp: frame_def)

lemma frame_write: "p \<in> P \<Longrightarrow> frame.keeps P (write_file p t)" "p \<in> P \<Longrightarrow> frame.keeps P (remove_file p)"
  by (auto simp: frame.keeps_def io_simps frame_def)

lemma frame_optional: "(\<And>x. frame.keeps P (f x)) \<Longrightarrow> frame.keeps P (optional f y)"
  by (simp add: optional_def frame.keeps_basic split: option.split)

lemma frame_drop_result: "frame.keeps P m \<Longrightarrow> frame.keeps P (drop_result m)"
  unfolding drop_result_def by (intro frame.keeps_intros)

named_theorems frames

lemmas frame_rules = frame.keeps_intros frame_optional frame_drop_result frame_write

lemma frame_maps [frames]:
  "frame.keeps P (sudo_bpftool_cmd a)"
  "frame.keeps P (update_map_by_id i k v)"
  "frame.keeps P snapshot_map_ids"
  "frame.keeps P (resolve_map_names ids)"
  "frame.keeps P (set_bss_variable m n x)"
  "frame.keeps P (bump_epoch c m)"
proof -
  show cmd: "frame.keeps P (sudo_bpftool_cmd a)" for a
    unfolding sudo_bpftool_cmd_def by (intro frame_rules)
  show upd: "frame.keeps P (update_map_by_id i k v)" for i k v
    unfolding update_map_by_id_def by (intro frame_rules cmd)
  show "frame.keeps P snapshot_map_ids"
    unfolding snapshot_map_ids_def by (intro frame_rules cmd)
  show "frame.keeps P (resolve_map_names ids)"
    unfolding resolve_map_names_def by (intro frame_rules cmd)
  show bss: "frame.keeps P (set_bss_variable m n x)" for n x
    unfolding set_bss_variable_def by (intro frame_rules upd)
  show "frame.keeps P (bump_epoch c m)"
    unfolding bump_epoch_def by (intro frame_rules cmd bss)
qed

lemma frame_active [frames]: "frame.keeps P (activate_constid c m)" "frame.keeps P (deactivate_constid c m)"
  by (simp_all add: activate_constid_def deactivate_constid_def frames)

lemma frame_pinned [frames]: "frame.keeps P (pinned_maps d names m)"
  by (induction names arbitrary: m) (auto intro!: frame_rules frames)

lemma frame_map_info [frames]: "frame.keeps P (get_map_info_for_constid c)"
  unfolding get_map_info_for_constid_def Let_def by (intro frame_rules frames)

lemma frame_spans [frames]:
  "frame.keeps P (update_span i e)" "frame.keeps P (update_length i n)"
  unfolding update_span_def update_length_def by (intro frame_rules frames)+

lemma frame_load_spans [frames]:
  "frame.keeps P (load_critical_spans_for_constid p c m)" "frame.keeps P (load_safe_spans_for_constid p c m)"
  unfolding load_critical_spans_for_constid_def load_safe_spans_for_constid_def Let_def
  by (intro frame_rules frames)+

lemma frame_compile [frames]: "frame.keeps P (compile_single_bpf c d)"
  unfolding compile_single_bpf_def Let_def by (intro frame_rules frames)

lemma frame_attach_all [frames]: "frame.keeps P (attach_all args fs)"
  by (induction fs) (auto intro!: frame_rules frames)

lemma frame_load_and_attach [frames]: "frame.keeps P (load_and_attach_per_constid fs c mode)"
  unfolding load_and_attach_per_constid_def Let_def by (intro frame_rules frames)

lemma frame_state [frames]:
  "frame.keeps P get_runtime_state"
  "RUNTIME_STATE_PATH \<in> P \<Longrightarrow> frame.keeps P (save_runtime_state s)"
  unfolding get_runtime_state_def save_runtime_state_def by (intro frame_rules, assumption?)+

lemma frame_unload [frames]: "RUNTIME_STATE_PATH \<in> P \<Longrightarrow> frame.keeps P (unload_constid c)"
  unfolding unload_constid_def by (intro frame_rules frames)

lemma frame_modules [frames]:
  "frame.keeps P (module_loaded n)" "frame.keeps P is_kfuncs_loaded" "frame.keeps P is_consistency_loaded"
  "frame.keeps P (build_module j k d)"
proof -
  show m: "frame.keeps P (module_loaded n)" for n
    unfolding module_loaded_def by (intro frame_rules)
  show "frame.keeps P is_kfuncs_loaded" "frame.keeps P is_consistency_loaded"
    by (simp_all add: is_kfuncs_loaded_def is_consistency_loaded_def m)
  show "frame.keeps P (build_module j k d)"
    unfolding build_module_def by (intro frame_rules)
qed

lemma frame_kfuncs [frames]: "RUNTIME_STATE_PATH \<in> P \<Longrightarrow> frame.keeps P (ensure_kfuncs_loaded j r)"
  unfolding ensure_kfuncs_loaded_def Let_def by (intro frame_rules frames)

lemma frame_span_entries [frames]: "frame.keeps P (span_entries spans es)"
proof (induction spans es rule: span_entries.induct)
  case (2 f s e spans es)
  then show ?case by (auto simp: resolve_func_addr_def intro!: frame_rules)
qed (simp add: frame.keeps_basic)

lemma frame_write_entries [frames]: "p \<in> P \<Longrightarrow> frame.keeps P (write_entries p es)"
  unfolding write_entries_def by (intro frame_rules)

lemma frame_cs_file [frames]: "CS_FILE \<in> P \<Longrightarrow> frame.keeps P (generate_cs_file c)"
  unfolding generate_cs_file_def by (intro frame_rules frames)

lemma frame_ss_file [frames]: "SS_FILE \<in> P \<Longrightarrow> frame.keeps P (generate_ss_file c)"
  unfolding generate_ss_file_def Let_def by (intro frame_rules frames)

lemma frame_artifact [frames]: "artifact_path d \<in> P \<Longrightarrow> frame.keeps P (write_artifact d mode)"
  unfolding write_artifact_def generate_cs_artifact_header_def by (intro frame_rules)

lemma frame_patch [frames]: "p \<in> P \<Longrightarrow> frame.keeps P (patch_bpf_sec_offset p f a b)"
  unfolding patch_bpf_sec_offset_def by (intro frame_rules)

lemma frame_candidates [frames]: "p \<in> P \<Longrightarrow> frame.keeps P (try_candidates p d f cur cs)"
  by (induction cs arbitrary: cur)
    (auto simp: try_candidate_def check_kprobe_optimized_def remove_test_pins_def intro!: frame_rules frames)

lemma frame_optimize [frames]: "p \<in> P \<Longrightarrow> frame.keeps P (optimize_kprobes p d ks b)"
  by (induction ks arbitrary: b)
    (auto simp: optimize_kprobe_def Let_def intro!: frame_rules frames)

lemma frame_jump_opt [frames]:
  "p \<in> P \<Longrightarrow> p @ backup_suffix \<in> P \<Longrightarrow> frame.keeps P (try_jump_optimization p d)"
  unfolding try_jump_optimization_def Let_def remove_test_pins_def by (intro frame_rules frames)

lemma frame_wait [frames]: "frame.keeps P (wait_transition n b)" "frame.keeps P (poll_reverse n)"
  by (induction n) (auto intro!: frame_rules)

lemma frame_rmmod [frames]: "frame.keeps P rmmod_consistency"
  unfolding rmmod_consistency_def by (intro frame_rules)

lemma frame_global [frames]: "RUNTIME_STATE_PATH \<in> P \<Longrightarrow> frame.keeps P (global_transition j r args c m)"
  unfolding global_transition_def Let_def exit_with_def by (intro frame_rules frames)

lemma frame_reverse [frames]:
  "RUNTIME_STATE_PATH \<in> P \<Longrightarrow> frame.keeps P (reverse_transition_single c info)"
  unfolding reverse_transition_single_def reverse_global_def by (intro frame_rules frames)

lemma frame_pins [frames]: "frame.keeps P cleanup_bpf_pins"
  unfolding cleanup_bpf_pins_def by (intro frame_rules)

lemma frame_rmmod_kfuncs [frames]: "RUNTIME_STATE_PATH \<in> P \<Longrightarrow> frame.keeps P (rmmod_kfuncs n)"
  by (induction n) (auto intro!: frame_rules frames)

lemma frame_unload_kfuncs [frames]: "RUNTIME_STATE_PATH \<in> P \<Longrightarrow> frame.keeps P unload_kfuncs_if_loaded"
  unfolding unload_kfuncs_if_loaded_def unload_kfuncs_module_def by (intro frame_rules frames)

definition load_frame :: "string \<Rightarrow> string \<Rightarrow> string set" where
  "load_frame project_root bpf_c = {CS_FILE, SS_FILE, RUNTIME_STATE_PATH,
     artifact_path (path_join project_root ''bpf''), bpf_c, bpf_c @ backup_suffix}"

lemma frame_attach [frames]:
  "load_frame project_root (py_replace ''.bpf.o'' ''.bpf.c'' o_path) \<subseteq> P \<Longrightarrow>
   frame.keeps P (attach_constid jobs jump_opt project_root mode c o_path)"
  unfolding attach_constid_def Let_def exit_with_def load_frame_def
  by (intro frame_rules frames) auto

section \<open>The runtime state\<close>

text \<open>The state file lists the constants of \<open>A\<close> as active; no file means none.\<close>

definition runtime :: "world \<Rightarrow> (string, json) dict \<Rightarrow> bool" where
  "runtime w A \<longleftrightarrow> (case files w RUNTIME_STATE_PATH of
     None \<Rightarrow> A = []
   | Some t \<Rightarrow> (\<exists>d. t = json_dumps 2 (JObj d) \<and> json_plain (JObj d) \<and>
       map_of d ''active_const_ids'' = Some (JObj A)))"

lemma list_all_dput: "P (k, v) \<Longrightarrow> list_all P d \<Longrightarrow> list_all P (dput k v d)"
  by (induction d) auto

lemma json_plain_dput:
  "json_plain (JObj d) \<Longrightarrow> ascii k \<Longrightarrow> json_plain v \<Longrightarrow> json_plain (JObj (dput k v d))"
  by (simp add: distinct_dput list_all_dput)

lemma json_plain_dpop: "json_plain (JObj d) \<Longrightarrow> json_plain (JObj (dpop k d))"
  by (auto simp: dpop_def list_all_iff distinct_map intro: inj_on_subset)

lemma json_plain_member: "json_plain (JObj d) \<Longrightarrow> map_of d k = Some v \<Longrightarrow> json_plain v"
  by (auto simp: list_all_iff dest: map_of_SomeD)

lemma get_state_run:
  assumes "runtime w A"
  shows "\<exists>d. (\<forall>h. get_runtime_state h w = (w, Inr (JObj d))) \<and> json_plain (JObj d) \<and>
    map_of d ''active_const_ids'' = Some (JObj A)"
proof (cases "files w RUNTIME_STATE_PATH")
  case None
  have "json_plain fresh_state" unfolding fresh_state_def by code_simp
  moreover have "get_runtime_state h w = (w, Inr fresh_state)" for h
    by (simp add: get_runtime_state_def io_simps None)
  moreover have "A = []" using assms None by (simp add: runtime_def)
  ultimately show ?thesis
    by (intro exI [of _ "[(''kfuncs_loaded'', JBool False), (''active_const_ids'', JObj [])]"])
      (simp add: fresh_state_def)
next
  case (Some t)
  then obtain d where d: "t = json_dumps 2 (JObj d)" "json_plain (JObj d)"
    "map_of d ''active_const_ids'' = Some (JObj A)"
    using assms by (auto simp: runtime_def)
  have "get_runtime_state h w = (w, Inr (JObj d))" for h
    by (simp add: get_runtime_state_def io_simps Some d(1) json_loads_dumps [OF d(2)])
  with d show ?thesis by blast
qed

lemma save_state_run: "save_runtime_state s h w =
    (w\<lparr>files := (files w)(RUNTIME_STATE_PATH := Some (json_dumps 2 s))\<rparr>, Inr ())"
  by (simp add: save_runtime_state_def io_simps)

lemma runtime_saved:
  "json_plain (JObj d) \<Longrightarrow> map_of d ''active_const_ids'' = Some (JObj A) \<Longrightarrow>
   runtime (w\<lparr>files := (files w)(RUNTIME_STATE_PATH := Some (json_dumps 2 (JObj d)))\<rparr>) A"
  by (auto simp: runtime_def simp del: json_plain.simps)

text \<open>Operations that leave the list alone, as long as \<open>c\<close> is not in it.\<close>

definition same_active :: "string \<Rightarrow> world \<Rightarrow> world \<Rightarrow> bool" where
  "same_active c a b \<longleftrightarrow> (\<forall>A. c \<notin> fst ` set A \<longrightarrow> runtime a A \<longrightarrow> runtime b A)"

interpretation rt: io_contract "same_active c" for c
  by unfold_locales (auto simp: same_active_def runtime_def)

lemma rt_frame: "frame.keeps P m \<Longrightarrow> RUNTIME_STATE_PATH \<notin> P \<Longrightarrow> rt.keeps c m"
  by (simp add: frame.keeps_def rt.keeps_def frame_def same_active_def runtime_def)

definition rewrites_state :: "(json \<Rightarrow> json res) \<Rightarrow> bool io" where
  "rewrites_state f = bindio get_runtime_state (\<lambda>state. bindio (lift (f state)) (\<lambda>state'.
     seqio (save_runtime_state state') (ret True)))"

lemma rt_rewrites:
  assumes "\<And>d A. c \<notin> fst ` set A \<Longrightarrow> json_plain (JObj d) \<Longrightarrow> map_of d ''active_const_ids'' = Some (JObj A) \<Longrightarrow>
    \<exists>d'. f (JObj d) = Inr (JObj d') \<and> json_plain (JObj d') \<and> map_of d' ''active_const_ids'' = Some (JObj A)"
  shows "rt.keeps c (rewrites_state f)"
proof -
  have "runtime (fst (rewrites_state f h w)) A" if a: "c \<notin> fst ` set A" "runtime w A" for h w A
  proof -
    obtain d where d: "\<And>h. get_runtime_state h w = (w, Inr (JObj d))" "json_plain (JObj d)"
      "map_of d ''active_const_ids'' = Some (JObj A)"
      using get_state_run [OF a(2)] by blast
    obtain d' where d': "f (JObj d) = Inr (JObj d')" "json_plain (JObj d')"
      "map_of d' ''active_const_ids'' = Some (JObj A)"
      using assms [OF a(1) d(2,3)] by auto
    then show ?thesis
      using runtime_saved [OF d'(2,3), of w]
      by (simp add: rewrites_state_def io_simps d(1) save_state_run del: json_plain.simps)
  qed
  then show ?thesis by (simp add: rt.keeps_def same_active_def)
qed

lemma rt_set_kfuncs: "rt.keeps c (rewrites_state (\<lambda>state. set_item state ''kfuncs_loaded'' (JBool b)))"
proof (rule rt_rewrites)
  have "ascii ''kfuncs_loaded''" by code_simp
  then show "\<exists>d'. set_item (JObj d) ''kfuncs_loaded'' (JBool b) = Inr (JObj d') \<and> json_plain (JObj d') \<and>
      map_of d' ''active_const_ids'' = Some (JObj A)"
    if "json_plain (JObj d)" "map_of d ''active_const_ids'' = Some (JObj A)" for d A
    using that json_plain_dput [of d "''kfuncs_loaded''" "JBool b"] by (auto simp: set_item_def)
qed

definition remove_active :: "string \<Rightarrow> json \<Rightarrow> json res" where
  "remove_active c state = bindr (item state ''active_const_ids'') (\<lambda>active.
     bindr (pop_item active c) (\<lambda>rest. set_item state ''active_const_ids'' rest))"

lemma ascii_active: "ascii ''active_const_ids''"
  by code_simp

lemma remove_active_eq:
  assumes "json_plain (JObj d)" "map_of d ''active_const_ids'' = Some (JObj A)"
  shows "\<exists>d'. remove_active c (JObj d) = Inr (JObj d') \<and> json_plain (JObj d') \<and>
    map_of d' ''active_const_ids'' = Some (JObj (dpop c A))"
  using json_plain_dput [OF assms(1) ascii_active json_plain_dpop [OF json_plain_member [OF assms]], of c] assms(2)
  by (auto simp: remove_active_def item_def pop_item_def set_item_def simp del: json_plain.simps)

lemma dpop_absent: "c \<notin> fst ` set A \<Longrightarrow> dpop c A = A"
  by (auto simp: dpop_def filter_id_conv)

lemma unload_constid_alt: "unload_constid c =
    bindio (run [''sudo'', ''rm'', ''-rf'', constid_dir c]) (\<lambda>(code, out).
      if code \<noteq> 0 then ret False else rewrites_state (remove_active c))"
  unfolding unload_constid_def rewrites_state_def remove_active_def by (rule refl)

lemma rt_unload: "rt.keeps c (unload_constid c)"
proof -
  have "rt.keeps c (rewrites_state (remove_active c))"
    by (rule rt_rewrites) (use remove_active_eq dpop_absent in metis)
  then show ?thesis unfolding unload_constid_alt by (intro rt.keeps_intros)
qed

lemma rt_kfuncs: "rt.keeps c (ensure_kfuncs_loaded j r)"
proof -
  have e: "ensure_kfuncs_loaded j r = bindio is_kfuncs_loaded (\<lambda>loaded.
       if loaded then ret True
       else let kfuncs_dir = path_join (path_join r ''kernel'') ''kfuncs'';
                kfuncs_path = path_join kfuncs_dir ''xk-kfuncs.ko''
         in bindio (build_module j kfuncs_path kfuncs_dir) (\<lambda>built.
           if \<not> built then ret False
           else bindio (run [''sudo'', ''insmod'', kfuncs_path]) (\<lambda>(code, out).
             if code \<noteq> 0 then ret False
             else rewrites_state (\<lambda>state. set_item state ''kfuncs_loaded'' (JBool True)))))"
    unfolding ensure_kfuncs_loaded_def rewrites_state_def by (rule refl)
  have "RUNTIME_STATE_PATH \<notin> {}" by simp
  note leaf = frame_modules [of "{}", THEN rt_frame, OF this]
  show ?thesis unfolding e Let_def by (intro rt.keeps_intros leaf rt_set_kfuncs)
qed

lemma rt_rmmod_kfuncs: "rt.keeps c (rmmod_kfuncs n)"
proof (induction n)
  case (Suc n)
  have "rmmod_kfuncs (Suc n) = bindio (run [''sudo'', ''rmmod'', ''xk-kfuncs'']) (\<lambda>(code, out).
       if code = 0 then rewrites_state (\<lambda>state. set_item state ''kfuncs_loaded'' (JBool False))
       else seqio (if 0 < n then sleep 2000 else ret ()) (rmmod_kfuncs n))"
    unfolding rewrites_state_def rmmod_kfuncs.simps by (rule refl)
  with Suc rt_set_kfuncs show ?case by (auto intro!: rt.keeps_intros)
qed (simp add: rt.keeps_basic)

lemma rt_drop_result: "rt.keeps c m \<Longrightarrow> rt.keeps c (drop_result m)"
  unfolding drop_result_def by (intro rt.keeps_intros)

lemma rt_unload_kfuncs: "rt.keeps c unload_kfuncs_if_loaded"
  unfolding unload_kfuncs_if_loaded_def unload_kfuncs_module_def
  by (intro rt.keeps_intros rt_drop_result rt_rmmod_kfuncs rt_frame [OF frame_modules(2)]) auto

section \<open>The scope table\<close>

definition scope_row :: "string list \<Rightarrow> bool" where
  "scope_row r \<longleftrightarrow> length r = 8 \<and> list_all (\<lambda>f. TAB \<notin> set f \<and> NL \<notin> set f) r"

definition scope_line :: "string list \<Rightarrow> string" where
  "scope_line r = join [TAB] r @ [NL]"

text \<open>The table as the generator writes it: a header and rows of eight columns.\<close>

definition scope_text :: "string list list \<Rightarrow> string" where
  "scope_text rows = concat (map scope_line (scope_header # rows))"

definition scope :: "world \<Rightarrow> string list list \<Rightarrow> bool" where
  "scope w rows \<longleftrightarrow> list_all scope_row rows \<and>
     (files w SCOPE_TABLE = Some (scope_text rows) \<or> files w SCOPE_TABLE = None \<and> rows = [])"

definition set_status :: "(string list \<Rightarrow> bool) \<Rightarrow> string \<Rightarrow> string list \<Rightarrow> string list" where
  "set_status sel s r = (if sel r then r[6 := s] else r)"

lemma scope_header_row: "scope_row scope_header"
  by code_simp

lemma join_tab_no_newline: "scope_row r \<Longrightarrow> NL \<notin> set (join [TAB] r)"
  by (auto simp: scope_row_def list_all_iff dest!: set_join)

lemma fields_of_line: "scope_row r \<Longrightarrow> fields_of (scope_line r) = r"
proof -
  assume r: "scope_row r"
  have "rstrip_by (\<lambda>c. c = NL) (s @ [NL]) = s" if "NL \<notin> set s" for s
    using that by (cases s rule: rev_cases) (auto simp: rstrip_by_def)
  then have "rstrip_by (\<lambda>c. c = NL) (scope_line r) = join [TAB] r"
    using join_tab_no_newline [OF r] by (simp add: scope_line_def)
  moreover have "split_on TAB (join [TAB] r) = r"
    using r by (intro split_on_join) (auto simp: scope_row_def list_all_iff)
  ultimately show ?thesis by (simp add: fields_of_def)
qed

lemma readlines_scope:
  assumes "list_all scope_row rows"
  shows "readlines (scope_text rows) = map scope_line (scope_header # rows)"
proof -
  let ?ls = "map (join [TAB]) (scope_header # rows)"
  have "list_all (\<lambda>l. NL \<notin> set l) ?ls"
    using assms scope_header_row join_tab_no_newline by (auto simp: list_all_iff)
  from readlines_terminated [OF this] show ?thesis
    by (simp only: scope_text_def scope_line_def [abs_def] map_map comp_def)
qed

lemma header_columns: "index_of ''ConstID'' scope_header = Some 0" "index_of ''Status'' scope_header = Some 6"
  "index_of ''BPF_File'' scope_header = Some 5"
  by code_simp+

definition status_text_ok :: "string \<Rightarrow> bool" where
  "status_text_ok s \<longleftrightarrow> TAB \<notin> set s \<and> NL \<notin> set s"

lemma set_status_row: "scope_row r \<Longrightarrow> status_text_ok s \<Longrightarrow> scope_row (set_status sel s r)"
  by (auto simp: scope_row_def set_status_def status_text_ok_def list_all_iff dest!: set_update_subset_insert [THEN subsetD])

lemma status_line_scope: "scope_row r \<Longrightarrow> sel r = sel' r \<Longrightarrow>
    status_line sel 6 s (scope_line r) = scope_line (set_status sel' s r)"
  unfolding status_line_def set_status_def scope_line_def [of "if b then x else y" for b x y]
  by (simp add: fields_of_line Let_def)

lemma status_lines:
  assumes "list_all scope_row rows" "\<And>r. scope_row r \<Longrightarrow> sel r = sel' r"
  shows "concat (map (status_line sel 6 s) (map scope_line rows)) = concat (map scope_line (map (set_status sel' s) rows))"
  using assms by (induction rows) (simp_all add: status_line_scope)

lemma update_status_scope:
  assumes "list_all scope_row rows"
  shows "update_status_text c s (scope_text rows) = Some (scope_text (map (set_status (\<lambda>r. r ! 0 = c) s) rows))"
    and "update_all_status_text s (scope_text rows) = Some (scope_text (map (set_status (\<lambda>r. True) s) rows))"
proof -
  note rl = readlines_scope [OF assms] list.map list.case fields_of_line [OF scope_header_row] header_columns
    prod.case option.case
  have "concat (map (status_line (\<lambda>fields. max 0 6 < length fields \<and> fields ! 0 = c) 6 s) (map scope_line rows))
      = concat (map scope_line (map (set_status (\<lambda>r. r ! 0 = c) s) rows))"
    by (rule status_lines [OF assms]) (simp add: scope_row_def)
  then show "update_status_text c s (scope_text rows) = Some (scope_text (map (set_status (\<lambda>r. r ! 0 = c) s) rows))"
    unfolding update_status_text_def rl by (simp only: scope_text_def list.map concat.simps)
  have "concat (map (status_line (\<lambda>fields. 6 < length fields) 6 s) (map scope_line rows))
      = concat (map scope_line (map (set_status (\<lambda>r. True) s) rows))"
    by (rule status_lines [OF assms]) (simp add: scope_row_def)
  then show "update_all_status_text s (scope_text rows) = Some (scope_text (map (set_status (\<lambda>r. True) s) rows))"
    unfolding update_all_status_text_def rl by (simp only: scope_text_def list.map concat.simps)
qed

lemma set_status_rows:
  "list_all scope_row rows \<Longrightarrow> status_text_ok s \<Longrightarrow> list_all scope_row (map (set_status sel s) rows)"
  by (simp add: list_all_iff set_status_row)

lemma update_status_run:
  assumes "scope w rows" "status_text_ok s"
  shows "\<exists>w'. update_status c s h w = (w', Inr ()) \<and> scope w' (map (set_status (\<lambda>r. r ! 0 = c) s) rows) \<and>
    files w' RUNTIME_STATE_PATH = files w RUNTIME_STATE_PATH"
    and "\<exists>w'. update_all_status s h w = (w', Inr ()) \<and> scope w' (map (set_status (\<lambda>r. True) s) rows) \<and>
    files w' RUNTIME_STATE_PATH = files w RUNTIME_STATE_PATH"
  using assms set_status_rows [of rows s]
  by (auto simp: update_status_def update_all_status_def io_simps scope_def optional_def update_status_scope
      SCOPE_TABLE_def RUNTIME_STATE_PATH_def)

lemma scope_frame: "frame.keeps P m \<Longrightarrow> SCOPE_TABLE \<notin> P \<Longrightarrow> scope w rows \<Longrightarrow> scope (fst (m h w)) rows"
  by (auto simp: frame.keeps_def frame_def scope_def)

lemma runtime_files: "files a RUNTIME_STATE_PATH = files b RUNTIME_STATE_PATH \<Longrightarrow> runtime a A = runtime b A"
  by (simp add: runtime_def)

section \<open>Status and runtime state agree\<close>

definition active_row :: "string list \<Rightarrow> bool" where
  "active_row r \<longleftrightarrow> r ! 6 = ''active''"

definition policy_source :: "string \<Rightarrow> string list \<Rightarrow> string" where
  "policy_source project_root r = py_replace ''.bpf.o'' ''.bpf.c''
     (path_join (path_join (path_join project_root ''bpf'') ''stubs'') (r ! 5))"

text \<open>The policy source that a row names is ASCII text and neither of the two files.\<close>

definition own_source :: "string \<Rightarrow> string list \<Rightarrow> bool" where
  "own_source project_root r \<longleftrightarrow> ascii (r ! 5) \<and> {policy_source project_root r, policy_source project_root r @ backup_suffix}
     \<inter> {SCOPE_TABLE, RUNTIME_STATE_PATH} = {}"

definition in_step :: "string \<Rightarrow> world \<Rightarrow> (string, json) dict \<Rightarrow> string list list \<Rightarrow> bool" where
  "in_step project_root w A rows \<longleftrightarrow> runtime w A \<and> scope w rows \<and>
     list_all (own_source project_root) rows \<and>
     list_all (\<lambda>r. active_row r \<longleftrightarrow> r ! 0 \<in> fst ` set A) rows"

subsection \<open>Loading\<close>

lemma paths_differ:
  "CS_FILE \<noteq> RUNTIME_STATE_PATH" "SS_FILE \<noteq> RUNTIME_STATE_PATH" "CS_FILE \<noteq> SCOPE_TABLE" "SS_FILE \<noteq> SCOPE_TABLE"
  "RUNTIME_STATE_PATH \<noteq> SCOPE_TABLE"
  by (simp_all add: CS_FILE_def SS_FILE_def RUNTIME_STATE_PATH_def SCOPE_TABLE_def)

lemma artifact_path_differs: "artifact_path d \<noteq> RUNTIME_STATE_PATH" "artifact_path d \<noteq> SCOPE_TABLE"
proof -
  have l: "last (artifact_path d) = CHR ''h''" by (simp add: artifact_path_def path_join_def)
  show "artifact_path d \<noteq> RUNTIME_STATE_PATH"
  proof
    assume "artifact_path d = RUNTIME_STATE_PATH"
    with l show False by (simp add: RUNTIME_STATE_PATH_def)
  qed
  show "artifact_path d \<noteq> SCOPE_TABLE"
  proof
    assume "artifact_path d = SCOPE_TABLE"
    with l show False by (simp add: SCOPE_TABLE_def)
  qed
qed

lemma rt_attach:
  assumes "py_replace ''.bpf.o'' ''.bpf.c'' o_path \<noteq> RUNTIME_STATE_PATH"
    "py_replace ''.bpf.o'' ''.bpf.c'' o_path @ backup_suffix \<noteq> RUNTIME_STATE_PATH"
  shows "rt.keeps c (attach_constid jobs jump_opt project_root mode c' o_path)"
proof -
  let ?src = "py_replace ''.bpf.o'' ''.bpf.c'' o_path"
  have empty: "RUNTIME_STATE_PATH \<notin> {}" by simp
  have leaves:
    "rt.keeps c (generate_cs_file x)" "rt.keeps c (generate_ss_file x)" "rt.keeps c (write_artifact d m)"
    "rt.keeps c (try_jump_optimization ?src d)" for x d m
    using paths_differ artifact_path_differs [symmetric] assms
    by (auto intro!: rt_frame [of "{CS_FILE, SS_FILE, artifact_path d, ?src, ?src @ backup_suffix}"] frames)
  note quiet = frame_compile frame_load_and_attach frame_load_spans frame_active
  note quiet_rt = quiet [of "{}", THEN rt_frame, OF empty]
  show ?thesis
    unfolding attach_constid_def Let_def exit_with_def
    by (intro rt.keeps_intros leaves rt_kfuncs quiet_rt)
qed

lemma rt_global: "rt.keeps c (global_transition jobs project_root args c map_info)"
proof -
  have empty: "RUNTIME_STATE_PATH \<notin> {}" by simp
  note quiet = frame_modules frame_wait frame_rmmod frame_active
  note quiet_rt = quiet [of "{}", THEN rt_frame, OF empty]
  show ?thesis
    unfolding global_transition_def Let_def exit_with_def
    by (intro rt.keeps_intros rt_unload quiet_rt)
qed

lemma bpf_file_of_row:
  "list_all scope_row rows \<Longrightarrow> bpf_file_of c 0 5 (map scope_line rows) = f \<Longrightarrow> f \<noteq> [] \<Longrightarrow>
   \<exists>r \<in> set rows. r ! 0 = c \<and> r ! 5 = f"
proof (induction rows)
  case (Cons r rows)
  then show ?case
    by (cases "r ! 0 = c") (auto simp: fields_of_line Let_def scope_row_def)
qed simp

lemma resolve_run:
  assumes "scope w rows"
  shows "\<exists>res. resolve_constid_to_bpf c project_root h w = (w, Inr res) \<and>
    (\<forall>p f. res = Some (p, f) \<longrightarrow> (\<exists>r \<in> set rows. r ! 0 = c \<and> r ! 5 = f) \<and>
       p = path_join (path_join (path_join project_root ''bpf'') ''stubs'') f)"
proof (cases "files w SCOPE_TABLE")
  case None
  then show ?thesis by (simp add: resolve_constid_to_bpf_def io_simps)
next
  case (Some t)
  with assms have rows: "list_all scope_row rows" "t = scope_text rows" by (auto simp: scope_def)
  have f: "scope_bpf_file c t = bpf_file_of c 0 5 (map scope_line rows)"
    unfolding scope_bpf_file_def rows(2) readlines_scope [OF rows(1)] list.map list.case
      fields_of_line [OF scope_header_row] header_columns by simp
  show ?thesis
    using bpf_file_of_row [OF rows(1) f [symmetric]]
    by (simp add: resolve_constid_to_bpf_def io_simps Some Let_def)
qed

lemma number_ascii: "re_matches rx_number c \<Longrightarrow> ascii c"
proof -
  assume "re_matches rx_number c"
  then obtain u v where "c = u @ v" "list_all is_digit u" "at_eol v"
    by (auto simp: re_matches_iff rx_number_def mrel_iffs list_all_iff)
  then show ?thesis
    by (auto simp: ascii_def list_all_iff is_digit_def at_eol_def Let_def)
qed

text \<open>The last steps of a load: the status column and the state file.\<close>

definition load_tail :: "string \<Rightarrow> int \<Rightarrow> string \<Rightarrow> unit io" where
  "load_tail const_id mode bpf_filename =
     seqio (update_status const_id ''active'')
       (bindio get_runtime_state (\<lambda>state.
        bindio (lift (record_active const_id mode bpf_filename state)) (\<lambda>state'.
          save_runtime_state state')))"

lemma record_active_eq:
  assumes "json_plain (JObj d)" "map_of d ''active_const_ids'' = Some (JObj A)" "ascii c" "ascii f"
    "c \<notin> fst ` set A"
  shows "\<exists>d'. record_active c mode f (JObj d) = Inr (JObj d') \<and> json_plain (JObj d') \<and>
    map_of d' ''active_const_ids'' = Some (JObj (A @ [(c, constid_info mode f)]))"
proof -
  have "ascii ''mode''" "ascii ''bpf_file''" "ascii ''status''" "ascii ''active''" by code_simp+
  then have "json_plain (constid_info mode f)" using assms(4) by (simp add: constid_info_def)
  from json_plain_dput [OF json_plain_member [OF assms(1,2)] assms(3) this]
  have p: "json_plain (JObj (A @ [(c, constid_info mode f)]))"
    using dput_absent [OF assms(5)] by simp
  show ?thesis
    using json_plain_dput [OF assms(1) ascii_active p] assms(2) dput_absent [OF assms(5)]
    by (auto simp: record_active_def in_json_def has_key_def item_def set_item_def simp del: json_plain.simps)
qed

lemma load_tail_run:
  assumes inv: "in_step project_root w A rows" and c: "c \<notin> fst ` set A" "ascii c" "ascii f"
  shows "\<exists>w'. load_tail c mode f h w = (w', Inr ()) \<and>
    in_step project_root w' (A @ [(c, constid_info mode f)]) (map (set_status (\<lambda>r. r ! 0 = c) ''active'') rows)"
proof -
  have rw: "runtime w A" "scope w rows" using inv by (simp_all add: in_step_def)
  have ok: "status_text_ok ''active''" by code_simp
  obtain w1 where w1: "update_status c ''active'' h w = (w1, Inr ())"
    "scope w1 (map (set_status (\<lambda>r. r ! 0 = c) ''active'') rows)"
    "files w1 RUNTIME_STATE_PATH = files w RUNTIME_STATE_PATH"
    using update_status_run(1) [OF rw(2) ok] by blast
  have "runtime w1 A" using rw(1) runtime_files [OF w1(3)] by simp
  then obtain d where d: "\<And>h. get_runtime_state h w1 = (w1, Inr (JObj d))" "json_plain (JObj d)"
    "map_of d ''active_const_ids'' = Some (JObj A)"
    using get_state_run by blast
  obtain d' where d': "record_active c mode f (JObj d) = Inr (JObj d')" "json_plain (JObj d')"
    "map_of d' ''active_const_ids'' = Some (JObj (A @ [(c, constid_info mode f)]))"
    using record_active_eq [OF d(2,3) c(2,3,1)] by blast
  let ?w = "w1\<lparr>files := (files w1)(RUNTIME_STATE_PATH := Some (json_dumps 2 (JObj d')))\<rparr>"
  have run: "load_tail c mode f h w = (?w, Inr ())"
    by (simp add: load_tail_def io_simps w1(1) d(1) d'(1) save_state_run)
  have "scope ?w (map (set_status (\<lambda>r. r ! 0 = c) ''active'') rows)"
    using w1(2) paths_differ by (simp add: scope_def)
  moreover have "runtime ?w (A @ [(c, constid_info mode f)])" by (rule runtime_saved [OF d'(2,3)])
  moreover have "list_all (own_source project_root) (map (set_status (\<lambda>r. r ! 0 = c) ''active'') rows)"
    using inv by (auto simp: in_step_def list_all_iff own_source_def policy_source_def set_status_def)
  moreover have "list_all (\<lambda>r. active_row r \<longleftrightarrow> r ! 0 \<in> fst ` set (A @ [(c, constid_info mode f)]))
      (map (set_status (\<lambda>r. r ! 0 = c) ''active'') rows)"
    using inv by (auto simp: in_step_def list_all_iff active_row_def set_status_def scope_def scope_row_def)
  ultimately show ?thesis using run by (intro exI [of _ ?w]) (simp add: in_step_def)
qed

lemma in_step_keeps:
  "rt.keeps c m \<Longrightarrow> c \<notin> fst ` set A \<Longrightarrow> frame.keeps P m \<Longrightarrow> SCOPE_TABLE \<notin> P \<Longrightarrow>
   in_step project_root w A rows \<Longrightarrow> m h w = (w', r) \<Longrightarrow> in_step project_root w' A rows"
  using scope_frame [of P m w rows h] rt.keepsD [of c m w h] by (auto simp: in_step_def same_active_def)

definition load_body :: "string \<Rightarrow> bool \<Rightarrow> string \<Rightarrow> string list \<Rightarrow> int \<Rightarrow> string \<Rightarrow> string \<Rightarrow> string \<Rightarrow> unit io" where
  "load_body jobs jump_opt project_root args mode const_id bpf_o_path bpf_filename =
     bindio (attach_constid jobs jump_opt project_root mode const_id bpf_o_path) (\<lambda>map_info.
       seqio (if mode = 2 then global_transition jobs project_root args const_id map_info else ret ())
         (load_tail const_id mode bpf_filename))"

lemma load_body_in_step:
  assumes inv: "in_step project_root w A rows" and c: "c \<notin> fst ` set A" "ascii c"
    and r: "r \<in> set rows" "r ! 5 = f" "o_path = path_join (path_join (path_join project_root ''bpf'') ''stubs'') f"
    and run: "load_body jobs jump_opt project_root args mode c o_path f h w = (w', res)"
  shows "(\<exists>e. res = Inl e) \<and> in_step project_root w' A rows \<or>
    res = Inr () \<and> in_step project_root w' (A @ [(c, constid_info mode f)])
      (map (set_status (\<lambda>r. r ! 0 = c) ''active'') rows)"
proof -
  let ?src = "py_replace ''.bpf.o'' ''.bpf.c'' o_path"
  have own: "ascii f" "?src \<noteq> RUNTIME_STATE_PATH" "?src @ backup_suffix \<noteq> RUNTIME_STATE_PATH"
    "?src \<noteq> SCOPE_TABLE" "?src @ backup_suffix \<noteq> SCOPE_TABLE"
    using inv r by (auto simp: in_step_def list_all_iff own_source_def policy_source_def)
  have out: "SCOPE_TABLE \<notin> load_frame project_root ?src"
    using own paths_differ artifact_path_differs [symmetric] by (simp add: load_frame_def)
  obtain w1 x where a: "attach_constid jobs jump_opt project_root mode c o_path h w = (w1, x)" by force
  have i1: "in_step project_root w1 A rows"
    by (rule in_step_keeps [OF rt_attach [OF own(2,3)] c(1) frame_attach [OF subset_refl] out inv a])
  show ?thesis
  proof (cases x)
    case (Inl e)
    with run a i1 show ?thesis by (auto simp: load_body_def io_simps)
  next
    case (Inr map_info)
    let ?g = "if mode = 2 then global_transition jobs project_root args c map_info else ret ()"
    obtain w2 y where g: "?g h w1 = (w2, y)" by force
    have "rt.keeps c ?g" "frame.keeps {RUNTIME_STATE_PATH} ?g"
      by (auto intro: rt_global rt.keeps_basic frame_global frame.keeps_basic)
    then have i2: "in_step project_root w2 A rows"
      using in_step_keeps [of c ?g A "{RUNTIME_STATE_PATH}" project_root w1 rows h w2 y] c(1) i1 g paths_differ
      by auto
    have run2: "load_body jobs jump_opt project_root args mode c o_path f h w =
        (case y of Inl e \<Rightarrow> (w2, Inl e) | Inr u \<Rightarrow> load_tail c mode f h w2)"
      using a g Inr by (simp add: load_body_def io_simps)
    show ?thesis
    proof (cases y)
      case (Inl e)
      with run run2 i2 show ?thesis by auto
    next
      case (Inr u)
      with run run2 load_tail_run [OF i2 c own(1), of mode h] show ?thesis by auto
    qed
  qed
qed

lemma early_exit: "exit_with n h w = (w', r) \<Longrightarrow> w' = w \<and> r = Inl (SystemExit n)"
  by (simp add: exit_with_def io_simps)

lemma cmd_load_alt: "cmd_load jobs project_root argv =
    (let jump_opt = ''--jump-opt'' \<in> set argv;
         args = filter (\<lambda>a. a \<noteq> ''--jump-opt'') argv
     in if length args < 2 then exit_with 1
        else bindio (lift (or_value_error (py_int 10 (args ! 0)))) (\<lambda>mode.
          let const_id = args ! 1
          in if mode \<notin> {0, 1, 2} then exit_with 1
             else if \<not> re_matches rx_number const_id then exit_with 1
             else bindio get_runtime_state (\<lambda>state.
               bindio (lift (bindr (active_ids_of state) (in_json const_id))) (\<lambda>already.
               if already then exit_with 1
               else bindio (resolve_constid_to_bpf const_id project_root) (\<lambda>resolved. case resolved of
                 None \<Rightarrow> exit_with 1
               | Some (bpf_o_path, bpf_filename) \<Rightarrow>
                   bindio (file_text (py_replace ''.bpf.o'' ''.bpf.c'' bpf_o_path)) (\<lambda>src.
                   if src = None then exit_with 1
                   else load_body jobs jump_opt project_root args mode const_id bpf_o_path bpf_filename))))))"
  unfolding cmd_load_def load_body_def load_tail_def by (rule refl)

lemma load_outcome:
  assumes inv: "in_step project_root w A rows" and run: "cmd_load jobs project_root argv h w = (w', res)"
  shows "(\<exists>e. res = Inl e) \<and> in_step project_root w' A rows \<or>
    res = Inr () \<and> (\<exists>c mode f. c \<notin> fst ` set A \<and>
      in_step project_root w' (A @ [(c, constid_info mode f)]) (map (set_status (\<lambda>r. r ! 0 = c) ''active'') rows))"
proof -
  define args where "args = filter (\<lambda>a. a \<noteq> ''--jump-opt'') argv"
  define c where "c = args ! 1"
  show ?thesis
  proof (cases "length args < 2 \<or> py_int 10 (args ! 0) = None")
    case True
    have "\<exists>e. cmd_load jobs project_root argv h w = (w, Inl e)"
    proof (cases "length args < 2")
      case True
      then show ?thesis by (simp add: cmd_load_alt args_def [symmetric] io_simps exit_with_def)
    next
      case False
      then show ?thesis using True by (simp add: cmd_load_alt args_def [symmetric] io_simps)
    qed
    with run inv show ?thesis by auto
  next
    case False
    then obtain mode where mode: "py_int 10 (args ! 0) = Some mode" "\<not> length args < 2" by auto
    show ?thesis
    proof (cases "mode \<in> {0, 1, 2} \<and> re_matches rx_number c")
      case False
      then have "cmd_load jobs project_root argv h w = (w, Inl (SystemExit 1))"
        using mode by (auto simp: cmd_load_alt args_def [symmetric] c_def io_simps exit_with_def Let_def)
      with run inv show ?thesis by auto
    next
      case True
      obtain d where d: "\<And>h. get_runtime_state h w = (w, Inr (JObj d))"
        "map_of d ''active_const_ids'' = Some (JObj A)"
        using get_state_run inv by (force simp: in_step_def)
      have act: "bindr (active_ids_of (JObj d)) (in_json c) = Inr (has_key A c)"
        using d(2) by (simp add: active_ids_of_def get_item_def dget_def in_json_def)
      have key: "has_key A c \<longleftrightarrow> c \<in> fst ` set A"
        by (simp add: has_key_def map_of_eq_None_iff)
      have run': "cmd_load jobs project_root argv h w = (if has_key A c then exit_with 1
          else bindio (resolve_constid_to_bpf c project_root) (\<lambda>resolved. case resolved of
                 None \<Rightarrow> exit_with 1
               | Some (bpf_o_path, bpf_filename) \<Rightarrow>
                   bindio (file_text (py_replace ''.bpf.o'' ''.bpf.c'' bpf_o_path)) (\<lambda>src.
                   if src = None then exit_with 1
                   else load_body jobs (''--jump-opt'' \<in> set argv) project_root args mode c bpf_o_path bpf_filename))) h w"
        using True mode d(1) act
        by (auto simp: cmd_load_alt args_def [symmetric] c_def [symmetric] Let_def io_simps simp del: One_nat_def)
      show ?thesis
      proof (cases "has_key A c")
        case True
        with run run' inv show ?thesis by (auto simp: exit_with_def io_simps)
      next
        case False
        obtain x where x: "resolve_constid_to_bpf c project_root h w = (w, Inr x)"
          "\<And>p f. x = Some (p, f) \<Longrightarrow> (\<exists>r \<in> set rows. r ! 0 = c \<and> r ! 5 = f) \<and>
             p = path_join (path_join (path_join project_root ''bpf'') ''stubs'') f"
          using resolve_run [of w rows c project_root h] inv by (auto simp: in_step_def)
        show ?thesis
        proof (cases "\<exists>p f. x = Some (p, f) \<and> files w (py_replace ''.bpf.o'' ''.bpf.c'' p) \<noteq> None")
          case False
          with run run' x(1) \<open>\<not> has_key A c\<close> inv show ?thesis
            by (cases x) (auto simp: exit_with_def io_simps split: prod.splits)
        next
          case True
          then obtain p f where xp: "x = Some (p, f)" "files w (py_replace ''.bpf.o'' ''.bpf.c'' p) \<noteq> None" by blast
          then obtain r where r: "r \<in> set rows" "r ! 5 = f"
            "p = path_join (path_join (path_join project_root ''bpf'') ''stubs'') f"
            using x(2) by blast
          have "load_body jobs (''--jump-opt'' \<in> set argv) project_root args mode c p f h w = (w', res)"
            using run run' x(1) xp \<open>\<not> has_key A c\<close> by (simp add: io_simps)
          from load_body_in_step [OF inv _ number_ascii r this] key \<open>\<not> has_key A c\<close>
            \<open>mode \<in> {0, 1, 2} \<and> re_matches rx_number c\<close>
          show ?thesis by blast
        qed
      qed
    qed
  qed
qed

subsection \<open>Unloading\<close>

lemma seqio_Inr: "seqio m n h w = (w', Inr x) \<Longrightarrow> \<exists>w1. m h w = (w1, Inr ()) \<and> n h w1 = (w', Inr x)"
  by (auto simp: io_simps split: prod.splits sum.splits)

lemma bindio_Inr: "bindio m f h w = (w', Inr x) \<Longrightarrow> \<exists>w1 y. m h w = (w1, Inr y) \<and> f y h w1 = (w', Inr x)"
  by (auto simp: io_simps split: prod.splits sum.splits)

lemma lift_Inr: "bindio (lift r) f h w = (w', Inr x) \<Longrightarrow> \<exists>y. r = Inr y \<and> f y h w = (w', Inr x)"
  by (cases r) (auto simp: io_simps)

text \<open>The scope table keeps its rows up to their status.\<close>

definition scope_rows :: "string \<Rightarrow> world \<Rightarrow> string list list \<Rightarrow> bool" where
  "scope_rows project_root w rows \<longleftrightarrow> scope w rows \<and> list_all (own_source project_root) rows"

definition scope_kept :: "string \<Rightarrow> world \<Rightarrow> world \<Rightarrow> bool" where
  "scope_kept project_root a b \<longleftrightarrow> (\<forall>rows. scope_rows project_root a rows \<longrightarrow>
     (\<exists>rows'. scope_rows project_root b rows'))"

interpretation kept: io_contract "scope_kept project_root" for project_root
  by unfold_locales (auto simp: scope_kept_def scope_rows_def scope_def)

lemma kept_frame: "frame.keeps P m \<Longrightarrow> SCOPE_TABLE \<notin> P \<Longrightarrow> kept.keeps project_root m"
  using scope_frame by (fastforce simp: kept.keeps_def scope_kept_def scope_rows_def)

lemma own_set_status: "list_all (own_source project_root) rows \<Longrightarrow>
    list_all (own_source project_root) (map (set_status sel s) rows)"
  by (auto simp: list_all_iff own_source_def policy_source_def set_status_def)

lemma kept_status: "status_text_ok s \<Longrightarrow> kept.keeps project_root (update_status c s)"
proof -
  assume s: "status_text_ok s"
  have "\<exists>rows'. scope_rows project_root (fst (update_status c s h w)) rows'"
    if "scope_rows project_root w rows" for h w rows
    using that update_status_run(1) [OF _ s, of w rows c h] own_set_status [of project_root rows _ s]
    by (fastforce simp: scope_rows_def)
  then show ?thesis by (auto simp: kept.keeps_def scope_kept_def)
qed

lemma ready_ok: "status_text_ok ''ready''"
  by code_simp

lemma kept_reverse: "kept.keeps project_root (reverse_transition_single c info)"
  by (rule kept_frame [of "{RUNTIME_STATE_PATH}"]) (use paths_differ in \<open>auto intro: frames\<close>)

lemma unload_all_in_step:
  assumes rows: "scope_rows project_root w rows" and run: "unload_all active h w = (w', Inr ())"
  shows "\<exists>rows'. in_step project_root w' [] rows'"
proof -
  define first where "first = (if \<not> json_truthy active
         then bindio is_consistency_loaded (\<lambda>loaded.
           if loaded then drop_result rmmod_consistency else ret ())
         else bindio (lift (members_of active)) (\<lambda>d.
           each (\<lambda>(cid, info). seqio (reverse_transition_single cid info) (update_status cid ''ready'')) d))"
  obtain w1 w2 w3 w4 where w: "first h w = (w1, Inr ())" "cleanup_bpf_pins h w1 = (w2, Inr ())"
    "unload_kfuncs_if_loaded h w2 = (w3, Inr ())" "save_runtime_state fresh_state h w3 = (w4, Inr ())"
    "update_all_status ''ready'' h w4 = (w', Inr ())"
    using run unfolding unload_all_def first_def [symmetric] by (blast dest: seqio_Inr)
  have st: "SCOPE_TABLE \<notin> {RUNTIME_STATE_PATH}" using paths_differ by simp
  have "kept.keeps project_root first"
    unfolding first_def
    by (intro kept.keeps_intros kept_reverse kept_status ready_ok
        kept_frame [OF frame_modules(3) st] kept_frame [OF frame_drop_result [OF frame_rmmod] st])
  from kept.keeps_result [OF this w(1)] obtain r1 where r1: "scope_rows project_root w1 r1"
    using rows by (auto simp: scope_kept_def)
  from kept.keeps_result [OF kept_frame [OF frame_pins st] w(2)] obtain r2 where r2: "scope_rows project_root w2 r2"
    using r1 by (auto simp: scope_kept_def)
  from kept.keeps_result [OF kept_frame [OF frame_unload_kfuncs st] w(3)]
  obtain r3 where r3: "scope_rows project_root w3 r3"
    using r2 by (auto simp: scope_kept_def)
  have r4: "scope_rows project_root w4 r3"
    using r3 w(4) paths_differ by (auto simp: save_state_run scope_rows_def scope_def)
  have "runtime w4 []"
    using w(4) runtime_saved [of "[(''kfuncs_loaded'', JBool False), (''active_const_ids'', JObj [])]" "[]" w3]
    by (auto simp: save_state_run fresh_state_def ascii_def)
  moreover have "\<exists>w'. update_all_status ''ready'' h w4 = (w', Inr ()) \<and> scope w' (map (set_status (\<lambda>r. True) ''ready'') r3)
      \<and> files w' RUNTIME_STATE_PATH = files w4 RUNTIME_STATE_PATH"
    by (rule update_status_run(2) [OF _ ready_ok]) (use r4 in \<open>simp add: scope_rows_def\<close>)
  ultimately have "runtime w' []" "scope w' (map (set_status (\<lambda>r. True) ''ready'') r3)"
    using w(5) runtime_files [of w' w4] by auto
  moreover have "list_all (own_source project_root) (map (set_status (\<lambda>r. True) ''ready'') r3)"
    using r3 by (intro own_set_status) (simp add: scope_rows_def)
  moreover have "list_all (\<lambda>r. active_row r \<longleftrightarrow> r ! 0 \<in> fst ` set []) (map (set_status (\<lambda>r. True) ''ready'') r3)"
    using r3 by (auto simp: scope_rows_def scope_def list_all_iff scope_row_def active_row_def set_status_def)
  ultimately show ?thesis by (auto simp: in_step_def)
qed

definition agree :: "string list list \<Rightarrow> (string, json) dict \<Rightarrow> bool" where
  "agree rows A \<longleftrightarrow> list_all (\<lambda>r. active_row r \<longleftrightarrow> r ! 0 \<in> fst ` set A) rows"

lemma fst_set_dpop [simp]: "fst ` set (dpop c A) = fst ` set A - {c}"
  by (force simp: dpop_def)

lemma agree_dpop:
  assumes "agree rows A" "list_all scope_row rows"
  shows "agree (map (set_status (\<lambda>r. r ! 0 = c) ''ready'') rows) (dpop c A)"
proof -
  have "active_row (set_status (\<lambda>r. r ! 0 = c) ''ready'' r) \<longleftrightarrow>
      set_status (\<lambda>r. r ! 0 = c) ''ready'' r ! 0 \<in> fst ` set (dpop c A)" if "r \<in> set rows" for r
    using that assms by (cases "r ! 0 = c")
      (simp_all add: agree_def list_all_iff active_row_def set_status_def scope_row_def)
  then show ?thesis by (auto simp: agree_def list_all_iff)
qed

lemma unload_each_run:
  "unload_each (JObj A) cids h w = (w', Inr active') \<Longrightarrow> json_plain (JObj A) \<Longrightarrow>
   scope_rows project_root w rows \<Longrightarrow> agree rows A \<Longrightarrow>
   \<exists>A' rows'. active' = JObj A' \<and> json_plain (JObj A') \<and> fst ` set A' = fst ` set A - set cids \<and>
     scope_rows project_root w' rows' \<and> agree rows' A'"
proof (induction cids arbitrary: A w rows)
  case Nil
  then show ?case by (auto simp: io_simps)
next
  case (Cons c cids)
  have key: "has_key A c \<longleftrightarrow> c \<in> fst ` set A" by (simp add: has_key_def map_of_eq_None_iff)
  show ?case
  proof (cases "has_key A c")
    case False
    then have "unload_each (JObj A) cids h w = (w', Inr active')"
      using Cons.prems(1) by (simp add: in_json_def io_simps)
    from Cons.IH [OF this Cons.prems(2-4)] False key show ?thesis by auto
  next
    case True
    then obtain info where i: "map_of A c = Some info" by (auto simp: has_key_def)
    have "seqio (reverse_transition_single c info) (seqio (update_status c ''ready'')
        (unload_each (JObj (dpop c A)) cids)) h w = (w', Inr active')"
      using Cons.prems(1) True i by (simp add: in_json_def item_def pop_item_def)
    then obtain w1 w2 where w: "reverse_transition_single c info h w = (w1, Inr ())"
      "update_status c ''ready'' h w1 = (w2, Inr ())" "unload_each (JObj (dpop c A)) cids h w2 = (w', Inr active')"
      by (blast dest: seqio_Inr)
    have st: "SCOPE_TABLE \<notin> {RUNTIME_STATE_PATH}" using paths_differ by simp
    have s1: "scope_rows project_root w1 rows"
      using scope_frame [OF frame_reverse st, of w rows c info h] Cons.prems(3) w(1)
      by (simp add: scope_rows_def)
    let ?rows = "map (set_status (\<lambda>r. r ! 0 = c) ''ready'') rows"
    have s2: "scope_rows project_root w2 ?rows"
      using update_status_run(1) [OF _ ready_ok, of w1 rows c h] s1 w(2) own_set_status
      by (auto simp: scope_rows_def)
    have a2: "agree ?rows (dpop c A)"
      by (rule agree_dpop) (use Cons.prems in \<open>auto simp: scope_rows_def scope_def\<close>)
    from Cons.IH [OF w(3) json_plain_dpop [OF Cons.prems(2)] s2 a2]
    show ?thesis by auto
  qed
qed

lemma in_step_rows: "in_step project_root w A rows \<longleftrightarrow> runtime w A \<and> scope_rows project_root w rows \<and> agree rows A"
  by (auto simp: in_step_def scope_rows_def agree_def)

lemma bindio_run: "m h w = (w1, Inr x) \<Longrightarrow> bindio m f h w = f x h w1"
  by (simp add: bindio_def)

lemma lift_ret: "lift (Inr x) = ret x"
  by (simp add: lift_def ret_def)

lemma tail_keeps:
  assumes "in_step project_root w A rows" "c \<notin> fst ` set A"
    "(if b then seqio cleanup_bpf_pins unload_kfuncs_if_loaded else ret ()) h w = (w', r)"
  shows "in_step project_root w' A rows"
proof (rule in_step_keeps [of c "if b then seqio cleanup_bpf_pins unload_kfuncs_if_loaded else ret ()" A
      "{RUNTIME_STATE_PATH}" project_root w rows h w' r, OF _ assms(2) _ _ assms(1,3)])
  have "RUNTIME_STATE_PATH \<notin> {}" by simp
  then show "rt.keeps c (if b then seqio cleanup_bpf_pins unload_kfuncs_if_loaded else ret ())"
    by (intro rt.keeps_intros rt_frame [OF frame_pins] rt_unload_kfuncs)
  show "frame.keeps {RUNTIME_STATE_PATH} (if b then seqio cleanup_bpf_pins unload_kfuncs_if_loaded else ret ())"
    by (intro frame_rules frames) simp
  show "SCOPE_TABLE \<notin> {RUNTIME_STATE_PATH}" using paths_differ by simp
qed

lemma unload_outcome:
  assumes inv: "in_step project_root w A rows" and run: "cmd_unload args h w = (w', Inr ())"
  shows "\<exists>A' rows'. in_step project_root w' A' rows' \<and>
    fst ` set A' = (if ''--all'' \<in> set args \<or> args = [] then {} else fst ` set A - set args)"
proof -
  obtain d where d: "\<And>h. get_runtime_state h w = (w, Inr (JObj d))" "json_plain (JObj d)"
    "map_of d ''active_const_ids'' = Some (JObj A)"
    using get_state_run inv by (force simp: in_step_def)
  have act: "active_ids_of (JObj d) = Inr (JObj A)"
    using d(3) by (simp add: active_ids_of_def get_item_def dget_def)
  have plain_A: "json_plain (JObj A)" by (rule json_plain_member [OF d(2,3)])
  have rows: "scope_rows project_root w rows" "agree rows A" using inv by (simp_all add: in_step_rows)
  show ?thesis
  proof (cases "''--all'' \<in> set args \<or> args = []")
    case True
    then have "unload_all (JObj A) h w = (w', Inr ())"
      using run d(1) act by (simp add: cmd_unload_def io_simps)
    from unload_all_in_step [OF rows(1) this] True show ?thesis by auto
  next
    case False
    then have "bindio (unload_each (JObj A) args) (\<lambda>active'.
         bindio (lift (set_item (JObj d) ''active_const_ids'' active')) (\<lambda>state'.
           seqio (save_runtime_state state')
             (if \<not> json_truthy active' then seqio cleanup_bpf_pins unload_kfuncs_if_loaded else ret ())))
        h w = (w', Inr ())"
      using run False by (simp add: cmd_unload_def bindio_run [of get_runtime_state, OF d(1)] act lift_ret)
    then obtain w1 active' where w1: "unload_each (JObj A) args h w = (w1, Inr active')"
      "bindio (lift (set_item (JObj d) ''active_const_ids'' active')) (\<lambda>state'.
           seqio (save_runtime_state state')
             (if \<not> json_truthy active' then seqio cleanup_bpf_pins unload_kfuncs_if_loaded else ret ()))
        h w1 = (w', Inr ())"
      by (blast dest: bindio_Inr)
    obtain A' rows' where A': "active' = JObj A'" "json_plain (JObj A')" "fst ` set A' = fst ` set A - set args"
      "scope_rows project_root w1 rows'" "agree rows' A'"
      using unload_each_run [OF w1(1) plain_A rows] by blast
    define d' where "d' = dput ''active_const_ids'' (JObj A') d"
    have plain: "json_plain (JObj d')" "map_of d' ''active_const_ids'' = Some (JObj A')"
      using json_plain_dput [OF d(2) ascii_active A'(2)] by (simp_all add: d'_def)
    let ?w = "w1\<lparr>files := (files w1)(RUNTIME_STATE_PATH := Some (json_dumps 2 (JObj d')))\<rparr>"
    have tail: "(if A' = [] then seqio cleanup_bpf_pins unload_kfuncs_if_loaded else ret ()) h ?w = (w', Inr ())"
      using w1(2) by (simp add: A'(1) set_item_def d'_def save_state_run io_seq)
    have "in_step project_root ?w A' rows'"
      using A'(4,5) runtime_saved [OF plain, of w1] paths_differ
      by (simp add: in_step_rows scope_rows_def scope_def)
    then have "in_step project_root w' A' rows'"
    proof (cases "A' = []")
      case True
      with \<open>in_step project_root ?w A' rows'\<close> show ?thesis by (intro tail_keeps [OF _ _ tail, of _ _ _ "[]"]) auto
    next
      case False
      with tail \<open>in_step project_root ?w A' rows'\<close> show ?thesis by (simp add: io_simps)
    qed
    with A'(3) False show ?thesis by auto
  qed
qed

subsection \<open>Every reachable state\<close>

text \<open>
  The states the two commands lead to, from a scope table without active rows and no runtime
  state, in any order and whatever the kernel answers. A load may fail at any point; an
  unload that raises an exception half way is not a step.
\<close>

inductive reachable :: "string \<Rightarrow> world \<Rightarrow> bool" for project_root where
  start: "files w RUNTIME_STATE_PATH = None \<Longrightarrow> scope_rows project_root w rows \<Longrightarrow>
    \<forall>r \<in> set rows. \<not> active_row r \<Longrightarrow> reachable project_root w"
| load: "reachable project_root w \<Longrightarrow> cmd_load jobs project_root argv h w = (w', res) \<Longrightarrow>
    reachable project_root w'"
| unload: "reachable project_root w \<Longrightarrow> cmd_unload args h w = (w', Inr ()) \<Longrightarrow>
    reachable project_root w'"

lemma reachable_in_step: "reachable project_root w \<Longrightarrow> \<exists>A rows. in_step project_root w A rows"
proof (induction rule: reachable.induct)
  case (start w rows)
  then have "in_step project_root w [] rows"
    by (simp add: in_step_rows runtime_def agree_def list_all_iff)
  then show ?case by blast
next
  case (load w jobs argv h w' res)
  then show ?case using load_outcome by meson
next
  case (unload w args h w')
  then show ?case using unload_outcome by meson
qed

text \<open>C4: in every reachable state the scope table shows a constant as active exactly when the
  runtime state lists it, whatever was loaded and unloaded and whichever commands failed.\<close>

theorem status_agrees:
  "reachable project_root w \<Longrightarrow> \<exists>A rows. runtime w A \<and> scope w rows \<and>
     (\<forall>r \<in> set rows. r ! 6 = ''active'' \<longleftrightarrow> r ! 0 \<in> fst ` set A)"
  using reachable_in_step [of project_root w] by (force simp: in_step_def list_all_iff active_row_def)

text \<open>C10: a load either fails and leaves the status column and the list of active constants as
  they were, or succeeds and adds one constant that was not active.\<close>

theorem load_all_or_nothing:
  assumes "runtime w A" "scope w rows" "list_all (own_source project_root) rows"
    "\<forall>r \<in> set rows. active_row r \<longleftrightarrow> r ! 0 \<in> fst ` set A"
    "cmd_load jobs project_root argv h w = (w', res)"
  shows "(\<exists>e. res = Inl e) \<and> runtime w' A \<and> scope w' rows \<or>
    res = Inr () \<and> (\<exists>c mode f. c \<notin> fst ` set A \<and> runtime w' (A @ [(c, constid_info mode f)]) \<and>
      scope w' (map (set_status (\<lambda>r. r ! 0 = c) ''active'') rows))"
proof -
  have "in_step project_root w A rows" using assms(1-4) by (simp add: in_step_def list_all_iff)
  from load_outcome [OF this assms(5)] show ?thesis unfolding in_step_def by blast
qed

text \<open>C16: an unload that returns removes the named constants, or all of them, from the list of
  active constants, and the status column still agrees with it.\<close>

theorem unload_removes:
  assumes "runtime w A" "scope w rows" "list_all (own_source project_root) rows"
    "\<forall>r \<in> set rows. active_row r \<longleftrightarrow> r ! 0 \<in> fst ` set A"
    "cmd_unload args h w = (w', Inr ())"
  shows "\<exists>A' rows'. runtime w' A' \<and> scope w' rows' \<and>
    fst ` set A' = (if ''--all'' \<in> set args \<or> args = [] then {} else fst ` set A - set args) \<and>
    (\<forall>r \<in> set rows'. active_row r \<longleftrightarrow> r ! 0 \<in> fst ` set A')"
proof -
  have "in_step project_root w A rows" using assms(1-4) by (simp add: in_step_def list_all_iff)
  from unload_outcome [OF this assms(5)] show ?thesis unfolding in_step_def list_all_iff by blast
qed

section \<open>A constant loaded and unloaded\<close>

text \<open>A host on which every command succeeds, and a scope table of one constant.\<close>

definition willing_host :: env where
  "willing_host = \<lparr>h_run = \<lambda>es c. (0, if c = [''lsmod''] then ''xk_kfuncs '' else ''[]''),
     h_exists = \<lambda>es p. True, h_listdir = \<lambda>es p. [], h_unremovable = \<lambda>es p. False,
     h_bpftool = ''bpftool'', h_late = \<lambda>es. False\<rparr>"

definition one_row :: "string \<Rightarrow> string list" where
  "one_row status = [''1'', ''8'', ''x'', ''1'', ''1'', ''a.bpf.o'', status, ''0'']"

definition ready_world :: world where
  "ready_world = \<lparr>events = [], files = [SCOPE_TABLE \<mapsto> scope_text [one_row ''ready''],
     ''/x/bpf/stubs/a.bpf.c'' \<mapsto> []]\<rparr>"

definition one_active :: "(string, json) dict" where
  "one_active = [(''1'', constid_info 0 ''a.bpf.o'')]"

definition loaded_world :: world where
  "loaded_world = \<lparr>events = [], files = [SCOPE_TABLE \<mapsto> scope_text [one_row ''active''],
     RUNTIME_STATE_PATH \<mapsto> json_dumps 2 (JObj [(''active_const_ids'', JObj one_active)])]\<rparr>"

lemma ready_world:
  "runtime ready_world []" "scope ready_world [one_row ''ready'']"
  "own_source ''/x'' (one_row ''ready'')" "files ready_world RUNTIME_STATE_PATH = None"
  "\<not> active_row (one_row ''ready'')"
proof -
  have "scope_row (one_row ''ready'')" by code_simp
  then show "scope ready_world [one_row ''ready'']"
    using paths_differ by (simp add: scope_def ready_world_def SCOPE_TABLE_def)
  show n: "files ready_world RUNTIME_STATE_PATH = None"
    by (simp add: ready_world_def SCOPE_TABLE_def RUNTIME_STATE_PATH_def)
  then show "runtime ready_world []" by (simp add: runtime_def)
  show "own_source ''/x'' (one_row ''ready'')" "\<not> active_row (one_row ''ready'')" by code_simp+
qed

lemma loaded_world:
  "runtime loaded_world one_active" "scope loaded_world [one_row ''active'']"
  "own_source ''/x'' (one_row ''active'')"
proof -
  have "json_plain (JObj [(''active_const_ids'', JObj one_active)])" by code_simp
  then show "runtime loaded_world one_active"
    by (simp add: runtime_def loaded_world_def del: json_plain.simps) force
  have "scope_row (one_row ''active'')" by code_simp
  then show "scope loaded_world [one_row ''active'']"
    by (simp add: scope_def loaded_world_def SCOPE_TABLE_def RUNTIME_STATE_PATH_def)
  show "own_source ''/x'' (one_row ''active'')" by code_simp
qed

definition load_one :: "world \<times> unit res" where
  "load_one = cmd_load ''4'' ''/x'' [''0'', ''1''] willing_host ready_world"

definition unload_one :: "world \<times> unit res" where
  "unload_one = cmd_unload [''1''] willing_host loaded_world"

lemma one_succeeds: "snd load_one = Inr ()" "snd unload_one = Inr ()"
  by code_simp+

lemma reachable_load_one: "reachable ''/x'' (fst load_one)"
proof -
  have "reachable ''/x'' ready_world"
    by (rule reachable.start [of _ _ "[one_row ''ready'']"]) (simp_all add: ready_world scope_rows_def)
  then show ?thesis
    by (rule reachable.load [of _ _ "''4''" "[''0'', ''1'']" willing_host _ "snd load_one"])
      (simp add: load_one_def)
qed

theorem status_agrees_witness: "\<exists>A rows. runtime (fst load_one) A \<and> scope (fst load_one) rows \<and>
    (\<forall>r \<in> set rows. r ! 6 = ''active'' \<longleftrightarrow> r ! 0 \<in> fst ` set A)"
  by (rule status_agrees [OF reachable_load_one])

theorem load_all_or_nothing_witness:
  "\<exists>c mode f. runtime (fst load_one) [(c, constid_info mode f)] \<and>
     scope (fst load_one) [set_status (\<lambda>r. r ! 0 = c) ''active'' (one_row ''ready'')]"
  using load_all_or_nothing [OF ready_world(1,2), of "''/x''" "''4''" "[''0'', ''1'']" willing_host
      "fst load_one" "snd load_one"] ready_world one_succeeds
  by (simp add: load_one_def)

theorem unload_removes_witness:
  "\<exists>rows. runtime (fst unload_one) [] \<and> scope (fst unload_one) rows \<and> (\<forall>r \<in> set rows. \<not> active_row r)"
proof -
  have "active_row (one_row ''active'')" by code_simp
  then show ?thesis
    using unload_removes [OF loaded_world(1,2), of "''/x''" "[''1'']" willing_host "fst unload_one"]
      loaded_world(3) one_succeeds(2)
    by (auto simp: unload_one_def one_active_def one_row_def prod_eq_iff)
qed

end
