(* ===== verification/Image_Filter.thy ===== *)
theory Image_Filter
  imports Py_Regex "HOL-Library.Multiset" "HOL-Library.Sublist"
begin

text \<open>
  The textual side of \<open>src/src/diff.py\<close>: signatures of objdump lines that leave out
  addresses, registers and jump distances, and the filter that removes from a diff the
  pairs of a removed and an added line with the same signature.
\<close>

section \<open>Signatures\<close>

definition hex_or_space :: "char \<Rightarrow> bool" where
  "hex_or_space c \<longleftrightarrow> is_hex c \<or> is_space c"

definition letter :: "char \<Rightarrow> bool" where
  "letter c \<longleftrightarrow> is_lower c"

text \<open>\<open>^\s*\d+:\s*\<close>\<close>

definition rx_number_colon :: rx where
  "rx_number_colon = seqs [Bol, Many 0 is_space, Many 1 is_digit, lit '':'', Many 0 is_space]"

definition strip_leading_number_colon :: "string \<Rightarrow> string" where
  "strip_leading_number_colon line = re_sub rx_number_colon [] line"

text \<open>\<open>^\s*[-+]?\s*[0-9a-fA-F]+:\s+\<close>, the beginning that the patterns share, and what follows it.\<close>

definition after_address :: "rx list \<Rightarrow> rx" where
  "after_address rs = seqs ([Bol, Many 0 is_space, Opt (Cls (one_of ''-+'')), Many 0 is_space,
     Many 1 is_hex, lit '':'', Many 1 is_space] @ rs)"

definition rx_bytes :: rx where
  "rx_bytes = after_address [Grp 1 (Many 1 hex_or_space)]"

definition rx_mnemonic :: rx where
  "rx_mnemonic = after_address [Many 1 hex_or_space, Many 1 is_space, Grp 1 (Many 1 letter)]"

definition rx_operands :: rx where
  "rx_operands = after_address [Many 1 hex_or_space, Many 1 is_space, Many 1 letter, Many 1 is_space,
     Grp 1 (Many 1 dot)]"

definition extract_instruction_bytes :: "string \<Rightarrow> string option" where
  "extract_instruction_bytes line = (case re_match rx_bytes line of
     None \<Rightarrow> None
   | Some (g, _) \<Rightarrow> Some (join '' '' (split_ws (group g 1))))"

definition extract_mnemonic :: "string \<Rightarrow> string option" where
  "extract_mnemonic line = map_option (\<lambda>g. group g 1) (re_search rx_mnemonic line)"

text \<open>\<open>operands_str.split('#')[0].strip()\<close>\<close>

definition before_comment :: "string \<Rightarrow> string" where
  "before_comment s = py_strip (hd (split_on (CHR ''#'') s))"

definition rx_displacement :: rx where
  "rx_displacement = seqs [Opt (Grp 1 (Many 1 (\<lambda>c. is_hex c \<or> c = CHR ''x''))), Many 0 is_space, lit ''('']"

definition operand_type :: "string \<Rightarrow> string" where
  "operand_type op_text =
     (if starts_with ''$'' op_text then ''imm''
      else if CHR ''('' \<in> set op_text \<or> CHR ''['' \<in> set op_text then
        (case re_match rx_displacement op_text of
           None \<Rightarrow> ''mem''
         | Some (g, _) \<Rightarrow> ''mem:'' @ (if group g 1 = [] then ''0'' else group g 1))
      else if CHR ''<'' \<in> set op_text \<or> CHR ''>'' \<in> set op_text
        \<or> (\<not> starts_with ''%'' op_text \<and> \<not> list_ex is_digit op_text) then ''label''
      else ''reg'')"

definition extract_operand_types :: "string \<Rightarrow> string list" where
  "extract_operand_types line = (case re_search rx_operands line of
     None \<Rightarrow> []
   | Some g \<Rightarrow>
       if py_strip (group g 1) = [] then []
       else map operand_type (filter (\<lambda>p. p \<noteq> [])
         (map py_strip (split_on (CHR '','') (before_comment (py_strip (group g 1)))))))"

definition rx_hex_immediate :: rx where
  "rx_hex_immediate = seqs [lit ''$0x'', Grp 1 (Many 1 is_hex)]"

definition immediate_values :: "string \<Rightarrow> string list" where
  "immediate_values line = (case re_search rx_operands line of
     None \<Rightarrow> []
   | Some g \<Rightarrow> map (\<lambda>(b, m, caps). group caps 1)
       (re_finditer rx_hex_immediate (before_comment (group g 1))))"

definition is_offset_inst :: "string \<Rightarrow> bool" where
  "is_offset_inst mnemonic \<longleftrightarrow> list_ex (\<lambda>p. starts_with p mnemonic) [''j'', ''call'', ''loop'']"

text \<open>
  The opcode of a jump or call. \<open>int(first_byte, 16)\<close> of two characters of the bytes always
  succeeds, since they are hexadecimal digits.
\<close>

definition jump_opcode :: "string list \<Rightarrow> string" where
  "jump_opcode bytes_list =
     (let first_byte = py_lower (hd bytes_list);
          short = (length first_byte = 2 \<and>
            (case py_int 16 first_byte of None \<Rightarrow> False | Some n \<Rightarrow> 0x70 \<le> n \<and> n \<le> 0x7f))
      in if first_byte = ''0f'' \<and> 3 \<le> length bytes_list then join '' '' (take 2 bytes_list)
         else if first_byte \<in> {''e8'', ''e9'', ''eb''} \<or> short then hd bytes_list
         else join '' '' (take 2 bytes_list))"

definition normalize_instruction_for_comparison :: "string \<Rightarrow> string option" where
  "normalize_instruction_for_comparison line =
     (case extract_instruction_bytes line of
        None \<Rightarrow> None
      | Some bytes_str \<Rightarrow>
          if bytes_str = [] then None
          else (case extract_mnemonic line of
            None \<Rightarrow> Some (''bytes:'' @ bytes_str)
          | Some mnemonic \<Rightarrow>
              if is_offset_inst mnemonic then
                (if 2 \<le> length (split_ws bytes_str)
                 then Some (mnemonic @ '':'' @ jump_opcode (split_ws bytes_str)) else None)
              else
                (let types = extract_operand_types line;
                     operand_pattern = (if types = [] then ''none'' else join '','' types);
                     imms = immediate_values line
                 in Some (mnemonic @ '':'' @ operand_pattern
                      @ (if imms = [] then [] else '':imm='' @ join '','' imms)))))"

section \<open>The filter\<close>

definition is_removed :: "string \<Rightarrow> bool" where
  "is_removed line \<longleftrightarrow> starts_with ''-'' line"

definition is_added :: "string \<Rightarrow> bool" where
  "is_added line \<longleftrightarrow> starts_with ''+'' line"

definition is_hunk :: "string \<Rightarrow> bool" where
  "is_hunk line \<longleftrightarrow> starts_with ''@@'' line"

definition ends_hunk :: "string \<Rightarrow> bool" where
  "ends_hunk line \<longleftrightarrow> is_hunk line \<or> starts_with ''---'' line \<or> starts_with ''+++'' line"

text \<open>\<open>minus_lines\<close> and \<open>plus_lines\<close>: the numbered lines of a kind that have a signature.\<close>

definition signed_lines :: "(string \<Rightarrow> bool) \<Rightarrow> string list \<Rightarrow> (nat \<times> string) list" where
  "signed_lines kind lines = List.map_filter (\<lambda>(i, line).
     if kind line then map_option (Pair i) (normalize_instruction_for_comparison line) else None)
     (enumerate 0 lines)"

text \<open>The matching: the removed lines that have a partner, and the added lines used as partners.\<close>

fun match_lines :: "(nat \<times> string) list \<Rightarrow> (nat \<times> string) list \<Rightarrow> nat list \<Rightarrow> nat list \<times> nat list" where
  "match_lines [] plus_lines matched_plus = ([], matched_plus)"
| "match_lines ((minus_idx, minus_sig) # minus_lines) plus_lines matched_plus =
     (case find (\<lambda>(plus_idx, plus_sig). plus_idx \<notin> set matched_plus \<and> minus_sig = plus_sig) plus_lines of
        None \<Rightarrow> match_lines minus_lines plus_lines matched_plus
      | Some (plus_idx, _) \<Rightarrow>
          (let (d, m) = match_lines minus_lines plus_lines (plus_idx # matched_plus)
           in (minus_idx # d, m)))"

definition line_map :: "string list \<Rightarrow> nat \<Rightarrow> bool" where
  "line_map lines =
     (let (d, m) = match_lines (signed_lines is_removed lines) (signed_lines is_added lines) []
      in (\<lambda>i. i \<notin> set d \<and> i \<notin> set m))"

fun has_kept_changes :: "(nat \<Rightarrow> bool) \<Rightarrow> nat \<Rightarrow> string list \<Rightarrow> bool" where
  "has_kept_changes keep j [] = False"
| "has_kept_changes keep j (line # lines) =
     (if ends_hunk line then False
      else if keep j \<and> (is_removed line \<or> is_added line) then True
      else has_kept_changes keep (Suc j) lines)"

fun kept_lines :: "(nat \<Rightarrow> bool) \<Rightarrow> nat \<Rightarrow> string list \<Rightarrow> string list" where
  "kept_lines keep i [] = []"
| "kept_lines keep i (line # lines) =
     (if (if is_hunk line then has_kept_changes keep (Suc i) lines else keep i)
      then line # kept_lines keep (Suc i) lines else kept_lines keep (Suc i) lines)"

definition filter_address_offset_diff :: "string list \<Rightarrow> string list" where
  "filter_address_offset_diff diff_lines = kept_lines (line_map diff_lines) 0 diff_lines"

section \<open>What the filter keeps\<close>

text \<open>The signatures of the lines of a kind, and the lines that are no changed instruction.\<close>

definition signatures :: "(string \<Rightarrow> bool) \<Rightarrow> string list \<Rightarrow> string list" where
  "signatures kind lines = List.map_filter
     (\<lambda>line. if kind line then normalize_instruction_for_comparison line else None) lines"

definition no_insn_change :: "string \<Rightarrow> bool" where
  "no_insn_change line \<longleftrightarrow> (is_removed line \<or> is_added line \<longrightarrow> normalize_instruction_for_comparison line = None)"

definition signed_from :: "(string \<Rightarrow> bool) \<Rightarrow> nat \<Rightarrow> string list \<Rightarrow> (nat \<times> string) list" where
  "signed_from kind n lines = List.map_filter (\<lambda>(i, line).
     if kind line then map_option (Pair i) (normalize_instruction_for_comparison line) else None)
     (enumerate n lines)"

lemma signed_from_simps [simp]:
  "signed_from kind n [] = []"
  "signed_from kind n (line # lines) =
     (if kind line then case normalize_instruction_for_comparison line of
        None \<Rightarrow> signed_from kind (Suc n) lines | Some s \<Rightarrow> (n, s) # signed_from kind (Suc n) lines
      else signed_from kind (Suc n) lines)"
  by (auto simp: signed_from_def split: option.splits)

lemma signatures_simps [simp]:
  "signatures kind [] = []"
  "signatures kind (line # lines) =
     (if kind line then case normalize_instruction_for_comparison line of
        None \<Rightarrow> signatures kind lines | Some s \<Rightarrow> s # signatures kind lines
      else signatures kind lines)"
  by (auto simp: signatures_def split: option.splits)

lemma signed_from_texts: "map snd (signed_from kind n lines) = signatures kind lines"
  by (induction lines arbitrary: n) (auto split: option.splits)

lemma signed_from_index: "(i, s) \<in> set (signed_from kind n lines) \<Longrightarrow>
  n \<le> i \<and> i - n < length lines \<and> kind (lines ! (i - n)) \<and>
  normalize_instruction_for_comparison (lines ! (i - n)) = Some s"
proof (induction lines arbitrary: n)
  case (Cons line lines)
  show ?case
  proof (cases "(i, s) \<in> set (signed_from kind (Suc n) lines)")
    case True
    from Cons.IH [OF this] show ?thesis by (auto simp: nth_Cons' Suc_diff_Suc simp flip: diff_Suc_eq_diff_pred)
  next
    case False
    with Cons.prems show ?thesis by (auto split: if_splits option.splits)
  qed
qed simp

lemma signed_from_distinct: "distinct (map fst (signed_from kind n lines))"
proof (induction lines arbitrary: n)
  case (Cons line lines)
  have "n \<notin> fst ` set (signed_from kind (Suc n) lines)"
    using signed_from_index [of _ _ kind "Suc n" lines] by fastforce
  with Cons show ?case by (auto split: option.splits)
qed simp

lemma hunk_no_change [simp]: "is_hunk line \<Longrightarrow> \<not> is_removed line" "is_hunk line \<Longrightarrow> \<not> is_added line"
  by (cases line; simp add: is_hunk_def is_removed_def is_added_def)+

lemma removed_not_added: "is_removed line \<Longrightarrow> \<not> is_added line"
  by (cases line) (auto simp: is_removed_def is_added_def)

lemma kept_signatures:
  assumes "\<And>line. kind line \<Longrightarrow> \<not> is_hunk line"
  shows "signatures kind (kept_lines keep n lines) = map snd (filter (\<lambda>(i, s). keep i) (signed_from kind n lines))"
  using assms by (induction lines arbitrary: n) (auto split: option.splits)

lemma kept_unsigned:
  assumes "\<And>i. i < length lines \<Longrightarrow> no_insn_change (lines ! i) \<Longrightarrow> keep (n + i)"
  shows "filter (\<lambda>l. no_insn_change l \<and> \<not> is_hunk l) (kept_lines keep n lines) =
    filter (\<lambda>l. no_insn_change l \<and> \<not> is_hunk l) lines"
  using assms
proof (induction lines arbitrary: n)
  case (Cons line lines)
  have "keep (Suc n + i)" if "i < length lines" "no_insn_change (lines ! i)" for i
    using Cons.prems [of "Suc i"] that by simp
  then have "filter (\<lambda>l. no_insn_change l \<and> \<not> is_hunk l) (kept_lines keep (Suc n) lines) =
    filter (\<lambda>l. no_insn_change l \<and> \<not> is_hunk l) lines" by (rule Cons.IH)
  moreover have "no_insn_change line \<Longrightarrow> keep n" using Cons.prems [of 0] by simp
  ultimately show ?case by auto
qed simp

lemma kept_subseq: "subseq (kept_lines keep n lines) lines"
  by (induction lines arbitrary: n) auto

subsection \<open>The matching pairs equal signatures\<close>

definition free_plus :: "(nat \<times> string) list \<Rightarrow> nat list \<Rightarrow> string multiset" where
  "free_plus pls m = mset (map snd (filter (\<lambda>(i, s). i \<notin> set m) pls))"

lemma free_plus_use:
  assumes "distinct (map fst pls)" "(i, s) \<in> set pls" "i \<notin> set m"
  shows "free_plus pls m = add_mset s (free_plus pls (i # m))"
  using assms
proof (induction pls)
  case (Cons p pls)
  show ?case
  proof (cases "p = (i, s)")
    case True
    with Cons.prems have "i \<notin> fst ` set pls" by simp
    then have "filter (\<lambda>(j, s). j \<notin> set (i # m)) pls = filter (\<lambda>(j, s). j \<notin> set m) pls"
      by (intro filter_cong) force+
    with True Cons.prems show ?thesis by (simp add: free_plus_def)
  next
    case False
    with Cons have "free_plus pls m = add_mset s (free_plus pls (i # m))" by auto
    moreover have "(i, s) \<in> set pls" using Cons.prems(2) False by simp
    then have "i \<in> fst ` set pls" by force
    then have "fst p \<noteq> i" using Cons.prems(1) by auto
    ultimately show ?thesis by (cases p) (simp add: free_plus_def)
  qed
qed simp

lemma free_plus_mem: "s \<in># free_plus pls m \<longleftrightarrow> (\<exists>i. (i, s) \<in> set pls \<and> i \<notin> set m)"
  by (force simp: free_plus_def)

lemma find_SomeD: "find P xs = Some x \<Longrightarrow> x \<in> set xs \<and> P x"
  by (induction xs) (auto split: if_splits)

lemma match_lines_msets:
  assumes "distinct (map fst mns)" "distinct (map fst pls)"
    and "match_lines mns pls m = (d, m')"
  shows "mset (map snd (filter (\<lambda>(i, s). i \<notin> set d) mns)) = mset (map snd mns) - free_plus pls m"
    and "free_plus pls m' = free_plus pls m - mset (map snd mns)"
    and "set d \<subseteq> fst ` set mns" and "set m' \<subseteq> set m \<union> fst ` set pls"
proof -
  have "mset (map snd (filter (\<lambda>(i, s). i \<notin> set d) mns)) = mset (map snd mns) - free_plus pls m \<and>
    free_plus pls m' = free_plus pls m - mset (map snd mns) \<and>
    set d \<subseteq> fst ` set mns \<and> set m' \<subseteq> set m \<union> fst ` set pls"
    using assms
  proof (induction mns arbitrary: m d m')
    case (Cons p mns)
    obtain i s where p: "p = (i, s)" by (cases p)
    let ?f = "find (\<lambda>(j, t). j \<notin> set m \<and> s = t) pls"
    show ?case
    proof (cases ?f)
      case None
      then have none: "s \<notin># free_plus pls m" by (force simp: find_None_iff free_plus_mem)
      from None Cons.prems have m: "match_lines mns pls m = (d, m')" by (simp add: p)
      from Cons.IH [OF _ _ m] Cons.prems
      have IH: "mset (map snd (filter (\<lambda>(i, s). i \<notin> set d) mns)) = mset (map snd mns) - free_plus pls m"
        "free_plus pls m' = free_plus pls m - mset (map snd mns)"
        "set d \<subseteq> fst ` set mns" "set m' \<subseteq> set m \<union> fst ` set pls" by simp_all
      have "i \<notin> set d" using IH(3) Cons.prems(1) p by auto
      then show ?thesis using IH none by (auto simp: p add_mset_diff_bothsides multiset_eq_iff not_in_iff)
    next
      case (Some q)
      then obtain j where q: "q = (j, s)" "(j, s) \<in> set pls" "j \<notin> set m"
        using find_SomeD [of _ pls q] by (cases q) fastforce
      obtain d1 where m: "match_lines mns pls (j # m) = (d1, m')" "d = i # d1"
        using Some Cons.prems(3) by (auto simp: p q(1) split: prod.splits)
      from Cons.IH [OF _ _ m(1)] Cons.prems
      have IH: "mset (map snd (filter (\<lambda>(i, s). i \<notin> set d1) mns)) = mset (map snd mns) - free_plus pls (j # m)"
        "free_plus pls m' = free_plus pls (j # m) - mset (map snd mns)"
        "set d1 \<subseteq> fst ` set mns" "set m' \<subseteq> set (j # m) \<union> fst ` set pls" by simp_all
      have use: "free_plus pls m = add_mset s (free_plus pls (j # m))"
        using Cons.prems(2) q by (intro free_plus_use)
      have "filter (\<lambda>(k, s). k \<notin> set d) mns = filter (\<lambda>(k, s). k \<notin> set d1) mns"
        using Cons.prems(1) p m(2) by (intro filter_cong) force+
      then have "mset (map snd (filter (\<lambda>(k, s). k \<notin> set d) (p # mns))) =
          mset (map snd mns) - free_plus pls (j # m)"
        using IH(1) by (simp add: p m(2))
      moreover have "j \<in> fst ` set pls" using q(2) by force
      ultimately show ?thesis using IH use by (auto simp: p m(2))
    qed
  qed simp
  then show "mset (map snd (filter (\<lambda>(i, s). i \<notin> set d) mns)) = mset (map snd mns) - free_plus pls m"
    and "free_plus pls m' = free_plus pls m - mset (map snd mns)"
    and "set d \<subseteq> fst ` set mns" and "set m' \<subseteq> set m \<union> fst ` set pls" by blast+
qed

lemma line_map_facts:
  assumes "line_map lines = keep"
  shows "mset (map snd (filter (\<lambda>(i, s). keep i) (signed_lines is_removed lines))) =
      mset (signatures is_removed lines) - mset (signatures is_added lines)"
    and "mset (map snd (filter (\<lambda>(i, s). keep i) (signed_lines is_added lines))) =
      mset (signatures is_added lines) - mset (signatures is_removed lines)"
    and "i < length lines \<Longrightarrow> no_insn_change (lines ! i) \<Longrightarrow> keep i"
proof -
  let ?mns = "signed_lines is_removed lines" and ?pls = "signed_lines is_added lines"
  have sl: "signed_lines kind lines = signed_from kind 0 lines" for kind
    by (simp add: signed_lines_def signed_from_def)
  have at: "kind (lines ! i)" "normalize_instruction_for_comparison (lines ! i) = Some s" "i < length lines"
    if "(i, s) \<in> set (signed_lines kind lines)" for kind i s
    using signed_from_index [of i s kind 0 lines] that by (simp_all add: sl)
  obtain d m where dm: "match_lines ?mns ?pls [] = (d, m)" by (cases "match_lines ?mns ?pls []")
  have keep: "keep i \<longleftrightarrow> i \<notin> set d \<and> i \<notin> set m" for i
    using assms dm by (auto simp: line_map_def)
  have dis: "distinct (map fst ?mns)" "distinct (map fst ?pls)" by (simp_all add: sl signed_from_distinct)
  have free: "free_plus ?pls [] = mset (signatures is_added lines)"
    by (simp add: free_plus_def sl signed_from_texts)
  note facts = match_lines_msets [OF dis dm]
  have d: "set d \<subseteq> fst ` set ?mns" and m: "set m \<subseteq> fst ` set ?pls" using facts(3,4) by auto
  have "False" if "(j, s) \<in> set ?mns" "(j, t) \<in> set ?pls" for j s t
    using at(1) [OF that(1)] at(1) [OF that(2)] removed_not_added by blast
  then have apart: "fst ` set ?mns \<inter> fst ` set ?pls = {}" by force
  have "j \<notin> set m" if "(j, s) \<in> set ?mns" for j s
    using apart m imageI [OF that, of fst] by auto
  then have "filter (\<lambda>(i, s). keep i) ?mns = filter (\<lambda>(i, s). i \<notin> set d) ?mns"
    by (intro filter_cong) (auto simp: keep)
  then show "mset (map snd (filter (\<lambda>(i, s). keep i) ?mns)) =
      mset (signatures is_removed lines) - mset (signatures is_added lines)"
    using facts(1) free by (simp only: sl signed_from_texts)
  have "j \<notin> set d" if "(j, s) \<in> set ?pls" for j s
    using apart d imageI [OF that, of fst] by auto
  then have "filter (\<lambda>(i, s). keep i) ?pls = filter (\<lambda>(i, s). i \<notin> set m) ?pls"
    by (intro filter_cong) (auto simp: keep)
  moreover have "mset (map snd (filter (\<lambda>(i, s). i \<notin> set m) ?pls)) = free_plus ?pls m"
    by (simp only: free_plus_def)
  ultimately show "mset (map snd (filter (\<lambda>(i, s). keep i) ?pls)) =
      mset (signatures is_added lines) - mset (signatures is_removed lines)"
    using facts(2) free by (simp only: sl signed_from_texts)
  have "\<not> no_insn_change (lines ! j)" if "j \<in> fst ` set ?mns \<union> fst ` set ?pls" for j
    using at [of j _ is_removed] at [of j _ is_added] that by (auto simp: no_insn_change_def)
  then have "i \<notin> fst ` set ?mns \<union> fst ` set ?pls" if "no_insn_change (lines ! i)" for i
    using that by fast
  then have "i \<notin> set d" "i \<notin> set m" if "no_insn_change (lines ! i)" for i
    using d m that by (meson UnI1 UnI2 subsetD)+
  then show "keep i" if "i < length lines" "no_insn_change (lines ! i)"
    using that(2) by (simp add: keep)
qed

lemma filtered:
  "mset (signatures is_removed (filter_address_offset_diff lines)) =
     mset (signatures is_removed lines) - mset (signatures is_added lines)"
  "mset (signatures is_added (filter_address_offset_diff lines)) =
     mset (signatures is_added lines) - mset (signatures is_removed lines)"
  "filter (\<lambda>l. no_insn_change l \<and> \<not> is_hunk l) (filter_address_offset_diff lines) =
     filter (\<lambda>l. no_insn_change l \<and> \<not> is_hunk l) lines"
  "subseq (filter_address_offset_diff lines) lines"
proof -
  note facts = line_map_facts [where lines = lines, OF refl]
  have sl: "signed_lines kind lines = signed_from kind 0 lines" for kind
    by (simp add: signed_lines_def signed_from_def)
  have "signatures kind (filter_address_offset_diff lines) =
      map snd (filter (\<lambda>(i, s). line_map lines i) (signed_lines kind lines))"
    if "kind = is_removed \<or> kind = is_added" for kind
    unfolding filter_address_offset_diff_def sl using that by (intro kept_signatures) auto
  then show "mset (signatures is_removed (filter_address_offset_diff lines)) =
     mset (signatures is_removed lines) - mset (signatures is_added lines)"
    "mset (signatures is_added (filter_address_offset_diff lines)) =
     mset (signatures is_added lines) - mset (signatures is_removed lines)"
    using facts(1,2) by simp_all
  show "filter (\<lambda>l. no_insn_change l \<and> \<not> is_hunk l) (filter_address_offset_diff lines) =
     filter (\<lambda>l. no_insn_change l \<and> \<not> is_hunk l) lines"
    unfolding filter_address_offset_diff_def by (rule kept_unsigned) (simp add: facts(3))
  show "subseq (filter_address_offset_diff lines) lines"
    by (simp add: filter_address_offset_diff_def kept_subseq)
qed

text \<open>
  C7: the filter removes exactly the pairs of a removed and an added instruction with equal
  signatures: of each signature as many removed (added) lines are left as it has more removed
  (added) than added (removed) ones. Other lines stay, except hunk headers, and the order is kept.
\<close>

theorem filter_keeps_differences:
  "mset (signatures is_removed (filter_address_offset_diff lines)) =
     mset (signatures is_removed lines) - mset (signatures is_added lines) \<and>
   mset (signatures is_added (filter_address_offset_diff lines)) =
     mset (signatures is_added lines) - mset (signatures is_removed lines) \<and>
   filter (\<lambda>l. no_insn_change l \<and> \<not> is_hunk l) (filter_address_offset_diff lines) =
     filter (\<lambda>l. no_insn_change l \<and> \<not> is_hunk l) lines \<and>
   subseq (filter_address_offset_diff lines) lines"
  by (simp only: filtered)

subsection \<open>Filtering twice\<close>

lemma match_lines_disjoint:
  "set (map snd mns) \<inter> set (map snd pls) = {} \<Longrightarrow> match_lines mns pls m = ([], m)"
proof (induction mns arbitrary: m)
  case (Cons p mns)
  obtain i s where p: "p = (i, s)" by (cases p)
  have "find (\<lambda>(j, t). j \<notin> set m \<and> s = t) pls = None"
    using Cons.prems by (force simp: find_None_iff p)
  with Cons show ?case by (simp add: p)
qed simp

lemma has_kept_again:
  "has_kept_changes keep n lines \<Longrightarrow> has_kept_changes (\<lambda>_. True) m (kept_lines keep n lines)"
proof (induction lines arbitrary: n m)
  case (Cons line lines)
  then have "\<not> is_hunk line" by (auto simp: ends_hunk_def split: if_splits)
  with Cons show ?case by (auto split: if_splits)
qed simp

lemma kept_again: "kept_lines (\<lambda>_. True) m (kept_lines keep n lines) = kept_lines keep n lines"
  by (induction lines arbitrary: n m) (auto simp: has_kept_again)

text \<open>Filtering a diff a second time changes nothing.\<close>

theorem filter_idempotent:
  "filter_address_offset_diff (filter_address_offset_diff lines) = filter_address_offset_diff lines"
proof -
  let ?out = "filter_address_offset_diff lines"
  have "set (signatures is_removed ?out) \<inter> set (signatures is_added ?out) = {}"
  proof -
    have "set_mset (A - B) \<inter> set_mset (B - A) = {}" for A B :: "string multiset"
      by (auto simp: in_diff_count)
    then show ?thesis using filtered(1,2) [of lines]
      by (metis set_mset_mset)
  qed
  then have "match_lines (signed_lines is_removed ?out) (signed_lines is_added ?out) [] = ([], [])"
    by (intro match_lines_disjoint)
      (simp only: signed_lines_def signed_from_def [symmetric] signed_from_texts)
  then have "line_map ?out = (\<lambda>_. True)" by (simp add: line_map_def)
  then show ?thesis by (simp add: filter_address_offset_diff_def kept_again)
qed

subsection \<open>What a signature leaves out\<close>

text \<open>
  The names of the compared files are lines of the diff without a signature, so the filtered
  diff of two files that differ is never empty.
\<close>

lemma headers_kept:
  assumes "header \<in> set lines" "starts_with ''---'' header \<or> starts_with ''+++'' header"
  shows "header \<in> set (filter_address_offset_diff lines)"
proof -
  obtain c rest where h: "header = c # c # c # rest" "c = CHR ''-'' \<or> c = CHR ''+''"
    using assms(2) by (cases header; cases "tl header"; cases "tl (tl header)") auto
  have "fails rx_bytes None header"
    using h by (auto simp: fails_def rx_bytes_def after_address_def mrel_iffs one_of_def Cons_eq_append_conv
        is_hex_def is_space_def is_digit_def)
  then have "no_insn_change header"
    by (simp add: no_insn_change_def normalize_instruction_for_comparison_def extract_instruction_bytes_def fails_match)
  moreover have "\<not> is_hunk header" using h by (auto simp: is_hunk_def)
  ultimately have "header \<in> set (filter (\<lambda>l. no_insn_change l \<and> \<not> is_hunk l) lines)" using assms(1) by simp
  then show ?thesis unfolding filtered(3) [of lines, symmetric] by simp
qed

text \<open>Two stores of one instruction to different places have one signature.\<close>

lemma negative_displacement_ignored:
  "normalize_instruction_for_comparison ''- 4: 8b 45 f8  mov -0x8(%rbp),%eax'' =
   normalize_instruction_for_comparison ''+ 4: 8b 45 f0  mov -0x10(%rbp),%eax''"
  by code_simp

text \<open>The scale of an index register is a part of its own, taken for a register.\<close>

lemma scale_ignored:
  "normalize_instruction_for_comparison ''- 4: 8b 04 88  mov (%rax,%rcx,4),%eax'' =
   normalize_instruction_for_comparison ''+ 4: 8b 04 c8  mov (%rax,%rcx,8),%eax''"
  by code_simp

text \<open>Letters of the mnemonic that are hexadecimal digits are taken for bytes.\<close>

lemma bytes_of_cmp: "extract_instruction_bytes ''e1: 66 41 39 c6 cmp %ax,%r14w'' = Some ''66 41 39 c6 c''"
  by code_simp

end
