(* ===== verification/Image_Blocks.thy ===== *)
theory Image_Blocks
  imports Image_Filter
begin

text \<open>
  What \<open>src/src/diff.py\<close> reads from the output of \<open>objdump -d\<close>: sections, functions,
  instructions with their line numbers, basic blocks, and the offsets of changed
  instructions in a linked kernel. A file is its text.
\<close>

section \<open>Lines of a listing\<close>

text \<open>\<open>^Disassembly of section (\.text[^:]+):\<close>, and any section line.\<close>

definition rx_section :: rx where
  "rx_section = seqs [Bol, lit ''Disassembly of section '',
     Grp 1 (Seq (lit ''.text'') (Many 1 (not_of '':''))), lit '':'']"

definition rx_any_section :: rx where
  "rx_any_section = seqs [Bol, lit ''Disassembly of section'']"

text \<open>\<open>^([0-9a-fA-F]+)\s+<([^>]+)>:\<close>, and the same after spaces.\<close>

definition rx_symbol_tail :: "rx list" where
  "rx_symbol_tail = [Grp 1 (Many 1 is_hex), Many 1 is_space, lit ''<'', Grp 2 (Many 1 (not_of ''>'')), lit ''>:'']"

definition rx_symbol :: rx where
  "rx_symbol = seqs (Bol # rx_symbol_tail)"

definition rx_symbol_ws :: rx where
  "rx_symbol_ws = seqs ([Bol, Many 0 is_space] @ rx_symbol_tail)"

text \<open>\<open>^\s+([0-9a-fA-F]+):\<close>, and with the text of the instruction.\<close>

definition rx_insn_address :: rx where
  "rx_insn_address = seqs [Bol, Many 1 is_space, Grp 1 (Many 1 is_hex), lit '':'']"

definition rx_insn_line :: rx where
  "rx_insn_line = seqs [Bol, Many 1 is_space, Grp 1 (Many 1 is_hex), lit '':'', Many 1 is_space,
     Grp 2 (Many 1 dot)]"

definition line_section :: "string \<Rightarrow> string option" where
  "line_section line = map_option (\<lambda>(g, _). group g 1) (re_match rx_section line)"

definition line_symbol :: "string \<Rightarrow> (string \<times> string) option" where
  "line_symbol line = map_option (\<lambda>(g, _). (group g 1, group g 2)) (re_match rx_symbol line)"

definition line_address :: "string \<Rightarrow> string option" where
  "line_address line = map_option (\<lambda>(g, _). group g 1) (re_match rx_insn_address line)"

text \<open>\<open>int(s, 16)\<close> of a text that the patterns above have matched.\<close>

definition hex_value :: "string \<Rightarrow> int" where
  "hex_value s = (case py_int 16 s of None \<Rightarrow> 0 | Some n \<Rightarrow> n)"

section \<open>Functions\<close>

type_synonym function_sizes = "(string, string \<times> string \<times> int) dict"

definition hidden_symbol :: "string \<Rightarrow> bool" where
  "hidden_symbol func_name \<longleftrightarrow> starts_with ''__pfx_'' func_name \<or> ends_with ''.cold'' func_name"

text \<open>The functions of one section; the last one ends at the last instruction.\<close>

fun close_section :: "(string \<times> string) list \<Rightarrow> string option \<Rightarrow> function_sizes \<Rightarrow> function_sizes" where
  "close_section [] last_addr functions = functions"
| "close_section ((start_addr, func_name) # rest) last_addr functions =
     (let end_addr = (case rest of
            (next_addr, _) # _ \<Rightarrow> next_addr
          | [] \<Rightarrow> (case last_addr of Some a \<Rightarrow> a | None \<Rightarrow> start_addr))
      in close_section rest last_addr
           (dput func_name (start_addr, end_addr, hex_value end_addr - hex_value start_addr) functions))"

record section_scan =
  ss_functions :: function_sizes
  ss_section :: "string option"
  ss_symbols :: "(string \<times> string) list"
  ss_last :: "string option"

definition section_step :: "string \<Rightarrow> section_scan \<Rightarrow> section_scan" where
  "section_step line st =
     (case line_section line of
        Some name \<Rightarrow> \<lparr>ss_functions = close_section (ss_symbols st) (ss_last st) (ss_functions st),
          ss_section = Some name, ss_symbols = [], ss_last = None\<rparr>
      | None \<Rightarrow>
          (let st1 = (case line_symbol line of
                 None \<Rightarrow> st
               | Some (start_addr, func_name) \<Rightarrow>
                   if hidden_symbol func_name then st
                   else st\<lparr>ss_symbols := ss_symbols st @ [(start_addr, func_name)]\<rparr>)
           in if ss_section st1 = None then st1
              else (case line_address line of None \<Rightarrow> st1 | Some a \<Rightarrow> st1\<lparr>ss_last := Some a\<rparr>)))"

definition parse_functions_from_disassembly :: "string \<Rightarrow> function_sizes" where
  "parse_functions_from_disassembly text =
     (let st = fold section_step (readlines text)
        \<lparr>ss_functions = [], ss_section = None, ss_symbols = [], ss_last = None\<rparr>
      in close_section (ss_symbols st) (ss_last st) (ss_functions st))"

section \<open>The function of an address\<close>

type_synonym function_info = "string \<times> string \<times> string \<times> int \<times> nat"

text \<open>The last instruction before the next symbol or section: its address and line index.\<close>

fun function_end :: "string list \<Rightarrow> nat \<Rightarrow> int \<Rightarrow> nat \<Rightarrow> int \<times> nat" where
  "function_end [] j end_addr end_idx = (end_addr, end_idx)"
| "function_end (line # lines) j end_addr end_idx =
     (if line_symbol line \<noteq> None \<or> re_matches rx_any_section line then (end_addr, end_idx)
      else (case line_address line of
          Some a \<Rightarrow> function_end lines (Suc j) (hex_value a) j
        | None \<Rightarrow> function_end lines (Suc j) end_addr end_idx))"

text \<open>\<open>for j in range(i, -1, -1)\<close>: the line of the symbol with the given address.\<close>

fun symbol_line_back :: "string list \<Rightarrow> string \<Rightarrow> nat \<Rightarrow> nat option" where
  "symbol_line_back lines start_addr 0 =
     (case line_symbol (lines ! 0) of
        Some (a, _) \<Rightarrow> if a = start_addr then Some 0 else None | None \<Rightarrow> None)"
| "symbol_line_back lines start_addr (Suc j) =
     (case line_symbol (lines ! Suc j) of
        Some (a, _) \<Rightarrow> if a = start_addr then Some (Suc j) else symbol_line_back lines start_addr j
      | None \<Rightarrow> symbol_line_back lines start_addr j)"

definition section_function :: "string \<Rightarrow> string" where
  "section_function name =
     (if starts_with ''.text.unlikely.'' name then drop (length ''.text.unlikely.'') name
      else if starts_with ''.text.'' name then drop (length ''.text.'') name else name)"

definition function_at :: "string list \<Rightarrow> nat \<Rightarrow> int \<Rightarrow> string \<Rightarrow> string \<Rightarrow> function_info" where
  "function_at lines i inst_addr func_name func_start =
     (let (end_addr, end_idx) = function_end (drop (Suc i) lines) (Suc i) inst_addr i;
          count = (case symbol_line_back lines func_start i of
            None \<Rightarrow> 0
          | Some s \<Rightarrow> length (filter (\<lambda>line. line_address line \<noteq> None) (take (end_idx - s) (drop (Suc s) lines))))
      in (func_name, func_start, hex_of end_addr, end_addr - hex_value func_start, count))"

record function_scan =
  fs_section :: "string option"
  fs_func :: "(string \<times> string) option"
  fs_best :: "(function_info \<times> nat) option"

definition closer :: "nat option \<Rightarrow> nat \<Rightarrow> (function_info \<times> nat) option \<Rightarrow> bool" where
  "closer line_number line best = (case (line_number, best) of
     (Some n, Some (_, b)) \<Rightarrow> \<bar>int line - int n\<bar> < \<bar>int b - int n\<bar>
   | _ \<Rightarrow> True)"

definition address_step :: "string list \<Rightarrow> int \<Rightarrow> nat option \<Rightarrow> nat \<times> string \<Rightarrow> function_scan \<Rightarrow> function_scan" where
  "address_step lines addr line_number = (\<lambda>(i, line) st.
     case line_section line of
       Some name \<Rightarrow> st\<lparr>fs_section := Some name, fs_func := None\<rparr>
     | None \<Rightarrow>
         (case line_symbol line of
            Some (func_start, func_name) \<Rightarrow>
              if hidden_symbol func_name then st else st\<lparr>fs_func := Some (func_name, func_start)\<rparr>
          | None \<Rightarrow>
              (case (fs_func st, line_address line) of
                 (Some (func_name, func_start), Some a) \<Rightarrow>
                   if hex_value a = addr \<and> hex_value func_start \<le> addr
                     \<and> (case fs_section st of None \<Rightarrow> True | Some s \<Rightarrow> section_function s = func_name)
                     \<and> closer line_number (Suc i) (fs_best st)
                   then st\<lparr>fs_best := Some (function_at lines i addr func_name func_start, Suc i)\<rparr>
                   else st
               | _ \<Rightarrow> st)))"

definition find_function_for_address_in_file :: "string \<Rightarrow> string \<Rightarrow> nat option \<Rightarrow> function_info option" where
  "find_function_for_address_in_file text addr_str line_number =
     (case py_int 16 addr_str of
        None \<Rightarrow> None
      | Some addr \<Rightarrow>
          (let lines = readlines text
           in map_option fst (fs_best (fold (address_step lines addr line_number) (enumerate 0 lines)
                \<lparr>fs_section = None, fs_func = None, fs_best = None\<rparr>))))"

section \<open>Instructions\<close>

record disas_insn =
  di_addr :: string
  di_text :: string
  di_label :: bool
  di_line :: nat

definition listing_labels :: "string list \<Rightarrow> string list" where
  "listing_labels lines = List.map_filter (\<lambda>line.
     map_option (\<lambda>(g, _). group g 1) (re_match rx_symbol_ws line)) lines"

definition disas_line :: "string list \<Rightarrow> nat \<times> string \<Rightarrow> disas_insn option" where
  "disas_line labels = (\<lambda>(line_num, line).
     if re_matches rx_any_section line \<or> re_matches rx_symbol_ws line then None
     else map_option (\<lambda>(g, _). \<lparr>di_addr = group g 1, di_text = py_strip (group g 2),
         di_label = group g 1 \<in> set labels, di_line = line_num\<rparr>) (re_match rx_insn_line line))"

definition parse_instructions_from_disassembly :: "string \<Rightarrow> disas_insn list" where
  "parse_instructions_from_disassembly text =
     (let lines = readlines text
      in List.map_filter (disas_line (listing_labels lines)) (enumerate 1 lines))"

definition is_basic_block_terminator :: "string option \<Rightarrow> bool" where
  "is_basic_block_terminator mnemonic = (case mnemonic of
     None \<Rightarrow> False
   | Some m \<Rightarrow> starts_with ''j'' m \<or> m = ''call'' \<or> m \<in> {''ret'', ''retq'', ''retn''})"

definition insn_mnemonic :: "disas_insn \<Rightarrow> string option" where
  "insn_mnemonic ins = extract_mnemonic (''  '' @ di_addr ins @ '': '' @ di_text ins)"

definition terminates :: "disas_insn \<Rightarrow> bool" where
  "terminates ins = is_basic_block_terminator (insn_mnemonic ins)"

section \<open>Basic blocks\<close>

text \<open>
  The search backwards from an instruction: to a label, behind a terminator, or to the first
  instruction. Behind the last instruction there is no block; \<open>fallback\<close> is what the code
  takes then.
\<close>

fun block_start :: "disas_insn list \<Rightarrow> nat option \<Rightarrow> nat \<Rightarrow> nat option" where
  "block_start instructions fallback i =
     (if di_label (instructions ! i) then Some i
      else if terminates (instructions ! i)
      then (if Suc i < length instructions then Some (Suc i) else fallback)
      else (case i of 0 \<Rightarrow> Some 0 | Suc k \<Rightarrow> block_start instructions fallback k))"

declare block_start.simps [simp del]

text \<open>The search forwards, over the instructions from index \<open>i\<close> on.\<close>

fun block_end :: "nat \<Rightarrow> nat \<Rightarrow> nat \<Rightarrow> disas_insn list \<Rightarrow> nat" where
  "block_end start_idx i end_idx [] = end_idx"
| "block_end start_idx i end_idx (ins # rest) =
     (if di_label ins \<and> i > start_idx then i - 1
      else if terminates ins then i else block_end start_idx (Suc i) i rest)"

definition block_range :: "disas_insn list \<Rightarrow> nat option \<Rightarrow> nat \<Rightarrow> (nat \<times> nat) option" where
  "block_range instructions fallback target_idx =
     (case block_start instructions fallback target_idx of
        None \<Rightarrow> None
      | Some start_idx \<Rightarrow>
          Some (start_idx, block_end start_idx start_idx start_idx (drop start_idx instructions)))"

definition between :: "nat \<Rightarrow> nat \<Rightarrow> 'a list \<Rightarrow> 'a list" where
  "between start_idx end_idx xs = take (Suc end_idx - start_idx) (drop start_idx xs)"

text \<open>
  With a function name only the instructions of that function are searched: the first label
  whose own line names it, up to the next label.
\<close>

definition names_function :: "string list \<Rightarrow> string \<Rightarrow> disas_insn \<Rightarrow> bool" where
  "names_function lines function_name ins \<longleftrightarrow> di_label ins \<and> di_line ins \<le> length lines \<and>
     (case re_match rx_symbol_ws (lines ! (di_line ins - 1)) of
        None \<Rightarrow> False | Some (g, _) \<Rightarrow> group g 2 = function_name)"

definition function_instructions :: "string list \<Rightarrow> string \<Rightarrow> disas_insn list \<Rightarrow> disas_insn list option" where
  "function_instructions lines function_name instructions =
     (case dropWhile (\<lambda>ins. \<not> names_function lines function_name ins) instructions of
        [] \<Rightarrow> None
      | ins # rest \<Rightarrow> Some (ins # takeWhile (\<lambda>ins. \<not> di_label ins) rest))"

definition searched_instructions :: "string \<Rightarrow> string option \<Rightarrow> disas_insn list option" where
  "searched_instructions text function_name =
     (let instructions = parse_instructions_from_disassembly text
      in if instructions = [] then None
         else (case function_name of
             None \<Rightarrow> Some instructions
           | Some f \<Rightarrow> if f = [] then Some instructions
               else function_instructions (readlines text) f instructions))"

text \<open>The first instruction at the address; a larger address before it ends the search.\<close>

fun address_index :: "int \<Rightarrow> nat \<Rightarrow> disas_insn list \<Rightarrow> nat option" where
  "address_index target_addr i [] = None"
| "address_index target_addr i (ins # rest) =
     (if hex_value (di_addr ins) = target_addr then Some i
      else if hex_value (di_addr ins) > target_addr then None
      else address_index target_addr (Suc i) rest)"

definition find_instruction_line_in_file :: "string \<Rightarrow> string \<Rightarrow> string option \<Rightarrow> (nat \<times> string) option" where
  "find_instruction_line_in_file text addr_str function_name =
     (case py_int 16 addr_str of
        None \<Rightarrow> None
      | Some target_addr \<Rightarrow>
          (case searched_instructions text function_name of
             None \<Rightarrow> None
           | Some instructions \<Rightarrow>
               map_option (\<lambda>i. (di_line (instructions ! i), di_text (instructions ! i)))
                 (address_index target_addr 0 instructions)))"

definition block_texts :: "disas_insn list \<Rightarrow> (string \<times> string) list" where
  "block_texts instructions = map (\<lambda>ins. (di_addr ins, di_text ins)) instructions"

definition find_basic_block_for_address :: "string \<Rightarrow> string \<Rightarrow> string option \<Rightarrow> (string \<times> string) list option" where
  "find_basic_block_for_address text addr_str function_name =
     (case py_int 16 addr_str of
        None \<Rightarrow> None
      | Some target_addr \<Rightarrow>
          (case searched_instructions text function_name of
             None \<Rightarrow> None
           | Some instructions \<Rightarrow>
               (case address_index target_addr 0 instructions of
                  None \<Rightarrow> None
                | Some target_idx \<Rightarrow>
                    (case block_range instructions None target_idx of
                       None \<Rightarrow> None
                     | Some (start_idx, end_idx) \<Rightarrow>
                         Some (block_texts (between start_idx end_idx instructions))))))"

definition get_basic_block_key :: "(string \<times> string) list \<Rightarrow> (string \<times> string) option" where
  "get_basic_block_key basic_block =
     (if basic_block = [] then None else Some (fst (hd basic_block), fst (last basic_block)))"

section \<open>Changed instructions of a linked kernel\<close>

text \<open>\<open>^\s*[-+]\s+([0-9a-fA-F]+):\<close>\<close>

definition rx_diff_address :: rx where
  "rx_diff_address = seqs [Bol, Many 0 is_space, Cls (one_of ''-+''), Many 1 is_space,
     Grp 1 (Many 1 is_hex), lit '':'']"

definition diff_address :: "string \<Rightarrow> string option" where
  "diff_address line = map_option (\<lambda>g. group g 1) (re_search rx_diff_address line)"

definition changed_address :: "string \<Rightarrow> string option" where
  "changed_address line =
     (if (is_removed line \<or> is_added line) \<and> \<not> starts_with ''---'' line \<and> \<not> starts_with ''+++'' line
      then diff_address line else None)"

definition detect_affected_functions_from_diff :: "string list \<Rightarrow> string \<Rightarrow> string list" where
  "detect_affected_functions_from_diff diff_lines original =
     remdups (List.map_filter (\<lambda>addr. map_option fst (find_function_for_address_in_file original addr None))
       (List.map_filter changed_address diff_lines))"

text \<open>\<open>^([0-9a-fA-F]+)\s+<name>:\<close>\<close>

definition rx_function_start :: "string \<Rightarrow> rx" where
  "rx_function_start func_name = seqs [Bol, Grp 1 (Many 1 is_hex), Many 1 is_space, lit ''<'',
     lit func_name, lit ''>:'']"

fun first_value :: "('a \<Rightarrow> 'b option) \<Rightarrow> 'a list \<Rightarrow> 'b option" where
  "first_value f [] = None"
| "first_value f (x # xs) = (case f x of Some y \<Rightarrow> Some y | None \<Rightarrow> first_value f xs)"

definition extract_function_start_from_vmlinux_disas :: "string \<Rightarrow> string \<Rightarrow> int option" where
  "extract_function_start_from_vmlinux_disas text func_name =
     first_value (\<lambda>line. map_option (\<lambda>(g, _). hex_value (group g 1)) (re_match (rx_function_start func_name) line))
       (readlines text)"

definition rx_signed_address :: "char \<Rightarrow> rx" where
  "rx_signed_address sign = seqs [Bol, Cls (\<lambda>c. c = sign), Many 0 is_space, Grp 1 (Many 1 is_hex), lit '':'']"

definition vmlinux_change :: "int \<Rightarrow> string \<Rightarrow> (string \<times> string \<times> bool) option" where
  "vmlinux_change func_start line =
     (let entry = (\<lambda>sign original. map_option (\<lambda>g.
            (hex0x (hex_value (group g 1) - func_start), py_strip line, original))
            (re_search (rx_signed_address sign) line))
      in if is_removed line \<and> \<not> starts_with ''---'' line then entry (CHR ''-'') True
         else if is_added line \<and> \<not> starts_with ''+++'' line then entry (CHR ''+'') False
         else None)"

definition parse_vmlinux_diff_with_offsets :: "string list \<Rightarrow> string \<Rightarrow> string \<Rightarrow> (string \<times> string \<times> bool) list" where
  "parse_vmlinux_diff_with_offsets filtered_diff original func_name =
     (case extract_function_start_from_vmlinux_disas original func_name of
        None \<Rightarrow> []
      | Some func_start \<Rightarrow> List.map_filter (vmlinux_change func_start) filtered_diff)"

text \<open>\<open>^\s*([0-9a-fA-F]+):\s+\<close>\<close>

definition rx_any_address :: rx where
  "rx_any_address = seqs [Bol, Many 0 is_space, Grp 1 (Many 1 is_hex), lit '':'', Many 1 is_space]"

fun next_address :: "int \<Rightarrow> bool \<Rightarrow> string list \<Rightarrow> int option" where
  "next_address changed_addr found_changed [] = None"
| "next_address changed_addr found_changed (line # lines) =
     (case re_match rx_any_address line of
        None \<Rightarrow> next_address changed_addr found_changed lines
      | Some (g, _) \<Rightarrow>
          (let addr = hex_value (group g 1)
           in if found_changed then Some addr
              else next_address changed_addr (addr = changed_addr) lines))"

definition find_next_instruction_offset :: "string \<Rightarrow> string \<Rightarrow> int \<Rightarrow> int option" where
  "find_next_instruction_offset text func_name changed_offset =
     (case extract_function_start_from_vmlinux_disas text func_name of
        None \<Rightarrow> None
      | Some func_start \<Rightarrow>
          map_option (\<lambda>addr. addr - func_start)
            (next_address (func_start + changed_offset) False (readlines text)))"

section \<open>The lines to look at\<close>

fun lines_part :: "string \<Rightarrow> int list" where
  "lines_part part =
     (let p = py_strip part
      in if CHR ''-'' \<in> set p then
           (case split_on (CHR ''-'') p of
              [a, b] \<Rightarrow> (case (py_int 10 a, py_int 10 b) of
                  (Some s, Some e) \<Rightarrow> if s > e then [e .. s] else [s .. e] | _ \<Rightarrow> [])
            | _ \<Rightarrow> [])
         else (case py_int 10 p of Some n \<Rightarrow> [n] | None \<Rightarrow> []))"

definition parse_lines_argument :: "string \<Rightarrow> int list" where
  "parse_lines_argument lines_str = sort (remdups (concat (map lines_part (split_on (CHR '','') lines_str))))"

section \<open>Properties\<close>

subsection \<open>Blocks\<close>

text \<open>A block begins at the first instruction, at a label, or behind a terminator.\<close>

definition boundary :: "disas_insn list \<Rightarrow> nat \<Rightarrow> bool" where
  "boundary ins i \<longleftrightarrow> i = 0 \<or> di_label (ins ! i) \<or> terminates (ins ! (i - 1))"

definition inside_block :: "disas_insn list \<Rightarrow> nat \<Rightarrow> bool" where
  "inside_block ins i \<longleftrightarrow> i < length ins \<and> (di_label (ins ! i) \<or> \<not> terminates (ins ! i)) \<and>
     (\<forall>j < i. di_label (ins ! j) \<longrightarrow> \<not> terminates (ins ! j))"

lemma block_start_boundary:
  "inside_block ins i \<Longrightarrow> \<exists>s. block_start ins fallback i = Some s \<and> s \<le> i \<and> boundary ins s \<and>
     (\<forall>k. s < k \<and> k \<le> i \<longrightarrow> \<not> boundary ins k)"
proof (induction i)
  case 0
  then show ?case by (subst block_start.simps) (auto simp: inside_block_def boundary_def)
next
  case (Suc i)
  show ?case
  proof (cases "di_label (ins ! Suc i)")
    case True
    then show ?thesis by (subst block_start.simps) (auto simp: boundary_def)
  next
    case False
    with Suc.prems have nt: "\<not> terminates (ins ! Suc i)" and len: "Suc i < length ins"
      by (auto simp: inside_block_def)
    have step: "block_start ins fallback (Suc i) = block_start ins fallback i"
      using False nt by (subst block_start.simps) simp
    show ?thesis
    proof (cases "terminates (ins ! i)")
      case True
      then have "\<not> di_label (ins ! i)" using Suc.prems by (auto simp: inside_block_def)
      then have "block_start ins fallback i = Some (Suc i)"
        using True len by (subst block_start.simps) simp
      then show ?thesis using True step by (auto simp: boundary_def)
    next
      case nti: False
      then have "inside_block ins i" using Suc.prems by (auto simp: inside_block_def)
      from Suc.IH [OF this] obtain s where s: "block_start ins fallback i = Some s" "s \<le> i" "boundary ins s"
        "\<forall>k. s < k \<and> k \<le> i \<longrightarrow> \<not> boundary ins k" by blast
      moreover have "\<not> boundary ins (Suc i)" using False nti by (simp add: boundary_def)
      ultimately show ?thesis using step by (auto simp: le_Suc_eq)
    qed
  qed
qed

lemma block_end_boundary:
  assumes "rest = drop i ins" "s \<le> i" "i \<le> length ins" "s < length ins" "e = (if i = s then s else i - 1)"
    "\<forall>k. s < k \<and> k < i \<longrightarrow> \<not> boundary ins k" "s < i \<longrightarrow> \<not> terminates (ins ! (i - 1))"
    "r = block_end s i e rest"
  shows "s \<le> r \<and> r < length ins \<and> (\<forall>k. s < k \<and> k \<le> r \<longrightarrow> \<not> boundary ins k) \<and>
    (Suc r < length ins \<longrightarrow> boundary ins (Suc r))"
  using assms
proof (induction rest arbitrary: i e)
  case Nil
  then have "i = length ins" "s < i" "r = i - 1" by auto
  with Nil show ?case by (auto simp: Suc_le_eq)
next
  case (Cons x rest)
  have i: "i < length ins" and x: "x = ins ! i" and rest: "rest = drop (Suc i) ins"
    using Cons.prems(1) by (metis drop_eq_Nil leI list.discI, metis hd_drop_conv_nth list.sel(1) drop_eq_Nil leI list.discI,
        metis drop_Suc tl_drop list.sel(3))
  show ?case
  proof (cases "di_label x \<and> i > s")
    case True
    then have "r = i - 1" using Cons.prems(5,8) by simp
    then show ?thesis using True i x Cons.prems(6) by (auto simp: boundary_def)
  next
    case nolabel: False
    have nb: "\<forall>k. s < k \<and> k < Suc i \<longrightarrow> \<not> boundary ins k"
      using nolabel x Cons.prems(6,7) by (auto simp: less_Suc_eq boundary_def)
    show ?thesis
    proof (cases "terminates x")
      case True
      then have "r = i" using nolabel Cons.prems(8) by auto
      then show ?thesis using True i x nb Cons.prems(2) by (auto simp: boundary_def less_Suc_eq_le)
    next
      case False
      then have "r = block_end s (Suc i) i rest" using nolabel Cons.prems(8) by auto
      then show ?thesis
        using Cons.IH [OF rest _ _ Cons.prems(4) _ nb] i False x Cons.prems(2) by simp
    qed
  qed
qed

text \<open>
  C29: the block found for an instruction that ends no block is the stretch between two block
  boundaries around it: it contains the instruction, begins at a boundary, has none inside and
  is followed by one or by the end. No label before may itself be a terminator.
\<close>

theorem block_is_between_boundaries:
  assumes "inside_block ins i"
  shows "\<exists>s e. block_range ins fallback i = Some (s, e) \<and> s \<le> i \<and> i \<le> e \<and> e < length ins \<and>
    boundary ins s \<and> (\<forall>k. s < k \<and> k \<le> e \<longrightarrow> \<not> boundary ins k) \<and>
    (Suc e < length ins \<longrightarrow> boundary ins (Suc e))"
proof -
  from block_start_boundary [OF assms] obtain s where s: "block_start ins fallback i = Some s" "s \<le> i"
    "boundary ins s" "\<forall>k. s < k \<and> k \<le> i \<longrightarrow> \<not> boundary ins k" by blast
  define e where "e = block_end s s s (drop s ins)"
  have i: "i < length ins" using assms by (simp add: inside_block_def)
  have e: "s \<le> e \<and> e < length ins \<and> (\<forall>k. s < k \<and> k \<le> e \<longrightarrow> \<not> boundary ins k) \<and>
      (Suc e < length ins \<longrightarrow> boundary ins (Suc e))"
    using s(2) i by (intro block_end_boundary [OF refl _ _ _ _ _ _ e_def]) auto
  moreover have "i \<le> e" using s(4) e i by (meson Suc_leI le_imp_less_Suc not_le_imp_less order.strict_trans1)
  ultimately show ?thesis using s by (auto simp: block_range_def e_def)
qed

definition sample_insns :: "disas_insn list" where
  "sample_insns = [\<lparr>di_addr = ''0'', di_text = ''e8 0 0 0 0 call 5 <f>'', di_label = False, di_line = 3\<rparr>,
     \<lparr>di_addr = ''5'', di_text = ''be c8 0 0 0 mov $0xc8,%esi'', di_label = False, di_line = 4\<rparr>,
     \<lparr>di_addr = ''a'', di_text = ''c3 ret'', di_label = False, di_line = 5\<rparr>]"

theorem block_is_between_boundaries_witness:
  "\<exists>s e. block_range sample_insns None 1 = Some (s, e) \<and> s \<le> 1 \<and> 1 \<le> e \<and> boundary sample_insns s"
proof -
  have "\<not> terminates (sample_insns ! 1)" by code_simp
  then have "inside_block sample_insns 1" by (auto simp: inside_block_def sample_insns_def less_Suc_eq)
  from block_is_between_boundaries [OF this] show ?thesis by blast
qed

text \<open>A changed terminator gets the block behind it.\<close>

lemma terminator_block:
  assumes "i < length ins" "terminates (ins ! i)" "\<not> di_label (ins ! i)"
  shows "block_range ins (Some i) i =
    (if Suc i < length ins then Some (Suc i, block_end (Suc i) (Suc i) (Suc i) (drop (Suc i) ins))
     else Some (i, i))"
proof -
  have "block_start ins (Some i) i = (if Suc i < length ins then Some (Suc i) else Some i)"
    using assms(2,3) by (subst block_start.simps) simp
  moreover have "drop i ins = [ins ! i]" if "\<not> Suc i < length ins"
    using that assms(1) by (simp add: Cons_nth_drop_Suc [symmetric])
  ultimately show ?thesis using assms(2) by (simp add: block_range_def)
qed

lemma no_pair_None: "(\<forall>a b. x \<noteq> Some (a, b)) \<longleftrightarrow> x = None"
  by (cases x) auto

lemma label_lines: "ins \<in> set (parse_instructions_from_disassembly text) \<Longrightarrow>
  1 \<le> di_line ins \<and> di_line ins \<le> length (readlines text) \<and>
  re_match rx_symbol_ws (readlines text ! (di_line ins - 1)) = None"
  by (auto simp: parse_instructions_from_disassembly_def disas_line_def List.map_filter_def Let_def
      re_matches_def in_set_enumerate_eq no_pair_None split: if_splits option.splits)

lemma no_function_instructions: "set instructions \<subseteq> set (parse_instructions_from_disassembly text) \<Longrightarrow>
  function_instructions (readlines text) f instructions = None"
proof (induction instructions)
  case (Cons ins instructions)
  then show ?case using label_lines [of ins] by (simp add: function_instructions_def names_function_def)
qed (simp add: function_instructions_def)

text \<open>
  A block asked for by address and function name is never found: the label test looks at
  the instruction's own line, which is never a symbol line.
\<close>

theorem named_function_not_found:
  assumes "f \<noteq> []"
  shows "find_basic_block_for_address text addr_str (Some f) = None \<and>
    find_instruction_line_in_file text addr_str (Some f) = None"
  using assms no_function_instructions [OF subset_refl]
  by (auto simp: find_basic_block_for_address_def find_instruction_line_in_file_def searched_instructions_def
      Let_def split: option.splits)

theorem named_function_not_found_witness:
  "find_basic_block_for_address (''0000000000000000 <f>:'' @ [NL] @ ''   0: c3 ret'' @ [NL]) ''0'' (Some ''f'') = None"
  using named_function_not_found [of "''f''"] by simp

subsection \<open>The requested lines\<close>

text \<open>The line filter is the sorted list of the numbers and ranges written, in any order.\<close>

theorem parse_lines_sorted:
  "sorted_wrt (<) (parse_lines_argument s) \<and>
   set (parse_lines_argument s) = (\<Union>p \<in> set (split_on (CHR '','') s). set (lines_part p))"
  by (simp add: parse_lines_argument_def strict_sorted_iff)

text \<open>
  When a function begins with a terminator (\<open>call __fentry__\<close>) and its label is known, the block
  of the next instruction does not contain it.
\<close>

lemma label_terminator_block:
  "block_range [\<lparr>di_addr = ''0'', di_text = ''e8 0 call 5'', di_label = True, di_line = 2\<rparr>,
     \<lparr>di_addr = ''5'', di_text = ''90 nop'', di_label = False, di_line = 3\<rparr>] None 1 = Some (0, 0)"
  by code_simp

end
