(* ===== verification/Image_Report.thy ===== *)
theory Image_Report
  imports Image_Blocks Kcore_Translate BB_Files
begin

text \<open>
  The report of \<open>src/src/diff.py\<close> on a changed object file (steps 10 to 12 of \<open>main\<close>) and
  its readers: \<open>src/src/gen.py\<close> cuts the basic blocks out of the printed report into the
  files that \<open>codegen.py\<close> reads (\<open>BB_Files\<close>). \<open>addr2line\<close> is a parameter, the output is
  the text that is printed.
\<close>

section \<open>Printing\<close>

definition ESC :: char where "ESC = CHR 0x1B"

definition ansi_code :: "string \<Rightarrow> string" where
  "ansi_code color =
     (if color = ''red'' then ''91'' else if color = ''green'' then ''92''
      else if color = ''yellow'' then ''93'' else ''94'')"

definition print_color :: "string \<Rightarrow> string \<Rightarrow> string" where
  "print_color color s = [ESC] @ ''['' @ ansi_code color @ ''m'' @ s @ [ESC] @ ''[0m'' @ [NL]"

definition print_line :: "string \<Rightarrow> string" where
  "print_line s = s @ [NL]"

section \<open>Changed instructions\<close>

text \<open>The line, the offset asked for, and the line number in the listing.\<close>

type_synonym changed_insn = "string \<times> string \<times> nat option"

record hunk =
  hk_start :: "nat option"
  hk_offset :: nat
  hk_start_recompiled :: "nat option"
  hk_offset_recompiled :: nat

definition no_hunk :: hunk where
  "no_hunk = \<lparr>hk_start = None, hk_offset = 0, hk_start_recompiled = None, hk_offset_recompiled = 0\<rparr>"

text \<open>\<open>@@\s+-(\d+)(?:,(\d+))?\s+\+(\d+)(?:,(\d+))?\s+@@\<close>\<close>

definition rx_hunk :: rx where
  "rx_hunk = (let count = (\<lambda>n. Opt (seqs [lit '','', Grp n (Many 1 is_digit)]))
     in seqs [lit ''@@'', Many 1 is_space, lit ''-'', Grp 1 (Many 1 is_digit), count 2, Many 1 is_space,
       lit ''+'', Grp 3 (Many 1 is_digit), count 4, Many 1 is_space, lit ''@@''])"

definition decimal :: "string \<Rightarrow> nat" where
  "decimal s = (case py_int 10 s of None \<Rightarrow> 0 | Some n \<Rightarrow> nat n)"

definition enter_hunk :: "string \<Rightarrow> hunk \<Rightarrow> hunk" where
  "enter_hunk line hk =
     (if is_hunk line then
        (case re_search rx_hunk line of
           None \<Rightarrow> hk
         | Some g \<Rightarrow> \<lparr>hk_start = Some (decimal (group g 1)), hk_offset = 0,
             hk_start_recompiled = Some (decimal (group g 3)), hk_offset_recompiled = 0\<rparr>)
      else hk)"

text \<open>The numbers of the line in the original and in the recompiled listing.\<close>

definition number_line :: "string \<Rightarrow> hunk \<Rightarrow> nat option \<times> nat option \<times> hunk" where
  "number_line line hk =
     (let context = starts_with '' '' line;
          orig = (if context \<or> is_removed line then map_option (\<lambda>n. n + hk_offset hk) (hk_start hk) else None);
          recomp = (if context \<or> is_added line
            then map_option (\<lambda>n. n + hk_offset_recompiled hk) (hk_start_recompiled hk) else None)
      in (orig, recomp, hk\<lparr>hk_offset := hk_offset hk + (if orig = None then 0 else 1),
            hk_offset_recompiled := hk_offset_recompiled hk + (if recomp = None then 0 else 1)\<rparr>))"

text \<open>
  \<open>process_addr2line\<close>: what is printed and the entries added; \<open>stdout\<close> is what addr2line
  prints for the offset. Without a colon in it, the second part does not exist.
\<close>

definition process_addr2line ::
    "string \<Rightarrow> string \<Rightarrow> string \<Rightarrow> int list \<Rightarrow> nat option \<Rightarrow> (string \<times> changed_insn list) res" where
  "process_addr2line stdout offset line lines_filter line_number =
     (let found = (line @ [TAB] @ stdout, [(line, offset, line_number)])
      in if stdout = [] then Inr ([], [])
         else if lines_filter = [] then Inr found
         else (case split_on (CHR '':'') stdout of
             _ # part # _ \<Rightarrow>
               (case py_int 10 (rstrip_by (\<lambda>c. c = NL) (hd (split_on (CHR '' '') part))) of
                  Some n \<Rightarrow> Inr (if n \<in> set lines_filter then found else ([], []))
                | None \<Rightarrow> Inr ([], []))
           | _ \<Rightarrow> Inl IndexError))"

record report_args =
  ra_lines :: "int list"
  ra_reverse :: bool
  ra_addr2line :: "bool \<Rightarrow> string \<Rightarrow> string"

text \<open>
  The loop over the diff: the printed text, the changed instructions and those of the other
  side. The object asked is the recompiled one for added lines, whichever side comes first.
\<close>

fun changed_from :: "report_args \<Rightarrow> hunk \<Rightarrow> string list \<Rightarrow>
    (string \<times> changed_insn list \<times> changed_insn list) res" where
  "changed_from args hk [] = Inr ([], [], [])"
| "changed_from args hk (line # lines) =
     (let (orig, recomp, hk') = number_line line (enter_hunk line hk);
          first = (if ra_reverse args then is_added line else is_removed line);
          second = (if ra_reverse args then is_removed line else is_added line);
          words = split_ws line
      in if (first \<or> second) \<and> length words < 2 then changed_from args hk' lines
         else if first \<or> second then
           (let offset = rstrip_by (\<lambda>c. c = CHR '':'') (words ! 1)
            in bindr (process_addr2line (ra_addr2line args (is_added line) offset) offset line (ra_lines args)
                   (if first then orig else recomp)) (\<lambda>(printed, entries).
               bindr (changed_from args hk' lines) (\<lambda>(out, changed, changed_recompiled).
                 Inr (printed @ out, (if first then entries else []) @ changed,
                   (if first then [] else entries) @ changed_recompiled))))
         else changed_from args hk' lines)"

section \<open>Blocks of the changed instructions\<close>

datatype report_item =
    Invalid_Line "nat option" string
  | No_Instruction nat
  | No_Block nat
  | Basic_Block nat nat "string option" "(bool \<times> string \<times> string) list"

definition diff_header :: "string \<Rightarrow> bool" where
  "diff_header line \<longleftrightarrow> starts_with ''---'' line \<or> starts_with ''+++'' line \<or> is_hunk line \<or> py_strip line = []"

definition changed_addresses :: "changed_insn list \<Rightarrow> int list" where
  "changed_addresses changed = List.map_filter (\<lambda>(line, offset, num).
     if diff_header line then None else map_option hex_value (diff_address line)) changed"

text \<open>\<open>for line_idx in range(bb_start_line - 1, -1, -1)\<close>: the symbol above, in the same section.\<close>

fun function_above :: "string list \<Rightarrow> nat \<Rightarrow> string option" where
  "function_above lines k =
     (case re_match rx_symbol_ws (lines ! k) of
        Some (g, _) \<Rightarrow> Some (group g 2)
      | None \<Rightarrow> if re_matches rx_any_section (lines ! k) then None
          else (case k of 0 \<Rightarrow> None | Suc j \<Rightarrow> function_above lines j))"

declare function_above.simps [simp del]

definition marked_insn :: "int list \<Rightarrow> disas_insn \<Rightarrow> bool \<times> string \<times> string" where
  "marked_insn addresses ins = (hex_value (di_addr ins) \<in> set addresses, di_addr ins, di_text ins)"

record seen_blocks =
  sn_keys :: "(string \<times> string) list"
  sn_ranges :: "(nat \<times> nat) list"

text \<open>\<open>next((i for i, ... if line_num == original_line_num))\<close>\<close>

definition line_index :: "nat \<Rightarrow> disas_insn list \<Rightarrow> nat option" where
  "line_index n instructions =
     (case filter (\<lambda>i. di_line (instructions ! i) = n) [0..<length instructions] of
        [] \<Rightarrow> None | i # _ \<Rightarrow> Some i)"

definition block_item :: "string list \<Rightarrow> int list \<Rightarrow> disas_insn list \<Rightarrow> report_item" where
  "block_item lines addresses block =
     Basic_Block (di_line (hd block)) (di_line (last block))
       (function_above lines (di_line (hd block) - 1)) (map (marked_insn addresses) block)"

definition block_of_line :: "string list \<Rightarrow> disas_insn list \<Rightarrow> int list \<Rightarrow> changed_insn \<Rightarrow> seen_blocks \<Rightarrow>
    report_item list \<times> seen_blocks" where
  "block_of_line lines instructions addresses = (\<lambda>(line, offset, num) seen.
     if diff_header line then ([], seen)
     else case diff_address line of
       None \<Rightarrow> ([], seen)
     | Some addr_str \<Rightarrow>
         (case num of
            None \<Rightarrow> ([Invalid_Line None addr_str], seen)
          | Some n \<Rightarrow>
              if n < 1 \<or> length lines < n then ([Invalid_Line (Some n) addr_str], seen)
              else if list_ex (\<lambda>(s, e). s \<le> n \<and> n \<le> e) (sn_ranges seen) then ([], seen)
              else (case line_index n instructions of
                  None \<Rightarrow> ([No_Instruction n], seen)
                | Some i \<Rightarrow>
                    (let block = (case block_range instructions (Some i) i of
                           None \<Rightarrow> [] | Some (s, e) \<Rightarrow> between s e instructions)
                     in case get_basic_block_key (block_texts block) of
                       None \<Rightarrow> ([No_Block n], seen)
                     | Some key \<Rightarrow>
                         if key \<in> set (sn_keys seen) then ([], seen)
                         else ([block_item lines addresses block],
                           \<lparr>sn_keys = sn_keys seen @ [key],
                            sn_ranges = sn_ranges seen @ [(di_line (hd block), di_line (last block))]\<rparr>)))))"

fun blocks_from :: "string list \<Rightarrow> disas_insn list \<Rightarrow> int list \<Rightarrow> seen_blocks \<Rightarrow> changed_insn list \<Rightarrow>
    report_item list" where
  "blocks_from lines instructions addresses seen [] = []"
| "blocks_from lines instructions addresses seen (c # cs) =
     (let (items, seen') = block_of_line lines instructions addresses c seen
      in items @ blocks_from lines instructions addresses seen' cs)"

definition changed_blocks :: "string \<Rightarrow> changed_insn list \<Rightarrow> report_item list" where
  "changed_blocks listing changed =
     blocks_from (readlines listing) (parse_instructions_from_disassembly listing) (changed_addresses changed)
       \<lparr>sn_keys = [], sn_ranges = []\<rparr> changed"

definition bb_lines_text :: "nat \<Rightarrow> nat \<Rightarrow> string" where
  "bb_lines_text s e = ''Basic Block: lines '' @ py_str (int s) @ ''-'' @ py_str (int e)"

definition insn_text :: "bool \<times> string \<times> string \<Rightarrow> string" where
  "insn_text = (\<lambda>(changed, addr, inst_line).
     ''  '' @ (if changed then ''[*] '' else []) @ addr @ '':  '' @ inst_line)"

fun item_text :: "report_item \<Rightarrow> string" where
  "item_text (Invalid_Line num addr_str) = print_color ''yellow''
     (''Invalid line number '' @ (case num of None \<Rightarrow> ''None'' | Some n \<Rightarrow> py_str (int n))
        @ '' for address 0x'' @ addr_str)"
| "item_text (No_Instruction n) = print_color ''yellow'' (''Could not find instruction at line '' @ py_str (int n))"
| "item_text (No_Block n) = print_color ''yellow'' (''Could not find Basic Block for line '' @ py_str (int n))"
| "item_text (Basic_Block s e fn insns) =
     print_color ''yellow'' (bb_lines_text s e)
     @ print_line (''Function: '' @ (case fn of None \<Rightarrow> ''Not found'' | Some f \<Rightarrow> f))
     @ concat (map (\<lambda>x. print_line (insn_text x)) insns)"

definition step11_text :: "string \<Rightarrow> changed_insn list \<Rightarrow> string" where
  "step11_text original changed =
     print_color ''blue'' ([NL] @ ''11. Extracting Basic Blocks for changed instructions...'')
     @ concat (map item_text (changed_blocks original changed))"

definition step11b_text :: "string \<Rightarrow> changed_insn list \<Rightarrow> string" where
  "step11b_text recompiled changed_recompiled =
     (if changed_recompiled = [] then []
      else print_color ''blue'' ([NL] @ ''11b. Extracting Basic Blocks for changed instructions (recompiled)...'')
        @ concat (map item_text (changed_blocks recompiled changed_recompiled)))"

definition info_line :: "string \<Rightarrow> changed_insn \<Rightarrow> string" where
  "info_line original = (\<lambda>(line, offset0, num).
     let offset = (if offset0 = [] then (case diff_address line of Some a \<Rightarrow> a | None \<Rightarrow> offset0) else offset0)
     in print_line (line @ [TAB] @ (case find_function_for_address_in_file original offset num of
          Some (func_name, start_addr, end_addr, fsize, instruction_count) \<Rightarrow>
            ''Function: '' @ func_name @ '', Start: 0x'' @ start_addr @ '', End: 0x'' @ end_addr
            @ '', Size: '' @ py_str fsize @ '' bytes, Instructions: '' @ py_str (int instruction_count)
        | None \<Rightarrow> ''Function: Not found (offset: '' @ offset @ '')'')))"

definition step12_text :: "string \<Rightarrow> changed_insn list \<Rightarrow> string" where
  "step12_text original changed =
     print_color ''blue'' ([NL] @ ''12. Finding function information for changed instructions...'')
     @ concat (map (info_line original) changed)"

text \<open>Steps 10 to 12; the diff is the text left by the filter, nothing when nothing was left.\<close>

definition report :: "report_args \<Rightarrow> string list \<Rightarrow> string \<Rightarrow> string \<Rightarrow> string res" where
  "report args filtered_diff original recompiled =
     (if join [NL] filtered_diff = [] then Inr []
      else bindr (changed_from args no_hunk (splitlines (join [NL] filtered_diff)))
        (\<lambda>(printed, changed, changed_recompiled).
          Inr (print_color ''blue'' ([NL] @ ''10. Using addr2line to get all source-code lines for ''
              @ ''the instructions that have changed...'') @ printed
            @ (if changed = [] then []
               else step11_text original changed @ step11b_text recompiled changed_recompiled
                 @ step12_text original changed))))"

section \<open>Cutting the blocks out of the report\<close>

text \<open>\<open>\x1b\[[0-9;]*m\<close>\<close>

definition rx_ansi :: rx where
  "rx_ansi = seqs [Cls (\<lambda>c. c = ESC), lit ''['', Many 0 (one_of ''0123456789;''), lit ''m'']"

definition strip_ansi :: "string \<Rightarrow> string" where
  "strip_ansi s = re_sub rx_ansi [] s"

definition rx_step11 :: rx where
  "rx_step11 = seqs [Bol, lit ''11. Extracting Basic Blocks for changed instructions...'']"

definition rx_skipped :: rx where
  "rx_skipped = seqs [Bol, lit ''Instruction at 0x'', Many 0 dot, lit ''found at line'']"

definition ends_step :: "string \<Rightarrow> bool" where
  "ends_step line \<longleftrightarrow> starts_with ''12.'' line \<or> starts_with ''Script finished successfully.'' line
     \<or> starts_with ''All disassembly files saved to'' line"

text \<open>The lines from the first line that starts the step, up to the first that stops it.\<close>

fun step_lines :: "(string \<Rightarrow> bool) \<Rightarrow> (string \<Rightarrow> bool) \<Rightarrow> bool \<Rightarrow> string list \<Rightarrow> string list" where
  "step_lines starts stops inside [] = []"
| "step_lines starts stops inside (line # lines) =
     (if starts line then step_lines starts stops True lines
      else if inside then
        (if stops line then []
         else if re_matches rx_skipped line then step_lines starts stops True lines
         else line # step_lines starts stops True lines)
      else step_lines starts stops False lines)"

definition extract_step11 :: "string \<Rightarrow> string" where
  "extract_step11 s = py_strip (join [NL] (step_lines (re_matches rx_step11)
     (\<lambda>line. starts_with ''11b.'' line \<or> ends_step line) False (split_on NL s)))"

definition extract_step11b :: "string \<Rightarrow> string" where
  "extract_step11b s = py_strip (join [NL] (step_lines (starts_with ''11b.'') ends_step False (split_on NL s)))"

definition bb_file_text :: "string \<Rightarrow> string" where
  "bb_file_text cut_text = (if cut_text \<noteq> [] then cut_text @ [NL] else ''# No step 11 output found'' @ [NL])"

definition bb_file_text_b :: "string \<Rightarrow> string" where
  "bb_file_text_b cut_text = (if cut_text \<noteq> [] then cut_text @ [NL] else ''# No step 11b output found'' @ [NL])"

definition build_diff_command ::
    "string \<Rightarrow> string \<Rightarrow> string \<Rightarrow> string \<Rightarrow> string \<Rightarrow> string option \<Rightarrow> string option \<Rightarrow> string list" where
  "build_diff_command executable script src_file original modified lines_arg kernel_dir =
     [''sudo'', executable, script, ''-f'', src_file, ''-s'', original, modified]
     @ (case kernel_dir of None \<Rightarrow> [] | Some d \<Rightarrow> if d = [] then [] else [''-p'', d])
     @ (case lines_arg of None \<Rightarrow> [] | Some l \<Rightarrow> if l = [] then [] else [''--lines'', l])"

text \<open>
  The files written, and whether all three were. \<open>run\<close> gives the exit code, the output and
  the error output of a command, or nothing when it cannot be started; the first command's
  files stay when the second one fails.
\<close>

definition bb_file_name :: "int \<Rightarrow> string \<Rightarrow> string" where
  "bb_file_name const_id version = py_str const_id @ ''_bb_'' @ version @ ''.txt''"

definition generate_bb_files_single ::
    "(string list \<Rightarrow> (int \<times> string \<times> string) option) \<Rightarrow> (string \<Rightarrow> string list) \<Rightarrow> string \<Rightarrow> string \<Rightarrow> int \<Rightarrow>
     (string \<times> string) list \<times> bool" where
  "generate_bb_files_single run command first second const_id =
     (case run (command first) of
        None \<Rightarrow> ([], False)
      | Some (code1, out1, err1) \<Rightarrow>
          if code1 \<noteq> 0 then ([], False)
          else (let output1 = strip_ansi (out1 @ err1);
                    written = [(bb_file_name const_id ''v1'', bb_file_text (extract_step11 output1)),
                      (bb_file_name const_id ''v2'', bb_file_text_b (extract_step11b output1))]
                in case run (command second) of
                     None \<Rightarrow> (written, False)
                   | Some (code2, out2, err2) \<Rightarrow>
                       if code2 \<noteq> 0 then (written, False)
                       else (written @ [(bb_file_name const_id ''v3'',
                               bb_file_text_b (extract_step11b (strip_ansi (out2 @ err2))))], True)))"

section \<open>Where the report is off\<close>

text \<open>objdump pads the address of a symbol to sixteen digits but not that of an instruction: no label is seen.\<close>

lemma padded_label_unseen:
  "map di_label (parse_instructions_from_disassembly
     (join [NL] [''0000000000000000 <f>:'', ''   0:  90  nop'', [], ''0000000000000010 <g>:'', ''  10:  90  nop'', []]))
   = [False, False]"
  by code_simp

text \<open>The lines of a hunk are counted after the filter has removed some: the second line of this hunk gets the number of the first.\<close>

lemma dropped_line_shifts_numbers:
  "let hunk = [''@@ -3,2 +3,2 @@'', ''-   0:  eb 10  jmp    12'', ''-   2:  be c8  mov    $0xc8,%esi'',
       ''+   0:  eb 20  jmp    22'', ''+   2:  be 64  mov    $0x64,%esi''];
     args = \<lparr>ra_lines = [], ra_reverse = False, ra_addr2line = (\<lambda>_ _. ''f.c:1'')\<rparr>;
     numbers = (\<lambda>ls. case changed_from args no_hunk ls of Inr (_, changed, _) \<Rightarrow> map (\<lambda>(line, off, n). (off, n)) changed | _ \<Rightarrow> [])
   in numbers hunk = [(''0'', Some 3), (''2'', Some 4)] \<and>
      numbers (filter_address_offset_diff hunk) = [(''2'', Some 3)]"
  by code_simp

text \<open>With \<open>--reverse\<close> the lines of the first side are added ones, which have no number in the original.\<close>

lemma reverse_unnumbered: "is_added line \<Longrightarrow> fst (number_line line hk) = None"
  by (auto simp: number_line_def is_added_def is_removed_def starts_with_iff Let_def)

end
