(* ===== verification/Image_Readback.thy ===== *)
theory Image_Readback
  imports Image_Report
begin

text \<open>
  The way of a basic block from \<open>diff.py\<close> to \<open>codegen.py\<close>: what is printed for a block is
  coloured text; \<open>gen.py\<close> removes the colours, cuts out the lines of one step, and
  \<open>codegen.py\<close> splits the file into blocks again. Nothing is lost on the way but the
  continuation lines of long instructions.
\<close>

section \<open>Removing the colours\<close>

lemma ansi_exec_Cons: "re_exec rx_ansi p (c # cs) = re_exec rx_ansi None (c # cs)"
  by (simp add: rx_ansi_def re_exec_def)

lemma ansi_exec_Nil: "re_exec rx_ansi p [] = None"
  by (simp add: rx_ansi_def re_exec_def)

lemma ansi_exec_plain: "c \<noteq> ESC \<Longrightarrow> re_exec rx_ansi p (c # cs) = None"
  by (simp add: rx_ansi_def re_exec_def)

definition cut_ansi :: "char option \<Rightarrow> string \<Rightarrow> string \<Rightarrow> string" where
  "cut_ansi p acc s = (case re_pieces rx_ansi p acc s of (ms, rest) \<Rightarrow>
     concat (map (\<lambda>(b, m, g). b) ms) @ rest)"

lemma strip_ansi_cut: "strip_ansi s = cut_ansi None [] s"
  by (simp add: strip_ansi_def re_sub_def cut_ansi_def case_prod_unfold Let_def)

lemma cut_ansi_acc: "cut_ansi p acc s = rev acc @ cut_ansi None [] s"
proof (induction "length s" arbitrary: p acc s rule: less_induct)
  case less
  show ?case
  proof (cases s)
    case Nil
    then show ?thesis by (simp add: cut_ansi_def ansi_exec_Nil)
  next
    case (Cons c cs)
    show ?thesis
    proof (cases "re_exec rx_ansi None (c # cs)")
      case None
      then have "cut_ansi q ac s = cut_ansi (Some c) (c # ac) cs" for q ac
        by (simp add: cut_ansi_def Cons ansi_exec_Cons [of q])
      then show ?thesis using less [of cs "Some c" "c # acc"] less [of cs "Some c" "[c]"] Cons by simp
    next
      case (Some e)
      obtain g p' t where e: "e = (g, p', t)" by (cases e)
      show ?thesis
        using Some by (auto simp: cut_ansi_def Cons ansi_exec_Cons [of p] e split: prod.splits)
    qed
  qed
qed

lemma strip_ansi_Nil [simp]: "strip_ansi [] = []"
  by (simp add: strip_ansi_cut cut_ansi_def ansi_exec_Nil)

lemma strip_ansi_Cons: "c \<noteq> ESC \<Longrightarrow> strip_ansi (c # cs) = c # strip_ansi cs"
proof -
  assume "c \<noteq> ESC"
  then have "cut_ansi None [] (c # cs) = cut_ansi (Some c) [c] cs"
    by (simp add: cut_ansi_def ansi_exec_plain)
  then show ?thesis using cut_ansi_acc [of "Some c" "[c]" cs] by (simp add: strip_ansi_cut)
qed

lemma strip_ansi_append: "ESC \<notin> set u \<Longrightarrow> strip_ansi (u @ s) = u @ strip_ansi s"
  by (induction u) (auto simp: strip_ansi_Cons)

lemma strip_ansi_code: "list_all (one_of ''0123456789;'') n \<Longrightarrow>
    strip_ansi (ESC # CHR ''['' # n @ CHR ''m'' # s) = strip_ansi s"
proof -
  assume n: "list_all (one_of ''0123456789;'') n"
  have m: "runs (Many 0 (one_of ''0123456789;'')) q (n @ CHR ''m'' # s) [] (prev_after q n) (CHR ''m'' # s) []" for q
    using n by (intro runs_Many) (auto simp: one_of_def)
  have "runs rx_ansi None (ESC # CHR ''['' # n @ CHR ''m'' # s) [] (Some (CHR ''m'')) s []"
    unfolding rx_ansi_def seqs.simps lit.simps
    by (rule runs_Seq [OF runs_Cls], rule refl, rule runs_Seq [OF runs_Cls], rule refl,
        rule runs_Seq [OF m], rule runs_Cls, rule refl)
  then have "re_exec rx_ansi None (ESC # CHR ''['' # n @ CHR ''m'' # s) = Some ([], Some (CHR ''m''), s)"
    by (rule runs_exec)
  then have "cut_ansi None [] (ESC # CHR ''['' # n @ CHR ''m'' # s) = cut_ansi (Some (CHR ''m'')) [] s"
    by (simp add: cut_ansi_def case_prod_unfold Let_def)
  then show ?thesis using cut_ansi_acc [of "Some (CHR ''m'')" "[]" s] by (simp add: strip_ansi_cut)
qed

lemma strip_print_color: "ESC \<notin> set s \<Longrightarrow> strip_ansi (print_color c s @ rest) = s @ NL # strip_ansi rest"
proof -
  assume s: "ESC \<notin> set s"
  have n: "list_all (one_of ''0123456789;'') (ansi_code c)" "list_all (one_of ''0123456789;'') ''0''"
    by (auto simp: ansi_code_def one_of_def)
  have "strip_ansi (ESC # CHR ''['' # ansi_code c @ CHR ''m'' # (s @ ESC # CHR ''['' # ''0'' @ CHR ''m'' # NL # rest))
      = s @ NL # strip_ansi rest"
    by (simp only: strip_ansi_code [OF n(1)] strip_ansi_append [OF s] strip_ansi_code [OF n(2)])
      (simp add: strip_ansi_Cons ESC_def)
  then show ?thesis by (simp add: print_color_def)
qed

lemma strip_print_line: "ESC \<notin> set s \<Longrightarrow> strip_ansi (print_line s @ rest) = s @ NL # strip_ansi rest"
  by (simp add: print_line_def strip_ansi_append strip_ansi_Cons ESC_def)

section \<open>The printed lines\<close>

text \<open>What a line of the report may hold, so that the printed line is one line of text.\<close>

definition plain_line :: "string \<Rightarrow> bool" where
  "plain_line s \<longleftrightarrow> ESC \<notin> set s \<and> NL \<notin> set s"

definition function_label :: "string option \<Rightarrow> string" where
  "function_label fn = (case fn of None \<Rightarrow> ''Not found'' | Some f \<Rightarrow> f)"

definition item_lines :: "report_item \<Rightarrow> string list" where
  "item_lines i = (case i of
     Invalid_Line num addr_str \<Rightarrow> [''Invalid line number '' @ (case num of None \<Rightarrow> ''None'' | Some n \<Rightarrow> py_str (int n))
        @ '' for address 0x'' @ addr_str]
   | No_Instruction n \<Rightarrow> [''Could not find instruction at line '' @ py_str (int n)]
   | No_Block n \<Rightarrow> [''Could not find Basic Block for line '' @ py_str (int n)]
   | Basic_Block s e fn insns \<Rightarrow>
       bb_lines_text s e # (''Function: '' @ function_label fn) # map insn_text insns)"

definition item_ok :: "report_item \<Rightarrow> bool" where
  "item_ok i = (case i of
     Invalid_Line num addr_str \<Rightarrow> list_all is_hex addr_str
   | Basic_Block s e fn insns \<Rightarrow>
       (let f = function_label fn in f \<noteq> [] \<and> plain_line f \<and> \<not> is_space (hd f) \<and> \<not> is_space (last f)) \<and>
       list_all (\<lambda>(changed, addr, t). addr \<noteq> [] \<and> list_all is_hex addr \<and> plain_line t) insns
   | _ \<Rightarrow> True)"

lemma plain_append [simp]: "plain_line (s @ t) \<longleftrightarrow> plain_line s \<and> plain_line t"
  by (auto simp: plain_line_def)

lemma plain_Nil [simp]: "plain_line []"
  by (simp add: plain_line_def)

lemma plain_Cons [simp]: "plain_line (c # s) \<longleftrightarrow> c \<noteq> ESC \<and> c \<noteq> NL \<and> plain_line s"
  by (auto simp: plain_line_def)

lemma plain_hex: "list_all is_hex s \<Longrightarrow> plain_line s"
  by (auto simp: plain_line_def list_all_iff ESC_def is_hex_def)

lemma plain_py_str: "plain_line (py_str (int n))"
  using digs_digit [of ESC n] digs_digit [of NL n] by (auto simp: plain_line_def py_str_def ESC_def is_digit_def)

lemma bb_lines_plain: "plain_line (bb_lines_text s e)"
  by (simp add: bb_lines_text_def plain_py_str ESC_def)

lemma item_lines_plain: "item_ok i \<Longrightarrow> list_all plain_line (item_lines i)"
  by (cases i) (auto simp: item_lines_def item_ok_def plain_py_str plain_hex insn_text_def Let_def ESC_def
      list_all_iff bb_lines_plain split: option.splits)

lemma print_lines_Cons: "concat (map print_line (l # ls)) @ rest = l @ NL # (concat (map print_line ls) @ rest)"
  by (simp add: print_line_def)

lemma strip_printed: "list_all plain_line ls \<Longrightarrow>
    strip_ansi (concat (map print_line ls) @ rest) = concat (map print_line ls) @ strip_ansi rest"
proof (induction ls)
  case (Cons l ls)
  then have "strip_ansi (print_line l @ (concat (map print_line ls) @ rest))
      = l @ NL # (concat (map print_line ls) @ strip_ansi rest)"
    by (subst strip_print_line) (simp_all add: plain_line_def)
  then show ?case by (simp only: print_lines_Cons) (simp add: print_line_def)
qed simp

lemma strip_item_text:
  "item_ok i \<Longrightarrow> strip_ansi (item_text i @ rest) = concat (map print_line (item_lines i)) @ strip_ansi rest"
proof -
  assume ok: "item_ok i"
  then have pl: "list_all plain_line (item_lines i)" by (rule item_lines_plain)
  show ?thesis
  proof (cases i)
    case (Basic_Block s e fn insns)
    then have ls: "item_lines i = bb_lines_text s e # (''Function: '' @ function_label fn) # map insn_text insns"
      by (simp add: item_lines_def)
    have item_shown: "item_text i @ rest
        = print_color ''yellow'' (bb_lines_text s e) @ (concat (map print_line (tl (item_lines i))) @ rest)"
      by (simp add: Basic_Block item_lines_def function_label_def o_def)
    have "strip_ansi (item_text i @ rest)
        = bb_lines_text s e @ NL # strip_ansi (concat (map print_line (tl (item_lines i))) @ rest)"
      unfolding item_shown using bb_lines_plain by (intro strip_print_color) (simp add: plain_line_def)
    also have "\<dots> = bb_lines_text s e @ NL # (concat (map print_line (tl (item_lines i))) @ strip_ansi rest)"
      using pl by (subst strip_printed) (auto simp: ls)
    also have "\<dots> = concat (map print_line (item_lines i)) @ strip_ansi rest"
      by (simp add: ls print_line_def)
    finally show ?thesis .
  qed (use pl strip_print_color in \<open>simp_all add: item_lines_def plain_line_def print_line_def\<close>)
qed

text \<open>Splitting the text at the newlines gives the lines back.\<close>

lemma split_printed: "list_all plain_line ls \<Longrightarrow>
    split_on NL (concat (map print_line ls) @ rest) = ls @ split_on NL rest"
proof (induction ls)
  case (Cons l ls)
  then have "split_on NL (l @ NL # (concat (map print_line ls) @ rest)) = l # split_on NL (concat (map print_line ls) @ rest)"
    by (intro split_by_append) (auto simp: plain_line_def)
  moreover have "split_on NL (concat (map print_line ls) @ rest) = ls @ split_on NL rest"
    using Cons by simp
  ultimately show ?case by (simp only: print_lines_Cons append_Cons)
qed simp

section \<open>Cutting a step out of the lines\<close>

lemma step_lines_outside: "list_all (\<lambda>l. \<not> starts l) before \<Longrightarrow>
    step_lines starts stops False (before @ ls) = step_lines starts stops False ls"
  by (induction before) auto

lemma step_lines_inside:
  "list_all (\<lambda>l. \<not> starts l \<and> \<not> stops l \<and> \<not> re_matches rx_skipped l) kept \<Longrightarrow> stops l \<Longrightarrow> \<not> starts l \<Longrightarrow>
   step_lines starts stops True (kept @ l # ls) = kept"
  by (induction kept) auto

lemma matches_prefix: "re_matches (Seq Bol (lit u)) s \<longleftrightarrow> starts_with u s"
  by (auto simp: re_matches_iff mrel_lit starts_with_iff)

lemma matches_prefix_rest: "re_matches (Seq Bol (Seq (lit u) r)) s \<Longrightarrow> starts_with u s"
  by (auto simp: re_matches_iff mrel_simps mrel_lit starts_with_iff)

lemma step11_start: "re_matches rx_step11 l \<longleftrightarrow> starts_with ''11. Extracting Basic Blocks for changed instructions...'' l"
  by (simp only: rx_step11_def seqs.simps matches_prefix)

lemma skipped_start: "re_matches rx_skipped l \<Longrightarrow> starts_with ''Instruction at 0x'' l"
  by (simp only: rx_skipped_def seqs.simps matches_prefix_rest)

text \<open>The first characters of a line that belongs to no step heading.\<close>

definition inner_line :: "string \<Rightarrow> bool" where
  "inner_line l \<longleftrightarrow> \<not> starts_with ''1'' l \<and> \<not> ends_step l \<and> \<not> starts_with ''Instruction at 0x'' l"

lemma item_lines_inner: "item_ok i \<Longrightarrow> list_all inner_line (item_lines i)"
  by (cases i) (auto simp: item_lines_def inner_line_def ends_step_def bb_lines_text_def insn_text_def list_all_iff)

lemma inner_step11: "inner_line l \<Longrightarrow>
    \<not> re_matches rx_step11 l \<and> \<not> (starts_with ''11b.'' l \<or> ends_step l) \<and> \<not> re_matches rx_skipped l"
  using skipped_start [of l] by (auto simp: inner_line_def step11_start) (cases l; simp)+

lemma inner_step11b: "inner_line l \<Longrightarrow>
    \<not> starts_with ''11b.'' l \<and> \<not> ends_step l \<and> \<not> re_matches rx_skipped l"
  using inner_step11 by blast

section \<open>Reading the blocks\<close>

definition file_blocks :: "string \<Rightarrow> block list" where
  "file_blocks content = map parse_basic_block (split_blocks [] (split_on NL content))"

definition printed_insns :: "(bool \<times> string \<times> string) list \<Rightarrow> string list" where
  "printed_insns insns =
     filter (\<lambda>l. \<not> re_matches rx_continuation l) (map (\<lambda>x. py_strip (insn_text x)) insns)"

definition printed_blocks :: "report_item list \<Rightarrow> block list" where
  "printed_blocks items = List.map_filter (\<lambda>i. case i of
     Basic_Block s e fn insns \<Rightarrow> Some (Some (function_label fn), Some (bb_lines_text s e), printed_insns insns)
   | _ \<Rightarrow> None) items"

lemma lstrip_hd: "s \<noteq> [] \<Longrightarrow> \<not> is_space (hd s) \<Longrightarrow> lstrip_by is_space s = s"
  by (cases s) (auto simp: lstrip_by_def)

lemma rstrip_last: "s \<noteq> [] \<Longrightarrow> \<not> is_space (last s) \<Longrightarrow> rstrip_by is_space s = s"
  by (cases s rule: rev_cases) (auto simp: rstrip_by_def)

lemma strip_ends: "s \<noteq> [] \<Longrightarrow> \<not> is_space (hd s) \<Longrightarrow> \<not> is_space (last s) \<Longrightarrow> py_strip s = s"
  by (simp add: py_strip_def lstrip_hd rstrip_last)

text \<open>Only what is left of a line after \<open>strip()\<close> matters to the reader.\<close>

lemma bb_line_strip: "py_strip l = py_strip l' \<Longrightarrow> bb_line l b = bb_line l' b"
  by (simp add: bb_line_def)

lemma parse_block_strip: "map py_strip ls = map py_strip ls' \<Longrightarrow> parse_basic_block ls = parse_basic_block ls'"
proof -
  have "map py_strip ls = map py_strip ls' \<Longrightarrow> fold bb_line ls b = fold bb_line ls' b" for b
  proof (induction ls arbitrary: ls' b)
    case (Cons l ls)
    then obtain l' k where "ls' = l' # k" "py_strip l = py_strip l'" "map py_strip ls = map py_strip k"
      by (cases ls') auto
    with Cons.IH [of k] bb_line_strip [of l l'] show ?case by simp
  qed simp
  then show "map py_strip ls = map py_strip ls' \<Longrightarrow> ?thesis" by (simp add: parse_basic_block_def)
qed

lemma split_blocks_strip:
  "map py_strip cur = map py_strip cur' \<Longrightarrow> map py_strip ls = map py_strip ls' \<Longrightarrow>
   map parse_basic_block (split_blocks cur ls) = map parse_basic_block (split_blocks cur' ls')"
proof (induction cur ls arbitrary: cur' ls' rule: split_blocks.induct)
  case (1 cur)
  then have "ls' = []" "(cur = []) = (cur' = [])" by auto
  with parse_block_strip [OF 1(1)] show ?case by simp
next
  case (2 cur line ls)
  then obtain line' k where l: "ls' = line' # k" "py_strip line = py_strip line'" "map py_strip ls = map py_strip k"
    by (cases ls') auto
  then have "is_bb_start line = is_bb_start line'" by (simp add: is_bb_start_def)
  moreover have "(cur = []) = (cur' = [])" using "2.prems"(1) by auto
  ultimately show ?case
    using "2.IH"(1) [of "[line']" k] "2.IH"(2) [of "cur' @ [line']" k] "2.IH"(3) [of "[]" k]
      "2.prems"(1) l parse_block_strip [of cur cur'] by simp
qed

text \<open>What each printed line adds to a block.\<close>

lemma bb_line_blank: "bb_line [] b = b"
  by (cases b) (simp add: bb_line_def py_strip_def lstrip_by_def rstrip_by_def)

lemma digs_space: "\<not> is_space (last (digs 10 e))" "\<not> is_space (hd (digs 10 e))"
  using digs_not_space [of _ 10 e] by simp_all

lemma bb_start_strip: "py_strip (bb_lines_text s e) = bb_lines_text s e"
  using digs_space by (intro strip_ends) (auto simp: bb_lines_text_def py_str_def is_space_def)

lemma mrel_litI: "mrel (lit u) p (u @ s) (prev_after p u) s"
  by (simp add: mrel_lit)

lemma bb_header_matches: "re_matches rx_bb_header (bb_lines_text s e)"
proof -
  have d: "list_all is_digit (digs 10 n)" for n using digs_digit by (simp add: list_all_iff)
  have n: "1 \<le> length (digs 10 n)" for n by (simp add: Suc_le_eq)
  have sp: "list_all is_space '' ''" "1 \<le> length '' ''" by (simp_all add: is_space_def)
  have "\<exists>p. mrel rx_bb_header None (''Basic Block:'' @ '' '' @ ''lines'' @ '' '' @ digs 10 s @ ''-'' @ digs 10 e @ []) p []"
    unfolding rx_bb_header_def seqs.simps
    by (rule exI, rule mrel.seq [OF mrel.bol], rule mrel.seq [OF mrel_litI], rule mrel.seq [OF mrel_ManyI [OF sp]],
        rule mrel.seq [OF mrel_litI], rule mrel.seq [OF mrel_ManyI [OF sp]],
        rule mrel.seq [OF mrel.grp [OF mrel_ManyI [OF d n]]], rule mrel.seq [OF mrel_litI],
        rule mrel.seq [OF mrel.grp [OF mrel_ManyI [OF d n]]], rule mrel.eol, simp add: at_eol_def)
  then show ?thesis by (auto simp: re_matches_iff bb_lines_text_def py_str_def)
qed

lemma function_line_strip:
  "f \<noteq> [] \<Longrightarrow> \<not> is_space (last f) \<Longrightarrow> py_strip (''Function: '' @ f) = ''Function: '' @ f"
  by (intro strip_ends) (auto simp: is_space_def)

lemma function_line_match:
  assumes "f \<noteq> []" and "plain_line f" and "\<not> is_space (hd f)"
  shows "\<exists>g s. re_match rx_function (''Function: '' @ f) = Some (g, s) \<and> group g 1 = f"
proof -
  have sp: "list_all is_space '' ''" "1 \<le> length '' ''" by (simp_all add: is_space_def)
  have f: "list_all dot f" using assms(2) by (auto simp: plain_line_def dot_def list_all_iff)
  have "runs rx_function None (''Function:'' @ '' '' @ f @ []) [] (prev_after (Some (CHR '' '')) f) [] (dput 1 f [])"
    unfolding rx_function_def seqs.simps
    by (rule runs_Seq [OF runs_Bol], rule runs_Seq [OF runs_lit], rule runs_Seq [OF runs_Many [OF sp(1) _ sp(2)]],
        use assms in simp, rule runs_Seq [OF runs_Grp [OF runs_Many [OF f]]], simp,
        use assms(1) in \<open>simp add: Suc_le_eq\<close>, simp, rule runs_Eol, simp add: at_eol_def)
  from runs_match [OF this] show ?thesis by (simp add: group_def dget_def)
qed

lemma rstrip_append: "u \<noteq> [] \<Longrightarrow> \<not> is_space (last u) \<Longrightarrow> rstrip_by is_space (u @ v) = u @ rstrip_by is_space v"
  by (cases u rule: rev_cases) (auto simp: rstrip_by_def dropWhile_append)

lemma no_function_line: "\<not> starts_with ''Function:'' s \<Longrightarrow> re_match rx_function s = None"
  using function_line_start [of s] by (cases "re_match rx_function s") auto

lemma hex_not_space: "is_hex c \<Longrightarrow> \<not> is_space c"
  using is_hex_is_word is_word_not_space by blast

lemma insn_text_shape:
  assumes "addr \<noteq> []" and "list_all is_hex addr"
  shows "\<exists>rest. insn_shape (py_strip (insn_text (c, addr, t))) rest"
proof -
  let ?m = "if c then ''[*]'' else []" and ?w = "if c then '' '' else []"
  let ?u = "?m @ ?w @ addr @ '':''"
  have h: "\<not> is_space (hd ?u)"
    using assms hex_not_space by (cases addr) (auto simp: is_space_def [of "CHR ''[''"])
  have "py_strip (insn_text (c, addr, t)) = rstrip_by is_space (?u @ ''  '' @ t)"
  proof -
    have "lstrip_by is_space (insn_text (c, addr, t)) = lstrip_by is_space (?u @ ''  '' @ t)"
      by (simp add: insn_text_def lstrip_by_def is_space_def)
    also have "\<dots> = ?u @ ''  '' @ t" using h assms(1) by (intro lstrip_hd) (auto simp: hd_append split: if_splits)
    finally show ?thesis by (simp add: py_strip_def)
  qed
  also have "\<dots> = ?u @ rstrip_by is_space (''  '' @ t)"
    by (rule rstrip_append) (auto simp: is_space_def)
  finally have eq: "py_strip (insn_text (c, addr, t)) = [] @ ?m @ ?w @ addr @ '':'' @ rstrip_by is_space (''  '' @ t)"
    by simp
  have "list_all is_space ?w" "list_all is_space []" "?m = [] \<or> ?m = ''[*]''" by (auto simp: is_space_def)
  with eq assms show ?thesis unfolding insn_shape_def by blast
qed

lemma insn_shape_line:
  "insn_shape (py_strip l) rest \<Longrightarrow> \<not> is_bb_start l \<and> bb_line l (f, info, ins) =
     (f, info, ins @ filter (\<lambda>l. \<not> re_matches rx_continuation l) [py_strip l])"
proof -
  assume s: "insn_shape (py_strip l) rest"
  then have "py_strip l \<noteq> []" by (auto simp: insn_shape_def)
  moreover have "\<not> re_matches rx_bb_header (py_strip l)" "re_match rx_function (py_strip l) = None" "\<not> is_bb_start l"
    using insn_shape_not_prefix [OF s] header_start no_function_line by (auto simp: is_bb_start_def)
  moreover have "re_matches rx_asm_line (py_strip l)"
    using s asm_line_shape unfolding re_matches_iff by blast
  ultimately show ?thesis by (simp add: bb_line_def Let_def)
qed

lemma insn_lines:
  "list_all (\<lambda>(c, addr, t). addr \<noteq> [] \<and> list_all is_hex addr \<and> plain_line t) insns \<Longrightarrow>
   list_all (\<lambda>l. \<not> is_bb_start l) (map insn_text insns) \<and>
   fold bb_line (map insn_text insns) (f, info, ins) = (f, info, ins @ printed_insns insns)"
proof (induction insns arbitrary: ins)
  case (Cons x insns)
  obtain c addr t where x: "x = (c, addr, t)" by (cases x)
  with Cons.prems obtain rest where "insn_shape (py_strip (insn_text x)) rest"
    using insn_text_shape [of addr c t] by auto
  from insn_shape_line [OF this] Cons show ?case by (simp add: printed_insns_def)
qed (simp add: printed_insns_def)

lemma noise_line:
  assumes "l \<noteq> []" and "\<not> is_space (hd l)" and "\<not> is_space (last l)"
    and "starts_with ''Invalid'' l \<or> starts_with ''Could not'' l"
  shows "\<not> is_bb_start l \<and> bb_line l b = b"
proof -
  have "py_strip l = l" using assms by (intro strip_ends)
  moreover have "\<not> starts_with ''Basic Block:'' l" "\<not> starts_with ''Function:'' l"
    using assms(4) by (auto simp: starts_with_iff)
  moreover have "\<not> insn_shape l rest" for rest
  proof
    assume "insn_shape l rest"
    then obtain u where "l = u @ CHR '':'' # rest"
      "list_all (\<lambda>c. is_space c \<or> is_hex c \<or> c \<in> set ''[*]'') u"
      using insn_shape_colon by blast
    with assms(4) show False
      by (cases u; cases "tl u") (auto simp: starts_with_iff is_space_def is_hex_def)
  qed
  moreover have "\<not> re_matches rx_bb_header l" "re_match rx_function l = None"
    using calculation(2,3) header_start no_function_line by auto
  moreover have "\<not> re_matches rx_asm_line l"
    using calculation(4) asm_line_shape by (auto simp: re_matches_iff)
  ultimately show ?thesis by (simp add: is_bb_start_def bb_line_def Let_def split: prod.splits)
qed

subsection \<open>A whole report\<close>

lemma split_inner: "cur \<noteq> [] \<Longrightarrow> list_all (\<lambda>l. \<not> is_bb_start l) inner \<Longrightarrow>
    split_blocks cur (inner @ ls) = split_blocks (cur @ inner) ls"
  by (induction inner arbitrary: cur) auto

definition open_block :: "string list \<Rightarrow> block list" where
  "open_block cur = (if cur = [] then [] else [parse_basic_block cur])"

lemma split_noise:
  assumes "\<not> is_bb_start l" and "\<And>b. bb_line l b = b"
    and "\<And>cur. map parse_basic_block (split_blocks cur ls) = open_block cur @ bs"
  shows "map parse_basic_block (split_blocks cur (l # ls)) = open_block cur @ bs"
  using assms(1,2) assms(3) [of "cur @ [l]"] assms(3) [of "[]"]
  by (simp add: open_block_def parse_basic_block_def)

lemma split_header:
  assumes "item_ok (Basic_Block s e fn insns)"
    and "\<And>cur. map parse_basic_block (split_blocks cur ls) = open_block cur @ bs"
  shows "map parse_basic_block (split_blocks cur (item_lines (Basic_Block s e fn insns) @ ls))
    = open_block cur @ (Some (function_label fn), Some (bb_lines_text s e), printed_insns insns) # bs"
proof -
  let ?h = "bb_lines_text s e" and ?f = "''Function: '' @ function_label fn" and ?i = "map insn_text insns"
  have f: "function_label fn \<noteq> []" "plain_line (function_label fn)" "\<not> is_space (hd (function_label fn))"
      "\<not> is_space (last (function_label fn))"
    using assms(1) by (auto simp: item_ok_def Let_def)
  have start: "is_bb_start ?h"
    by (simp only: is_bb_start_def bb_start_strip) (simp add: bb_lines_text_def)
  have "?h \<noteq> []" by (simp add: bb_lines_text_def)
  then have h: "bb_line ?h (None, None, []) = (None, Some ?h, [])"
    by (simp add: bb_line_def bb_start_strip bb_header_matches Let_def)
  have fs: "py_strip ?f = ?f" using f by (intro function_line_strip)
  have "\<not> re_matches rx_bb_header ?f" using header_start [of ?f] by (auto simp: starts_with_iff)
  then have fl: "\<not> is_bb_start ?f" "bb_line ?f (None, Some ?h, []) = (Some (function_label fn), Some ?h, [])"
    using function_line_match [OF f(1-3)] fs by (auto simp: is_bb_start_def bb_line_def Let_def)
  have il: "list_all (\<lambda>l. \<not> is_bb_start l) ?i" "fold bb_line ?i (Some (function_label fn), Some ?h, [])
      = (Some (function_label fn), Some ?h, printed_insns insns)"
    using insn_lines [of insns "Some (function_label fn)" "Some ?h" "[]"] assms(1) by (auto simp: item_ok_def Let_def)
  have "split_blocks cur (item_lines (Basic_Block s e fn insns) @ ls)
      = (if cur = [] then [] else [cur]) @ split_blocks [?h] ((?f # ?i) @ ls)"
    using start by (simp add: item_lines_def)
  also have "split_blocks [?h] ((?f # ?i) @ ls) = split_blocks ([?h] @ (?f # ?i)) ls"
    using fl(1) il(1) by (intro split_inner) auto
  finally show ?thesis
    using assms(2) [of "?h # ?f # ?i"] h fl(2) il(2) by (simp add: open_block_def parse_basic_block_def)
qed

definition is_block :: "report_item \<Rightarrow> bool" where
  "is_block i = (case i of Basic_Block s e fn insns \<Rightarrow> True | _ \<Rightarrow> False)"

lemma noise_item:
  assumes "item_ok i" and "\<not> is_block i"
  shows "\<exists>l. item_lines i = [l] \<and> \<not> is_bb_start l \<and> (\<forall>b. bb_line l b = b)"
proof -
  have digits: "\<not> is_space (last (py_str (int n)))" "py_str (int n) \<noteq> []" for n
    using digs_space [of n] by (auto simp: py_str_def)
  obtain l where l: "item_lines i = [l]" "\<not> is_space (last l)" "starts_with ''Invalid'' l \<or> starts_with ''Could not'' l"
  proof (cases i)
    case (Invalid_Line num addr_str)
    then have "list_all is_hex addr_str" using assms(1) by (simp add: item_ok_def)
    then have "\<not> is_space (last (''0x'' @ addr_str))"
      using hex_not_space by (cases addr_str rule: rev_cases) (auto simp: is_space_def [of "CHR ''x''"])
    then show ?thesis
      by (intro that [of "''Invalid line number '' @ (case num of None \<Rightarrow> ''None'' | Some n \<Rightarrow> py_str (int n))
        @ '' for address 0x'' @ addr_str"]) (simp_all add: Invalid_Line item_lines_def)
  next
    case (Basic_Block s e fn insns)
    with assms(2) show ?thesis by (simp add: is_block_def)
  next
    case (No_Instruction n)
    with digits [of n] show ?thesis
      by (intro that [of "''Could not find instruction at line '' @ py_str (int n)"]) (simp_all add: item_lines_def)
  next
    case (No_Block n)
    with digits [of n] show ?thesis
      by (intro that [of "''Could not find Basic Block for line '' @ py_str (int n)"]) (simp_all add: item_lines_def)
  qed
  moreover have "l \<noteq> []" "\<not> is_space (hd l)"
    using l(3) by (auto simp: starts_with_iff is_space_def)
  ultimately show ?thesis using noise_line [of l] by blast
qed

lemma split_items:
  "list_all item_ok items \<Longrightarrow>
   map parse_basic_block (split_blocks cur (concat (map item_lines items) @ [[]])) = open_block cur @ printed_blocks items"
proof (induction items arbitrary: cur)
  case Nil
  have "\<not> is_bb_start []" by (simp add: is_bb_start_def py_strip_def lstrip_by_def rstrip_by_def)
  then show ?case using split_noise [of "[]" "[]" "[]" cur] bb_line_blank
    by (simp add: printed_blocks_def open_block_def)
next
  case (Cons i items)
  let ?ls = "concat (map item_lines items) @ [[]]"
  have IH: "map parse_basic_block (split_blocks cur ?ls) = open_block cur @ printed_blocks items" for cur
    using Cons by simp
  have ok: "item_ok i" using Cons.prems by simp
  show ?case
  proof (cases "is_block i")
    case False
    then obtain l where l: "item_lines i = [l]" "\<not> is_bb_start l" "\<And>b. bb_line l b = b"
      using noise_item ok by blast
    have "printed_blocks (i # items) = printed_blocks items"
      using False by (cases i) (simp_all add: printed_blocks_def is_block_def)
    with split_noise [OF l(2,3) IH] show ?thesis by (simp add: l(1))
  next
    case True
    then obtain s e fn insns where i: "i = Basic_Block s e fn insns" by (cases i) (auto simp: is_block_def)
    with split_header [OF ok [unfolded i] IH] show ?thesis by (simp add: printed_blocks_def)
  qed
qed

text \<open>The file: the lines of the step, stripped as one text.\<close>

lemma strip_rstrip: "py_strip (rstrip_by is_space s) = py_strip s"
proof -
  have r: "rstrip_by is_space (rstrip_by is_space u) = rstrip_by is_space u" for u
    by (simp add: rstrip_by_def)
  have "\<exists>w. s = rstrip_by is_space s @ w \<and> list_all is_space w"
  proof (intro exI conjI)
    show "s = rstrip_by is_space s @ rev (takeWhile is_space (rev s))"
      by (simp add: rstrip_by_def flip: rev_append)
    show "list_all is_space (rev (takeWhile is_space (rev s)))"
      by (auto simp: list_all_iff dest: set_takeWhileD)
  qed
  then obtain u w where s: "s = u @ w" "rstrip_by is_space s = u" "list_all is_space w" by blast
  show ?thesis
  proof (cases "list_all is_space u")
    case True
    then have "lstrip_by is_space u = []" "lstrip_by is_space s = []"
      using s(1,3) by (auto simp: lstrip_by_def list_all_iff dropWhile_eq_Nil_conv)
    then show ?thesis by (simp add: py_strip_def s(2))
  next
    case False
    then have "lstrip_by is_space s = lstrip_by is_space u @ w"
      by (auto simp: s(1) lstrip_by_def list_all_iff dropWhile_append)
    moreover have "rstrip_by is_space (x @ w) = rstrip_by is_space x" for x
      using s(3) by (auto simp: rstrip_by_def list_all_iff dropWhile_append dropWhile_eq_Nil_conv)
    ultimately show ?thesis by (simp add: py_strip_def s(2))
  qed
qed

lemma item_lines_hd:
  "item_ok i \<Longrightarrow> item_lines i \<noteq> [] \<and> hd (item_lines i) \<noteq> [] \<and> \<not> is_space (hd (hd (item_lines i)))"
  by (cases i) (auto simp: item_lines_def bb_lines_text_def is_space_def)

lemma item_lines_solid: "item_ok i \<Longrightarrow> l \<in> set (item_lines i) \<Longrightarrow> \<exists>c \<in> set l. \<not> is_space c"
proof -
  have d: "\<exists>c \<in> set (py_str (int n)). \<not> is_space c" for n
    using digs_space [of n] last_in_set [of "digs 10 n"] by (auto simp: py_str_def)
  show "item_ok i \<Longrightarrow> l \<in> set (item_lines i) \<Longrightarrow> ?thesis"
    by (cases i) (auto simp: item_lines_def item_ok_def bb_lines_text_def insn_text_def is_space_def Let_def)
qed

lemma rstrip_inside: "\<exists>c \<in> set v. \<not> is_space c \<Longrightarrow> rstrip_by is_space (u @ v) = u @ rstrip_by is_space v"
  by (auto simp: rstrip_by_def dropWhile_append)

lemma rstrip_solid: "\<exists>c \<in> set v. \<not> is_space c \<Longrightarrow> rstrip_by is_space v \<noteq> []"
  by (auto simp: rstrip_by_def dropWhile_eq_Nil_conv)

lemma set_rstrip: "set (rstrip_by P s) \<subseteq> set s"
  by (auto simp: rstrip_by_def dest: set_dropWhileD)

lemma join_snoc: "xs \<noteq> [] \<Longrightarrow> join sep (xs @ [y]) = join sep xs @ sep @ y"
  by (induction xs rule: induct_list012) (auto simp: join_Cons)

lemma strip_joined:
  assumes "xs @ [y] \<noteq> []" and "hd (xs @ [y]) \<noteq> []" and "\<not> is_space (hd (hd (xs @ [y])))"
    and "\<exists>c \<in> set y. \<not> is_space c"
  shows "py_strip (join [NL] ((xs @ [y]) @ [[]])) = join [NL] (xs @ [rstrip_by is_space y])"
proof -
  let ?P = "if xs = [] then [] else join [NL] xs @ [NL]"
  have j: "join [NL] (xs @ [z]) = ?P @ z" for z using join_snoc [of xs "[NL]" z] by simp
  have nl: "is_space NL" by (simp add: is_space_def)
  have "hd (join [NL] ((xs @ [y]) @ [[]])) = hd (hd (xs @ [y]))" "join [NL] ((xs @ [y]) @ [[]]) \<noteq> []"
    using assms(2) by (cases xs; cases "tl xs"; simp add: join_Cons)+
  then have "py_strip (join [NL] ((xs @ [y]) @ [[]])) = rstrip_by is_space (join [NL] ((xs @ [y]) @ [[]]))"
    using assms(3) by (simp add: py_strip_def lstrip_hd)
  also have "\<dots> = rstrip_by is_space (?P @ y @ [NL])"
    using join_snoc [of "xs @ [y]" "[NL]" "[]"] j by simp
  also have "\<dots> = ?P @ rstrip_by is_space (y @ [NL])"
    using assms(4) by (intro rstrip_inside) auto
  also have "rstrip_by is_space (y @ [NL]) = rstrip_by is_space y"
    using nl by (simp add: rstrip_by_def)
  finally show ?thesis by (simp add: j)
qed

lemma file_blocks_none: "file_blocks (''# No step 11 output found'' @ [NL]) = []"
    "file_blocks (''# No step 11b output found'' @ [NL]) = []"
  by code_simp+

lemma step_file:
  assumes "list_all item_ok items"
  defines "t \<equiv> py_strip (join [NL] (concat (map item_lines items) @ [[]]))"
  shows "file_blocks (bb_file_text t) = printed_blocks items \<and> file_blocks (bb_file_text_b t) = printed_blocks items"
proof (cases "items = []")
  case True
  then have "t = []" by (simp add: t_def py_strip_def lstrip_by_def rstrip_by_def)
  with True show ?thesis
    by (simp only: bb_file_text_def bb_file_text_b_def if_False not_not simp_thms file_blocks_none)
      (simp add: printed_blocks_def)
next
  case False
  let ?ls = "concat (map item_lines items)"
  from False obtain i more where items: "items = i # more" by (cases items) auto
  then have "item_ok i" using assms(1) by simp
  then have h: "?ls \<noteq> []" "hd ?ls \<noteq> []" "\<not> is_space (hd (hd ?ls))"
    using item_lines_hd [of i] by (auto simp: items hd_append)
  have solid: "\<exists>c \<in> set l. \<not> is_space c" if "l \<in> set ?ls" for l
    using that assms(1) item_lines_solid by (auto simp: list_all_iff)
  have plain: "plain_line l" if "l \<in> set ?ls" for l
    using that assms(1) item_lines_plain by (fastforce simp: list_all_iff)
  obtain xs y where ls: "?ls = xs @ [y]" using h(1) by (metis rev_exhaust)
  then have y: "\<exists>c \<in> set y. \<not> is_space c" using solid [of y] by simp
  let ?r = "rstrip_by is_space y"
  have t: "t = join [NL] (xs @ [?r])"
    unfolding t_def ls using h y by (intro strip_joined) (simp_all add: ls)
  have "t \<noteq> []" using rstrip_solid [OF y] by (cases "xs = []") (simp_all add: t join_snoc)
  have "t @ [NL] = join [NL] ((xs @ [?r]) @ [[]])"
    using join_snoc [of "xs @ [?r]" "[NL]" "[]"] by (simp add: t)
  moreover have "split_on NL (join [NL] ((xs @ [?r]) @ [[]])) = (xs @ [?r]) @ [[]]"
    using plain set_rstrip [of is_space y] by (intro split_on_join) (auto simp: ls plain_line_def)
  ultimately have "split_on NL (t @ [NL]) = (xs @ [?r]) @ [[]]" by simp
  then have "file_blocks (t @ [NL]) = map parse_basic_block (split_blocks [] (?ls @ [[]]))"
    unfolding file_blocks_def by (simp only:) (rule split_blocks_strip, simp_all add: ls strip_rstrip)
  also have "\<dots> = printed_blocks items" using split_items [OF assms(1), of "[]"] by (simp add: open_block_def)
  finally show ?thesis using \<open>t \<noteq> []\<close> by (simp add: bb_file_text_def bb_file_text_b_def)
qed

section \<open>From the listing to the blocks\<close>

text \<open>
  Everything \<open>diff.py\<close> prints goes through \<open>print\<close> or \<open>print_color\<close>; here the messages
  of the steps before, each with its colour, if any.
\<close>

definition messages_text :: "(string option \<times> string) list \<Rightarrow> string" where
  "messages_text messages = concat (map (\<lambda>(color, s).
     case color of None \<Rightarrow> print_line s | Some c \<Rightarrow> print_color c s) messages)"

definition heading_free :: "string \<Rightarrow> bool" where
  "heading_free s \<longleftrightarrow> ESC \<notin> set s \<and>
     list_all (\<lambda>l. \<not> re_matches rx_step11 l \<and> \<not> starts_with ''11b.'' l) (split_on NL s)"

lemma strip_shown: "list_all (\<lambda>(c, s). heading_free s) messages \<Longrightarrow>
    strip_ansi (messages_text messages @ rest) = concat (map (\<lambda>(c, s). s @ [NL]) messages) @ strip_ansi rest"
proof (induction messages)
  case (Cons m messages)
  obtain c s where m: "m = (c, s)" by (cases m)
  with Cons.prems have s: "ESC \<notin> set s" by (simp add: heading_free_def)
  have "strip_ansi ((case c of None \<Rightarrow> print_line s | Some c \<Rightarrow> print_color c s) @ (messages_text messages @ rest))
      = s @ NL # strip_ansi (messages_text messages @ rest)"
    using strip_print_line [OF s] strip_print_color [OF s] by (cases c) simp_all
  with Cons m show ?case by (simp add: messages_text_def)
qed (simp add: messages_text_def)

lemma split_on_append: "split_on d (s @ d # t) = split_on d s @ split_on d t"
  by (induction s) (auto split: list.splits simp: Cons_eq_append_conv)

lemma split_shown: "split_on NL (concat (map (\<lambda>(c, s). s @ [NL]) messages) @ rest)
    = concat (map (\<lambda>(c, s). split_on NL s) messages) @ split_on NL rest"
proof (induction messages)
  case (Cons m messages)
  obtain c s where m: "m = (c, s)" by (cases m)
  from Cons split_on_append [of NL s "concat (map (\<lambda>(c, s). s @ [NL]) messages) @ rest"]
  show ?case by (simp add: m)
qed simp

text \<open>A step: its heading after an empty line, then the lines of its items.\<close>

definition step_text :: "string \<Rightarrow> report_item list \<Rightarrow> string" where
  "step_text title items = print_color ''blue'' ([NL] @ title) @ concat (map item_text items)"

lemma strip_items: "list_all item_ok items \<Longrightarrow> strip_ansi (concat (map item_text items) @ rest)
    = concat (map print_line (concat (map item_lines items))) @ strip_ansi rest"
  by (induction items) (simp_all add: strip_item_text)

lemma step_text_lines:
  assumes "list_all item_ok items" and "plain_line title"
  shows "split_on NL (strip_ansi (step_text title items @ rest))
    = [[], title] @ concat (map item_lines items) @ split_on NL (strip_ansi rest)"
proof -
  let ?ls = "concat (map item_lines items)"
  have pl: "list_all plain_line ([[], title] @ ?ls)"
    using assms item_lines_plain by (fastforce simp: list_all_iff)
  have "strip_ansi (step_text title items @ rest) = ([NL] @ title) @ NL # (strip_ansi (concat (map item_text items) @ rest))"
    using strip_print_color [of "[NL] @ title" "''blue''"] assms(2)
    by (simp add: step_text_def plain_line_def ESC_def)
  also have "\<dots> = concat (map print_line ([[], title] @ ?ls)) @ strip_ansi rest"
    by (simp only: strip_items [OF assms(1)]) (simp add: print_line_def)
  finally show ?thesis by (simp only: split_printed [OF pl]) simp
qed

definition title11 :: string where
  "title11 = ''11. Extracting Basic Blocks for changed instructions...''"

definition title11b :: string where
  "title11b = ''11b. Extracting Basic Blocks for changed instructions (recompiled)...''"

definition title12 :: string where
  "title12 = ''12. Finding function information for changed instructions...''"

lemma titles_plain: "plain_line title11" "plain_line title11b" "plain_line title12"
  by (simp_all add: title11_def title11b_def title12_def ESC_def)

lemma titles: "re_matches rx_step11 title11" "\<not> re_matches rx_step11 title11b" "\<not> re_matches rx_step11 title12"
  "starts_with ''11b.'' title11b" "\<not> starts_with ''11b.'' title11" "\<not> starts_with ''11b.'' title12"
  "ends_step title12"
  by (simp_all add: step11_start title11_def title11b_def title12_def ends_step_def)

lemma step_texts:
  "step11_text original changed = step_text title11 (changed_blocks original changed)"
  "changed_rec \<noteq> [] \<Longrightarrow> step11b_text recompiled changed_rec = step_text title11b (changed_blocks recompiled changed_rec)"
  by (simp_all add: step11_text_def step11b_text_def step_text_def title11_def title11b_def)

lemma empty_line: "\<not> re_matches rx_step11 []" "\<not> starts_with ''11b.'' []" "\<not> ends_step []" "\<not> re_matches rx_skipped []"
  using skipped_start [of "[]"] by (auto simp: step11_start ends_step_def)

lemma items_inner: "list_all item_ok items \<Longrightarrow> list_all inner_line (concat (map item_lines items))"
  using item_lines_inner by (fastforce simp: list_all_iff)

lemma blocks_read_back:
  fixes rest :: string
  assumes "list_all (\<lambda>(color, s). heading_free s) messages"
    and "list_all item_ok (changed_blocks original changed)"
    and "list_all item_ok (changed_blocks recompiled changed_rec)" and "changed_rec \<noteq> []"
  defines "out \<equiv> strip_ansi (messages_text messages @ step11_text original changed
      @ step11b_text recompiled changed_rec @ step12_text original changed @ rest)"
  shows "file_blocks (bb_file_text (extract_step11 out)) = printed_blocks (changed_blocks original changed) \<and>
    file_blocks (bb_file_text_b (extract_step11b out)) = printed_blocks (changed_blocks recompiled changed_rec)"
proof -
  let ?a = "changed_blocks original changed" and ?b = "changed_blocks recompiled changed_rec"
  let ?la = "concat (map item_lines ?a)" and ?lb = "concat (map item_lines ?b)"
  let ?before = "concat (map (\<lambda>(c, s). split_on NL s) messages)"
  let ?infos = "concat (map (info_line original) changed)"
  let ?after = "split_on NL (strip_ansi (?infos @ rest))"
  have s12: "step12_text original changed @ rest = step_text title12 [] @ (?infos @ rest)"
    by (simp add: step12_text_def step_text_def title12_def)
  have lines: "split_on NL out = ?before @ [[], title11] @ ?la @ [[], title11b] @ ?lb @ [[], title12] @ ?after"
    unfolding out_def s12 step_texts(1) step_texts(2) [OF assms(4)]
    using step_text_lines [OF assms(2) titles_plain(1)] step_text_lines [OF assms(3) titles_plain(2)]
      step_text_lines [of "[]" title12] titles_plain(3)
    by (simp only: strip_shown [OF assms(1)] split_shown) simp
  have before: "list_all (\<lambda>l. \<not> re_matches rx_step11 l \<and> \<not> starts_with ''11b.'' l) (?before @ [[]])"
    using assms(1) empty_line by (fastforce simp: list_all_iff heading_free_def)
  have kept: "list_all (\<lambda>l. \<not> re_matches rx_step11 l \<and> \<not> (starts_with ''11b.'' l \<or> ends_step l) \<and>
      \<not> re_matches rx_skipped l) (concat (map item_lines items) @ [[]])"
    if "list_all item_ok items" for items
    using items_inner [OF that] inner_step11 empty_line by (auto simp: list_all_iff)
  have "step_lines (re_matches rx_step11) (\<lambda>line. starts_with ''11b.'' line \<or> ends_step line) False
      ((?before @ [[]]) @ title11 # (?la @ [[]]) @ title11b # (?lb @ [[], title12] @ ?after)) = ?la @ [[]]"
    using before kept [OF assms(2)] titles
    by (subst step_lines_outside, simp add: list_all_iff, simp add: step_lines_inside del: append_assoc)
  then have e1: "extract_step11 out = py_strip (join [NL] (?la @ [[]]))"
    by (simp add: extract_step11_def lines)
  have ba: "list_all (\<lambda>l. \<not> starts_with ''11b.'' l) (?before @ [[]])"
    by (rule list.pred_mono_strong [OF before]) simp
  have la: "list_all (\<lambda>l. \<not> starts_with ''11b.'' l) (?la @ [[]])"
    by (rule list.pred_mono_strong [OF kept [OF assms(2)]]) simp
  have b11: "list_all (\<lambda>l. \<not> starts_with ''11b.'' l) ((?before @ [[]]) @ title11 # (?la @ [[]]))"
    unfolding list_all_append [of _ "?before @ [[]]"] list.pred_inject(2) using ba la titles(5) by blast
  have kept_b: "list_all (\<lambda>l. \<not> starts_with ''11b.'' l \<and> \<not> ends_step l \<and> \<not> re_matches rx_skipped l) (?lb @ [[]])"
    by (rule list.pred_mono_strong [OF kept [OF assms(3)]]) simp
  have "step_lines (starts_with ''11b.'') ends_step False
      (((?before @ [[]]) @ title11 # (?la @ [[]])) @ title11b # ((?lb @ [[]]) @ title12 # ?after)) = ?lb @ [[]]"
    by (subst step_lines_outside [OF b11]) (simp only: step_lines.simps titles if_True step_lines_inside [OF kept_b] simp_thms)
  then have e2: "extract_step11b out = py_strip (join [NL] (?lb @ [[]]))"
    by (simp add: extract_step11b_def lines)
  show ?thesis
    using step_file [OF assms(2)] step_file [OF assms(3)] by (simp only: e1 e2 simp_thms)
qed

text \<open>
  C6: What the report prints about the basic blocks is what the code generator reads. For any
  earlier messages without a step heading in them, any output after the function information,
  and printed blocks whose names and instructions are single lines: the files that \<open>gen.py\<close>
  cuts out of the output of \<open>diff.py\<close> (without its colours) are split by \<open>codegen.py\<close> into
  exactly the blocks of the original and of the recompiled listing, in order, each with its
  function, its line range and its instructions, continuation lines left out.
\<close>

theorem report_blocks_read_back:
  assumes "list_all (\<lambda>(color, s). heading_free s) messages"
    and "list_all item_ok (changed_blocks original changed)"
    and "list_all item_ok (changed_blocks recompiled changed_rec)" and "changed_rec \<noteq> []"
  shows "file_blocks (bb_file_text (extract_step11 (strip_ansi (messages_text messages @ step11_text original changed
        @ step11b_text recompiled changed_rec @ step12_text original changed @ rest))))
      = printed_blocks (changed_blocks original changed) \<and>
    file_blocks (bb_file_text_b (extract_step11b (strip_ansi (messages_text messages @ step11_text original changed
        @ step11b_text recompiled changed_rec @ step12_text original changed @ rest))))
      = printed_blocks (changed_blocks recompiled changed_rec)"
  by (rule blocks_read_back [OF assms])

definition sample_listing :: "string \<Rightarrow> string" where
  "sample_listing byte = join [NL] [''Disassembly of section .text:'', [], ''00 <f>:'',
     ''   0:  be '' @ byte @ ''  mov $0x'' @ byte @ '',%esi'', ''   2:  c3  ret'', []]"

definition sample_changed :: "changed_insn list" where
  "sample_changed = [(''-   0:  be c8  mov $0xc8,%esi'', ''0'', Some 4)]"

definition sample_changed_rec :: "changed_insn list" where
  "sample_changed_rec = [(''+   0:  be 64  mov $0x64,%esi'', ''0'', Some 4)]"

lemma sample_blocks:
  "changed_blocks (sample_listing ''c8'') sample_changed = [Basic_Block 4 5 (Some ''f'')
     [(True, ''0'', ''be c8  mov $0xc8,%esi''), (False, ''2'', ''c3  ret'')]]"
  "changed_blocks (sample_listing ''64'') sample_changed_rec = [Basic_Block 4 5 (Some ''f'')
     [(True, ''0'', ''be 64  mov $0x64,%esi''), (False, ''2'', ''c3  ret'')]]"
  by code_simp+

theorem report_blocks_read_back_witness:
  "file_blocks (bb_file_text (extract_step11 (strip_ansi (messages_text [(Some ''blue'', ''1. Compiling'')]
      @ step11_text (sample_listing ''c8'') sample_changed
      @ step11b_text (sample_listing ''64'') sample_changed_rec
      @ step12_text (sample_listing ''c8'') sample_changed @ []))))
    = [(Some ''f'', Some ''Basic Block: lines 4-5'', [''[*] 0:  be c8  mov $0xc8,%esi'', ''2:  c3  ret''])]"
proof -
  have "list_all (\<lambda>(color, s). heading_free s) [(Some ''blue'', ''1. Compiling'')]" by code_simp
  moreover have "list_all item_ok (changed_blocks (sample_listing ''c8'') sample_changed)"
    unfolding sample_blocks by code_simp
  moreover have "list_all item_ok (changed_blocks (sample_listing ''64'') sample_changed_rec)"
    unfolding sample_blocks by code_simp
  moreover have "sample_changed_rec \<noteq> []" by (simp add: sample_changed_rec_def)
  moreover have "printed_blocks (changed_blocks (sample_listing ''c8'') sample_changed)
      = [(Some ''f'', Some ''Basic Block: lines 4-5'', [''[*] 0:  be c8  mov $0xc8,%esi'', ''2:  c3  ret''])]"
    unfolding sample_blocks by code_simp
  ultimately show ?thesis using report_blocks_read_back by metis
qed

end
