(* ===== verification/Image_Difflib.thy ===== *)
theory Image_Difflib
  imports Image_Filter
begin

text \<open>
  The comparison of \<open>src/src/diff.py\<close> that leaves out the line numbers
  (\<open>--ignore-number-colon\<close>), and the part of Python's \<open>difflib\<close> it uses: the matching blocks of
  two lists of lines, the edit operations between them, and their text as a unified diff.
\<close>

section \<open>Matching blocks\<close>

text \<open>
  Lines that make up more than a hundredth of a long second list start no match
  (\<open>bpopular\<close>); no line is junk.
\<close>

definition popular :: "'a list \<Rightarrow> 'a \<Rightarrow> bool" where
  "popular b x \<longleftrightarrow> 200 \<le> length b \<and> count_list b x > length b div 100 + 1"

text \<open>
  \<open>run_length p a b i j\<close> is the length of the longest match without popular lines that ends
  with the lines \<open>i\<close> and \<open>j\<close> (\<open>j2len\<close>). The first longest one is extended on both sides, over
  popular lines too.
\<close>

fun run_length :: "('a \<Rightarrow> bool) \<Rightarrow> 'a list \<Rightarrow> 'a list \<Rightarrow> nat \<Rightarrow> nat \<Rightarrow> nat" where
  "run_length p a b i j =
     (if a ! i = b ! j \<and> \<not> p (b ! j)
      then Suc (if 0 < i \<and> 0 < j then run_length p a b (i - 1) (j - 1) else 0) else 0)"

declare run_length.simps [simp del]

definition longer_run :: "('a \<Rightarrow> bool) \<Rightarrow> 'a list \<Rightarrow> 'a list \<Rightarrow> nat \<times> nat \<times> nat \<Rightarrow> nat \<times> nat \<Rightarrow> nat \<times> nat \<times> nat" where
  "longer_run p a b best ij = (case ij of (i, j) \<Rightarrow>
     let k = run_length p a b i j
     in if snd (snd best) < k then (Suc i - k, Suc j - k, k) else best)"

fun common_prefix :: "'a list \<Rightarrow> 'a list \<Rightarrow> nat" where
  "common_prefix (x # xs) (y # ys) = (if x = y then Suc (common_prefix xs ys) else 0)"
| "common_prefix xs ys = 0"

definition extend_match :: "'a list \<Rightarrow> 'a list \<Rightarrow> nat \<times> nat \<times> nat \<Rightarrow> nat \<times> nat \<times> nat" where
  "extend_match a b = (\<lambda>(i, j, k).
     let m = common_prefix (rev (take i a)) (rev (take j b));
         n = common_prefix (drop (i + k) a) (drop (j + k) b)
     in (i - m, j - m, m + k + n))"

definition find_longest_match :: "('a \<Rightarrow> bool) \<Rightarrow> 'a list \<Rightarrow> 'a list \<Rightarrow> nat \<times> nat \<times> nat" where
  "find_longest_match p a b = extend_match a b
     (foldl (longer_run p a b) (0, 0, 0) (List.product [0..<length a] [0..<length b]))"

text \<open>A match: equal lines, within both lists.\<close>

definition is_match :: "'a list \<Rightarrow> 'a list \<Rightarrow> nat \<times> nat \<times> nat \<Rightarrow> bool" where
  "is_match a b m = (case m of (i, j, k) \<Rightarrow>
     i + k \<le> length a \<and> j + k \<le> length b \<and> take k (drop i a) = take k (drop j b))"

lemma run_length_bound: "run_length p a b i j \<le> Suc i \<and> run_length p a b i j \<le> Suc j"
proof (induction p a b i j rule: run_length.induct)
  case (1 p a b i j)
  then show ?case by (subst (1 2) run_length.simps) (auto; fastforce)
qed

lemma run_length_equal:
  "t < run_length p a b i j \<Longrightarrow> a ! (i - t) = b ! (j - t) \<and> \<not> p (b ! (j - t))"
proof (induction p a b i j arbitrary: t rule: run_length.induct)
  case (1 p a b i j)
  from "1.prems" have ab: "a ! i = b ! j \<and> \<not> p (b ! j)"
    by (subst (asm) run_length.simps) (simp split: if_splits)
  show ?case
  proof (cases t)
    case (Suc u)
    with "1.prems" ab have "0 < i \<and> 0 < j" "u < run_length p a b (i - 1) (j - 1)"
      by (subst (asm) run_length.simps, simp split: if_splits)+
    with 1 ab Suc show ?thesis by simp
  qed (use ab in simp)
qed

lemma run_is_match:
  assumes "i < length a" "j < length b" "k = run_length p a b i j"
  shows "is_match a b (Suc i - k, Suc j - k, k)"
proof -
  have k: "k \<le> Suc i" "k \<le> Suc j" using run_length_bound [of p a b i j] assms(3) by auto
  have "a ! (Suc i - k + t) = b ! (Suc j - k + t)" if "t < k" for t
    using run_length_equal [of "k - 1 - t" p a b i j] that k assms(3) by (simp add: algebra_simps)
  with k assms show ?thesis by (auto simp: is_match_def intro!: nth_equalityI)
qed

lemma best_is_match:
  assumes "\<forall>(i, j) \<in> set ps. i < length a \<and> j < length b" "is_match a b m"
  shows "is_match a b (foldl (longer_run p a b) m ps)"
  using assms
  by (induction ps arbitrary: m) (auto simp: longer_run_def Let_def run_is_match split: prod.splits)

lemma common_prefix_bound: "common_prefix xs ys \<le> length xs \<and> common_prefix xs ys \<le> length ys"
  by (induction xs ys rule: common_prefix.induct) auto

lemma common_prefix_take: "take (common_prefix xs ys) xs = take (common_prefix xs ys) ys"
  by (induction xs ys rule: common_prefix.induct) auto

lemma common_suffix:
  assumes "i \<le> length a" "j \<le> length b"
  defines "n \<equiv> common_prefix (rev (take i a)) (rev (take j b))"
  shows "n \<le> i \<and> n \<le> j \<and> take n (drop (i - n) a) = take n (drop (j - n) b)"
proof -
  have n: "n \<le> i" "n \<le> j"
    using common_prefix_bound [of "rev (take i a)" "rev (take j b)"] assms by auto
  have "take n (rev (take i a)) = take n (rev (take j b))"
    unfolding n_def by (rule common_prefix_take)
  then have "rev (drop (i - n) (take i a)) = rev (drop (j - n) (take j b))"
    using assms(1,2) by (simp add: take_rev)
  with n show ?thesis by (simp add: drop_take)
qed

lemma take_add_eq:
  "take m (drop i a) = take m (drop j b) \<Longrightarrow> take n (drop (i + m) a) = take n (drop (j + m) b)
     \<Longrightarrow> take (m + n) (drop i a) = take (m + n) (drop j b)"
  by (simp add: take_add add.commute)

lemma extend_is_match:
  assumes "is_match a b m"
  shows "is_match a b (extend_match a b m)"
proof -
  obtain i j k where m: "m = (i, j, k)" using prod_cases3 by blast
  let ?n = "common_prefix (rev (take i a)) (rev (take j b))"
    and ?r = "common_prefix (drop (i + k) a) (drop (j + k) b)"
  have ij: "i + k \<le> length a" "j + k \<le> length b" "take k (drop i a) = take k (drop j b)"
    using assms by (auto simp: m is_match_def)
  then have n: "?n \<le> i" "?n \<le> j" "take ?n (drop (i - ?n) a) = take ?n (drop (j - ?n) b)"
    using common_suffix [of i a j b] by auto
  have r: "?r \<le> length a - (i + k)" "?r \<le> length b - (j + k)"
    using common_prefix_bound [of "drop (i + k) a" "drop (j + k) b"] by auto
  have "take (?n + k) (drop (i - ?n) a) = take (?n + k) (drop (j - ?n) b)"
    using n ij by (intro take_add_eq) simp_all
  then have "take (?n + k + ?r) (drop (i - ?n) a) = take (?n + k + ?r) (drop (j - ?n) b)"
  proof (rule take_add_eq)
    show "take ?r (drop (i - ?n + (?n + k)) a) = take ?r (drop (j - ?n + (?n + k)) b)"
      using n common_prefix_take [of "drop (i + k) a" "drop (j + k) b"] by simp
  qed
  moreover have "i + k + ?r \<le> length a" "j + k + ?r \<le> length b" using r ij(1,2) by linarith+
  ultimately show ?thesis using n by (simp add: m is_match_def extend_match_def Let_def)
qed

lemma longest_is_match: "is_match a b (find_longest_match p a b)"
  unfolding find_longest_match_def
  by (intro extend_is_match best_is_match) (auto simp: is_match_def)

text \<open>The blocks, in the order of their places, and without two that touch.\<close>

definition shift_block :: "nat \<Rightarrow> nat \<Rightarrow> nat \<times> nat \<times> nat \<Rightarrow> nat \<times> nat \<times> nat" where
  "shift_block di dj = (\<lambda>(i, j, k). (i + di, j + dj, k))"

function match_blocks :: "('a \<Rightarrow> bool) \<Rightarrow> 'a list \<Rightarrow> 'a list \<Rightarrow> (nat \<times> nat \<times> nat) list" where
  "match_blocks p a b =
     (let (i, j, k) = find_longest_match p a b
      in if k = 0 then []
         else (if 0 < i \<and> 0 < j then match_blocks p (take i a) (take j b) else [])
           @ (i, j, k) # (if i + k < length a \<and> j + k < length b
             then map (shift_block (i + k) (j + k)) (match_blocks p (drop (i + k) a) (drop (j + k) b)) else []))"
  by pat_completeness auto

termination
proof (relation "measure (\<lambda>(p, a, b). length a)", simp, goal_cases)
  case (1 p a b x i y j k)
  with longest_is_match [of a b p] show ?case by (auto simp: is_match_def)
qed auto

declare match_blocks.simps [simp del]

fun join_blocks :: "nat \<times> nat \<times> nat \<Rightarrow> (nat \<times> nat \<times> nat) list \<Rightarrow> (nat \<times> nat \<times> nat) list" where
  "join_blocks (i, j, k) [] = (if k \<noteq> 0 then [(i, j, k)] else [])"
| "join_blocks (i, j, k) ((i', j', k') # bs) =
     (if i + k = i' \<and> j + k = j' then join_blocks (i, j, k + k') bs
      else (if k \<noteq> 0 then [(i, j, k)] else []) @ join_blocks (i', j', k') bs)"

definition get_matching_blocks :: "'a list \<Rightarrow> 'a list \<Rightarrow> (nat \<times> nat \<times> nat) list" where
  "get_matching_blocks a b =
     join_blocks (0, 0, 0) (match_blocks (popular b) a b) @ [(length a, length b, 0)]"

section \<open>Edit operations and their text\<close>

datatype tag = Replaced | Deleted | Inserted | Equal_Lines

type_synonym opcode = "tag \<times> nat \<times> nat \<times> nat \<times> nat"

fun opcodes_from :: "nat \<Rightarrow> nat \<Rightarrow> (nat \<times> nat \<times> nat) list \<Rightarrow> opcode list" where
  "opcodes_from i j [] = []"
| "opcodes_from i j ((ai, bj, k) # bs) =
     (if i < ai \<and> j < bj then [(Replaced, i, ai, j, bj)]
      else if i < ai then [(Deleted, i, ai, j, bj)]
      else if j < bj then [(Inserted, i, ai, j, bj)] else [])
     @ (if k \<noteq> 0 then [(Equal_Lines, ai, ai + k, bj, bj + k)] else [])
     @ opcodes_from (ai + k) (bj + k) bs"

definition get_opcodes :: "'a list \<Rightarrow> 'a list \<Rightarrow> opcode list" where
  "get_opcodes a b = opcodes_from 0 0 (get_matching_blocks a b)"

text \<open>Groups of operations with at most \<open>n\<close> equal lines around them.\<close>

definition trim_first :: "nat \<Rightarrow> opcode \<Rightarrow> opcode" where
  "trim_first n = (\<lambda>(t, i1, i2, j1, j2).
     if t = Equal_Lines then (t, max i1 (i2 - n), i2, max j1 (j2 - n), j2) else (t, i1, i2, j1, j2))"

definition trim_last :: "nat \<Rightarrow> opcode \<Rightarrow> opcode" where
  "trim_last n = (\<lambda>(t, i1, i2, j1, j2).
     if t = Equal_Lines then (t, i1, min i2 (i1 + n), j1, min j2 (j1 + n)) else (t, i1, i2, j1, j2))"

definition trim_ends :: "nat \<Rightarrow> opcode list \<Rightarrow> opcode list" where
  "trim_ends n codes = (case codes of
     [] \<Rightarrow> [(Equal_Lines, 0, 1, 0, 1)]
   | c # cs \<Rightarrow> (let codes' = trim_first n c # cs in butlast codes' @ [trim_last n (last codes')]))"

definition group_shown :: "opcode list \<Rightarrow> bool" where
  "group_shown g \<longleftrightarrow> g \<noteq> [] \<and> \<not> (length g = 1 \<and> fst (hd g) = Equal_Lines)"

fun group_codes :: "nat \<Rightarrow> opcode list \<Rightarrow> opcode list \<Rightarrow> opcode list list" where
  "group_codes n g [] = (if group_shown g then [g] else [])"
| "group_codes n g ((t, i1, i2, j1, j2) # cs) =
     (if t = Equal_Lines \<and> i2 - i1 > n + n
      then (g @ [(t, i1, min i2 (i1 + n), j1, min j2 (j1 + n))])
        # group_codes n [(t, max i1 (i2 - n), i2, max j1 (j2 - n), j2)] cs
      else group_codes n (g @ [(t, i1, i2, j1, j2)]) cs)"

definition get_grouped_opcodes :: "nat \<Rightarrow> 'a list \<Rightarrow> 'a list \<Rightarrow> opcode list list" where
  "get_grouped_opcodes n a b = group_codes n [] (trim_ends n (get_opcodes a b))"

definition format_range_unified :: "nat \<Rightarrow> nat \<Rightarrow> string" where
  "format_range_unified start stop =
     (let k = stop - start
      in if k = 1 then digs 10 (start + 1)
         else digs 10 (if k = 0 then start else start + 1) @ '','' @ digs 10 k)"

definition slice :: "nat \<Rightarrow> nat \<Rightarrow> 'a list \<Rightarrow> 'a list" where
  "slice i1 i2 xs = take (i2 - i1) (drop i1 xs)"

fun opcode_lines :: "string list \<Rightarrow> string list \<Rightarrow> opcode \<Rightarrow> string list" where
  "opcode_lines a b (t, i1, i2, j1, j2) =
     (if t = Equal_Lines then map (\<lambda>l. '' '' @ l) (slice i1 i2 a)
      else (if t \<noteq> Inserted then map (\<lambda>l. ''-'' @ l) (slice i1 i2 a) else [])
        @ (if t \<noteq> Deleted then map (\<lambda>l. ''+'' @ l) (slice j1 j2 b) else []))"

fun hunk_lines :: "string list \<Rightarrow> string list \<Rightarrow> opcode list \<Rightarrow> string list" where
  "hunk_lines a b g = (case (hd g, last g) of ((_, i1, _, j1, _), (_, _, i2, _, j2)) \<Rightarrow>
     (''@@ -'' @ format_range_unified i1 i2 @ '' +'' @ format_range_unified j1 j2 @ '' @@'')
     # concat (map (opcode_lines a b) g))"

definition unified_diff :: "string list \<Rightarrow> string list \<Rightarrow> string \<Rightarrow> string \<Rightarrow> string list" where
  "unified_diff a b fromfile tofile =
     (case get_grouped_opcodes 3 a b of
        [] \<Rightarrow> []
      | groups \<Rightarrow> (''--- '' @ fromfile) # (''+++ '' @ tofile) # concat (map (hunk_lines a b) groups))"

section \<open>The comparison\<close>

definition numberless_lines :: "string \<Rightarrow> string list" where
  "numberless_lines content =
     map (\<lambda>l. strip_leading_number_colon (rstrip_by (\<lambda>c. c = NL) l)) (readlines content)"

text \<open>A file is its name and its content.\<close>

definition diff_ignore_number_colon :: "string \<times> string \<Rightarrow> string \<times> string \<Rightarrow> string list" where
  "diff_ignore_number_colon file1 file2 =
     unified_diff (numberless_lines (snd file1)) (numberless_lines (snd file2)) (fst file1) (fst file2)"

section \<open>The difference is an edit script\<close>

text \<open>Blocks one after the other between two places of both lists.\<close>

fun blocks_in :: "'a list \<Rightarrow> 'a list \<Rightarrow> nat \<times> nat \<Rightarrow> nat \<times> nat \<Rightarrow> (nat \<times> nat \<times> nat) list \<Rightarrow> bool" where
  "blocks_in a b (i, j) (i2, j2) [] \<longleftrightarrow> i \<le> i2 \<and> j \<le> j2"
| "blocks_in a b (i, j) e ((i', j', k) # bs) \<longleftrightarrow>
     i \<le> i' \<and> j \<le> j' \<and> is_match a b (i', j', k) \<and> blocks_in a b (i' + k, j' + k) e bs"

lemma blocks_in_append:
  "blocks_in a b s m xs \<Longrightarrow> blocks_in a b m e ys \<Longrightarrow> blocks_in a b s e (xs @ ys)"
proof (induction a b s m xs rule: blocks_in.induct)
  case (1 a b i j i2 j2)
  then show ?case by (cases ys; cases e) auto
qed auto

lemma match_take: "is_match (take i a) (take j b) m \<Longrightarrow> is_match a b m"
  by (auto simp: is_match_def drop_take min_def split: prod.splits if_splits)

lemma blocks_in_take:
  "blocks_in (take m a) (take n b) s e bs \<Longrightarrow> blocks_in a b s e bs"
  by (induction bs arbitrary: s) (auto intro: match_take, (cases s; cases e; simp add: match_take)+)

lemma match_drop: "m \<le> length a \<Longrightarrow> n \<le> length b \<Longrightarrow> is_match (drop m a) (drop n b) (i, j, k) \<Longrightarrow> is_match a b (i + m, j + n, k)"
  by (auto simp: is_match_def add.commute)

lemma blocks_in_drop:
  "m \<le> length a \<Longrightarrow> n \<le> length b \<Longrightarrow> blocks_in (drop m a) (drop n b) (i, j) (i2, j2) bs \<Longrightarrow>
     blocks_in a b (i + m, j + n) (i2 + m, j2 + n) (map (shift_block m n) bs)"
proof (induction bs arbitrary: i j)
  case (Cons x bs)
  obtain i' j' k where x: "x = (i', j', k)" using prod_cases3 by blast
  have "blocks_in a b (i' + k + m, j' + k + n) (i2 + m, j2 + n) (map (shift_block m n) bs)"
    using Cons x by simp
  then show ?case using Cons.prems match_drop [of m a n b i' j' k]
    by (simp add: x shift_block_def algebra_simps)
qed simp

lemma match_blocks_in: "blocks_in a b (0, 0) (length a, length b) (match_blocks p a b)"
proof (induction p a b rule: match_blocks.induct)
  case (1 p a b)
  obtain i j k where m: "find_longest_match p a b = (i, j, k)" using prod_cases3 by blast
  have ok: "is_match a b (i, j, k)" "i + k \<le> length a" "j + k \<le> length b"
    using longest_is_match [of a b p] m by (auto simp: is_match_def)
  show ?case
  proof (cases "k = 0")
    case True
    then show ?thesis using m by (subst match_blocks.simps) simp
  next
    case False
    have l: "blocks_in a b (0, 0) (i, j)
        (if 0 < i \<and> 0 < j then match_blocks p (take i a) (take j b) else [])"
    proof -
      have "min (length a) i = i" "min (length b) j = j" using ok by auto
      then show ?thesis
        using "1.IH"(1) [OF m [symmetric] refl refl False] blocks_in_take [of i a j b] by simp
    qed
    have r: "blocks_in a b (i + k, j + k) (length a, length b)
        (if i + k < length a \<and> j + k < length b
         then map (shift_block (i + k) (j + k)) (match_blocks p (drop (i + k) a) (drop (j + k) b)) else [])"
      using "1.IH"(2) [OF m [symmetric] refl refl False] ok
        blocks_in_drop [of "i + k" a "j + k" b 0 0 "length a - (i + k)" "length b - (j + k)"] by auto
    have "blocks_in a b (i, j) (length a, length b) ((i, j, k) #
        (if i + k < length a \<and> j + k < length b
         then map (shift_block (i + k) (j + k)) (match_blocks p (drop (i + k) a) (drop (j + k) b)) else []))"
      using r ok by simp
    from blocks_in_append [OF l this] show ?thesis
      using m False by (subst match_blocks.simps) simp
  qed
qed

lemma match_add: "is_match a b (i, j, k) \<Longrightarrow> is_match a b (i + k, j + k, k') \<Longrightarrow> is_match a b (i, j, k + k')"
  unfolding is_match_def prod.case by (intro conjI take_add_eq; simp)

lemma join_blocks_in:
  "blocks_in a b s e ((i, j, k) # bs) \<Longrightarrow> blocks_in a b s e (join_blocks (i, j, k) bs)"
proof (induction "(i, j, k)" bs arbitrary: i j k s rule: join_blocks.induct)
  case (1 i j k)
  then show ?case by (cases s; cases e) auto
next
  case (2 i j k i' j' k' bs)
  then show ?case by (cases s) (auto simp: add.assoc match_add)
qed

lemma matching_blocks_in: "blocks_in a b (0, 0) (length a, length b) (get_matching_blocks a b)"
  unfolding get_matching_blocks_def
proof (rule blocks_in_append [OF join_blocks_in])
  show "blocks_in a b (0, 0) (length a, length b) ((0, 0, 0) # match_blocks (popular b) a b)"
    by (simp add: match_blocks_in is_match_def)
qed (simp add: is_match_def)


text \<open>The operations cover both lists, in order.\<close>

fun codes_cover :: "'a list \<Rightarrow> 'a list \<Rightarrow> nat \<Rightarrow> nat \<Rightarrow> opcode list \<Rightarrow> bool" where
  "codes_cover a b i j [] \<longleftrightarrow> i = length a \<and> j = length b"
| "codes_cover a b i j ((t, i1, i2, j1, j2) # cs) \<longleftrightarrow>
     i1 = i \<and> j1 = j \<and> i \<le> i2 \<and> j \<le> j2 \<and>
     (t = Equal_Lines \<longrightarrow> slice i1 i2 a = slice j1 j2 b) \<and>
     (t = Inserted \<longrightarrow> i1 = i2) \<and> (t = Deleted \<longrightarrow> j1 = j2) \<and> codes_cover a b i2 j2 cs"

lemma opcodes_cover:
  "blocks_in a b (i, j) (length a, length b) (bs @ [(length a, length b, 0)]) \<Longrightarrow>
     codes_cover a b i j (opcodes_from i j (bs @ [(length a, length b, 0)]))"
  by (induction i j bs rule: opcodes_from.induct) (auto simp: is_match_def slice_def)

lemma get_opcodes_cover: "codes_cover a b 0 0 (get_opcodes a b)"
  unfolding get_opcodes_def get_matching_blocks_def
  by (rule opcodes_cover) (rule matching_blocks_in [unfolded get_matching_blocks_def])

datatype 'a piece = Same "'a list" | Changed "'a list" "'a list"

fun old_side :: "'a piece \<Rightarrow> 'a list" where
  "old_side (Same u) = u"
| "old_side (Changed u v) = u"

fun new_side :: "'a piece \<Rightarrow> 'a list" where
  "new_side (Same u) = u"
| "new_side (Changed u v) = v"

fun removed_part :: "'a piece \<Rightarrow> 'a list" where
  "removed_part (Same u) = []"
| "removed_part (Changed u v) = u"

fun added_part :: "'a piece \<Rightarrow> 'a list" where
  "added_part (Same u) = []"
| "added_part (Changed u v) = v"

fun piece_of :: "'a list \<Rightarrow> 'a list \<Rightarrow> opcode \<Rightarrow> 'a piece" where
  "piece_of a b (t, i1, i2, j1, j2) =
     (if t = Equal_Lines then Same (slice i1 i2 a) else Changed (slice i1 i2 a) (slice j1 j2 b))"

lemma slice_drop: "i \<le> i2 \<Longrightarrow> slice i i2 a @ drop i2 a = drop i a"
  unfolding slice_def by (metis append_take_drop_id drop_drop le_add_diff_inverse2)

lemma pieces_cover:
  "codes_cover a b i j codes \<Longrightarrow>
     concat (map old_side (map (piece_of a b) codes)) = drop i a \<and>
     concat (map new_side (map (piece_of a b) codes)) = drop j b"
proof (induction codes arbitrary: i j)
  case (Cons c codes)
  obtain t i1 i2 j1 j2 where c: "c = (t, i1, i2, j1, j2)" using prod_cases5 by blast
  with Cons show ?case using slice_drop [of i i2 a] slice_drop [of j j2 b] by auto
qed simp

text \<open>Cutting the operations into groups leaves all that change something.\<close>

definition changing :: "opcode list \<Rightarrow> opcode list" where
  "changing codes = filter (\<lambda>c. fst c \<noteq> Equal_Lines) codes"

lemma changing_simps [simp]:
  "changing [] = []" "changing (c # cs) = (if fst c = Equal_Lines then changing cs else c # changing cs)"
  "changing (cs @ cs') = changing cs @ changing cs'"
  by (auto simp: changing_def)

lemma trim_changing [simp]:
  "fst (trim_first n c) = fst c" "fst (trim_last n c) = fst c"
  "fst c \<noteq> Equal_Lines \<Longrightarrow> trim_first n c = c" "fst c \<noteq> Equal_Lines \<Longrightarrow> trim_last n c = c"
  by (auto simp: trim_first_def trim_last_def split: prod.splits)

lemma trim_ends_changing: "changing (trim_ends n codes) = changing codes"
proof (cases codes)
  case (Cons c cs)
  have "changing (butlast xs @ [trim_last n (last xs)]) = changing xs" if "xs \<noteq> []" for xs
    using that by (cases xs rule: rev_cases) auto
  from this [of "trim_first n c # cs"] show ?thesis by (simp add: trim_ends_def Cons Let_def)
qed (simp add: trim_ends_def)

lemma not_shown: "\<not> group_shown g \<Longrightarrow> changing g = []"
  by (cases g) (auto simp: group_shown_def)

lemma group_changing: "changing (concat (group_codes n g codes)) = changing g @ changing codes"
  by (induction n g codes rule: group_codes.induct) (auto dest: not_shown)

lemma grouped_changing: "changing (concat (get_grouped_opcodes n a b)) = changing (get_opcodes a b)"
  by (simp add: get_grouped_opcodes_def group_changing trim_ends_changing)


text \<open>The changed lines among the lines of the groups.\<close>

lemma kind_simps [simp]:
  "is_removed (CHR ''-'' # l)" "is_added (CHR ''+'' # l)" "\<not> is_removed (CHR ''+'' # l)" "\<not> is_added (CHR ''-'' # l)"
  "\<not> is_removed (CHR '' '' # l)" "\<not> is_added (CHR '' '' # l)" "\<not> is_removed (CHR ''@'' # l)" "\<not> is_added (CHR ''@'' # l)"
  by (simp_all add: is_removed_def is_added_def starts_with_iff)

lemma context_lines: "fst c = Equal_Lines \<Longrightarrow> filter is_removed (opcode_lines a b c) = [] \<and> filter is_added (opcode_lines a b c) = []"
  by (cases c) (auto simp: filter_empty_conv)

lemma changed_lines_of:
  "codes_cover a b i j (c # cs) \<Longrightarrow>
     filter is_removed (opcode_lines a b c) = map (\<lambda>l. ''-'' @ l) (removed_part (piece_of a b c)) \<and>
     filter is_added (opcode_lines a b c) = map (\<lambda>l. ''+'' @ l) (added_part (piece_of a b c))"
  by (cases c) (auto simp: filter_map o_def slice_def filter_empty_conv)

lemma changed_lines:
  "codes_cover a b i j codes \<Longrightarrow>
     concat (map (\<lambda>c. filter is_removed (opcode_lines a b c)) codes)
       = map (\<lambda>l. ''-'' @ l) (concat (map removed_part (map (piece_of a b) codes))) \<and>
     concat (map (\<lambda>c. filter is_added (opcode_lines a b c)) codes)
       = map (\<lambda>l. ''+'' @ l) (concat (map added_part (map (piece_of a b) codes)))"
proof (induction codes arbitrary: i j)
  case (Cons c codes)
  obtain t i1 i2 j1 j2 where "c = (t, i1, i2, j1, j2)" using prod_cases5 by blast
  with Cons changed_lines_of [OF Cons.prems] show ?case by (simp del: opcode_lines.simps piece_of.simps) blast
qed simp

lemma only_changing:
  assumes "\<And>c. fst c = Equal_Lines \<Longrightarrow> f c = []"
  shows "concat (map f codes) = concat (map f (changing codes))"
  using assms by (induction codes) auto

lemma group_kinds:
  "filter is_removed (hunk_lines a b g) = concat (map (\<lambda>c. filter is_removed (opcode_lines a b c)) (changing g))"
  "filter is_added (hunk_lines a b g) = concat (map (\<lambda>c. filter is_added (opcode_lines a b c)) (changing g))"
  using only_changing [of "\<lambda>c. filter is_removed (opcode_lines a b c)" g]
    only_changing [of "\<lambda>c. filter is_added (opcode_lines a b c)" g] context_lines [of _ a b]
  by (simp_all add: filter_concat o_def split: prod.splits del: opcode_lines.simps)

lemma groups_kinds:
  "filter is_removed (concat (map (hunk_lines a b) gs)) =
     concat (map (\<lambda>c. filter is_removed (opcode_lines a b c)) (changing (concat gs)))"
  "filter is_added (concat (map (hunk_lines a b) gs)) =
     concat (map (\<lambda>c. filter is_added (opcode_lines a b c)) (changing (concat gs)))"
  by (induction gs) (simp_all add: group_kinds del: hunk_lines.simps opcode_lines.simps)

lemma body_of_diff: "drop 2 (unified_diff a b f g) = concat (map (hunk_lines a b) (get_grouped_opcodes 3 a b))"
  by (simp add: unified_diff_def split: list.splits del: hunk_lines.simps)

lemma removed_lines:
  "filter is_removed (drop 2 (unified_diff a b f g)) =
     map (\<lambda>l. ''-'' @ l) (concat (map removed_part (map (piece_of a b) (get_opcodes a b))))"
  "filter is_added (drop 2 (unified_diff a b f g)) =
     map (\<lambda>l. ''+'' @ l) (concat (map added_part (map (piece_of a b) (get_opcodes a b))))"
  using only_changing [of "\<lambda>c. filter is_removed (opcode_lines a b c)" "get_opcodes a b"]
    only_changing [of "\<lambda>c. filter is_added (opcode_lines a b c)" "get_opcodes a b"] context_lines [of _ a b]
    changed_lines [OF get_opcodes_cover [of a b]]
  by (simp_all add: body_of_diff groups_kinds grouped_changing del: opcode_lines.simps piece_of.simps)

section \<open>No difference means equal lines\<close>

lemma nothing_changed:
  "concat (map removed_part script) = [] \<Longrightarrow> concat (map added_part script) = [] \<Longrightarrow>
     concat (map old_side script) = concat (map new_side script)"
proof (induction script)
  case (Cons c script)
  then show ?case by (cases c) auto
qed simp

lemma run_length_sym: "run_length p a a i j = run_length p a a j i"
proof (induction i arbitrary: j)
  case 0
  then show ?case by (simp add: run_length.simps [of p a a 0] run_length.simps [of p a a j 0])
next
  case (Suc i)
  then show ?case
    by (simp add: run_length.simps [of p a a "Suc i" j] run_length.simps [of p a a j "Suc i"])
qed

lemma run_length_diag: "run_length p a a i j \<le> run_length p a a i i"
proof (induction i arbitrary: j)
  case 0
  then show ?case by (simp add: run_length.simps [of p a a 0])
next
  case (Suc i)
  then show ?case by (simp add: run_length.simps [of p a a "Suc i"])
qed

text \<open>The first longest run of a list with itself is on the diagonal.\<close>

definition on_diagonal :: "('a \<Rightarrow> bool) \<Rightarrow> 'a list \<Rightarrow> nat \<Rightarrow> nat \<times> nat \<times> nat \<Rightarrow> bool" where
  "on_diagonal p a n best = (case best of (x, y, k) \<Rightarrow> x = y \<and> (\<forall>m<n. run_length p a a m m \<le> k))"

lemma diagonal_row:
  assumes "on_diagonal p a i best"
  shows "on_diagonal p a (if i < n then Suc i else i) (foldl (longer_run p a a) best (map (Pair i) [0..<n]))"
proof (induction n)
  case (Suc n)
  let ?r = "foldl (longer_run p a a) best (map (Pair i) [0..<n])"
  obtain x y k where r: "?r = (x, y, k)" using prod_cases3 by blast
  have small: "run_length p a a i n \<le> k" if "n \<noteq> i"
    using Suc that run_length_diag [of p a i n] run_length_diag [of p a n i] run_length_sym [of p a i n]
    by (fastforce simp: on_diagonal_def r split: if_splits dest: spec [of _ n] spec [of _ i])
  have st: "foldl (longer_run p a a) best (map (Pair i) [0..<Suc n]) = longer_run p a a (x, y, k) (i, n)"
    using r by simp
  show ?case
  proof (cases "n = i")
    case True
    with Suc show ?thesis
      unfolding st r by (auto simp: longer_run_def on_diagonal_def Let_def less_Suc_eq split: if_splits)
  next
    case False
    then have "longer_run p a a (x, y, k) (i, n) = (x, y, k)" using small by (simp add: longer_run_def Let_def)
    with False Suc show ?thesis unfolding st r by (auto split: if_splits)
  qed
qed (use assms in simp)

lemma diagonal_rows:
  "m \<le> n \<Longrightarrow> on_diagonal p a m (foldl (longer_run p a a) (0, 0, 0) (List.product [0..<m] [0..<n]))"
proof (induction m)
  case (Suc m)
  then show ?case
    using diagonal_row [of p a m "foldl (longer_run p a a) (0, 0, 0) (List.product [0..<m] [0..<n])" n]
    by (simp add: product_concat_map)
qed (simp add: on_diagonal_def)

lemma common_prefix_self: "common_prefix xs xs = length xs"
  by (induction xs) auto

lemma longest_self: "find_longest_match p a a = (0, 0, length a)"
proof -
  let ?m = "foldl (longer_run p a a) (0, 0, 0) (List.product [0..<length a] [0..<length a])"
  have d: "on_diagonal p a (length a) ?m" by (rule diagonal_rows) simp
  have "is_match a a ?m" by (rule best_is_match) (auto simp: is_match_def)
  with d show ?thesis
    by (auto simp: find_longest_match_def extend_match_def on_diagonal_def is_match_def common_prefix_self
        split: prod.splits)
qed

lemma matching_self:
  "get_matching_blocks a a = (if a = [] then [] else [(0, 0, length a)]) @ [(length a, length a, 0)]"
  by (simp add: get_matching_blocks_def match_blocks.simps longest_self)

lemma grouped_self: "get_grouped_opcodes 3 a a = []"
proof (cases "a = []")
  case True
  then show ?thesis
    by (simp add: get_grouped_opcodes_def get_opcodes_def matching_self trim_ends_def group_shown_def)
next
  case False
  then show ?thesis
    by (simp add: get_grouped_opcodes_def get_opcodes_def matching_self trim_ends_def trim_first_def
        trim_last_def group_shown_def)
qed

lemma unified_diff_self: "unified_diff a a f g = []"
  by (simp add: unified_diff_def grouped_self)


text \<open>
  C25: With \<open>--ignore-number-colon\<close> the difference of two listings is empty exactly when they
  are equal up to the numbers at the beginning of their lines. It always belongs to a script
  that turns the first listing, without its numbers, into the second: the \<open>-\<close> lines below the
  two header lines are the lines the script removes and the \<open>+\<close> lines those it adds, in order,
  and the rest of both listings is the same.
\<close>

theorem numberless_diff_script:
  "let a = numberless_lines (snd file1); b = numberless_lines (snd file2);
     d = diff_ignore_number_colon file1 file2
   in (d = [] \<longleftrightarrow> a = b) \<and> (\<exists>script.
     concat (map old_side script) = a \<and> concat (map new_side script) = b \<and>
     filter is_removed (drop 2 d) = map (\<lambda>l. ''-'' @ l) (concat (map removed_part script)) \<and>
     filter is_added (drop 2 d) = map (\<lambda>l. ''+'' @ l) (concat (map added_part script)))"
proof -
  let ?a = "numberless_lines (snd file1)" and ?b = "numberless_lines (snd file2)"
    and ?d = "diff_ignore_number_colon file1 file2"
  let ?script = "map (piece_of ?a ?b) (get_opcodes ?a ?b)"
  have d: "?d = unified_diff ?a ?b (fst file1) (fst file2)"
    by (simp add: diff_ignore_number_colon_def)
  have s: "concat (map old_side ?script) = ?a" "concat (map new_side ?script) = ?b"
    using pieces_cover [OF get_opcodes_cover [of ?a ?b]] by simp_all
  have r: "filter is_removed (drop 2 ?d) = map (\<lambda>l. ''-'' @ l) (concat (map removed_part ?script))"
    "filter is_added (drop 2 ?d) = map (\<lambda>l. ''+'' @ l) (concat (map added_part ?script))"
    unfolding d by (rule removed_lines)+
  have "?a = ?b" if "?d = []"
    using nothing_changed [of ?script] r that s by simp
  moreover have "?d = []" if "?a = ?b" using unified_diff_self [of ?a] d that by simp
  ultimately show ?thesis using s r unfolding Let_def by blast
qed

section \<open>Numbers are decimal\<close>

text \<open>Of the addresses of a listing only those without letters are left out.\<close>

lemma hexadecimal_address_kept:
  "map strip_leading_number_colon [''  48: 90  nop'', ''  4a: 90  nop''] = [''90  nop'', ''  4a: 90  nop'']"
  by code_simp

end
