(* ===== verification/Image_Build.thy ===== *)
theory Image_Build
  imports Image_Report Image_Difflib
begin

text \<open>
  \<open>main\<close> of \<open>src/src/diff.py\<close>: compile the target, change one line of its source with sed,
  compile again, compare the disassemblies, restore the source, report. The source files
  and the files in the build directory are maps from names to contents; \<open>make\<close>, \<open>objdump\<close>,
  \<open>sed\<close>, \<open>diff\<close>, \<open>grep\<close> and \<open>addr2line\<close> are parameters. What is printed before step 10 is left
  out.
\<close>

section \<open>The world of a run\<close>

type_synonym tree = "(string, string) dict"

record image_state =
  im_tree :: tree
  im_build :: "(string, string) dict"

record tools =
  tl_which :: "string \<Rightarrow> bool"
  tl_make :: "tree \<Rightarrow> string \<Rightarrow> string option"
  tl_vmlinux :: "tree \<Rightarrow> string option"
  tl_objdump :: "string \<Rightarrow> string option"
  tl_objdump_function :: "string \<Rightarrow> string \<Rightarrow> string option"
  tl_sed :: "string \<Rightarrow> string \<Rightarrow> string option"
  tl_diff :: "string \<Rightarrow> string \<Rightarrow> string"
  tl_grep :: "tree \<Rightarrow> string \<Rightarrow> string option"
  tl_addr2line :: "string \<Rightarrow> string \<Rightarrow> string"

datatype stop =
    Runtime_Error
  | Sys_Exit int
  | Raised py_error

type_synonym 'a act = "image_state \<Rightarrow> (stop + 'a) \<times> image_state"

definition done_with :: "'a \<Rightarrow> 'a act" where
  "done_with x st = (Inr x, st)"

definition stop_with :: "stop \<Rightarrow> 'a act" where
  "stop_with e st = (Inl e, st)"

definition and_then :: "'a act \<Rightarrow> ('a \<Rightarrow> 'b act) \<Rightarrow> 'b act" where
  "and_then m f st = (case m st of (Inl e, st') \<Rightarrow> (Inl e, st') | (Inr x, st') \<Rightarrow> f x st')"

fun each_of :: "('a \<Rightarrow> 'b act) \<Rightarrow> 'a list \<Rightarrow> 'b list act" where
  "each_of f [] = done_with []"
| "each_of f (x # xs) = and_then (f x) (\<lambda>y. and_then (each_of f xs) (\<lambda>ys. done_with (y # ys)))"

definition or_error :: "stop \<Rightarrow> 'a option \<Rightarrow> 'a act" where
  "or_error e x = (case x of None \<Rightarrow> stop_with e | Some y \<Rightarrow> done_with y)"

definition build_file :: "image_state \<Rightarrow> string \<Rightarrow> string" where
  "build_file st name = dget (im_build st) name []"

definition write_build :: "string \<Rightarrow> string \<Rightarrow> unit act" where
  "write_build name content st = (Inr (), st\<lparr>im_build := dput name content (im_build st)\<rparr>)"

definition source_text :: "image_state \<Rightarrow> string \<Rightarrow> string" where
  "source_text st file = dget (im_tree st) file []"

definition write_source :: "string \<Rightarrow> string \<Rightarrow> unit act" where
  "write_source name content st = (Inr (), st\<lparr>im_tree := dput name content (im_tree st)\<rparr>)"

definition get_state :: "image_state act" where
  "get_state st = (Inr st, st)"

section \<open>Compiling and disassembling\<close>

text \<open>Names are relative to the kernel source; they also name the files of the build directory.\<close>

definition get_file_hash :: "string \<Rightarrow> string" where
  "get_file_hash file_path = py_replace ''.'' ''_'' (py_replace ''/'' ''_'' file_path)"

definition side :: "bool \<Rightarrow> string" where
  "side is_original = (if is_original then ''original'' else ''recompiled'')"

definition disas_name :: "bool \<Rightarrow> string \<Rightarrow> string" where
  "disas_name is_original file_path = get_file_hash file_path @ ''_'' @ side is_original @ ''.disas.txt''"

definition orig_obj_name :: "bool \<Rightarrow> string \<Rightarrow> string" where
  "orig_obj_name is_original file_path = get_file_hash file_path @ ''_'' @ side is_original @ ''.orig.o''"

definition process_file :: "tools \<Rightarrow> bool \<Rightarrow> string \<Rightarrow> (string \<times> string) act" where
  "process_file t is_original file_path =
     and_then get_state (\<lambda>st.
     and_then (or_error Runtime_Error (tl_make t (im_tree st) file_path)) (\<lambda>obj.
     and_then (write_build (orig_obj_name is_original file_path) obj) (\<lambda>_.
     and_then (write_build (get_file_hash file_path @ ''.o'') obj) (\<lambda>_.
     and_then (or_error Runtime_Error (tl_objdump t obj)) (\<lambda>disassembly.
     and_then (write_build (disas_name is_original file_path) disassembly) (\<lambda>_.
     done_with (disas_name is_original file_path, orig_obj_name is_original file_path)))))))"

definition build_vmlinux :: "tools \<Rightarrow> bool \<Rightarrow> string act" where
  "build_vmlinux t is_original =
     and_then get_state (\<lambda>st.
     and_then (or_error Runtime_Error (tl_vmlinux t (im_tree st))) (\<lambda>image.
     and_then (write_build (''vmlinux_'' @ side is_original) image) (\<lambda>_. done_with (''vmlinux_'' @ side is_original))))"

definition disassemble_function_from_vmlinux :: "tools \<Rightarrow> string \<Rightarrow> bool \<Rightarrow> string \<Rightarrow> string act" where
  "disassemble_function_from_vmlinux t vmlinux is_original func_name =
     (let name = ''vmlinux_'' @ func_name @ ''_'' @ side is_original @ ''.disas.txt'' in
      and_then get_state (\<lambda>st.
      and_then (or_error Runtime_Error (tl_objdump_function t func_name (build_file st vmlinux))) (\<lambda>disassembly.
      and_then (write_build name disassembly) (\<lambda>_. done_with name))))"

text \<open>The files grep names, once each_of, in the order of their paths.\<close>

definition macro_file :: "string \<Rightarrow> string option" where
  "macro_file line = (let path = hd (split_on (CHR '':'') line)
     in if ends_with ''.c'' path \<or> ends_with ''.h'' path then Some path else None)"

definition search_macro_usage :: "tools \<Rightarrow> string \<Rightarrow> string list act" where
  "search_macro_usage t macro_name = and_then get_state (\<lambda>st. done_with (case tl_grep t (im_tree st) macro_name of
     None \<Rightarrow> []
   | Some out \<Rightarrow> sort_key (split_on (CHR ''/'')) (remdups (List.map_filter macro_file (splitlines out)))))"

section \<open>Changing the source and restoring it\<close>

text \<open>\<open>re.escape\<close>\<close>

definition escaped_char :: "char \<Rightarrow> bool" where
  "escaped_char c \<longleftrightarrow> c \<in> set ''()[]{}?*+-|^$.&~# '' \<or> c \<in> {CHR 0x5C, TAB, NL, CHR 0x0D, CHR 0x0B, CHR 0x0C}"

definition regex_escape :: "string \<Rightarrow> string" where
  "regex_escape s = concat (map (\<lambda>c. if escaped_char c then [CHR 0x5C, c] else [c]) s)"

text \<open>\<open>^#define\s+(\w+)\s+(.+)$\<close>\<close>

definition rx_define :: rx where
  "rx_define = seqs [Bol, lit ''#define'', Many 1 is_space, Grp 1 (Many 1 is_word), Many 1 is_space,
     Grp 2 (Many 1 dot), Eol]"

definition spaces_pattern :: string where
  "spaces_pattern = [CHR 0x5C] @ ''s+''"

definition macro_to_pattern :: "string \<Rightarrow> string" where
  "macro_to_pattern line = (case re_match rx_define line of
     Some (g, _) \<Rightarrow> py_replace spaces_pattern (''[ '' @ [CHR 0x5C] @ ''t]+'')
       (''#define'' @ spaces_pattern @ regex_escape (group g 1) @ spaces_pattern @ regex_escape (py_strip (group g 2)))
   | None \<Rightarrow> regex_escape line)"

definition run_sed :: "tools \<Rightarrow> string \<Rightarrow> string \<Rightarrow> bool act" where
  "run_sed t expr file_path = and_then get_state (\<lambda>st. case tl_sed t expr (source_text st file_path) of
     None \<Rightarrow> done_with False
   | Some content \<Rightarrow> and_then (write_source file_path content) (\<lambda>_. done_with True))"

definition modify_file_with_sed :: "tools \<Rightarrow> string \<Rightarrow> string \<Rightarrow> string \<Rightarrow> (string \<times> string \<times> string) act" where
  "modify_file_with_sed t source_file from_code to_code =
     (let to_s = py_strip to_code; from_s = py_strip from_code in
      and_then (run_sed t (''s|'' @ macro_to_pattern from_code @ ''|'' @ to_s @ ''|g'') source_file) (\<lambda>ok.
        if ok then done_with (''s|'' @ to_s @ ''|'' @ from_s @ ''|g'', to_s, from_s)
        else stop_with Runtime_Error))"

definition restore_file_from_backup :: "tools \<Rightarrow> string \<Rightarrow> string \<Rightarrow> string \<times> string \<times> string \<Rightarrow> unit act" where
  "restore_file_from_backup t source_file backup_file = (\<lambda>(sed_expr, to_s, from_s).
     and_then get_state (\<lambda>st. case map_of (im_build st) backup_file of
       Some content \<Rightarrow>
         and_then (write_source source_file content) (\<lambda>_ st.
           (Inr (), st\<lparr>im_build := filter (\<lambda>(k, v). k \<noteq> backup_file) (im_build st)\<rparr>))
     | None \<Rightarrow>
         and_then (run_sed t sed_expr source_file) (\<lambda>ok.
           if ok then done_with ()
           else if CHR ''|'' \<in> set to_s \<or> CHR ''|'' \<in> set from_s
             then and_then (run_sed t (''s#'' @ to_s @ ''#'' @ from_s @ ''#g'') source_file) (\<lambda>ok.
               if ok then done_with () else stop_with Runtime_Error)
           else stop_with Runtime_Error)))"

section \<open>Comparing the sides\<close>

text \<open>\<open>diff -U0\<close> and the filter; \<open>None\<close> stands for \<open>diff_result = None\<close>.\<close>

definition filtered_diff :: "tools \<Rightarrow> string \<Rightarrow> string \<Rightarrow> string list option" where
  "filtered_diff t original recompiled =
     (let out = tl_diff t original recompiled; kept = filter_address_offset_diff (splitlines out)
      in if out = [] \<or> kept = [] then None else Some kept)"

text \<open>The same for the difference without line numbers, which names the two files.\<close>

definition filtered_numberless :: "string \<times> string \<Rightarrow> string \<times> string \<Rightarrow> string list option" where
  "filtered_numberless original recompiled =
     (let diff = diff_ignore_number_colon original recompiled; kept = filter_address_offset_diff diff
      in if diff = [] \<or> kept = [] then None else Some kept)"

definition compare_pair :: "tools \<Rightarrow> image_state \<Rightarrow> (bool \<times> string) \<Rightarrow> string \<Rightarrow> string \<Rightarrow> string list option" where
  "compare_pair t st = (\<lambda>(ignore_number_colon, build_path) original recompiled.
     if ignore_number_colon
     then filtered_numberless (build_path @ ''/'' @ original, build_file st original)
       (build_path @ ''/'' @ recompiled, build_file st recompiled)
     else filtered_diff t (build_file st original) (build_file st recompiled))"

text \<open>The loop over the files that were disassembled twice; the last result stays.\<close>

fun compare_files :: "(string \<Rightarrow> string \<Rightarrow> string list option) \<Rightarrow> (string, string) dict \<Rightarrow> (string, string) dict \<Rightarrow>
    string list option \<Rightarrow> string list option" where
  "compare_files compare [] recompiled_disas diff_result = diff_result"
| "compare_files compare ((src, name) # original_disas) recompiled_disas diff_result =
     compare_files compare original_disas recompiled_disas
       (case map_of recompiled_disas src of
          None \<Rightarrow> diff_result
        | Some name' \<Rightarrow> compare name name')"

section \<open>The main function\<close>

record options =
  op_file :: string
  op_sed :: "(string \<times> string) option"
  op_macro :: "string option"
  op_lines :: "string option"
  op_reverse :: bool
  op_func :: "string list"
  op_ignore_number_colon :: bool
  op_build_path :: string

definition base_name :: "string \<Rightarrow> string" where
  "base_name path = last (split_on (CHR ''/'') path)"

definition compile_others :: "tools \<Rightarrow> bool \<Rightarrow> string list \<Rightarrow> (string, string) dict \<Rightarrow> (string, string) dict act" where
  "compile_others t is_original files disas =
     and_then (each_of (process_file t is_original) files) (\<lambda>names.
       done_with (fold (\<lambda>(src, name, _). dput src name) (zip files names) disas))"

definition back_up :: "string \<Rightarrow> string \<Rightarrow> unit act" where
  "back_up source_file backup_file = and_then get_state (\<lambda>st. write_build backup_file (source_text st source_file))"

text \<open>Steps 5 to 9: the change, the second compilation, the comparison, the restoring.\<close>

definition change_and_compare :: "tools \<Rightarrow> options \<Rightarrow> bool \<Rightarrow> string \<times> string \<Rightarrow> string list \<Rightarrow> (string, string) dict \<Rightarrow>
    (string list option \<times> string) act" where
  "change_and_compare t op numberless codes macro_files original_disas =
     (let source_file = op_file op; backup_file = base_name source_file @ ''.backup'' in
      and_then (back_up source_file backup_file) (\<lambda>_.
      and_then (modify_file_with_sed t source_file (fst codes) (snd codes)) (\<lambda>restore.
      and_then (process_file t False source_file) (\<lambda>(recomp_disas, recomp_obj).
      and_then (compile_others t False macro_files [(source_file, recomp_disas)]) (\<lambda>recompiled_disas.
      and_then get_state (\<lambda>st.
      let diff_result = compare_files (compare_pair t st (numberless, op_build_path op)) original_disas recompiled_disas None in
      and_then (restore_file_from_backup t source_file backup_file restore) (\<lambda>_.
        done_with (diff_result, recomp_obj))))))))"

definition args_of :: "tools \<Rightarrow> options \<Rightarrow> image_state \<Rightarrow> string \<Rightarrow> string \<Rightarrow> report_args" where
  "args_of t op st orig_obj recomp_obj =
     \<lparr>ra_lines = (case op_lines op of None \<Rightarrow> [] | Some l \<Rightarrow> if l = [] then [] else parse_lines_argument l),
      ra_reverse = op_reverse op,
      ra_addr2line = (\<lambda>recompiled. tl_addr2line t (build_file st (if recompiled then recomp_obj else orig_obj)))\<rparr>"

definition object_mode :: "tools \<Rightarrow> options \<Rightarrow> string act" where
  "object_mode t op =
     and_then (process_file t True (op_file op)) (\<lambda>(orig_disas, orig_obj).
     and_then (case op_macro op of None \<Rightarrow> done_with [] | Some m \<Rightarrow> if m = [] then done_with [] else search_macro_usage t m) (\<lambda>macro_files.
     and_then (compile_others t True (filter (\<lambda>f. f \<noteq> op_file op) macro_files) [(op_file op, orig_disas)]) (\<lambda>original_disas.
     case op_sed op of
       None \<Rightarrow> done_with []
     | Some codes \<Rightarrow>
         and_then (change_and_compare t op (op_ignore_number_colon op) codes macro_files original_disas) (\<lambda>(diff_result, recomp_obj).
         and_then get_state (\<lambda>st.
         case diff_result of
           None \<Rightarrow> done_with []
         | Some filtered \<Rightarrow>
             (case report (args_of t op st orig_obj recomp_obj) filtered (build_file st orig_disas)
                 (build_file st (disas_name False (op_file op))) of
                Inl e \<Rightarrow> stop_with (Raised e)
              | Inr out \<Rightarrow> done_with out))))))"

subsection \<open>Whole kernel images\<close>

definition detect_functions :: "tools \<Rightarrow> options \<Rightarrow> string \<times> string \<Rightarrow> string list act" where
  "detect_functions t op codes =
     and_then (process_file t True (op_file op)) (\<lambda>(orig_disas, _).
     and_then (change_and_compare t op False codes [] [(op_file op, orig_disas)]) (\<lambda>(diff_result, _).
     and_then get_state (\<lambda>st. done_with (case diff_result of
       None \<Rightarrow> []
     | Some filtered \<Rightarrow> detect_affected_functions_from_diff (splitlines (join [NL] filtered)) (build_file st orig_disas)))))"

text \<open>The printed lines about one function; \<open>int\<close> does not accept the text of a negative offset.\<close>

definition attach_lines :: "string \<Rightarrow> string \<Rightarrow> string \<times> string \<times> bool \<Rightarrow> string list res" where
  "attach_lines original func = (\<lambda>(offset, line, is_original).
     if \<not> is_original then Inr []
     else (case py_int 16 offset of
         None \<Rightarrow> Inl ValueError
       | Some changed_offset \<Rightarrow>
           Inr (case find_next_instruction_offset original func changed_offset of
               None \<Rightarrow> []
             | Some kprobe_offset \<Rightarrow>
                 [''  Changed instruction at offset: '' @ offset,
                  ''  Kprobe attach point (next instr): '' @ hex0x kprobe_offset,
                  ''  SEC('' @ [CHR 0x22] @ ''kprobe/'' @ func @ ''+'' @ hex0x kprobe_offset @ [CHR 0x22] @ '')''])))"

fun all_res :: "'a res list \<Rightarrow> 'a list res" where
  "all_res [] = Inr []"
| "all_res (r # rs) = bindr r (\<lambda>x. bindr (all_res rs) (\<lambda>xs. Inr (x # xs)))"

definition function_lines :: "tools \<Rightarrow> string \<Rightarrow> string \<Rightarrow> string \<Rightarrow> string list res" where
  "function_lines t func original recompiled =
     (case filtered_diff t original recompiled of
        None \<Rightarrow> Inr []
      | Some filtered \<Rightarrow>
          (let changed = parse_vmlinux_diff_with_offsets filtered original func in
           bindr (all_res (map (attach_lines original func) changed)) (\<lambda>attach.
             Inr (filtered
               @ map (\<lambda>(offset, line, is_original). ''  ['' @ (if is_original then ''Original'' else ''Modified'')
                   @ ''] offset '' @ offset @ '': '' @ line) changed
               @ concat attach))))"

definition vmlinux_mode :: "tools \<Rightarrow> options \<Rightarrow> string list act" where
  "vmlinux_mode t op = (case op_sed op of
     None \<Rightarrow> stop_with (Sys_Exit 1)
   | Some codes \<Rightarrow>
       (let source_file = op_file op; backup_file = base_name source_file @ ''.backup.vmlinux'' in
        and_then (if op_func op = [] then detect_functions t op codes else done_with (remdups (op_func op))) (\<lambda>functions.
        if functions = [] then stop_with (Sys_Exit 0)
        else
          and_then (build_vmlinux t True) (\<lambda>original.
          and_then (each_of (disassemble_function_from_vmlinux t original True) functions) (\<lambda>original_disas.
          and_then (back_up source_file backup_file) (\<lambda>_.
          and_then (modify_file_with_sed t source_file (fst codes) (snd codes)) (\<lambda>restore.
          and_then (build_vmlinux t False) (\<lambda>recompiled.
          and_then (each_of (disassemble_function_from_vmlinux t recompiled False) functions) (\<lambda>recompiled_disas.
          and_then (restore_file_from_backup t source_file backup_file restore) (\<lambda>_.
          and_then get_state (\<lambda>st.
            case all_res (map (\<lambda>(func, o1, o2). function_lines t func (build_file st o1) (build_file st o2))
                (zip functions (zip original_disas recompiled_disas))) of
              Inl e \<Rightarrow> stop_with (Raised e)
            | Inr ls \<Rightarrow> done_with (concat ls))))))))))))"

text \<open>The exit code and what is printed; an error of the tools ends the run with code 1.\<close>

definition required_tools :: "string list" where
  "required_tools = [''gcc'', ''make'', ''objdump'', ''sed'', ''diff'', ''grep'']"

definition main_diff :: "tools \<Rightarrow> options \<Rightarrow> bool \<Rightarrow> image_state \<Rightarrow> (stop + string) \<times> image_state" where
  "main_diff t op vmlinux st =
     (if \<not> list_all (tl_which t) required_tools \<or> map_of (im_tree st) (op_file op) = None then (Inl (Sys_Exit 1), st)
      else (case (if vmlinux then and_then (vmlinux_mode t op) (\<lambda>ls. done_with (concat (map print_line ls))) st
            else object_mode t op st) of
          (Inl Runtime_Error, st') \<Rightarrow> (Inl (Sys_Exit 1), st')
        | r \<Rightarrow> r))"

section \<open>A run that ends restores the source\<close>

text \<open>What holds after an action that did not stop.\<close>

definition ends_in :: "(image_state \<Rightarrow> bool) \<Rightarrow> 'a act \<Rightarrow> ('a \<Rightarrow> image_state \<Rightarrow> bool) \<Rightarrow> bool" where
  "ends_in P m Q \<longleftrightarrow> (\<forall>st x st'. P st \<longrightarrow> m st = (Inr x, st') \<longrightarrow> Q x st')"

definition retains :: "(image_state \<Rightarrow> bool) \<Rightarrow> 'a act \<Rightarrow> bool" where
  "retains P m \<longleftrightarrow> ends_in P m (\<lambda>_. P)"

lemma ends_stop: "ends_in P (stop_with e) Q"
  by (simp add: ends_in_def stop_with_def)

lemma ends_done: "(\<And>st. P st \<Longrightarrow> Q x st) \<Longrightarrow> ends_in P (done_with x) Q"
  by (simp add: ends_in_def done_with_def)

lemma ends_then: "ends_in P m M \<Longrightarrow> (\<And>x. ends_in (M x) (f x) Q) \<Longrightarrow> ends_in P (and_then m f) Q"
  unfolding ends_in_def and_then_def by (fastforce split: prod.splits sum.splits)

lemma ends_kept: "retains P m \<Longrightarrow> (\<And>x. ends_in P (f x) Q) \<Longrightarrow> ends_in P (and_then m f) Q"
  unfolding retains_def by (rule ends_then)

lemma retains_done: "retains P (done_with x)"
  by (simp add: retains_def ends_in_def done_with_def)

lemma retains_stop: "retains P (stop_with e)"
  by (simp add: retains_def ends_stop)

lemma retains_get: "retains P get_state"
  by (simp add: retains_def ends_in_def get_state_def)

lemma retains_then: "retains P m \<Longrightarrow> (\<And>x. retains P (f x)) \<Longrightarrow> retains P (and_then m f)"
  unfolding retains_def by (rule ends_then)

lemma retains_or_error: "retains P (or_error e x)"
  by (simp add: or_error_def retains_done retains_stop split: option.splits)

lemma retains_each: "(\<And>x. retains P (f x)) \<Longrightarrow> retains P (each_of f xs)"
  by (induction xs) (simp_all add: retains_done retains_then)

lemmas retains_rules = retains_done retains_stop retains_get retains_then retains_or_error retains_each

text \<open>The sources, and the backup while there is one.\<close>

definition sources :: "tree \<Rightarrow> image_state \<Rightarrow> bool" where
  "sources T st \<longleftrightarrow> im_tree st = T"

definition backed_up :: "tree \<Rightarrow> string \<Rightarrow> string \<Rightarrow> image_state \<Rightarrow> bool" where
  "backed_up T backup_file content st \<longleftrightarrow> im_tree st = T \<and> map_of (im_build st) backup_file = Some content"

lemma write_sources: "retains (sources T) (write_build name content)"
  by (simp add: retains_def ends_in_def write_build_def sources_def)

lemma write_backed: "name \<noteq> b \<Longrightarrow> retains (backed_up T b c) (write_build name content)"
  by (simp add: retains_def ends_in_def write_build_def backed_up_def)

lemma process_sources: "retains (sources T) (process_file t o1 f)"
  unfolding process_file_def by (intro retains_rules write_sources)

definition backup_name :: "string \<Rightarrow> bool" where
  "backup_name b \<longleftrightarrow> ends_with ''.backup'' b \<or> ends_with ''.backup.vmlinux'' b"

lemma not_backup: "backup_name b \<Longrightarrow> last u \<notin> {CHR ''p'', CHR ''x''} \<Longrightarrow> u \<noteq> [] \<Longrightarrow> u \<noteq> b"
  by (auto simp: backup_name_def ends_with_iff)

lemma build_names:
  "backup_name b \<Longrightarrow> orig_obj_name o1 f \<noteq> b" "backup_name b \<Longrightarrow> h @ ''.o'' \<noteq> b"
  "backup_name b \<Longrightarrow> disas_name o1 f \<noteq> b" "backup_name b \<Longrightarrow> u @ ''.disas.txt'' \<noteq> b"
  "backup_name b \<Longrightarrow> ''vmlinux_'' @ side o1 \<noteq> b"
  by (rule not_backup; simp add: orig_obj_name_def disas_name_def side_def)+

lemma process_backed: "backup_name b \<Longrightarrow> retains (backed_up T b c) (process_file t o1 f)"
  unfolding process_file_def by (intro retains_rules write_backed build_names)

lemma others_sources: "retains (sources T) (compile_others t o1 fs d)"
  unfolding compile_others_def by (intro retains_rules process_sources)

lemma others_backed: "backup_name b \<Longrightarrow> retains (backed_up T b c) (compile_others t o1 fs d)"
  unfolding compile_others_def by (intro retains_rules process_backed)

lemma search_sources: "retains (sources T) (search_macro_usage t m)"
  unfolding search_macro_usage_def by (intro retains_rules)

lemma vmlinux_sources: "retains (sources T) (build_vmlinux t o1)"
  unfolding build_vmlinux_def by (intro retains_rules write_sources)

lemma vmlinux_backed: "backup_name b \<Longrightarrow> retains (backed_up T b c) (build_vmlinux t o1)"
  unfolding build_vmlinux_def by (intro retains_rules write_backed build_names)

lemma function_sources: "retains (sources T) (disassemble_function_from_vmlinux t v o1 f)"
  unfolding disassemble_function_from_vmlinux_def Let_def by (intro retains_rules write_sources)

lemma function_backed: "backup_name b \<Longrightarrow> retains (backed_up T b c) (disassemble_function_from_vmlinux t v o1 f)"
  unfolding disassemble_function_from_vmlinux_def Let_def
  using build_names(4) [of b "''vmlinux_'' @ f @ ''_'' @ side o1"] by (intro retains_rules write_backed) simp

text \<open>Backup, change, restore.\<close>

lemma back_up_ends: "ends_in (sources T) (back_up f b) (\<lambda>_. backed_up T b (dget T f []))"
  by (simp add: ends_in_def back_up_def and_then_def get_state_def write_build_def sources_def backed_up_def source_text_def)

definition changed_sources :: "tree \<Rightarrow> string \<Rightarrow> string \<Rightarrow> string \<Rightarrow> image_state \<Rightarrow> bool" where
  "changed_sources T f b c st \<longleftrightarrow> (\<exists>x. backed_up (dput f x T) b c st)"

lemma modify_ends: "ends_in (backed_up T b c) (modify_file_with_sed t f u v) (\<lambda>_. changed_sources T f b c)"
  by (auto simp: ends_in_def modify_file_with_sed_def run_sed_def and_then_def get_state_def write_source_def
      done_with_def stop_with_def backed_up_def changed_sources_def Let_def split: option.splits if_splits)

lemma retains_changed: "(\<And>T. retains (backed_up T b c) m) \<Longrightarrow> retains (changed_sources T f b c) m"
  unfolding retains_def ends_in_def changed_sources_def by blast

lemma dput_same: "map_of T f = Some c \<Longrightarrow> dput f c T = T"
  by (induction T) auto

lemma restore_ends: "map_of T f = Some c \<Longrightarrow>
    ends_in (changed_sources T f b c) (restore_file_from_backup t f b r) (\<lambda>_ st. sources T st \<and> map_of (im_build st) b = None)"
  by (auto simp: ends_in_def restore_file_from_backup_def and_then_def get_state_def write_source_def
      changed_sources_def backed_up_def sources_def dput_same map_of_eq_None_iff split: prod.splits)

definition restored :: "tree \<Rightarrow> string \<Rightarrow> image_state \<Rightarrow> bool" where
  "restored T b st \<longleftrightarrow> im_tree st = T \<and> map_of (im_build st) b = None"

lemma change_ends:
  assumes "map_of T (op_file op) \<noteq> None"
  defines "b \<equiv> base_name (op_file op) @ ''.backup''"
  shows "ends_in (sources T) (change_and_compare t op ig codes fs ds) (\<lambda>_. restored T b)"
proof -
  obtain c where c: "map_of T (op_file op) = Some c" using assms(1) by blast
  have b: "backup_name b" by (auto simp: backup_name_def b_def ends_with_iff)
  have bk: "ends_in (sources T) (back_up (op_file op) b) (\<lambda>_. backed_up T b c)"
    using back_up_ends [of T "op_file op" b] c by (simp add: dget_def)
  show ?thesis
    unfolding change_and_compare_def Let_def b_def [symmetric]
  proof (intro ends_then [OF bk] ends_then [OF modify_ends])
    fix restore
    show "ends_in (changed_sources T (op_file op) b c)
        (and_then (process_file t False (op_file op)) (\<lambda>(recomp_disas, recomp_obj).
         and_then (compile_others t False fs [(op_file op, recomp_disas)]) (\<lambda>recompiled_disas.
         and_then get_state (\<lambda>st.
         and_then (restore_file_from_backup t (op_file op) b restore) (\<lambda>_.
           done_with (compare_files (compare_pair t st (ig, op_build_path op)) ds recompiled_disas None, recomp_obj))))))
        (\<lambda>_. restored T b)"
      by (intro ends_kept retains_changed process_backed [OF b], simp only: split_paired_all prod.case,
          intro ends_kept retains_changed others_backed [OF b] retains_get ends_then [OF restore_ends [OF c]] ends_done)
        (simp add: restored_def sources_def)
  qed
qed

lemma restored_sources: "ends_in P m (\<lambda>_. restored T b) \<Longrightarrow> ends_in P m (\<lambda>_. sources T)"
  by (auto simp: ends_in_def restored_def sources_def)

lemma object_ends:
  assumes "map_of T (op_file op) \<noteq> None"
  shows "ends_in (sources T) (object_mode t op) (\<lambda>_. sources T)"
proof -
  have ch: "retains (sources T) (change_and_compare t op ig codes fs ds)" for ig codes fs ds
    unfolding retains_def by (rule restored_sources [OF change_ends [OF assms]])
  have "retains (sources T) (object_mode t op)"
    unfolding object_mode_def
    by (intro retains_then process_sources, simp only: split_paired_all prod.case)
      (intro retains_then others_sources; auto split: option.splits sum.splits
        intro!: retains_then ch retains_rules search_sources)
  then show ?thesis by (simp add: retains_def)
qed

lemma detect_sources:
  assumes "map_of T (op_file op) \<noteq> None"
  shows "retains (sources T) (detect_functions t op codes)"
proof -
  have ch: "retains (sources T) (change_and_compare t op ig codes fs ds)" for ig codes fs ds
    unfolding retains_def by (rule restored_sources [OF change_ends [OF assms]])
  show ?thesis
    unfolding detect_functions_def
    by (intro retains_then process_sources, simp only: split_paired_all prod.case)
      (intro retains_then ch, auto intro!: retains_rules)
qed

lemma vmlinux_ends:
  assumes "map_of T (op_file op) \<noteq> None"
  shows "ends_in (sources T) (vmlinux_mode t op) (\<lambda>_. sources T)"
proof (cases "op_sed op")
  case None
  then show ?thesis by (simp add: vmlinux_mode_def ends_stop)
next
  case (Some codes)
  let ?f = "op_file op" and ?b = "base_name (op_file op) @ ''.backup.vmlinux''"
  obtain c where c: "map_of T ?f = Some c" using assms by blast
  have b: "backup_name ?b" by (auto simp: backup_name_def ends_with_iff)
  have bk: "ends_in (sources T) (back_up ?f ?b) (\<lambda>_. backed_up T ?b c)"
    using back_up_ends [of T ?f ?b] c by (simp add: dget_def)
  have fs: "retains (sources T) (if op_func op = [] then detect_functions t op codes else done_with (remdups (op_func op)))"
    using detect_sources [OF assms] retains_done by auto
  have changed: "ends_in (changed_sources T ?f ?b c) (and_then (build_vmlinux t False) (\<lambda>recompiled.
      and_then (each_of (disassemble_function_from_vmlinux t recompiled False) funcs) (\<lambda>recompiled_disas.
      and_then (restore_file_from_backup t ?f ?b restore) (\<lambda>_. and_then get_state (\<lambda>st.
        case all_res (map (\<lambda>(func, o1, o2). function_lines t func (build_file st o1) (build_file st o2))
            (zip funcs (zip original_disas recompiled_disas))) of
          Inl e \<Rightarrow> stop_with (Raised e) | Inr ls \<Rightarrow> done_with (concat ls)))))) (\<lambda>_. sources T)"
    for funcs original_disas restore
    by (intro ends_kept retains_changed vmlinux_backed [OF b] retains_each function_backed [OF b]
        ends_then [OF restore_ends [OF c]] retains_get)
      (auto split: sum.splits intro: ends_stop ends_done)
  show ?thesis
    unfolding vmlinux_mode_def Some option.case Let_def
    by (intro ends_kept fs, split if_split, intro conjI impI ends_stop ends_kept vmlinux_sources retains_each
        function_sources ends_then [OF bk] ends_then [OF modify_ends] changed)
qed

lemma main_sources:
  assumes "main_diff t op vmlinux st = (Inr out, st')"
  shows "im_tree st' = im_tree st"
proof -
  from assms have f: "map_of (im_tree st) (op_file op) \<noteq> None"
    by (auto simp: main_diff_def split: if_splits)
  have k: "retains (sources (im_tree st)) (if vmlinux then and_then (vmlinux_mode t op) (\<lambda>ls. done_with (concat (map print_line ls)))
      else object_mode t op)"
    using object_ends [OF f, of t] vmlinux_ends [OF f, of t]
    by (auto intro!: retains_then retains_done simp flip: retains_def)
  obtain r st2 where m: "(if vmlinux then and_then (vmlinux_mode t op) (\<lambda>ls. done_with (concat (map print_line ls)))
      else object_mode t op) st = (r, st2)" by fastforce
  then have "(case r of Inl Runtime_Error \<Rightarrow> (Inl (Sys_Exit 1), st2) | _ \<Rightarrow> (r, st2)) = (Inr out, st')"
    using assms f by (cases vmlinux; simp add: main_diff_def split: if_splits sum.splits stop.splits)
  then have "r = Inr out" "st2 = st'" by (auto split: sum.splits stop.splits)
  with k m show ?thesis unfolding retains_def ends_in_def sources_def by blast
qed

text \<open>
  C8: A run of \<open>diff.py\<close> that ends normally, on an object file or on whole kernel images,
  leaves every source file as it found it, whatever the compiler, sed, objdump and diff do.
\<close>

theorem run_restores_sources:
  assumes "main_diff t op vmlinux st = (Inr out, st')"
  shows "im_tree st' = im_tree st"
  by (rule main_sources [OF assms])

text \<open>Two files of the kernel can share their names in the build directory.\<close>

lemma hash_collision: "get_file_hash ''mm/a_b.c'' = get_file_hash ''mm/a/b.c''"
  by code_simp

section \<open>A run that stops does not restore the source\<close>

lemma failing_recompilation:
  assumes "op_sed op = Some (from_code, to_code)" and "op_macro op = None"
    and "list_all (tl_which t) required_tools" and "map_of (im_tree st) (op_file op) = Some original"
    and "tl_make t (im_tree st) (op_file op) = Some obj" and "tl_objdump t obj = Some listing"
    and "tl_sed t (''s|'' @ macro_to_pattern from_code @ ''|'' @ py_strip to_code @ ''|g'') original = Some modified"
    and "tl_make t (dput (op_file op) modified (im_tree st)) (op_file op) = None"
  shows "\<exists>st'. main_diff t op False st = (Inl (Sys_Exit 1), st') \<and>
    im_tree st' = dput (op_file op) modified (im_tree st) \<and>
    map_of (im_build st') (base_name (op_file op) @ ''.backup'') = Some original"
  using assms
  by (simp add: main_diff_def object_mode_def process_file_def change_and_compare_def back_up_def
      modify_file_with_sed_def run_sed_def compile_others_def and_then_def get_state_def done_with_def stop_with_def
      or_error_def write_build_def write_source_def source_text_def dget_def Let_def)

text \<open>
  C30: When the changed source does not compile, the run ends with code 1 and leaves the source
  changed: the tree holds the modified text, and only the backup in the build directory still
  has the original.
\<close>

theorem failed_recompilation_keeps_change:
  assumes "op_sed op = Some (from_code, to_code)" and "op_macro op = None"
    and "list_all (tl_which t) required_tools" and "map_of (im_tree st) (op_file op) = Some original"
    and "tl_make t (im_tree st) (op_file op) = Some obj" and "tl_objdump t obj = Some listing"
    and "tl_sed t (''s|'' @ macro_to_pattern from_code @ ''|'' @ py_strip to_code @ ''|g'') original = Some modified"
    and "tl_make t (dput (op_file op) modified (im_tree st)) (op_file op) = None"
  shows "\<exists>st'. main_diff t op False st = (Inl (Sys_Exit 1), st') \<and>
    im_tree st' = dput (op_file op) modified (im_tree st) \<and>
    map_of (im_build st') (base_name (op_file op) @ ''.backup'') = Some original"
  by (rule failing_recompilation [OF assms])

definition sample_tools :: tools where
  "sample_tools = \<lparr>tl_which = (\<lambda>_. True),
     tl_make = (\<lambda>tree f. if dget tree f [] = ''int x = 100;'' then Some ''obj'' else None),
     tl_vmlinux = (\<lambda>_. None), tl_objdump = (\<lambda>_. Some ''listing''), tl_objdump_function = (\<lambda>_ _. None),
     tl_sed = (\<lambda>expr s. if expr = ''s|100|two|g'' then Some (py_replace ''100'' ''two'' s) else None),
     tl_diff = (\<lambda>_ _. []), tl_grep = (\<lambda>_ _. None), tl_addr2line = (\<lambda>_ _. [])\<rparr>"

definition sample_options :: options where
  "sample_options = \<lparr>op_file = ''net/tcp.c'', op_sed = Some (''100'', ''two''), op_macro = None, op_lines = None,
     op_reverse = False, op_func = [], op_ignore_number_colon = False, op_build_path = ''build''\<rparr>"

definition sample_state :: image_state where
  "sample_state = \<lparr>im_tree = [(''net/tcp.c'', ''int x = 100;'')], im_build = []\<rparr>"

theorem failed_recompilation_keeps_change_witness:
  "\<exists>st'. main_diff sample_tools sample_options False sample_state = (Inl (Sys_Exit 1), st') \<and>
    im_tree st' = [(''net/tcp.c'', ''int x = two;'')]"
proof -
  have "tl_sed sample_tools (''s|'' @ macro_to_pattern ''100'' @ ''|'' @ py_strip ''two'' @ ''|g'') ''int x = 100;''
      = Some ''int x = two;''" by code_simp
  moreover have "list_all (tl_which sample_tools) required_tools" by code_simp
  moreover have "tl_make sample_tools (im_tree sample_state) ''net/tcp.c'' = Some ''obj''" by code_simp
  moreover have "tl_objdump sample_tools ''obj'' = Some ''listing''" by code_simp
  moreover have "tl_make sample_tools (dput ''net/tcp.c'' ''int x = two;'' (im_tree sample_state)) ''net/tcp.c'' = None"
    by code_simp
  ultimately show ?thesis
    using failed_recompilation_keeps_change [of sample_options "''100''" "''two''" sample_tools sample_state
        "''int x = 100;''" "''obj''" "''listing''" "''int x = two;''"]
    by (auto simp: sample_options_def sample_state_def)
qed

text \<open>A run that ends: the same tools, with a change that compiles to the same code.\<close>

theorem run_restores_sources_witness:
  "\<exists>st'. main_diff (sample_tools\<lparr>tl_make := \<lambda>_ _. Some ''obj''\<rparr>) sample_options False sample_state = (Inr [], st')
     \<and> im_tree st' = im_tree sample_state"
proof -
  let ?r = "main_diff (sample_tools\<lparr>tl_make := \<lambda>_ _. Some ''obj''\<rparr>) sample_options False sample_state"
  have "fst ?r = Inr []" by code_simp
  then have "?r = (Inr [], snd ?r)" by (metis prod.collapse)
  from run_restores_sources [OF this] this show ?thesis by blast
qed

section \<open>The option that leaves out the line numbers\<close>

text \<open>
  The report takes the second word of a changed line for its address. Without the address
  this is the second byte of the instruction, and addr2line is asked for \<open>c7\<close> here.
\<close>

lemma numberless_offset_is_byte:
  "let d = diff_ignore_number_colon (''A'', ''  40: 48 c7 c0 64 00  mov'') (''B'', ''  40: 48 c7 c0 c8 00  mov'');
       args = \<lparr>ra_lines = [], ra_reverse = False, ra_addr2line = (\<lambda>_ _. ''f.c:1'')\<rparr>
   in d = [''--- A'', ''+++ B'', ''@@ -1 +1 @@'', ''-48 c7 c0 64 00  mov'', ''+48 c7 c0 c8 00  mov''] \<and>
      (case changed_from args no_hunk (filter_address_offset_diff d) of
         Inr (_, changed, _) \<Rightarrow> map (\<lambda>(line, offset, n). offset) changed = [''A'', ''c7'']
       | _ \<Rightarrow> False)"
  by code_simp

end
