(* ===== verification/Lifecycle_Wait.thy ===== *)
theory Lifecycle_Wait
  imports Lifecycle
begin

text \<open>
  The waiting loops of \<open>cli.py\<close>: for the kernel's message about a transition, for the
  message about the reverse transition, and for the module of kernel functions to be
  released. They share a contract, the locale \<open>polling\<close>: the loop ends in the round in which
  the kernel answers first, if that is within its number of rounds.
\<close>

section \<open>The contract of a polling loop\<close>

text \<open>
  \<open>seen h es\<close>: the round started after the events \<open>es\<close> is successful; \<open>look h es\<close> are the
  events of such a round, \<open>pause\<close> those of an unsuccessful one with more rounds to come, and
  \<open>answer\<close> is what the loop does at the end.
\<close>

locale polling =
  fixes poll :: "nat \<Rightarrow> 'a io"
    and seen :: "env \<Rightarrow> event list \<Rightarrow> bool"
    and look :: "env \<Rightarrow> event list \<Rightarrow> event list"
    and pause :: "event list"
    and answer :: "'a io"
  assumes hit: "seen h (events w) \<Longrightarrow> poll (Suc n) h w = answer h (w\<lparr>events := events w @ look h (events w)\<rparr>)"
    and miss: "\<not> seen h (events w) \<Longrightarrow> 0 < n \<Longrightarrow> poll (Suc n) h w = poll n h (w\<lparr>events := events w @ pause\<rparr>)"
begin

lemma ends_when_seen:
  assumes "i < n" and "seen h (events w @ concat (replicate i pause))"
    and "\<And>j. j < i \<Longrightarrow> \<not> seen h (events w @ concat (replicate j pause))"
  shows "poll n h w = answer h (w\<lparr>events := events w @ concat (replicate i pause)
    @ look h (events w @ concat (replicate i pause))\<rparr>)"
  using assms
proof (induction i arbitrary: n w)
  case 0
  then obtain m where "n = Suc m" by (cases n) auto
  with 0 show ?case by (simp add: hit)
next
  case (Suc i)
  then obtain m where m: "n = Suc m" "0 < m" "i < m" by (cases n) auto
  let ?w = "w\<lparr>events := events w @ pause\<rparr>"
  have "poll n h w = poll m h ?w"
    using Suc.prems(3) [of 0] m by (simp add: miss)
  also have "\<dots> = answer h (?w\<lparr>events := events ?w @ concat (replicate i pause)
      @ look h (events ?w @ concat (replicate i pause))\<rparr>)"
    using Suc.prems(2) Suc.prems(3) [of "Suc j" for j] m(3) by (intro Suc.IH) auto
  finally show ?case by simp
qed

end

section \<open>The three loops\<close>

definition dmesg :: "string list" where
  "dmesg = [''sudo'', ''dmesg'']"

definition transition_reported :: "nat \<Rightarrow> env \<Rightarrow> event list \<Rightarrow> bool" where
  "transition_reported baseline h es \<longleftrightarrow> (case h_run h (es @ [Slept 100]) dmesg of
     (code, out) \<Rightarrow> code = 0 \<and> transition_seen (drop baseline (splitlines out)))"

interpretation waiting: polling "\<lambda>n. wait_transition n b" "transition_reported b"
  "\<lambda>h es. [Slept 100, Ran dmesg]" "[Slept 100, Ran dmesg]" "ret ()" for b
  by unfold_locales (auto simp: transition_reported_def dmesg_def io_simps split: prod.splits)

definition dmesg_since :: "string list" where
  "dmesg_since = [''dmesg'', ''--since'', ''-30 seconds'']"

definition reverse_reported :: "env \<Rightarrow> event list \<Rightarrow> bool" where
  "reverse_reported h es \<longleftrightarrow> (let out = py_lower (snd (h_run h es dmesg_since))
     in h_late h es \<or> contains ''reverse transition'' out \<or> contains ''module unloaded'' out)"

interpretation reversing: polling poll_reverse reverse_reported
  "\<lambda>h es. if h_late h es then [] else [Ran dmesg_since]" "[Ran dmesg_since, Slept 500]" "ret ()"
  by unfold_locales (auto simp: reverse_reported_def dmesg_since_def io_simps Let_def split: prod.splits)

definition rmmod_kfuncs_command :: "string list" where
  "rmmod_kfuncs_command = [''sudo'', ''rmmod'', ''xk-kfuncs'']"

definition note_kfuncs_unloaded :: "bool io" where
  "note_kfuncs_unloaded = bindio get_runtime_state (\<lambda>state.
     bindio (lift (set_item state ''kfuncs_loaded'' (JBool False))) (\<lambda>state'.
       seqio (save_runtime_state state') (ret True)))"

lemma rmmod_kfuncs_round: "rmmod_kfuncs (Suc n) = bindio (run rmmod_kfuncs_command) (\<lambda>(code, out).
    if code = 0 then note_kfuncs_unloaded else seqio (if 0 < n then sleep 2000 else ret ()) (rmmod_kfuncs n))"
  unfolding rmmod_kfuncs_command_def note_kfuncs_unloaded_def rmmod_kfuncs.simps by (rule refl)

interpretation releasing: polling rmmod_kfuncs "\<lambda>h es. fst (h_run h es rmmod_kfuncs_command) = 0"
  "\<lambda>h es. [Ran rmmod_kfuncs_command]" "[Ran rmmod_kfuncs_command, Slept 2000]" note_kfuncs_unloaded
  by unfold_locales (auto simp: rmmod_kfuncs_round io_simps simp del: rmmod_kfuncs.simps split: prod.splits)

text \<open>
  C11: the wait for a global transition ends in the round in which the kernel first reports it:
  when the message appears in round \<open>i\<close> of the \<open>n\<close> that the timeout allows and not before, the
  loop has slept and asked exactly \<open>i + 1\<close> times and touched nothing else.
\<close>

theorem transition_noticed:
  assumes "i < n"
    and "transition_reported baseline h (events w @ concat (replicate i [Slept 100, Ran dmesg]))"
    and "\<And>j. j < i \<Longrightarrow> \<not> transition_reported baseline h (events w @ concat (replicate j [Slept 100, Ran dmesg]))"
  shows "wait_transition n baseline h w =
    (w\<lparr>events := events w @ concat (replicate (Suc i) [Slept 100, Ran dmesg])\<rparr>, Inr ())"
  using waiting.ends_when_seen [OF assms] by (simp add: io_run flip: replicate_append_same)

definition slow_kernel :: env where
  "slow_kernel = \<lparr>h_run = (\<lambda>es c. (0, if length es < 3 then ''boot'' else ''boot'' @ [NL] @ ''xk: transition done'')),
     h_exists = (\<lambda>_ _. False), h_listdir = (\<lambda>_ _. []), h_unremovable = (\<lambda>_ _. False), h_bpftool = [],
     h_late = (\<lambda>_. False)\<rparr>"

theorem transition_noticed_witness:
  "wait_transition 100 1 slow_kernel \<lparr>events = [], files = \<lambda>_. None\<rparr>
    = (\<lparr>events = [Slept 100, Ran dmesg, Slept 100, Ran dmesg], files = \<lambda>_. None\<rparr>, Inr ())"
proof -
  let ?w = "\<lparr>events = [], files = \<lambda>_. None\<rparr>"
  have "transition_reported 1 slow_kernel (events ?w @ concat (replicate 1 [Slept 100, Ran dmesg]))" by code_simp
  moreover have "\<not> transition_reported 1 slow_kernel (events ?w @ concat (replicate j [Slept 100, Ran dmesg]))"
    if "j < 1" for j
  proof -
    have "\<not> transition_reported 1 slow_kernel []" by code_simp
    with that show ?thesis by simp
  qed
  ultimately show ?thesis using transition_noticed [of 1 100 1 slow_kernel ?w] by (simp add: numeral_2_eq_2)
qed

lemma reverse_noticed:
  assumes "i < n" and "reverse_reported h (events w @ concat (replicate i [Ran dmesg_since, Slept 500]))"
    and "\<And>j. j < i \<Longrightarrow> \<not> reverse_reported h (events w @ concat (replicate j [Ran dmesg_since, Slept 500]))"
  shows "snd (poll_reverse n h w) = Inr ()"
  using reversing.ends_when_seen [OF assms] by (simp add: io_run)

lemma kfuncs_released:
  assumes "i < n" and "fst (h_run h (events w @ concat (replicate i [Ran rmmod_kfuncs_command, Slept 2000])) rmmod_kfuncs_command) = 0"
    and "\<And>j. j < i \<Longrightarrow> fst (h_run h (events w @ concat (replicate j [Ran rmmod_kfuncs_command, Slept 2000])) rmmod_kfuncs_command) \<noteq> 0"
  shows "rmmod_kfuncs n h w = note_kfuncs_unloaded h (w\<lparr>events := events w
    @ concat (replicate i [Ran rmmod_kfuncs_command, Slept 2000]) @ [Ran rmmod_kfuncs_command]\<rparr>)"
  using releasing.ends_when_seen [OF assms] .

end
