(* ===== verification/Tunable_Config.thy ===== *)
theory Tunable_Config
  imports Py_Json
begin

text \<open>
  \<open>src/src/config.py\<close>: from the table that \<open>tomllib\<close> returns to the configurations the code
  generator is given. A TOML value is a value of \<open>toml\<close>; the fields of a configuration keep
  the values they are given, of whatever type, as the program does. The environment, the
  files of the \<open>linux-analysis\<close> checkout and what its script leaves behind are parameters.
\<close>

section \<open>TOML values\<close>

datatype toml =
    T_Str string
  | T_Int int
  | T_Bool bool
  | T_Real string
  | T_Date string
  | T_Arr "toml list"
  | T_Table "(string \<times> toml) list"

fun toml_truthy :: "toml \<Rightarrow> bool" where
  "toml_truthy (T_Str s) = (s \<noteq> [])"
| "toml_truthy (T_Int n) = (n \<noteq> 0)"
| "toml_truthy (T_Bool b) = b"
| "toml_truthy (T_Real r) = (\<not> real_is_zero r)"
| "toml_truthy (T_Date d) = True"
| "toml_truthy (T_Arr xs) = (xs \<noteq> [])"
| "toml_truthy (T_Table d) = (d \<noteq> [])"

text \<open>\<open>field in v\<close>, \<open>v.get(field)\<close>, \<open>v[field]\<close> and \<open>for x in v\<close>, for a value of any type.\<close>

fun has_field :: "string \<Rightarrow> toml \<Rightarrow> bool res" where
  "has_field field (T_Table d) = Inr (map_of d field \<noteq> None)"
| "has_field field (T_Arr xs) = Inr (T_Str field \<in> set xs)"
| "has_field field (T_Str s) = Inr (contains field s)"
| "has_field field v = Inl TypeError"

fun get_field :: "string \<Rightarrow> toml \<Rightarrow> toml option res" where
  "get_field field (T_Table d) = Inr (map_of d field)"
| "get_field field v = Inl AttributeError"

fun toml_item :: "string \<Rightarrow> toml \<Rightarrow> toml res" where
  "toml_item field (T_Table d) = (case map_of d field of None \<Rightarrow> Inl KeyError | Some v \<Rightarrow> Inr v)"
| "toml_item field v = Inl TypeError"

fun elements :: "toml \<Rightarrow> toml list res" where
  "elements (T_Arr xs) = Inr xs"
| "elements (T_Table d) = Inr (map (\<lambda>(k, v). T_Str k) d)"
| "elements (T_Str s) = Inr (map (\<lambda>c. T_Str [c]) s)"
| "elements v = Inl TypeError"

section \<open>One tunable\<close>

type_synonym toml_span = "toml \<times> toml \<times> toml"

record tunable_config =
  tc_name :: toml
  tc_description :: toml
  tc_file :: toml
  tc_original :: toml
  tc_modified :: "toml list"
  tc_values :: "toml list"
  tc_lines :: "toml option"
  tc_safe_spans :: "toml_span list option"

text \<open>Every missing field is a \<open>ValueError\<close>; looking for one can fail in other ways.\<close>

fun require :: "string list \<Rightarrow> toml \<Rightarrow> unit res" where
  "require [] v = Inr ()"
| "require (field # req) v =
     bindr (has_field field v) (\<lambda>found. if found then require req v else Inl ValueError)"

definition list_of_length :: "nat \<Rightarrow> toml \<Rightarrow> toml list res" where
  "list_of_length n v = (case v of T_Arr xs \<Rightarrow> if length xs = n then Inr xs else Inl ValueError | _ \<Rightarrow> Inl ValueError)"

definition truthy_field :: "toml option \<Rightarrow> toml option" where
  "truthy_field v = (case v of Some x \<Rightarrow> if toml_truthy x then Some x else None | None \<Rightarrow> None)"

definition parse_span :: "toml \<Rightarrow> toml_span res" where
  "parse_span span =
     bindr (get_field ''function'' span) (\<lambda>func.
     bindr (get_field ''start_offset'' span) (\<lambda>soff.
     bindr (get_field ''end_offset'' span) (\<lambda>eoff.
       case (truthy_field func, truthy_field soff, truthy_field eoff) of
         (Some f, Some s, Some e) \<Rightarrow> Inr (f, s, e)
       | _ \<Rightarrow> Inl ValueError)))"

definition parse_spans_field :: "toml option \<Rightarrow> toml_span list option res" where
  "parse_spans_field raw_spans = (case truthy_field raw_spans of
     None \<Rightarrow> Inr None
   | Some v \<Rightarrow> bindr (elements v) (\<lambda>xs. bindr (mapr parse_span xs) (\<lambda>spans. Inr (Some spans))))"

definition parse_tunable :: "toml \<Rightarrow> tunable_config res" where
  "parse_tunable data =
     bindr (require [''name'', ''description''] data) (\<lambda>_.
     bindr (get_field ''source'' data) (\<lambda>sub.
     let source = (case sub of Some s \<Rightarrow> s | None \<Rightarrow> data) in
     bindr (require [''file'', ''original'', ''modified'', ''values''] source) (\<lambda>_.
     bindr (bindr (toml_item ''modified'' source) (list_of_length 2)) (\<lambda>modified.
     bindr (bindr (toml_item ''values'' source) (list_of_length 3)) (\<lambda>vals.
     bindr (get_field ''lines'' source) (\<lambda>lines_field.
     bindr (get_field ''safe_spans'' data) (\<lambda>raw_spans.
     bindr (parse_spans_field raw_spans) (\<lambda>safe_spans.
     bindr (toml_item ''name'' data) (\<lambda>name.
     bindr (toml_item ''description'' data) (\<lambda>description.
     bindr (toml_item ''file'' source) (\<lambda>src_file.
     bindr (toml_item ''original'' source) (\<lambda>original.
       Inr \<lparr>tc_name = name, tc_description = description, tc_file = src_file, tc_original = original,
         tc_modified = modified, tc_values = vals, tc_lines = truthy_field lines_field,
         tc_safe_spans = safe_spans\<rparr>))))))))))))"

section \<open>Safe spans from the analysis\<close>

text \<open>\<open>_parse_func_offset_json\<close>; \<open>None\<close> is a file that cannot be read.\<close>

definition json_elements :: "json \<Rightarrow> json list res" where
  "json_elements v = (case v of
     JArr xs \<Rightarrow> Inr xs
   | JObj d \<Rightarrow> Inr (map (\<lambda>(k, v). JStr k) d)
   | JStr s \<Rightarrow> Inr (map (\<lambda>c. JStr [c]) s)
   | _ \<Rightarrow> Inl TypeError)"

type_synonym analysis_span = "json \<times> string \<times> string"

definition dash :: string where
  "dash = '' - ''"

text \<open>\<open>offset.split(dash, 1)\<close> of a text that contains it.\<close>

fun split_dash :: "string \<Rightarrow> string \<times> string" where
  "split_dash [] = ([], [])"
| "split_dash (c # cs) =
     (if starts_with dash (c # cs) then ([], drop (length dash) (c # cs))
      else (let (a, b) = split_dash cs in (c # a, b)))"

definition span_of_offset :: "json \<Rightarrow> string \<Rightarrow> analysis_span res" where
  "span_of_offset func offset =
     (let (a, b) = split_dash offset; soff = py_strip a; eoff = py_strip b in
      case (py_int 16 soff, py_int 16 eoff) of
        (Some m, Some n) \<Rightarrow> Inr (if m \<ge> n then (func, eoff, soff) else (func, soff, eoff))
      | _ \<Rightarrow> Inl ValueError)"

definition entry_span :: "json \<Rightarrow> analysis_span option res" where
  "entry_span entry = (case entry of
     JObj d \<Rightarrow>
       (case map_of d ''function'' of
          None \<Rightarrow> Inr None
        | Some func \<Rightarrow>
            if \<not> json_truthy func then Inr None
            else (case (case map_of d ''offset'' of None \<Rightarrow> JStr [] | Some v \<Rightarrow> v) of
                JStr offset \<Rightarrow> if contains dash offset then bindr (span_of_offset func offset) (\<lambda>s. Inr (Some s)) else Inr None
              | JArr xs \<Rightarrow> if JStr dash \<in> set xs then Inl AttributeError else Inr None
              | JObj m \<Rightarrow> if map_of m dash \<noteq> None then Inl AttributeError else Inr None
              | _ \<Rightarrow> Inl TypeError))
   | _ \<Rightarrow> Inl AttributeError)"

definition parse_func_offset_json :: "string option \<Rightarrow> analysis_span list res" where
  "parse_func_offset_json content = (case content of
     None \<Rightarrow> Inr []
   | Some text \<Rightarrow>
       (case json_loads text of
          None \<Rightarrow> Inr []
        | Some v \<Rightarrow> bindr (json_elements v) (\<lambda>es. bindr (mapr entry_span es) (\<lambda>spans. Inr (List.map_filter id spans)))))"

text \<open>
  The world of the analysis: whether its script is there, the environment variables, the
  directories of its data set, the exit code of the script for a tunable after the runs
  before it, and the sorted \<open>*.func_offset.json\<close> files it leaves for it.
\<close>

record analysis =
  an_script :: bool
  an_environ :: "string \<Rightarrow> string option"
  an_dataset :: "string \<Rightarrow> bool"
  an_exit :: "string list list \<Rightarrow> string list \<Rightarrow> int"
  an_files :: "string list list \<Rightarrow> string \<Rightarrow> string option list"

definition forwarded_flags :: "(string \<times> string) list" where
  "forwarded_flags = [(''--linux-wllvm'', ''LINUX_WLLVM''), (''--vmlinux-bc'', ''VMLINUX_BC''),
     (''--plugin'', ''TAINT_TRACKER_PLUGIN''), (''--vmlinux'', ''VMLINUX''), (''--modules-dir'', ''MODULES_DIR'')]"

definition forwarded :: "analysis \<Rightarrow> string list" where
  "forwarded an = concat (map (\<lambda>(flag, var). case an_environ an var of
     None \<Rightarrow> [] | Some v \<Rightarrow> if v = [] then [] else [flag, v]) forwarded_flags)"

text \<open>A function that is a list or an object cannot be put into the set of spans seen.\<close>

fun add_unseen :: "analysis_span list \<Rightarrow> analysis_span list \<Rightarrow> analysis_span list res" where
  "add_unseen seen [] = Inr seen"
| "add_unseen seen (s # spans) =
     (case fst s of
        JArr _ \<Rightarrow> Inl TypeError
      | JObj _ \<Rightarrow> Inl TypeError
      | _ \<Rightarrow> add_unseen (if s \<in> set seen then seen else seen @ [s]) spans)"

fun spans_of_files :: "analysis_span list \<Rightarrow> string option list \<Rightarrow> analysis_span list res" where
  "spans_of_files seen [] = Inr seen"
| "spans_of_files seen (f # fs) =
     bindr (parse_func_offset_json f) (\<lambda>spans. bindr (add_unseen seen spans) (\<lambda>seen'. spans_of_files seen' fs))"

text \<open>Lists, objects and null do not get this far.\<close>

fun toml_of_json :: "json \<Rightarrow> toml" where
  "toml_of_json (JStr s) = T_Str s"
| "toml_of_json (JInt n) = T_Int n"
| "toml_of_json (JBool b) = T_Bool b"
| "toml_of_json (JReal r) = T_Real r"
| "toml_of_json (JArr xs) = T_Arr []"
| "toml_of_json (JObj d) = T_Table []"
| "toml_of_json JNull = T_Str []"

definition analysed_spans :: "analysis_span list \<Rightarrow> toml_span list" where
  "analysed_spans spans = map (\<lambda>(f, s, e). (toml_of_json f, T_Str s, T_Str e)) spans"

definition resolve_one :: "analysis \<Rightarrow> string list list \<Rightarrow> tunable_config \<Rightarrow>
    (tunable_config \<times> string list list) res" where
  "resolve_one an runs config =
     (if tc_safe_spans config \<noteq> None then Inr (config, runs)
      else case tc_name config of
        T_Str name \<Rightarrow>
          if \<not> an_dataset an name then Inr (config, runs)
          else (let cmd = [''--tunable'', name] @ forwarded an; runs' = runs @ [cmd] in
            if an_exit an runs cmd \<noteq> 0 then Inr (config, runs')
            else bindr (spans_of_files [] (an_files an runs' name)) (\<lambda>all_spans.
              Inr (if all_spans \<noteq> [] then config\<lparr>tc_safe_spans := Some (analysed_spans all_spans)\<rparr> else config, runs')))
      | _ \<Rightarrow> Inl TypeError)"

fun resolve_all :: "analysis \<Rightarrow> string list list \<Rightarrow> tunable_config list \<Rightarrow> tunable_config list res" where
  "resolve_all an runs [] = Inr []"
| "resolve_all an runs (c # cs) =
     bindr (resolve_one an runs c) (\<lambda>(c', runs'). bindr (resolve_all an runs' cs) (\<lambda>cs'. Inr (c' # cs')))"

definition backfill_safe_spans_from_analysis :: "analysis \<Rightarrow> tunable_config list \<Rightarrow> tunable_config list res" where
  "backfill_safe_spans_from_analysis an configs =
     (if list_all (\<lambda>c. tc_safe_spans c \<noteq> None) configs \<or> \<not> an_script an then Inr configs
      else resolve_all an [] configs)"

section \<open>A configuration file\<close>

text \<open>The kernel directory: the environment first; \<open>expanduser\<close> takes a text.\<close>

definition resolve_kernel_dir :: "(string \<Rightarrow> string) \<Rightarrow> string option \<Rightarrow> (string \<times> toml) list \<Rightarrow> string res" where
  "resolve_kernel_dir expanduser env_kernel_dir data =
     (case env_kernel_dir of
        Some (c # cs) \<Rightarrow> Inr (expanduser (c # cs))
      | _ \<Rightarrow> (case truthy_field (map_of data ''kernel_dir'') of
            Some (T_Str d) \<Rightarrow> Inr (expanduser d)
          | Some _ \<Rightarrow> Inl TypeError
          | None \<Rightarrow> Inl ValueError))"

definition load_configs :: "(string \<Rightarrow> string) \<Rightarrow> string option \<Rightarrow> analysis option \<Rightarrow> (string \<times> toml) list \<Rightarrow>
    (string \<times> tunable_config list) res" where
  "load_configs expanduser env_kernel_dir run_analysis data =
     bindr (resolve_kernel_dir expanduser env_kernel_dir data) (\<lambda>kernel_dir.
     bindr (case map_of data ''tunables'' of
         Some v \<Rightarrow> bindr (elements v) (mapr parse_tunable)
       | None \<Rightarrow> bindr (parse_tunable (T_Table data)) (\<lambda>c. Inr [c])) (\<lambda>configs.
     bindr (case run_analysis of None \<Rightarrow> Inr configs | Some an \<Rightarrow> backfill_safe_spans_from_analysis an configs) (\<lambda>configs'.
       Inr (kernel_dir, configs'))))"

definition load_config :: "(string \<Rightarrow> string) \<Rightarrow> string option \<Rightarrow> (string \<times> toml) list \<Rightarrow> (string \<times> tunable_config) res" where
  "load_config expanduser env_kernel_dir data =
     bindr (load_configs expanduser env_kernel_dir None data) (\<lambda>(kernel_dir, configs).
       case configs of [] \<Rightarrow> Inl ValueError | c # cs \<Rightarrow> Inr (kernel_dir, c))"

section \<open>What an accepted configuration looks like\<close>

definition span_truthy :: "toml_span \<Rightarrow> bool" where
  "span_truthy = (\<lambda>(f, s, e). toml_truthy f \<and> toml_truthy s \<and> toml_truthy e)"

definition config_ok :: "tunable_config \<Rightarrow> bool" where
  "config_ok c \<longleftrightarrow> length (tc_modified c) = 2 \<and> length (tc_values c) = 3 \<and>
     (case tc_lines c of None \<Rightarrow> True | Some l \<Rightarrow> toml_truthy l) \<and>
     (case tc_safe_spans c of None \<Rightarrow> True | Some spans \<Rightarrow> spans \<noteq> [] \<and> list_all span_truthy spans)"

lemma truthy_field_Some: "truthy_field v = Some x \<Longrightarrow> toml_truthy x"
  by (auto simp: truthy_field_def split: option.splits if_splits)

lemma parse_span_ok: "parse_span v = Inr s \<Longrightarrow> span_truthy s"
  unfolding parse_span_def bindr_Inr_conv span_truthy_def
  using truthy_field_Some by (fastforce split: option.splits)

lemma mapr_all: "mapr f xs = Inr ys \<Longrightarrow> (\<And>x y. f x = Inr y \<Longrightarrow> P y) \<Longrightarrow> list_all P ys"
  by (induction xs arbitrary: ys) (auto simp: bindr_Inr_conv)

lemma elements_nonempty: "elements v = Inr xs \<Longrightarrow> toml_truthy v \<Longrightarrow> xs \<noteq> []"
  by (cases v) auto

lemma parse_spans_ok: "parse_spans_field raw = Inr (Some spans) \<Longrightarrow> spans \<noteq> [] \<and> list_all span_truthy spans"
proof -
  assume "parse_spans_field raw = Inr (Some spans)"
  then obtain v xs where v: "truthy_field raw = Some v" "elements v = Inr xs" "mapr parse_span xs = Inr spans"
    by (auto simp: parse_spans_field_def bindr_Inr_conv split: option.splits)
  then have "xs \<noteq> []" using elements_nonempty truthy_field_Some by blast
  then have "spans \<noteq> []" using mapr_Inr_length [OF v(3)] by auto
  with mapr_all [OF v(3) parse_span_ok] show ?thesis by simp
qed

lemma list_of_length_Inr: "list_of_length n v = Inr xs \<Longrightarrow> v = T_Arr xs \<and> length xs = n"
  by (auto simp: list_of_length_def split: toml.splits if_splits)

lemma parse_tunable_ok: "parse_tunable d = Inr c \<Longrightarrow> config_ok c"
  by (auto simp: parse_tunable_def bindr_Inr_conv config_ok_def Let_def split: option.splits
      dest!: list_of_length_Inr truthy_field_Some parse_spans_ok)

lemma span_of_offset_facts: "span_of_offset f off = Inr (g, s, e) \<Longrightarrow>
    g = f \<and> (\<exists>m n. py_int 16 s = Some m \<and> py_int 16 e = Some n \<and> m \<le> n)"
  by (auto simp: span_of_offset_def Let_def split: prod.splits option.splits if_splits)

definition span_ordered :: "analysis_span \<Rightarrow> bool" where
  "span_ordered = (\<lambda>(f, s, e). json_truthy f \<and>
     (case (py_int 16 s, py_int 16 e) of (Some m, Some n) \<Rightarrow> m \<le> n | _ \<Rightarrow> False))"

lemma entry_span_ordered: "entry_span v = Inr (Some sp) \<Longrightarrow> span_ordered sp"
  unfolding entry_span_def span_ordered_def
  by (cases sp) (auto split: json.splits option.splits if_splits simp: bindr_Inr_conv dest!: span_of_offset_facts)

lemma func_offset_ordered: "parse_func_offset_json f = Inr spans \<Longrightarrow> list_all span_ordered spans"
proof -
  have "mapr entry_span es = Inr sps \<Longrightarrow> list_all span_ordered (List.map_filter id sps)" for es sps
    by (induction es arbitrary: sps)
      (auto simp: bindr_Inr_conv map_filter_simps split: option.splits intro: entry_span_ordered)
  then show "parse_func_offset_json f = Inr spans \<Longrightarrow> ?thesis"
    by (auto simp: parse_func_offset_json_def bindr_Inr_conv split: option.splits)
qed

definition scalar :: "json \<Rightarrow> bool" where
  "scalar v = (case v of JArr _ \<Rightarrow> False | JObj _ \<Rightarrow> False | _ \<Rightarrow> True)"

lemma scalar_simps: "scalar JNull" "scalar (JBool b)" "scalar (JInt n)" "scalar (JReal r)" "scalar (JStr s)"
  by (simp_all add: scalar_def)

definition spans_ok :: "analysis_span list \<Rightarrow> bool" where
  "spans_ok spans \<longleftrightarrow> distinct spans \<and> list_all span_ordered spans \<and> list_all (\<lambda>s. scalar (fst s)) spans"

lemma add_unseen_ok: "add_unseen seen spans = Inr seen' \<Longrightarrow> spans_ok seen \<Longrightarrow> list_all span_ordered spans \<Longrightarrow> spans_ok seen'"
proof (induction seen spans rule: add_unseen.induct)
  case (2 seen s spans)
  then show ?case by (cases "fst s") (auto simp: spans_ok_def scalar_simps split: if_splits)
qed simp

lemma spans_of_files_ok: "spans_of_files seen fs = Inr spans \<Longrightarrow> spans_ok seen \<Longrightarrow> spans_ok spans"
  by (induction seen fs rule: spans_of_files.induct)
    (auto simp: bindr_Inr_conv dest: func_offset_ordered add_unseen_ok)

lemma py_int_Nil: "py_int 16 [] = None"
  by code_simp

lemma analysed_truthy: "spans_ok spans \<Longrightarrow> list_all span_truthy (analysed_spans spans)"
proof -
  have "span_truthy (toml_of_json f, T_Str s, T_Str e)" if "span_ordered (f, s, e)" "scalar f" for f s e
    using that py_int_Nil
    by (cases f) (auto simp: span_truthy_def span_ordered_def scalar_def split: option.splits)
  then show "spans_ok spans \<Longrightarrow> ?thesis" by (fastforce simp: spans_ok_def analysed_spans_def list_all_iff)
qed

text \<open>The analysis only fills in spans that are missing.\<close>

definition filled_from :: "tunable_config \<Rightarrow> tunable_config \<Rightarrow> bool" where
  "filled_from c c' \<longleftrightarrow> c' = c \<or> tc_safe_spans c = None \<and>
     (\<exists>spans. spans \<noteq> [] \<and> spans_ok spans \<and> c' = c\<lparr>tc_safe_spans := Some (analysed_spans spans)\<rparr>)"

lemma resolve_one_filled: "resolve_one an runs c = Inr (c', runs') \<Longrightarrow> filled_from c c'"
  using spans_of_files_ok [of "[]"]
  by (auto simp: resolve_one_def filled_from_def bindr_Inr_conv Let_def spans_ok_def split: toml.splits if_splits)

lemma resolve_all_filled: "resolve_all an runs cs = Inr cs' \<Longrightarrow> list_all2 filled_from cs cs'"
  by (induction cs arbitrary: runs cs') (auto simp: bindr_Inr_conv dest: resolve_one_filled)

lemma backfill_filled: "backfill_safe_spans_from_analysis an cs = Inr cs' \<Longrightarrow> list_all2 filled_from cs cs'"
  by (auto simp: backfill_safe_spans_from_analysis_def filled_from_def list.rel_refl split: if_splits
      dest: resolve_all_filled)

lemma filled_ok: "filled_from c c' \<Longrightarrow> config_ok c \<Longrightarrow> config_ok c'"
  by (auto simp: filled_from_def config_ok_def analysed_truthy) (simp add: analysed_spans_def)

text \<open>Where the fields of a configuration come from: the entry, and its \<open>source\<close> table if it has one.\<close>

definition entries_of :: "(string \<times> toml) list \<Rightarrow> toml list res" where
  "entries_of data = (case map_of data ''tunables'' of Some v \<Rightarrow> elements v | None \<Rightarrow> Inr [T_Table data])"

definition source_of :: "toml \<Rightarrow> toml" where
  "source_of entry = (case entry of
     T_Table d \<Rightarrow> (case map_of d ''source'' of Some s \<Rightarrow> s | None \<Rightarrow> entry)
   | _ \<Rightarrow> entry)"

definition from_entry :: "toml \<Rightarrow> tunable_config \<Rightarrow> bool" where
  "from_entry entry c \<longleftrightarrow>
     toml_item ''name'' entry = Inr (tc_name c) \<and> toml_item ''description'' entry = Inr (tc_description c) \<and>
     toml_item ''file'' (source_of entry) = Inr (tc_file c) \<and>
     toml_item ''original'' (source_of entry) = Inr (tc_original c) \<and>
     toml_item ''modified'' (source_of entry) = Inr (T_Arr (tc_modified c)) \<and>
     toml_item ''values'' (source_of entry) = Inr (T_Arr (tc_values c))"

lemma get_field_Inr: "get_field f v = Inr x \<Longrightarrow> \<exists>d. v = T_Table d \<and> x = map_of d f"
  by (cases v) auto

lemma source_field: "get_field ''source'' d = Inr sub \<Longrightarrow> (case sub of Some s \<Rightarrow> s | None \<Rightarrow> d) = source_of d"
  by (cases d) (auto simp: source_of_def split: option.split)

lemma parse_tunable_entry:
  assumes "parse_tunable d = Inr c"
  shows "from_entry d c"
proof -
  obtain sub m v ms vs ls spans name description src_file original where
    sub: "get_field ''source'' d = Inr sub"
    and m: "toml_item ''modified'' (case sub of Some s \<Rightarrow> s | None \<Rightarrow> d) = Inr m" "list_of_length 2 m = Inr ms"
    and v: "toml_item ''values'' (case sub of Some s \<Rightarrow> s | None \<Rightarrow> d) = Inr v" "list_of_length 3 v = Inr vs"
    and n: "toml_item ''name'' d = Inr name" "toml_item ''description'' d = Inr description"
    and f: "toml_item ''file'' (case sub of Some s \<Rightarrow> s | None \<Rightarrow> d) = Inr src_file"
      "toml_item ''original'' (case sub of Some s \<Rightarrow> s | None \<Rightarrow> d) = Inr original"
    and c: "(Inr \<lparr>tc_name = name, tc_description = description, tc_file = src_file, tc_original = original,
      tc_modified = ms, tc_values = vs, tc_lines = truthy_field ls, tc_safe_spans = spans\<rparr> :: tunable_config res) = Inr c"
    using assms unfolding parse_tunable_def bindr_Inr_conv Let_def by - (elim exE conjE, rule that, assumption+)
  have "m = T_Arr ms" "v = T_Arr vs" using list_of_length_Inr m(2) v(2) by blast+
  with m v n f c show ?thesis unfolding source_field [OF sub] from_entry_def by auto
qed

lemma mapr_all2: "mapr f xs = Inr ys \<Longrightarrow> (\<And>x y. f x = Inr y \<Longrightarrow> P x y) \<Longrightarrow> list_all2 P xs ys"
  by (induction xs arbitrary: ys) (auto simp: bindr_Inr_conv)

lemma filled_entry: "filled_from c c' \<Longrightarrow> from_entry d c \<Longrightarrow> from_entry d c'"
  by (auto simp: filled_from_def from_entry_def)

lemma filled_entries: "list_all2 from_entry es cs \<Longrightarrow> list_all2 filled_from cs cs' \<Longrightarrow> list_all2 from_entry es cs'"
  unfolding list_all2_conv_all_nth using filled_entry by metis

text \<open>
  C17: the configurations loaded from a file are, in order, those of its entries: each has the
  fields of its entry, or of the entry's \<open>source\<close> table. \<open>modified\<close> is a list of exactly two
  elements and \<open>values\<close> one of exactly three, a line filter is not empty, and there are either no
  safe spans or a non-empty list of complete ones, from the file or from the analysis. Nothing
  is said of the types of the elements: the program takes strings and integers for granted
  without checking (\<open>values_not_checked\<close>).
\<close>

theorem loaded_configs_well_formed:
  assumes "load_configs expanduser env_kernel_dir run_analysis data = Inr (kernel_dir, configs)"
  shows "list_all config_ok configs \<and>
    (\<exists>entries. entries_of data = Inr entries \<and> list_all2 from_entry entries configs)"
proof -
  from assms obtain cs where cs: "(case map_of data ''tunables'' of
         Some v \<Rightarrow> bindr (elements v) (mapr parse_tunable)
       | None \<Rightarrow> bindr (parse_tunable (T_Table data)) (\<lambda>c. Inr [c])) = Inr cs"
    and f: "list_all2 filled_from cs configs"
    by (auto simp: load_configs_def bindr_Inr_conv filled_from_def list.rel_refl split: option.splits dest!: backfill_filled)
  have "list_all config_ok cs"
    using cs by (auto simp: bindr_Inr_conv split: option.splits intro: mapr_all parse_tunable_ok)
  with f have "list_all config_ok configs"
    using filled_ok by (auto simp: list_all2_conv_all_nth list_all_length)
  moreover obtain entries where "entries_of data = Inr entries" "list_all2 from_entry entries cs"
    using cs by (auto simp: entries_of_def bindr_Inr_conv split: option.splits intro: mapr_all2 parse_tunable_entry)
  ultimately show ?thesis using filled_entries [OF _ f] by blast
qed

definition sample_toml :: "(string \<times> toml) list" where
  "sample_toml = [(''kernel_dir'', T_Str ''~/linux''), (''name'', T_Str ''hystart''), (''description'', T_Str ''d''),
     (''source'', T_Table [(''file'', T_Str ''net/tcp_cubic.c''), (''original'', T_Str ''16U''),
        (''modified'', T_Arr [T_Str ''17U'', T_Str ''18U'']), (''values'', T_Arr [T_Int 16, T_Int 17, T_Int 18])])]"

definition sample_analysis :: analysis where
  "sample_analysis = \<lparr>an_script = True, an_environ = (\<lambda>_. None), an_dataset = (\<lambda>_. True), an_exit = (\<lambda>_ _. 0),
     an_files = (\<lambda>_ _. [Some (join [DQ] [''[{'', ''function'', '': '', ''f'', '', '', ''offset'', '': '', ''0x20 - 0x8'', ''}]''])])\<rparr>"

lemma sample_loaded:
  "load_configs id None (Some sample_analysis) sample_toml = Inr (''~/linux'',
     [\<lparr>tc_name = T_Str ''hystart'', tc_description = T_Str ''d'', tc_file = T_Str ''net/tcp_cubic.c'',
       tc_original = T_Str ''16U'', tc_modified = [T_Str ''17U'', T_Str ''18U''],
       tc_values = [T_Int 16, T_Int 17, T_Int 18], tc_lines = None,
       tc_safe_spans = Some [(T_Str ''f'', T_Str ''0x8'', T_Str ''0x20'')]\<rparr>])"
  by code_simp

theorem loaded_configs_well_formed_witness:
  "\<exists>d cs. load_configs id None (Some sample_analysis) sample_toml = Inr (d, cs) \<and> cs \<noteq> [] \<and> list_all config_ok cs \<and>
     list_all2 from_entry [T_Table sample_toml] cs"
proof -
  have "entries_of sample_toml = Inr [T_Table sample_toml]" by code_simp
  then show ?thesis using loaded_configs_well_formed [OF sample_loaded] sample_loaded by auto
qed

text \<open>
  C18: the analysis of safe spans touches nothing but missing spans: each tunable is either left
  as it was, or it had none and gets a non-empty list without duplicates, each span with its
  smaller offset first.
\<close>

theorem analysis_only_fills:
  assumes "backfill_safe_spans_from_analysis an configs = Inr configs'"
  shows "list_all2 (\<lambda>c c'. c' = c \<or> tc_safe_spans c = None \<and> (\<exists>spans. spans \<noteq> [] \<and> distinct spans \<and>
    list_all span_ordered spans \<and> c' = c\<lparr>tc_safe_spans := Some (analysed_spans spans)\<rparr>)) configs configs'"
  by (rule list_all2_mono [OF backfill_filled [OF assms]]) (auto simp: filled_from_def spans_ok_def)

definition sample_config :: tunable_config where
  "sample_config = \<lparr>tc_name = T_Str ''hystart'', tc_description = T_Str ''d'', tc_file = T_Str ''net/tcp_cubic.c'',
     tc_original = T_Str ''16U'', tc_modified = [T_Str ''17U'', T_Str ''18U''],
     tc_values = [T_Int 16, T_Int 17, T_Int 18], tc_lines = None, tc_safe_spans = None\<rparr>"

theorem analysis_only_fills_witness:
  "\<exists>c'. backfill_safe_spans_from_analysis sample_analysis [sample_config] = Inr [c'] \<and> c' \<noteq> sample_config \<and>
    (\<exists>spans. distinct spans \<and> list_all span_ordered spans \<and> tc_safe_spans c' = Some (analysed_spans spans))"
proof -
  let ?c = "sample_config\<lparr>tc_safe_spans := Some [(T_Str ''f'', T_Str ''0x8'', T_Str ''0x20'')]\<rparr>"
  have r: "backfill_safe_spans_from_analysis sample_analysis [sample_config] = Inr [?c]" by code_simp
  have "?c \<noteq> sample_config" by (simp add: sample_config_def)
  moreover from this analysis_only_fills [OF r] obtain spans where
    "distinct spans" "list_all span_ordered spans" "?c = sample_config\<lparr>tc_safe_spans := Some (analysed_spans spans)\<rparr>"
    by auto
  moreover from this(3) have "tc_safe_spans ?c = Some (analysed_spans spans)" by (simp add: sample_config_def)
  ultimately show ?thesis using r by blast
qed

text \<open>The lengths of the two lists are checked, not what is in them.\<close>

lemma values_not_checked:
  "\<exists>c. parse_tunable (T_Table [(''name'', T_Int 1), (''description'', T_Str []), (''file'', T_Bool False),
     (''original'', T_Str []), (''modified'', T_Arr [T_Int 1, T_Int 2]),
     (''values'', T_Arr [T_Str ''a'', T_Str ''b'', T_Str ''c''])]) = Inr c"
  by (simp add: parse_tunable_def toml_item.simps list_of_length_def truthy_field_def parse_spans_field_def Let_def)

end
