(* ===== verification/Load_Summary.thy ===== *)
theory Load_Summary
  imports Lifecycle Table_Print Image_Readback Bpf_Gen
begin

text \<open>
  The summary printed after a load (\<open>src/src/cli.py\<close>): the kprobes named by the comments of
  the policy file, of its generated header and of the guard header are read back, and drawn
  in a box.
\<close>

section \<open>Comments that name a place\<close>

text \<open>
  The patterns have a lazy \<open>.+?\<close> before a tail that starts with \<open>+0x\<close>: the shortest
  text of at least one character before the tail matches, after as many blanks as possible.
  The part of the pattern before the blanks matches in one way only.
\<close>

fun lazy_then :: "rx \<Rightarrow> string \<Rightarrow> string \<Rightarrow> (string \<times> caps) option" where
  "lazy_then tail acc [] = None"
| "lazy_then tail acc (c # cs) =
     (if \<not> dot c then None
      else case re_exec tail (Some c) cs of
        Some (g, _) \<Rightarrow> Some (rev (c # acc), g)
      | None \<Rightarrow> lazy_then tail (c # acc) cs)"

definition place_then :: "rx \<Rightarrow> string \<Rightarrow> (string \<times> caps) option" where
  "place_then tail s = map_option (\<lambda>(pre, g). (pre @ group g 2, g))
     (first_some (\<lambda>n. lazy_then tail [] (drop n s)) (rev [1 ..< Suc (length (takeWhile is_space s))]))"

definition place_tail :: rx where
  "place_tail = Grp 2 (Seq (lit ''+0x'') (Many 1 is_hex))"

definition rx_tune_head :: rx where
  "rx_tune_head = seqs [lit ''// Kprobe '', Grp 1 (Many 1 is_digit), Opt (Cls (one_of ''ab'')), lit '':'']"

definition rx_tune_tail :: rx where
  "rx_tune_tail = seqs [place_tail,
     Opt (seqs [Many 1 is_space, lit ''('', Grp 3 (Many 1 dot), lit '')'']), Many 0 is_space, Eol]"

definition rx_relationship :: rx where
  "rx_relationship = seqs [lit ''// Relationship:'', Many 1 is_space, Grp 1 (Many 1 dot)]"

definition rx_save_head :: rx where
  "rx_save_head = seqs [lit ''// Save handler '', Many 1 is_digit, lit '':'']"

definition rx_save_tail :: rx where
  "rx_save_tail = seqs [place_tail, Many 1 is_space, lit ''('',
     Grp 3 (Seq (Cls dot) (Many 0 (\<lambda>c. dot c \<and> c \<noteq> CHR '')''))), lit '')'']"

definition rx_guard_head :: rx where
  "rx_guard_head = seqs [lit ''// '', Grp 1 (Alt (lit ''Guard'') (lit ''Unguard'')), lit '':'']"

definition rx_guard_tail :: rx where
  "rx_guard_tail = seqs [place_tail, Many 1 is_space, lit ''(SS '', Alt (lit ''entry'') (lit ''exit''), lit '')'']"

definition match_place :: "rx \<Rightarrow> rx \<Rightarrow> string \<Rightarrow> (caps \<times> string \<times> caps) option" where
  "match_place head tail line = (case re_match head line of
     None \<Rightarrow> None
   | Some (g, rest) \<Rightarrow> map_option (\<lambda>(place, g'). (g, place, g')) (place_then tail rest))"

section \<open>Reading the kprobes back\<close>

record tune_kprobe =
  tk_num :: string
  tk_location :: string
  tk_type :: string
  tk_rel :: string

text \<open>The relationship is looked for in the three lines that follow.\<close>

fun relationship_of :: "string list \<Rightarrow> string" where
  "relationship_of [] = []"
| "relationship_of (line # lines) = (case re_match rx_relationship (py_strip line) of
     Some (g, _) \<Rightarrow> group g 1
   | None \<Rightarrow> relationship_of lines)"

fun tune_kprobes :: "string list \<Rightarrow> tune_kprobe list" where
  "tune_kprobes [] = []"
| "tune_kprobes (line # lines) = (case match_place rx_tune_head rx_tune_tail (py_strip line) of
     None \<Rightarrow> tune_kprobes lines
   | Some (g, location, g') \<Rightarrow>
       (let kp_type = (if group g' 3 = [] then ''simple'' else group g' 3)
        in if contains ''SAVE'' kp_type then tune_kprobes lines
           else \<lparr>tk_num = group g 1, tk_location = location,
                 tk_type = (if contains ''APPLY'' kp_type then ''irreversible'' else kp_type),
                 tk_rel = relationship_of (take 3 lines)\<rparr> # tune_kprobes lines))"

definition parse_kprobes_from_bpf_c :: "string option \<Rightarrow> tune_kprobe list" where
  "parse_kprobes_from_bpf_c f = (case f of None \<Rightarrow> [] | Some text \<Rightarrow> tune_kprobes (readlines text))"

definition save_kprobe :: "string \<Rightarrow> (string \<times> string) option" where
  "save_kprobe line = map_option (\<lambda>(g, location, g'). (location, group g' 3))
     (match_place rx_save_head rx_save_tail (py_strip line))"

definition parse_kprobes_from_internal_header :: "string option \<Rightarrow> (string \<times> string) list" where
  "parse_kprobes_from_internal_header f =
     (case f of None \<Rightarrow> [] | Some text \<Rightarrow> List.map_filter save_kprobe (readlines text))"

definition transition_kprobe :: "string \<Rightarrow> (string \<times> string) option" where
  "transition_kprobe line = map_option (\<lambda>(g, location, g'). (location, py_lower (group g 1)))
     (match_place rx_guard_head rx_guard_tail (py_strip line))"

definition parse_kprobes_from_cs_artifact :: "string option \<Rightarrow> (string \<times> string) list" where
  "parse_kprobes_from_cs_artifact f =
     (case f of None \<Rightarrow> [] | Some text \<Rightarrow> List.map_filter transition_kprobe (readlines text))"

section \<open>The box\<close>

text \<open>A line is a list of spans, each with the escape sequence it is wrapped in, if any.\<close>

type_synonym sspan = "string \<times> ustring"

definition ansi :: "string \<Rightarrow> string" where
  "ansi n = ESC # ''['' @ n @ ''m''"

definition sgr :: "string \<Rightarrow> ustring \<Rightarrow> sspan" where
  "sgr n t = (ansi n, t)"

definition bare :: "ustring \<Rightarrow> sspan" where
  "bare t = ([], t)"

text \<open>What a terminal shows of a line: the escape sequences, also those inside a name, take no room.\<close>

definition box_width :: nat where "box_width = 62"

definition box_line :: "sspan list \<Rightarrow> int \<Rightarrow> sspan list" where
  "box_line content pad_len = [bare (blanks 2), sgr ''2'' [VV], bare (blanks 1)] @ content
     @ [bare (blanks (nat (max 0 pad_len))), sgr ''2'' [VV]]"

definition box_rule :: "nat \<Rightarrow> nat \<Rightarrow> sspan list" where
  "box_rule left right = [bare (blanks 2), sgr ''2'' ([left] @ replicate box_width HH @ [right])]"

text \<open>The name of a mode, or its number.\<close>

definition mode_name :: "int \<Rightarrow> string" where
  "mode_name mode = (if mode = 0 then ''Immediate'' else if mode = 1 then ''Per-task''
     else if mode = 2 then ''Global'' else py_str mode)"

definition title_text :: "string \<Rightarrow> int \<Rightarrow> ustring" where
  "title_text const_id mode = u ''Loaded Kprobes '' @ [0x2014] @ u ('' ConstID '' @ const_id @ '' ('' @ mode_name mode @ '')'')"

text \<open>An item: colour and shape of its mark, the kprobe, the detail line.\<close>

type_synonym item_line = "string \<times> nat \<times> string \<times> string"

definition tune_item :: "tune_kprobe \<Rightarrow> item_line" where
  "tune_item kp = (''32'', 0x25B6, ''kprobe/'' @ tk_location kp,
     ''Type: '' @ tk_type kp @ (if tk_rel kp \<noteq> [] then ''    Expr: '' @ tk_rel kp else []))"

definition save_item :: "string \<times> string \<Rightarrow> item_line" where
  "save_item kp = (''33'', 0x25C0, ''kprobe/'' @ fst kp, snd kp)"

definition transition_item :: "string \<times> string \<Rightarrow> item_line" where
  "transition_item kp = (if snd kp = ''guard'' then (''36'', 0x25B7, ''kprobe/'' @ fst kp, ''guard (SS entry)'')
     else (''36'', 0x25C1, ''kprobe/'' @ fst kp, ''unguard (SS exit)''))"

definition item_box :: "item_line \<Rightarrow> sspan list list" where
  "item_box it = (case it of (colour, mark, loc, detail_line) \<Rightarrow>
     [box_line [bare (blanks 1), sgr colour [mark], bare (u ('' '' @ loc))]
        (int box_width - 2 - (2 + int (length (strip_ansi loc)))),
      box_line [bare (blanks 3), sgr ''2'' (u detail_line)] (int box_width - 4 - int (length detail_line))])"

fun items_lines :: "item_line list \<Rightarrow> sspan list list" where
  "items_lines [] = []"
| "items_lines [it] = item_box it"
| "items_lines (it # jt # its) = item_box it @ [box_line [] (int box_width - 1)] @ items_lines (jt # its)"

definition loaded_items :: "tune_kprobe list \<Rightarrow> (string \<times> string) list \<Rightarrow> (string \<times> string) list \<Rightarrow> item_line list" where
  "loaded_items tune save transition =
     map tune_item tune @ map save_item save @ map transition_item transition"

definition loaded_box :: "string \<Rightarrow> int \<Rightarrow> item_line list \<Rightarrow> sspan list list" where
  "loaded_box const_id mode its =
     (let title = title_text const_id mode in
      [[], box_rule TL TR, box_line [sgr ''1'' title] (int box_width - 1 - int (length title)), box_rule LT RT]
      @ items_lines its @ [box_rule BL BR])"

definition dir_name :: "string \<Rightarrow> string" where
  "dir_name p = (let d = rev (dropWhile (\<lambda>c. c \<noteq> CHR ''/'') (rev p)) in
     if list_all (\<lambda>c. c = CHR ''/'') d then d else rstrip_by (\<lambda>c. c = CHR ''/'') d)"

definition print_loaded_kprobes :: "(string \<Rightarrow> string option) \<Rightarrow> string \<Rightarrow> string \<Rightarrow> int \<Rightarrow> sspan list list" where
  "print_loaded_kprobes read const_id bpf_c_path mode =
     (let tune = parse_kprobes_from_bpf_c (read bpf_c_path);
          save = parse_kprobes_from_internal_header (read (py_replace ''.bpf.c'' ''.bpf.h'' bpf_c_path));
          transition = parse_kprobes_from_cs_artifact
            (read (path_join (dir_name (dir_name bpf_c_path)) ''cs_artifact.bpf.h''))
      in if tune = [] \<and> save = [] \<and> transition = [] then []
         else loaded_box const_id mode (loaded_items tune save transition))"

section \<open>Properties\<close>

subsection \<open>A place is found\<close>

lemma fails_place: "s = [] \<or> hd s \<noteq> CHR ''+'' \<Longrightarrow> re_exec (Seq place_tail r) p s = None"
  unfolding fails_exec [symmetric] place_tail_def
  by (intro fails_Seq1 fails_Grp fails_lit) auto

lemma lazy_place:
  assumes "f \<noteq> []" "list_all (\<lambda>c. dot c \<and> c \<noteq> CHR ''+'') f"
    and "\<And>p. \<exists>e. re_exec (Seq place_tail r) p s = Some (g, e)"
  shows "lazy_then (Seq place_tail r) acc (f @ s) = Some (rev acc @ f, g)"
  using assms(1,2)
proof (induction f arbitrary: acc)
  case (Cons c f)
  show ?case
  proof (cases f)
    case Nil
    with Cons.prems assms(3) [of "Some c"] show ?thesis by auto
  next
    case (Cons d f')
    with Cons.prems have "re_exec (Seq place_tail r) (Some c) (f @ s) = None"
      by (intro fails_place) auto
    with Cons.IH [of "c # acc"] Cons.prems Cons show ?thesis by simp
  qed
qed simp

lemma symbol_dots: "symbol_ok f \<Longrightarrow> list_all (\<lambda>c. dot c \<and> c \<noteq> CHR ''+'') f"
  using symbol_chars by (force simp: list_all_iff dot_def is_space_def)

lemma place_found:
  assumes "symbol_ok f" and "\<And>p. \<exists>e. re_exec (Seq place_tail r) p s = Some (g, e)"
  shows "place_then (Seq place_tail r) ('' '' @ f @ s) = Some (f @ group g 2, g)"
proof -
  have sp: "is_space (CHR '' '')" by (simp add: is_space_def)
  have f: "f \<noteq> []" "\<not> is_space (hd f)"
    using assms(1) symbol_chars [OF assms(1), of "hd f"] by (auto simp: symbol_ok_def)
  then have "takeWhile is_space ('' '' @ f @ s) = '' ''" using sp by (cases f) auto
  then show ?thesis
    using lazy_place [OF f(1) symbol_dots [OF assms(1)] assms(2), of "[]"]
    by (simp add: place_then_def)
qed

text \<open>The offset in a place, before a tail that cannot start with a hexadecimal digit.\<close>

lemma place_offset:
  assumes "v = [] \<or> \<not> is_hex (hd v)"
  shows "runs place_tail p (CHR ''+'' # hex0x (int n) @ v) g (prev_after p (''+0x'' @ digs 16 n)) v
    (dput 2 (''+0x'' @ digs 16 n) g)"
proof -
  have "list_all is_hex (digs 16 n)" using digs_hex [of 16] by (auto simp: list_all_iff)
  then have "runs (Many 1 is_hex) q (digs 16 n @ v) g (prev_after q (digs 16 n)) v g" for q
    using assms by (intro runs_Many) (auto simp: Suc_le_eq)
  then have "runs (Seq (lit ''+0x'') (Many 1 is_hex)) p (''+0x'' @ digs 16 n @ v) g
      (prev_after (prev_after p ''+0x'') (digs 16 n)) v g"
    by (rule runs_Seq [OF runs_lit])
  then have "runs place_tail p ((''+0x'' @ digs 16 n) @ v) g
      (prev_after (prev_after p ''+0x'') (digs 16 n)) v (dput 2 (''+0x'' @ digs 16 n) g)"
    unfolding place_tail_def by (intro runs_Grp) simp
  then show ?thesis by (simp add: hex0x_def hex_of_def)
qed

subsection \<open>The guards of a header are listed\<close>

lemma guard_end:
  "runs (seqs [Many 1 is_space, lit ''(SS '', Alt (lit ''entry'') (lit ''exit''), lit '')'']) p '' (SS entry)'' g
     (Some (CHR '')'')) [] g"
  "runs (seqs [Many 1 is_space, lit ''(SS '', Alt (lit ''entry'') (lit ''exit''), lit '')'']) p '' (SS exit)'' g
     (Some (CHR '')'')) [] g"
  by (simp_all add: runs_def is_space_def)

lemma guard_tail_seq: "rx_guard_tail = Seq place_tail
    (seqs [Many 1 is_space, lit ''(SS '', Alt (lit ''entry'') (lit ''exit''), lit '')''])"
  by (simp add: rx_guard_tail_def)

lemma guard_found:
  assumes "symbol_ok f" "0 \<le> off" "t \<in> {'' (SS entry)'', '' (SS exit)''}"
  shows "\<exists>g. place_then rx_guard_tail ('' '' @ kprobe_place f off @ t) = Some (kprobe_place f off, g)"
proof -
  define n where "n = nat off"
  with assms(2) have off: "off = int n" by simp
  let ?g = "dput 2 (''+0x'' @ digs 16 n) []"
  have "\<exists>e. re_exec rx_guard_tail p (CHR ''+'' # hex0x (int n) @ t) = Some (?g, e)" for p
    unfolding guard_tail_seq
    using runs_exec [OF runs_Seq [OF place_offset guard_end(1)]]
      runs_exec [OF runs_Seq [OF place_offset guard_end(2)]] assms(3)
    by (auto simp: is_hex_def)
  from place_found [OF assms(1) this [unfolded guard_tail_seq]]
  have "place_then rx_guard_tail ('' '' @ f @ CHR ''+'' # hex0x (int n) @ t) = Some (f @ group ?g 2, ?g)"
    by (simp only: guard_tail_seq)
  then show ?thesis by (simp add: kprobe_place_def off group_def dget_def hex0x_def hex_of_def)
qed

lemma guard_head:
  "re_match rx_guard_head (''// Guard:'' @ s) = Some ([(1, ''Guard'')], s)"
  "re_match rx_guard_head (''// Unguard:'' @ s) = Some ([(1, ''Unguard'')], s)"
  by (simp_all add: rx_guard_head_def re_match_def re_exec_def)

definition ended_line :: "string \<Rightarrow> string" where
  "ended_line l = l @ [NL]"

lemma guard_line:
  assumes "symbol_ok f" "0 \<le> off"
  shows "transition_kprobe (ended_line (''// Guard: '' @ kprobe_place f off @ '' (SS entry)''))
      = Some (kprobe_place f off, ''guard'')"
    and "transition_kprobe (ended_line (''// Unguard: '' @ kprobe_place f off @ '' (SS exit)''))
      = Some (kprobe_place f off, ''unguard'')"
proof -
  have strip: "py_strip (ended_line l) = l" if "l \<noteq> []" "\<not> is_space (hd l)" "\<not> is_space (last l)" for l
    using strip_end [OF that] by (simp add: ended_line_def strip_NL)
  from guard_found [OF assms, of "'' (SS entry)''"] obtain g
    where g: "place_then rx_guard_tail ('' '' @ kprobe_place f off @ '' (SS entry)'') = Some (kprobe_place f off, g)"
    by auto
  from guard_found [OF assms, of "'' (SS exit)''"] obtain g'
    where g': "place_then rx_guard_tail ('' '' @ kprobe_place f off @ '' (SS exit)'') = Some (kprobe_place f off, g')"
    by auto
  have low: "py_lower ''Guard'' = ''guard''" "py_lower ''Unguard'' = ''unguard''" by code_simp+
  show "transition_kprobe (ended_line (''// Guard: '' @ kprobe_place f off @ '' (SS entry)''))
      = Some (kprobe_place f off, ''guard'')"
    using guard_head(1) [of "'' '' @ kprobe_place f off @ '' (SS entry)''"] g low(1)
    by (simp add: transition_kprobe_def strip is_space_def match_place_def group_def dget_def)
  show "transition_kprobe (ended_line (''// Unguard: '' @ kprobe_place f off @ '' (SS exit)''))
      = Some (kprobe_place f off, ''unguard'')"
    using guard_head(2) [of "'' '' @ kprobe_place f off @ '' (SS exit)''"] g' low(2)
    by (simp add: transition_kprobe_def strip is_space_def match_place_def group_def dget_def)
qed

text \<open>The other lines name no place.\<close>

definition no_comment :: "string \<Rightarrow> bool" where
  "no_comment l \<longleftrightarrow> \<not> starts_with ''// '' (py_strip l)"

lemma no_comment_none: "no_comment l \<Longrightarrow> transition_kprobe (ended_line l) = None"
proof -
  have "mrel rx_guard_head None s p' s' \<Longrightarrow> starts_with ''// '' s" for s p' s'
    by (auto simp: rx_guard_head_def mrel_iffs starts_with_iff)
  moreover assume "no_comment l"
  ultimately have "re_match rx_guard_head (py_strip l) = None"
    by (intro fails_match) (auto simp: fails_def no_comment_def)
  then show ?thesis by (simp add: transition_kprobe_def ended_line_def strip_NL match_place_def)
qed

lemma no_comment_start: "s \<noteq> [] \<Longrightarrow> \<not> is_space (hd s) \<Longrightarrow> hd s \<noteq> CHR ''/'' \<Longrightarrow> no_comment s"
  using strip_starts [of s "''// ''"] by (auto simp: no_comment_def starts_with_iff)

lemma no_comment_code: "no_comment (''SEC('' @ s)" "no_comment (''int BPF_KPROBE('' @ s)" "no_comment (''#'' @ s)"
  by (rule no_comment_start; simp add: is_space_def)+

lemma no_comment_consts: "no_comment []" "no_comment ''}''" "no_comment ''    return 0;''"
  "no_comment ''    ss_guard_handler(ctx);''" "no_comment ''    ss_unguard_handler(ctx);''"
  by (simp_all add: no_comment_def py_strip_def lstrip_by_def rstrip_by_def is_space_def)

text \<open>A span whose places can be read back.\<close>

definition span_ok :: "string \<times> int \<times> int \<Rightarrow> bool" where
  "span_ok = (\<lambda>(f, soff, eoff). symbol_ok f \<and> 0 \<le> soff \<and> 0 \<le> eoff)"

definition guard_pair :: "string \<times> int \<times> int \<Rightarrow> (string \<times> string) list" where
  "guard_pair = (\<lambda>(f, soff, eoff). [(kprobe_place f soff, ''guard''), (kprobe_place f eoff, ''unguard'')])"

lemma map_filter_append: "List.map_filter f (xs @ ys) = List.map_filter f xs @ List.map_filter f ys"
  by (simp add: List.map_filter_def)

lemma map_filter_Cons: "List.map_filter f (x # xs) = (case f x of None \<Rightarrow> [] | Some y \<Rightarrow> [y]) @ List.map_filter f xs"
  by (simp add: List.map_filter_def split: option.splits)

lemma map_filter_Nil: "List.map_filter f [] = []"
  by (simp add: List.map_filter_def)

lemma guard_lines_listed: "span_ok s \<Longrightarrow>
    List.map_filter transition_kprobe (map ended_line (guard_lines s)) = guard_pair s"
  by (cases s) (simp add: span_ok_def guard_lines_def guard_pair_def map_filter_Cons map_filter_Nil guard_line [simplified]
      no_comment_none no_comment_consts no_comment_code [simplified])

lemma guard_lines_listed_all: "list_all span_ok ss \<Longrightarrow>
    List.map_filter transition_kprobe (map ended_line (concat (map guard_lines ss))) = concat (map guard_pair ss)"
  by (induction ss) (simp_all add: map_filter_append map_filter_Nil guard_lines_listed)

lemma symbol_no_NL: "symbol_ok f \<Longrightarrow> NL \<notin> set f"
  using symbol_chars [of f NL] by (auto simp: is_space_def)

lemma hex_no_NL: "NL \<notin> set (hex_of n)"
  using no_B_digs [of 16, simplified] by (auto simp: hex_of_def)

lemma guard_lines_NL: "span_ok s \<Longrightarrow> list_all (\<lambda>l. NL \<notin> set l) (guard_lines s)"
  using symbol_no_NL hex_no_NL
  by (cases s) (simp add: span_ok_def guard_lines_def kprobe_place_def kprobe_sec_def quoted_def hex0x_def)

text \<open>
  The summary lists the guards of a generated header, two for each span, in order and at the
  places of the span.
\<close>

theorem guards_listed:
  assumes "list_all span_ok spans"
  shows "parse_kprobes_from_cs_artifact (Some (artifact_text spans)) =
    concat (map (\<lambda>(f, soff, eoff). [(kprobe_place f soff, ''guard''), (kprobe_place f eoff, ''unguard'')]) spans)"
proof -
  let ?top = "[''#ifndef __CS_ARTIFACT_BPF_H__'', ''#define __CS_ARTIFACT_BPF_H__'', [],
       ''#include '' @ quoted ''xkernel.bpf.h'', []]"
  let ?body = "concat (map guard_lines spans)"
  have nl: "list_all (\<lambda>l. NL \<notin> set l) (?top @ ?body @ [''#endif''])"
    using assms guard_lines_NL by (auto simp: list_all_iff quoted_def)
  have "readlines (artifact_text spans) = map ended_line (?top @ ?body @ [''#endif''])"
    using readlines_join [of "?top @ ?body @ [''#endif'', []]"] nl
    by (simp add: artifact_text_def ended_line_def butlast_append)
  then have "parse_kprobes_from_cs_artifact (Some (artifact_text spans)) = concat (map guard_pair spans)"
    using guard_lines_listed_all [OF assms]
    by (simp add: parse_kprobes_from_cs_artifact_def map_filter_append map_filter_Cons map_filter_Nil no_comment_none
        no_comment_consts no_comment_code [simplified])
  then show ?thesis by (simp add: guard_pair_def)
qed

theorem guards_listed_witness:
  "parse_kprobes_from_cs_artifact (Some (artifact_text [(''f'', 16, 48)])) =
    [(kprobe_place ''f'' 16, ''guard''), (kprobe_place ''f'' 48, ''unguard'')]"
  using guards_listed [of "[(''f'', 16, 48)]"]
  by (simp add: span_ok_def symbol_ok_def is_word_def is_lower_def)

subsection \<open>The kprobes of a generated policy are listed\<close>

text \<open>A greedy group before the last character of the text gives that character back.\<close>

lemma many_until_last:
  assumes "\<And>p g. k p [] g = None"
  shows "list_all P s \<Longrightarrow> P c \<Longrightarrow> n \<le> length s \<Longrightarrow> k (prev_after p s) [c] g = Some x \<Longrightarrow>
    many P n p (s @ [c]) g k = Some x"
proof (induction s arbitrary: n p)
  case (Cons d s)
  have "many P (n - 1) (Some d) (s @ [c]) g k = Some x"
    using Cons.prems by (intro Cons.IH) auto
  with Cons.prems(1) show ?case by simp
qed (simp add: assms)

lemma runs_until_last: "list_all P s \<Longrightarrow> P c \<Longrightarrow> n \<le> length s \<Longrightarrow>
    runs (Seq (Grp m (Many n P)) (lit [c])) p (s @ [c]) g (Some c) [] (dput m s g)"
  unfolding runs_def by (auto intro!: many_until_last)

lemma type_end:
  assumes "what \<noteq> []" "list_all is_word what"
  shows "runs (seqs [Opt (seqs [Many 1 is_space, lit ''('', Grp 3 (Many 1 dot), lit '')'']), Many 0 is_space, Eol])
    p ('' ('' @ what @ '')'') g (Some (CHR '')'')) [] (dput 3 what g)"
proof -
  have sp: "is_space (CHR '' '')" "\<not> is_space (CHR ''('')" "dot (CHR '')'')" "list_all dot what"
    using assms(2) is_word_not_space [of NL] by (auto simp: is_space_def dot_def list_all_iff)
  have m1: "runs (Many 1 is_space) p ('' '' @ CHR ''('' # what @ '')'') g (prev_after p '' '') (CHR ''('' # what @ '')'') g"
    by (rule runs_Many) (use sp in auto)
  have m2: "runs (lit ''('') q (CHR ''('' # what @ '')'') g (prev_after q ''('') (what @ '')'') g" for q
    using runs_lit [of "''(''"] by simp
  have m3: "runs (Seq (Grp 3 (Many 1 dot)) (lit '')'')) q (what @ '')'') g (Some (CHR '')'')) [] (dput 3 what g)" for q
    by (rule runs_until_last) (use sp assms(1) in \<open>auto simp: Suc_le_eq\<close>)
  have m4: "runs (Many 0 is_space) q ([] @ []) g' (prev_after q []) [] g'" for q g'
    by (rule runs_Many) auto
  have e: "runs Eol q [] g' q [] g'" for q g' by (rule runs_Eol) (simp add: at_eol_def)
  have "runs (Seq (Many 1 is_space) (Seq (lit ''('') (Seq (Grp 3 (Many 1 dot)) (lit '')''))))
      p ('' '' @ CHR ''('' # what @ '')'') g (Some (CHR '')'')) [] (dput 3 what g)"
    by (rule runs_Seq [OF m1 runs_Seq [OF m2 m3]])
  then show ?thesis
    using runs_Seq [OF runs_Opt_some runs_Seq [OF m4 [simplified] e]] by simp
qed

lemma tune_head:
  "re_match rx_tune_head (''// Kprobe '' @ digs 10 i @ '':'' @ s) = Some ([(1, digs 10 i)], s)"
proof -
  have d: "list_all is_digit (digs 10 i)" using digs_digit by (auto simp: list_all_iff)
  have m: "runs (Grp 1 (Many 1 is_digit)) q (digs 10 i @ CHR '':'' # s) g (prev_after q (digs 10 i))
      (CHR '':'' # s) (dput 1 (digs 10 i) g)" for q g
    by (rule runs_Grp, rule runs_Many) (use d in \<open>auto simp: Suc_le_eq is_digit_def\<close>)
  have o: "runs (Opt (Cls (one_of ''ab''))) q (CHR '':'' # s) g q (CHR '':'' # s) g" for q g
    by (rule runs_Opt_none, rule fails_Cls) (simp add: one_of_def)
  have l: "runs (lit '':'') q (CHR '':'' # s) g (prev_after q '':'') s g" for q g
    using runs_lit [of "'':''"] by simp
  have "runs rx_tune_head None (''// Kprobe '' @ digs 10 i @ CHR '':'' # s) [] (prev_after
      (prev_after (prev_after None ''// Kprobe '') (digs 10 i)) '':'') s (dput 1 (digs 10 i) [])"
    unfolding rx_tune_head_def seqs.simps
    by (rule runs_Seq [OF runs_lit runs_Seq [OF m runs_Seq [OF o l]]])
  from runs_match [OF this] show ?thesis by simp
qed

lemma kprobe_found:
  assumes "symbol_ok f" "what \<noteq> []" "list_all is_word what"
  shows "\<exists>g. match_place rx_tune_head rx_tune_tail (kprobe_line i f n what) =
    Some ([(1, digs 10 i)], kprobe_place f (int n), g) \<and> group g 3 = what"
proof -
  let ?g = "dput 3 what (dput 2 (''+0x'' @ digs 16 n) [])"
  let ?close = "'' ('' @ what @ '')''"
  have "\<exists>e. re_exec rx_tune_tail p (CHR ''+'' # hex0x (int n) @ ?close) = Some (?g, e)" for p
    using runs_exec [OF runs_Seq [OF place_offset type_end [OF assms(2,3)]]]
    by (auto simp: is_hex_def rx_tune_tail_def)
  from place_found [OF assms(1) this [unfolded rx_tune_tail_def seqs.simps(3) [of place_tail]]]
  have "place_then rx_tune_tail ('' '' @ f @ CHR ''+'' # hex0x (int n) @ ?close) = Some (f @ group ?g 2, ?g)"
    by (simp only: rx_tune_tail_def seqs.simps(3) [of place_tail])
  then have p: "place_then rx_tune_tail ('' '' @ kprobe_place f (int n) @ ?close) = Some (kprobe_place f (int n), ?g)"
    by (simp add: kprobe_place_def group_def dget_def hex0x_def hex_of_def)
  have l: "kprobe_line i f n what = ''// Kprobe '' @ digs 10 i @ '':'' @ '' '' @ kprobe_place f (int n) @ ?close"
    by (simp add: kprobe_line_def kprobe_place_def hex0x_def hex_of_def)
  show ?thesis unfolding match_place_def l
    by (rule exI [of _ ?g], simp only: tune_head option.case prod.case p option.map) (simp add: group_def dget_def)
qed

text \<open>The relationship is one of the three lines that follow.\<close>

definition relationship_start :: string where "relationship_start = ''// Relationship:''"

lemma no_relationship: "\<not> starts_with relationship_start (py_strip l) \<Longrightarrow> re_match rx_relationship (py_strip l) = None"
proof -
  have "mrel rx_relationship None s p' s' \<Longrightarrow> starts_with relationship_start s" for s p' s'
    by (auto simp: rx_relationship_def relationship_start_def mrel_iffs starts_with_iff)
  moreover assume "\<not> starts_with relationship_start (py_strip l)"
  ultimately show ?thesis by (intro fails_match) (auto simp: fails_def)
qed

lemma no_relationship_line:
  assumes "l \<noteq> []" "\<not> is_space (hd l)" "\<not> starts_with relationship_start l"
  shows "re_match rx_relationship (py_strip (ended_line l)) = None"
  unfolding ended_line_def strip_NL
  by (rule no_relationship) (use strip_starts [OF assms(1,2)] assms(3) in blast)

definition rel_ok :: "string \<Rightarrow> bool" where
  "rel_ok rel \<longleftrightarrow> NL \<notin> set rel \<and> (rel = [] \<or> \<not> is_space (hd rel) \<and> \<not> is_space (last rel))"

lemma relationship_match:
  assumes "rel_ok rel" "rel \<noteq> []"
  shows "re_match rx_relationship (py_strip (ended_line (''// Relationship: '' @ rel))) = Some ([(1, rel)], [])"
proof -
  have "py_strip (ended_line (''// Relationship: '' @ rel)) = ''// Relationship: '' @ rel"
    unfolding ended_line_def strip_NL
    by (rule strip_end) (use assms in \<open>auto simp: rel_ok_def is_space_def\<close>)
  moreover have "runs (lit ''// Relationship:'') None (''// Relationship:'' @ '' '' @ rel) []
      (prev_after None ''// Relationship:'') ('' '' @ rel) []"
    by (rule runs_lit)
  moreover have "runs (Many 1 is_space) q ('' '' @ rel) g (prev_after q '' '') rel g" for q g
    by (rule runs_Many) (use assms in \<open>auto simp: rel_ok_def is_space_def\<close>)
  moreover have "list_all dot rel" using assms by (auto simp: rel_ok_def dot_def list_all_iff)
  then have "runs (Many 1 dot) q (rel @ []) g (prev_after q rel) [] g" for q g
    by (rule runs_Many) (use assms in \<open>auto simp: Suc_le_eq\<close>)
  then have "runs (Grp 1 (Many 1 dot)) q (rel @ []) g (prev_after q rel) [] (dput 1 rel g)" for q g
    by (rule runs_Grp)
  ultimately have "runs rx_relationship None (''// Relationship:'' @ '' '' @ rel) []
      (prev_after (prev_after (prev_after None ''// Relationship:'') '' '') rel) [] (dput 1 rel [])"
    unfolding rx_relationship_def seqs.simps append_Nil2 by (intro runs_Seq)
  from runs_match [OF this] show ?thesis
    using \<open>py_strip (ended_line (''// Relationship: '' @ rel)) = ''// Relationship: '' @ rel\<close> by simp
qed

lemma relationship_line:
  assumes "rel_ok rel"
  shows "relationship_of (ended_line (''// Relationship: '' @ rel) # ls) = (if rel = [] then relationship_of ls else rel)"
proof (cases "rel = []")
  case True
  have "re_match rx_relationship (py_strip (ended_line ''// Relationship: '')) = None" by code_simp
  with True show ?thesis by simp
next
  case False
  with relationship_match [OF assms] show ?thesis by (simp add: group_def dget_def)
qed

lemma relationship_after:
  assumes "rel_ok (kp_rel_str kp)"
  shows "relationship_of (take 3 (map ended_line (lines_after v1_src i kp) @ rest)) = kp_rel_str kp"
proof -
  have c: "re_match rx_relationship (py_strip (ended_line (''// Candidates: '' @ s))) = None" for s
    by (rule no_relationship_line) (simp_all add: is_space_def relationship_start_def)
  have x: "re_match rx_relationship (py_strip (ended_line (''X_TUNE_'' @ s))) = None" for s
    by (rule no_relationship_line) (simp_all add: is_space_def relationship_start_def)
  show ?thesis
    using c [simplified] x [simplified] relationship_line [OF assms, simplified]
    by (simp add: lines_after_def numeral_3_eq_3)
qed

subsection \<open>The policy as a whole\<close>

lemma tune_quiet: "quiet l \<Longrightarrow> tune_kprobes (l # rest) = tune_kprobes rest"
proof -
  have "mrel rx_tune_head None s p' s' \<Longrightarrow> starts_with kprobe_start s" for s p' s'
    by (auto simp: rx_tune_head_def kprobe_start_def mrel_iffs starts_with_iff)
  moreover assume "quiet l"
  ultimately have "re_match rx_tune_head (py_strip l) = None"
    by (intro fails_match) (auto simp: fails_def quiet_def)
  then show ?thesis by (simp add: match_place_def)
qed

lemma tune_quiets: "list_all quiet ls \<Longrightarrow> tune_kprobes (map ended_line ls @ rest) = tune_kprobes rest"
  by (induction ls) (simp_all add: tune_quiet ended_line_def del: tune_kprobes.simps)

definition listed_kprobe :: "nat \<Rightarrow> kprobe \<Rightarrow> tune_kprobe" where
  "listed_kprobe i kp = \<lparr>tk_num = digs 10 (Suc i), tk_location = kprobe_place (kp_function_name kp) (kp_offset kp),
     tk_type = synthesis_type (kp_synthesis kp), tk_rel = kp_rel_str kp\<rparr>"

lemma tune_policy:
  assumes "kprobe_ok proto kp" and "rel_ok (kp_rel_str kp)"
  shows "tune_kprobes (map ended_line (policy_lines proto v1_src i kp) @ rest) = listed_kprobe i kp # tune_kprobes rest"
proof -
  have f: "symbol_ok (kp_function_name kp)" and off: "0 \<le> kp_offset kp"
    using assms(1) by (simp_all add: kprobe_ok_def)
  let ?what = "synthesis_type (kp_synthesis kp)"
  let ?k = "kprobe_line (Suc i) (kp_function_name kp) (nat (kp_offset kp)) ?what"
  let ?after = "map ended_line (lines_after v1_src i kp)"
  obtain g where g: "match_place rx_tune_head rx_tune_tail ?k =
      Some ([(1, digs 10 (Suc i))], kprobe_place (kp_function_name kp) (kp_offset kp), g)" "group g 3 = ?what"
    using kprobe_found [OF f, of ?what "Suc i" "nat (kp_offset kp)"] word_synthesis_type off by auto
  have "py_strip ?k = ?k"
    by (rule strip_end) (simp_all add: kprobe_line_def is_space_def)
  then have s: "py_strip (ended_line ?k) = ?k" by (simp add: ended_line_def strip_NL)
  have n: "group [(Suc 0, digs 10 (Suc i))] (Suc 0) = digs 10 (Suc i)" by (simp add: group_def dget_def)
  have w: "?what \<noteq> [] \<and> \<not> contains ''SAVE'' ?what \<and> \<not> contains ''APPLY'' ?what"
    by (cases "kp_synthesis kp") simp_all
  have "tune_kprobes (ended_line ?k # ?after @ rest) = listed_kprobe i kp # tune_kprobes (?after @ rest)"
    using w n by (simp add: s g listed_kprobe_def relationship_after [OF assms(2)] del: take_append)
  moreover have "list_all quiet (lines_before proto kp)" "list_all quiet (lines_after v1_src i kp)"
    using before_ok [OF assms(1)] after_quiet by simp_all
  ultimately show ?thesis
    using off by (simp add: policy_lines_eq tune_quiets del: tune_kprobes.simps)
qed

lemma tune_policies:
  "list_all (\<lambda>kp. kprobe_ok proto kp \<and> rel_ok (kp_rel_str kp)) kps \<Longrightarrow> tune_kprobes
     (map ended_line (concat (map (\<lambda>(i, kp). policy_lines proto v1_src i kp) (enumerate n kps))) @ rest) =
   map (\<lambda>(i, kp). listed_kprobe i kp) (enumerate n kps) @ tune_kprobes rest"
  by (induction kps arbitrary: n) (simp_all add: tune_policy del: tune_kprobes.simps)

lemma relationship_end: "relationship_of (take n (ls @ [[NL]])) = relationship_of (take n ls)"
proof (induction ls arbitrary: n)
  case Nil
  have "re_match rx_relationship (py_strip [NL]) = None" by code_simp
  then show ?case by (cases n) simp_all
next
  case (Cons l ls)
  then show ?case by (cases n) (simp_all split: option.splits)
qed

lemma tune_end: "tune_kprobes (ls @ [[NL]]) = tune_kprobes ls"
proof (induction ls)
  case Nil
  have "quiet [NL]" by (simp add: quiet_def kprobe_start_def py_strip_def lstrip_by_def rstrip_by_def is_space_def)
  then show ?case by (simp add: tune_quiet del: tune_kprobes.simps(2))
next
  case (Cons l ls)
  then show ?case by (auto simp: Let_def relationship_end simp del: take_append split: option.splits prod.splits)
qed

lemma policy_kprobes:
  assumes "generate_multi_kprobe_bpf_file proto stub kps v1_src = Inr (Some (header, policy, bpf_file))"
    and "list_all (kprobe_ok proto) kps" and "NL \<notin> set stub"
    and "list_all (\<lambda>kp. rel_ok (kp_rel_str kp)) kps"
  shows "tune_kprobes (readlines policy) = map (\<lambda>(i, kp). listed_kprobe i kp) (enumerate 0 kps)"
proof -
  have ok: "list_all (\<lambda>kp. kprobe_ok proto kp \<and> rel_ok (kp_rel_str kp)) kps"
    using assms(2,4) by (simp add: list_all_iff)
  show ?thesis
    using tune_end [of "readlines policy"] policy_readlines [OF assms(1-3)]
      tune_quiets [of "policy_top stub"] top_ok [of stub]
      tune_policies [OF ok, of v1_src 0 "[]"]
    by (simp add: ended_line_def [abs_def] del: tune_kprobes.simps(2))
qed

text \<open>
  C37: the summary lists the kprobes of a generated policy in order, each with its number, place, kind
  of synthesis and relationship.
\<close>

theorem policy_listed:
  assumes "generate_multi_kprobe_bpf_file proto stub kps v1_src = Inr (Some (header, policy, bpf_file))"
    and "list_all (kprobe_ok proto) kps" and "NL \<notin> set stub"
    and "list_all (\<lambda>kp. rel_ok (kp_rel_str kp)) kps"
  shows "parse_kprobes_from_bpf_c (Some policy) = map (\<lambda>(i, kp).
    \<lparr>tk_num = digs 10 (Suc i), tk_location = kprobe_place (kp_function_name kp) (kp_offset kp),
     tk_type = synthesis_type (kp_synthesis kp), tk_rel = kp_rel_str kp\<rparr>) (enumerate 0 kps)"
  using policy_kprobes [OF assms] by (simp add: parse_kprobes_from_bpf_c_def listed_kprobe_def)

theorem policy_listed_witness:
  "\<exists>policy. parse_kprobes_from_bpf_c (Some policy) =
    [\<lparr>tk_num = ''1'', tk_location = kprobe_place ''f'' 19, tk_type = ''simple'', tk_rel = ''IV = V''\<rparr>]"
proof -
  obtain header where "generate_multi_kprobe_bpf_file (\<lambda>f. None) ''1'' [sample_kprobe] 5 = Inr (Some
    (header, join [NL] (policy_file_lines (\<lambda>f. None) ''1'' 5 [sample_kprobe]), ''xtune_stub_1.bpf.o''))"
    using sample_generated by blast
  from policy_listed [OF this sample_kprobe_ok] have
    "parse_kprobes_from_bpf_c (Some (join [NL] (policy_file_lines (\<lambda>f. None) ''1'' 5 [sample_kprobe]))) =
     [\<lparr>tk_num = digs 10 1, tk_location = kprobe_place ''f'' 19, tk_type = ''simple'', tk_rel = ''IV = V''\<rparr>]"
    by (simp add: sample_kprobe_def rel_ok_def is_space_def)
  moreover have "digs 10 1 = ''1''" by code_simp
  ultimately show ?thesis by auto
qed

subsection \<open>The box\<close>

definition shown_width :: "sspan list \<Rightarrow> nat" where
  "shown_width l = sum_list (map (length \<circ> snd) l)"

text \<open>An item that fits; names hold no escape sequences.\<close>

definition fits :: "item_line \<Rightarrow> bool" where
  "fits it = (case it of (colour, mark, loc, detail_line) \<Rightarrow>
     ESC \<notin> set loc \<and> length loc \<le> box_width - 4 \<and> length detail_line \<le> box_width - 4)"

lemma box_line_width: "0 \<le> pad \<Longrightarrow> shown_width (box_line content pad) = shown_width content + nat pad + 5"
  by (simp add: box_line_def shown_width_def bare_def sgr_def blanks_def)

lemma item_widths: "fits it \<Longrightarrow> l \<in> set (item_box it) \<Longrightarrow> shown_width l = box_width + 4"
  using strip_ansi_append [of "fst (snd (snd it))" "[]"]
  by (auto simp: fits_def item_box_def box_line_width box_width_def split: prod.splits)
    (simp_all add: shown_width_def bare_def sgr_def blanks_def u_def)

lemma items_widths: "list_all fits its \<Longrightarrow> l \<in> set (items_lines its) \<Longrightarrow> shown_width l = box_width + 4"
proof (induction its rule: items_lines.induct)
  case (3 it jt its)
  have "shown_width (box_line [] (int box_width - 1)) = box_width + 4"
    by (simp add: box_line_width box_width_def) (simp add: shown_width_def)
  with 3 show ?case using item_widths [of it l] by auto
qed (auto dest: item_widths)

text \<open>All lines of the box end in the same column when title, places and details fit.\<close>

lemma box_aligned:
  assumes "list_all fits its" "length (title_text const_id mode) < box_width"
    and "l \<in> set (tl (loaded_box const_id mode its))"
  shows "shown_width l = box_width + 4"
proof -
  have "shown_width (box_rule a b) = box_width + 4" for a b
    by (simp add: box_rule_def shown_width_def bare_def sgr_def blanks_def)
  moreover have "shown_width (box_line [sgr ''1'' (title_text const_id mode)]
      (int box_width - 1 - int (length (title_text const_id mode)))) = box_width + 4"
    using assms(2) by (simp add: box_line_width) (simp add: shown_width_def sgr_def)
  ultimately show ?thesis
    using assms(3) items_widths [OF assms(1)] by (auto simp: loaded_box_def Let_def)
qed

end
