(* ===== verification/Cli_Build.thy ===== *)
theory Cli_Build
  imports Lifecycle_Inv Pipeline Image_Report
begin

text \<open>
  \<open>cmd_build\<close> and \<open>cmd_run\<close> of \<open>src/src/cli.py\<close>: each tunable of a configuration gets the next
  ConstID, the basic-block files are generated, code is generated from them, and the stubs
  that exist are compiled; \<open>run\<close> then loads what it finds in the scope table. The tables and the
  basic-block files are files of the world; what \<open>diff.py\<close> prints, the kernel's listings and
  the loaded configuration are parameters.
\<close>

section \<open>The tables as files\<close>

definition CS_TABLE :: string where "CS_TABLE = ''/dev/shm/xkernel/cs_table''"
definition SS_TABLE :: string where "SS_TABLE = ''/dev/shm/xkernel/ss_table''"

definition tables_of :: "world \<Rightarrow> tables" where
  "tables_of w = \<lparr>scope_file = files w SCOPE_TABLE, cs_file = files w CS_TABLE,
     cs_raw_file = files w CS_RAW, ss_file = files w SS_TABLE, ss_raw_file = files w SS_RAW\<rparr>"

definition get_tables :: "tables io" where
  "get_tables = (\<lambda>h w. (w, Inr (tables_of w)))"

definition put_tables :: "tables \<Rightarrow> unit io" where
  "put_tables t = (\<lambda>h w. (w\<lparr>files := (files w)(SCOPE_TABLE := scope_file t, CS_TABLE := cs_file t,
     CS_RAW := cs_raw_file t, SS_TABLE := ss_file t, SS_RAW := ss_raw_file t)\<rparr>, Inr ()))"

text \<open>\<open>next_const_id\<close> creates the scope table when it is missing.\<close>

definition next_id :: "int io" where
  "next_id = bindio (file_text SCOPE_TABLE) (\<lambda>f.
     seqio (write_file SCOPE_TABLE (init_table scope_header f)) (ret (next_const_id f)))"

section \<open>One tunable\<close>

text \<open>A configured tunable whose fields have the types the build needs; \<open>tn_modified\<close> are the two replacements.\<close>

record tunable =
  tn_name :: string
  tn_file :: string
  tn_original :: string
  tn_modified :: "string \<times> string"
  tn_values :: "int \<times> int \<times> int"
  tn_lines :: "string option"
  tn_safe_spans :: "span list"

record build_tools =
  bt_python :: string
  bt_diff_script :: string
  bt_diff :: "string list \<Rightarrow> (int \<times> string \<times> string) option"
  bt_host :: host
  bt_vmlinux :: "string option"
  bt_btf :: "string option"
  bt_cpus :: int

definition diff_command :: "build_tools \<Rightarrow> string \<Rightarrow> tunable \<Rightarrow> string \<Rightarrow> string list" where
  "diff_command tools kernel_dir tn modified = build_diff_command (bt_python tools) (bt_diff_script tools)
     (tn_file tn) (tn_original tn) modified (tn_lines tn) (Some kernel_dir)"

definition bb_path :: "string \<Rightarrow> int \<Rightarrow> string \<Rightarrow> string" where
  "bb_path project_root const_id version =
     path_join (path_join project_root ''bb_cache'') (bb_file_name const_id version)"

definition gen_single :: "build_tools \<Rightarrow> string \<Rightarrow> string \<Rightarrow> tunable \<Rightarrow> int \<Rightarrow> bool io" where
  "gen_single tools project_root kernel_dir tn const_id =
     (let (written, ok) = generate_bb_files_single (bt_diff tools) (diff_command tools kernel_dir tn)
            (fst (tn_modified tn)) (snd (tn_modified tn)) const_id
      in seqio (each (\<lambda>(name, text). write_file (path_join (path_join project_root ''bb_cache'') name) text) written)
           (ret ok))"

definition stub_file :: "int \<Rightarrow> string \<Rightarrow> string" where
  "stub_file const_id ending = ''xtune_stub_'' @ py_str const_id @ ending"

definition stub_path :: "string \<Rightarrow> int \<Rightarrow> string \<Rightarrow> string" where
  "stub_path project_root const_id ending =
     path_join (path_join (path_join project_root ''bpf'') ''stubs'') (stub_file const_id ending)"

definition write_stub :: "string \<Rightarrow> int \<Rightarrow> bpf_files \<Rightarrow> unit io" where
  "write_stub project_root const_id generated = (case generated of
     None \<Rightarrow> ret ()
   | Some (header, policy) \<Rightarrow> seqio (write_file (stub_path project_root const_id ''.bpf.h'') header)
       (write_file (stub_path project_root const_id ''.bpf.c'') policy))"

text \<open>The tables after an exception of the generator are not modelled.\<close>

definition codegen_single :: "build_tools \<Rightarrow> string \<Rightarrow> tunable \<Rightarrow> int \<Rightarrow> unit io" where
  "codegen_single tools project_root tn const_id =
     bindio get_tables (\<lambda>t.
     bindio (file_text (bb_path project_root const_id ''v1'')) (\<lambda>v1.
     bindio (file_text (bb_path project_root const_id ''v2'')) (\<lambda>v2.
     bindio (file_text (bb_path project_root const_id ''v3'')) (\<lambda>v3.
     bindio (lift (run_codegen_single \<lparr>v1_file = v1, v2_file = v2, v3_file = v3, env_host = bt_host tools,
         env_vmlinux = bt_vmlinux tools, env_btf = bt_btf tools\<rparr> (tn_values tn) (tn_safe_spans tn) const_id t))
       (\<lambda>(generated, t'). seqio (put_tables t') (write_stub project_root const_id generated))))))"

definition build_tunable :: "build_tools \<Rightarrow> bool \<Rightarrow> string \<Rightarrow> string \<Rightarrow> tunable \<Rightarrow> int \<Rightarrow> unit io" where
  "build_tunable tools skip_gen project_root kernel_dir tn const_id =
     bindio (if skip_gen then ret True else gen_single tools project_root kernel_dir tn const_id) (\<lambda>ok.
       if ok then codegen_single tools project_root tn const_id else ret ())"

section \<open>A configuration\<close>

fun build_each :: "build_tools \<Rightarrow> bool \<Rightarrow> string \<Rightarrow> string \<Rightarrow> tunable list \<Rightarrow> (string \<times> int) list io" where
  "build_each tools skip_gen project_root kernel_dir [] = ret []"
| "build_each tools skip_gen project_root kernel_dir (tn # tns) =
     bindio next_id (\<lambda>const_id.
     seqio (build_tunable tools skip_gen project_root kernel_dir tn const_id)
     (bindio (build_each tools skip_gen project_root kernel_dir tns) (\<lambda>ids.
       ret ((tn_name tn, const_id) # ids))))"

fun stub_targets :: "string \<Rightarrow> (string \<times> int) list \<Rightarrow> string list io" where
  "stub_targets project_root [] = ret []"
| "stub_targets project_root ((name, cid) # ids) =
     bindio (file_text (stub_path project_root cid ''.bpf.c'')) (\<lambda>src.
     bindio (stub_targets project_root ids) (\<lambda>targets.
       ret (if src = None then targets else path_join ''stubs'' (stub_file cid ''.bpf.o'') # targets)))"

text \<open>
  \<open>loaded\<close> is what \<open>load_configs\<close> gives for the file; the kernel directory must exist.
  \<open>subprocess.run\<close> is given the directory, which is not part of the command.
\<close>

definition cmd_build_single :: "build_tools \<Rightarrow> (string \<Rightarrow> (string \<times> tunable list) res) \<Rightarrow> string \<Rightarrow> bool \<Rightarrow>
    string \<Rightarrow> (string \<times> int) list io" where
  "cmd_build_single tools loaded toml_file skip_gen project_root =
     bindio (ask (\<lambda>h es. h_exists h es toml_file)) (\<lambda>present.
     if \<not> present then exit_with 1
     else bindio (lift (loaded toml_file)) (\<lambda>(kernel_dir, configs).
       if configs = [] then exit_with 1
       else bindio (ask (\<lambda>h es. h_exists h es kernel_dir)) (\<lambda>present.
         if \<not> present then exit_with 1
         else bindio (build_each tools skip_gen project_root kernel_dir configs) (\<lambda>assigned_ids.
           bindio (stub_targets project_root assigned_ids) (\<lambda>targets.
             if targets = [] then ret assigned_ids
             else bindio (run ([''make'', ''-j'' @ py_str (bt_cpus tools)] @ targets)) (\<lambda>(code, out).
               if code \<noteq> 0 then exit_with 1 else ret assigned_ids))))))"

definition build_flags :: "string list" where
  "build_flags = [''--skip-gen'', ''--verbose'', ''-v'', ''--run-analysis'']"

text \<open>The first positional argument, when it is a configuration file.\<close>

definition build_target :: "string list \<Rightarrow> (string \<Rightarrow> bool) \<Rightarrow> string option" where
  "build_target args is_file = (case filter (\<lambda>a. a \<notin> set build_flags) args of
     [] \<Rightarrow> None
   | candidate # _ \<Rightarrow> if ends_with ''.toml'' candidate \<or> is_file candidate then Some candidate else None)"

definition cmd_build :: "build_tools \<Rightarrow> (bool \<Rightarrow> string \<Rightarrow> (string \<times> tunable list) res) \<Rightarrow> string \<Rightarrow>
    string list \<Rightarrow> unit io" where
  "cmd_build tools load_configs_of project_root args =
     bindio (ask (\<lambda>h es. build_target args (h_exists h es))) (\<lambda>toml_file. case toml_file of
       None \<Rightarrow> exit_with 1
     | Some f \<Rightarrow> bindio (cmd_build_single tools (load_configs_of (''--run-analysis'' \<in> set args)) f
         (''--skip-gen'' \<in> set args) project_root) (\<lambda>_. ret ()))"

section \<open>Building and loading\<close>

definition run_flags :: "string list" where
  "run_flags = [''--skip-gen'', ''--verbose'', ''-v'', ''--jump-opt'']"

text \<open>The mode and the other arguments.\<close>

fun parse_run :: "int \<Rightarrow> string list \<Rightarrow> (int \<times> string list) res" where
  "parse_run mode [] = Inr (mode, [])"
| "parse_run mode [a] = Inr (mode, if a \<in> set run_flags then [] else [a])"
| "parse_run mode (a # b # args) =
     (if a = ''--mode'' then bindr (or_value_error (py_int 10 b)) (\<lambda>m. parse_run m args)
      else bindr (parse_run mode (b # args)) (\<lambda>(m, filtered).
        Inr (m, if a \<in> set run_flags then filtered else a # filtered)))"

definition run_const_ids :: "string list \<Rightarrow> string \<Rightarrow> string list" where
  "run_const_ids config_names text = (case readlines text of
     [] \<Rightarrow> []
   | header_line # lines \<Rightarrow>
       (let (cid_col, name_col) =
              (case (index_of ''ConstID'' (fields_of header_line), index_of ''Name'' (fields_of header_line)) of
                 (Some c, Some n) \<Rightarrow> (c, n) | _ \<Rightarrow> (0, 1))
        in map (\<lambda>fields. fields ! cid_col) (filter (\<lambda>fields. max cid_col name_col < length fields
             \<and> fields ! name_col \<in> set config_names) (map fields_of lines))))"

definition cmd_run :: "build_tools \<Rightarrow> (bool \<Rightarrow> string \<Rightarrow> (string \<times> tunable list) res) \<Rightarrow> string \<Rightarrow> string \<Rightarrow>
    string list \<Rightarrow> unit io" where
  "cmd_run tools load_configs_of jobs project_root args =
     bindio (lift (parse_run 0 args)) (\<lambda>(mode, filtered).
     bindio (ask (\<lambda>h es. h_exists h es)) (\<lambda>is_file. case filtered of
       [] \<Rightarrow> exit_with 1
     | toml_file # _ \<Rightarrow>
         if \<not> ends_with ''.toml'' toml_file \<and> \<not> is_file toml_file then exit_with 1
         else bindio (cmd_build_single tools (load_configs_of False) toml_file
             (''--skip-gen'' \<in> set args) project_root) (\<lambda>_.
           bindio (file_text SCOPE_TABLE) (\<lambda>f. case f of
             None \<Rightarrow> exit_with 1
           | Some text \<Rightarrow> bindio (lift (load_configs_of False toml_file)) (\<lambda>(kernel_dir, configs).
               each (\<lambda>cid. cmd_load jobs project_root ([py_str mode, cid]
                   @ (if ''--jump-opt'' \<in> set args then [''--jump-opt''] else [])))
                 (run_const_ids (map tn_name configs) text))))))"

section \<open>Properties\<close>

subsection \<open>What run loads\<close>

lemma no_name_column: "index_of ''Name'' scope_header = None"
  by code_simp

text \<open>The table has no column of that name, so the second one, the value, is compared with the names.\<close>

lemma run_const_ids_scope:
  assumes "list_all scope_row rows"
  shows "run_const_ids names (scope_text rows) = map (\<lambda>r. r ! 0) (filter (\<lambda>r. r ! 1 \<in> set names) rows)"
proof -
  have f: "map fields_of (map scope_line rows) = rows"
    using assms by (induction rows) (simp_all add: fields_of_line)
  have "filter (\<lambda>r. max 0 1 < length r \<and> r ! 1 \<in> set names) rows = filter (\<lambda>r. r ! 1 \<in> set names) rows"
    using assms by (auto simp: scope_row_def list_all_iff intro: filter_cong)
  then show ?thesis
    unfolding run_const_ids_def readlines_scope [OF assms] list.map list.case
      fields_of_line [OF scope_header_row] header_columns no_name_column option.case prod.case Let_def
      f by simp
qed

text \<open>
  After the build, \<open>run\<close> looks for the tunables' names in the column of the original values; when none of
  them stands there it returns without loading anything, whatever was built.
\<close>

theorem run_loads_nothing:
  assumes "parse_run 0 args = Inr (mode, toml_file # more_args)" "ends_with ''.toml'' toml_file"
    and "cmd_build_single tools (load_configs_of False) toml_file (''--skip-gen'' \<in> set args) project_root h w
      = (w', Inr ids)"
    and "load_configs_of False toml_file = Inr (kernel_dir, configs)"
    and "files w' SCOPE_TABLE = Some (scope_text rows)" "list_all scope_row rows"
    and "\<forall>tn \<in> set configs. \<forall>r \<in> set rows. r ! 1 \<noteq> tn_name tn"
  shows "cmd_run tools load_configs_of jobs project_root args h w = (w', Inr ())"
proof -
  have "filter (\<lambda>r. r ! 1 \<in> set (map tn_name configs)) rows = []"
    using assms(7) by (auto simp: filter_empty_conv)
  then have "run_const_ids (map tn_name configs) (scope_text rows) = []"
    by (simp only: run_const_ids_scope [OF assms(6)] list.map)
  then show ?thesis
    by (simp add: cmd_run_def io_simps assms(1-5))
qed

definition no_diff_tools :: build_tools where
  "no_diff_tools = \<lparr>bt_python = ''python3'', bt_diff_script = ''/x/src/diff.py'', bt_diff = (\<lambda>c. None),
     bt_host = no_host, bt_vmlinux = None, bt_btf = None, bt_cpus = 4\<rparr>"

definition sample_tunable :: "string \<Rightarrow> tunable" where
  "sample_tunable name = \<lparr>tn_name = name, tn_file = ''a.c'', tn_original = ''x = 5;'',
     tn_modified = (''x = 6;'', ''x = 7;''), tn_values = (5, 6, 7), tn_lines = None, tn_safe_spans = []\<rparr>"

lemma gen_fails: "gen_single no_diff_tools dir kd tn cid h w = (w, Inr False)"
  by (simp add: gen_single_def generate_bb_files_single_def no_diff_tools_def io_simps)

definition sample_scope :: "string list list" where
  "sample_scope = [[''1'', ''5'', ''IV = V'', ''1'', ''1'', ''xtune_stub_1.bpf.o'', ''ready'', []]]"

definition build_world :: world where
  "build_world = \<lparr>events = [], files = [SCOPE_TABLE \<mapsto> scope_text sample_scope]\<rparr>"

definition quiet_host :: env where
  "quiet_host = \<lparr>h_run = (\<lambda>es c. (0, [])), h_exists = (\<lambda>es p. True), h_listdir = (\<lambda>es p. []),
    h_unremovable = (\<lambda>es p. False), h_bpftool = [], h_late = (\<lambda>es. False)\<rparr>"

lemma build_world_simps:
  "files build_world SCOPE_TABLE = Some (scope_text sample_scope)"
  "build_world\<lparr>files := (files build_world)(SCOPE_TABLE \<mapsto> scope_text sample_scope)\<rparr> = build_world"
  "files build_world (stub_path ''/x'' cid e) = None"
  by (simp_all add: build_world_def stub_path_def path_join_def SCOPE_TABLE_def stub_file_def ends_with_def)

theorem run_loads_nothing_witness:
  "cmd_run no_diff_tools (\<lambda>a f. Inr (''/src'', [sample_tunable ''beta''])) ''4'' ''/x'' [''b.toml''] quiet_host build_world
    = (build_world, Inr ())"
proof -
  have "build_each no_diff_tools False ''/x'' ''/src'' [sample_tunable ''beta''] quiet_host build_world =
      (build_world, Inr [(''beta'', next_const_id (Some (scope_text sample_scope)))])"
    by (simp add: io_simps next_id_def build_tunable_def gen_fails build_world_simps init_table_def sample_tunable_def)
  then have "cmd_build_single no_diff_tools (\<lambda>f. Inr (''/src'', [sample_tunable ''beta''])) ''b.toml'' False ''/x''
      quiet_host build_world = (build_world, Inr [(''beta'', next_const_id (Some (scope_text sample_scope)))])"
    by (simp add: cmd_build_single_def io_simps build_world_simps) (simp add: quiet_host_def)
  then show ?thesis
    by (intro run_loads_nothing [where mode = 0 and more_args = "[]" and kernel_dir = "''/src''"
        and configs = "[sample_tunable ''beta'']" and rows = sample_scope])
      (simp_all add: run_flags_def ends_with_iff build_world_simps sample_scope_def scope_row_def sample_tunable_def)
qed

subsection \<open>The numbers of the tunables\<close>

lemma last_path_join: "b \<noteq> [] \<Longrightarrow> last (path_join a b) = last b"
  by (simp add: path_join_def)

lemma bb_file_not_scope: "path_join d (bb_file_name cid v) \<noteq> SCOPE_TABLE"
proof -
  have "last (path_join d (bb_file_name cid v)) = CHR ''t''"
    by (simp add: last_path_join bb_file_name_def)
  then show ?thesis by (auto simp: SCOPE_TABLE_def)
qed

lemma written_names: "(n, t) \<in> set (fst (generate_bb_files_single run_diff command a b cid)) \<Longrightarrow>
    \<exists>v. n = bb_file_name cid v"
  by (auto simp: generate_bb_files_single_def Let_def split: option.splits if_splits prod.splits)

lemma gen_single_scope: "untouched.keeps SCOPE_TABLE (gen_single tools project_root kd tn cid)"
proof -
  have w: "untouched.keeps SCOPE_TABLE (each (\<lambda>(name, text). write_file (path_join d name) text) ps)"
    if "\<And>n t. (n, t) \<in> set ps \<Longrightarrow> \<exists>v. n = bb_file_name cid v" for d ps
    using that
  proof (induction ps)
    case (Cons p ps)
    then obtain v t where "p = (bb_file_name cid v, t)" by (cases p) auto
    with Cons bb_file_not_scope show ?case
      by (auto intro!: untouched.keeps_seqio untouched_write)
  qed (simp add: untouched.keeps_basic)
  show ?thesis
    unfolding gen_single_def
    using written_names w by (auto simp: Let_def split: prod.splits
        intro!: untouched.keeps_seqio untouched.keeps_basic w) (metis fst_conv)
qed

lemma next_id_init: "next_const_id (Some (init_table scope_header f)) = next_const_id f"
  by (simp add: next_const_id_def init_table_def)

definition scope_made :: "world \<Rightarrow> world" where
  "scope_made w = w\<lparr>files := (files w)(SCOPE_TABLE \<mapsto> init_table scope_header (files w SCOPE_TABLE))\<rparr>"

lemma next_id_run: "next_id h w = (scope_made w, Inr (next_const_id (files w SCOPE_TABLE)))"
  by (simp add: next_id_def io_simps scope_made_def)

lemma build_each_step:
  "build_each tools skip project_root kd (tn # tns) h w = (w', Inr ids) \<Longrightarrow>
    \<exists>w1 rest. build_tunable tools skip project_root kd tn (next_const_id (files w SCOPE_TABLE)) h (scope_made w) = (w1, Inr ()) \<and>
      build_each tools skip project_root kd tns h w1 = (w', Inr rest) \<and>
      ids = (tn_name tn, next_const_id (files w SCOPE_TABLE)) # rest"
  by (auto simp: io_simps next_id_run split: prod.splits sum.splits)

text \<open>
  C24: when the basic blocks of a tunable cannot be generated, its number is not taken back from the list of
  the build, and the next tunable is given the same number.
\<close>

theorem failed_tunable_shares_id:
  assumes "\<not> snd (generate_bb_files_single (bt_diff tools) (diff_command tools kd tn1)
      (fst (tn_modified tn1)) (snd (tn_modified tn1)) (next_const_id (files w SCOPE_TABLE)))"
    and "build_each tools False project_root kd (tn1 # tn2 # tns) h w = (w', Inr ids)"
  shows "\<exists>rest. ids = (tn_name tn1, next_const_id (files w SCOPE_TABLE)) #
    (tn_name tn2, next_const_id (files w SCOPE_TABLE)) # rest"
proof -
  let ?c = "next_const_id (files w SCOPE_TABLE)"
  obtain w1 ids1 where 1: "build_tunable tools False project_root kd tn1 ?c h (scope_made w) = (w1, Inr ())"
    "build_each tools False project_root kd (tn2 # tns) h w1 = (w', Inr ids1)" "ids = (tn_name tn1, ?c) # ids1"
    using build_each_step [OF assms(2)] by blast
  obtain w2 r where g: "gen_single tools project_root kd tn1 ?c h (scope_made w) = (w2, r)" by force
  have "r = Inr False \<or> (\<exists>e. r = Inl e)"
    using assms(1) g by (auto simp: gen_single_def Let_def io_simps split: prod.splits sum.splits)
  then have "w2 = w1"
    using g 1(1) by (auto simp: build_tunable_def io_simps)
  then have "same_file SCOPE_TABLE (scope_made w) w1"
    using untouched.keeps_result [OF gen_single_scope g] by simp
  then have "Some (init_table scope_header (files w SCOPE_TABLE)) = files w1 SCOPE_TABLE"
    by (simp add: same_file_def scope_made_def)
  from this [symmetric] have "next_const_id (files w1 SCOPE_TABLE) = ?c" by (simp add: next_id_init)
  with build_each_step [OF 1(2)] 1(3) show ?thesis by auto
qed

theorem failed_tunable_shares_id_witness:
  "\<exists>c. build_each no_diff_tools False ''/x'' ''/src'' [sample_tunable ''a'', sample_tunable ''b''] quiet_host build_world
    = (build_world, Inr [(''a'', c), (''b'', c)])"
proof -
  let ?c = "next_const_id (Some (scope_text sample_scope))"
  have b: "build_each no_diff_tools False ''/x'' ''/src'' [sample_tunable ''a'', sample_tunable ''b''] quiet_host build_world
    = (build_world, Inr [(''a'', ?c), (''b'', ?c)])"
    by (simp add: io_simps next_id_run scope_made_def build_tunable_def gen_fails build_world_simps init_table_def sample_tunable_def)
  have "\<not> snd (generate_bb_files_single (bt_diff no_diff_tools) c x y z)" for c x y z
    by (simp add: no_diff_tools_def generate_bb_files_single_def)
  from failed_tunable_shares_id [OF this b] b show ?thesis by auto
qed

text \<open>Skipping the generation leaves the new number without basic blocks: no stub is written.\<close>

lemma skip_gen_writes_no_stub:
  assumes "files w (bb_path project_root cid ''v1'') = None"
  shows "build_tunable tools True project_root kd tn cid h w =
    put_tables (remove_constid_entries (py_str cid) (init_all_tables (tables_of w))) h w"
  using assms by (simp add: build_tunable_def codegen_single_def get_tables_def run_codegen_single_def Let_def
      write_stub_def io_simps put_tables_def)

end
