(* ===== verification/Cli_Commands.thy ===== *)
theory Cli_Commands
  imports Lifecycle Lifecycle_Inv
begin

text \<open>
  The smaller commands of \<open>src/src/cli.py\<close> (status, clean, transition statistics) and the
  loader's own entry point with the spans shared by all constants (\<open>src/src/loader.py\<close>).
\<close>

section \<open>The standalone loader\<close>

text \<open>The maps are addressed by name; a failed update is only warned about.\<close>

definition update_map_by_name :: "string \<Rightarrow> string \<Rightarrow> string \<Rightarrow> unit io" where
  "update_map_by_name name key_hex val_hex =
     bindio (sudo_bpftool_cmd ([''map'', ''update'', ''name'', name, ''key'', ''hex''] @ split_ws key_hex
       @ [''value'', ''hex''] @ split_ws val_hex)) run_ignored"

definition update_named_span :: "nat \<times> int \<times> int \<Rightarrow> unit io" where
  "update_named_span = (\<lambda>(i, soff, eoff).
     bindio (lift (pack_le 4 (int i))) (\<lambda>key_bytes.
     bindio (lift (pack_le 8 soff)) (\<lambda>s.
     bindio (lift (pack_le 8 eoff)) (\<lambda>e.
     update_map_by_name ''cs_map'' (hex_text key_bytes) (hex_text (s @ e))))))"

definition load_critical_spans :: "string \<Rightarrow> unit io" where
  "load_critical_spans cs_path = bindio (file_text cs_path) (\<lambda>f. case f of
     None \<Rightarrow> ret ()
   | Some text \<Rightarrow>
       if span_lines text = [] then ret ()
       else bindio (lift (parse_spans (span_lines text))) (\<lambda>parsed.
         let spans = sort_spans parsed
         in bindio (lift (pack_le 4 (int (length spans)))) (\<lambda>val_bytes.
            seqio (update_map_by_name ''.bss.cs_len'' zero_key (hex_text val_bytes))
              (each update_named_span (enumerate 0 spans)))))"

text \<open>The arguments have been parsed: the value of \<open>--files\<close> and whether \<open>--pin\<close> was given.\<close>

definition main_loader :: "string \<Rightarrow> string \<Rightarrow> bool \<Rightarrow> unit io" where
  "main_loader project_root files_arg pin =
     (let bpf_dir = path_join project_root ''bpf'' in
      seqio (generate_cs_artifact_header CS_PATH (path_join bpf_dir ''cs_artifact.bpf.h''))
      (bindio (compile_bpf_programs bpf_dir) (\<lambda>_.
       bindio (load_and_attach (filter (\<lambda>f. f \<noteq> []) (map py_strip (split_on (CHR '','') files_arg))) pin) (\<lambda>code.
         if code \<noteq> 0 then exit_with code else load_critical_spans CS_PATH))))"

section \<open>Status\<close>

text \<open>
  The rows of the listing: the constant, the name of its mode, the recorded file and status. How a
  value that is no string is printed is not modelled.
\<close>

definition mode_text :: "json \<Rightarrow> string res" where
  "mode_text mode = (if \<not> hashable mode then Inl TypeError
     else if mode_is 0 mode then Inr ''Immediate'' else if mode_is 1 mode then Inr ''Per-task''
     else if mode_is 2 mode then Inr ''Global'' else Inr ''Unknown'')"

definition status_row :: "string \<times> json \<Rightarrow> (string \<times> string \<times> json \<times> json) res" where
  "status_row e = (case e of (cid, info) \<Rightarrow>
     bindr (get_item info ''mode'' (JInt (- 1))) (\<lambda>mode.
     bindr (mode_text mode) (\<lambda>mode_str.
     bindr (get_item info ''bpf_file'' (JStr ''?'')) (\<lambda>bpf_file.
     bindr (get_item info ''status'' (JStr ''?'')) (\<lambda>status.
       Inr (cid, mode_str, bpf_file, status))))))"

definition with_number :: "string \<times> json \<Rightarrow> (int \<times> string \<times> json) res" where
  "with_number e = bindr (or_value_error (py_int 10 (fst e))) (\<lambda>n. Inr (n, e))"

definition status_rows :: "json \<Rightarrow> (string \<times> string \<times> json \<times> json) list res" where
  "status_rows active =
     (if \<not> json_truthy active then Inr []
      else case active of
        JObj d \<Rightarrow> bindr (mapr with_number d) (\<lambda>numbered. mapr status_row (map snd (sort_key fst numbered)))
      | JArr xs \<Rightarrow> Inl AttributeError
      | JStr s \<Rightarrow> Inl AttributeError
      | _ \<Rightarrow> Inl TypeError)"

definition cmd_status :: "(bool \<times> (string \<times> string \<times> json \<times> json) list) io" where
  "cmd_status =
     bindio get_runtime_state (\<lambda>state.
     bindio (lift (active_ids_of state)) (\<lambda>active.
     bindio is_kfuncs_loaded (\<lambda>kfuncs_loaded.
     bindio (lift (status_rows active)) (\<lambda>rows. ret (kfuncs_loaded, rows)))))"

section \<open>Cleaning up\<close>

text \<open>
  A directory is removed with everything below it; one that this user cannot remove is left to
  \<open>sudo rm\<close>, whose effect is outside the model.
\<close>

definition below :: "string \<Rightarrow> string \<Rightarrow> bool" where
  "below d p = starts_with (d @ ''/'') p"

definition drop_tree :: "string \<Rightarrow> unit io" where
  "drop_tree d = (\<lambda>h w. (w\<lparr>files := (\<lambda>p. if below d p then None else files w p)\<rparr>, Inr ()))"

definition rmtree :: "string \<Rightarrow> unit io" where
  "rmtree d = bindio (ask (\<lambda>h es. h_unremovable h es d)) (\<lambda>denied.
     if denied then raise PermissionError else drop_tree d)"

definition remove_path :: "string \<Rightarrow> unit io" where
  "remove_path p = bindio (ask (\<lambda>h es. h_unremovable h es p)) (\<lambda>denied.
     if denied then raise PermissionError else remove_file p)"

text \<open>\<open>except PermissionError\<close>\<close>

definition or_denied :: "'a io \<Rightarrow> 'a io \<Rightarrow> 'a io" where
  "or_denied m n = (\<lambda>h w. case m h w of (w', Inl PermissionError) \<Rightarrow> n h w' | r \<Rightarrow> r)"

definition is_dir :: "string \<Rightarrow> bool io" where
  "is_dir d = ask (\<lambda>h es. h_exists h es d)"

definition shm_dir :: string where "shm_dir = ''/dev/shm/xkernel''"

definition clean_shm :: "string list io" where
  "clean_shm = bindio (is_dir shm_dir) (\<lambda>present.
     if \<not> present then ret []
     else or_denied (seqio (rmtree shm_dir) (ret [shm_dir]))
       (seqio (run_ignored [''sudo'', ''rm'', ''-rf'', shm_dir]) (ret [shm_dir @ '' (sudo)''])))"

definition clean_pins :: "string list io" where
  "clean_pins = bindio (is_dir BPF_PIN_BASE) (\<lambda>present.
     if \<not> present then ret []
     else seqio (run_ignored [''sudo'', ''rm'', ''-rf'', BPF_PIN_BASE]) (ret [BPF_PIN_BASE @ '' (sudo)'']))"

definition dir_list :: "string \<Rightarrow> string list io" where
  "dir_list d = ask (\<lambda>h es. if h_exists h es d then h_listdir h es d else [])"

fun clean_objects :: "string \<Rightarrow> string list \<Rightarrow> string list io" where
  "clean_objects stubs_dir [] = ret []"
| "clean_objects stubs_dir (f # fs) =
     (if \<not> ends_with ''.bpf.o'' f then clean_objects stubs_dir fs
      else let path = path_join stubs_dir f
        in seqio (or_denied (remove_path path) (run_ignored [''sudo'', ''rm'', ''-f'', path]))
             (bindio (clean_objects stubs_dir fs) (\<lambda>removed. ret ((''bpf/stubs/'' @ f) # removed))))"

definition clean_cache :: "string \<Rightarrow> string list io" where
  "clean_cache bb_dir = bindio (is_dir bb_dir) (\<lambda>present.
     if present then seqio (rmtree bb_dir) (ret [''bb_cache/'']) else ret [])"

fun clean_stubs :: "string \<Rightarrow> string list \<Rightarrow> string list io" where
  "clean_stubs stubs_dir [] = ret []"
| "clean_stubs stubs_dir (f # fs) =
     (if \<not> ends_with ''.bpf.c'' f \<and> \<not> ends_with ''.bpf.h'' f then clean_stubs stubs_dir fs
      else seqio (remove_path (path_join stubs_dir f))
             (bindio (clean_stubs stubs_dir fs) (\<lambda>removed. ret ((''bpf/stubs/'' @ f) # removed))))"

fun clean_modules :: "string \<Rightarrow> string list \<Rightarrow> string list io" where
  "clean_modules project_root [] = ret []"
| "clean_modules project_root (mod_dir # mod_dirs) =
     bindio (is_dir (path_join (path_join project_root ''kernel'') mod_dir)) (\<lambda>present.
       if \<not> present then clean_modules project_root mod_dirs
       else seqio (run_ignored [''make'', ''clean''])
         (bindio (clean_modules project_root mod_dirs) (\<lambda>removed.
           ret ((''kernel/'' @ mod_dir @ ''/ (make clean)'') # removed))))"

definition clean_generated :: "string \<Rightarrow> string list io" where
  "clean_generated project_root =
     (let bpf_dir = path_join project_root ''bpf''; stubs_dir = path_join bpf_dir ''stubs'';
          cs_artifact = path_join bpf_dir ''cs_artifact.bpf.h'' in
      bindio (dir_list stubs_dir) (\<lambda>fs.
      bindio (clean_stubs stubs_dir fs) (\<lambda>a.
      bindio (file_text cs_artifact) (\<lambda>f.
      bindio (if f = None then ret [] else seqio (remove_path cs_artifact) (ret [''bpf/cs_artifact.bpf.h''])) (\<lambda>b.
      bindio (clean_modules project_root [''kfuncs'', ''consistency'']) (\<lambda>c. ret (a @ b @ c)))))))"

text \<open>What was removed, in order.\<close>

definition cmd_clean :: "string \<Rightarrow> string list \<Rightarrow> string list io" where
  "cmd_clean project_root args =
     (let stubs_dir = path_join (path_join project_root ''bpf'') ''stubs'' in
      bindio clean_shm (\<lambda>a.
      bindio clean_pins (\<lambda>b.
      bindio (dir_list stubs_dir) (\<lambda>fs.
      bindio (clean_objects stubs_dir fs) (\<lambda>c.
      bindio (clean_cache (path_join project_root ''bb_cache'')) (\<lambda>d.
      bindio (if ''--all'' \<in> set args then clean_generated project_root else ret []) (\<lambda>e.
        ret (a @ b @ c @ d @ e))))))))"

section \<open>Transition statistics\<close>

text \<open>The figures of the report; how they are printed in micro- and milliseconds is not modelled.\<close>

datatype stats_report =
    No_Timing
  | Timing string string string string
  | Map_Unreadable
  | Not_Json
  | Map_Empty
  | Unexpected_Format
  | Short_Value nat
  | No_Transition
  | Latencies int int int int int
  | Immediate_Mode

definition TIMING_FILE :: string where "TIMING_FILE = ''/dev/shm/xkernel/transition_timing''"

text \<open>The lines \<open>key=value\<close>; a later line wins.\<close>

fun timing_data :: "string list \<Rightarrow> (string, string) dict \<Rightarrow> (string, string) dict" where
  "timing_data [] data = data"
| "timing_data (line # lines) data =
     timing_data lines (case find_char (CHR ''='') (py_strip line) of
       None \<Rightarrow> data
     | Some i \<Rightarrow> dput (py_strip (take i (py_strip line))) (py_strip (drop (Suc i) (py_strip line))) data)"

definition timing_report :: "string \<Rightarrow> stats_report" where
  "timing_report text = (let data = timing_data (readlines text) [] in
     Timing (dget data ''direction'' ''forward'') (dget data ''elapsed_us'' ''N/A'')
       (dget data ''start_ns'' ''0'') (dget data ''end_ns'' ''0''))"

text \<open>The value of the map's entry in the formats \<open>bpftool\<close> has; \<open>JNull\<close> stands for none.\<close>

definition entry_raw :: "json \<Rightarrow> json" where
  "entry_raw entry = (case entry of
     JObj d \<Rightarrow> (case dget d ''value'' (JObj []) of
         JObj v \<Rightarrow> dget v ''bytes'' JNull
       | JArr xs \<Rightarrow> JArr xs
       | _ \<Rightarrow> JNull)
   | JArr xs \<Rightarrow> (case if 2 \<le> length xs then last xs else JArr xs of JArr ys \<Rightarrow> JArr ys | _ \<Rightarrow> JNull)
   | _ \<Rightarrow> JNull)"

definition in_byte :: "int \<Rightarrow> 8 word res" where
  "in_byte b = (if 0 \<le> b \<and> b < 256 then Inr (word_of_int b) else Inl ValueError)"

definition hex_byte :: "json \<Rightarrow> 8 word res" where
  "hex_byte x = (case x of JStr s \<Rightarrow> bindr (or_value_error (py_int 16 s)) in_byte | _ \<Rightarrow> Inl TypeError)"

definition int_byte :: "json \<Rightarrow> 8 word res" where
  "int_byte x = (case x of
     JInt i \<Rightarrow> in_byte i
   | JBool b \<Rightarrow> in_byte (if b then 1 else 0)
   | _ \<Rightarrow> Inl TypeError)"

text \<open>\<open>bytes(...)\<close> of a list, or of another value: an empty one, or an error.\<close>

definition value_bytes :: "json \<Rightarrow> 8 word list res" where
  "value_bytes raw = (case raw of
     JArr (JStr s # xs) \<Rightarrow> mapr hex_byte (JStr s # xs)
   | JArr xs \<Rightarrow> mapr int_byte xs
   | JStr s \<Rightarrow> if s = [] then Inl TypeError else mapr hex_byte (map (\<lambda>c. JStr [c]) s)
   | JObj d \<Rightarrow> if d = [] then Inr [] else Inl KeyError
   | JInt n \<Rightarrow> if n = 0 then Inr [] else Inl TypeError
   | JBool b \<Rightarrow> if b then Inl TypeError else Inr []
   | _ \<Rightarrow> Inl TypeError)"

definition u64_at :: "nat \<Rightarrow> 8 word list \<Rightarrow> int" where
  "u64_at i bs = le_value (take 8 (drop (8 * i) bs))"

definition latency_report :: "8 word list \<Rightarrow> stats_report" where
  "latency_report bs =
     (if length bs < 32 then Short_Value (length bs)
      else let min_ns = u64_at 0 bs; max_ns = u64_at 1 bs; total_ns = u64_at 2 bs; count = u64_at 3 bs
        in if count = 0 then No_Transition
           else Latencies count min_ns max_ns (total_ns div count) total_ns)"

definition map_report :: "int \<times> string \<Rightarrow> stats_report res" where
  "map_report result =
     (if fst result \<noteq> 0 \<or> py_strip (snd result) = [] then Inr Map_Unreadable
      else case json_loads (snd result) of
        None \<Rightarrow> Inr Not_Json
      | Some entries \<Rightarrow>
          if \<not> json_truthy entries then Inr Map_Empty
          else bindr (first_entry entries) (\<lambda>entry.
            if entry_raw entry = JNull then Inr Unexpected_Format
            else bindr (value_bytes (entry_raw entry)) (\<lambda>bs. Inr (latency_report bs))))"

definition cmd_transition_stats :: "string list \<Rightarrow> stats_report io" where
  "cmd_transition_stats args = (case args of
     [] \<Rightarrow> exit_with 1
   | const_id # _ \<Rightarrow>
       bindio get_runtime_state (\<lambda>state.
       bindio (lift (bindr (active_ids_of state) (\<lambda>a. get_item a const_id JNull))) (\<lambda>entry.
         if \<not> json_truthy entry then exit_with 1
         else bindio (lift (get_item entry ''mode'' (JInt (- 1)))) (\<lambda>mode.
           if \<not> hashable mode then raise TypeError
           else if mode_is 2 mode then bindio (file_text TIMING_FILE) (\<lambda>f.
             ret (case f of None \<Rightarrow> No_Timing | Some text \<Rightarrow> timing_report text))
           else if mode_is 1 mode then
             bindio (run [''sudo'', ''bpftool'', ''-j'', ''map'', ''dump'', ''name'', ''transition_stat'']) (\<lambda>result.
               lift (map_report result))
           else ret Immediate_Mode))))"

section \<open>Properties\<close>

subsection \<open>Statistics as the kernel keeps them\<close>

lemma hex_byte_hex2: "hex_byte (JStr (''0x'' @ hex2 b)) = Inr b"
proof -
  have "uint b < 2 ^ LENGTH(8)" by (rule unsigned_less)
  then show ?thesis using py_int_hex2 [of b] by (simp add: hex_byte_def in_byte_def)
qed

definition hex_values :: "8 word list \<Rightarrow> json list" where
  "hex_values bs = map (\<lambda>b. JStr (''0x'' @ hex2 b)) bs"

lemma value_bytes_hex: "value_bytes (JArr (hex_values bs)) = Inr bs"
proof -
  have "mapr hex_byte (hex_values bs) = Inr bs" for bs
    by (induction bs) (simp_all add: hex_values_def hex_byte_hex2 [simplified])
  from this [of bs] show ?thesis by (cases bs) (simp_all add: value_bytes_def hex_values_def)
qed

lemma u64_values:
  assumes "u64 a" "u64 b" "u64 c" "u64 d"
  shows "latency_report (le_bytes 8 a @ le_bytes 8 b @ le_bytes 8 c @ le_bytes 8 d) =
    (if d = 0 then No_Transition else Latencies d a b (c div d) c)"
  using assms by (simp add: latency_report_def u64_at_def u64_def le_value_le_bytes Let_def)

lemma hex2_ascii: "c \<in> set (hex2 b) \<Longrightarrow> of_char c < (128 :: nat)"
proof -
  assume "c \<in> set (hex2 b)"
  then have "c = digc (unat b div 16) \<or> c = digc (unat b mod 16)" by (simp add: hex2_def)
  moreover have "unat b div 16 < 16" "unat b mod 16 < 16" using unat_byte [of b] by simp_all
  ultimately obtain n where "n < 16" "c = digc n" by blast
  then show ?thesis by (simp add: of_char_digc)
qed

lemma strip_nonempty:
  assumes "c \<in> set s" "\<not> is_space c"
  shows "py_strip s \<noteq> []"
proof -
  have "c \<in> set (takeWhile is_space s) \<or> c \<in> set (dropWhile is_space s)"
    using assms(1) by (metis Un_iff set_append takeWhile_dropWhile_id)
  then have "c \<in> set (dropWhile is_space s)" using assms(2) by (auto dest: set_takeWhileD)
  then show ?thesis using assms(2)
    by (auto simp: py_strip_def lstrip_by_def rstrip_by_def dropWhile_eq_Nil_conv)
qed

text \<open>The ways \<open>bpftool\<close> writes an entry with a key and the value's bytes in hexadecimal.\<close>

definition entry_formats :: "json \<Rightarrow> 8 word list \<Rightarrow> json list" where
  "entry_formats key bs =
     [JObj [(''key'', key), (''value'', JArr (hex_values bs))],
      JObj [(''key'', key), (''value'', JObj [(''bytes'', JArr (hex_values bs))])],
      JArr [key, JArr (hex_values bs)]]"

text \<open>
  C15: the statistics the kernel keeps as four 64-bit numbers are reported as they are, with their mean, for
  every format of the dump; nothing is divided by a count of zero.
\<close>

theorem statistics_reported:
  assumes "u64 min_ns" "u64 max_ns" "u64 total_ns" "u64 tasks"
    and "json_loads out = Some (JArr (entry # es))" "py_strip out \<noteq> []"
    and "entry \<in> set (entry_formats key (le_bytes 8 min_ns @ le_bytes 8 max_ns @ le_bytes 8 total_ns @ le_bytes 8 tasks))"
  shows "map_report (0, out) = Inr (if tasks = 0 then No_Transition
    else Latencies tasks min_ns max_ns (total_ns div tasks) total_ns)"
proof -
  let ?bs = "le_bytes 8 min_ns @ le_bytes 8 max_ns @ le_bytes 8 total_ns @ le_bytes 8 tasks"
  have "entry_raw entry = JArr (hex_values ?bs)"
    using assms(7) by (auto simp: entry_formats_def entry_raw_def dget_def)
  then show ?thesis
    using value_bytes_hex [of ?bs] u64_values [OF assms(1-4)] assms(5,6)
    by (simp add: map_report_def first_entry_def)
qed

theorem statistics_reported_witness:
  "\<exists>out. map_report (0, out) = Inr (Latencies 4 250 900 500 2000) \<and> py_strip out \<noteq> []"
proof -
  let ?bs = "le_bytes 8 250 @ le_bytes 8 900 @ le_bytes 8 2000 @ le_bytes 8 4"
  let ?entry = "JArr [JArr [JStr ''0x00''], JArr (hex_values ?bs)]"
  let ?out = "json_dumps 0 (JArr [?entry])"
  have "json_plain (JArr (hex_values bs))" for bs
    using hex2_ascii by (auto simp: hex_values_def list_all_iff ascii_def)
  then have "json_plain (JArr [?entry])" by (simp add: ascii_def)
  from json_loads_dumps [OF this] have j: "json_loads ?out = Some (JArr [?entry])" .
  have "CHR ''['' \<in> set ?out" by (simp add: json_dumps_def)
  then have o: "py_strip ?out \<noteq> []" using strip_nonempty [of "CHR ''[''" ?out] by (simp add: is_space_def)
  have "map_report (0, ?out) = Inr (if (4::int) = 0 then No_Transition else Latencies 4 250 900 (2000 div 4) 2000)"
    by (rule statistics_reported [OF _ _ _ _ j o]) (simp_all add: u64_def entry_formats_def)
  with o show ?thesis by auto
qed

subsection \<open>What cleaning up leaves\<close>

definition quiet_env :: env where
  "quiet_env = \<lparr>h_run = (\<lambda>es c. (0, [])), h_exists = (\<lambda>es p. True), h_listdir = (\<lambda>es p. []),
     h_unremovable = (\<lambda>es p. False), h_bpftool = [], h_late = (\<lambda>es. False)\<rparr>"

text \<open>Nothing is created: the contract of every step.\<close>

definition only_removes :: "world \<Rightarrow> world \<Rightarrow> bool" where
  "only_removes a b \<longleftrightarrow> (\<forall>p. files a p = None \<longrightarrow> files b p = None)"

context io_contract
begin

lemma keeps_or_denied: "keeps m \<Longrightarrow> keeps n \<Longrightarrow> keeps (or_denied m n)"
  unfolding keeps_def or_denied_def
  by (auto split: prod.splits sum.splits py_error.splits) (metis fst_conv rel_trans)+

end

interpretation removal: io_contract only_removes
  by unfold_locales (auto simp: only_removes_def)

lemma removal_basic: "removal.keeps (remove_file p)" "removal.keeps (drop_tree d)"
  by (simp_all add: removal.keeps_def only_removes_def io_simps drop_tree_def)

lemma untouched_tree: "\<not> below d q \<Longrightarrow> untouched.keeps q (drop_tree d)"
  by (simp add: untouched.keeps_def same_file_def drop_tree_def)

lemma removal_steps: "removal.keeps (rmtree d)" "removal.keeps (remove_path p)" "removal.keeps clean_pins"
  "removal.keeps clean_shm" "removal.keeps (clean_cache bb)" "removal.keeps (dir_list d)"
  unfolding rmtree_def remove_path_def clean_pins_def clean_shm_def clean_cache_def is_dir_def dir_list_def
  by (intro removal.keeps_intros removal.keeps_or_denied removal_basic)+

lemma removal_lists: "removal.keeps (clean_objects d fs)" "removal.keeps (clean_stubs d fs)"
  "removal.keeps (clean_modules root_dir ms)"
proof -
  show "removal.keeps (clean_objects d fs)"
    by (induction fs) (auto simp: Let_def intro!: removal.keeps_intros removal.keeps_or_denied removal_steps)
  show "removal.keeps (clean_stubs d fs)"
    by (induction fs) (auto intro!: removal.keeps_intros removal_steps)
  show "removal.keeps (clean_modules root_dir ms)"
    by (induction ms) (auto simp: is_dir_def intro!: removal.keeps_intros)
qed

lemma removal_generated: "removal.keeps (clean_generated project_root)"
  unfolding clean_generated_def Let_def
  by (intro removal.keeps_intros removal_steps removal_lists)

lemma removal_clean: "removal.keeps (cmd_clean project_root args)"
  unfolding cmd_clean_def Let_def
  by (intro removal.keeps_intros removal_steps removal_lists removal_generated)

lemma clean_shm_run: "h_exists h (events w) shm_dir \<Longrightarrow> \<not> h_unremovable h (events w) shm_dir \<Longrightarrow>
    clean_shm h w = (fst (drop_tree shm_dir h w), Inr [shm_dir])"
  by (simp add: clean_shm_def is_dir_def io_simps or_denied_def rmtree_def drop_tree_def)

lemma clean_forgets:
  assumes "h_exists h (events w) shm_dir" "\<not> h_unremovable h (events w) shm_dir"
    and "below shm_dir p"
  shows "files (fst (cmd_clean project_root args h w)) p = None"
proof -
  let ?w = "fst (drop_tree shm_dir h w)"
  obtain f where f: "cmd_clean project_root args = bindio clean_shm f" "removal.keeps (f [shm_dir])"
  proof
    show "cmd_clean project_root args = bindio clean_shm (\<lambda>a. bindio clean_pins (\<lambda>b.
      bindio (dir_list (path_join (path_join project_root ''bpf'') ''stubs'')) (\<lambda>fs.
      bindio (clean_objects (path_join (path_join project_root ''bpf'') ''stubs'') fs) (\<lambda>c.
      bindio (clean_cache (path_join project_root ''bb_cache'')) (\<lambda>d.
      bindio (if ''--all'' \<in> set args then clean_generated project_root else ret []) (\<lambda>e.
        ret (a @ b @ c @ d @ e)))))))"
      by (simp only: cmd_clean_def Let_def)
  qed (intro removal.keeps_intros removal_steps removal_lists removal_generated)
  have "only_removes ?w (fst (f [shm_dir] h ?w))"
    using removal.keepsD [OF f(2)] .
  moreover have "files ?w p = None" using assms(3) by (simp add: drop_tree_def)
  ultimately show ?thesis
    by (simp add: f(1) io_simps clean_shm_run [OF assms(1,2)] only_removes_def)
qed

text \<open>
  C31: cleaning up, with or without its option and whatever else goes wrong, leaves no file of the
  runtime directory that its user may remove: runtime state and all tables are gone.
\<close>

theorem clean_forgets_state:
  assumes "h_exists h (events w) shm_dir" "\<not> h_unremovable h (events w) shm_dir"
    and "below shm_dir p"
  shows "files (fst (cmd_clean project_root args h w)) p = None"
  by (rule clean_forgets [OF assms])

theorem clean_forgets_state_witness:
  "files (fst (cmd_clean ''/x'' [''--all''] quiet_env
     \<lparr>events = [], files = [SCOPE_TABLE \<mapsto> ''ConstID'']\<rparr>)) SCOPE_TABLE = None"
  by (rule clean_forgets_state) (simp_all add: quiet_env_def below_def shm_dir_def SCOPE_TABLE_def)

lemma ends_with_join: "ends_with e f \<Longrightarrow> ends_with e (path_join d f)"
  by (auto simp: ends_with_iff path_join_def)

lemma untouched_objects:
  assumes "\<not> ends_with ''.bpf.o'' q"
  shows "untouched.keeps q (clean_objects d fs)"
proof (induction fs)
  case (Cons f fs)
  have "path_join d f \<noteq> q" if "ends_with ''.bpf.o'' f"
    using ends_with_join [OF that, of d] assms by auto
  with Cons show ?case
    by (auto simp: Let_def remove_path_def intro!: untouched.keeps_intros untouched.keeps_or_denied untouched_remove)
qed (simp add: untouched.keeps_basic)

text \<open>
  Without \<open>--all\<close> no file is touched but those of the runtime directory, the cached basic blocks and the
  compiled objects: the policies that were edited stay.
\<close>

theorem clean_keeps_policies:
  assumes "''--all'' \<notin> set args" "\<not> below shm_dir q" "\<not> below (path_join project_root ''bb_cache'') q"
    and "\<not> ends_with ''.bpf.o'' q"
  shows "files (fst (cmd_clean project_root args h w)) q = files w q"
proof -
  have "untouched.keeps q (cmd_clean project_root args)"
    unfolding cmd_clean_def Let_def clean_shm_def clean_pins_def clean_cache_def is_dir_def dir_list_def rmtree_def
    using assms by (intro untouched.keeps_intros untouched.keeps_or_denied untouched_tree untouched_objects) auto
  then show ?thesis
    using untouched.keepsD by (metis same_file_def)
qed

theorem clean_keeps_policies_witness:
  "files (fst (cmd_clean ''/x'' [] quiet_env
     \<lparr>events = [], files = [''/x/bpf/stubs/xtune_stub_1.bpf.c'' \<mapsto> ''edited'']\<rparr>)) ''/x/bpf/stubs/xtune_stub_1.bpf.c''
   = Some ''edited''"
  using clean_keeps_policies [of "[]" "''/x/bpf/stubs/xtune_stub_1.bpf.c''" "''/x''" quiet_env
      "\<lparr>events = [], files = [''/x/bpf/stubs/xtune_stub_1.bpf.c'' \<mapsto> ''edited'']\<rparr>"]
  by (simp add: below_def shm_dir_def path_join_def ends_with_def)

subsection \<open>Status and standalone loader\<close>

text \<open>An entry as \<open>cmd_load\<close> records it.\<close>

definition recorded :: "string \<times> json \<Rightarrow> bool" where
  "recorded e \<longleftrightarrow> py_int 10 (fst e) \<noteq> None \<and> (\<exists>mode f. snd e = constid_info mode f)"

definition id_number :: "string \<Rightarrow> int" where
  "id_number cid = (case py_int 10 cid of Some n \<Rightarrow> n | None \<Rightarrow> 0)"

lemma mapr_with_number: "list_all recorded d \<Longrightarrow> mapr with_number d = Inr (map (\<lambda>e. (id_number (fst e), e)) d)"
  by (induction d) (auto simp: recorded_def with_number_def id_number_def or_value_error_def)

lemma mapr_status_row: "list_all recorded d \<Longrightarrow> \<exists>rows. mapr status_row d = Inr rows \<and> map fst rows = map fst d"
proof (induction d)
  case (Cons e d)
  then obtain rows where "mapr status_row d = Inr rows" "map fst rows = map fst d" by auto
  moreover have "\<exists>r. status_row e = Inr r \<and> fst r = fst e"
    using Cons.prems
    by (cases e) (auto simp: recorded_def status_row_def constid_info_def get_item_def dget_def mode_text_def hashable_def)
  ultimately show ?case by auto
qed simp

text \<open>Every active constant has one row, in the order of the numbers.\<close>

lemma status_lists_active:
  assumes "list_all recorded d"
  shows "\<exists>rows. status_rows (JObj d) = Inr rows \<and> mset (map fst rows) = mset (map fst d) \<and>
    sorted (map id_number (map fst rows))"
proof (cases "d = []")
  case False
  let ?es = "map snd (sort_key fst (map (\<lambda>e. (id_number (fst e), e)) d))"
  have m: "mset ?es = mset d" by (simp add: image_mset.compositionality comp_def)
  from arg_cong [OF this, of set_mset] have "set ?es = set d" by (simp only: set_mset_mset)
  with assms have "list_all recorded ?es" by (simp add: list_all_iff)
  from mapr_status_row [OF this] obtain rows
    where r: "mapr status_row ?es = Inr rows" "map fst rows = map fst ?es" by blast
  have "fst p = id_number (fst (snd p))" if "p \<in> set (sort_key fst (map (\<lambda>e. (id_number (fst e), e)) d))" for p
    using that by auto
  then have "map id_number (map fst ?es) = map fst (sort_key fst (map (\<lambda>e. (id_number (fst e), e)) d))"
    by (simp add: list.map_comp comp_def cong: map_cong)
  then have "sorted (map id_number (map fst ?es))" by (simp only: sorted_sort_key)
  moreover have "mset (map fst ?es) = mset (map fst d)" using m by (simp only: mset_map)
  moreover have "status_rows (JObj d) = Inr rows"
    using False r(1) by (simp add: status_rows_def mapr_with_number [OF assms])
  ultimately show ?thesis by (intro exI [of _ rows] conjI) (simp_all only: r(2))
qed (simp add: status_rows_def)

text \<open>The standalone loader writes the bytes the per-constant one writes, to maps found by name.\<close>

lemma named_span_bytes:
  assumes "j < 2 ^ 32" "u64 s" "u64 e"
  shows "update_named_span (j, s, e) h w = (w\<lparr>events := events w @ [Ran ([''sudo'', h_bpftool h, ''map'', ''update'',
    ''name'', ''cs_map'', ''key'', ''hex''] @ map hex2 (le_bytes 4 (int j)) @ [''value'', ''hex'']
    @ map hex2 (le_bytes 8 s @ le_bytes 8 e))]\<rparr>, Inr ())"
  using assms by (simp add: update_named_span_def update_map_by_name_def sudo_bpftool_cmd_def pack_le_def u64_def
      io_simps)

end
