(* ===== verification/XTune_Gen.thy ===== *)
theory XTune_Gen
  imports Load_Summary
begin

text \<open>
  \<open>xkernel-tool gen\<close> (\<open>src/src/xtune.py\<close>): a fresh policy file for a constant, from its row of the
  scope table, the generated header and the comments of the policy file it replaces. Characters
  beyond ASCII stand as their bytes in UTF-8.
\<close>

section \<open>The scope entry\<close>

text \<open>\<open>dict(zip(header, fields))\<close>\<close>

definition row_dict :: "string list \<Rightarrow> string list \<Rightarrow> (string, string) dict" where
  "row_dict header cols = fold (\<lambda>(k, v). dput k v) (zip header cols) []"

fun scope_entry_of :: "string \<Rightarrow> nat \<Rightarrow> string list \<Rightarrow> string list \<Rightarrow> (string, string) dict option" where
  "scope_entry_of const_id cid_col header [] = None"
| "scope_entry_of const_id cid_col header (line # lines) =
     (let cols = fields_of line
      in if cid_col < length cols \<and> cols ! cid_col = const_id then Some (row_dict header cols)
         else scope_entry_of const_id cid_col header lines)"

definition read_scope_entry :: "string option \<Rightarrow> string \<Rightarrow> (string, string) dict option" where
  "read_scope_entry f const_id = (case f of
     None \<Rightarrow> None
   | Some text \<Rightarrow> (case readlines text of
       [] \<Rightarrow> None
     | header_line # lines \<Rightarrow> (case index_of ''ConstID'' (fields_of header_line) of
         None \<Rightarrow> None
       | Some cid_col \<Rightarrow> scope_entry_of const_id cid_col (fields_of header_line) lines)))"

section \<open>The header and the old policy\<close>

definition rx_macro :: rx where
  "rx_macro = seqs [lit ''#define X_TUNE_'', Grp 1 (Many 1 is_digit), lit ''(func_name, location_str)'']"

definition rx_helper :: rx where
  "rx_helper = seqs [lit ''// SIE helper '', Grp 1 (Many 1 is_digit), lit '': '', Grp 2 (Many 1 non_space)]"

text \<open>The numbers of the macros, each with the type its helper's comment names.\<close>

definition parse_kprobe_info_from_stub :: "string \<Rightarrow> (int \<times> string option) list" where
  "parse_kprobe_info_from_stub content =
     fold (\<lambda>(b, m, g). map (\<lambda>(idx, ty). (idx, if idx = the_int 10 (group g 1) then Some (group g 2) else ty)))
       (re_finditer rx_helper content)
       (map (\<lambda>(b, m, g). (the_int 10 (group g 1), None)) (re_finditer rx_macro content))"

record kprobe_comment =
  kc_num :: int
  kc_location :: string
  kc_type :: string
  kc_rel :: "string option"

definition rx_comment_head :: rx where
  "rx_comment_head = seqs [lit ''// Kprobe '', Grp 1 (Many 1 is_digit), lit '': '']"

definition rx_comment_tail :: rx where
  "rx_comment_tail = seqs [place_tail, Many 0 is_space, lit ''('',
     Grp 3 (Seq (Cls dot) (Many 0 (\<lambda>c. dot c \<and> c \<noteq> CHR '')''))), lit '')'']"

definition comment_of :: "string \<Rightarrow> kprobe_comment option" where
  "comment_of line = (case re_match rx_comment_head line of
     None \<Rightarrow> None
   | Some (g, rest) \<Rightarrow> (case lazy_then rx_comment_tail [] rest of
       None \<Rightarrow> None
     | Some (pre, g') \<Rightarrow> Some \<lparr>kc_num = the_int 10 (group g 1), kc_location = pre @ group g' 2,
         kc_type = group g' 3, kc_rel = None\<rparr>))"

text \<open>A relationship belongs to the last kprobe before it.\<close>

definition with_rel :: "kprobe_comment list \<Rightarrow> string \<Rightarrow> kprobe_comment list" where
  "with_rel kcs line = (case re_match rx_relationship line of
     None \<Rightarrow> kcs
   | Some (g, _) \<Rightarrow> if kcs = [] then [] else butlast kcs @ [(last kcs)\<lparr>kc_rel := Some (group g 1)\<rparr>])"

fun kprobe_comments :: "kprobe_comment list \<Rightarrow> string list \<Rightarrow> kprobe_comment list" where
  "kprobe_comments kcs [] = kcs"
| "kprobe_comments kcs (raw # lines) =
     (let line = py_strip raw;
          kcs' = (case comment_of line of None \<Rightarrow> kcs | Some kc \<Rightarrow> kcs @ [kc])
      in kprobe_comments (with_rel kcs' line) lines)"

section \<open>The new policy\<close>

definition rx_location :: rx where
  "rx_location = seqs [Grp 1 (Many 1 non_space), lit ''+0x'', Grp 2 (Many 1 is_hex)]"

definition EM_DASH :: string where "EM_DASH = [CHR 0xE2, CHR 0x80, CHR 0x94]"
definition HLINE :: string where "HLINE = [CHR 0xE2, CHR 0x94, CHR 0x80]"

definition comment_lines :: "kprobe_comment \<Rightarrow> string list" where
  "comment_lines kc = [''// Kprobe '' @ py_str (kc_num kc) @ '': '' @ kc_location kc @ '' ('' @ kc_type kc @ '')'']
     @ (case kc_rel kc of None \<Rightarrow> [] | Some rel \<Rightarrow> [''// Relationship: '' @ rel])"

definition place_of :: "kprobe_comment option \<Rightarrow> string \<times> string" where
  "place_of kc = (case kc of
     None \<Rightarrow> (''FUNCTION_NAME'', ''+0xOFFSET'')
   | Some kc \<Rightarrow> (case re_match rx_location (kc_location kc) of
       None \<Rightarrow> (kc_location kc, [])
     | Some (g, _) \<Rightarrow> (group g 1, ''+0x'' @ group g 2)))"

definition tune_block :: "string \<Rightarrow> nat \<Rightarrow> string \<times> string \<Rightarrow> string list" where
  "tune_block val i = (\<lambda>(func_name, offset_str).
     [''X_TUNE_'' @ digs 10 i @ ''('' @ func_name @ '', '' @ [DQ] @ offset_str @ [DQ] @ '') {'',
      ''    // Safety guard '' @ EM_DASH @ '' MUST be first'',
      ''    if (!x_transition_done(x_ctx)) return 0;'', [],
      ''    // '' @ HLINE @ HLINE @ HLINE @ '' Your tuning policy here '' @ HLINE @ HLINE @ HLINE,
      ''    // Access kernel context via ctx (pt_regs):'',
      ''    //   struct sock *sk = (struct sock *)PT_REGS_PARM1(ctx);'',
      ''    //   u32 metric = BPF_CORE_READ(sk, sk_rcv_saddr);'',
      ''    //'',
      ''    // Set new value:'',
      ''    u64 val = '' @ val @ ''; // original value '' @ EM_DASH @ '' change this'',
      ''    x_set(x_ctx, val);'',
      ''    return 0;'', ''}'', []])"

definition policy_block :: "string \<Rightarrow> kprobe_comment list \<Rightarrow> nat \<Rightarrow> string list" where
  "policy_block val kcs i = (let kc = (if i < length kcs then Some (kcs ! i) else None) in
     (case kc of None \<Rightarrow> [] | Some k \<Rightarrow> comment_lines k) @ tune_block val i (place_of kc))"

definition stub_top :: "string \<Rightarrow> string \<Rightarrow> string \<Rightarrow> string \<Rightarrow> string list" where
  "stub_top const_id expression val stub_name =
     [''// SPDX-License-Identifier: GPL-2.0'',
      ''// X-tune policy for ConstID '' @ const_id,
      ''// Expression: '' @ expression,
      ''// Original value: '' @ val,
      ''//'',
      ''// Edit the X_TUNE blocks below to implement your tuning policy.'',
      ''// Then load with: sudo ./xkernel-tool load <mode> '' @ const_id, [],
      ''#include '' @ [DQ] @ stub_name @ ''.bpf.h'' @ [DQ], []]"

definition stub_lines :: "string \<Rightarrow> string \<Rightarrow> string \<Rightarrow> string \<Rightarrow> nat \<Rightarrow> kprobe_comment list \<Rightarrow> string list" where
  "stub_lines const_id expression val stub_name n_macros kcs =
     (let n = max n_macros (length kcs); n_kprobes = (if n = 0 then 1 else n)
      in stub_top const_id expression val stub_name @ concat (map (policy_block val kcs) [0 ..< n_kprobes]))"

definition stubs_path :: "string \<Rightarrow> string \<Rightarrow> string" where
  "stubs_path project_root name = path_join (path_join (path_join project_root ''bpf'') ''stubs'') name"

definition generate_xtune_stub :: "string \<Rightarrow> string \<Rightarrow> string option \<Rightarrow> string option io" where
  "generate_xtune_stub project_root const_id output_arg =
     bindio (file_text SCOPE_TABLE) (\<lambda>f. case read_scope_entry f const_id of
       None \<Rightarrow> ret None
     | Some entry \<Rightarrow>
         if entry = [] \<or> dget entry ''BPF_File'' [] = [] then ret None
         else
           let stub_name = py_replace ''.bpf.o'' [] (dget entry ''BPF_File'' []);
               existing_c = stubs_path project_root (stub_name @ ''.bpf.c'')
           in bindio (file_text (stubs_path project_root (stub_name @ ''.bpf.h''))) (\<lambda>hdr. case hdr of
             None \<Rightarrow> ret None
           | Some content \<Rightarrow> bindio (file_text existing_c) (\<lambda>old.
               let output_path = (case output_arg of None \<Rightarrow> existing_c | Some p \<Rightarrow> p);
                   kcs = (case old of None \<Rightarrow> [] | Some text \<Rightarrow> kprobe_comments [] (readlines text))
               in seqio (if output_path = [] then raise FileNotFound
                    else write_file output_path (join [NL] (stub_lines const_id (dget entry ''Expression'' [])
                      (dget entry ''Val'' ''0'') stub_name (length (parse_kprobe_info_from_stub content)) kcs)))
                    (ret (Some output_path)))))"

text \<open>The argument after the first \<open>-o\<close>.\<close>

fun output_option :: "string list \<Rightarrow> string option" where
  "output_option [] = None"
| "output_option [a] = None"
| "output_option (a # b # args) = (if a = ''-o'' then Some b else output_option (b # args))"

definition cmd_gen :: "string \<Rightarrow> string list \<Rightarrow> unit io" where
  "cmd_gen project_root args = (case args of
     [] \<Rightarrow> exit_with 1
   | const_id # _ \<Rightarrow> bindio (generate_xtune_stub project_root const_id (output_option args)) (\<lambda>result.
       if result = None then exit_with 1 else ret ()))"

section \<open>Properties\<close>

subsection \<open>Comments of a generated policy\<close>

lemma comment_end:
  assumes "what \<noteq> []" "list_all is_word what"
  shows "runs (seqs [Many 0 is_space, lit ''('', Grp 3 (Seq (Cls dot) (Many 0 (\<lambda>c. dot c \<and> c \<noteq> CHR '')''))), lit '')''])
    p ('' ('' @ what @ '')'') g (Some (CHR '')'')) [] (dput 3 what g)"
proof -
  obtain c cs where w: "what = c # cs" using assms(1) by (cases what) auto
  have sp: "is_space (CHR '' '')" "\<not> is_space (CHR ''('')" by (simp_all add: is_space_def)
  have d: "list_all (\<lambda>c. dot c \<and> c \<noteq> CHR '')'') what"
    using assms(2) is_word_not_space [of NL]
    by (auto simp: dot_def list_all_iff is_space_def is_word_def is_digit_def is_lower_def)
  have m1: "runs (Many 0 is_space) p ('' '' @ CHR ''('' # what @ '')'') g (prev_after p '' '') (CHR ''('' # what @ '')'') g"
    by (rule runs_Many) (use sp in auto)
  have m2: "runs (lit ''('') q (CHR ''('' # what @ '')'') g (prev_after q ''('') (what @ '')'') g" for q
    using runs_lit [of "''(''"] by simp
  have "runs (Many 0 (\<lambda>c. dot c \<and> c \<noteq> CHR '')'')) q (cs @ '')'') g (prev_after q cs) '')'' g" for q
    by (rule runs_Many) (use d w in auto)
  then have "runs (Seq (Cls dot) (Many 0 (\<lambda>c. dot c \<and> c \<noteq> CHR '')''))) q ((c # cs) @ '')'') g
      (prev_after (Some c) cs) '')'' g" for q
    using d w runs_Seq [OF runs_Cls] by simp
  then have m3: "runs (Grp 3 (Seq (Cls dot) (Many 0 (\<lambda>c. dot c \<and> c \<noteq> CHR '')'')))) q (what @ '')'') g
      (prev_after (Some c) cs) '')'' (dput 3 what g)" for q
    unfolding w by (rule runs_Grp)
  have m4: "runs (lit '')'') q '')'' g' (Some (CHR '')'')) [] g'" for q g'
    using runs_lit [of "'')''" q "[]" g'] by simp
  show ?thesis
    using runs_Seq [OF m1 runs_Seq [OF m2 runs_Seq [OF m3 m4]]] by simp
qed

lemma comment_head: "re_match rx_comment_head (''// Kprobe '' @ digs 10 i @ '': '' @ s) = Some ([(1, digs 10 i)], s)"
proof -
  have d: "list_all is_digit (digs 10 i)" using digs_digit by (auto simp: list_all_iff)
  have m: "runs (Grp 1 (Many 1 is_digit)) q (digs 10 i @ '': '' @ s) g (prev_after q (digs 10 i))
      ('': '' @ s) (dput 1 (digs 10 i) g)" for q g
    by (rule runs_Grp, rule runs_Many) (use d in \<open>auto simp: Suc_le_eq is_digit_def\<close>)
  have "runs rx_comment_head None (''// Kprobe '' @ digs 10 i @ '': '' @ s) [] (prev_after
      (prev_after (prev_after None ''// Kprobe '') (digs 10 i)) '': '') s (dput 1 (digs 10 i) [])"
    unfolding rx_comment_head_def seqs.simps
    by (rule runs_Seq [OF runs_lit runs_Seq [OF m runs_lit]])
  from runs_match [OF this] show ?thesis by simp
qed

lemma comment_found:
  assumes "symbol_ok f" "what \<noteq> []" "list_all is_word what"
  shows "comment_of (kprobe_line i f n what) =
    Some \<lparr>kc_num = int i, kc_location = kprobe_place f (int n), kc_type = what, kc_rel = None\<rparr>"
proof -
  let ?g = "dput 3 what (dput 2 (''+0x'' @ digs 16 n) [])"
  let ?close = "'' ('' @ what @ '')''"
  have t: "rx_comment_tail = Seq place_tail (seqs [Many 0 is_space, lit ''('',
      Grp 3 (Seq (Cls dot) (Many 0 (\<lambda>c. dot c \<and> c \<noteq> CHR '')''))), lit '')''])"
    by (simp add: rx_comment_tail_def)
  have "\<exists>e. re_exec rx_comment_tail p (CHR ''+'' # hex0x (int n) @ ?close) = Some (?g, e)" for p
    unfolding t using runs_exec [OF runs_Seq [OF place_offset comment_end [OF assms(2,3)]]]
    by (auto simp: is_hex_def)
  from lazy_place [OF _ symbol_dots [OF assms(1)] this [unfolded t]] assms(1)
  have "lazy_then rx_comment_tail [] (f @ CHR ''+'' # hex0x (int n) @ ?close) = Some (f, ?g)"
    by (simp add: t symbol_ok_def)
  moreover have "kprobe_line i f n what = ''// Kprobe '' @ digs 10 i @ '': '' @ f @ CHR ''+'' # hex0x (int n) @ ?close"
    by (simp add: kprobe_line_def hex0x_def hex_of_def)
  moreover have "the_int 10 (digs 10 i) = int i"
    using py_int_py_str [of "int i"] by (simp add: the_int_def py_str_def)
  ultimately show ?thesis
    using comment_head [of i "f @ CHR ''+'' # hex0x (int n) @ ?close"]
    by (simp add: comment_of_def group_def dget_def kprobe_place_def hex0x_def hex_of_def)
qed

text \<open>Lines that say nothing of a kprobe.\<close>

definition norel :: "string \<Rightarrow> bool" where
  "norel l \<longleftrightarrow> \<not> starts_with relationship_start (py_strip l)"

definition silent :: "string \<Rightarrow> bool" where
  "silent l \<longleftrightarrow> quiet l \<and> norel l"

lemma norel_start: "s \<noteq> [] \<Longrightarrow> \<not> is_space (hd s) \<Longrightarrow> \<not> starts_with relationship_start s \<Longrightarrow> norel s"
  using strip_starts norel_def by blast

lemma silent_start: "s \<noteq> [] \<Longrightarrow> \<not> is_space (hd s) \<Longrightarrow> \<not> starts_with kprobe_start s \<Longrightarrow>
    \<not> starts_with relationship_start s \<Longrightarrow> silent s"
  by (simp add: silent_def quiet_start norel_start)

lemma silent_indent [simp]: "silent (CHR '' '' # s) \<longleftrightarrow> silent s"
  by (simp add: silent_def quiet_def norel_def py_strip_def lstrip_by_def is_space_def)

lemma silent_Nil [simp]: "silent []"
  by (simp add: silent_def quiet_def norel_def kprobe_start_def relationship_start_def py_strip_def lstrip_by_def
      rstrip_by_def)

lemma no_comment_of: "quiet l \<Longrightarrow> comment_of (py_strip l) = None"
proof -
  have "mrel rx_comment_head None s p' s' \<Longrightarrow> starts_with kprobe_start s" for s p' s'
    by (auto simp: rx_comment_head_def kprobe_start_def mrel_iffs starts_with_iff)
  moreover assume "quiet l"
  ultimately have "re_match rx_comment_head (py_strip l) = None"
    by (intro fails_match) (auto simp: fails_def quiet_def)
  then show ?thesis by (simp add: comment_of_def)
qed

lemma comments_silent: "silent l \<Longrightarrow> kprobe_comments kcs (ended_line l # rest) = kprobe_comments kcs rest"
  using no_comment_of [of l] no_relationship [of l]
  by (simp add: silent_def norel_def with_rel_def ended_line_def strip_NL)

lemma comments_silents: "list_all silent ls \<Longrightarrow> kprobe_comments kcs (map ended_line ls @ rest) = kprobe_comments kcs rest"
  by (induction ls) (simp_all add: comments_silent del: kprobe_comments.simps)

text \<open>The relationship of a kprobe, when it has one.\<close>

lemma comments_relationship:
  assumes "rel_ok rel"
  shows "kprobe_comments (kcs @ [kc\<lparr>kc_rel := None\<rparr>]) (ended_line (''// Relationship: '' @ rel) # rest) =
    kprobe_comments (kcs @ [kc\<lparr>kc_rel := (if rel = [] then None else Some rel)\<rparr>]) rest"
proof (cases "rel = []")
  case True
  have "re_match rx_relationship (py_strip (ended_line ''// Relationship: '')) = None"
    "comment_of (py_strip (ended_line ''// Relationship: '')) = None" by code_simp+
  with True show ?thesis by (simp add: with_rel_def)
next
  case False
  have "quiet (''// Relationship: '' @ rel)"
    by (rule quiet_start) (simp_all add: is_space_def kprobe_start_def)
  then have "comment_of (py_strip (ended_line (''// Relationship: '' @ rel))) = None"
    unfolding ended_line_def strip_NL by (rule no_comment_of)
  then show ?thesis
    using relationship_match [OF assms False] False
    by (simp add: with_rel_def group_def dget_def del: append.simps append_Cons)
qed

definition kept_comment :: "nat \<Rightarrow> kprobe \<Rightarrow> kprobe_comment" where
  "kept_comment i kp = \<lparr>kc_num = int (Suc i), kc_location = kprobe_place (kp_function_name kp) (kp_offset kp),
     kc_type = synthesis_type (kp_synthesis kp), kc_rel = (if kp_rel_str kp = [] then None else Some (kp_rel_str kp))\<rparr>"

text \<open>A prototype that does not look like a relationship.\<close>

definition proto_ok :: "(string \<Rightarrow> string option) \<Rightarrow> kprobe \<Rightarrow> bool" where
  "proto_ok proto kp \<longleftrightarrow> (case proto (kp_function_name kp) of None \<Rightarrow> True
     | Some p \<Rightarrow> \<not> starts_with ''Relationship:'' p)"

lemma before_silent: "kprobe_ok proto kp \<Longrightarrow> proto_ok proto kp \<Longrightarrow> list_all silent (lines_before proto kp)"
  by (auto simp: kprobe_ok_def proto_ok_def lines_before_def kprobe_start_def relationship_start_def is_space_def
      intro!: silent_start split: option.splits)

lemma silent_code: "c \<noteq> CHR ''/'' \<Longrightarrow> \<not> is_space c \<Longrightarrow> silent (c # s)"
  by (rule silent_start) (simp_all add: kprobe_start_def relationship_start_def)

lemma silent_candidates: "silent (''// Candidates: '' @ s)"
  by (rule silent_start) (simp_all add: is_space_def kprobe_start_def relationship_start_def)

lemma after_silent: "list_all silent (drop 2 (lines_after v1_src i kp))"
proof -
  have "silent ''// Write your tuning logic here''"
    by (rule silent_start) (simp_all add: is_space_def kprobe_start_def relationship_start_def)
  then show ?thesis by (simp add: lines_after_def silent_code is_space_def)
qed

lemma comments_policy:
  assumes "kprobe_ok proto kp" "proto_ok proto kp" "rel_ok (kp_rel_str kp)"
  shows "kprobe_comments kcs (map ended_line (policy_lines proto v1_src i kp) @ rest) =
    kprobe_comments (kcs @ [kept_comment i kp]) rest"
proof -
  have f: "symbol_ok (kp_function_name kp)" and off: "0 \<le> kp_offset kp"
    using assms(1) by (simp_all add: kprobe_ok_def)
  let ?what = "synthesis_type (kp_synthesis kp)"
  let ?k = "kprobe_line (Suc i) (kp_function_name kp) (nat (kp_offset kp)) ?what"
  let ?kc = "(kept_comment i kp)\<lparr>kc_rel := None\<rparr>"
  have s: "py_strip (ended_line ?k) = ?k"
    unfolding ended_line_def strip_NL by (rule strip_end) (simp_all add: kprobe_line_def is_space_def)
  have "comment_of ?k = Some ?kc"
    using comment_found [OF f, of ?what "Suc i" "nat (kp_offset kp)"] word_synthesis_type off
    by (simp add: kept_comment_def)
  moreover have "re_match rx_relationship (py_strip (ended_line ?k)) = None"
    by (rule no_relationship_line) (simp_all add: kprobe_line_def is_space_def relationship_start_def)
  ultimately have k: "kprobe_comments kcs (ended_line ?k # ls) = kprobe_comments (kcs @ [?kc]) ls" for ls
    unfolding s by (simp add: s with_rel_def)
  obtain cand post where a: "lines_after v1_src i kp = cand # (''// Relationship: '' @ kp_rel_str kp) # post"
    "silent cand" "list_all silent post"
    by (rule that [of "''// Candidates: '' @ join '','' (map hex0x (kp_candidate_offsets kp))"
          "drop 2 (lines_after v1_src i kp)", OF _ silent_candidates after_silent]) (simp add: lines_after_def)
  have "kept_comment i kp = (kept_comment i kp)\<lparr>kc_rel := (if kp_rel_str kp = [] then None else Some (kp_rel_str kp))\<rparr>"
    by (simp add: kept_comment_def)
  with comments_relationship [OF assms(3), of kcs "kept_comment i kp"]
  have r: "kprobe_comments (kcs @ [?kc]) (ended_line (''// Relationship: '' @ kp_rel_str kp) # ls) =
      kprobe_comments (kcs @ [kept_comment i kp]) ls" for ls
    by (simp only:)
  have "map ended_line (policy_lines proto v1_src i kp) @ rest = map ended_line (lines_before proto kp) @
      ended_line ?k # ended_line cand # ended_line (''// Relationship: '' @ kp_rel_str kp) # map ended_line post @ rest"
    by (simp only: policy_lines_eq [OF off] a(1) map_append list.map append.assoc append.simps)
  then show ?thesis
    by (simp only: comments_silents [OF before_silent [OF assms(1,2)]] k comments_silent [OF a(2)] r
        comments_silents [OF a(3)])
qed

lemma comments_policies:
  "list_all (\<lambda>kp. kprobe_ok proto kp \<and> proto_ok proto kp \<and> rel_ok (kp_rel_str kp)) kps \<Longrightarrow> kprobe_comments kcs
     (map ended_line (concat (map (\<lambda>(i, kp). policy_lines proto v1_src i kp) (enumerate n kps))) @ rest) =
   kprobe_comments (kcs @ map (\<lambda>(i, kp). kept_comment i kp) (enumerate n kps)) rest"
  by (induction kps arbitrary: n kcs) (simp_all add: comments_policy del: kprobe_comments.simps)

lemma comments_append: "kprobe_comments kcs (ls @ ms) = kprobe_comments (kprobe_comments kcs ls) ms"
  by (induction ls arbitrary: kcs) (simp_all add: Let_def)

lemma comments_end: "kprobe_comments kcs (ls @ [[NL]]) = kprobe_comments kcs ls"
  using comments_silent [of "[]" "kprobe_comments kcs ls" "[]"]
  by (simp add: comments_append ended_line_def del: kprobe_comments.simps(2))

lemma policy_comments:
  assumes "generate_multi_kprobe_bpf_file proto stub kps v1_src = Inr (Some (header, policy, bpf_file))"
    and "list_all (kprobe_ok proto) kps" "NL \<notin> set stub"
    and "list_all (\<lambda>kp. proto_ok proto kp \<and> rel_ok (kp_rel_str kp)) kps"
  shows "kprobe_comments [] (readlines policy) = map (\<lambda>(i, kp). kept_comment i kp) (enumerate 0 kps)"
proof -
  have ok: "list_all (\<lambda>kp. kprobe_ok proto kp \<and> proto_ok proto kp \<and> rel_ok (kp_rel_str kp)) kps"
    using assms(2,4) by (simp add: list_all_iff)
  have top: "list_all silent (policy_top stub)"
    by (auto simp: policy_top_def is_space_def kprobe_start_def relationship_start_def intro!: silent_start)
  have "kprobe_comments [] (readlines policy) = kprobe_comments [] (readlines policy @ [[NL]])"
    by (simp only: comments_end)
  also have "\<dots> = kprobe_comments [] (map ended_line (policy_top stub
      @ concat (map (\<lambda>(i, kp). policy_lines proto v1_src i kp) (enumerate 0 kps))) @ [])"
    by (simp only: policy_readlines [OF assms(1-3)] ended_line_def [abs_def] append_Nil2)
  also have "\<dots> = map (\<lambda>(i, kp). kept_comment i kp) (enumerate 0 kps)"
    using comments_silents [OF top] comments_policies [OF ok, of "[]" v1_src 0 "[]"]
    by (simp add: map_append [of ended_line] del: kprobe_comments.simps(2) map_append)
  finally show ?thesis .
qed

subsection \<open>The place in a new block\<close>

lemma many_all_fail: "(\<And>w p. \<exists>a. v = a @ w \<Longrightarrow> k p w g = None) \<Longrightarrow> many P n p v g k = None"
proof (induction v arbitrary: n p)
  case (Cons c v)
  have "k p (c # v) g = None" for p using Cons.prems [of "c # v" p] by simp
  moreover have "many P (n - 1) (Some c) v g k = None"
    by (rule Cons.IH) (rule Cons.prems, auto)
  ultimately show ?case by simp
next
  case Nil
  have "k p [] g = None" by (rule Nil) simp
  then show ?case by simp
qed

text \<open>Greedy repetition that has to give back a whole tail of the text.\<close>

lemma many_back:
  assumes "\<And>w p a. v = a @ w \<Longrightarrow> a \<noteq> [] \<Longrightarrow> k p w g = None"
  shows "list_all P s \<Longrightarrow> n \<le> length s \<Longrightarrow> k (prev_after p s) v g = Some x \<Longrightarrow> many P n p (s @ v) g k = Some x"
proof (induction s arbitrary: n p)
  case Nil
  then have k: "k p v g = Some x" "n = 0" by simp_all
  show ?case
  proof (cases v)
    case (Cons c v')
    have "many P 0 (Some c) v' g k = None"
      by (rule many_all_fail) (use assms Cons in force)
    with k Cons show ?thesis by simp
  qed (use k in simp)
next
  case (Cons d s)
  have "many P (n - 1) (Some d) (s @ v) g k = Some x"
    using Cons.prems by (intro Cons.IH) auto
  with Cons.prems(1) show ?case by simp
qed

lemma location_read:
  assumes "symbol_ok f" "0 \<le> off"
  shows "re_match rx_location (kprobe_place f off) = Some ([(1, f), (2, digs 16 (nat off))], [])"
proof -
  define t where "t = Seq (lit ''+0x'') (Grp 2 (Many 1 is_hex))"
  let ?h = "digs 16 (nat off)"
  let ?v = "''+0x'' @ ?h"
  let ?k = "\<lambda>p' s' g'. mt t p' s' (dput 1 (take (length (f @ ?v) - length s') (f @ ?v)) g') (\<lambda>p' s' g. Some (g, p', s'))"
  let ?e = "([(1, f), (2, ?h)], prev_after (prev_after (prev_after None f) ''+0x'') ?h, [])"
  have hex: "list_all is_hex ?h" using digs_hex [of 16] by (auto simp: list_all_iff)
  have f: "list_all non_space f" "f \<noteq> []"
    using symbol_chars [OF assms(1)] assms(1) by (auto simp: list_all_iff non_space_def symbol_ok_def)
  have none: "?k p w g = None" if v: "?v = a @ w" "a \<noteq> []" for p w g a
  proof -
    obtain a' where a: "''0x'' @ ?h = a' @ w" using v by (cases a) auto
    then have "set w \<subseteq> set (''0x'' @ ?h)" by (metis set_append Un_upper2)
    then have "c \<noteq> CHR ''+''" if "c \<in> set w" for c
      using that hex is_hex_chars by (auto simp: list_all_iff)
    then have "w = [] \<or> hd w \<noteq> CHR ''+''" by (cases w) auto
    then have "fails t p w" unfolding t_def by (intro fails_Seq1 fails_lit) auto
    from fails_mt [OF this] show ?thesis .
  qed
  have "runs t q (''+0x'' @ ?h @ []) g (prev_after (prev_after q ''+0x'') ?h) [] (dput 2 ?h g)" for q g
    unfolding t_def
    by (rule runs_Seq [OF runs_lit], rule runs_Grp, rule runs_Many) (use hex in \<open>auto simp: Suc_le_eq\<close>)
  then have r: "runs t (prev_after None f) ?v (dput 1 f []) (prev_after (prev_after (prev_after None f) ''+0x'') ?h) []
      (dput 2 ?h (dput 1 f []))" by (simp only: append_Nil2)
  have "take (length (f @ ?v) - length ?v) (f @ ?v) = f" by simp
  moreover have "mt t (prev_after None f) ?v (dput 1 f []) (\<lambda>p' s' g. Some (g, p', s')) = Some ?e"
    using r unfolding runs_def by simp
  ultimately have k: "?k (prev_after None f) ?v [] = Some ?e" by (simp only:)
  have "many non_space 1 None (f @ ?v) [] ?k = Some ?e"
  proof (rule many_back)
    show "?k p w [] = None" if "?v = a @ w" "a \<noteq> []" for w p a using that by (rule none)
    show "1 \<le> length f" using f(2) by (simp add: Suc_le_eq)
  qed (fact f(1) k)+
  moreover have "kprobe_place f off = f @ ?v"
    using assms(2) by (simp add: kprobe_place_def hex0x_def hex_of_def)
  ultimately show ?thesis
    by (simp add: re_match_def re_exec_def rx_location_def t_def del: many.simps)
qed

lemma place_of_kept: "symbol_ok (kp_function_name kp) \<Longrightarrow> 0 \<le> kp_offset kp \<Longrightarrow>
    place_of (Some (kept_comment i kp)) = (kp_function_name kp, ''+0x'' @ digs 16 (nat (kp_offset kp)))"
  by (simp add: place_of_def kept_comment_def location_read group_def dget_def)

subsection \<open>A regenerated policy\<close>

lemma kept_lines:
  assumes "0 \<le> kp_offset kp"
  shows "comment_lines (kept_comment i kp) =
    kprobe_line (Suc i) (kp_function_name kp) (nat (kp_offset kp)) (synthesis_type (kp_synthesis kp)) #
    (if kp_rel_str kp = [] then [] else [''// Relationship: '' @ kp_rel_str kp])"
proof -
  have "py_str (int (Suc i)) = digs 10 (Suc i)" unfolding py_str_def by (simp only: nat_int of_nat_less_0_iff if_False)
  then show ?thesis using assms
    by (simp add: comment_lines_def kept_comment_def kprobe_line_def kprobe_place_def hex0x_def hex_of_def)
qed

lemma silent_note: "\<not> starts_with ''Kprobe '' s \<Longrightarrow> \<not> starts_with ''Relationship:'' s \<Longrightarrow>
    silent (''    // '' @ s)"
  unfolding append.simps silent_indent
  by (rule silent_start) (simp_all add: is_space_def kprobe_start_def relationship_start_def)

lemma block_quiet: "list_all quiet (tune_block val i place)"
proof -
  have "silent (''    // '' @ ''Safety guard '' @ t)" "silent (''    // '' @ HLINE @ t)" "silent (''    // '' @ ''Access '' @ t)"
    "silent (''    // '' @ ''  struct'' @ t)" "silent (''    // '' @ ''  u32'' @ t)" "silent (''    // '' @ ''Set'' @ t)" for t
    by (rule silent_note; simp add: HLINE_def)+
  moreover have "silent ''    //''" by code_simp
  moreover have "silent (CHR ''X'' # t)" "silent (CHR ''u'' # t)" "silent (CHR ''i'' # t)" "silent (CHR ''x'' # t)"
    "silent (CHR ''r'' # t)" "silent (CHR ''}'' # t)" for t
    by (rule silent_code; simp add: is_space_def)+
  ultimately have "list_all silent (tune_block val i place)"
    by (cases place) (simp add: tune_block_def)
  then show ?thesis by (auto simp: list_all_iff silent_def)
qed

lemma relationship_kept:
  assumes "rel_ok rel"
  shows "relationship_of (take 3 (map ended_line ((if rel = [] then [] else [''// Relationship: '' @ rel])
    @ tune_block val j place) @ rest)) = rel"
proof -
  have x: "re_match rx_relationship (py_strip (ended_line (''X_TUNE_'' @ s))) = None" for s
    by (rule no_relationship_line) (simp_all add: is_space_def relationship_start_def)
  have g: "re_match rx_relationship (py_strip (ended_line (''    // Safety guard '' @ EM_DASH @ '' MUST be first''))) = None"
    "re_match rx_relationship (py_strip (ended_line ''    if (!x_transition_done(x_ctx)) return 0;'')) = None"
    by code_simp+
  show ?thesis
    using x [simplified] g [simplified] relationship_line [OF assms, simplified]
    by (cases "rel = []"; cases place) (simp_all add: tune_block_def numeral_3_eq_3)
qed

lemma block_listed:
  assumes "kprobe_ok proto kp" "rel_ok (kp_rel_str kp)"
  shows "tune_kprobes (map ended_line (comment_lines (kept_comment i kp) @ tune_block val j place) @ rest) =
    listed_kprobe i kp # tune_kprobes rest"
proof -
  have f: "symbol_ok (kp_function_name kp)" and off: "0 \<le> kp_offset kp"
    using assms(1) by (simp_all add: kprobe_ok_def)
  let ?what = "synthesis_type (kp_synthesis kp)"
  let ?k = "kprobe_line (Suc i) (kp_function_name kp) (nat (kp_offset kp)) ?what"
  let ?rel = "if kp_rel_str kp = [] then [] else [''// Relationship: '' @ kp_rel_str kp]"
  let ?ls = "map ended_line (?rel @ tune_block val j place) @ rest"
  obtain g where g: "match_place rx_tune_head rx_tune_tail ?k =
      Some ([(1, digs 10 (Suc i))], kprobe_place (kp_function_name kp) (kp_offset kp), g)" "group g 3 = ?what"
    using kprobe_found [OF f, of ?what "Suc i" "nat (kp_offset kp)"] word_synthesis_type off by auto
  have "py_strip ?k = ?k"
    by (rule strip_end) (simp_all add: kprobe_line_def is_space_def)
  then have s: "py_strip (ended_line ?k) = ?k" by (simp add: ended_line_def strip_NL)
  have n: "group [(Suc 0, digs 10 (Suc i))] (Suc 0) = digs 10 (Suc i)" by (simp add: group_def dget_def)
  have w: "?what \<noteq> [] \<and> \<not> contains ''SAVE'' ?what \<and> \<not> contains ''APPLY'' ?what"
    by (cases "kp_synthesis kp") simp_all
  have "tune_kprobes (ended_line ?k # ?ls) = listed_kprobe i kp # tune_kprobes ?ls"
    using w n by (simp add: s g listed_kprobe_def relationship_kept [OF assms(2)] del: take_append map_append)
  moreover have "list_all quiet ?rel"
    by (auto intro!: quiet_start simp: is_space_def kprobe_start_def)
  then have "tune_kprobes ?ls = tune_kprobes rest"
    using block_quiet by (intro tune_quiets) simp
  ultimately show ?thesis by (simp only: kept_lines [OF off] append_Cons list.map)
qed

lemma blocks_listed:
  assumes "list_all (\<lambda>kp. kprobe_ok proto kp \<and> rel_ok (kp_rel_str kp)) kps"
  shows "tune_kprobes (map ended_line (concat (map (\<lambda>(i, kp). comment_lines (kept_comment i kp)
      @ tune_block val i (place_of (Some (kept_comment i kp)))) (enumerate n kps))) @ rest) =
    map (\<lambda>(i, kp). listed_kprobe i kp) (enumerate n kps) @ tune_kprobes rest"
  using assms by (induction kps arbitrary: n) (simp_all add: block_listed [where proto = proto, simplified] del: tune_kprobes.simps)

lemma policy_blocks:
  fixes kps :: "kprobe list"
  defines "kcs \<equiv> map (\<lambda>(i, kp). kept_comment i kp) (enumerate 0 kps)"
  assumes "length kps \<le> n"
  shows "concat (map (policy_block val kcs) [0 ..< n]) = concat (map (\<lambda>(i, kp). comment_lines (kept_comment i kp)
      @ tune_block val i (place_of (Some (kept_comment i kp)))) (enumerate 0 kps))
    @ concat (map (\<lambda>i. tune_block val i (place_of None)) [length kps ..< n])"
proof -
  have "[0 ..< n] = [0 ..< length kps] @ [length kps ..< n]"
    using assms(2) upt_add_eq_append [of 0 "length kps" "n - length kps"] by simp
  moreover have "map (policy_block val kcs) [0 ..< length kps] = map (\<lambda>(i, kp). comment_lines (kept_comment i kp)
      @ tune_block val i (place_of (Some (kept_comment i kp)))) (enumerate 0 kps)"
    by (rule nth_equalityI) (simp_all add: policy_block_def kcs_def nth_enumerate_eq)
  moreover have "map (policy_block val kcs) [length kps ..< n] =
      map (\<lambda>i. tune_block val i (place_of None)) [length kps ..< n]"
    by (simp add: policy_block_def kcs_def)
  ultimately show ?thesis by (simp only: map_append concat_append)
qed

lemma stub_top_quiet: "list_all quiet (stub_top const_id expression val stub_name)"
proof -
  have "silent (''// X-tune '' @ t)" "silent (''// Expression'' @ t)" "silent (''// Original'' @ t)" "silent (''#'' @ t)" for t
    by (rule silent_start; simp add: is_space_def kprobe_start_def relationship_start_def)+
  moreover have "silent ''// SPDX-License-Identifier: GPL-2.0''" "silent ''//''"
    "silent ''// Edit the X_TUNE blocks below to implement your tuning policy.''"
    by code_simp+
  moreover have "silent (''// Then load '' @ t)" for t
    by (rule silent_start; simp add: is_space_def kprobe_start_def relationship_start_def)
  ultimately have "list_all silent (stub_top const_id expression val stub_name)"
    by (simp add: stub_top_def)
  then show ?thesis by (auto simp: list_all_iff silent_def)
qed

lemma stub_listed:
  assumes "list_all (\<lambda>kp. kprobe_ok proto kp \<and> rel_ok (kp_rel_str kp)) kps"
  shows "tune_kprobes (map ended_line (stub_lines const_id expression val stub_name n
      (map (\<lambda>(i, kp). kept_comment i kp) (enumerate 0 kps)))) = map (\<lambda>(i, kp). listed_kprobe i kp) (enumerate 0 kps)"
proof -
  let ?tail = "\<lambda>m. concat (map (\<lambda>i. tune_block val i (place_of None)) [length kps ..< m])"
  have "list_all quiet (?tail m)" for m
    using block_quiet [of val _ "place_of None"] by (auto simp: list_all_iff)
  from tune_quiets [OF this, of _ "[]"] have q: "tune_kprobes (map ended_line (?tail m)) = []" for m by simp
  have b: "tune_kprobes (map ended_line (concat (map (policy_block val
      (map (\<lambda>(i, kp). kept_comment i kp) (enumerate 0 kps))) [0 ..< m]))) =
      map (\<lambda>(i, kp). listed_kprobe i kp) (enumerate 0 kps)" if "length kps \<le> m" for m
    unfolding policy_blocks [OF that] map_append [of ended_line] blocks_listed [OF assms] q by simp
  define m where "m = (if max n (length kps) = 0 then 1 else max n (length kps))"
  have "length kps \<le> m" by (simp add: m_def)
  moreover have "stub_lines const_id expression val stub_name n (map (\<lambda>(i, kp). kept_comment i kp) (enumerate 0 kps)) =
      stub_top const_id expression val stub_name @ concat (map (policy_block val
        (map (\<lambda>(i, kp). kept_comment i kp) (enumerate 0 kps))) [0 ..< m])"
    by (simp add: stub_lines_def m_def)
  ultimately show ?thesis
    by (simp only: map_append [of ended_line] tune_quiets [OF stub_top_quiet] b)
qed

lemma hex_digits_no_NL: "NL \<notin> set (digs 16 n)"
  using hex_no_NL [of "int n"] by (simp add: hex_of_def)

lemma comment_texts:
  assumes "kprobe_ok proto kp" "rel_ok (kp_rel_str kp)"
  shows "list_all (\<lambda>l. NL \<notin> set l) (comment_lines (kept_comment i kp))"
proof -
  have "symbol_ok (kp_function_name kp)" "0 \<le> kp_offset kp" using assms(1) by (simp_all add: kprobe_ok_def)
  moreover have "list_all is_word (synthesis_type (kp_synthesis kp))" using word_synthesis_type by simp
  then have "NL \<notin> set (synthesis_type (kp_synthesis kp))" by (auto simp: list_all_iff is_word_def is_digit_def is_lower_def)
  moreover have "NL \<notin> set (digs 10 (Suc i))" "NL \<notin> set (digs 16 (nat (kp_offset kp)))"
    using digs_digit [of NL "Suc i"] hex_digits_no_NL by (auto simp: is_digit_def)
  ultimately show ?thesis
    using assms(2) symbol_no_NL by (auto simp: kept_lines kprobe_line_def rel_ok_def)
qed

lemma tune_texts:
  assumes "NL \<notin> set val" "NL \<notin> set (fst place)" "NL \<notin> set (snd place)"
  shows "list_all (\<lambda>l. NL \<notin> set l) (tune_block val i place)"
proof -
  have "NL \<notin> set (digs 10 i)" using digs_digit [of NL i] by (auto simp: is_digit_def)
  with assms show ?thesis by (cases place) (simp add: tune_block_def EM_DASH_def HLINE_def)
qed

lemma block_texts:
  assumes "list_all (\<lambda>kp. kprobe_ok proto kp \<and> rel_ok (kp_rel_str kp)) kps" "NL \<notin> set val"
  shows "list_all (\<lambda>l. NL \<notin> set l) (policy_block val (map (\<lambda>(i, kp). kept_comment i kp) (enumerate 0 kps)) i)"
proof (cases "i < length kps")
  case True
  with assms(1) have ok: "kprobe_ok proto (kps ! i)" "rel_ok (kp_rel_str (kps ! i))" by (simp_all add: list_all_length)
  then have "symbol_ok (kp_function_name (kps ! i))" "0 \<le> kp_offset (kps ! i)" by (simp_all add: kprobe_ok_def)
  from place_of_kept [OF this, of i] have "list_all (\<lambda>l. NL \<notin> set l) (tune_block val i (place_of (Some (kept_comment i (kps ! i)))))"
    using assms(2) symbol_no_NL hex_digits_no_NL \<open>symbol_ok (kp_function_name (kps ! i))\<close>
    by (intro tune_texts) simp_all
  with True comment_texts [OF ok] show ?thesis
    by (simp add: policy_block_def nth_enumerate_eq)
next
  case False
  have "list_all (\<lambda>l. NL \<notin> set l) (tune_block val i (place_of None))"
    using assms(2) by (intro tune_texts) (simp_all add: place_of_def)
  with False show ?thesis by (simp add: policy_block_def)
qed

lemma block_ends: "\<exists>ls. policy_block val kcs i = ls @ [[]]"
  by (cases "place_of (if i < length kcs then Some (kcs ! i) else None)")
    (auto simp: policy_block_def tune_block_def Let_def split: option.splits)

lemma stub_readlines:
  fixes n :: nat
  assumes "list_all (\<lambda>kp. kprobe_ok proto kp \<and> rel_ok (kp_rel_str kp)) kps"
    and "list_all (\<lambda>t. NL \<notin> set t) [const_id, expression, val, stub_name]"
  defines "ls \<equiv> stub_lines const_id expression val stub_name n (map (\<lambda>(i, kp). kept_comment i kp) (enumerate 0 kps))"
  shows "readlines (join [NL] ls) @ [[NL]] = map ended_line ls"
proof -
  let ?kcs = "map (\<lambda>(i, kp). kept_comment i kp) (enumerate 0 kps)"
  define k where "k = (if max n (length ?kcs) = 0 then 1 else max n (length ?kcs))"
  then have "k \<noteq> 0" by (auto simp: max_def)
  then obtain m where "k = Suc m" by (cases k) simp_all
  then have m: "ls = stub_top const_id expression val stub_name @ concat (map (policy_block val ?kcs) [0 ..< Suc m])"
    unfolding ls_def stub_lines_def Let_def k_def by (simp only:)
  obtain bs where b: "policy_block val ?kcs m = bs @ [[]]" using block_ends by blast
  have "list_all (\<lambda>l. NL \<notin> set l) (stub_top const_id expression val stub_name)"
    using assms(2) by (simp add: stub_top_def)
  moreover have "list_all (\<lambda>l. NL \<notin> set l) (concat (map (policy_block val ?kcs) [0 ..< Suc m]))"
    using block_texts [OF assms(1), of val] assms(2) by (fastforce simp: list_all_iff)
  ultimately have "list_all (\<lambda>l. NL \<notin> set l) ls" by (simp only: m list_all_append)
  then have "readlines (join [NL] ls) = map (\<lambda>l. l @ [NL]) (butlast ls)"
    by (intro readlines_join) (simp_all add: m b)
  moreover have "ls = butlast ls @ [[]]" by (simp add: m b butlast_append)
  ultimately show ?thesis
    using map_append [of ended_line "butlast ls" "[[]]"] by (simp add: ended_line_def [abs_def])
qed

text \<open>
  C13: regenerating a policy from the comments of the generated one keeps the kprobes: the new file
  lists the same numbers, places, kinds of synthesis and relationships, whatever the number of macros in
  the header and the texts of the scope table.
\<close>

theorem regenerated_policy_lists_same:
  assumes "generate_multi_kprobe_bpf_file proto stub kps v1_src = Inr (Some (header, policy, bpf_file))"
    and "list_all (kprobe_ok proto) kps" and "NL \<notin> set stub"
    and "list_all (\<lambda>kp. proto_ok proto kp \<and> rel_ok (kp_rel_str kp)) kps"
    and "list_all (\<lambda>t. NL \<notin> set t) [const_id, expression, val, stub_name]"
  shows "parse_kprobes_from_bpf_c (Some (join [NL] (stub_lines const_id expression val stub_name n
      (kprobe_comments [] (readlines policy))))) = parse_kprobes_from_bpf_c (Some policy)"
proof -
  let ?kcs = "map (\<lambda>(i, kp). kept_comment i kp) (enumerate 0 kps)"
  have ok: "list_all (\<lambda>kp. kprobe_ok proto kp \<and> rel_ok (kp_rel_str kp)) kps"
    and rel: "list_all (\<lambda>kp. rel_ok (kp_rel_str kp)) kps"
    using assms(2,4) by (simp_all add: list_all_iff)
  have "tune_kprobes (readlines (join [NL] (stub_lines const_id expression val stub_name n ?kcs))) =
      map (\<lambda>(i, kp). listed_kprobe i kp) (enumerate 0 kps)"
    using tune_end [of "readlines (join [NL] (stub_lines const_id expression val stub_name n ?kcs))"]
    by (simp only: stub_readlines [OF ok assms(5)] stub_listed [OF ok])
  then show ?thesis
    by (simp only: parse_kprobes_from_bpf_c_def option.case policy_comments [OF assms(1-4)]
        policy_kprobes [OF assms(1-3) rel])
qed

theorem regenerated_policy_lists_same_witness:
  "\<exists>policy. parse_kprobes_from_bpf_c (Some (join [NL] (stub_lines ''1'' ''x'' ''5'' ''xtune_stub_1'' 1
    (kprobe_comments [] (readlines policy))))) = parse_kprobes_from_bpf_c (Some policy)"
proof -
  obtain header where "generate_multi_kprobe_bpf_file (\<lambda>f. None) ''1'' [sample_kprobe] 5 = Inr (Some
    (header, join [NL] (policy_file_lines (\<lambda>f. None) ''1'' 5 [sample_kprobe]), ''xtune_stub_1.bpf.o''))"
    using sample_generated by blast
  from regenerated_policy_lists_same [OF this sample_kprobe_ok, of "''1''" "''x''" "''5''" "''xtune_stub_1''" 1]
  have "parse_kprobes_from_bpf_c (Some (join [NL] (stub_lines ''1'' ''x'' ''5'' ''xtune_stub_1'' 1
    (kprobe_comments [] (readlines (join [NL] (policy_file_lines (\<lambda>f. None) ''1'' 5 [sample_kprobe]))))))) =
    parse_kprobes_from_bpf_c (Some (join [NL] (policy_file_lines (\<lambda>f. None) ''1'' 5 [sample_kprobe])))"
    by (simp add: sample_kprobe_def rel_ok_def proto_ok_def is_space_def)
  then show ?thesis by blast
qed

end
