(* ===== verification/Codegen_Print.thy ===== *)
theory Codegen_Print
  imports Load_Summary Expr_Diff
begin

text \<open>
  What the code generator shows of its choices (\<open>src/src/codegen.py\<close>): the place of a kprobe among the
  instructions of its block, the scan of its candidates with the possible jump optimisation, and the
  differences between the symbolic runs. A printed line is a list of spans, each with the colour it
  has on a terminal; characters beyond ASCII stand as their bytes in UTF-8.
\<close>

section \<open>Coloured text\<close>

type_synonym cspan = "string \<times> string"

definition text_of_row :: "bool \<Rightarrow> cspan list \<Rightarrow> string" where
  "text_of_row use_color row = concat (map (\<lambda>(code, t).
     if use_color \<and> code \<noteq> [] then CHR 0x1B # ''['' @ code @ ''m'' @ t @ CHR 0x1B # ''[0m'' else t) row)"

definition bar :: "nat \<Rightarrow> string" where
  "bar n = concat (replicate n [CHR 0xE2, CHR 0x94, CHR 0x80])"

definition play :: string where "play = [CHR 0xE2, CHR 0x96, CHR 0xB6]"
definition seed_mark :: string where "seed_mark = [CHR 0xE2, CHR 0x97, CHR 0x80]"
definition star :: string where "star = [CHR 0xE2, CHR 0x98, CHR 0x85]"
definition dot_mark :: string where "dot_mark = [CHR 0xE2, CHR 0x97, CHR 0x8F]"
definition zig :: string where "zig = [CHR 0xE2, CHR 0x86, CHR 0xAF]"
definition left_arrow :: string where "left_arrow = [CHR 0xE2, CHR 0x86, CHR 0x90]"
definition tick :: string where "tick = [CHR 0xE2, CHR 0x9C, CHR 0x93]"
definition cross :: string where "cross = [CHR 0xE2, CHR 0x9C, CHR 0x97]"

section \<open>The place of a kprobe\<close>

text \<open>The arguments the two listings share; \<open>None\<close> is printed as such.\<close>

record placement =
  pl_func_name :: string
  pl_func_base :: "int option"
  pl_offset :: int
  pl_type :: string
  pl_seed_offset :: "int option"
  pl_seed_mnemonic :: string
  pl_reg :: "string option"
  pl_mem_base :: "string option"
  pl_mem_disp :: int
  pl_write_size :: nat

definition or_None :: "string option \<Rightarrow> string" where
  "or_None r = (case r of None \<Rightarrow> ''None'' | Some s \<Rightarrow> s)"

definition place_name :: "placement \<Rightarrow> int \<Rightarrow> string" where
  "place_name p offset = pl_func_name p @ ''+'' @ hex0x offset"

text \<open>A register name that is missing or empty leaves the bare displacement.\<close>

definition mem_name :: "placement \<Rightarrow> string" where
  "mem_name p = (case pl_mem_base p of
     Some (c # cs) \<Rightarrow> (c # cs) @ ''+'' @ hex0x (pl_mem_disp p) | _ \<Rightarrow> hex0x (pl_mem_disp p))"

definition save_marker :: "placement \<Rightarrow> int \<Rightarrow> cspan list list" where
  "save_marker p offset =
     (if pl_type p = ''irreversible'' \<and> pl_seed_offset p = Some offset then
        [[(''1;33'', ''  '' @ play @ '' SAVE  ['' @ place_name p offset @ ''] '' @ em_dash @ '' reads %'' @ or_None (pl_reg p)
           @ '' before '' @ pl_seed_mnemonic p)]]
      else [])"

definition kprobe_marker :: "placement \<Rightarrow> int \<Rightarrow> cspan list list" where
  "kprobe_marker p offset =
     (if offset \<noteq> pl_offset p then []
      else if pl_type p = ''irreversible'' then
        [[(''1;32'', ''  '' @ play @ '' APPLY ['' @ place_name p offset @ ''] '' @ em_dash @ '' sets %'' @ or_None (pl_reg p)
           @ '' = f(*saved, V)'')]]
      else if pl_type p = ''memory_store'' then
        [[(''1;32'', ''  '' @ play @ '' WRITE ['' @ place_name p offset @ ''] '' @ em_dash @ '' writes mem['' @ mem_name p
           @ ''] = V_new ('' @ py_str (int (pl_write_size p)) @ ''B)'')]]
      else if pl_type p = ''cmp_immediate'' then
        [[(''1;32'', ''  '' @ play @ '' CMP   ['' @ place_name p offset @ ''] '' @ em_dash @ '' re-simulates cmp, sets FLAGS'')]]
      else [[(''1;32'', ''  '' @ play @ '' SET   ['' @ place_name p offset @ ''] '' @ em_dash @ '' sets %'' @ or_None (pl_reg p)
           @ '' = V_new'')]])"

definition instruction_row :: "string \<Rightarrow> cspan list" where
  "instruction_row inst_line = ([], ''    '' @ clean_line inst_line) #
     (if starts_with ''[*]'' (py_strip inst_line) then [(''1;31'', '' '' @ seed_mark @ '' seed'')] else [])"

definition placed_rows :: "placement \<Rightarrow> string \<Rightarrow> cspan list list" where
  "placed_rows p inst_line = (case inst_offset (pl_func_base p) inst_line of
     None \<Rightarrow> []
   | Some offset \<Rightarrow> save_marker p offset @ kprobe_marker p offset @ [instruction_row inst_line])"

definition print_kprobe_placement :: "placement \<Rightarrow> string list \<Rightarrow> cspan list list" where
  "print_kprobe_placement p all_insts =
     [[], [([], ''  ''), (''1'', ''Kprobe placement in '' @ pl_func_name p @ '':'')],
      [([], ''  ''), (''2'', bar 64)]]
     @ concat (map (placed_rows p) all_insts) @ [[([], ''  ''), (''2'', bar 64)]]"

text \<open>For a policy file: the kprobes of its comments, each in its block of the cached listing.\<close>

definition placement_of_parsed :: "parsed_kprobe \<Rightarrow> int option \<Rightarrow> placement" where
  "placement_of_parsed kp func_base = \<lparr>pl_func_name = pk_func_name kp, pl_func_base = func_base,
     pl_offset = pk_offset kp, pl_type = pk_synthesis_type kp, pl_seed_offset = pk_seed_offset kp,
     pl_seed_mnemonic = pk_seed_mnemonic kp, pl_reg = Some (pk_actual_reg_name kp), pl_mem_base = None,
     pl_mem_disp = 0, pl_write_size = 4\<rparr>"

definition show_kprobe_placement_from_bpf_file :: "string \<Rightarrow> string option \<Rightarrow> string option \<Rightarrow> cspan list list" where
  "show_kprobe_placement_from_bpf_file const_id bb_v1_file bpf_c_file =
     (if bb_v1_file = None \<or> parse_bpf_kprobes bpf_c_file = []
        \<or> extract_all_basic_blocks_from_file bb_v1_file = [] then []
      else [[], [([], ''--- Kprobe Placement (ConstID '' @ const_id @ '') ---'')]]
        @ concat (map (\<lambda>(kp, bb, func_base). print_kprobe_placement (placement_of_parsed kp func_base)
            (all_instructions bb)) (shown_kprobes bb_v1_file bpf_c_file)))"

section \<open>The scan of the candidates\<close>

text \<open>
  A shown instruction: the seed, a candidate (its number, whether it is the chosen one, whether it
  reads the register, whether it is a branch), or the instruction after the window.
\<close>

datatype scan_mark = Seed_Mark | Candidate nat bool bool bool | After_Window

definition branch_mnemonics :: "string list" where
  "branch_mnemonics = [''jmp'', ''jae'', ''jb'', ''jbe'', ''ja'', ''je'', ''jne'', ''jl'', ''jle'',
     ''jg'', ''jge'', ''jns'', ''js'', ''jo'', ''jno'', ''jp'', ''jnp'', ''jrcxz'',
     ''jc'', ''jnc'', ''jz'', ''jnz'', ''jnae'', ''jnb'', ''jnbe'', ''jnge'',
     ''jnl'', ''jnle'', ''jng'']"

definition is_branch :: "string \<Rightarrow> bool" where
  "is_branch inst_line = (let parts = split_on TAB inst_line;
       asm = (if length parts \<ge> 2 then py_strip (last parts) else []);
       mnem_raw = (case split_ws asm of [] \<Rightarrow> [] | w # ws \<Rightarrow> py_lower w)
     in strip_size_suffix mnem_raw \<in> set branch_mnemonics \<or> starts_with ''j'' mnem_raw)"

definition reads_target :: "string option \<Rightarrow> string \<Rightarrow> bool" where
  "reads_target target_family inst_line = (case target_family of
     Some (c # cs) \<Rightarrow> instruction_reads_register inst_line (c # cs) | _ \<Rightarrow> False)"

text \<open>The loop from the seed on, over the lines with their positions; one line after the window is shown.\<close>

fun scan_marks :: "placement \<Rightarrow> nat \<Rightarrow> string option \<Rightarrow> int list \<Rightarrow> nat \<Rightarrow> bool \<Rightarrow> (nat \<times> string) list \<Rightarrow>
    (scan_mark \<times> nat \<times> string) list" where
  "scan_marks p step_idx family cands cand_num past_reader [] = []"
| "scan_marks p step_idx family cands cand_num past_reader ((i, l) # rest) =
     (case inst_offset (pl_func_base p) l of
        None \<Rightarrow> scan_marks p step_idx family cands cand_num past_reader rest
      | Some offset \<Rightarrow>
          if i = step_idx then
            (Seed_Mark, i, l) # scan_marks p step_idx family cands cand_num past_reader rest
          else if offset \<in> set cands \<and> \<not> past_reader then
            (let reader = reads_target family l in
             (Candidate (Suc cand_num) (offset = pl_offset p) reader (is_branch l), i, l) #
             scan_marks p step_idx family cands (Suc cand_num) reader rest)
          else if past_reader then [(After_Window, i, l)]
          else scan_marks p step_idx family cands cand_num past_reader rest)"

definition jopt :: "string list \<Rightarrow> nat \<Rightarrow> cspan" where
  "jopt all_insts i = (case check_jump_optimizable all_insts i of
     (ok, reason) \<Rightarrow> if ok then (''32'', ''  ['' @ tick @ '' '' @ reason @ '']'') else (''31'', ''  ['' @ cross @ '' '' @ reason @ '']''))"

definition seed_note :: "placement \<Rightarrow> string list \<Rightarrow> nat \<Rightarrow> string \<Rightarrow> cspan list" where
  "seed_note p all_insts i clean =
     (if pl_type p = ''irreversible'' then
        [(''1;31'', ''[SAVE ] ''), ([], clean), (''1;31'', ''  '' @ left_arrow @ '' SAVE kprobe fires here (saves %''
           @ or_None (pl_reg p) @ '' before '' @ pl_seed_mnemonic p @ '')''), jopt all_insts i]
      else [(''1;31'', ''[seed ] ''), ([], clean), (''1;31'', ''  '' @ left_arrow @ '' seed '' @
        (if pl_type p = ''memory_store'' then ''(stores V '' @ right_arrow @ '' mem['' @ mem_name p @ ''])''
         else if pl_type p = ''cmp_immediate'' then ''(cmp $IV, %reg '' @ em_dash @ '' sets FLAGS)''
         else ''(sets %'' @ or_None (pl_reg p) @ '' = V)''))])"

definition reads_label :: "placement \<Rightarrow> string" where
  "reads_label p = (if pl_type p \<in> {''memory_store'', ''cmp_immediate''} then pl_type p @ '': n/a''
     else ''reads %'' @ or_None (pl_reg p) @ ''?'')"

definition candidate_note :: "placement \<Rightarrow> nat \<Rightarrow> bool \<Rightarrow> bool \<Rightarrow> bool \<Rightarrow> cspan \<times> cspan list" where
  "candidate_note p n chosen reader branch =
     (let tag = (\<lambda>code mark. (code, ''[#'' @ py_str (int n) @ '' '' @ mark @ ''] ''));
          gap = ([], ''  ''); no = (''2'', reads_label p @ '' no ''); yes = (''1;32'', reads_label p @ '' YES'')
      in if chosen \<and> reader then
           (tag ''1;36'' (star @ dot_mark), [gap, yes, gap, (''1;36'', left_arrow @ '' kprobe  +  first reader'')])
         else if chosen then (tag ''1;36'' (star @ '' ''),
           (if pl_type p = ''memory_store'' then
              [gap, (''1;36'', left_arrow @ '' kprobe attaches here (overwrites mem)'')]
            else if pl_type p = ''cmp_immediate'' then
              [gap, (''1;36'', left_arrow @ '' kprobe attaches here (re-simulates cmp, sets FLAGS)'')]
            else [gap, no, gap, (''1;36'', left_arrow @ '' kprobe attaches here'')]))
         else if reader then
           (tag ''1;32'' ('' '' @ dot_mark), [gap, yes, gap, (''1;32'', left_arrow @ '' first reader  (window end)'')])
         else if branch then
           (tag ''1;35'' (zig @ '' ''), [gap, no, gap, (''1;35'', ''(branch '' @ em_dash @ '' passes through)'')])
         else (tag ''1;33'' ''  '', [gap, no]))"

definition scan_row :: "placement \<Rightarrow> string list \<Rightarrow> scan_mark \<times> nat \<times> string \<Rightarrow> cspan list" where
  "scan_row p all_insts = (\<lambda>(mark, i, l). ([], ''  '') # (case mark of
     Seed_Mark \<Rightarrow> seed_note p all_insts i (clean_line l)
   | Candidate n chosen reader branch \<Rightarrow> (case candidate_note p n chosen reader branch of
       (tag, note) \<Rightarrow> tag # ([], clean_line l) # note @ [jopt all_insts i])
   | After_Window \<Rightarrow> [(''2'', ''['' @ bar 5 @ ''] ''), (''2'', clean_line l)]))"

definition scan_title :: "placement \<Rightarrow> string" where
  "scan_title p = ''Jump opt '' @ em_dash @ '' '' @
     (if pl_type p = ''irreversible'' then pl_seed_mnemonic p @ '' SAVE+APPLY window for %'' @ or_None (pl_reg p)
      else if pl_type p = ''memory_store'' then ''memory-store kprobe for mem['' @ mem_name p @ '']''
      else if pl_type p = ''cmp_immediate'' then ''cmp_immediate kprobe for FLAGS''
      else ''first-reader scan for %'' @ or_None (pl_reg p)) @ '' in '' @ pl_func_name p"

text \<open>The summary formats the seed's offset, which raises when there is none.\<close>

definition scan_summary :: "placement \<Rightarrow> nat \<Rightarrow> cspan list list res" where
  "scan_summary p n_cands =
     (let site = place_name p (pl_offset p); blank = ([], ''  '') in
      if pl_type p = ''irreversible'' then (case pl_seed_offset p of
          None \<Rightarrow> Inl TypeError
        | Some s \<Rightarrow> Inr
           [[blank, (''1;31'', ''SAVE ''), ([], '' kprobe '' @ right_arrow @ '' '' @ place_name p s @ ''   (fires before seed)'')],
            [blank, (''1;36'', ''APPLY''), ([], '' kprobe '' @ right_arrow @ '' '' @ site @ ''   (candidate #1'' @
              (if n_cands = 1 then '', = first reader'' else []) @ '')'')]])
      else if pl_type p = ''memory_store'' then Inr
        [[blank, (''1;36'', ''WRITE''), ([], '' kprobe '' @ right_arrow @ '' '' @ site @ ''   (overwrites mem['' @ mem_name p
           @ ''], '' @ py_str (int (pl_write_size p)) @ ''B)'')]]
      else if pl_type p = ''cmp_immediate'' then Inr
        [[blank, (''1;36'', ''CMP  ''), ([], '' kprobe '' @ right_arrow @ '' '' @ site @ ''   (re-simulates cmp, sets FLAGS)'')]]
      else Inr [[blank, (''1;36'', ''Kprobe''), ([], '' '' @ right_arrow @ '' '' @ site @ ''   (candidate #1 of ''
           @ py_str (int n_cands) @ '')'')]])"

definition print_jump_optimization :: "placement \<Rightarrow> nat \<Rightarrow> string option \<Rightarrow> int list \<Rightarrow> string list \<Rightarrow>
    cspan list list res" where
  "print_jump_optimization p step_idx family cands all_insts =
     (let rule = [([], ''  ''), (''2'', bar 76)] in
      bindr (scan_summary p (length cands)) (\<lambda>summary. Inr (
        [[], [([], ''  ''), (''1'', scan_title p)], rule]
        @ map (scan_row p all_insts)
            (scan_marks p step_idx family cands 0 False (drop step_idx (enumerate 0 all_insts)))
        @ [rule] @ summary
        @ [[([], ''  ''), (''2'', ''Window: ['' @ join '', '' (map hex0x cands) @ '']'')],
           [([], ''  ''), (''2'', ''Legend: '' @ star @ ''=kprobe  '' @ dot_mark @ ''=first-reader  '' @ zig @ ''=branch''),
            ([], ''  ''), (''32'', tick), ([], ''=jump-opt  ''), (''31'', cross), ([], ''=no-jump-opt'')]])))"

text \<open>What is shown of a kprobe when it is placed: the scan, then the place.\<close>

definition placement_of_kprobe :: "int option \<Rightarrow> kprobe \<Rightarrow> placement" where
  "placement_of_kprobe func_base kp = \<lparr>pl_func_name = kp_function_name kp, pl_func_base = func_base,
     pl_offset = kp_offset kp, pl_type = synthesis_type (kp_synthesis kp),
     pl_seed_offset = (case kp_synthesis kp of Irreversible s e b \<Rightarrow> s | _ \<Rightarrow> None),
     pl_seed_mnemonic = kp_seed_mnemonic kp, pl_reg = kp_actual_reg_name kp,
     pl_mem_base = (case kp_synthesis kp of MemoryStore b d w \<Rightarrow> b | _ \<Rightarrow> None),
     pl_mem_disp = (case kp_synthesis kp of MemoryStore b d w \<Rightarrow> d | _ \<Rightarrow> 0),
     pl_write_size = (case kp_synthesis kp of MemoryStore b d w \<Rightarrow> w | _ \<Rightarrow> 4)\<rparr>"

definition kprobe_listing :: "int option \<Rightarrow> nat \<Rightarrow> kprobe \<Rightarrow> cspan list list res" where
  "kprobe_listing func_base step_idx kp =
     (let p = placement_of_kprobe func_base kp in
      bindr (print_jump_optimization p step_idx (map_option get_register_family (kp_actual_reg_name kp))
          (kp_candidate_offsets kp) (kp_all_instructions kp)) (\<lambda>scan.
        Inr (scan @ print_kprobe_placement p (kp_all_instructions kp))))"

section \<open>Differences between the symbolic runs\<close>

text \<open>
  A line with whether it is printed only in verbose mode. Two runs that do not differ are reported
  verbosely, but the last pair always.
\<close>

definition range_text :: "nat \<times> nat \<Rightarrow> string" where
  "range_text = (\<lambda>(a, b). ''('' @ py_str (int a) @ '', '' @ py_str (int b) @ '')'')"

definition changed_lines :: "string \<Rightarrow> (nat \<times> string) list \<Rightarrow> string list" where
  "changed_lines v changed = [''Changed instructions in '' @ v @ '':'']
     @ map (\<lambda>(idx, inst). ''  Instruction '' @ py_str (int idx) @ '': '' @ inst) changed @ [[]]"

definition pair_lines :: "string \<times> string \<Rightarrow> string \<times> string \<Rightarrow> bool \<Rightarrow> snapshot list \<Rightarrow> snapshot list \<Rightarrow>
    (bool \<times> string) list" where
  "pair_lines = (\<lambda>(v, what_v) (w, what_w) quiet_same sv sw.
     (let diff = compare_expressions sv sw in
      if diff = [] then
        (if quiet_same then [(True, ''No differences between '' @ v @ '' and '' @ w), (True, [])]
         else [(False, ''No differences between '' @ v @ '' and '' @ w), (False, [])])
      else map (\<lambda>t. (True, t))
        ([''--- Differences between '' @ v @ '' ('' @ what_v @ '') and '' @ w @ '' ('' @ what_w @ '') ---'',
          ''Changed instruction ranges: ['' @ join '', '' (map range_text (find_changed_ranges diff)) @ '']'', []]
         @ changed_lines v (filter_changed_instructions_by_effects diff sv True)
         @ changed_lines w (filter_changed_instructions_by_effects diff sw False))))"

definition print_expression_diff :: "string \<Rightarrow> snapshot list \<Rightarrow> snapshot list \<Rightarrow> snapshot list \<Rightarrow> (bool \<times> string) list" where
  "print_expression_diff title seq1 seq2 seq3 =
     (let one = (''v1'', ''original''); two = (''v2'', ''recompiled from first command'');
          three = (''v3'', ''recompiled from second command'')
      in map (\<lambda>t. (True, t)) [[], replicate 80 CHR ''='', title @ '' - Expression Differences'',
           replicate 80 CHR ''='', []]
         @ pair_lines one two True seq1 seq2
         @ (if seq3 = [] then [] else pair_lines two three True seq2 seq3 @ pair_lines one three False seq1 seq3))"

text \<open>The calls: with one empty sequence the two others are compared, under the names of the first two.\<close>

definition show_expression_diff :: "string \<Rightarrow> snapshot list \<Rightarrow> snapshot list \<Rightarrow> snapshot list \<Rightarrow> (bool \<times> string) list" where
  "show_expression_diff const_id seq_v1 seq_v2 seq_v3 =
     (let title = ''Test Group '' @ const_id in
      if seq_v1 \<noteq> [] \<and> seq_v2 \<noteq> [] then print_expression_diff title seq_v1 seq_v2 seq_v3
      else if seq_v1 \<noteq> [] \<and> seq_v3 \<noteq> [] then print_expression_diff title seq_v1 seq_v3 []
      else if seq_v2 \<noteq> [] \<and> seq_v3 \<noteq> [] then print_expression_diff title seq_v2 seq_v3 []
      else [])"

section \<open>Properties\<close>

subsection \<open>The window of candidates\<close>

text \<open>The addressed lines up to the first reader, and what the scan makes of them.\<close>

fun window_lines :: "int option \<Rightarrow> string \<Rightarrow> (nat \<times> string) list \<Rightarrow> (nat \<times> string) list" where
  "window_lines func_base family [] = []"
| "window_lines func_base family ((i, l) # ls) = (case inst_offset func_base l of
     None \<Rightarrow> window_lines func_base family ls
   | Some offset \<Rightarrow> (i, l) # (if instruction_reads_register l family then [] else window_lines func_base family ls))"

definition candidate_row :: "string \<Rightarrow> int \<Rightarrow> placement \<Rightarrow> nat \<times> nat \<times> string \<Rightarrow> scan_mark \<times> nat \<times> string" where
  "candidate_row family k p = (\<lambda>(n, i, l). (Candidate (Suc n) (inst_offset (pl_func_base p) l = Some k)
     (instruction_reads_register l family) (is_branch l), i, l))"

lemma window_offsets:
  "map Some (site_scan func_base family (map snd ls)) = map (inst_offset func_base \<circ> snd) (window_lines func_base family ls)"
  by (induction func_base family ls rule: window_lines.induct) (auto split: option.splits)

lemma scan_past: "\<exists>after. scan_marks p step_idx family cands n True ls = after \<and>
    (list_all (\<lambda>(i, l). i \<noteq> step_idx) ls \<longrightarrow> length after \<le> 1 \<and> list_all (\<lambda>r. fst r = After_Window) after)"
  by (induction ls) (auto split: option.splits)

lemma scan_window:
  assumes "set (site_scan (pl_func_base p) (c # cs) (map snd ls)) \<subseteq> set cands" "list_all (\<lambda>(i, l). i \<noteq> step_idx) ls"
  shows "\<exists>after. scan_marks p step_idx (Some (c # cs)) cands n False ls =
    map (candidate_row (c # cs) (pl_offset p) p) (enumerate n (window_lines (pl_func_base p) (c # cs) ls)) @ after \<and>
    length after \<le> 1 \<and> list_all (\<lambda>r. fst r = After_Window) after"
  using assms
proof (induction ls arbitrary: n)
  case (Cons r ls)
  obtain i l where r: "r = (i, l)" by force
  show ?case
  proof (cases "inst_offset (pl_func_base p) l")
    case None
    with Cons r show ?thesis by simp
  next
    case (Some offset)
    then have mem: "offset \<in> set cands" and i: "i \<noteq> step_idx" using Cons.prems r by auto
    let ?row = "candidate_row (c # cs) (pl_offset p) p (n, i, l)"
    have row: "?row = (Candidate (Suc n) (offset = pl_offset p) (reads_target (Some (c # cs)) l) (is_branch l), i, l)"
      by (simp add: candidate_row_def Some reads_target_def)
    show ?thesis
    proof (cases "instruction_reads_register l (c # cs)")
      case True
      have "length (scan_marks p step_idx (Some (c # cs)) cands (Suc n) True ls) \<le> 1 \<and>
          list_all (\<lambda>r. fst r = After_Window) (scan_marks p step_idx (Some (c # cs)) cands (Suc n) True ls)"
        using scan_past [of p step_idx "Some (c # cs)" cands "Suc n" ls] Cons.prems(2) by simp
      with True Some mem i show ?thesis
        by (intro exI [of _ "scan_marks p step_idx (Some (c # cs)) cands (Suc n) True ls"])
          (simp add: r row reads_target_def)
    next
      case False
      then obtain after where "scan_marks p step_idx (Some (c # cs)) cands (Suc n) False ls =
          map (candidate_row (c # cs) (pl_offset p) p) (enumerate (Suc n) (window_lines (pl_func_base p) (c # cs) ls)) @ after"
        "length after \<le> 1 \<and> list_all (\<lambda>r. fst r = After_Window) after"
        using Cons.IH [of "Suc n"] Cons.prems r Some by auto
      with False Some mem i show ?thesis
        by (intro exI [of _ after]) (simp add: r row reads_target_def)
    qed
  qed
qed simp

lemma scan_skip:
  "list_all (\<lambda>(i, l). i \<noteq> step_idx \<and> (\<forall>offset. inst_offset (pl_func_base p) l = Some offset \<longrightarrow> offset \<notin> set cands)) xs \<Longrightarrow>
   scan_marks p step_idx family cands n False (xs @ ys) = scan_marks p step_idx family cands n False ys"
  by (induction xs) (auto split: option.splits)

lemma drop_enumerate: "drop n (enumerate m xs) = enumerate (m + n) (drop n xs)"
  by (cases "n \<le> length xs") (simp_all add: enumerate_eq_zip drop_zip)

lemma enumerate_later: "i0 < n \<Longrightarrow> list_all (\<lambda>(i, l). i \<noteq> i0) (enumerate n xs)"
  by (induction xs arbitrary: n) auto

lemma enumerate_all: "list_all P xs \<Longrightarrow> list_all (\<lambda>(i, l). P l) (enumerate n xs)"
  by (induction xs arbitrary: n) auto

lemma map_filter_mem: "f x = Some y \<Longrightarrow> x \<in> set xs \<Longrightarrow> y \<in> set (List.map_filter f xs)"
  by (induction xs) (auto simp: List.map_filter_simps split: option.splits)

lemma site_scan_prefix: "\<exists>zs. List.map_filter (inst_offset func_base) ls = site_scan func_base family ls @ zs"
  by (induction ls) (auto simp: List.map_filter_simps split: option.splits)

lemma window_readers: "Suc n < length (window_lines func_base family ls) \<Longrightarrow>
    \<not> instruction_reads_register (snd (window_lines func_base family ls ! n)) family"
proof (induction func_base family ls arbitrary: n rule: window_lines.induct)
  case (2 func_base family i l ls)
  then show ?case by (cases n) (auto split: option.splits if_splits)
qed simp

lemma candidate_rows:
  assumes "map Some (k # ks) = map (inst_offset (pl_func_base p) \<circ> snd) w" "distinct (k # ks)" "n < length w"
  shows "fst (candidate_row family k p (enumerate 0 w ! n)) =
    Candidate (Suc n) (n = 0) (instruction_reads_register (snd (w ! n)) family) (is_branch (snd (w ! n)))"
proof -
  have "length w = length (k # ks)" using assms(1) map_eq_imp_length_eq by metis
  then have n: "n < length (k # ks)" using assms(3) by simp
  have "inst_offset (pl_func_base p) (snd (w ! n)) = Some ((k # ks) ! n)"
    using assms(1,3) n nth_map [of n "k # ks" Some] nth_map [of n w "inst_offset (pl_func_base p) \<circ> snd"] by simp
  moreover have "(k # ks) ! n = k \<longleftrightarrow> n = 0"
    using assms(2) n nth_eq_iff_index_eq [of "k # ks" n 0] by simp
  ultimately show ?thesis
    using assms(3) by (cases "w ! n") (simp add: candidate_row_def nth_enumerate_eq)
qed

text \<open>
  C22: the scan printed for a register kprobe shows exactly the window it was placed in: the seed, then
  one numbered row for each candidate in order, the first one starred, none but the last a reader of the
  register, and at most one instruction after them.
\<close>

theorem scan_shows_window:
  assumes "site_scan (pl_func_base p) family (drop (Suc e) insts) = k # ks" "family \<noteq> []" "pl_offset p = k"
    and "step_idx \<le> e" "e < length insts" "inst_offset (pl_func_base p) (insts ! step_idx) \<noteq> None"
    and "distinct (List.map_filter (inst_offset (pl_func_base p)) (drop step_idx insts))"
  shows "\<exists>rows after. scan_marks p step_idx (Some family) (k # ks) 0 False (drop step_idx (enumerate 0 insts)) =
      (Seed_Mark, step_idx, insts ! step_idx) # rows @ after \<and>
    map (inst_offset (pl_func_base p) \<circ> snd \<circ> snd) rows = map Some (k # ks) \<and>
    (\<forall>n < length rows. fst (rows ! n) = Candidate (Suc n) (n = 0)
       (instruction_reads_register (snd (snd (rows ! n))) family) (is_branch (snd (snd (rows ! n))))) \<and>
    (\<forall>n. Suc n < length rows \<longrightarrow> \<not> instruction_reads_register (snd (snd (rows ! n))) family) \<and>
    length after \<le> 1 \<and> list_all (\<lambda>r. fst r = After_Window) after"
proof -
  let ?b = "pl_func_base p"
  let ?mid = "take (e - step_idx) (drop (Suc step_idx) insts)"
  let ?late = "enumerate (Suc e) (drop (Suc e) insts)"
  obtain c cs where fam: "family = c # cs" using assms(2) by (cases family) auto
  have step: "step_idx < length insts" using assms(4,5) by simp
  have mid: "drop (Suc step_idx) insts = ?mid @ drop (Suc e) insts"
    using assms(4) append_take_drop_id [of "e - step_idx" "drop (Suc step_idx) insts"] by simp
  then have ls: "drop step_idx insts = insts ! step_idx # ?mid @ drop (Suc e) insts"
    using Cons_nth_drop_Suc [OF step] by simp
  have len: "length ?mid = e - step_idx" using assms(4,5) by simp
  have en: "drop step_idx (enumerate 0 insts) =
      (step_idx, insts ! step_idx) # enumerate (Suc step_idx) ?mid @ ?late"
    using assms(4) len by (simp add: drop_enumerate ls enumerate_append_eq)
  obtain zs where zs: "List.map_filter (inst_offset ?b) (drop (Suc e) insts) = (k # ks) @ zs"
    using site_scan_prefix [of ?b "drop (Suc e) insts" family] assms(1) by auto
  have dis: "distinct (k # ks)" "set (List.map_filter (inst_offset ?b) ?mid) \<inter> set (k # ks) = {}"
    using assms(7) unfolding ls map_filter_append map_filter_Cons zs by auto
  then have d: "distinct (k # ks)" "\<forall>l \<in> set ?mid. \<forall>offset. inst_offset ?b l = Some offset \<longrightarrow> offset \<notin> set (k # ks)"
    using map_filter_mem [of "inst_offset ?b" _ _ ?mid] by blast+
  then have free: "list_all (\<lambda>(i, l). \<forall>offset. inst_offset ?b l = Some offset \<longrightarrow> offset \<notin> set (k # ks))
      (enumerate (Suc step_idx) ?mid)"
    by (intro enumerate_all) (simp add: list_all_iff)
  let ?w = "window_lines ?b family ?late"
  have w: "map Some (k # ks) = map (inst_offset ?b \<circ> snd) ?w"
    using window_offsets [of ?b family ?late] assms(1) by simp
  have late: "list_all (\<lambda>(i, l). i \<noteq> step_idx) ?late" "list_all (\<lambda>(i, l). i \<noteq> step_idx) (enumerate (Suc step_idx) ?mid)"
    using assms(4) enumerate_later [of step_idx "Suc e"] enumerate_later [of step_idx "Suc step_idx"] by simp_all
  obtain after where after: "scan_marks p step_idx (Some family) (k # ks) 0 False ?late =
      map (candidate_row family k p) (enumerate 0 ?w) @ after" "length after \<le> 1" "list_all (\<lambda>r. fst r = After_Window) after"
    using scan_window [of p c cs ?late "k # ks" step_idx 0] late(1) assms(1,3) by (auto simp: fam)
  let ?rows = "map (candidate_row family k p) (enumerate 0 ?w)"
  have "scan_marks p step_idx (Some family) (k # ks) 0 False (enumerate (Suc step_idx) ?mid @ ?late) = ?rows @ after"
    unfolding after(1) [symmetric] by (rule scan_skip) (use free late(2) in \<open>auto simp: list_all_iff\<close>)
  then have "scan_marks p step_idx (Some family) (k # ks) 0 False (drop step_idx (enumerate 0 insts)) =
      (Seed_Mark, step_idx, insts ! step_idx) # ?rows @ after"
    using assms(6) by (auto simp: en)
  moreover have lines: "map snd ?rows = ?w"
    by (rule nth_equalityI) (simp_all add: candidate_row_def nth_enumerate_eq split: prod.splits)
  then have "map (inst_offset ?b \<circ> snd \<circ> snd) ?rows = map Some (k # ks)"
    unfolding w by (metis (no_types, lifting) map_map comp_assoc)
  moreover have at: "snd (?rows ! n) = ?w ! n" "n < length ?w" if "n < length ?rows" for n
    using that lines nth_map [OF that, of snd] by simp_all
  moreover have "fst (?rows ! n) = Candidate (Suc n) (n = 0)
       (instruction_reads_register (snd (snd (?rows ! n))) family) (is_branch (snd (snd (?rows ! n))))"
    if "n < length ?rows" for n
    using candidate_rows [OF w d(1) at(2) [OF that]] at(1) [OF that] that by simp
  moreover have "\<not> instruction_reads_register (snd (snd (?rows ! n))) family" if "Suc n < length ?rows" for n
    using window_readers [of n ?b family ?late] at [of n] that by simp
  ultimately show ?thesis using after(2,3) by blast
qed

definition scan_insts :: "string list" where
  "scan_insts = [''[*] 10:'' @ TAB # ''mov $0x5,%eax'', ''15:'' @ TAB # ''nop'', ''16:'' @ TAB # ''add %eax,%ebx'',
     ''18:'' @ TAB # ''ret'']"

definition scan_place :: placement where
  "scan_place = \<lparr>pl_func_name = ''f'', pl_func_base = Some 16, pl_offset = 5, pl_type = ''simple'', pl_seed_offset = None,
     pl_seed_mnemonic = ''mov'', pl_reg = Some ''eax'', pl_mem_base = None, pl_mem_disp = 0, pl_write_size = 4\<rparr>"

theorem scan_shows_window_witness:
  "\<exists>rows after. scan_marks scan_place 0 (Some ''ax'') [5, 6] 0 False (drop 0 (enumerate 0 scan_insts)) =
    (Seed_Mark, 0, scan_insts ! 0) # rows @ after \<and> length rows = 2 \<and> length after \<le> 1"
proof -
  have s: "site_scan (pl_func_base scan_place) ''ax'' (drop (Suc 0) scan_insts) = [5, 6]" by code_simp
  have ne: "''ax'' \<noteq> []" and k: "pl_offset scan_place = 5" by (simp_all add: scan_place_def)
  have le: "0 \<le> (0 :: nat)" and l: "0 < length scan_insts" by (simp_all add: scan_insts_def)
  have f: "inst_offset (pl_func_base scan_place) (scan_insts ! 0) \<noteq> None" by code_simp
  have d: "distinct (List.map_filter (inst_offset (pl_func_base scan_place)) (drop 0 scan_insts))" by code_simp
  obtain rows after where r: "scan_marks scan_place 0 (Some ''ax'') [5, 6] 0 False (drop 0 (enumerate 0 scan_insts)) =
      (Seed_Mark, 0, scan_insts ! 0) # rows @ after"
    "map (inst_offset (pl_func_base scan_place) \<circ> snd \<circ> snd) rows = map Some [5, 6]" "length after \<le> 1"
    using scan_shows_window [OF s ne k le l f d] by blast
  from arg_cong [OF r(2), of length] have "length rows = 2" by simp
  with r show ?thesis by blast
qed

subsection \<open>Every listing can be printed\<close>

lemma hex_int: "h \<noteq> [] \<Longrightarrow> list_all is_hex h \<Longrightarrow> py_int 16 h \<noteq> None"
proof -
  assume h: "h \<noteq> []" "list_all is_hex h"
  have d: "py_digits 16 acc h \<noteq> None" for acc using h(2)
  proof (induction h arbitrary: acc)
    case (Cons c cs)
    then have "c \<noteq> CHR ''_''" "dig 16 c \<noteq> None"
      using is_hex_chars [of c] by (auto simp: dig_def dig_val_def is_hex_def Let_def)
    with Cons show ?case by auto
  qed simp
  obtain c cs where c: "h = c # cs" using h(1) by (cases h) auto
  have s: "py_strip h = h" using h(2) is_hex_chars by (intro strip_id) (auto simp: list_all_iff)
  have x: "\<not> starts_with ''0x'' h" "\<not> starts_with ''0X'' h"
    using h(2) by (auto simp: starts_with_iff is_hex_def is_digit_def)
  have "\<not> starts_with ''-'' h" "\<not> starts_with ''+'' h" "c \<noteq> CHR ''_''"
    using h(2) is_hex_chars [of c] by (auto simp: c)
  moreover have "drop_hex_prefix h = h" using x by (simp add: drop_hex_prefix_def)
  moreover have "py_nat 16 h \<noteq> None" using d [of 0] \<open>c \<noteq> CHR ''_''\<close> by (simp add: py_nat_def c)
  ultimately show ?thesis by (simp add: py_int_def Let_def s)
qed

lemma marker_dropped:
  assumes "list_all is_space w" "m = [] \<or> m = ''[*]''" "list_all is_space w'" "is_hex c"
  shows "\<exists>u. list_all is_space u \<and> strip_marker (w @ m @ w' @ c # t) = u @ c # t"
proof (cases "m = []")
  case True
  have c: "\<not> is_space c" "c \<noteq> CHR ''[''" using is_hex_chars [OF assms(4)] assms(4) by (auto simp: is_hex_def)
  have "\<not> (w @ w' @ c # t = u @ CHR ''['' # v \<and> list_all is_space u)" for u v
  proof
    assume e: "w @ w' @ c # t = u @ CHR ''['' # v \<and> list_all is_space u"
    have "dropWhile is_space (w @ w' @ c # t) = c # t"
      using assms(1,3) c by (simp add: list_all_iff)
    moreover have "dropWhile is_space (u @ CHR ''['' # v) = CHR ''['' # v"
      using e by (simp add: list_all_iff is_space_def)
    ultimately show False using e c by simp
  qed
  then have "fails rx_marker None (w @ w' @ c # t)"
    by (auto simp: fails_def rx_marker_def mrel_iffs)
  then have "strip_marker (w @ w' @ c # t) = w @ w' @ c # t"
    unfolding strip_marker_def rx_marker_def seqs.simps by (intro re_sub_anchored_none)
  then show ?thesis using assms True by (intro exI [of _ "w @ w'"]) simp
next
  case False
  then have m: "m = ''[*]''" using assms(2) by simp
  have c: "\<not> is_space c" using is_hex_chars [OF assms(4)] by simp
  have "runs (Many 0 is_space) None (w @ ''[*]'' @ w' @ c # t) [] (prev_after None w) (''[*]'' @ w' @ c # t) []"
    by (rule runs_Many) (use assms in \<open>auto simp: is_space_def\<close>)
  moreover have "runs (Many 0 is_space) q (w' @ c # t) [] (prev_after q w') (c # t) []" for q
    by (rule runs_Many) (use assms c in auto)
  ultimately have "runs rx_marker None (w @ ''[*]'' @ w' @ c # t) []
      (prev_after (prev_after (prev_after None w) ''[*]'') w') (c # t) []"
    unfolding rx_marker_def seqs.simps by (intro runs_Seq [OF runs_Bol] runs_Seq [OF _ runs_Seq [OF runs_lit]])
  then have r: "runs (Seq Bol (seqs [Many 0 is_space, lit ''[*]'', Many 0 is_space])) None ((w @ ''[*]'' @ w') @ c # t) []
      (prev_after None (w @ ''[*]'' @ w')) (c # t) []"
    by (simp only: prev_after_append append_assoc rx_marker_def seqs.simps)
  have "re_sub rx_marker [] ((w @ ''[*]'' @ w') @ c # t) = [] @ c # t"
    using re_sub_anchored [OF r, of "[]"] by (simp only: rx_marker_def seqs.simps) simp
  then show ?thesis by (intro exI [of _ "[]"]) (simp add: strip_marker_def m)
qed

lemma insn_addressed:
  assumes "insn_shape s rest"
  shows "line_addr (strip_marker s) \<noteq> None"
proof -
  obtain w m w' h where s: "s = w @ m @ w' @ h @ '':'' @ rest" "list_all is_space w"
    "m = [] \<or> m = ''[*]''" "list_all is_space w'" "h \<noteq> []" "list_all is_hex h"
    using assms unfolding insn_shape_def by blast
  obtain c cs where h: "h = c # cs" using s(5) by (cases h) auto
  with s(6) have "is_hex c" by simp
  from marker_dropped [OF s(2-4) this] obtain u where u: "list_all is_space u"
    "strip_marker s = u @ h @ '':'' @ rest" by (auto simp: s(1) h)
  have m: "runs (Grp 1 (Many 1 is_hex)) q (h @ '':'' @ rest) [] (prev_after q h) ('':'' @ rest) (dput 1 h [])" for q
    by (rule runs_Grp, rule runs_Many) (use s in \<open>auto simp: Suc_le_eq is_hex_def\<close>)
  have "runs (Many 0 is_space) None (u @ h @ '':'' @ rest) [] (prev_after None u) (h @ '':'' @ rest) []"
    by (rule runs_Many) (use u h s(6) is_hex_chars in auto)
  from runs_Seq [OF runs_Bol runs_Seq [OF this runs_Seq [OF m runs_lit]]]
  have "re_match rx_addr (strip_marker s) = Some ([(1, h)], rest)"
    unfolding u(2) rx_addr_def seqs.simps by (intro runs_match) simp
  with hex_int [OF s(5,6)] show ?thesis by (simp add: line_addr_def group_def dget_def)
qed

definition addressed :: "bb \<Rightarrow> bool" where
  "addressed b \<longleftrightarrow> list_all (\<lambda>l. line_addr (clean_line l) \<noteq> None) (all_instructions b)"

lemma addressed_instruction: "addressed b \<Longrightarrow> py_strip s = s \<Longrightarrow> addressed (bb_instruction s ls b)"
proof -
  assume b: "addressed b" "py_strip s = s"
  show ?thesis
  proof (cases "re_match rx_bb_insn s")
    case None
    with b show ?thesis by (simp add: bb_instruction_def)
  next
    case (Some r)
    then have "\<exists>p rest. mrel rx_bb_insn None s p rest"
      using re_exec_mrel by (fastforce simp: re_match_def split: option.splits)
    then have "line_addr (clean_line s) \<noteq> None"
      using insn_addressed by (auto simp: bb_insn_shape clean_line_def b(2))
    with b Some show ?thesis
      by (auto simp: bb_instruction_def addressed_def note_changed_def Let_def split: prod.splits)
  qed
qed

lemma addressed_step: "addressed b \<Longrightarrow> addressed (bb_step l ls b)"
proof -
  assume b: "addressed b"
  then have "addressed (b\<lparr>raw_lines := raw_lines b @ [l]\<rparr>)" by (simp add: addressed_def)
  then show ?thesis
    using addressed_instruction [OF _ strip_idem]
    by (auto simp: bb_step_def Let_def addressed_def split: option.splits)
qed

lemma addressed_scan: "(\<And>b. cur = Some b \<Longrightarrow> addressed b) \<Longrightarrow> list_all addressed (scan_blocks cur ls)"
proof (induction cur ls rule: scan_blocks.induct)
  case (2 cur l ls)
  have "addressed empty_bb" by (simp add: addressed_def empty_bb_def)
  with 2 show ?case by (auto simp: addressed_step split: option.splits)
qed (auto split: option.splits)

lemma read_addressed: "b \<in> set (extract_all_basic_blocks_from_file file) \<Longrightarrow> addressed b"
proof -
  assume "b \<in> set (extract_all_basic_blocks_from_file file)"
  then obtain c b0 where "b0 \<in> set (scan_blocks None (readlines c))" "b = add_offsets file b0"
    by (auto simp: extract_all_basic_blocks_from_file_def split: option.splits)
  moreover have "list_all addressed (scan_blocks None (readlines c))" for c by (rule addressed_scan) simp
  moreover have "all_instructions (add_offsets file b0) = all_instructions b0" for b0
    by (auto simp: add_offsets_def Let_def split: option.splits)
  ultimately show ?thesis by (fastforce simp: addressed_def list_all_iff)
qed

lemma synthesis_seed:
  assumes "plan_of func_base b states ar vs iv = Inr (Some (k, ks, syn, r))" "addressed b"
  shows "syn \<noteq> Irreversible None e f"
proof -
  have seed: "seed_offset_at func_base i (all_instructions b) \<noteq> None" if "seed_irreversible i (all_instructions b)" for i
  proof -
    have "base_seed_mnemonic i (all_instructions b) \<noteq> []"
      using that by (auto simp: seed_irreversible_def irreversible_base_def)
    then have "i < length (all_instructions b)"
      by (auto simp: base_seed_mnemonic_def seed_mnemonic_at_def line_at_def split: if_splits)
    with assms(2) show ?thesis
      by (simp add: seed_offset_at_def line_at_def inst_offset_def addressed_def list_all_length)
  qed
  show ?thesis
    using assms(1) by (cases iv) (auto simp: plan_of_def memory_plan_def cmp_plan_def register_plan_def Let_def
        bindr_Inr_conv split: if_splits option.splits prod.splits dest: seed)
qed

lemma block_seed:
  assumes "synth_block file vs i b1 b2 b3 = Inr (found, Some kp)" "addressed b1"
  shows "kp_synthesis kp \<noteq> Irreversible None e f"
  using assms(1)
  by (auto simp: synth_block_def Let_def bindr_Inr_conv split: prod.splits if_splits option.splits
      dest!: synthesis_seed [OF _ assms(2), of _ _ _ _ _ _ _ _ _ e f])

lemma listing_printed:
  assumes "\<And>e f. kp_synthesis kp \<noteq> Irreversible None e f"
  shows "\<exists>ls. kprobe_listing func_base step_idx kp = Inr ls"
proof -
  let ?p = "placement_of_kprobe func_base kp"
  have "\<exists>ls. scan_summary ?p n = Inr ls" for n
    using assms by (cases "kp_synthesis kp") (auto simp: scan_summary_def placement_of_kprobe_def Let_def split: option.splits)
  then obtain ls where "scan_summary ?p (length (kp_candidate_offsets kp)) = Inr ls" by blast
  then show ?thesis by (simp add: kprobe_listing_def print_jump_optimization_def Let_def)
qed

text \<open>
  C23: showing a kprobe never raises: the summary of the scan formats the offset of the seed, and every
  kprobe that needs it has one, because every line the reader of the blocks keeps has an address.
\<close>

theorem listings_never_raise:
  assumes "synth_blocks f1 f2 f3 vs = Inr (Some kps)" "kp \<in> set kps"
  shows "\<exists>ls. kprobe_listing func_base step_idx kp = Inr ls"
proof -
  let ?b = "\<lambda>f i. extract_all_basic_blocks_from_file f ! i"
  let ?n = "min (length (extract_all_basic_blocks_from_file f1))
    (min (length (extract_all_basic_blocks_from_file f2)) (length (extract_all_basic_blocks_from_file f3)))"
  from assms(1) obtain rs where rs: "mapr (\<lambda>i. synth_block f1 vs i (?b f1 i) (?b f2 i) (?b f3 i)) [0..<?n] = Inr rs"
    and kps: "kps = List.map_filter snd rs"
    by (auto simp: synth_blocks_def Let_def bindr_Inr_conv split: if_splits)
  from assms(2) obtain i where i: "i < length rs" "snd (rs ! i) = Some kp"
    unfolding kps by (auto simp: map_filter_eq in_set_conv_nth)
  then have "i < ?n" using mapr_Inr_length [OF rs] by simp
  then have "synth_block f1 vs i (?b f1 i) (?b f2 i) (?b f3 i) = Inr (fst (rs ! i), Some kp)"
    using mapr_nth [OF rs, of i] i(2) by (cases "rs ! i") simp
  moreover have "addressed (?b f1 i)" using \<open>i < ?n\<close> by (intro read_addressed [of _ f1]) simp
  ultimately show ?thesis using block_seed by (intro listing_printed) blast
qed

theorem listings_never_raise_witness:
  "\<exists>kp ls. synth_blocks (demo_file ''0x5'') (demo_file ''0x6'') (demo_file ''0x7'') (5, 6, 7) = Inr (Some [kp]) \<and>
     kprobe_listing None 0 kp = Inr ls"
proof -
  obtain kp where kp: "synth_blocks (demo_file ''0x5'') (demo_file ''0x6'') (demo_file ''0x7'') (5, 6, 7) = Inr (Some [kp])"
    using demo_kprobe by blast
  from listings_never_raise [OF this] show ?thesis using kp by simp
qed

subsection \<open>Differences\<close>

lemma compare_refl: "compare_expressions seq seq = []"
  by (auto simp: compare_expressions_def List.map_filter_def difference_at_def filter_empty_conv split: prod.splits)

text \<open>
  Without verbose mode nothing is said of the differences, except that the first and the third run
  do not differ; and when the second run is empty, the first and the third are compared under the names
  of the first and the second.
\<close>

lemma shown_without_verbose:
  assumes "seq1 \<noteq> []" "seq2 \<noteq> []" "seq3 \<noteq> []"
  shows "map snd (filter (\<lambda>l. \<not> fst l) (show_expression_diff const_id seq1 seq2 seq3)) =
    (if compare_expressions seq1 seq3 = [] then [''No differences between v1 and v3'', []] else [])"
  using assms by (simp add: show_expression_diff_def print_expression_diff_def pair_lines_def changed_lines_def Let_def)

lemma third_shown_as_second:
  assumes "seq1 \<noteq> []"
  shows "show_expression_diff const_id seq1 [] seq1 = print_expression_diff (''Test Group '' @ const_id) seq1 seq1 []"
    and "(True, ''No differences between v1 and v2'') \<in> set (show_expression_diff const_id seq1 [] seq1)"
  using assms by (simp_all add: show_expression_diff_def print_expression_diff_def pair_lines_def compare_refl Let_def)

end
