(* ===== verification/Single_Gen.thy ===== *)
theory Single_Gen
  imports Bpf_Gen Kcore_Translate
begin

text \<open>
  The generators for a group with one kprobe (\<open>src/src/codegen.py\<close>: \<open>generate_bpf_kprobe_file\<close>,
  \<open>generate_bpf_user_policy_file\<close>, \<open>generate_bpf_file_for_group\<close>). No command calls them: the
  pipeline uses \<open>generate_multi_kprobe_bpf_file\<close> of \<open>Bpf_Gen\<close>.
\<close>

section \<open>The expression\<close>

text \<open>As \<open>build_expr\<close>, but without parentheses around a negated value and without a cast.\<close>

definition single_int_expr :: "int \<Rightarrow> int \<Rightarrow> string" where
  "single_int_expr a_int b_int =
     (if b_int = 0 then
        (if a_int = 1 then ''val''
         else if a_int = -1 then ''-val''
         else ''(val * '' @ py_str a_int @ '')'')
      else if a_int = 1 then ''(val + '' @ py_str b_int @ '')''
      else if a_int = -1 then ''(-val + '' @ py_str b_int @ '')''
      else ''((val * '' @ py_str a_int @ '') + '' @ py_str b_int @ '')'')"

definition single_expr :: "f64 \<Rightarrow> f64 \<Rightarrow> string res" where
  "single_expr a b =
     bindr (both_near_int a b) (\<lambda>ints.
       if ints then bindr (to_int a) (\<lambda>a_int. bindr (to_int b) (\<lambda>b_int. Inr (single_int_expr a_int b_int)))
       else Inr (''((val * '' @ fmt6 a @ '') + '' @ fmt6 b @ '')''))"

section \<open>Registers\<close>

definition single_reg64 :: "(string, string) dict" where
  "single_reg64 = [
     (''eax'', ''rax''), (''ebx'', ''rbx''), (''ecx'', ''rcx''), (''edx'', ''rdx''),
     (''esi'', ''rsi''), (''edi'', ''rdi''), (''ebp'', ''rbp''), (''esp'', ''rsp''),
     (''r8d'', ''r8''), (''r9d'', ''r9''), (''r10d'', ''r10''), (''r11d'', ''r11''),
     (''r12d'', ''r12''), (''r13d'', ''r13''), (''r14d'', ''r14''), (''r15d'', ''r15'')]"

definition reg_to_ptregs :: "(string, string) dict" where
  "reg_to_ptregs = [
     (''rax'', ''ax''), (''rbx'', ''bx''), (''rcx'', ''cx''), (''rdx'', ''dx''),
     (''rsi'', ''si''), (''rdi'', ''di''), (''rbp'', ''bp''), (''rsp'', ''sp''),
     (''r8'', ''r8''), (''r9'', ''r9''), (''r10'', ''r10''), (''r11'', ''r11''),
     (''r12'', ''r12''), (''r13'', ''r13''), (''r14'', ''r14''), (''r15'', ''r15''),
     (''eax'', ''ax''), (''ebx'', ''bx''), (''ecx'', ''cx''), (''edx'', ''dx''),
     (''esi'', ''si''), (''edi'', ''di''), (''ebp'', ''bp''), (''esp'', ''sp'')]"

section \<open>The texts\<close>

definition backslash :: string where "backslash = [CHR 0x5C]"

definition single_header :: "string \<Rightarrow> string \<times> string \<times> string \<times> string \<Rightarrow> int \<Rightarrow> string \<Rightarrow> string \<Rightarrow>
    string \<Rightarrow> string" where
  "single_header stub = (\<lambda>(fname, first_at, changed_at, kprobe_at) offset target_reg rel expr.
     let helper_name = ''impl_sie_logic_cs'' @ stub;
         base_reg = dget single_reg64 target_reg target_reg;
         field = dget reg_to_ptregs base_reg base_reg;
         expr_comment = py_replace ''V'' ''val'' (py_replace ''IV'' target_reg rel)
     in join [NL] [
      ''// Generated BPF kprobe header for test group '' @ stub,
      ''// Function: '' @ fname,
      ''// Offset: 0x'' @ py_upper (hex_of offset) @ '' (changed instruction at 0x'' @ changed_at @ '', kprobe attach at offset 0x'' @ kprobe_at @ '')'',
      ''// Linear relationship: '' @ rel,
      ''// Target register: %'' @ target_reg @ '' (base: %'' @ base_reg @ '')'',
      [],
      ''#include '' @ DQ1 @ ''vmlinux.h'' @ DQ1,
      ''#include <bpf/bpf_helpers.h>'',
      ''#include <bpf/bpf_tracing.h>'',
      [],
      ''#include '' @ DQ1 @ ''xkernel.bpf.h'' @ DQ1,
      [],
      ''// 1. Helper: SIE Indirection'',
      ''static __always_inline void '' @ helper_name @ ''('',
      ''    struct pt_regs *regs, u64 val) {'',
      ''    // Recovered symbolic state expression'',
      ''    // '' @ expr_comment,
      ''    u64 new_'' @ field @ '' = '' @ expr @ '';'',
      ''    '',
      ''    // Writing back to pt_regs using the kfunc'',
      ''    sie_write_kernel(&regs->'' @ field @ '', sizeof(regs->'' @ field @ ''), &new_'' @ field @ '');'',
      ''}'',
      [],
      ''// 2. X_TUNE macro: wraps BPF_KPROBE and calls user policy'',
      ''// Usage: X_TUNE(function_name, '' @ DQ1 @ ''file_path:L<line>:<col>:0x<offset>'' @ DQ1 @ '') { ... }'',
      ''// The macro expands to:'',
      ''//   - A forward declaration of __user_policy_<func_name>'',
      ''//   - A BPF_KPROBE function that sets up x_ctx and calls __user_policy_<func_name>'',
      ''//   - The actual __user_policy_<func_name> function definition (user provides body)'',
      ''#define X_TUNE(func_name, location_str) '' @ backslash,
      ''    static int __user_policy_##func_name(struct x_ctx *x_ctx, struct pt_regs *ctx); '' @ backslash,
      ''    SEC('' @ DQ1 @ ''kprobe/'' @ DQ1 @ '' #func_name location_str) '' @ backslash,
      ''    int BPF_KPROBE(impl_cs_'' @ stub @ '') { '' @ backslash,
      ''        struct x_ctx x_ctx_local = { '' @ backslash,
      ''            .regs = ctx, '' @ backslash,
      ''            .set_fn = &'' @ helper_name @ '', '' @ backslash,
      ''        }; '' @ backslash,
      ''        return __user_policy_##func_name(&x_ctx_local, ctx); '' @ backslash,
      ''    } '' @ backslash,
      ''    static int __user_policy_##func_name(struct x_ctx *x_ctx, struct pt_regs *ctx)'',
      []])"

text \<open>
  The header; \<open>None\<close> when the file names no function or marks no instruction with one after it, or
  when the address is no number.
\<close>

definition generate_bpf_kprobe_file :: "string \<Rightarrow> string option \<Rightarrow> f64 \<times> f64 \<Rightarrow> string \<Rightarrow> string option res" where
  "generate_bpf_kprobe_file stub v1_file relationship target_reg =
     (case extract_function_info_from_bb_file v1_file of
        None \<Rightarrow> Inr None
      | Some info \<Rightarrow> (case py_int 16 (snd (snd (snd info))) of
          None \<Rightarrow> Inr None
        | Some offset \<Rightarrow>
            bindr (single_expr (fst relationship) (snd relationship)) (\<lambda>expr.
            bindr (rel_str (fst relationship) (snd relationship)) (\<lambda>rel.
              Inr (Some (single_header stub info offset target_reg rel expr))))))"

definition generate_bpf_user_policy_file :: "string \<Rightarrow> string \<Rightarrow> int \<Rightarrow> string" where
  "generate_bpf_user_policy_file stub fname offset =
     (let location_str = DQ1 @ ''+'' @ hex0x offset @ DQ1 in join [NL] [
      ''#include '' @ DQ1 @ ''xtune_stub_'' @ stub @ ''.bpf.h'' @ DQ1,
      [],
      ''X_TUNE('' @ fname @ '', '' @ location_str @ '') {'',
      ''    // 1. Safety guard (mandatory)'',
      ''    if (!x_transition_done(x_ctx)) return 0;'',
      ''    // 2. User policy logic'',
      ''    // TODO: Implement your policy logic here'',
      ''    return 0;'',
      ''} /* xtune_stub_'' @ stub @ ''.bpf.c */'',
      []])"

text \<open>
  Both files: what is written, in order, and the paths that are returned. The directory is the given
  one or that of the listing (\<open>v1_dir\<close>).
\<close>

definition generate_bpf_file_for_group :: "string \<Rightarrow> string option \<Rightarrow> (f64 \<times> f64) option \<Rightarrow> string \<Rightarrow>
    bool \<Rightarrow> string option \<Rightarrow> string option \<Rightarrow> string \<Rightarrow>
    ((string \<times> string) list \<times> (string \<times> string option) option) res" where
  "generate_bpf_file_for_group stub v1_file relationship target_reg insertion_found file_path output_dir v1_dir =
     (case relationship of
        None \<Rightarrow> Inr ([], None)
      | Some rel \<Rightarrow>
          if \<not> insertion_found then Inr ([], None)
          else bindr (generate_bpf_kprobe_file stub v1_file rel target_reg) (\<lambda>code. case code of
            None \<Rightarrow> Inr ([], None)
          | Some bpf_code \<Rightarrow>
              let dir = (case output_dir of None \<Rightarrow> v1_dir | Some d \<Rightarrow> d);
                  internal_file = path_join dir (''xtune_stub_'' @ stub @ ''.bpf.h'');
                  user_policy_file = path_join dir (''xtune_stub_'' @ stub @ ''.bpf.c'')
              in Inr (case (if file_path = None \<or> file_path = Some [] then None
                            else extract_function_info_from_bb_file v1_file) of
                   None \<Rightarrow> ([(internal_file, bpf_code)], Some (internal_file, None))
                 | Some (fname, first_at, changed_at, kprobe_at) \<Rightarrow>
                     (case py_int 16 kprobe_at of
                        None \<Rightarrow> ([(internal_file, bpf_code)], Some (internal_file, None))
                      | Some offset \<Rightarrow>
                          ([(internal_file, bpf_code),
                            (user_policy_file, generate_bpf_user_policy_file stub fname offset)],
                           Some (internal_file, Some user_policy_file))))))"

section \<open>Properties\<close>

text \<open>
  For integer coefficients the expression is that of \<open>build_expr\<close>, less the parentheses around the
  negated value, which bind no differently in C.
\<close>

lemma negated_expr: "single_int_expr (- 1) b = (if b = 0 then ''-val'' else ''(-val + '' @ py_str b @ '')'') \<and>
    int_expr (- 1) b = (if b = 0 then ''(-val)'' else ''((-val) + '' @ py_str b @ '')'')"
  by (simp add: single_int_expr_def int_expr_def)

lemma same_expr: "a \<noteq> - 1 \<Longrightarrow> single_int_expr a b = int_expr a b"
  by (simp add: single_int_expr_def int_expr_def)

text \<open>
  The two files come together: when a header is generated for a group with a source path, the policy
  that includes it is written beside it, to the kprobe at the instruction after the marked one; the branch
  for an address that is no number is not reached.
\<close>

lemma policy_beside_header:
  assumes "generate_bpf_file_for_group stub v1_file relationship target_reg found (Some (c # cs)) output_dir v1_dir
      = Inr (written_files, Some (header, policy))"
  shows "\<exists>code fname a1 a2 a3 offset. extract_function_info_from_bb_file v1_file = Some (fname, a1, a2, a3) \<and>
    py_int 16 a3 = Some offset \<and> policy = Some (path_join (case output_dir of None \<Rightarrow> v1_dir | Some d \<Rightarrow> d)
      (''xtune_stub_'' @ stub @ ''.bpf.c'')) \<and>
    written_files = [(header, code), (the policy, generate_bpf_user_policy_file stub fname offset)]"
  using assms
  by (auto simp: generate_bpf_file_for_group_def generate_bpf_kprobe_file_def bindr_Inr_conv Let_def
      split: option.splits if_splits)

end
