(* ===== verification/Cli_Main.thy ===== *)
theory Cli_Main
  imports Cli_Build Cli_Commands XTune_Gen Lifecycle_Inv
begin

text \<open>
  The command line as a whole (\<open>src/src/cli.py\<close>: \<open>main\<close>, \<open>cmd_doctor\<close>, \<open>cmd_setup\<close>): the commands of the
  other theories under their names. What a command prints is not kept; the results of \<open>status\<close>,
  \<open>transition-stats\<close> and \<open>clean\<close> are properties of their own theories.
\<close>

section \<open>Commands\<close>

text \<open>The parameters of the commands: paths, number of processors, build tools, configuration reader.\<close>

record cli =
  cl_root :: string
  cl_python :: string
  cl_jobs :: string
  cl_tools :: build_tools
  cl_load_configs :: "bool \<Rightarrow> string \<Rightarrow> (string \<times> tunable list) res"

definition unprinted :: "'a io \<Rightarrow> unit io" where
  "unprinted m = bindio m (\<lambda>_. ret ())"

definition script_path :: "string \<Rightarrow> string \<Rightarrow> string" where
  "script_path project_root name = path_join (path_join project_root ''scripts'') name"

definition cmd_doctor :: "string \<Rightarrow> unit io" where
  "cmd_doctor project_root = (let check_deps = script_path project_root ''check_deps.sh'' in
     bindio (ask (\<lambda>h es. h_exists h es check_deps)) (\<lambda>present.
       if present then run_ignored [''bash'', check_deps] else exit_with 1))"

definition cmd_setup :: "string \<Rightarrow> string list \<Rightarrow> unit io" where
  "cmd_setup project_root args = (let install_script = script_path project_root ''install_deps.sh'' in
     bindio (ask (\<lambda>h es. h_exists h es install_script)) (\<lambda>present.
       if \<not> present then exit_with 1
       else bindio (run ([''sudo'', ''bash'', install_script] @ args)) (\<lambda>(code, out). exit_with code)))"

definition show_help :: "unit io" where
  "show_help = exit_with 1"

definition cli_commands :: "cli \<Rightarrow> (string, string list \<Rightarrow> unit io) dict" where
  "cli_commands c =
     [(''run'', cmd_run (cl_tools c) (cl_load_configs c) (cl_jobs c) (cl_root c)),
      (''build'', cmd_build (cl_tools c) (cl_load_configs c) (cl_root c)),
      (''load'', cmd_load (cl_jobs c) (cl_root c)),
      (''unload'', cmd_unload),
      (''status'', (\<lambda>args. unprinted cmd_status)),
      (''table'', cmd_table (cl_python c) (cl_root c)),
      (''trace'', (\<lambda>args. ret ())),
      (''transition-stats'', (\<lambda>args. unprinted (cmd_transition_stats args))),
      (''gen'', cmd_gen (cl_root c)),
      (''clean'', (\<lambda>args. unprinted (cmd_clean (cl_root c) args))),
      (''doctor'', (\<lambda>args. cmd_doctor (cl_root c))),
      (''setup'', cmd_setup (cl_root c))]"

definition main :: "cli \<Rightarrow> string list \<Rightarrow> unit io" where
  "main c argv = (case argv of
     [] \<Rightarrow> show_help
   | command # args \<Rightarrow> (case map_of (cli_commands c) command of
       None \<Rightarrow> show_help
     | Some cmd \<Rightarrow> cmd args))"

section \<open>Properties\<close>

definition changing_commands :: "string list" where
  "changing_commands = [''run'', ''build'', ''load'', ''unload'', ''table'', ''gen'', ''clean'']"

lemma untouched_state: "untouched.keeps p get_runtime_state" "untouched.keeps p is_kfuncs_loaded"
  unfolding get_runtime_state_def is_kfuncs_loaded_def module_loaded_def
  by (intro untouched.keeps_intros)+

lemma untouched_exit: "untouched.keeps p (exit_with n)"
  by (simp add: exit_with_def untouched.keeps_basic)

lemma untouched_status: "untouched.keeps p (unprinted cmd_status)"
  unfolding unprinted_def cmd_status_def by (intro untouched.keeps_intros untouched_state)

lemma untouched_stats: "untouched.keeps p (unprinted (cmd_transition_stats args))"
  unfolding unprinted_def cmd_transition_stats_def
  by (cases args) (auto intro!: untouched.keeps_intros untouched_state untouched_exit)

lemma untouched_scripts: "untouched.keeps p (cmd_doctor r)" "untouched.keeps p (cmd_setup r args)"
  unfolding cmd_doctor_def cmd_setup_def Let_def by (intro untouched.keeps_intros untouched_exit)+

lemma looking_commands:
  "map_of (cli_commands c) ''status'' = Some (\<lambda>args. unprinted cmd_status)"
  "map_of (cli_commands c) ''trace'' = Some (\<lambda>args. ret ())"
  "map_of (cli_commands c) ''transition-stats'' = Some (\<lambda>args. unprinted (cmd_transition_stats args))"
  "map_of (cli_commands c) ''doctor'' = Some (\<lambda>args. cmd_doctor (cl_root c))"
  "map_of (cli_commands c) ''setup'' = Some (cmd_setup (cl_root c))"
  by (simp_all add: cli_commands_def)

lemma command_names: "fst ` set (cli_commands c) = set changing_commands \<union>
    {''status'', ''trace'', ''transition-stats'', ''doctor'', ''setup''}"
  by (simp add: cli_commands_def changing_commands_def insert_commute)

text \<open>
  Whatever is asked of them and whatever goes wrong, the commands that only look, the scripts, an
  unknown command and no command at all leave every file as it is: the tables, the run-time state and
  the policies are changed by \<open>run\<close>, \<open>build\<close>, \<open>load\<close>, \<open>unload\<close>, \<open>table\<close>, \<open>gen\<close> and \<open>clean\<close> alone.
\<close>

lemma others_change_nothing:
  assumes "argv = [] \<or> hd argv \<notin> set changing_commands"
  shows "files (fst (main c argv h w)) = files w"
proof -
  have "untouched.keeps p (main c argv)" for p
  proof (cases argv)
    case Nil
    then show ?thesis by (simp add: main_def show_help_def untouched_exit)
  next
    case (Cons command args)
    show ?thesis
    proof (cases "command \<in> {''status'', ''trace'', ''transition-stats'', ''doctor'', ''setup''}")
      case True
      then obtain cmd where "map_of (cli_commands c) command = Some cmd" "untouched.keeps p (cmd args)"
        using looking_commands [of c] untouched_status [of p] untouched_stats [of p args] untouched_scripts [of p "cl_root c"]
          untouched.keeps_basic(1) [of p "()"] by fastforce
      then show ?thesis by (simp add: main_def Cons)
    next
      case False
      with assms Cons have "map_of (cli_commands c) command = None"
        unfolding map_of_eq_None_iff command_names by simp
      then show ?thesis by (simp add: main_def Cons show_help_def untouched_exit)
    qed
  qed
  then have "files w p = files (fst (main c argv h w)) p" for p
    using untouched.keepsD by (metis same_file_def)
  then show ?thesis by (simp add: fun_eq_iff)
qed

text \<open>
  A session: commands in any order, with any arguments, whatever the kernel answers. \<open>load\<close> may fail at
  any point; \<open>unload\<close> is a step when it returns, \<open>clean\<close> when the runtime directory can be removed; the
  tables are built before it.
\<close>

inductive session :: "cli \<Rightarrow> world \<Rightarrow> bool" for c where
  fresh: "files w RUNTIME_STATE_PATH = None \<Longrightarrow> scope_rows (cl_root c) w rows \<Longrightarrow>
    \<forall>r \<in> set rows. \<not> active_row r \<Longrightarrow> session c w"
| command: "session c w \<Longrightarrow> main c argv h w = (w', res) \<Longrightarrow>
    argv = [] \<or> hd argv \<notin> set changing_commands \<or> hd argv = ''load'' \<or> hd argv = ''unload'' \<and> res = Inr () \<or>
      hd argv = ''clean'' \<and> h_exists h (events w) shm_dir \<and> \<not> h_unremovable h (events w) shm_dir \<Longrightarrow>
    session c w'"

lemma in_step_files: "files w' = files w \<Longrightarrow> in_step project_root w A rows \<Longrightarrow> in_step project_root w' A rows"
  by (simp add: in_step_def runtime_def scope_def)

lemma session_in_step: "session c w \<Longrightarrow> \<exists>A rows. in_step (cl_root c) w A rows"
proof (induction rule: session.induct)
  case (fresh w rows)
  then have "in_step (cl_root c) w [] rows"
    by (simp add: in_step_rows runtime_def agree_def list_all_iff)
  then show ?case by blast
next
  case (command w argv h w' res)
  then obtain A rows where s: "in_step (cl_root c) w A rows" by blast
  consider "argv = [] \<or> hd argv \<notin> set changing_commands" | args where "argv = ''load'' # args"
    | args where "argv = ''unload'' # args" "res = Inr ()"
    | args where "argv = ''clean'' # args" "h_exists h (events w) shm_dir" "\<not> h_unremovable h (events w) shm_dir"
    using command.hyps(3) by (cases argv) auto
  then show ?case
  proof cases
    case 1
    from others_change_nothing [OF this, of c h w] command.hyps(2) have "files w' = files w" by simp
    with s in_step_files show ?thesis by blast
  next
    case 2
    have "cmd_load (cl_jobs c) (cl_root c) args h w = (w', res)"
      using command.hyps(2) by (simp add: 2 main_def cli_commands_def)
    with s load_outcome show ?thesis by meson
  next
    case 3
    have "cmd_unload args h w = (w', Inr ())"
      using command.hyps(2) by (simp add: 3 main_def cli_commands_def)
    with s unload_outcome show ?thesis by meson
  next
    case 4
    obtain w1 r where r: "cmd_clean (cl_root c) args h w = (w1, r)" by force
    have "main c argv h w = unprinted (cmd_clean (cl_root c) args) h w"
      by (simp add: 4 main_def cli_commands_def)
    then have "w' = w1"
      using command.hyps(2) by (auto simp: unprinted_def io_simps r split: sum.splits)
    then have "files w' p = None" if "below shm_dir p" for p
      using clean_forgets [OF 4(2,3) that, of "cl_root c" args] r by simp
    moreover have "below shm_dir SCOPE_TABLE" "below shm_dir RUNTIME_STATE_PATH" by code_simp+
    ultimately have "in_step (cl_root c) w' [] []"
      by (simp add: in_step_def runtime_def scope_def)
    then show ?thesis by blast
  qed
qed

text \<open>
  C9: in every state of a session the scope table shows a constant as active exactly when the run-time
  state lists it, whatever was loaded, unloaded, cleaned and looked at in between and whichever commands failed.
\<close>

theorem sessions_agree:
  assumes "session c w"
  shows "\<exists>A rows. runtime w A \<and> scope w rows \<and> (\<forall>r \<in> set rows. r ! 6 = ''active'' \<longleftrightarrow> r ! 0 \<in> fst ` set A)"
  using session_in_step [OF assms] by (force simp: in_step_def list_all_iff active_row_def)

definition sample_cli :: cli where
  "sample_cli = \<lparr>cl_root = ''/x'', cl_python = ''python3'', cl_jobs = ''4'', cl_tools = no_diff_tools,
     cl_load_configs = (\<lambda>a t. Inl FileNotFound)\<rparr>"

lemma session_status:
  "session sample_cli (fst (main sample_cli [''status''] willing_host (fst load_one)))"
proof -
  have "session sample_cli ready_world"
    by (rule session.fresh [of _ _ "[one_row ''ready'']"]) (simp_all add: ready_world scope_rows_def sample_cli_def)
  then have "session sample_cli (fst load_one)"
    by (rule session.command [of _ _ "[''load'', ''0'', ''1'']" willing_host _ "snd load_one"])
      (simp_all add: load_one_def main_def cli_commands_def sample_cli_def)
  then show ?thesis
    by (rule session.command [of _ _ "[''status'']" willing_host _
          "snd (main sample_cli [''status''] willing_host (fst load_one))"]) (simp_all add: changing_commands_def)
qed

theorem sessions_agree_witness:
  "\<exists>A rows. runtime (fst (main sample_cli [''status''] willing_host (fst load_one))) A \<and>
    scope (fst (main sample_cli [''status''] willing_host (fst load_one))) rows \<and>
    (\<forall>r \<in> set rows. r ! 6 = ''active'' \<longleftrightarrow> r ! 0 \<in> fst ` set A)"
  by (rule sessions_agree [OF session_status])

end
