(* ===== verification/Helper_Run.thy ===== *)
theory Helper_Run
  imports Bpf_Gen "HOL-Library.Word"
begin

unbundle bit_operations_syntax

text \<open>
  What the generated helpers do. The helpers are C text; this is an interpreter for the C they
  are written in: the types \<open>int\<close>, \<open>u32\<close>, \<open>long\<close> and \<open>u64\<close> with the usual conversions,
  expressions in which every operation stands in parentheses, and the statements the generator
  uses. It reads the lines of a helper as they are written and gives the registers after it.
\<close>

section \<open>Expressions\<close>

datatype ctype = C_Int | C_U32 | C_Long | C_U64

type_synonym cval = "ctype \<times> int"

text \<open>Unsigned values wrap; a signed one that does not fit has no value (undefined behaviour).\<close>

fun fit :: "ctype \<Rightarrow> int \<Rightarrow> cval option" where
  "fit C_Int n = (if - (2 ^ 31) \<le> n \<and> n < 2 ^ 31 then Some (C_Int, n) else None)"
| "fit C_U32 n = Some (C_U32, take_bit 32 n)"
| "fit C_Long n = (if - (2 ^ 63) \<le> n \<and> n < 2 ^ 63 then Some (C_Long, n) else None)"
| "fit C_U64 n = Some (C_U64, take_bit 64 n)"

fun c_rank :: "ctype \<Rightarrow> nat" where
  "c_rank C_Int = 0"
| "c_rank C_U32 = 1"
| "c_rank C_Long = 2"
| "c_rank C_U64 = 3"

fun c_width :: "ctype \<Rightarrow> int" where
  "c_width C_Int = 32"
| "c_width C_U32 = 32"
| "c_width C_Long = 64"
| "c_width C_U64 = 64"

definition usual_type :: "ctype \<Rightarrow> ctype \<Rightarrow> ctype" where
  "usual_type t u = (if c_rank t \<le> c_rank u then u else t)"

datatype cop = Op_Add | Op_Sub | Op_Mul | Op_And | Op_Or | Op_Xor | Op_Shl | Op_Shr | Op_Gt

datatype cexp =
    E_Lit cval
  | E_Var string
  | E_Neg cexp
  | E_Cast ctype cexp
  | E_Bin cop cexp cexp
  | E_Cond cexp cexp cexp

definition c_arith :: "cop \<Rightarrow> int \<Rightarrow> int \<Rightarrow> int" where
  "c_arith opr x y = (case opr of
     Op_Add \<Rightarrow> x + y | Op_Sub \<Rightarrow> x - y | Op_Mul \<Rightarrow> x * y
   | Op_And \<Rightarrow> x AND y | Op_Or \<Rightarrow> x OR y | _ \<Rightarrow> x XOR y)"

definition c_binary :: "cop \<Rightarrow> cval \<Rightarrow> cval \<Rightarrow> cval option" where
  "c_binary opr v w = (case (v, w) of ((t, x), (u, y)) \<Rightarrow>
     if opr = Op_Shl \<or> opr = Op_Shr then
       (if 0 \<le> y \<and> y < c_width t \<and> 0 \<le> x
        then fit t (if opr = Op_Shl then push_bit (nat y) x else drop_bit (nat y) x) else None)
     else let r = usual_type t u in
       (case (fit r x, fit r y) of
          (Some (_, m), Some (_, n)) \<Rightarrow>
            if opr = Op_Gt then Some (C_Int, if m > n then 1 else 0) else fit r (c_arith opr m n)
        | _ \<Rightarrow> None))"

fun c_value :: "(string \<Rightarrow> cval option) \<Rightarrow> cexp \<Rightarrow> cval option" where
  "c_value env (E_Lit v) = Some v"
| "c_value env (E_Var x) = env x"
| "c_value env (E_Neg e) = (case c_value env e of None \<Rightarrow> None | Some (t, n) \<Rightarrow> fit t (- n))"
| "c_value env (E_Cast t e) = (case c_value env e of None \<Rightarrow> None | Some (_, n) \<Rightarrow> fit t n)"
| "c_value env (E_Bin opr e f) = (case (c_value env e, c_value env f) of
     (Some v, Some w) \<Rightarrow> c_binary opr v w | _ \<Rightarrow> None)"
| "c_value env (E_Cond e f g) = (case (c_value env e, c_value env f, c_value env g) of
     (Some (_, n), Some (t, x), Some (u, y)) \<Rightarrow> fit (usual_type t u) (if n \<noteq> 0 then x else y)
   | _ \<Rightarrow> None)"

section \<open>Reading expressions\<close>

definition c_operators :: "(string, cop) dict" where
  "c_operators = [(''+'', Op_Add), (''-'', Op_Sub), (''*'', Op_Mul), (''&'', Op_And), (''|'', Op_Or),
     (''^'', Op_Xor), (''<<'', Op_Shl), (''>>'', Op_Shr), (''>'', Op_Gt)]"

text \<open>The type of a constant is the first that holds it; only hexadecimal ones can be unsigned.\<close>

definition lit_type :: "bool \<Rightarrow> nat \<Rightarrow> ctype" where
  "lit_type hex n = (if n < 2 ^ 31 then C_Int else if hex \<and> n < 2 ^ 32 then C_U32
     else if n < 2 ^ 63 then C_Long else C_U64)"

definition c_literal :: "bool \<Rightarrow> nat \<Rightarrow> cexp option" where
  "c_literal hex n = (if n < (if hex then 2 ^ 64 else 2 ^ 63) then Some (E_Lit (lit_type hex n, int n)) else None)"

text \<open>A name, or a member of \<open>regs\<close>.\<close>

definition read_name :: "string \<Rightarrow> string \<times> string" where
  "read_name s = (let w = takeWhile is_word s; r = dropWhile is_word s in
     if starts_with ''->'' r then (w @ ''->'' @ takeWhile is_word (drop 2 r), dropWhile is_word (drop 2 r)) else (w, r))"

definition read_constant :: "string \<Rightarrow> (cexp \<times> string) option" where
  "read_constant s =
     (let hex = starts_with ''0x'' s; p = (if hex then is_hex else is_digit);
          t = (if hex then drop 2 s else s)
      in case py_nat (if hex then 16 else 10) (takeWhile p t) of
           None \<Rightarrow> None
         | Some n \<Rightarrow> map_option (\<lambda>e. (e, dropWhile p t)) (c_literal hex n))"

definition read_binary :: "(string \<Rightarrow> (cexp \<times> string) option) \<Rightarrow> string \<Rightarrow> (cexp \<times> string) option" where
  "read_binary p s = (case p s of
     None \<Rightarrow> None
   | Some (e, r) \<Rightarrow> (case r of
       [] \<Rightarrow> Some (e, r)
     | c # t \<Rightarrow>
         if c \<noteq> CHR '' '' then Some (e, r)
         else (case map_of c_operators (takeWhile (\<lambda>c. c \<noteq> CHR '' '') t) of
             None \<Rightarrow> Some (e, r)
           | Some opr \<Rightarrow>
               map_option (\<lambda>(f, r'). (E_Bin opr e f, r')) (p (drop 1 (dropWhile (\<lambda>c. c \<noteq> CHR '' '') t))))))"

fun read_operand :: "nat \<Rightarrow> string \<Rightarrow> (cexp \<times> string) option" where
  "read_operand 0 s = None"
| "read_operand (Suc n) s =
     (if starts_with ''-'' s then map_option (\<lambda>(e, r). (E_Neg e, r)) (read_operand n (drop 1 s))
      else if starts_with ''(u32)'' s then map_option (\<lambda>(e, r). (E_Cast C_U32 e, r)) (read_operand n (drop 5 s))
      else if starts_with ''(u64)'' s then map_option (\<lambda>(e, r). (E_Cast C_U64 e, r)) (read_operand n (drop 5 s))
      else if starts_with ''(*'' s then
        (case read_name (drop 2 s) of (x, r) \<Rightarrow>
           if x \<noteq> [] \<and> starts_with '')'' r then Some (E_Var (''*'' @ x), drop 1 r) else None)
      else if starts_with ''('' s then
        (case read_binary (read_operand n) (drop 1 s) of
           None \<Rightarrow> None | Some (e, r) \<Rightarrow> if starts_with '')'' r then Some (e, drop 1 r) else None)
      else if s \<noteq> [] \<and> is_digit (hd s) then read_constant s
      else (case read_name s of (x, r) \<Rightarrow> if x = [] then None else Some (E_Var x, r)))"

declare read_operand.simps [simp del]

definition read_cexp :: "string \<Rightarrow> (cexp \<times> string) option" where
  "read_cexp s = (let p = read_binary (read_operand (length s)) in case p s of
     None \<Rightarrow> None
   | Some (e, r) \<Rightarrow>
       if starts_with '' ? '' r then (case p (drop 3 r) of
           None \<Rightarrow> None
         | Some (f, r2) \<Rightarrow>
             if starts_with '' : '' r2 then map_option (\<lambda>(g, r3). (E_Cond e f g, r3)) (p (drop 3 r2)) else None)
       else Some (e, r))"

section \<open>Statements\<close>

definition c_types :: "(string, ctype) dict" where
  "c_types = [(''u32'', C_U32), (''__u32'', C_U32), (''u64'', C_U64), (''__u64'', C_U64)]"

text \<open>\<open>TYPE NAME = EXPRESSION;\<close>, with the value converted to the type.\<close>

definition declared :: "(string \<Rightarrow> cval option) \<Rightarrow> string \<Rightarrow> (string \<times> cval) option" where
  "declared env s =
     (case (map_of c_types (takeWhile is_word s), read_name (drop 1 (dropWhile is_word s))) of
        (Some t, (x, r)) \<Rightarrow>
          if starts_with '' = '' r then (case read_cexp (drop 3 r) of
              Some (e, r2) \<Rightarrow> if r2 \<noteq> '';'' then None
                else (case c_value env e of None \<Rightarrow> None | Some (_, n) \<Rightarrow> map_option (Pair x) (fit t n))
            | None \<Rightarrow> None)
          else None
      | _ \<Rightarrow> None)"

text \<open>\<open>#define NAME EXPRESSION\<close>\<close>

definition defined_as :: "(string \<Rightarrow> cval option) \<Rightarrow> string \<Rightarrow> (string \<times> cval) option" where
  "defined_as env s = (case read_name s of (x, r) \<Rightarrow>
     case read_operand (length r) (drop 1 r) of
       None \<Rightarrow> None | Some (e, _) \<Rightarrow> map_option (Pair x) (c_value env e))"

text \<open>\<open>sie_write_kernel(&regs->F, sizeof(regs->F), &X);\<close> writes the eight bytes of \<open>X\<close>.\<close>

definition kernel_write :: "string \<Rightarrow> (string \<times> string) option" where
  "kernel_write s =
     (let f = takeWhile is_word (drop 24 s);
          x = takeWhile is_word (drop (length f + length '', sizeof(regs->'' + length f + length ''), &'') (drop 24 s))
      in if s = ''sie_write_kernel(&regs->'' @ f @ '', sizeof(regs->'' @ f @ ''), &'' @ x @ '');''
         then Some (f, x) else None)"

text \<open>\<open>__u64 *X = bpf_map_lookup_elem(&MAP, &key);\<close> and \<open>if (!X) return;\<close>\<close>

definition looked_up :: "string \<Rightarrow> (string \<times> string) option" where
  "looked_up s =
     (let x = takeWhile is_word (drop 7 s);
          m = takeWhile is_word (drop (length x + length '' = bpf_map_lookup_elem(&'') (drop 7 s))
      in if s = ''__u64 *'' @ x @ '' = bpf_map_lookup_elem(&'' @ m @ '', &key);'' then Some (x, m) else None)"

definition null_test :: "string \<Rightarrow> string option" where
  "null_test s = (let x = takeWhile is_word (drop 5 s) in
     if s = ''if (!'' @ x @ '') return;'' then Some x else None)"

type_synonym cregs = "string \<Rightarrow> 64 word"

text \<open>
  The registers after the lines, from the values of the per-CPU maps (\<open>None\<close>: no element) and of
  the names; \<open>None\<close> when a line is not understood or has no defined meaning.
\<close>

fun run_lines :: "(string \<Rightarrow> 64 word option) \<Rightarrow> (string \<Rightarrow> cval option) \<Rightarrow> cregs \<Rightarrow> string list \<Rightarrow> cregs option" where
  "run_lines maps env regs [] = Some regs"
| "run_lines maps env regs (line # lines) =
     (let s = lstrip_by is_space line in
      if s = [] \<or> starts_with ''//'' s \<or> starts_with ''static '' s then run_lines maps env regs lines
      else if s = ''}'' then Some regs
      else if starts_with ''#define '' s then (case defined_as env (drop 8 s) of
          None \<Rightarrow> None | Some (x, v) \<Rightarrow> run_lines maps (env(x \<mapsto> v)) regs lines)
      else if starts_with ''sie_write_kernel'' s then (case kernel_write s of
          None \<Rightarrow> None
        | Some (f, x) \<Rightarrow> (case env x of
            Some (C_U64, n) \<Rightarrow> run_lines maps env (regs(f := of_int n)) lines
          | _ \<Rightarrow> None))
      else if starts_with ''__u64 *'' s then (case looked_up s of
          None \<Rightarrow> None
        | Some (x, m) \<Rightarrow> run_lines maps (env(''*'' @ x := map_option (\<lambda>w. (C_U64, uint w)) (maps m))) regs lines)
      else if starts_with ''if (!'' s then (case null_test s of
          None \<Rightarrow> None
        | Some x \<Rightarrow> if env (''*'' @ x) = None then Some regs else run_lines maps env regs lines)
      else (case declared env s of
          None \<Rightarrow> None | Some (x, v) \<Rightarrow> run_lines maps (env(x \<mapsto> v)) regs lines))"

text \<open>The parameters of a helper: the registers and \<open>val\<close>.\<close>

definition helper_env :: "cregs \<Rightarrow> 64 word \<Rightarrow> string \<Rightarrow> cval option" where
  "helper_env regs val x =
     (if starts_with ''regs->'' x then Some (C_U64, uint (regs (drop 6 x)))
      else if x = ''val'' then Some (C_U64, uint val) else None)"

definition run_helper :: "(string \<Rightarrow> 64 word option) \<Rightarrow> string list \<Rightarrow> 64 word \<Rightarrow> cregs \<Rightarrow> cregs option" where
  "run_helper maps lines val regs = run_lines maps (helper_env regs val) regs lines"

section \<open>Reading what is written\<close>

definition stops_name :: "string \<Rightarrow> bool" where
  "stops_name r \<longleftrightarrow> r = [] \<or> \<not> is_word (hd r) \<and> \<not> starts_with ''->'' r"

definition reads :: "string \<Rightarrow> cexp \<Rightarrow> bool" where
  "reads s e \<longleftrightarrow> (\<forall>n r. length s \<le> n \<longrightarrow> stops_name r \<longrightarrow> read_operand n (s @ r) = Some (e, r))"

lemma stops_simps [simp]:
  "stops_name []" "stops_name (CHR '')'' # r)" "stops_name (CHR '' '' # r)" "stops_name (CHR '';'' # r)"
  by (simp_all add: stops_name_def is_word_def)

lemma word_span:
  "list_all P w \<Longrightarrow> r = [] \<or> \<not> P (hd r) \<Longrightarrow> takeWhile P (w @ r) = w \<and> dropWhile P (w @ r) = r"
  by (cases r) (auto simp: list_all_iff takeWhile_append dropWhile_append takeWhile_eq_all_conv)

lemma read_name_word: "list_all is_word w \<Longrightarrow> stops_name r \<Longrightarrow> read_name (w @ r) = (w, r)"
proof -
  assume w: "list_all is_word w" and r: "stops_name r"
  then have "takeWhile is_word (w @ r) = w \<and> dropWhile is_word (w @ r) = r"
    by (intro word_span) (auto simp: stops_name_def)
  moreover have "\<not> starts_with ''->'' r" using r by (auto simp: stops_name_def)
  ultimately show ?thesis by (simp add: read_name_def Let_def)
qed

lemma read_name_member:
  assumes "list_all is_word w" "list_all is_word f" "stops_name r"
  shows "read_name (w @ ''->'' @ f @ r) = (w @ ''->'' @ f, r)"
  using word_span [of is_word w "''->'' @ f @ r"] word_span [of is_word f r] assms
  by (auto simp: read_name_def stops_name_def is_word_def)

lemma digs_hex_digit: "list_all is_hex (digs 16 n)"
  using digs_hex [of 16] by (auto simp: list_all_iff)

lemma digs_all_digit: "list_all is_digit (digs 10 n)"
  using digs_digit by (auto simp: list_all_iff)

lemma digs_hd_digit: "is_digit (hd (digs 10 n))"
  using digs_digit [of "hd (digs 10 n)" n] hd_in_set by simp

lemma not_hex_prefix:
  assumes "stops_name r"
  shows "\<not> starts_with ''0x'' (digs 10 n @ r)"
proof
  assume "starts_with ''0x'' (digs 10 n @ r)"
  then obtain t where t: "digs 10 n @ r = CHR ''0'' # CHR ''x'' # t" by (auto simp: starts_with_iff)
  obtain c cs where d: "digs 10 n = c # cs" by (cases "digs 10 n") auto
  have x: "\<not> is_digit (CHR ''x'')" "is_word (CHR ''x'')" by (simp_all add: is_digit_def is_word_def)
  show False
  proof (cases cs)
    case Nil
    with t d have "r = CHR ''x'' # t" by simp
    with assms x(2) show False by (simp add: stops_name_def)
  next
    case (Cons c' cs')
    with t d have "CHR ''x'' \<in> set (digs 10 n)" by simp
    with x(1) digs_digit show False by blast
  qed
qed

lemma reads_decimal:
  assumes "n < 2 ^ 63"
  shows "reads (digs 10 n) (E_Lit (lit_type False n, int n))"
  unfolding reads_def
proof (intro allI impI)
  fix k r assume k: "length (digs 10 n) \<le> k" and r: "stops_name r"
  obtain c cs where d: "digs 10 n = c # cs" "is_digit c"
    using digs_hd_digit [of n] by (cases "digs 10 n") auto
  obtain k' where k': "k = Suc k'" using k d by (cases k) auto
  have c: "c \<noteq> CHR ''-''" "c \<noteq> CHR ''(''" using d(2) by (auto simp: is_digit_def)
  have "takeWhile is_digit (digs 10 n @ r) = digs 10 n \<and> dropWhile is_digit (digs 10 n @ r) = r"
    using r by (intro word_span digs_all_digit) (auto simp: stops_name_def intro: is_hex_is_word is_digit_is_hex)
  then have "read_constant (digs 10 n @ r) = Some (E_Lit (lit_type False n, int n), r)"
    using not_hex_prefix [OF r] assms by (simp add: read_constant_def Let_def py_nat_digs c_literal_def)
  then show "read_operand k (digs 10 n @ r) = Some (E_Lit (lit_type False n, int n), r)"
    using c d k' by (simp add: read_operand.simps)
qed

lemma reads_hex:
  assumes "n < 2 ^ 64"
  shows "reads (''0x'' @ digs 16 n) (E_Lit (lit_type True n, int n))"
  unfolding reads_def
proof (intro allI impI)
  fix k r assume k: "length (''0x'' @ digs 16 n) \<le> k" and r: "stops_name r"
  obtain k' where k': "k = Suc k'" using k by (cases k) auto
  have "takeWhile is_hex (digs 16 n @ r) = digs 16 n \<and> dropWhile is_hex (digs 16 n @ r) = r"
    using r by (intro word_span digs_hex_digit) (auto simp: stops_name_def intro: is_hex_is_word)
  then have "read_constant (''0x'' @ digs 16 n @ r) = Some (E_Lit (lit_type True n, int n), r)"
    using assms by (simp add: read_constant_def Let_def py_nat_digs c_literal_def)
  then show "read_operand k ((''0x'' @ digs 16 n) @ r) = Some (E_Lit (lit_type True n, int n), r)"
    by (simp add: k' is_digit_def read_operand.simps)
qed

lemma reads_var:
  assumes "list_all is_word x" "x \<noteq> []" "\<not> is_digit (hd x)"
  shows "reads x (E_Var x)"
  unfolding reads_def
proof (intro allI impI)
  fix k r assume k: "length x \<le> k" and r: "stops_name r"
  obtain c cs where x: "x = c # cs" using assms(2) by (cases x) auto
  obtain k' where k': "k = Suc k'" using k x by (cases k) auto
  have "c \<noteq> CHR ''-''" "c \<noteq> CHR ''(''" using assms(1) x by (auto simp: is_word_def)
  then show "read_operand k (x @ r) = Some (E_Var x, r)"
    using read_name_word [OF assms(1) r] assms(3) x by (simp add: k' read_operand.simps)
qed

lemma reads_member:
  assumes "list_all is_word f"
  shows "reads (''regs->'' @ f) (E_Var (''regs->'' @ f))"
  unfolding reads_def
proof (intro allI impI)
  fix k r assume k: "length (''regs->'' @ f) \<le> k" and r: "stops_name r"
  obtain k' where k': "k = Suc k'" using k by (cases k) auto
  show "read_operand k ((''regs->'' @ f) @ r) = Some (E_Var (''regs->'' @ f), r)"
    using read_name_member [of "''regs''" f r] assms r by (simp add: k' is_digit_def is_word_def read_operand.simps)
qed

lemma reads_deref:
  assumes "list_all is_word x" "x \<noteq> []"
  shows "reads (''(*'' @ x @ '')'') (E_Var (''*'' @ x))"
  unfolding reads_def
proof (intro allI impI)
  fix k r assume k: "length (''(*'' @ x @ '')'') \<le> k" and r: "stops_name r"
  obtain k' where k': "k = Suc k'" using k by (cases k) auto
  show "read_operand k ((''(*'' @ x @ '')'') @ r) = Some (E_Var (''*'' @ x), r)"
    using read_name_word [of x "CHR '')'' # r"] assms by (simp add: k' read_operand.simps)
qed

lemma reads_neg: "reads s e \<Longrightarrow> reads (''-'' @ s) (E_Neg e)"
  unfolding reads_def by (intro allI impI, rename_tac n r, case_tac n) (auto simp: read_operand.simps)

lemma reads_cast:
  "reads s e \<Longrightarrow> reads (''(u32)'' @ s) (E_Cast C_U32 e)"
  "reads s e \<Longrightarrow> reads (''(u64)'' @ s) (E_Cast C_U64 e)"
  unfolding reads_def by (intro allI impI, rename_tac n r, case_tac n; simp add: read_operand.simps)+

text \<open>What may follow an opening parenthesis so that it opens neither a cast nor a dereference.\<close>

definition opens :: "string \<Rightarrow> bool" where
  "opens s \<longleftrightarrow> s \<noteq> [] \<and> hd s \<noteq> CHR ''u'' \<and> hd s \<noteq> CHR ''*''"

lemma opens_simps [simp]:
  "opens (c # s) \<longleftrightarrow> c \<noteq> CHR ''u'' \<and> c \<noteq> CHR ''*''" "\<not> opens []"
  by (auto simp: opens_def)

lemma opens_append: "opens s \<Longrightarrow> opens (s @ t)"
  by (cases s) auto

lemma read_in_parens:
  assumes "opens s" "read_binary (read_operand k) (s @ '')'' @ r) = Some (e, '')'' @ r)"
  shows "read_operand (Suc k) ((''('' @ s @ '')'') @ r) = Some (e, r)"
  using assms by (cases s) (auto simp: read_operand.simps)

lemma read_binary_plain:
  "reads s e \<Longrightarrow> length s \<le> n \<Longrightarrow> stops_name r \<Longrightarrow> r = [] \<or> hd r \<noteq> CHR '' '' \<Longrightarrow>
     read_binary (read_operand n) (s @ r) = Some (e, r)"
proof -
  assume "reads s e" "length s \<le> n" "stops_name r" and r: "r = [] \<or> hd r \<noteq> CHR '' ''"
  then have s: "read_operand n (s @ r) = Some (e, r)" by (simp add: reads_def)
  show ?thesis unfolding read_binary_def s using r by (cases r) simp_all
qed

lemma reads_paren:
  assumes "reads s e" "opens s"
  shows "reads (''('' @ s @ '')'') e"
  unfolding reads_def
proof (intro allI impI)
  fix n r assume "length (''('' @ s @ '')'') \<le> n" "stops_name r"
  then obtain k where n: "n = Suc k" "length s \<le> k" by (cases n) auto
  show "read_operand n ((''('' @ s @ '')'') @ r) = Some (e, r)"
    unfolding n(1) by (rule read_in_parens [OF assms(2)], rule read_binary_plain [OF assms(1) n(2)]) simp_all
qed

fun op_text :: "cop \<Rightarrow> string" where
  "op_text Op_Add = ''+''"
| "op_text Op_Sub = ''-''"
| "op_text Op_Mul = ''*''"
| "op_text Op_And = ''&''"
| "op_text Op_Or = ''|''"
| "op_text Op_Xor = ''^''"
| "op_text Op_Shl = ''<<''"
| "op_text Op_Shr = ''>>''"
| "op_text Op_Gt = ''>''"

lemma read_binary_op:
  assumes "reads s e" "reads t f" "length s \<le> n" "length t \<le> n" "stops_name r"
  shows "read_binary (read_operand n) (s @ '' '' @ op_text opr @ '' '' @ t @ r) = Some (E_Bin opr e f, r)"
proof -
  have s: "read_operand n (s @ '' '' @ op_text opr @ '' '' @ t @ r) = Some (e, '' '' @ op_text opr @ '' '' @ t @ r)"
    using assms by (simp add: reads_def)
  have t: "read_operand n (t @ r) = Some (f, r)" using assms by (simp add: reads_def)
  show ?thesis unfolding read_binary_def s by (cases opr) (simp_all add: c_operators_def t)
qed

lemma reads_bin:
  assumes "reads s e" "reads t f" "opens s"
  shows "reads (bin (op_text opr) s t) (E_Bin opr e f)"
  unfolding reads_def
proof (intro allI impI)
  fix n r assume "length (bin (op_text opr) s t) \<le> n" "stops_name r"
  then obtain k where n: "n = Suc k" "length s \<le> k" "length t \<le> k" by (cases n) (auto simp: bin_def)
  have "read_operand (Suc k) ((''('' @ (s @ '' '' @ op_text opr @ '' '' @ t) @ '')'') @ r) = Some (E_Bin opr e f, r)"
    by (rule read_in_parens [OF opens_append [OF assms(3)]])
      (use read_binary_op [OF assms(1,2) n(2,3)] in simp)
  then show "read_operand n (bin (op_text opr) s t @ r) = Some (E_Bin opr e f, r)"
    by (simp add: bin_def n(1))
qed

lemma read_cexp_reads: "reads s e \<Longrightarrow> read_cexp (s @ '';'') = Some (e, '';'')"
  using read_binary_plain [of s e "length (s @ '';'')" "'';''"] by (simp add: read_cexp_def)

lemma read_cexp_cond:
  assumes "reads s e" "reads t f" "reads u g"
  shows "read_cexp (s @ '' ? '' @ t @ '' : '' @ u @ '';'') = Some (E_Cond e f g, '';'')"
proof -
  define n where "n = length (s @ '' ? '' @ t @ '' : '' @ u @ '';'')"
  have n: "length s \<le> n" "length t \<le> n" "length u \<le> n" by (simp_all add: n_def)
  have s: "read_operand n (s @ '' ? '' @ t @ '' : '' @ u @ '';'') = Some (e, '' ? '' @ t @ '' : '' @ u @ '';'')"
    and t: "read_operand n (t @ '' : '' @ u @ '';'') = Some (f, '' : '' @ u @ '';'')"
    and u: "read_operand n (u @ '';'') = Some (g, '';'')"
    using assms n by (simp_all add: reads_def)
  show ?thesis
    unfolding read_cexp_def Let_def n_def [symmetric] read_binary_def s
    by (simp add: t [simplified] u c_operators_def)
qed

section \<open>Relationships and compound expressions\<close>

text \<open>The tree of a written relationship (\<open>c_text\<close>), and its value.\<close>

definition lit_exp :: "int \<Rightarrow> cexp" where
  "lit_exp n = (if n < 0 then E_Neg (E_Lit (lit_type False (nat (- n)), - n)) else E_Lit (lit_type False (nat n), n))"

fun cx_exp :: "cx \<Rightarrow> cexp" where
  "cx_exp CVal = E_Var ''val''"
| "cx_exp (CLit n) = lit_exp n"
| "cx_exp (CNeg e) = E_Neg (cx_exp e)"
| "cx_exp (CAdd e f) = E_Bin Op_Add (cx_exp e) (cx_exp f)"
| "cx_exp (CMul e f) = E_Bin Op_Mul (cx_exp e) (cx_exp f)"

lemma reads_literal: "\<bar>n\<bar> < 2 ^ 63 \<Longrightarrow> reads (py_str n) (lit_exp n)"
  using reads_decimal [of "nat \<bar>n\<bar>"] reads_neg [OF reads_decimal [of "nat (- n)"]]
  by (auto simp: py_str_def lit_exp_def nat_less_iff)

lemma opens_digs [simp]: "opens (digs 10 n @ s)"
  using digs_hd_digit [of n] by (cases "digs 10 n") (auto simp: is_digit_def)

lemma opens_text: "opens (c_text e)"
  using opens_digs [of _ "[]"] by (cases e) (auto simp: py_str_def)

lemma reads_sum: "reads s e \<Longrightarrow> reads t f \<Longrightarrow> opens s \<Longrightarrow> reads (''('' @ s @ '' + '' @ t @ '')'') (E_Bin Op_Add e f)"
  and reads_product: "reads s e \<Longrightarrow> reads t f \<Longrightarrow> opens s \<Longrightarrow> reads (''('' @ s @ '' * '' @ t @ '')'') (E_Bin Op_Mul e f)"
  using reads_bin [of s e t f Op_Add] reads_bin [of s e t f Op_Mul] by (simp_all add: bin_def)

lemma reads_val: "reads ''val'' (E_Var ''val'')"
  by (rule reads_var) (simp_all add: is_word_def is_digit_def)

fun cx_literals :: "cx \<Rightarrow> int set" where
  "cx_literals CVal = {}"
| "cx_literals (CLit n) = {n}"
| "cx_literals (CNeg e) = cx_literals e"
| "cx_literals (CAdd e f) = cx_literals e \<union> cx_literals f"
| "cx_literals (CMul e f) = cx_literals e \<union> cx_literals f"

lemma reads_cx: "\<forall>n \<in> cx_literals e. \<bar>n\<bar> < 2 ^ 63 \<Longrightarrow> reads (c_text e) (cx_exp e)"
proof (induction e)
  case (CNeg e)
  then have "reads (''-'' @ c_text e) (E_Neg (cx_exp e))" by (intro reads_neg) simp
  from reads_paren [OF this] show ?case by simp
qed (simp_all add: reads_val reads_literal reads_sum [simplified] reads_product [simplified] opens_text)

text \<open>Values.\<close>

definition u64_val :: "64 word \<Rightarrow> cval" where
  "u64_val w = (C_U64, uint w)"

lemma uint_take: "take_bit 64 (uint (w :: 64 word)) = uint w"
  by (simp add: take_bit_int_eq_self_iff uint_nonnegative uint_lt2p [of w, simplified])

lemma take_uint: "take_bit 64 n = uint (of_int n :: 64 word)"
  by (simp add: uint_word_of_int_eq)

fun apply_op :: "cop \<Rightarrow> 64 word \<Rightarrow> 64 word \<Rightarrow> 64 word" where
  "apply_op Op_Add x y = x + y"
| "apply_op Op_Sub x y = x - y"
| "apply_op Op_Mul x y = x * y"
| "apply_op Op_And x y = x AND y"
| "apply_op Op_Or x y = x OR y"
| "apply_op Op_Xor x y = x XOR y"
| "apply_op Op_Shl x y = push_bit (unat y) x"
| "apply_op Op_Shr x y = drop_bit (unat y) x"
| "apply_op Op_Gt x y = (if x > y then 1 else 0)"

lemma usual_u64 [simp]: "usual_type C_U64 t = C_U64" "usual_type t C_U64 = C_U64"
  by (cases t; simp add: usual_type_def)+

lemma arith_u64:
  assumes "opr \<notin> {Op_Shl, Op_Shr, Op_Gt}"
  shows "fit C_U64 (c_arith opr (uint x) (uint y)) = Some (u64_val (apply_op opr x y))"
proof -
  have "of_int (c_arith opr (uint x) (uint y)) = apply_op opr x y"
    using assms by (cases opr) (simp_all add: c_arith_def flip: uint_and uint_or uint_xor)
  then show ?thesis by (simp add: u64_val_def take_uint del: uint_word_of_int_eq)
qed

lemma fit_uint: "fit C_U64 (uint (x :: 64 word)) = Some (C_U64, uint x)"
  by (simp only: fit.simps uint_take)

lemma fit_int: "fit C_U64 n = Some (C_U64, uint (of_int n :: 64 word))"
  by (simp only: fit.simps take_uint)

lemma binary_u64:
  assumes "opr \<notin> {Op_Shl, Op_Shr, Op_Gt}"
  shows "c_binary opr (u64_val x) (t, n) = Some (u64_val (apply_op opr x (of_int n)))"
    "c_binary opr (t, n) (u64_val x) = Some (u64_val (apply_op opr (of_int n) x))"
proof -
  have o: "opr \<noteq> Op_Shl" "opr \<noteq> Op_Shr" "opr \<noteq> Op_Gt" using assms by auto
  show "c_binary opr (u64_val x) (t, n) = Some (u64_val (apply_op opr x (of_int n)))"
    unfolding c_binary_def u64_val_def prod.case usual_u64 Let_def fit_uint fit_int [of n]
      option.case arith_u64 [OF assms, unfolded u64_val_def] using o by (simp only: if_False simp_thms)
  show "c_binary opr (t, n) (u64_val x) = Some (u64_val (apply_op opr (of_int n) x))"
    unfolding c_binary_def u64_val_def prod.case usual_u64 Let_def fit_uint fit_int [of n]
      option.case arith_u64 [OF assms, unfolded u64_val_def] using o by (simp only: if_False simp_thms)
qed

lemma shift_u64:
  assumes "opr \<in> {Op_Shl, Op_Shr}" "unat y < 64"
  shows "c_binary opr (u64_val x) (t, uint y) = Some (u64_val (apply_op opr x y))"
proof -
  have y: "0 \<le> uint y" "uint y < 64" "nat (uint y) = unat y"
  proof -
    have "uint y = int (unat y)" by simp
    then show "0 \<le> uint y" "uint y < 64" "nat (uint y) = unat y" using assms(2) by linarith+
  qed
  have "of_int (push_bit (unat y) (uint x)) = (push_bit (unat y) x :: 64 word)"
    by (simp add: push_bit_eq_mult)
  then have l: "fit C_U64 (push_bit (unat y) (uint x)) = Some (u64_val (push_bit (unat y) x))"
    by (simp only: fit_int u64_val_def)
  have r: "fit C_U64 (drop_bit (unat y) (uint x)) = Some (u64_val (drop_bit (unat y) x))"
  proof -
    have "uint (drop_bit (unat y) x) = drop_bit (unat y) (uint x)"
      by (rule bit_eqI) (simp add: bit_unsigned_iff bit_drop_bit_eq)
    then show ?thesis using fit_uint [of "drop_bit (unat y) x"] by (simp only: u64_val_def)
  qed
  from assms(1) consider "opr = Op_Shl" | "opr = Op_Shr" by blast
  then show ?thesis
    using y l r unfolding c_binary_def u64_val_def by cases (simp_all del: fit.simps)
qed


definition env_val :: "(string \<Rightarrow> cval option) \<Rightarrow> 64 word \<Rightarrow> bool" where
  "env_val env v \<longleftrightarrow> env ''val'' = Some (u64_val v)"

lemma lit_fits: "0 \<le> n \<Longrightarrow> n < 2 ^ 63 \<Longrightarrow> fit (lit_type False (nat n)) (- n) = Some (lit_type False (nat n), - n)"
  by (auto simp: lit_type_def nat_less_iff)

lemma lit_value: "\<bar>n\<bar> < 2 ^ 63 \<Longrightarrow> \<exists>t. c_value env (lit_exp n) = Some (t, n)"
  using lit_fits [of "- n"] by (auto simp: lit_exp_def)

text \<open>A written relationship has the value of \<open>c_eval\<close>.\<close>

lemma linear_exp_value:
  assumes "env_val env v" "\<bar>a\<bar> < 2 ^ 63" "\<bar>b\<bar> < 2 ^ 63"
  shows "c_value env (cx_exp (linear_cx a b)) = Some (u64_val (of_int a * v + of_int b))"
proof -
  obtain t u where l: "c_value env (lit_exp a) = Some (t, a)" "c_value env (lit_exp b) = Some (u, b)"
    using lit_value assms(2,3) by blast
  have v: "env ''val'' = Some (u64_val v)" using assms(1) by (simp add: env_val_def)
  have n: "c_value env (E_Neg (E_Var ''val'')) = Some (u64_val (- v))"
    using fit_int [of "- uint v"] by (simp add: v u64_val_def del: fit.simps)
  show ?thesis
    using n by (auto simp: linear_cx_def Let_def l v binary_u64 mult.commute simp del: c_binary_def)
qed

lemma linear_literals: "cx_literals (linear_cx a b) \<subseteq> {a, b}"
  by (auto simp: linear_cx_def Let_def)

lemma reads_linear: "\<bar>a\<bar> < 2 ^ 63 \<Longrightarrow> \<bar>b\<bar> < 2 ^ 63 \<Longrightarrow> reads (int_expr a b) (cx_exp (linear_cx a b))"
  using linear_literals [of a b] reads_cx [of "linear_cx a b"] by (auto simp: int_expr_text)

text \<open>
  The compound expressions of an irreversible kprobe: operations on the saved register, one
  after the other, with literals of the listing and fitted relationships as right operands.
  \<open>build_compound_expr\<close> writes a relationship as a cast, \<open>(u32)(..)\<close> or \<open>(u64)(..)\<close>.
\<close>

datatype right_operand = Literal nat | Fitted bool int int

datatype compound = Saved | Then compound cop right_operand

fun right_text :: "right_operand \<Rightarrow> string" where
  "right_text (Literal n) = ''0x'' @ digs 16 n"
| "right_text (Fitted wide a b) = (if wide then ''(u64)('' else ''(u32)('') @ int_expr a b @ '')''"

fun compound_text :: "string \<Rightarrow> compound \<Rightarrow> string" where
  "compound_text saved Saved = saved"
| "compound_text saved (Then e opr x) = bin (op_text opr) (compound_text saved e) (right_text x)"

fun operand_value :: "64 word \<Rightarrow> right_operand \<Rightarrow> 64 word" where
  "operand_value v (Literal n) = of_nat n"
| "operand_value v (Fitted wide a b) = (let r = of_int a * v + of_int b in if wide then r else ucast (ucast r :: 32 word))"

fun compound_value :: "64 word \<Rightarrow> 64 word \<Rightarrow> compound \<Rightarrow> 64 word" where
  "compound_value saved v Saved = saved"
| "compound_value saved v (Then e opr x) = apply_op opr (compound_value saved v e) (operand_value v x)"

text \<open>Operations C defines: literals of 64 bits, no comparison, shifts by less than 64.\<close>

fun operand_ok :: "right_operand \<Rightarrow> bool" where
  "operand_ok (Literal n) \<longleftrightarrow> n < 2 ^ 64"
| "operand_ok (Fitted wide a b) \<longleftrightarrow> \<bar>a\<bar> < 2 ^ 63 \<and> \<bar>b\<bar> < 2 ^ 63"

fun compound_ok :: "64 word \<Rightarrow> compound \<Rightarrow> bool" where
  "compound_ok v Saved \<longleftrightarrow> True"
| "compound_ok v (Then e opr x) \<longleftrightarrow> compound_ok v e \<and> operand_ok x \<and> opr \<noteq> Op_Gt \<and>
     (opr \<in> {Op_Shl, Op_Shr} \<longrightarrow> unat (operand_value v x) < 64)"

fun operand_exp :: "right_operand \<Rightarrow> cexp" where
  "operand_exp (Literal n) = E_Lit (lit_type True n, int n)"
| "operand_exp (Fitted wide a b) = E_Cast (if wide then C_U64 else C_U32) (cx_exp (linear_cx a b))"

fun compound_exp :: "string \<Rightarrow> compound \<Rightarrow> cexp" where
  "compound_exp saved Saved = E_Var saved"
| "compound_exp saved (Then e opr x) = E_Bin opr (compound_exp saved e) (operand_exp x)"

lemma opens_linear: "opens (int_expr a b)"
  by (simp add: int_expr_text opens_text)

lemma reads_operand: "operand_ok x \<Longrightarrow> reads (right_text x) (operand_exp x)"
proof (cases x)
  case (Fitted wide a b)
  assume "operand_ok x"
  then have "reads (''('' @ int_expr a b @ '')'') (cx_exp (linear_cx a b))"
    by (intro reads_paren reads_linear opens_linear) (simp_all add: Fitted)
  from reads_cast [OF this] show ?thesis by (simp add: Fitted)
qed (use reads_hex in simp)

lemma reads_compound:
  assumes "reads saved (E_Var x)" "opens saved"
  shows "compound_ok v e \<Longrightarrow> reads (compound_text saved e) (compound_exp x e) \<and> opens (compound_text saved e)"
  by (induction e) (simp_all add: assms reads_bin reads_operand, simp add: bin_def)

lemma operand_exp_value:
  assumes "env_val env v" "operand_ok x"
  shows "\<exists>t. c_value env (operand_exp x) = Some (t, uint (operand_value v x))"
proof (cases x)
  case (Literal n)
  then show ?thesis using assms(2) by (simp add: unsigned_of_nat take_bit_nat_eq_self)
next
  case (Fitted wide a b)
  let ?r = "of_int a * v + of_int b :: 64 word"
  have l: "c_value env (cx_exp (linear_cx a b)) = Some (u64_val ?r)"
    using assms by (intro linear_exp_value) (simp_all add: Fitted)
  have "take_bit 32 (uint ?r) = uint (ucast (ucast ?r :: 32 word) :: 64 word)"
    by (simp add: unsigned_ucast_eq unsigned_take_bit_eq)
  then show ?thesis using uint_take [of ?r] by (simp add: Fitted l u64_val_def Let_def)
qed

lemma compound_exp_value:
  assumes "env saved = Some (u64_val m)" "env_val env v"
  shows "compound_ok v e \<Longrightarrow> c_value env (compound_exp saved e) = Some (u64_val (compound_value m v e))"
proof (induction e)
  case (Then e opr x)
  obtain t where x: "c_value env (operand_exp x) = Some (t, uint (operand_value v x))"
    using operand_exp_value [OF assms(2), of x] Then.prems by auto
  show ?case
  proof (cases "opr \<in> {Op_Shl, Op_Shr}")
    case True
    with Then.prems have "unat (operand_value v x) < 64" by auto
    from shift_u64 [OF True this] Then x show ?thesis by simp
  next
    case False
    with Then have "opr \<notin> {Op_Shl, Op_Shr, Op_Gt}" by auto
    with Then x show ?thesis by (simp add: binary_u64)
  qed
qed (simp add: assms)

text \<open>Replacing \<open>(*saved)\<close> in the text gives the text over the other name.\<close>

fun compound_tail :: "compound \<Rightarrow> string" where
  "compound_tail Saved = []"
| "compound_tail (Then e opr x) = compound_tail e @ '' '' @ op_text opr @ '' '' @ right_text x @ '')''"

fun compound_depth :: "compound \<Rightarrow> nat" where
  "compound_depth Saved = 0"
| "compound_depth (Then e opr x) = Suc (compound_depth e)"

lemma compound_text_flat:
  "compound_text saved e = replicate (compound_depth e) (CHR ''('') @ saved @ compound_tail e"
  by (induction e) (simp_all add: bin_def)

lemma no_s_digs: "2 \<le> b \<Longrightarrow> b \<le> 16 \<Longrightarrow> CHR ''s'' \<notin> set (digs b n)"
  using digs_hex [of b "CHR ''s''" n] by (auto simp: is_hex_def)

lemma no_s_tail: "CHR ''s'' \<notin> set (compound_tail e)"
proof -
  have "CHR ''s'' \<notin> set (c_text f)" for f by (induction f) (auto simp: py_str_def no_s_digs)
  then have "CHR ''s'' \<notin> set (right_text x)" for x
    by (cases x) (auto simp: int_expr_text no_s_digs)
  moreover have "CHR ''s'' \<notin> set (op_text opr)" for opr by (cases opr) auto
  ultimately show ?thesis by (induction e) auto
qed

lemma replace_parens: "py_replace ''(*saved)'' y (replicate n (CHR ''('') @ ''(*saved)'' @ t) =
    replicate n (CHR ''('') @ y @ py_replace ''(*saved)'' y t"
proof (induction n)
  case (Suc n)
  then show ?case by (cases n) simp_all
qed simp

lemma replace_compound:
  "py_replace ''(*saved)'' y (compound_text ''(*saved)'' e) = compound_text y e"
proof -
  have "\<not> contains ''(*saved)'' (compound_tail e)"
    using no_s_tail [of e] by (auto simp: contains_iff)
  then show ?thesis
    unfolding compound_text_flat replace_parens by (simp add: py_replace_absent)
qed

section \<open>Running the lines of a helper\<close>

definition name_ok :: "string \<Rightarrow> bool" where
  "name_ok x \<longleftrightarrow> x \<noteq> [] \<and> list_all is_word x \<and> \<not> is_digit (hd x)"

lemma lstrip_indent: "lstrip_by is_space (''    '' @ s) = lstrip_by is_space s"
  by (simp add: lstrip_by_def is_space_def)

lemma lstrip_cons: "\<not> is_space c \<Longrightarrow> lstrip_by is_space (c # s) = c # s"
  by (simp add: lstrip_by_def)

lemma run_comment:
  "run_lines maps env regs ((''//'' @ s) # ls) = run_lines maps env regs ls"
  "run_lines maps env regs ((''    //'' @ s) # ls) = run_lines maps env regs ls"
  "run_lines maps env regs ((''static '' @ s) # ls) = run_lines maps env regs ls"
  "run_lines maps env regs ([] # ls) = run_lines maps env regs ls"
  "run_lines maps env regs (''}'' # ls) = Some regs"
  by (simp_all add: lstrip_by_def is_space_def)

lemma run_define:
  assumes "list_all is_word x" "0 \<le> n" "n < 2 ^ 63"
  shows "run_lines maps env regs ((''#define '' @ x @ '' '' @ py_str n @ ''  '' @ c) # ls) =
    run_lines maps (env(x \<mapsto> (lit_type False (nat n), n))) regs ls"
proof -
  have "read_name (x @ '' '' @ py_str n @ ''  '' @ c) = (x, '' '' @ py_str n @ ''  '' @ c)"
    using assms(1) by (intro read_name_word) simp_all
  moreover have "read_operand (length ('' '' @ py_str n @ ''  '' @ c)) (py_str n @ ''  '' @ c) = Some (lit_exp n, ''  '' @ c)"
    using reads_literal [of n] assms(2,3) by (simp add: reads_def)
  moreover have "c_value env (lit_exp n) = Some (lit_type False (nat n), n)" using assms(2) by (simp add: lit_exp_def)
  ultimately have "defined_as env (x @ '' '' @ py_str n @ ''  '' @ c) = Some (x, (lit_type False (nat n), n))"
    by (simp add: defined_as_def)
  then show ?thesis by (auto simp: lstrip_by_def is_space_def)
qed

lemma run_declared:
  assumes "map_of c_types ty = Some t" "name_ok x"
    and "read_cexp (s @ '';'') = Some (e, '';'')" "c_value env e = Some (u, n)" "fit t n = Some v"
  shows "run_lines maps env regs ((''    '' @ ty @ '' '' @ x @ '' = '' @ s @ '';'') # ls) =
    run_lines maps (env(x \<mapsto> v)) regs ls"
proof -
  have ty: "ty \<in> {''u32'', ''__u32'', ''u64'', ''__u64''}"
    using assms(1) by (auto simp: c_types_def split: if_splits)
  then have w: "list_all is_word ty" by (auto simp: is_word_def)
  have sp: "takeWhile is_word (ty @ '' '' @ x @ '' = '' @ s @ '';'') = ty"
    "dropWhile is_word (ty @ '' '' @ x @ '' = '' @ s @ '';'') = '' '' @ x @ '' = '' @ s @ '';''"
    using word_span [OF w, of "'' '' @ x @ '' = '' @ s @ '';''"] by (simp_all add: is_word_def)
  have x: "read_name (x @ '' = '' @ s @ '';'') = (x, '' = '' @ s @ '';'')"
    using assms(2) by (intro read_name_word) (simp_all add: name_ok_def)
  have d: "declared env (ty @ '' '' @ x @ '' = '' @ s @ '';'') = Some (x, v)"
    unfolding declared_def sp using assms x by simp
  have "\<not> is_word (CHR ''*'')" by (simp add: is_word_def)
  then obtain c cs where c: "x = c # cs" "c \<noteq> CHR ''*''"
    using assms(2) by (cases x) (auto simp: name_ok_def)
  have n: "lstrip_by is_space (''    '' @ ty @ '' '' @ x @ '' = '' @ s @ '';'') = ty @ '' '' @ x @ '' = '' @ s @ '';''"
    unfolding lstrip_indent using ty by (auto simp: lstrip_by_def is_space_def)
  have "run_lines maps env regs ((''    '' @ ty @ '' '' @ x @ '' = '' @ s @ '';'') # ls) =
      (case declared env (ty @ '' '' @ x @ '' = '' @ s @ '';'') of
        None \<Rightarrow> None | Some (x, v) \<Rightarrow> run_lines maps (env(x \<mapsto> v)) regs ls)"
    unfolding run_lines.simps Let_def n using ty c by auto
  then show ?thesis unfolding d by (simp only: option.case prod.case)
qed

lemma written_back:
  assumes "list_all is_word f" "list_all is_word x"
  shows "kernel_write (''sie_write_kernel(&regs->'' @ f @ '', sizeof(regs->'' @ f @ ''), &'' @ x @ '');'') = Some (f, x)"
proof -
  let ?s = "''sie_write_kernel(&regs->'' @ f @ '', sizeof(regs->'' @ f @ ''), &'' @ x @ '');''"
  have f: "takeWhile is_word (drop 24 ?s) = f"
    using word_span [OF assms(1), of "'', sizeof(regs->'' @ f @ ''), &'' @ x @ '');''"] by (simp add: is_word_def)
  have x: "takeWhile is_word (drop (length f + length '', sizeof(regs->'' + length f + length ''), &'') (drop 24 ?s)) = x"
  proof -
    have "drop 24 ?s = (f @ '', sizeof(regs->'' @ f @ ''), &'') @ x @ '');''" by simp
    moreover have "length f + length '', sizeof(regs->'' + length f + length ''), &''
        = length (f @ '', sizeof(regs->'' @ f @ ''), &'')" by simp
    ultimately have "drop (length f + length '', sizeof(regs->'' + length f + length ''), &'') (drop 24 ?s) = x @ '');''"
      by (metis append_eq_conv_conj)
    then show ?thesis using word_span [OF assms(2), of "'');''"] by (simp add: is_word_def)
  qed
  show ?thesis unfolding kernel_write_def Let_def f x by simp
qed

lemma run_write_back:
  assumes "list_all is_word f" "list_all is_word x" "env x = Some (u64_val w)"
  shows "run_lines maps env regs (write_back f x # ls) = run_lines maps env (regs(f := w)) ls"
  using written_back [OF assms(1,2)] assms(3)
  by (simp add: write_back_def lstrip_by_def is_space_def u64_val_def)

lemma run_lookup:
  assumes "list_all is_word m"
  shows "run_lines maps env regs ((''    __u64 *saved = bpf_map_lookup_elem(&'' @ m @ '', &key);'') # ls) =
    run_lines maps (env(''*saved'' := map_option u64_val (maps m))) regs ls"
proof -
  have "takeWhile is_word (m @ '', &key);'') = m" using word_span [OF assms, of "'', &key);''"] by (simp add: is_word_def)
  then have "looked_up (''__u64 *saved = bpf_map_lookup_elem(&'' @ m @ '', &key);'') = Some (''saved'', m)"
    by (simp add: looked_up_def is_word_def)
  then show ?thesis by (simp add: lstrip_by_def is_space_def u64_val_def [abs_def])
qed

lemma run_null_test:
  "run_lines maps env regs (''    if (!saved) return;'' # ls) =
     (if env ''*saved'' = None then Some regs else run_lines maps env regs ls)"
  by (simp add: lstrip_by_def is_space_def null_test_def is_word_def)


declare run_lines.simps(2) [simp del]

section \<open>What the helpers do\<close>

lemma named [simp]: "name_ok ''cur''" "name_ok ''saved_inferred''" "name_ok ''result''" "name_ok ''new_val''"
  "list_all is_word ''result''" "list_all is_word ''new_val''" "list_all is_word ''saved''"
  by (simp_all add: name_ok_def is_word_def is_digit_def)

lemma num_word: "list_all is_word (num i)"
  using digs_all_digit [of i] by (auto simp: num_def py_str_def list_all_iff intro: is_hex_is_word is_digit_is_hex)

lemma env_start: "env_val (helper_env regs v) v" "helper_env regs v (''regs->'' @ f) = Some (u64_val (regs f))"
  by (simp_all add: env_val_def helper_env_def u64_val_def)

lemma env_update: "x \<noteq> ''val'' \<Longrightarrow> env_val (env(x := y)) v = env_val env v"
  by (simp add: env_val_def)

lemma fit_val: "fit C_U64 (uint (w :: 64 word)) = Some (u64_val w)"
  by (simp only: fit_uint u64_val_def)

lemma simple_runs:
  assumes "list_all is_word (field_of reg)" "\<bar>a\<bar> < 2 ^ 63" "\<bar>b\<bar> < 2 ^ 63"
  shows "run_helper maps (helper_simple prefix i (Some reg) (int_expr a b)) v regs =
    Some (regs(field_of reg := of_int a * v + of_int b))"
proof -
  let ?w = "of_int a * v + of_int b"
  have d: "run_lines maps (helper_env regs v) regs ((''    '' @ ''u64'' @ '' '' @ ''new_val'' @ '' = '' @ int_expr a b @ '';'') # ls) =
      run_lines maps ((helper_env regs v)(''new_val'' \<mapsto> u64_val ?w)) regs ls" for ls
    by (rule run_declared [OF _ _ read_cexp_reads [OF reads_linear [OF assms(2,3)]]
          linear_exp_value [OF env_start(1) assms(2,3), unfolded u64_val_def] fit_val])
      (simp_all add: c_types_def)
  have w: "run_lines maps ((helper_env regs v)(''new_val'' \<mapsto> u64_val ?w)) regs
      (write_back (field_of reg) ''new_val'' # ls) =
      run_lines maps ((helper_env regs v)(''new_val'' \<mapsto> u64_val ?w)) (regs(field_of reg := ?w)) ls" for ls
    by (rule run_write_back [OF assms(1) named(6)]) simp
  show ?thesis
    using d w run_comment
    by (simp add: run_helper_def helper_simple_def helper_open_def Let_def shown_def)
qed

text \<open>The compound value is written; nothing when the map has no element.\<close>

lemma reads_zero: "reads ''0'' (E_Lit (C_Int, 0))"
proof -
  have "digs 10 0 = ''0''" by code_simp
  then show ?thesis using reads_decimal [of 0] by (simp add: lit_type_def)
qed

lemma run_result:
  assumes "reads saved (E_Var x)" "opens saved" "env x = Some (u64_val m)" "env_val env v" "compound_ok v e"
  shows "run_lines maps env regs ((''    u64 result = (u64)'' @ compound_text saved e @ '';'') # ls) =
    run_lines maps (env(''result'' \<mapsto> u64_val (compound_value m v e))) regs ls"
proof -
  have r: "reads (''(u64)'' @ compound_text saved e) (E_Cast C_U64 (compound_exp x e))"
    using reads_compound [OF assms(1,2,5)] by (intro reads_cast) blast
  have c: "c_value env (E_Cast C_U64 (compound_exp x e)) = Some (C_U64, uint (compound_value m v e))"
    using compound_exp_value [OF assms(3,4,5)] fit_val [of "compound_value m v e"]
    by (simp add: u64_val_def del: fit.simps)
  have "run_lines maps env regs ((''    '' @ ''u64'' @ '' '' @ ''result'' @ '' = '' @ (''(u64)'' @ compound_text saved e) @ '';'') # ls) =
      run_lines maps (env(''result'' \<mapsto> u64_val (compound_value m v e))) regs ls"
    by (rule run_declared [OF _ _ read_cexp_reads [OF r] c fit_val]) (simp_all add: c_types_def)
  then show ?thesis by simp
qed

lemma run_written:
  assumes "list_all is_word f" "env ''result'' = Some (u64_val w)"
  shows "run_lines maps env regs [write_back f ''result'', ''}'', []] = Some (regs(f := w))"
  unfolding run_write_back [of f "''result''" env w, OF assms(1) named(5) assms(2)] by (rule run_comment(5))

lemma irreversible_runs:
  assumes "list_all is_word (field_of reg)" "compound_ok v e"
  shows "run_helper maps (helper_irreversible prefix i (Some reg) seed (compound_text ''(*saved)'' e)) v regs =
    Some (case maps (''xk_save_'' @ num i) of None \<Rightarrow> regs | Some m \<Rightarrow> regs(field_of reg := compound_value m v e))"
proof -
  let ?env = "helper_env regs v" and ?m = "''xk_save_'' @ num i"
  let ?env1 = "?env(''key'' \<mapsto> (C_U32, 0))"
  let ?env2 = "?env1(''*saved'' := map_option u64_val (maps ?m))"
  have k: "run_lines maps ?env regs (''    __u32 key = 0;'' # ls) = run_lines maps ?env1 regs ls" for ls
    using run_declared [of "''__u32''" C_U32 "''key''" "''0''" "E_Lit (C_Int, 0)" ?env C_Int 0 "(C_U32, 0)" maps regs ls]
      read_cexp_reads [OF reads_zero]
    by (simp add: c_types_def name_ok_def is_word_def is_digit_def)
  have "list_all is_word ?m" using num_word by (simp add: is_word_def)
  then have l: "run_lines maps ?env1 regs ((''    __u64 *saved = bpf_map_lookup_elem(&'' @ ?m @ '', &key);'') # ls) =
      run_lines maps ?env2 regs ls" for ls by (rule run_lookup)
  have s: "reads ''(*saved)'' (E_Var ''*saved'')" using reads_deref [OF named(7)] by simp
  have d: "run_lines maps ?env2 regs ((''    u64 result = (u64)'' @ compound_text ''(*saved)'' e @ '';'') #
      [write_back (field_of reg) ''result'', ''}'', []]) = Some (regs(field_of reg := compound_value m v e))"
    if "maps ?m = Some m" for m
    by (subst run_result [OF s _ _ _ assms(2)]) (simp_all add: that [simplified] env_update env_start run_written [OF assms(1)])
  show ?thesis
    using run_comment k l [simplified] run_null_test d
    by (cases "maps ?m") (simp_all add: run_helper_def helper_irreversible_def helper_open_def Let_def shown_def)
qed

text \<open>After \<open>sbb\<close>: the mask concluded from the value \<open>cur\<close> of the register.\<close>

definition inferred_mask :: "int \<Rightarrow> 32 word \<Rightarrow> 64 word" where
  "inferred_mask v1_src cur = (if uint cur > v1_src then 0 else 0xFFFFFFFF)"

lemma reads_ones: "reads ''0xFFFFFFFF'' (E_Lit (C_U32, 0xFFFFFFFF))"
  unfolding reads_def
proof (intro allI impI)
  fix k r assume k: "length ''0xFFFFFFFF'' \<le> k" and r: "stops_name r"
  obtain k' where k': "k = Suc k'" using k by (cases k) auto
  have h: "list_all is_hex ''FFFFFFFF''" by (simp add: is_hex_def)
  have "takeWhile is_hex (''FFFFFFFF'' @ r) = ''FFFFFFFF'' \<and> dropWhile is_hex (''FFFFFFFF'' @ r) = r"
    using r by (intro word_span [OF h]) (auto simp: stops_name_def intro: is_hex_is_word)
  moreover have "py_nat 16 ''FFFFFFFF'' = Some 0xFFFFFFFF"
    by (simp add: py_nat_def dig_val_def dig_def)
  ultimately show "read_operand k (''0xFFFFFFFF'' @ r) = Some (E_Lit (C_U32, 0xFFFFFFFF), r)"
    by (simp add: k' read_operand.simps is_digit_def read_constant_def Let_def c_literal_def lit_type_def)
qed

lemma mask_value:
  assumes "env ''cur'' = Some (C_U32, uint (cur :: 32 word))" "env y = Some (lit_type False (nat n), n)"
    and "0 \<le> n" "n < 2 ^ 63"
  shows "c_value env (E_Cond (E_Bin Op_Gt (E_Var ''cur'') (E_Var y)) (E_Cast C_U64 (E_Lit (C_Int, 0)))
      (E_Cast C_U64 (E_Lit (C_U32, 0xFFFFFFFF)))) = Some (u64_val (inferred_mask n cur))"
proof -
  have c: "0 \<le> uint cur" "uint cur < 2 ^ 32" using uint_lt2p [of cur] by simp_all
  have "- (2 ^ 63) \<le> uint cur" by (rule order_trans [OF _ c(1)]) simp
  have "c_binary Op_Gt (C_U32, uint cur) (lit_type False (nat n), n) = Some (C_Int, if uint cur > n then 1 else 0)"
  proof (cases "n < 2 ^ 31")
    case True
    then have "take_bit 32 n = n" "take_bit 32 (uint cur) = uint cur"
      using assms(3) c by (simp_all add: take_bit_int_eq_self_iff)
    with True assms(3) show ?thesis
      by (simp add: c_binary_def lit_type_def usual_type_def nat_less_iff)
  next
    case False
    with assms(3,4) c \<open>- (2 ^ 63) \<le> uint cur\<close> show ?thesis
      by (simp add: c_binary_def lit_type_def usual_type_def nat_less_iff)
  qed
  then show ?thesis using assms(1,2) by (simp add: inferred_mask_def u64_val_def)
qed

lemma sbb_runs:
  assumes "list_all is_word (field_of reg)" "compound_ok v e" "0 \<le> n" "n < 2 ^ 63"
  shows "run_helper maps (helper_sbb prefix i (Some reg) seed (compound_text ''(*saved)'' e) n) v regs =
    Some (regs(field_of reg := compound_value (inferred_mask n (ucast (regs (field_of reg)))) v e))"
proof -
  let ?f = "field_of reg" and ?x = "''V_ORIG_'' @ num i"
  let ?cur = "ucast (regs ?f) :: 32 word" and ?m = "inferred_mask n (ucast (regs ?f))"
  let ?env1 = "(helper_env regs v)(?x \<mapsto> (lit_type False (nat n), n))"
  let ?env2 = "?env1(''cur'' \<mapsto> (C_U32, uint ?cur))"
  let ?env3 = "?env2(''saved_inferred'' \<mapsto> u64_val ?m)"
  have x: "list_all is_word ?x" using num_word by (simp add: is_word_def)
  have d1: "run_lines maps (helper_env regs v) regs ((''#define '' @ ?x @ '' '' @ py_str n @ ''  '' @ c) # ls) =
      run_lines maps ?env1 regs ls" for c ls by (rule run_define [OF x assms(3,4)])
  have r2: "reads (''(u32)'' @ ''('' @ (''regs->'' @ ?f) @ '')'') (E_Cast C_U32 (E_Var (''regs->'' @ ?f)))"
    by (intro reads_cast reads_paren reads_member assms(1)) simp
  have "take_bit 32 (uint (regs ?f)) = uint ?cur" by (simp add: unsigned_ucast_eq unsigned_take_bit_eq)
  then have v2: "c_value ?env1 (E_Cast C_U32 (E_Var (''regs->'' @ ?f))) = Some (C_U32, uint ?cur)"
    by (simp add: helper_env_def)
  have f2: "fit C_U32 (uint ?cur) = Some (C_U32, uint ?cur)"
    using uint_lt2p [of ?cur] by (simp add: take_bit_int_eq_self_iff)
  have d2: "run_lines maps ?env1 regs ((''    '' @ ''u32'' @ '' '' @ ''cur'' @ '' = ''
      @ (''(u32)'' @ ''('' @ (''regs->'' @ ?f) @ '')'') @ '';'') # ls) = run_lines maps ?env2 regs ls" for ls
    by (rule run_declared [OF _ _ read_cexp_reads [OF r2] v2 f2]) (simp_all add: c_types_def)
  have r3: "read_cexp (bin (op_text Op_Gt) ''cur'' ?x @ '' ? '' @ (''(u64)'' @ ''0'') @ '' : '' @ (''(u64)'' @ ''0xFFFFFFFF'') @ '';'') =
      Some (E_Cond (E_Bin Op_Gt (E_Var ''cur'') (E_Var ?x)) (E_Cast C_U64 (E_Lit (C_Int, 0)))
        (E_Cast C_U64 (E_Lit (C_U32, 0xFFFFFFFF))), '';'')"
    using x named(1) by (intro read_cexp_cond reads_bin reads_cast reads_zero reads_ones reads_var)
      (simp_all add: name_ok_def is_digit_def)
  have "c_value ?env2 (E_Cond (E_Bin Op_Gt (E_Var ''cur'') (E_Var ?x)) (E_Cast C_U64 (E_Lit (C_Int, 0)))
      (E_Cast C_U64 (E_Lit (C_U32, 0xFFFFFFFF)))) = Some (u64_val ?m)"
    by (rule mask_value [OF _ _ assms(3,4)]) simp_all
  then have v3: "c_value ?env2 (E_Cond (E_Bin Op_Gt (E_Var ''cur'') (E_Var ?x)) (E_Cast C_U64 (E_Lit (C_Int, 0)))
      (E_Cast C_U64 (E_Lit (C_U32, 0xFFFFFFFF)))) = Some (C_U64, uint ?m)" by (simp only: u64_val_def)
  have d3: "run_lines maps ?env2 regs ((''    '' @ ''u64'' @ '' '' @ ''saved_inferred'' @ '' = '' @
      (bin (op_text Op_Gt) ''cur'' ?x @ '' ? '' @ (''(u64)'' @ ''0'') @ '' : '' @ (''(u64)'' @ ''0xFFFFFFFF'')) @ '';'') # ls) =
      run_lines maps ?env3 regs ls" for ls
    by (rule run_declared [OF _ _ _ v3 fit_val]) (use r3 in \<open>simp_all add: c_types_def\<close>)
  have s: "reads ''saved_inferred'' (E_Var ''saved_inferred'')"
    using named(2) by (intro reads_var) (simp_all add: name_ok_def)
  have d4: "run_lines maps ?env3 regs ((''    u64 result = (u64)'' @ compound_text ''saved_inferred'' e @ '';'') #
      [write_back ?f ''result'', ''}'', []]) = Some (regs(?f := compound_value ?m v e))"
    by (subst run_result [OF s _ _ _ assms(2)]) (simp_all add: env_update env_start run_written [OF assms(1)])
  show ?thesis
    using run_comment d1 [simplified] d2 [simplified] d3 [simplified] d4
    by (simp add: run_helper_def helper_sbb_def helper_open_def Let_def shown_def replace_compound bin_def)
qed

lemma field_word: "map_of ptregs_fields reg \<noteq> None \<Longrightarrow> list_all is_word (field_of reg)"
  by (auto simp: field_of_def dget_def ptregs_fields_def is_word_def split: if_splits)

text \<open>
  C35: what a generated helper does to the registers when its text is run as C, for a kprobe on
  a register with the integer relationship \<open>a * V + b\<close>, the constant \<open>v1_src\<close> and a policy's
  value \<open>val\<close>. The helper of a simple kprobe sets the register to \<open>a * val + b\<close>. The helper of
  an irreversible one evaluates its compound expression on the saved register, and does
  nothing when none was saved. The helper after \<open>sbb\<close> evaluates it on the mask that it infers:
  0 when the low half of the register is larger than \<open>v1_src\<close>, else \<open>0xFFFFFFFF\<close>. No other
  register changes. Compound expressions are chains of operations on the saved value, with
  literals and fitted relationships as right operands; arithmetic is that of \<open>u64\<close>.
\<close>

theorem helpers_run:
  assumes "kp_actual_reg_name kp = Some reg" and "map_of ptregs_fields reg \<noteq> None"
    and "kp_relationship kp = (Fin (of_int a), Fin (of_int b))" and "\<bar>a\<bar> \<le> 2 ^ 53" and "\<bar>b\<bar> \<le> 2 ^ 53"
    and "0 \<le> v1_src" and "v1_src < 2 ^ 63" and "compound_ok val e"
  shows "(\<exists>ls. helper_lines prefix v1_src i (kp\<lparr>kp_synthesis := Simple\<rparr>) = Inr ls \<and>
      run_helper maps ls val regs = Some (regs(field_of reg := of_int a * val + of_int b))) \<and>
    (\<exists>ls. helper_lines prefix v1_src i
        (kp\<lparr>kp_synthesis := Irreversible (Some s) (compound_text ''(*saved)'' e) False\<rparr>) = Inr ls \<and>
      run_helper maps ls val regs = Some (case maps (''xk_save_'' @ num i) of
        None \<Rightarrow> regs | Some m \<Rightarrow> regs(field_of reg := compound_value m val e))) \<and>
    (\<exists>ls. helper_lines prefix v1_src i
        (kp\<lparr>kp_synthesis := Irreversible (Some s) (compound_text ''(*saved)'' e) True\<rparr>) = Inr ls \<and>
      run_helper maps ls val regs = Some (regs(field_of reg := compound_value
        (if uint (ucast (regs (field_of reg)) :: 32 word) > v1_src then 0 else 0xFFFFFFFF) val e)))"
proof -
  have f: "list_all is_word (field_of reg)" by (rule field_word [OF assms(2)])
  have "\<bar>a\<bar> < 2 ^ 63" "\<bar>b\<bar> < 2 ^ 63" using assms(4,5) by simp_all
  note runs = simple_runs [OF f this] irreversible_runs [OF f assms(8)]
    sbb_runs [OF f assms(8,6,7), unfolded inferred_mask_def]
  show ?thesis
    by (simp add: helper_lines_def assms(1,3) build_expr_exact [OF assms(4,5)] runs)
qed

text \<open>
  A choice between the constant \<open>V\<close> and 10, as compilers write it: \<open>and $(V - 10)\<close>, \<open>add $10\<close>
  after \<open>sbb\<close>. The text is that of \<open>build_compound_expr\<close> for \<open>V\<close> = 40, 41, 42.
\<close>

definition sample_compound :: compound where
  "sample_compound = Then (Then Saved Op_And (Fitted False 1 (-10))) Op_Add (Literal 10)"

lemma sample_compound_text:
  "compound_text ''(*saved)'' sample_compound = ''(((*saved) & (u32)((val + -10))) + 0xa)''"
  by code_simp

lemma sample_pieces:
  "contains placeholder (hide_saved ''r1'' ''((r1 & 0x1e) + 0xa)'')"
  "normalize_expr (hide_saved ''r1'' ''((r1 & 0x1f) + 0xa)'') = normalize_expr (hide_saved ''r1'' ''((r1 & 0x1e) + 0xa)'')"
  "normalize_expr (hide_saved ''r1'' ''((r1 & 0x20) + 0xa)'') = normalize_expr (hide_saved ''r1'' ''((r1 & 0x1e) + 0xa)'')"
  "extract_nums (hide_saved ''r1'' ''((r1 & 0x1e) + 0xa)'') = [30, 10]"
  "extract_nums (hide_saved ''r1'' ''((r1 & 0x1f) + 0xa)'') = [31, 10]"
  "extract_nums (hide_saved ''r1'' ''((r1 & 0x20) + 0xa)'') = [32, 10]"
  "re_pieces rx_num None [] (hide_saved ''r1'' ''((r1 & 0x1e) + 0xa)'') =
     ([(''((__SAVED__ & '', ''0x1e'', []), ('') + '', ''0xa'', [])], '')'')"
  by code_simp+

lemma sample_built:
  "build_compound_expr (''((r1 & 0x1e) + 0xa)'', ''((r1 & 0x1f) + 0xa)'', ''((r1 & 0x20) + 0xa)'') ''r1'' (40, 41, 42) 32
     = Inr (Some (compound_text ''(*saved)'' sample_compound))"
proof -
  have r: "find_linear_relationship [Some 40, Some 41, Some 42] [Some 30, Some 31, Some 32] = Inr (Some (Fin 1, Fin (-10)))"
    using find_linear_exact [of 40 41 1 "-10" 42] by (simp add: safe_ints_def)
  have b: "build_expr (Fin 1) (Fin (-10)) = Inr ''(val + -10)''"
  proof -
    have "int_expr 1 (-10) = ''(val + -10)''" by code_simp
    then show ?thesis using build_expr_exact [of 1 "-10"] by simp
  qed
  have u: "''u'' @ py_str (int 32) = ''u32''"
    "py_replace placeholder ''(*saved)'' ''((__SAVED__ & (u32)((val + -10))) + 0xa)'' = ''(((*saved) & (u32)((val + -10))) + 0xa)''"
    by code_simp+
  show ?thesis
    unfolding build_compound_expr_def prod.case Let_def sample_pieces sample_compound_text
    using u by (simp add: r b sample_pieces(1))
qed

theorem helpers_run_witness:
  "compound_value 0xFFFFFFFF 45 sample_compound = 45 \<and>
   (\<exists>ls. helper_lines ''1'' 40 0 (sample_kprobe\<lparr>kp_synthesis := Irreversible (Some 16) (compound_text ''(*saved)'' sample_compound) True\<rparr>) = Inr ls \<and>
     run_helper (\<lambda>_. None) ls 45 (\<lambda>_. 40) = Some ((\<lambda>_. 40)(''ax'' := 45)))"
proof -
  have v: "compound_value 0xFFFFFFFF 45 sample_compound = 45"
    by (simp add: sample_compound_def)
  have f: "field_of ''eax'' = ''ax''" "map_of ptregs_fields ''eax'' \<noteq> None" by code_simp+
  have "compound_ok 45 sample_compound" by (simp add: sample_compound_def)
  from helpers_run [of sample_kprobe "''eax''" 1 0 40 45 sample_compound "''1''" 0 "\<lambda>_. None" "\<lambda>_. 40" 16, OF _ f(2) _ _ _ _ _ this]
  show ?thesis using v f by (simp add: sample_kprobe_def)
qed

section \<open>When the inferred mask is wrong\<close>

lemma inference_right_iff:
  "(\<forall>m \<in> {0, 0xFFFFFFFF}. inferred_mask v (ucast (compound_value m (of_int v) e)) = m) \<longleftrightarrow>
     uint (ucast (compound_value 0 (of_int v) e) :: 32 word) > v \<and>
     uint (ucast (compound_value 0xFFFFFFFF (of_int v) e) :: 32 word) \<le> v"
  by (auto simp: inferred_mask_def)

text \<open>A value smaller than the constant is taken for the constant: 10 becomes the policy's value.\<close>

lemma smaller_value_overwritten:
  "compound_value 0 40 sample_compound = 10 \<and> inferred_mask 40 10 = 0xFFFFFFFF \<and>
   compound_value 0xFFFFFFFF 45 sample_compound = 45"
  by (simp add: inferred_mask_def sample_compound_def)

text \<open>
  The sum is not cut to the 32 bits of the register: with 50 instead of 10 a carry is written
  to its upper half, which the \<open>add\<close> of the program clears.
\<close>

lemma carry_written:
  "compound_value 0xFFFFFFFF 45 (Then (Then Saved Op_And (Fitted False 1 (-50))) Op_Add (Literal 50)) = 0x10000002D"
  by simp

end
