(* ===== verification/Spec2Isabelle.thy ===== *)
theory Spec2Isabelle
  imports Sym_Sound Table_Print Pipeline Lifecycle_Inv Image_Readback Image_Build
    Lifecycle_Wait Tunable_Config Load_Summary Cli_Build Cli_Commands XTune_Gen Codegen_Print Single_Gen Cli_Main Helper_Run
begin

text \<open>
  Verification of Xkernel's user-space tools (\<open>src/\<close>): the code generator
  \<open>codegen.py\<close>, which turns three builds of one kernel object into kprobes that
  replace a compile-time constant at run time, the image differ \<open>diff.py\<close> that makes and
  compares the builds, the table manager \<open>table.py\<close>, and the loader \<open>loader.py\<close> with the
  commands of \<open>cli.py\<close> that load and unload a constant.

  THE PROGRAM. A tunable is a constant in the kernel source. The object file is built with
  the original value \<open>V\<close> and with two other values; \<open>diff.py\<close> compares the listings and
  prints the basic blocks of the changed instructions, marked, and \<open>gen.py\<close> cuts these out of
  the output into one file per build. The generator executes the blocks
  symbolically, finds the constant of each block that varies, fits a line
  \<open>IV = a * V + b\<close> through the three builds, picks the place and kind of a kprobe
  that rewrites the register, the store or the comparison, moves the offsets to the running
  kernel, writes a BPF policy and a header of helpers, and records code sections, safe spans
  and the tunable in tab-separated tables. The table manager queries, prints and deletes the
  rows of these tables. A build reads the tunables from a TOML file (\<open>config.py\<close>) and runs differ and
  generator for each. Loading a constant compiles its policy, attaches it, writes its spans
  and variables into the maps of the loaded program and notes it as active in the scope table
  and in a JSON file of run-time state; unloading reverses this. \<open>xtune.py\<close> writes a fresh policy for a
  constant from the comments of the old one.

  THEORIES, in the order they build on each other.
  \<^item> \<open>Py_Prelude\<close>: exceptions as values (\<open>'a res\<close>), dictionaries with insertion order,
    the locale \<open>codec\<close> of encodings that can be read back.
  \<^item> \<open>Py_Strings\<close>, \<open>Py_Regex\<close>, \<open>Py_Float\<close>, \<open>Py_Csv\<close>: the parts of Python's standard
    library the program uses: string methods and \<open>int\<close>, a backtracking matcher for
    \<open>re\<close> (sound and complete for the relation \<open>mrel\<close>), IEEE doubles as rationals
    with rounding, and the reader and writer of \<open>csv\<close>.
  \<^item> \<open>Asm_Text\<close>: helpers on one objdump line (\<open>_split_asm_operands\<close>,
    \<open>get_register_family\<close>, \<open>instruction_reads_register\<close>, \<open>get_insn_byte_count\<close>,
    \<open>extract_immediate_values\<close>, \<open>check_jump_optimizable\<close>).
  \<^item> \<open>Sym_Exec\<close>: \<open>class SymbolicExecutor\<close>; its fields are the record \<open>sx\<close>, its methods
    functions that return the new record; \<open>run_symbolic_exec_on_instructions\<close>. The locale
    \<open>sx_preserved\<close> lifts an invariant of the register allocator through all instructions.
  \<^item> \<open>Sym_Sound\<close>: what the executor promises: objdump lines are read back, and every
    expression denotes the value a machine on \<open>64 word\<close> registers computes.
  \<^item> \<open>BB_Files\<close>: the readers of basic-block files, result files and the test list.
  \<^item> \<open>Expr_Diff\<close>: \<open>compare_expressions\<close>, \<open>find_changed_ranges\<close>, effects of an instruction
    and the effect filter.
  \<^item> \<open>Iv_Linear\<close>: \<open>find_linear_relationship\<close> and the C expressions written from it.
  \<^item> \<open>Kprobe_Synth\<close>: the per-block loop of \<open>analyze_linear_relationship\<close>.
  \<^item> \<open>Kcore_Translate\<close>: \<open>translate_kprobe_offsets_to_vmlinux\<close> and the listings it reads.
  \<^item> \<open>Bpf_Gen\<close>: \<open>generate_multi_kprobe_bpf_file\<close>, \<open>parse_bpf_kprobes\<close>;
    \<open>Helper_Run\<close>: an interpreter for the C of the generated helpers, which reads their text.
  \<^item> \<open>Btf_Proto\<close>: prototypes from \<open>bpftool btf dump\<close>.
  \<^item> \<open>Scope_Tables\<close>: the five tables as files; the locale \<open>interning\<close> is the contract of
    an index table, interpreted on the CS and on the SS table.
  \<^item> \<open>Table_Manager\<close>, \<open>Table_Print\<close>: queries, deletion and printed tables of \<open>table.py\<close>.
  \<^item> \<open>Pipeline\<close>: \<open>analyze_linear_relationship\<close> from the placed kprobes on,
    \<open>_populate_ss_raw_single\<close> and \<open>run_codegen_single\<close>, composed of the parts above.
  \<^item> \<open>Py_Json\<close>: reader and writer of \<open>json\<close>, an instance of \<open>codec\<close>.
  \<^item> \<open>Host_Io\<close>: the world of the loader (files, and the commands run so far), the monad of its
    operations, and the locale \<open>io_contract\<close>: a relation between the worlds before and after
    that composition preserves. It is interpreted six times: the log only grows, a file is
    untouched, a frame of files (\<open>frame\<close>), the list of active constants (\<open>rt\<close>), the scope
    table (\<open>kept\<close>), files only disappear (\<open>removal\<close>).
  \<^item> \<open>Bpf_Maps\<close>: the bytes \<open>bpftool map update\<close> is given; the maps after a log of commands.
  \<^item> \<open>Bpf_Loader\<close>: compiling, attaching, modules, run-time state; \<open>Jump_Opt\<close>: the search for
    an offset the kernel optimises.
  \<^item> \<open>Image_Filter\<close>: the signatures of instructions and \<open>filter_address_offset_diff\<close>;
    \<open>Image_Difflib\<close>: \<open>diff_ignore_number_colon\<close> and what it uses of \<open>difflib\<close>;
    \<open>Image_Blocks\<close>: functions, instructions and basic blocks of a listing;
    \<open>Image_Report\<close>: steps 10 to 12 of \<open>diff.py\<close> as the printed text, and \<open>gen.py\<close>;
    \<open>Image_Readback\<close>: the printed blocks through \<open>gen.py\<close> and \<open>BB_Files\<close>;
    \<open>Image_Build\<close>: \<open>main\<close> of \<open>diff.py\<close>, with the compiler and the other tools as parameters.
  \<^item> \<open>Lifecycle\<close>: \<open>cmd_load\<close>, \<open>cmd_unload\<close>, \<open>cmd_table\<close>; \<open>Lifecycle_Inv\<close>: the states the
    commands reach (\<open>reachable\<close>) and their invariant; \<open>Lifecycle_Wait\<close>: the locale \<open>polling\<close> of loops
    that sleep and ask, interpreted on the three waiting loops of a transition and an unload.
  \<^item> \<open>Load_Summary\<close>: the kprobes read back from generated comments and the box that is printed.
  \<^item> \<open>Tunable_Config\<close>: \<open>config.py\<close> on parsed TOML values, and the safe spans of the analysis.
  \<^item> \<open>Cli_Build\<close>: \<open>cmd_build\<close> and \<open>cmd_run\<close>, composed of \<open>gen.py\<close> and the generator over the world of
    \<open>Host_Io\<close>; \<open>Cli_Commands\<close>: status, cleaning, transition statistics and the standalone loader;
    \<open>XTune_Gen\<close>: \<open>xtune.py\<close>; \<open>Cli_Main\<close>: \<open>main\<close> over all commands, and sessions of commands.
  \<^item> \<open>Codegen_Print\<close>: the listings \<open>print_kprobe_placement\<close>, \<open>print_jump_optimization\<close> and
    \<open>print_expression_diff\<close>; \<open>Single_Gen\<close>: the generators for one kprobe, which no command calls.

  STATE. A file is its text, \<open>None\<close> when it does not exist; the tables are a record of five
  such files, and an operation returns the new record. What another program prints
  (\<open>objdump\<close>, \<open>grep\<close>, \<open>bpftool\<close>) is a parameter. An exception is the left value of
  \<open>'a res\<close>; after one, the state of the files is not described for the code generator. In the
  loader an exception carries the world it happened in, and the answers of commands are a
  function \<open>h_run\<close> of the commands before and the command itself, on which nothing is assumed. A
  directory is the set of files below it.

  WHAT THE LEMMAS SHOW. \<open>Sym_Sound\<close>: a simulation of the executor by a machine, by induction
  over the listing. \<open>Iv_Linear\<close>: the fitted line is exact on small integers, rounding errors
  included, and the C text evaluates to it. \<open>Kprobe_Synth\<close>, \<open>Kcore_Translate\<close>: where a
  kprobe may go. \<open>Bpf_Gen\<close>: generated files are consistent and can be read back;
  \<open>Helper_Run\<close>: what the text of a helper does to the registers when it is run (the helpers of
  memory stores and comparisons call other functions and are not run).
  \<open>Scope_Tables\<close>, \<open>Pipeline\<close>: the files refine dictionaries and interning tables, and a
  recorded constant resolves to the text of its code sections. \<open>Bpf_Maps\<close>: what the kernel's
  maps hold after a load. \<open>Image_Filter\<close>: what the filter drops cancels out;
  \<open>Image_Difflib\<close>: the difference without line numbers is an edit script, empty for equal listings;
  \<open>Image_Readback\<close>: what is printed is what is read; \<open>Image_Build\<close>: by a rule per combinator
  of its actions (\<open>ends_in\<close>, \<open>retains\<close>), a run that ends restores the source.
  \<open>Lifecycle_Inv\<close>: by rule induction over \<open>reachable\<close>, the two records of what is active agree, and a
  load is all or nothing; \<open>Cli_Main\<close> carries this to sessions of all commands that leave the tables to
  the loader. \<open>Lifecycle_Wait\<close>: a transition is noticed in the round it is reported. \<open>Load_Summary\<close>,
  \<open>XTune_Gen\<close>: the comments of a policy are read back by both readers, and a regenerated policy lists
  the same kprobes. \<open>Tunable_Config\<close>: what is loaded is well formed, and the analysis only fills in what
  is missing. \<open>Cli_Commands\<close>: figures are reported as the kernel keeps them, and cleaning forgets the
  state. \<open>Codegen_Print\<close>: the listing shows the window a kprobe was placed in and never raises. Lemmas
  named in a finding of the
  manifest show that the code does something other than it means to.

  BOUNDS. Loops are structural recursion or have a measure; \<open>resolve_type\<close> of \<open>Btf_Proto\<close>
  counts down the code's own depth limit (21 levels). \<open>wait_transition\<close> and \<open>rmmod_kfuncs\<close>
  count the rounds of the code's \<open>for\<close> loops; \<open>poll_reverse\<close> ends when the parameter \<open>h_late\<close>
  says that 30 seconds have passed, and at the latest after 60 rounds, each of which sleeps half
  a second. No other definition uses fuel.

  NOT MODELLED. Progress messages and the text of the help, creating directories, the argument parsers
  of \<open>table.py\<close>, \<open>diff.py\<close> and \<open>loader.py\<close>, the parser of TOML (its value is a parameter); newline
  translation of text files, signed zeros; characters outside ASCII are their bytes in UTF-8, or code
  points where widths matter. What \<open>sudo rm\<close>, \<open>make\<close> and the table manager run as a child process do to
  files is outside the world. Of \<open>diff.py\<close>, what is printed before step 10. \<open>legacy/\<close> and \<open>ae/\<close> (an earlier prototype and the plots of the artifact
  evaluation), the kernel modules and the BPF library in C, and the demo policies are left out: the
  tool does not call them, or they are not Python.
\<close>

end
